(* ===== verification/Moksha_Prelude.thy ===== *)
theory Moksha_Prelude
  imports Main "HOL-Library.Word"
begin

text \<open>
  Shared vocabulary of the development: the C++ idioms that occur in every component and the
  lemmas about them that the component proofs use.

  \<^item> Bytes and pointers.  A source buffer is a list of bytes (\<open>char\<close>); a \<open>const char *\<close>
    into it is its offset from \<open>bufferStart\<close>, and \<open>bufferEnd\<close> is the length of the list.
  \<^item> The byte classes of \<open><cctype>\<close> in the C locale, for every byte (bytes above 127 are in
    no class).
  \<^item> \<open>advance_while\<close>: the loop \<open>while (p < end && P(*p)) p++\<close>, with its closed form over
    \<open>takeWhile\<close>; and the scans over lists the components share.
  \<^item> Vectors used as sets: \<open>push_unique\<close> (\<open>std::find\<close> then \<open>push_back\<close>), \<open>erase_all\<close>
    (\<open>erase(remove(..))\<close>).
\<close>

named_theorems ptr_arith \<open>bounds of the cursor after a scanning step\<close>
named_theorems cctype \<open>definitions of the byte classes\<close>

type_synonym bytes = "char list"
type_synonym ptr = nat

subsection \<open>Byte classes\<close>

abbreviation byte :: "char \<Rightarrow> nat" where
  "byte c \<equiv> of_char c"

definition NUL :: char where
  "NUL = CHR 0x00"

definition in_range :: "char \<Rightarrow> char \<Rightarrow> char \<Rightarrow> bool" where
  "in_range lo hi c \<longleftrightarrow> byte lo \<le> byte c \<and> byte c \<le> byte hi"

definition isdigit :: "char \<Rightarrow> bool" where
  "isdigit c \<longleftrightarrow> in_range CHR ''0'' CHR ''9'' c"

definition isalpha :: "char \<Rightarrow> bool" where
  "isalpha c \<longleftrightarrow> in_range CHR ''a'' CHR ''z'' c \<or> in_range CHR ''A'' CHR ''Z'' c"

definition isalnum :: "char \<Rightarrow> bool" where
  "isalnum c \<longleftrightarrow> isalpha c \<or> isdigit c"

definition isspace :: "char \<Rightarrow> bool" where
  "isspace c \<longleftrightarrow> c = CHR '' '' \<or> in_range CHR 0x09 CHR 0x0D c"

lemmas cctype_defs [cctype] =
  in_range_def isdigit_def isalpha_def isalnum_def isspace_def NUL_def

subsection \<open>Scanning loops\<close>

text \<open>\<open>while (p < bufferEnd && P( *p)) p++\<close>\<close>

function advance_while :: "(char \<Rightarrow> bool) \<Rightarrow> bytes \<Rightarrow> ptr \<Rightarrow> ptr" where
  "advance_while P b p =
     (if p < length b \<and> P (b ! p) then advance_while P b (Suc p) else p)"
  by pat_completeness auto
termination
  by (relation "measure (\<lambda>(P, b, p). length b - p)") auto

declare advance_while.simps [simp del]

lemma advance_while_takeWhile:
  "advance_while P b p = p + length (takeWhile P (drop p b))"
proof (induction P b p rule: advance_while.induct)
  case (1 P b p)
  show ?case
  proof (cases "p < length b \<and> P (b ! p)")
    case True
    then have "drop p b = b ! p # drop (Suc p) b" by (simp add: Cons_nth_drop_Suc)
    with True 1 show ?thesis by (subst advance_while.simps) simp
  next
    case False
    then have "takeWhile P (drop p b) = []"
      by (cases "p < length b") (auto simp: Cons_nth_drop_Suc [symmetric])
    with False show ?thesis by (subst advance_while.simps) auto
  qed
qed

lemma advance_while_ge [ptr_arith]: "p \<le> advance_while P b p"
  by (simp add: advance_while_takeWhile)

lemma advance_while_le [ptr_arith]: "p \<le> length b \<Longrightarrow> advance_while P b p \<le> length b"
  using length_takeWhile_le [of P "drop p b"] by (simp add: advance_while_takeWhile)

lemma advance_while_skipped:
  "p \<le> q \<Longrightarrow> q < advance_while P b p \<Longrightarrow> P (b ! q)"
proof (induction P b p rule: advance_while.induct)
  case (1 P b p)
  show ?case
  proof (cases "p < length b \<and> P (b ! p)")
    case True
    with 1 show ?thesis
      by (cases "p = q") (auto simp: advance_while.simps [of P b p])
  next
    case False
    with "1.prems" show ?thesis by (auto simp: advance_while.simps [of P b p])
  qed
qed

lemma advance_while_stop:
  "advance_while P b p < length b \<Longrightarrow> \<not> P (b ! advance_while P b p)"
proof (induction P b p rule: advance_while.induct)
  case (1 P b p)
  then show ?case
    by (cases "p < length b \<and> P (b ! p)") (auto simp: advance_while.simps [of P b p])
qed

lemma advance_while_step:
  "p < length b \<Longrightarrow> P (b ! p) \<Longrightarrow> p < advance_while P b p"
  using advance_while_ge [of "Suc p" P b] by (simp add: advance_while.simps [of P b p])

text \<open>A run of bytes of a class followed by the end or by a byte outside it is skipped exactly.\<close>

lemma advance_while_run:
  assumes "b = pre @ xs @ post" and "\<forall>c \<in> set xs. P c"
    and "post = [] \<or> \<not> P (hd post)"
  shows "advance_while P b (length pre) = length pre + length xs"
proof -
  have "takeWhile P (xs @ post) = xs @ takeWhile P post"
    using assms(2) by simp
  moreover have "takeWhile P post = []"
    using assms(3) by (cases post) auto
  ultimately show ?thesis
    using assms(1) by (simp add: advance_while_takeWhile)
qed

subsection \<open>Vectors used as sets\<close>

text \<open>
  \<open>if (std::find(v.begin(), v.end(), x) == v.end()) v.push_back(x)\<close> and
  \<open>v.erase(std::remove(v.begin(), v.end(), x), v.end())\<close>.
\<close>

definition push_unique :: "'a \<Rightarrow> 'a list \<Rightarrow> 'a list" where
  "push_unique x v = (if x \<in> set v then v else v @ [x])"

definition erase_all :: "'a \<Rightarrow> 'a list \<Rightarrow> 'a list" where
  "erase_all x v = filter (\<lambda>y. y \<noteq> x) v"

lemma set_push_unique [simp]: "set (push_unique x v) = insert x (set v)"
  by (auto simp: push_unique_def)

lemma distinct_push_unique [simp]: "distinct (push_unique x v) \<longleftrightarrow> distinct v"
  by (auto simp: push_unique_def)

lemma set_erase_all [simp]: "set (erase_all x v) = set v - {x}"
  by (auto simp: erase_all_def)

lemma distinct_erase_all [intro]: "distinct v \<Longrightarrow> distinct (erase_all x v)"
  by (simp add: erase_all_def)

lemma erase_push_unique: "x \<notin> set v \<Longrightarrow> erase_all x (push_unique x v) = v"
  by (auto simp: erase_all_def push_unique_def filter_id_conv)

text \<open>Searching a list by a key.\<close>

lemma find_unique: "distinct (map f xs) \<Longrightarrow> x \<in> set xs \<Longrightarrow> List.find (\<lambda>y. f y = f x) xs = Some x"
  by (induction xs) auto

lemma find_member: "List.find P xs = Some x \<Longrightarrow> x \<in> set xs \<and> P x"
  by (metis find_Some_iff nth_mem)

text \<open>\<open>std::to_string\<close> of an unsigned number.\<close>

fun to_string :: "nat \<Rightarrow> string" where
  "to_string n = (if n < 10 then [char_of (48 + n)] else to_string (n div 10) @ [char_of (48 + n mod 10)])"

declare to_string.simps [simp del]

end
