(* ===== verification/Diagnostics.thy ===== *)
theory Diagnostics
  imports Moksha_Prelude
begin

text \<open>
  The diagnostic engine (\<open>include/moksha/Support/Diagnostics.h\<close>,
  \<open>lib/support/diagnostics/Diagnostics.cpp\<close>): the identifiers, their severity and text, and
  \<open>report\<close>/\<open>emit\<close> on the engine's state.  A \<open>DiagnosticBuilder\<close> is a temporary that collects
  the streamed arguments and emits in its destructor, so \<open>Diags.report(loc, id) << msg\<close> is
  one state change, \<open>report\<close>.  \<open>SrcMgr.PrintMessage\<close> belongs to LLVM; the model records the
  message handed to it in \<open>printed\<close>, oldest first.
\<close>

datatype (plugins only: code) DiagID =
    err_unexpected_char | err_unexpected_token | err_expected_expression | err_expected_token
  | err_symbol_redefinition | err_undeclared_identifier | err_variable_redeclaration
  | err_function_redeclaration
  | err_type_mismatch | err_type_incompatible_assignment | err_type_incompatible_return
  | err_const_violation | err_if_condition_bool | err_invalid_bin_op | err_invalid_unary_op
  | err_invalid_cast | err_missing_return | err_invalid_access | err_member_collision
  | err_argument_count_mismatch | err_unreachable_code | err_decimal_precision_loss
  | err_decimal_overflow | err_array_length | err_spread_fixed_array
  | err_ambiguous_inheritance | err_ambiguous_reference | err_null_assignment
  | err_infinite_size | err_generic_constraint | err_generic_arity | err_uninitialized_var
  | err_builtin_shadowing
  | err_unexpanded_macro | err_invalid_type | err_not_implemented
  | err_borrow_violation | err_mutation_while_borrowed | err_borrow_escape
  | err_use_after_move | err_partial_move | note_borrow_occurred_here
  | warn_switch_not_exhaustive | warn_not_implemented | warn_unused_variable
  | warn_implicit_bool_conv
  | err_await_in_sync_lock | err_thread_in_async_lock | err_async_lock_target
  | note_previous_definition | err_no_member | err_unknown_type | err_break_outside_loop
  | err_continue_outside_loop | err_invalid_this | err_invalid_super | err_internal
  | err_missing_builtin


text \<open>\<open>llvm::SourceMgr::DiagKind\<close>, as far as this code uses it.\<close>

datatype DiagKind = DK_Error | DK_Warning | DK_Note

definition getDiagnosticKind :: "DiagID \<Rightarrow> DiagKind" where
  "getDiagnosticKind i =
     (case i of
        note_previous_definition \<Rightarrow> DK_Note
      | warn_unused_variable \<Rightarrow> DK_Warning
      | warn_switch_not_exhaustive \<Rightarrow> DK_Warning
      | warn_not_implemented \<Rightarrow> DK_Warning
      | warn_implicit_bool_conv \<Rightarrow> DK_Warning
      | _ \<Rightarrow> DK_Error)"

definition getDiagnosticText :: "DiagID \<Rightarrow> string" where
  "getDiagnosticText i =
     (case i of
        err_unexpected_char \<Rightarrow> ''Unexpected character''
      | err_unexpected_token \<Rightarrow> ''Unexpected token''
      | err_expected_expression \<Rightarrow> ''Expected expression''
      | err_expected_token \<Rightarrow> ''Expected token''
      | err_symbol_redefinition \<Rightarrow> ''Redefinition of symbol''
      | err_undeclared_identifier \<Rightarrow> ''Undeclared identifier''
      | err_variable_redeclaration \<Rightarrow> ''Variable already declared in this scope''
      | err_function_redeclaration \<Rightarrow> ''Function already declared''
      | err_internal \<Rightarrow> ''Internal compiler error''
      | err_type_mismatch \<Rightarrow> ''Type mismatch''
      | err_const_violation \<Rightarrow> ''Cannot assign to const variable''
      | err_type_incompatible_assignment \<Rightarrow> ''Incompatible types in assignment''
      | err_type_incompatible_return \<Rightarrow> ''Return value type does not match function return type''
      | err_if_condition_bool \<Rightarrow> '''if' condition must be boolean''
      | err_invalid_bin_op \<Rightarrow> ''Invalid operands for binary operator''
      | err_invalid_unary_op \<Rightarrow> ''Invalid operand for unary operator''
      | err_invalid_cast \<Rightarrow> ''Invalid type cast''
      | err_missing_return \<Rightarrow> ''Non-void function may end without returning a value''
      | err_invalid_access \<Rightarrow> ''Invalid access to member''
      | err_member_collision \<Rightarrow> ''Member collision''
      | err_argument_count_mismatch \<Rightarrow> ''Function argument count mismatch: expected vs provided''
      | warn_implicit_bool_conv \<Rightarrow> ''Implicit conversion to boolean''
      | err_array_length \<Rightarrow> ''Length mismatch''
      | err_spread_fixed_array \<Rightarrow> ''Cannot use spread operator (...) on fixed-size arrays''
      | err_ambiguous_inheritance \<Rightarrow> ''Ambiguous inheritance''
      | err_ambiguous_reference \<Rightarrow> ''Ambiguous reference''
      | err_null_assignment \<Rightarrow> ''Cannot assign 'null' to non-nullable type''
      | err_infinite_size \<Rightarrow> ''Recursive type has infinite size''
      | err_generic_constraint \<Rightarrow> ''Generic constraint violation''
      | err_generic_arity \<Rightarrow> ''Generic arity mismatch''
      | err_uninitialized_var \<Rightarrow> ''Uninitialized variable''
      | err_unreachable_code \<Rightarrow> ''Unreachable code''
      | err_decimal_precision_loss \<Rightarrow> ''Decimal scale truncation''
      | err_decimal_overflow \<Rightarrow> ''Possible decimal overflow''
      | err_builtin_shadowing \<Rightarrow> ''Builtin shadowing''
      | err_unexpanded_macro \<Rightarrow> ''Unexpanded macro reached MIR lowering phase''
      | err_invalid_type \<Rightarrow> ''Invalid or unsupported type found''
      | err_not_implemented \<Rightarrow> ''Feature not yet implemented''
      | err_borrow_violation \<Rightarrow> ''Borrow checker violation''
      | err_mutation_while_borrowed \<Rightarrow> ''Cannot mutate variable while it is actively borrowed''
      | err_borrow_escape \<Rightarrow> ''Borrow escape detected''
      | err_use_after_move \<Rightarrow> ''Use of moved value''
      | err_partial_move \<Rightarrow> ''Use of partially moved value''
      | note_borrow_occurred_here \<Rightarrow> ''Borrow occurred here''
      | warn_switch_not_exhaustive \<Rightarrow> ''Switch statement is not exhaustive''
      | warn_not_implemented \<Rightarrow> ''Feature not yet implemented (Warning)''
      | warn_unused_variable \<Rightarrow> ''Variable declared but never used''
      | err_missing_builtin \<Rightarrow> ''Missing required compiler builtin or runtime function''
      | err_await_in_sync_lock \<Rightarrow> ''Cannot use 'await' inside a synchronous 'lock' block (causes OS thread deadlock)''
      | err_thread_in_async_lock \<Rightarrow> ''Cannot spawn an OS thread inside an 'async lock' (causes scheduler starvation)''
      | err_async_lock_target \<Rightarrow> ''Target of 'async lock' must be an 'AsyncMutex'' @ [CHR 0x27]
      | note_previous_definition \<Rightarrow> ''Previous definition is here''
      | err_no_member \<Rightarrow> ''No such member''
      | err_unknown_type \<Rightarrow> ''Unknown type''
      | err_break_outside_loop \<Rightarrow> '''break' statement outside of loop or switch''
      | err_continue_outside_loop \<Rightarrow> '''continue' statement outside of loop''
      | err_invalid_this \<Rightarrow> ''Invalid use of 'this' outside of a class method''
      | err_invalid_super \<Rightarrow> ''Invalid use of 'super'' @ [CHR 0x27])"

subsection \<open>The engine\<close>

record diag_msg =
  msg_loc :: ptr
  msg_id :: DiagID
  msg_kind :: DiagKind
  msg_text :: string

record diag_engine =
  printed :: "diag_msg list"
  NumErrors :: "32 word"

definition DiagnosticEngine :: diag_engine where
  "DiagnosticEngine = \<lparr>printed = [], NumErrors = 0\<rparr>"

definition emit :: "diag_engine \<Rightarrow> ptr \<Rightarrow> DiagID \<Rightarrow> DiagKind \<Rightarrow> string \<Rightarrow> diag_engine" where
  "emit E Loc i Kind ExtraMsg =
     (let BaseMsg = getDiagnosticText i;
          FinalMsg = (if ExtraMsg \<noteq> [] then BaseMsg @ '': '' @ ExtraMsg else BaseMsg);
          E1 = (if Kind = DK_Error then E\<lparr>NumErrors := NumErrors E + 1\<rparr> else E)
      in E1\<lparr>printed := printed E1 @
              [\<lparr>msg_loc = Loc, msg_id = i, msg_kind = Kind, msg_text = FinalMsg\<rparr>]\<rparr>)"

text \<open>\<open>Diags.report(Loc, ID) << Msg\<close>: the builder's destructor emits.\<close>

definition report :: "diag_engine \<Rightarrow> ptr \<Rightarrow> DiagID \<Rightarrow> string \<Rightarrow> diag_engine" where
  "report E Loc i Msg = emit E Loc i (getDiagnosticKind i) Msg"

definition hasErrors :: "diag_engine \<Rightarrow> bool" where
  "hasErrors E \<longleftrightarrow> NumErrors E > 0"

definition getNumErrors :: "diag_engine \<Rightarrow> 32 word" where
  "getNumErrors E = NumErrors E"

text \<open>A sequence of reports, as the phases of the compiler issue them.\<close>

fun report_all :: "diag_engine \<Rightarrow> (ptr \<times> DiagID \<times> string) list \<Rightarrow> diag_engine" where
  "report_all E [] = E"
| "report_all E ((l, i, m) # rs) = report_all (report E l i m) rs"

subsection \<open>The error counter is the number of printed errors, modulo the width of unsigned\<close>

definition error_msgs :: "diag_engine \<Rightarrow> diag_msg list" where
  "error_msgs E = filter (\<lambda>m. msg_kind m = DK_Error) (printed E)"

definition diag_inv :: "diag_engine \<Rightarrow> bool" where
  "diag_inv E \<longleftrightarrow> NumErrors E = of_nat (length (error_msgs E))"

lemma diag_inv_init [simp]: "diag_inv DiagnosticEngine"
  by (simp add: diag_inv_def DiagnosticEngine_def error_msgs_def)

lemma emit_printed [simp]:
  "printed (emit E l i k m) = printed E @
     [\<lparr>msg_loc = l, msg_id = i, msg_kind = k,
       msg_text = (if m \<noteq> [] then getDiagnosticText i @ '': '' @ m else getDiagnosticText i)\<rparr>]"
  by (simp add: emit_def Let_def)

lemma emit_NumErrors [simp]:
  "NumErrors (emit E l i k m) = (if k = DK_Error then NumErrors E + 1 else NumErrors E)"
  by (simp add: emit_def Let_def)

lemma diag_inv_report [intro]: "diag_inv E \<Longrightarrow> diag_inv (report E l i m)"
  by (simp add: diag_inv_def report_def error_msgs_def)

lemma diag_inv_report_all: "diag_inv E \<Longrightarrow> diag_inv (report_all E rs)"
  by (induction E rs rule: report_all.induct) auto

lemma printed_report_all:
  "length (printed (report_all E rs)) = length (printed E) + length rs"
  by (induction E rs rule: report_all.induct) (auto simp: report_def)

lemma error_msgs_le: "length (error_msgs E) \<le> length (printed E)"
  by (simp add: error_msgs_def)

lemma hasErrors_iff:
  assumes "diag_inv E" and "length (printed E) < 2 ^ 32"
  shows "hasErrors E \<longleftrightarrow> error_msgs E \<noteq> []"
proof -
  let ?n = "length (error_msgs E)"
  have "?n < 2 ^ 32" using assms(2) error_msgs_le [of E] by simp
  then have "unat (of_nat ?n :: 32 word) = ?n" by (simp add: unat_of_nat)
  then have "(of_nat ?n :: 32 word) > 0 \<longleftrightarrow> ?n > 0"
    by (metis unat_gt_0 word_neq_0_conv neq0_conv)
  then show ?thesis using assms(1) by (simp add: hasErrors_def diag_inv_def)
qed

subsection \<open>Properties of the engine\<close>

text \<open>
  After any sequence of reports to a fresh engine the counter is the number of printed
  messages of severity error, modulo the width of \<open>unsigned\<close>, and below that width the compiler
  stops iff at least one error was printed.
\<close>

theorem error_counter_exact:
  assumes "length rs < 2 ^ 32"
  shows "getNumErrors (report_all DiagnosticEngine rs) =
           of_nat (length (error_msgs (report_all DiagnosticEngine rs))) \<and>
         length (printed (report_all DiagnosticEngine rs)) = length rs \<and>
         (hasErrors (report_all DiagnosticEngine rs) \<longleftrightarrow>
            (\<exists>(l, i, m) \<in> set rs. getDiagnosticKind i = DK_Error))"
proof -
  have kinds: "map msg_kind (printed (report_all E rs)) =
      map msg_kind (printed E) @ map (\<lambda>(l, i, m). getDiagnosticKind i) rs" for E
    by (induction E rs rule: report_all.induct) (simp_all add: report_def)
  have inv: "diag_inv (report_all DiagnosticEngine rs)" by (rule diag_inv_report_all [OF diag_inv_init])
  have len: "length (printed (report_all DiagnosticEngine rs)) = length rs"
    by (simp add: printed_report_all DiagnosticEngine_def)
  have "error_msgs (report_all DiagnosticEngine rs) \<noteq> [] \<longleftrightarrow>
      DK_Error \<in> set (map msg_kind (printed (report_all DiagnosticEngine rs)))"
    by (force simp: error_msgs_def filter_empty_conv)
  also have "\<dots> \<longleftrightarrow> (\<exists>(l, i, m) \<in> set rs. getDiagnosticKind i = DK_Error)"
    unfolding kinds by (force simp: DiagnosticEngine_def)
  finally show ?thesis
    using hasErrors_iff [OF inv] assms inv len by (simp add: diag_inv_def getNumErrors_def)
qed

theorem error_counter_exact_witness:
  "getNumErrors (report_all DiagnosticEngine [(3, warn_unused_variable, ''x''), (7, err_unknown_type, ''T'')]) = 1"
proof -
  let ?rs = "[(3, warn_unused_variable, ''x''), (7, err_unknown_type, ''T'')] :: (ptr \<times> DiagID \<times> string) list"
  have "length (error_msgs (report_all DiagnosticEngine ?rs)) = 1"
    by (simp add: error_msgs_def report_def getDiagnosticKind_def DiagnosticEngine_def)
  with error_counter_exact [of ?rs] show ?thesis by simp
qed

end
