(* ===== verification/Token.thy ===== *)
theory Token
  imports Diagnostics
begin

text \<open>
  Tokens (\<open>include/moksha/Lexer/Lexer.h\<close>): \<open>TokenKind\<close>, \<open>NumericSuffix\<close>, \<open>TokenFlag\<close> and
  the class \<open>Token\<close>, with the keyword, suffix and punctuation tables that \<open>Lexer.cpp\<close> spells
  out as \<open>StringSwitch\<close> cases.

  The 161 enumerators of \<open>TokenKind\<close> are grouped by the section comments of the header: one
  small datatype per section of keywords and operators, injected into \<open>TokenKind\<close> by one
  constructor per section (\<open>CoreKw KwClass\<close> is \<open>TokenKind::KwClass\<close>).  The enumerators keep
  their names, and distinct enumerators stay distinct.
\<close>

unbundle bit_operations_syntax

subsection \<open>Token kinds\<close>

datatype core_keyword =
    KwClass | KwOperator | KwThread | KwRef | KwWeak | KwShared | KwNew | KwDelete
  | KwUnsafe | KwUnsigned | KwConstructor | KwDestructor | KwThis | KwSuper | KwNull

datatype flow_keyword =
    KwIf | KwElse | KwWhile | KwDo | KwFor | KwIn | KwSwitch | KwCase | KwDefault | KwReturn
  | KwBreak | KwContinue | KwDefer | KwWith

datatype exn_keyword =
    KwTry | KwCatch | KwThrow | KwFinally

datatype prim_keyword =
    KwVoid | KwInt | KwFloat | KwDouble | KwBool | KwString | KwChar | KwShort | KwLong
  | KwISize | KwUSize | KwHalf | KwQuarter | KwDecimal | KwAny

datatype type_keyword =
    KwAs | KwTrue | KwFalse

datatype mod_keyword =
    KwPublic | KwPrivate | KwProtected | KwPromise | KwConst | KwCast | KwBitcast | KwStatic

datatype conc_keyword =
    KwAsync | KwAwait | KwImport | KwFrom | KwMacro

datatype data_keyword =
    KwTable | KwEnum | KwGeneric | KwStruct | KwUnion

datatype low_keyword =
    KwPacked | KwVolatile | KwAlign | KwSizeof | KwInterrupt | KwNaked | KwNoreturn
  | KwNoinline | KwInline | KwPure | KwCold

datatype borrow_keyword =
    KwLock | KwView | KwMut

datatype oop_keyword =
    KwVirtual | KwOverride | KwInput | KwClosure | KwMove

datatype asm_keyword =
    KwOut | KwInout | KwClobber | KwExtern | KwUsing | KwAsm | KwSection | KwUsed
  | KwThreadLocal

datatype math_op =
    Plus | Minus | Star | Slash | Percent | Power | PlusPlus | MinusMinus

datatype assign_op =
    Equal | PlusEqual | MinusEqual | StarEqual | SlashEqual | PercentEqual

datatype bit_op =
    Amp | Pipe | Caret | Tilde | AmpEqual | PipeEqual | CaretEqual | LessLess
  | GreaterGreater | LessLessEqual | GreaterGreaterEqual

datatype logic_op =
    AmpAmp | PipePipe | PipeGreater | Bang

datatype rel_op =
    EqualEqual | NotEqual | Less | LessEqual | Greater | GreaterEqual

datatype syntax_op =
    FatArrow | Arrow | Dot | DotDotDot | QuestionDot | QuestionQuestion | Question | Colon
  | Comma | Semicolon

datatype bracket =
    LParen | RParen | LBrace | RBrace | LBracket | RBracket

datatype TokenKind =
    Eof | Error | Comment | Identifier | IntegerLiteral | FloatLiteral | DecimalLiteral
  | StringLiteral | TemplateString | CharLiteral | StringFragment | InterpolationStart
  | InterpolationEnd
  | CoreKw core_keyword
  | FlowKw flow_keyword
  | ExnKw exn_keyword
  | PrimKw prim_keyword
  | TypeKw type_keyword
  | ModKw mod_keyword
  | ConcKw conc_keyword
  | DataKw data_keyword
  | LowKw low_keyword
  | BorrowKw borrow_keyword
  | OopKw oop_keyword
  | AsmKw asm_keyword
  | MathOp math_op
  | AssignOp assign_op
  | BitOp bit_op
  | LogicOp logic_op
  | RelOp rel_op
  | SyntaxOp syntax_op
  | Bracket bracket

text \<open>The \<open>StringSwitch\<close> of \<open>Lexer::scanIdentifier\<close>: first matching case, else \<open>Identifier\<close>.\<close>

definition keywordTable :: "(string \<times> TokenKind) list" where
  "keywordTable =
     [(''class'', CoreKw KwClass), (''operator'', CoreKw KwOperator),
      (''thread'', CoreKw KwThread), (''ref'', CoreKw KwRef), (''weak'', CoreKw KwWeak),
      (''shared'', CoreKw KwShared), (''new'', CoreKw KwNew), (''delete'', CoreKw KwDelete),
      (''unsafe'', CoreKw KwUnsafe), (''unsigned'', CoreKw KwUnsigned),
      (''constructor'', CoreKw KwConstructor), (''destructor'', CoreKw KwDestructor),
      (''this'', CoreKw KwThis), (''super'', CoreKw KwSuper), (''null'', CoreKw KwNull),
      (''if'', FlowKw KwIf), (''else'', FlowKw KwElse), (''while'', FlowKw KwWhile),
      (''do'', FlowKw KwDo), (''for'', FlowKw KwFor), (''in'', FlowKw KwIn),
      (''switch'', FlowKw KwSwitch), (''case'', FlowKw KwCase), (''default'', FlowKw KwDefault),
      (''return'', FlowKw KwReturn), (''break'', FlowKw KwBreak),
      (''continue'', FlowKw KwContinue), (''defer'', FlowKw KwDefer), (''with'', FlowKw KwWith),
      (''try'', ExnKw KwTry), (''catch'', ExnKw KwCatch), (''throw'', ExnKw KwThrow),
      (''finally'', ExnKw KwFinally), (''void'', PrimKw KwVoid), (''int'', PrimKw KwInt),
      (''short'', PrimKw KwShort), (''long'', PrimKw KwLong), (''isize'', PrimKw KwISize),
      (''usize'', PrimKw KwUSize), (''float'', PrimKw KwFloat), (''double'', PrimKw KwDouble),
      (''bool'', PrimKw KwBool), (''string'', PrimKw KwString), (''char'', PrimKw KwChar),
      (''half'', PrimKw KwHalf), (''quarter'', PrimKw KwQuarter),
      (''decimal'', PrimKw KwDecimal), (''any'', PrimKw KwAny), (''as'', TypeKw KwAs),
      (''true'', TypeKw KwTrue), (''false'', TypeKw KwFalse), (''public'', ModKw KwPublic),
      (''private'', ModKw KwPrivate), (''protected'', ModKw KwProtected),
      (''promise'', ModKw KwPromise), (''const'', ModKw KwConst), (''cast'', ModKw KwCast),
      (''bitcast'', ModKw KwBitcast), (''static'', ModKw KwStatic), (''async'', ConcKw KwAsync),
      (''await'', ConcKw KwAwait), (''import'', ConcKw KwImport), (''from'', ConcKw KwFrom),
      (''macro'', ConcKw KwMacro), (''enum'', DataKw KwEnum), (''table'', DataKw KwTable),
      (''generic'', DataKw KwGeneric), (''struct'', DataKw KwStruct),
      (''union'', DataKw KwUnion), (''packed'', LowKw KwPacked),
      (''volatile'', LowKw KwVolatile), (''align'', LowKw KwAlign),
      (''sizeof'', LowKw KwSizeof), (''interrupt'', LowKw KwInterrupt),
      (''naked'', LowKw KwNaked), (''noreturn'', LowKw KwNoreturn),
      (''noinline'', LowKw KwNoinline), (''inline'', LowKw KwInline), (''pure'', LowKw KwPure),
      (''cold'', LowKw KwCold), (''lock'', BorrowKw KwLock), (''view'', BorrowKw KwView),
      (''mut'', BorrowKw KwMut), (''virtual'', OopKw KwVirtual),
      (''override'', OopKw KwOverride), (''input'', OopKw KwInput),
      (''closure'', OopKw KwClosure), (''move'', OopKw KwMove), (''out'', AsmKw KwOut),
      (''inout'', AsmKw KwInout), (''clobber'', AsmKw KwClobber), (''extern'', AsmKw KwExtern),
      (''using'', AsmKw KwUsing), (''asm'', AsmKw KwAsm), (''section'', AsmKw KwSection),
      (''used'', AsmKw KwUsed), (''thread_local'', AsmKw KwThreadLocal)]"

definition keywordKind :: "string \<Rightarrow> TokenKind" where
  "keywordKind s = (case map_of keywordTable s of Some k \<Rightarrow> k | None \<Rightarrow> Identifier)"

subsection \<open>Numeric suffixes and flags\<close>

text \<open>\<open>NumericSuffix::d\<close> and its neighbours carry the prefix \<open>NS_\<close>.\<close>

datatype NumericSuffix =
    NS_None
  | NS_i8 | NS_i16 | NS_i32 | NS_i64 | NS_isize
  | NS_u8 | NS_u16 | NS_u32 | NS_u64 | NS_usize
  | NS_f8 | NS_f16 | NS_f32 | NS_f64
  | NS_d

definition suffixTable :: "(string \<times> NumericSuffix) list" where
  "suffixTable =
     [(''i8'', NS_i8), (''u8'', NS_u8), (''i16'', NS_i16), (''u16'', NS_u16), (''i32'', NS_i32),
      (''u32'', NS_u32), (''i64'', NS_i64), (''u64'', NS_u64), (''isize'', NS_isize),
      (''usize'', NS_usize), (''f8'', NS_f8), (''f16'', NS_f16), (''f32'', NS_f32),
      (''f64'', NS_f64), (''d'', NS_d)]"

definition suffixKind :: "string \<Rightarrow> NumericSuffix" where
  "suffixKind s = (case map_of suffixTable s of Some k \<Rightarrow> k | None \<Rightarrow> NS_None)"

type_synonym flagset = "16 word"

definition TF_None :: flagset where "TF_None = 0"
definition TF_IsHex :: flagset where "TF_IsHex = push_bit 0 1"
definition TF_IsBin :: flagset where "TF_IsBin = push_bit 1 1"
definition TF_IsOctal :: flagset where "TF_IsOctal = push_bit 2 1"
definition TF_IsEscaped :: flagset where "TF_IsEscaped = push_bit 3 1"
definition TF_IsRaw :: flagset where "TF_IsRaw = push_bit 4 1"
definition TF_IsSynthesized :: flagset where "TF_IsSynthesized = push_bit 5 1"

lemmas TF_defs = TF_None_def TF_IsHex_def TF_IsBin_def TF_IsOctal_def TF_IsEscaped_def
  TF_IsRaw_def TF_IsSynthesized_def

subsection \<open>Tokens\<close>

text \<open>\<open>location\<close> is the offset of the token in its buffer; \<open>length\<close> is a \<open>uint32_t\<close>.\<close>

record Token =
  tok_kind :: TokenKind
  tok_location :: ptr
  tok_length :: "32 word"
  tok_suffix :: NumericSuffix
  tok_flags :: flagset

definition mkToken :: "TokenKind \<Rightarrow> ptr \<Rightarrow> nat \<Rightarrow> Token" where
  "mkToken k loc n = \<lparr>tok_kind = k, tok_location = loc, tok_length = of_nat n,
                      tok_suffix = NS_None, tok_flags = TF_None\<rparr>"

definition getSpelling :: "bytes \<Rightarrow> Token \<Rightarrow> string" where
  "getSpelling b t = take (unat (tok_length t)) (drop (tok_location t) b)"

definition is_kind :: "Token \<Rightarrow> TokenKind \<Rightarrow> bool" where
  "is_kind t k \<longleftrightarrow> tok_kind t = k"

definition isAny :: "Token \<Rightarrow> TokenKind list \<Rightarrow> bool" where
  "isAny t ks \<longleftrightarrow> (\<exists>k \<in> set ks. is_kind t k)"

lemma mkToken_simps [simp]:
  "tok_kind (mkToken k l n) = k" "tok_location (mkToken k l n) = l"
  "tok_length (mkToken k l n) = of_nat n" "tok_suffix (mkToken k l n) = NS_None"
  "tok_flags (mkToken k l n) = TF_None"
  by (simp_all add: mkToken_def)

end
