(* ===== verification/Lexer.thy ===== *)
theory Lexer
  imports Token
begin

text \<open>
  The lexical analyser (\<open>include/moksha/Lexer/Lexer.h\<close>, \<open>lib/frontend/lexer/Lexer.cpp\<close>).

  The state of class \<open>Lexer\<close> is the record \<open>lexer\<close>; every method is a function that takes the
  state and returns its result with the new state.  Pointers are offsets into \<open>buffer\<close>;
  \<open>fragmentStart = nullptr\<close> is \<open>None\<close>.  A read at or behind \<open>bufferEnd\<close> yields the NUL
  sentinel that terminates the source buffer.

  The two UTF-8 routines the lexer takes from LLVM are the parameter \<open>U :: utf8_lib\<close>.
\<close>

record utf8_lib =
  getNumBytesForUTF8 :: "char \<Rightarrow> nat"
  isLegalUTF8Sequence :: "bytes \<Rightarrow> bool"

subsection \<open>Byte classes of the lexer\<close>

definition isHexDigit :: "char \<Rightarrow> bool" where
  "isHexDigit c \<longleftrightarrow> in_range CHR ''0'' CHR ''9'' c \<or> in_range CHR ''a'' CHR ''f'' c \<or>
                    in_range CHR ''A'' CHR ''F'' c"

definition isBinDigit :: "char \<Rightarrow> bool" where
  "isBinDigit c \<longleftrightarrow> c = CHR ''0'' \<or> c = CHR ''1''"

definition isOctDigit :: "char \<Rightarrow> bool" where
  "isOctDigit c \<longleftrightarrow> in_range CHR ''0'' CHR ''7'' c"

definition isAsciiIdentStart :: "char \<Rightarrow> bool" where
  "isAsciiIdentStart c \<longleftrightarrow> isalpha c \<or> c = CHR ''_''"

definition isAsciiIdentBody :: "char \<Rightarrow> bool" where
  "isAsciiIdentBody c \<longleftrightarrow> isalnum c \<or> c = CHR ''_''"

definition isUTF8Start :: "char \<Rightarrow> bool" where
  "isUTF8Start c \<longleftrightarrow> byte c \<ge> 0x80"

lemmas lexer_classes [cctype] =
  isHexDigit_def isBinDigit_def isOctDigit_def isAsciiIdentStart_def isAsciiIdentBody_def
  isUTF8Start_def

subsection \<open>State\<close>

datatype LexerState = Normal | InTemplate

record lexer =
  Diags :: diag_engine
  buffer :: bytes
  curPtr :: ptr
  fragmentStart :: "ptr option"
  lexState :: LexerState
  interpolationStack :: "int list"

definition mkLexer :: "bytes \<Rightarrow> diag_engine \<Rightarrow> lexer" where
  "mkLexer b D = \<lparr>Diags = D, buffer = b, curPtr = 0, fragmentStart = None,
                  lexState = Normal, interpolationStack = []\<rparr>"

definition inTemplateString :: "lexer \<Rightarrow> bool" where
  "inTemplateString L \<longleftrightarrow> lexState L = InTemplate"

definition atEnd :: "lexer \<Rightarrow> bool" where
  "atEnd L \<longleftrightarrow> length (buffer L) \<le> curPtr L"

definition peek :: "lexer \<Rightarrow> nat \<Rightarrow> char" where
  "peek L n = (if length (buffer L) \<le> curPtr L + n then NUL else buffer L ! (curPtr L + n))"

text \<open>\<open>*curPtr\<close>, with the sentinel behind the buffer.\<close>

definition deref :: "lexer \<Rightarrow> char" where
  "deref L = peek L 0"

definition bump :: "nat \<Rightarrow> lexer \<Rightarrow> lexer" where
  "bump n L = L\<lparr>curPtr := curPtr L + n\<rparr>"

definition skip :: "(char \<Rightarrow> bool) \<Rightarrow> lexer \<Rightarrow> lexer" where
  "skip P L = L\<lparr>curPtr := advance_while P (buffer L) (curPtr L)\<rparr>"

definition diagAt :: "ptr \<Rightarrow> string \<Rightarrow> lexer \<Rightarrow> lexer" where
  "diagAt p msg L = L\<lparr>Diags := report (Diags L) p err_unexpected_char msg\<rparr>"

definition errorAt :: "lexer \<Rightarrow> ptr \<Rightarrow> Token" where
  "errorAt L start = mkToken Error start (max 1 (curPtr L - start))"

definition tokenFrom :: "TokenKind \<Rightarrow> ptr \<Rightarrow> lexer \<Rightarrow> Token" where
  "tokenFrom k start L = mkToken k start (curPtr L - start)"

subsection \<open>Whitespace and comments\<close>

definition isWhitespace :: "char \<Rightarrow> bool" where
  "isWhitespace c \<longleftrightarrow>
     c = CHR '' '' \<or> c = CHR 0x09 \<or> c = CHR 0x0B \<or> c = CHR 0x0C \<or> c = CHR 0x0D \<or> c = CHR 0x0A"

definition skipWhitespace :: "lexer \<Rightarrow> lexer" where
  "skipWhitespace L = skip isWhitespace L"

text \<open>The loop over a block comment: the cursor, the depth; \<open>True\<close> when the comment closes.\<close>

function blockComment :: "bytes \<Rightarrow> ptr \<Rightarrow> nat \<Rightarrow> bool \<times> ptr" where
  "blockComment b p depth =
     (if p < length b then
        (let c = b ! p; c1 = (if length b \<le> p + 1 then NUL else b ! (p + 1)) in
         if c = CHR ''/'' \<and> c1 = CHR ''*'' then blockComment b (p + 2) (depth + 1)
         else if c = CHR ''*'' \<and> c1 = CHR ''/'' then
           (if depth - 1 = 0 then (True, p + 2) else blockComment b (p + 2) (depth - 1))
         else blockComment b (p + 1) depth)
      else (False, p))"
  by pat_completeness auto
termination
  by (relation "measure (\<lambda>(b, p, d). length b - p)") auto

declare blockComment.simps [simp del]

definition skipComment :: "lexer \<Rightarrow> bool \<times> lexer" where
  "skipComment L =
     (if peek L 1 = CHR ''/'' then
        (True, skip (\<lambda>c. c \<noteq> CHR 0x0A \<and> c \<noteq> CHR 0x0D) (bump 2 L))
      else if peek L 1 = CHR ''*'' then
        (let commentStart = curPtr L;
             (closed, p) = blockComment (buffer L) (curPtr L + 2) 1;
             L1 = L\<lparr>curPtr := p\<rparr>
         in if closed then (True, L1)
            else (False, diagAt commentStart ''unterminated block comment'' L1))
      else (False, L))"

subsection \<open>UTF-8 and escapes\<close>

definition advanceUTF8 :: "utf8_lib \<Rightarrow> lexer \<Rightarrow> bool \<times> lexer" where
  "advanceUTF8 U L =
     (let n = getNumBytesForUTF8 U (deref L) in
      if n > 0 \<and> curPtr L + n \<le> length (buffer L) \<and>
         isLegalUTF8Sequence U (take n (drop (curPtr L) (buffer L)))
      then (True, bump n L) else (False, L))"

text \<open>The bytes that may follow a backslash on their own.\<close>

definition simpleEscapes :: "char list" where
  "simpleEscapes = [CHR ''n'', CHR ''r'', CHR ''t'', CHR ''0'', CHR ''b'', CHR 0x5C, CHR 0x27,
                    CHR 0x22, CHR 0x60, CHR ''$'']"

text \<open>\<open>for (i = 0; i < n; ++i) if (!isHexDigit(curPtr[i])) ...; curPtr += n\<close>\<close>

definition hexDigits :: "nat \<Rightarrow> lexer \<Rightarrow> bool \<times> lexer" where
  "hexDigits n L =
     (if curPtr L + n > length (buffer L) then (False, L)
      else if (\<forall>i \<in> set [0..<n]. isHexDigit (peek L i)) then (True, bump n L)
      else (False, diagAt (curPtr L) ''invalid hex digit in escape'' L))"

definition bracedEscape :: "lexer \<Rightarrow> bool \<times> lexer" where
  "bracedEscape L =
     (let L1 = skip isHexDigit L in
      if \<not> atEnd L1 \<and> deref L1 \<noteq> CHR ''}'' then
        (False, diagAt (curPtr L1) ''invalid hex digit in unicode escape'' L1)
      else if atEnd L1 \<or> deref L1 \<noteq> CHR ''}'' then
        (False, diagAt (curPtr L1) ''unterminated unicode escape sequence'' L1)
      else (True, bump 1 L1))"

definition consumeEscape :: "lexer \<Rightarrow> bool \<times> lexer" where
  "consumeEscape L =
     (let escapeStart = curPtr L; L1 = bump 1 L in
      if atEnd L1 then (False, L1)
      else let c = deref L1 in
        if c \<in> set simpleEscapes then (True, bump 1 L1)
        else if c = CHR ''x'' then hexDigits 2 (bump 1 L1)
        else if c = CHR ''u'' then
          (let L2 = bump 1 L1 in
           if \<not> atEnd L2 \<and> deref L2 = CHR ''{'' then bracedEscape (bump 1 L2)
           else hexDigits 4 L2)
        else if c = CHR ''U'' then hexDigits 8 (bump 1 L1)
        else (False, diagAt escapeStart ''invalid escape sequence'' L1))"


subsection \<open>What a scanning step keeps\<close>

text \<open>
  \<open>scans n L L'\<close>: the step from \<open>L\<close> to \<open>L'\<close> moves the cursor forward by at least \<open>n\<close> bytes and
  touches nothing but the cursor and the diagnostics.  Every helper of the lexer is such a
  step; the termination of its loops and the invariant of the whole lexer rest on this.
\<close>

definition scans :: "nat \<Rightarrow> lexer \<Rightarrow> lexer \<Rightarrow> bool" where
  "scans n L L' \<longleftrightarrow>
     buffer L' = buffer L \<and> fragmentStart L' = fragmentStart L \<and> lexState L' = lexState L \<and>
     interpolationStack L' = interpolationStack L \<and> curPtr L + n \<le> curPtr L' \<and>
     (diag_inv (Diags L) \<longrightarrow> diag_inv (Diags L'))"

abbreviation inBuffer :: "lexer \<Rightarrow> bool" where
  "inBuffer L \<equiv> curPtr L \<le> length (buffer L)"

lemma scansD:
  assumes "scans n L L'"
  shows "buffer L' = buffer L" "fragmentStart L' = fragmentStart L" "lexState L' = lexState L"
    "interpolationStack L' = interpolationStack L" "curPtr L + n \<le> curPtr L'"
  using assms by (auto simp: scans_def)

lemma scans_refl [simp, intro]: "scans 0 L L"
  by (simp add: scans_def)

lemma scans_trans: "scans m L L1 \<Longrightarrow> scans n L1 L2 \<Longrightarrow> scans (m + n) L L2"
  by (auto simp: scans_def)

lemma scans_mono: "scans n L L' \<Longrightarrow> m \<le> n \<Longrightarrow> scans m L L'"
  by (auto simp: scans_def)

lemma scans_bump [simp, intro]: "scans n L (bump n L)"
  by (simp add: scans_def bump_def)

lemma scans_skip [simp, intro]: "scans 0 L (skip P L)"
  by (simp add: scans_def skip_def advance_while_ge)

lemma scans_diagAt [simp, intro]: "scans 0 L (diagAt p m L)"
  by (auto simp: scans_def diagAt_def)

lemma bump_simps [simp]:
  "buffer (bump n L) = buffer L" "curPtr (bump n L) = curPtr L + n"
  "fragmentStart (bump n L) = fragmentStart L" "lexState (bump n L) = lexState L"
  "interpolationStack (bump n L) = interpolationStack L" "Diags (bump n L) = Diags L"
  by (simp_all add: bump_def)

lemma diagAt_simps [simp]:
  "buffer (diagAt p m L) = buffer L" "curPtr (diagAt p m L) = curPtr L"
  "fragmentStart (diagAt p m L) = fragmentStart L" "lexState (diagAt p m L) = lexState L"
  "interpolationStack (diagAt p m L) = interpolationStack L"
  by (simp_all add: diagAt_def)

lemma skip_simps [simp]:
  "buffer (skip P L) = buffer L" "fragmentStart (skip P L) = fragmentStart L"
  "lexState (skip P L) = lexState L" "interpolationStack (skip P L) = interpolationStack L"
  "Diags (skip P L) = Diags L" "curPtr (skip P L) = advance_while P (buffer L) (curPtr L)"
  by (simp_all add: skip_def)

lemma skip_inBuffer [intro]: "inBuffer L \<Longrightarrow> inBuffer (skip P L)"
  by (simp add: advance_while_le)

lemma peek_in_buffer: "peek L n \<noteq> NUL \<Longrightarrow> curPtr L + n < length (buffer L)"
  by (auto simp: peek_def split: if_splits)

lemma peek_nth: "curPtr L + n < length (buffer L) \<Longrightarrow> peek L n = buffer L ! (curPtr L + n)"
  by (simp add: peek_def)

lemma deref_nth: "\<not> atEnd L \<Longrightarrow> deref L = buffer L ! curPtr L"
  by (simp add: deref_def peek_def atEnd_def)

lemma hexDigits_scans: "scans 0 L (snd (hexDigits n L))"
  by (auto simp: hexDigits_def intro: scans_mono)

lemma hexDigits_inBuffer: "inBuffer L \<Longrightarrow> inBuffer (snd (hexDigits n L))"
  by (auto simp: hexDigits_def)

lemma bracedEscape_scans: "scans 0 L (snd (bracedEscape L))"
proof -
  have "scans 0 (skip isHexDigit L) (snd (bracedEscape L))"
    by (auto simp: bracedEscape_def Let_def intro: scans_mono)
  with scans_skip show ?thesis by (metis add_0 scans_trans)
qed

lemma bracedEscape_inBuffer: "inBuffer L \<Longrightarrow> inBuffer (snd (bracedEscape L))"
  by (auto simp: bracedEscape_def Let_def atEnd_def advance_while_le)

lemma consumeEscape_scans: "scans 1 L (snd (consumeEscape L))"
proof -
  let ?L1 = "bump 1 L"
  have h: "scans 0 ?L1 (snd (hexDigits n (bump 1 ?L1)))" for n
    using scans_trans [OF scans_bump [of 1 ?L1] hexDigits_scans [of "bump 1 ?L1" n]]
    by (auto intro: scans_mono)
  have b: "scans 0 ?L1 (snd (bracedEscape (bump 1 (bump 1 ?L1))))"
    using scans_trans [OF scans_trans [OF scans_bump [of 1 ?L1] scans_bump [of 1 "bump 1 ?L1"]]
        bracedEscape_scans]
    by (auto intro: scans_mono)
  have "scans 0 ?L1 (snd (consumeEscape L))"
    using h b by (auto simp: consumeEscape_def Let_def intro: scans_mono)
  with scans_bump show ?thesis by (metis add_0_right scans_trans)
qed

lemma consumeEscape_inBuffer:
  assumes "\<not> atEnd L"
  shows "inBuffer (snd (consumeEscape L))"
proof -
  have "inBuffer (bump 1 L)" using assms by (simp add: atEnd_def)
  then show ?thesis
    by (auto simp: consumeEscape_def Let_def atEnd_def
        intro!: hexDigits_inBuffer bracedEscape_inBuffer)
qed

lemma consumeEscape_eq_scans: "(ok, L1) = consumeEscape L \<Longrightarrow> scans 1 L L1"
  by (metis consumeEscape_scans snd_conv)

lemma advanceUTF8_True:
  "advanceUTF8 U L = (True, L') \<Longrightarrow> scans 1 L L' \<and> inBuffer L'"
  by (auto simp: advanceUTF8_def Let_def scans_def split: if_splits)

lemma advanceUTF8_False: "advanceUTF8 U L = (False, L') \<Longrightarrow> L' = L"
  by (auto simp: advanceUTF8_def Let_def split: if_splits)


lemma blockComment_bounds:
  "p \<le> length b \<Longrightarrow> blockComment b p d = (r, q) \<Longrightarrow> p \<le> q \<and> q \<le> length b"
proof (induction b p d arbitrary: r q rule: blockComment.induct)
  case (1 b p d)
  define c1 where "c1 = (if length b \<le> p + 1 then NUL else b ! (p + 1))"
  have n: "c1 \<noteq> NUL \<Longrightarrow> p + 2 \<le> length b" by (cases "length b \<le> p + 1") (auto simp: c1_def)
  note IH = "1.IH" [OF _ refl c1_def]
  note eq = "1.prems"(2) [unfolded blockComment.simps [of b p d] Let_def, folded c1_def]
  consider "length b \<le> p" | "p < length b" "b ! p = CHR ''/''" "c1 = CHR ''*''"
    | "p < length b" "b ! p = CHR ''*''" "c1 = CHR ''/''"
    | "p < length b" "\<not> (b ! p = CHR ''/'' \<and> c1 = CHR ''*'')"
      "\<not> (b ! p = CHR ''*'' \<and> c1 = CHR ''/'')"
    by fastforce
  then show ?case
  proof cases
    case 1 with eq "1.prems" show ?thesis by simp
  next
    case 2 with eq n IH(1) [of r q] show ?thesis by (simp add: NUL_def)
  next
    case 3 with eq n IH(2) [of r q] show ?thesis by (auto simp: NUL_def split: if_splits)
  next
    case 4 with eq IH(3) [of r q] show ?thesis by (auto split: if_splits)
  qed
qed

lemma skipComment_scans:
  assumes "inBuffer L" and "peek L 1 = CHR ''/'' \<or> peek L 1 = CHR ''*''"
  shows "scans 2 L (snd (skipComment L)) \<and> inBuffer (snd (skipComment L))"
proof -
  have n: "curPtr L + 1 < length (buffer L)"
    using assms(2) by (intro peek_in_buffer) (auto simp: NUL_def)
  show ?thesis
  proof (cases "peek L 1 = CHR ''/''")
    case True
    have "scans 2 L (snd (skipComment L))"
      using True scans_trans [OF scans_bump scans_skip] by (simp add: skipComment_def)
    moreover have "inBuffer (snd (skipComment L))"
      using True n by (simp add: skipComment_def advance_while_le)
    ultimately show ?thesis ..
  next
    case False
    obtain r q where rq: "blockComment (buffer L) (curPtr L + 2) 1 = (r, q)" by fastforce
    have "curPtr L + 2 \<le> q \<and> q \<le> length (buffer L)"
      using blockComment_bounds [OF _ rq] n by simp
    moreover have "skipComment L = (r, if r then L\<lparr>curPtr := q\<rparr>
         else diagAt (curPtr L) ''unterminated block comment'' (L\<lparr>curPtr := q\<rparr>))"
      using False assms(2) rq by (auto simp: skipComment_def Let_def)
    ultimately show ?thesis
      by (auto simp: scans_def diagAt_def)
  qed
qed

lemma skipComment_eq_scans:
  "(r, L2) = skipComment L1 \<Longrightarrow> inBuffer L1 \<Longrightarrow> peek L1 1 = CHR ''/'' \<or> peek L1 1 = CHR ''*'' \<Longrightarrow>
   scans 2 L1 L2 \<and> inBuffer L2"
  by (metis skipComment_scans snd_conv)

subsection \<open>Identifiers\<close>

text \<open>The loop over the identifier's body; \<open>False\<close> when an ill-formed UTF-8 sequence stops it.\<close>

function identBody :: "utf8_lib \<Rightarrow> lexer \<Rightarrow> bool \<times> lexer" where
  "identBody U L =
     (if atEnd L then (True, L)
      else if isAsciiIdentBody (deref L) then identBody U (bump 1 L)
      else if isUTF8Start (deref L) then
        (case advanceUTF8 U L of
           (True, L') \<Rightarrow> identBody U L'
         | (False, L') \<Rightarrow> (False, L'))
      else (True, L))"
  by pat_completeness auto
termination
  by (relation "measure (\<lambda>(U, L). length (buffer L) - curPtr L)")
     (auto simp: atEnd_def scans_def dest!: advanceUTF8_True [OF sym])

declare identBody.simps [simp del]

definition scanIdentifier :: "utf8_lib \<Rightarrow> lexer \<Rightarrow> Token \<times> lexer" where
  "scanIdentifier U L =
     (let start = curPtr L;
          (ok, L1) = (if isAsciiIdentStart (deref L) then (True, bump 1 L)
                      else if isUTF8Start (deref L) then advanceUTF8 U L
                      else (False, L))
      in if \<not> ok then (errorAt L1 start, L1)
         else case identBody U L1 of
             (False, L2) \<Rightarrow> (errorAt L2 start, L2)
           | (True, L2) \<Rightarrow>
               (let spelling = take (curPtr L2 - start) (drop start (buffer L2))
                in (tokenFrom (keywordKind spelling) start L2, L2)))"

subsection \<open>Numbers\<close>

record num_scan =
  isFloat :: bool
  isHex :: bool
  isBin :: bool
  isOct :: bool
  hadLexicalError :: bool

definition num_scan_init :: num_scan where
  "num_scan_init = \<lparr>isFloat = False, isHex = False, isBin = False, isOct = False,
                    hadLexicalError = False\<rparr>"

definition decChar :: "char \<Rightarrow> bool" where
  "decChar c \<longleftrightarrow> isdigit c \<or> c = CHR ''_''"

text \<open>1. Initial prefix and type detection\<close>

definition scanNumber_prefix :: "lexer \<Rightarrow> num_scan \<times> lexer" where
  "scanNumber_prefix L =
     (let N = num_scan_init in
      if deref L = CHR ''.'' then (N\<lparr>isFloat := True\<rparr>, skip decChar (bump 1 L))
      else if deref L = CHR ''0'' then
        (let nx = peek L 1 in
         if nx = CHR ''x'' \<or> nx = CHR ''X'' then
           (N\<lparr>isHex := True\<rparr>, skip (\<lambda>c. isHexDigit c \<or> c = CHR ''_'') (bump 2 L))
         else if nx = CHR ''b'' \<or> nx = CHR ''B'' then
           (N\<lparr>isBin := True\<rparr>, skip (\<lambda>c. isBinDigit c \<or> c = CHR ''_'') (bump 2 L))
         else if nx = CHR ''o'' \<or> nx = CHR ''O'' then
           (N\<lparr>isOct := True\<rparr>, skip (\<lambda>c. isOctDigit c \<or> c = CHR ''_'') (bump 2 L))
         else (N, L))
      else (N, L))"

text \<open>2. Decimal and float body: the fraction, then the exponent\<close>

definition scanNumber_fraction :: "num_scan \<Rightarrow> lexer \<Rightarrow> num_scan \<times> lexer" where
  "scanNumber_fraction N L =
     (if peek L 0 = CHR ''.'' then
        (if isdigit (peek L 1) then
           (let L1 = skip decChar (bump 1 L) in
            if peek L1 0 = CHR ''.'' then
              (N\<lparr>isFloat := True, hadLexicalError := True\<rparr>,
               skip (\<lambda>c. isdigit c \<or> c = CHR ''.'' \<or> c = CHR ''_'')
                 (diagAt (curPtr L1) ''multiple decimal points in float literal'' L1))
            else (N\<lparr>isFloat := True\<rparr>, L1))
         else if \<not> isAsciiIdentStart (peek L 1) then (N\<lparr>isFloat := True\<rparr>, bump 1 L)
         else (N, L))
      else (N, L))"

definition scanNumber_exponent :: "num_scan \<Rightarrow> lexer \<Rightarrow> num_scan \<times> lexer" where
  "scanNumber_exponent N L =
     (if peek L 0 = CHR ''e'' \<or> peek L 0 = CHR ''E'' then
        (let L1 = bump 1 L;
             L2 = (if peek L1 0 = CHR ''+'' \<or> peek L1 0 = CHR ''-'' then bump 1 L1 else L1)
         in if \<not> isdigit (peek L2 0) then
              (N\<lparr>isFloat := True, hadLexicalError := True\<rparr>,
               skip decChar (diagAt (curPtr L2) ''missing digits after exponent'' L2))
            else (N\<lparr>isFloat := True\<rparr>, skip decChar L2))
      else (N, L))"

definition scanNumber_body :: "num_scan \<Rightarrow> lexer \<Rightarrow> num_scan \<times> lexer" where
  "scanNumber_body N L =
     (if \<not> isHex N \<and> \<not> isBin N \<and> \<not> isOct N then
        (case scanNumber_fraction N (skip decChar L) of (N1, L1) \<Rightarrow> scanNumber_exponent N1 L1)
      else (N, L))"

text \<open>3. Suffix\<close>

definition scanNumber_suffix ::
  "num_scan \<Rightarrow> lexer \<Rightarrow> NumericSuffix \<times> num_scan \<times> lexer" where
  "scanNumber_suffix N L =
     (if \<not> atEnd L \<and> (isAsciiIdentStart (deref L) \<or> isUTF8Start (deref L)) then
        (let suffixStart = curPtr L;
             L1 = skip isAsciiIdentBody L;
             suffixStr = take (curPtr L1 - suffixStart) (drop suffixStart (buffer L1));
             sfx = suffixKind suffixStr
         in if sfx = NS_None \<and> suffixStr \<noteq> [] then
              (sfx, N\<lparr>hadLexicalError := True\<rparr>,
               diagAt suffixStart
                 (''invalid numeric suffix '' @ [CHR 0x27] @ suffixStr @ [CHR 0x27]) L1)
            else (sfx, N, L1))
      else (NS_None, N, L))"

text \<open>4. Underscores: none at the end, no two in a row (reported once)\<close>

definition scanNumber_underscores ::
  "ptr \<Rightarrow> NumericSuffix \<Rightarrow> num_scan \<Rightarrow> lexer \<Rightarrow> num_scan \<times> lexer" where
  "scanNumber_underscores start sfx N L =
     (let (N1, L1) =
            (if curPtr L > start \<and> buffer L ! (curPtr L - 1) = CHR ''_'' \<and> sfx = NS_None then
               (N\<lparr>hadLexicalError := True\<rparr>,
                diagAt (curPtr L) ''number cannot end with underscore'' L)
             else (N, L))
      in case List.find (\<lambda>p. buffer L ! p = CHR ''_'' \<and> buffer L ! (p + 1) = CHR ''_'')
                [start..<curPtr L - 1] of
           Some p \<Rightarrow> (N1\<lparr>hadLexicalError := True\<rparr>,
                      diagAt p ''number cannot contain consecutive underscores'' L1)
         | None \<Rightarrow> (N1, L1))"

definition numberFlags :: "num_scan \<Rightarrow> flagset" where
  "numberFlags N =
     (let f0 = TF_None;
          f1 = (if isHex N then f0 OR TF_IsHex else f0);
          f2 = (if isBin N then f1 OR TF_IsBin else f1)
      in if isOct N then f2 OR TF_IsOctal else f2)"

definition scanNumber :: "lexer \<Rightarrow> Token \<times> lexer" where
  "scanNumber L =
     (let start = curPtr L;
          (N1, L1) = scanNumber_prefix L;
          (N2, L2) = scanNumber_body N1 L1;
          (sfx, N3, L3) = scanNumber_suffix N2 L2;
          (N4, L4) = scanNumber_underscores start sfx N3 L3
      in if hadLexicalError N4 then (errorAt L4 start, L4)
         else let k = (if sfx = NS_d then DecimalLiteral
                       else if isFloat N4 then FloatLiteral else IntegerLiteral)
              in ((tokenFrom k start L4)\<lparr>tok_suffix := sfx, tok_flags := numberFlags N4\<rparr>, L4))"


subsection \<open>Operators and punctuation\<close>

text \<open>
  The \<open>switch\<close> of \<open>scanOperator\<close> for every byte but the braces; \<open>L\<close> is the state after the
  first byte \<open>c\<close> of the operator.
\<close>

definition operatorKind :: "char \<Rightarrow> lexer \<Rightarrow> TokenKind \<times> lexer" where
  "operatorKind c L =
     (if c = CHR ''+'' then
        (if peek L 0 = CHR ''+'' then (MathOp PlusPlus, bump 1 L)
         else if peek L 0 = CHR ''='' then (AssignOp PlusEqual, bump 1 L)
         else (MathOp Plus, L))
      else if c = CHR ''-'' then
        (if peek L 0 = CHR ''-'' then (MathOp MinusMinus, bump 1 L)
         else if peek L 0 = CHR ''='' then (AssignOp MinusEqual, bump 1 L)
         else if peek L 0 = CHR ''>'' then (SyntaxOp Arrow, bump 1 L)
         else (MathOp Minus, L))
      else if c = CHR ''*'' then
        (if peek L 0 = CHR ''*'' then (MathOp Power, bump 1 L)
         else if peek L 0 = CHR ''='' then (AssignOp StarEqual, bump 1 L)
         else (MathOp Star, L))
      else if c = CHR ''/'' then
        (if peek L 0 = CHR ''='' then (AssignOp SlashEqual, bump 1 L)
         else (MathOp Slash, L))
      else if c = CHR ''%'' then
        (if peek L 0 = CHR ''='' then (AssignOp PercentEqual, bump 1 L)
         else (MathOp Percent, L))
      else if c = CHR ''<'' then
        (if peek L 0 = CHR ''<'' then
           (let L1 = bump 1 L in
            if peek L1 0 = CHR ''='' then (BitOp LessLessEqual, bump 1 L1) else (BitOp LessLess, L1))
         else if peek L 0 = CHR ''='' then (RelOp LessEqual, bump 1 L) else (RelOp Less, L))
      else if c = CHR ''>'' then
        (if peek L 0 = CHR ''>'' then
           (let L1 = bump 1 L in
            if peek L1 0 = CHR ''='' then (BitOp GreaterGreaterEqual, bump 1 L1) else (BitOp GreaterGreater, L1))
         else if peek L 0 = CHR ''='' then (RelOp GreaterEqual, bump 1 L) else (RelOp Greater, L))
      else if c = CHR ''='' then
        (if peek L 0 = CHR ''='' then (RelOp EqualEqual, bump 1 L)
         else if peek L 0 = CHR ''>'' then (SyntaxOp FatArrow, bump 1 L)
         else (AssignOp Equal, L))
      else if c = CHR ''!'' then
        (if peek L 0 = CHR ''='' then (RelOp NotEqual, bump 1 L)
         else (LogicOp Bang, L))
      else if c = CHR ''&'' then
        (if peek L 0 = CHR ''&'' then (LogicOp AmpAmp, bump 1 L)
         else if peek L 0 = CHR ''='' then (BitOp AmpEqual, bump 1 L)
         else (BitOp Amp, L))
      else if c = CHR ''|'' then
        (if peek L 0 = CHR ''>'' then (LogicOp PipeGreater, bump 1 L)
         else if peek L 0 = CHR ''|'' then (LogicOp PipePipe, bump 1 L)
         else if peek L 0 = CHR ''='' then (BitOp PipeEqual, bump 1 L)
         else (BitOp Pipe, L))
      else if c = CHR ''^'' then
        (if peek L 0 = CHR ''='' then (BitOp CaretEqual, bump 1 L)
         else (BitOp Caret, L))
      else if c = CHR ''~'' then
        (BitOp Tilde, L)
      else if c = CHR ''?'' then
        (if peek L 0 = CHR ''?'' then (SyntaxOp QuestionQuestion, bump 1 L)
         else if peek L 0 = CHR ''.'' then (SyntaxOp QuestionDot, bump 1 L)
         else (SyntaxOp Question, L))
      else if c = CHR ''.'' then
        (if peek L 0 = CHR ''.'' \<and> peek L 1 = CHR ''.'' then (SyntaxOp DotDotDot, bump 2 L)
         else (SyntaxOp Dot, L))
      else if c = CHR '','' then
        (SyntaxOp Comma, L)
      else if c = CHR '';'' then
        (SyntaxOp Semicolon, L)
      else if c = CHR '':'' then
        (SyntaxOp Colon, L)
      else if c = CHR ''('' then
        (Bracket LParen, L)
      else if c = CHR '')'' then
        (Bracket RParen, L)
      else if c = CHR ''['' then
        (Bracket LBracket, L)
      else if c = CHR '']'' then
        (Bracket RBracket, L)
      else (Error, L))"

definition scanOperator :: "lexer \<Rightarrow> Token \<times> lexer" where
  "scanOperator L =
     (let start = curPtr L; c = deref L; L1 = bump 1 L; st = interpolationStack L1 in
      if c = CHR ''{'' then
        (let L2 = (if st \<noteq> [] then
                     L1\<lparr>interpolationStack := butlast st @ [last st + 1]\<rparr> else L1)
         in (tokenFrom (Bracket LBrace) start L2, L2))
      else if c = CHR ''}'' then
        (if st \<noteq> [] then
           (if last st = 0 then
              (let L2 = L1\<lparr>interpolationStack := butlast st, lexState := InTemplate,
                            fragmentStart := Some (curPtr L1)\<rparr>
               in (tokenFrom InterpolationEnd start L2, L2))
            else
              (let L2 = L1\<lparr>interpolationStack := butlast st @ [last st - 1]\<rparr>
               in (tokenFrom (Bracket RBrace) start L2, L2)))
         else (tokenFrom (Bracket RBrace) start L1, L1))
      else (case operatorKind c L1 of (k, L2) \<Rightarrow> (tokenFrom k start L2, L2)))"

subsection \<open>Strings, template strings and character literals\<close>

text \<open>
  \<open>fragmentStart\<close> where the code dereferences it; it is not null there (\<open>lexer_inv\<close>).
\<close>

definition fragPtr :: "lexer \<Rightarrow> ptr" where
  "fragPtr L = (case fragmentStart L of Some p \<Rightarrow> p | None \<Rightarrow> 0)"

definition escapedFlag :: "bool \<Rightarrow> Token \<Rightarrow> Token" where
  "escapedFlag e t = (if e then t\<lparr>tok_flags := tok_flags t OR TF_IsEscaped\<rparr> else t)"

text \<open>The exits of the loop of \<open>scanString\<close>: closing quote, \<open>${\<close>, end of buffer.\<close>

definition stringClose :: "bool \<Rightarrow> ptr \<Rightarrow> bool \<Rightarrow> bool \<Rightarrow> lexer \<Rightarrow> Token \<times> lexer" where
  "stringClose isTemplate start hasEscape hadError L =
     (let tokenStart = (if isTemplate then fragPtr L else start);
          L1 = bump 1 L;
          L2 = (if isTemplate then L1\<lparr>lexState := Normal, fragmentStart := None\<rparr> else L1)
      in if hadError then (errorAt L2 tokenStart, L2)
         else (escapedFlag hasEscape
                 (tokenFrom (if isTemplate then TemplateString else StringLiteral) tokenStart L2), L2))"

definition stringInterp :: "bool \<Rightarrow> lexer \<Rightarrow> Token \<times> lexer" where
  "stringInterp hasEscape L =
     (if fragmentStart L = Some (curPtr L) then
        (mkToken InterpolationStart (curPtr L) 2,
         (bump 2 L)\<lparr>lexState := Normal, interpolationStack := interpolationStack L @ [0]\<rparr>)
      else
        (escapedFlag hasEscape (tokenFrom StringFragment (fragPtr L) L),
         L\<lparr>fragmentStart := Some (curPtr L)\<rparr>))"

definition stringEof :: "bool \<Rightarrow> ptr \<Rightarrow> lexer \<Rightarrow> Token \<times> lexer" where
  "stringEof isTemplate start L =
     (let errStart = (if isTemplate then fragPtr L else start);
          L1 = (if isTemplate then L\<lparr>lexState := Normal, fragmentStart := None\<rparr> else L);
          L2 = diagAt errStart (if isTemplate then ''unterminated template string''
                                else ''unterminated string literal'') L1
      in (errorAt L2 errStart, L2))"

function scanString_loop ::
  "bool \<Rightarrow> ptr \<Rightarrow> bool \<Rightarrow> bool \<Rightarrow> lexer \<Rightarrow> Token \<times> lexer" where
  "scanString_loop isTemplate start hasEscape hadError L =
     (if atEnd L then stringEof isTemplate start L
      else let c = deref L; quote = (if isTemplate then CHR 0x60 else CHR 0x22) in
        if \<not> isTemplate \<and> (c = CHR 0x0A \<or> c = CHR 0x0D) then
          (let L1 = diagAt (curPtr L) ''unterminated string literal'' L
           in (errorAt L1 start, L1))
        else if c = CHR 0x5C then
          (case consumeEscape L of
             (ok, L1) \<Rightarrow> scanString_loop isTemplate start True (hadError \<or> \<not> ok) L1)
        else if c = quote then stringClose isTemplate start hasEscape hadError L
        else if isTemplate \<and> c = CHR ''$'' \<and> peek L 1 = CHR ''{'' then stringInterp hasEscape L
        else scanString_loop isTemplate start hasEscape hadError (bump 1 L))"
  by pat_completeness auto
termination
  by (relation "measure (\<lambda>(t, s, e, h, L). length (buffer L) - curPtr L)")
     (auto simp: atEnd_def scans_def dest!: consumeEscape_eq_scans)

declare scanString_loop.simps [simp del]

definition scanString :: "lexer \<Rightarrow> Token \<times> lexer" where
  "scanString L =
     (let isTemplate = inTemplateString L;
          L1 = (if isTemplate \<and> fragmentStart L = None then L\<lparr>fragmentStart := Some (curPtr L)\<rparr>
                else L)
      in if isTemplate then scanString_loop True 0 False False L1
         else
           (let start = curPtr L1; quote = deref L1; L2 = bump 1 L1 in
            if quote = CHR 0x60 then
              scanString_loop True 0 False False
                (L2\<lparr>lexState := InTemplate, fragmentStart := Some (curPtr L2)\<rparr>)
            else scanString_loop False start False False L2))"

definition scanChar :: "utf8_lib \<Rightarrow> lexer \<Rightarrow> Token \<times> lexer" where
  "scanChar U L =
     (let start = curPtr L; L1 = bump 1 L;
          (ok, L2) = (if peek L1 0 = CHR 0x5C then consumeEscape L1 else advanceUTF8 U L1)
      in if \<not> ok then (errorAt L2 start, L2)
         else if peek L2 0 \<noteq> CHR 0x27 then (errorAt L2 start, L2)
         else (let L3 = bump 1 L2 in (tokenFrom CharLiteral start L3, L3)))"

subsection \<open>The main entry point\<close>

text \<open>
  The loop of \<open>next\<close> over whitespace and comments leaves it at the end of the buffer, at an
  unterminated comment, or at the first byte of a token.
\<close>

datatype trivia = AtEof | BadComment | AtToken

lemma skipTrivia_decreases:
  assumes "L1 = skipWhitespace L" and "\<not> atEnd L1"
    and "deref L1 = CHR ''/'' \<and> (peek L1 1 = CHR ''/'' \<or> peek L1 1 = CHR ''*'')"
    and "(r, L2) = skipComment L1"
  shows "length (buffer L2) - curPtr L2 < length (buffer L) - curPtr L"
proof -
  have "scans 2 L1 L2 \<and> inBuffer L2"
    using assms by (intro skipComment_eq_scans) (auto simp: atEnd_def)
  moreover have "curPtr L \<le> curPtr L1" "buffer L1 = buffer L"
    using assms(1) by (simp_all add: skipWhitespace_def advance_while_ge)
  ultimately show ?thesis using assms(2) by (auto simp: scans_def atEnd_def)
qed

function skipTrivia :: "lexer \<Rightarrow> trivia \<times> lexer" where
  "skipTrivia L =
     (let L1 = skipWhitespace L in
      if atEnd L1 then (AtEof, L1)
      else if deref L1 = CHR ''/'' \<and> (peek L1 1 = CHR ''/'' \<or> peek L1 1 = CHR ''*'') then
        (case skipComment L1 of
           (True, L2) \<Rightarrow> skipTrivia L2
         | (False, L2) \<Rightarrow> (BadComment, L2))
      else (AtToken, L1))"
  by pat_completeness auto
termination
  by (relation "measure (\<lambda>L. length (buffer L) - curPtr L)")
     (simp_all add: skipTrivia_decreases)

declare skipTrivia.simps [simp del]

definition dispatch :: "utf8_lib \<Rightarrow> lexer \<Rightarrow> Token \<times> lexer" where
  "dispatch U L =
     (let c = deref L in
      if isAsciiIdentStart c \<or> isUTF8Start c then scanIdentifier U L
      else if isdigit c then scanNumber L
      else if c = CHR ''.'' \<and> isdigit (peek L 1) then scanNumber L
      else if c = CHR 0x22 \<or> c = CHR 0x60 then scanString L
      else if c = CHR 0x27 then scanChar U L
      else scanOperator L)"

definition lex_next :: "utf8_lib \<Rightarrow> lexer \<Rightarrow> Token \<times> lexer" where
  "lex_next U L =
     (if inTemplateString L \<and> interpolationStack L = [] then
        (if atEnd L then
           (errorAt L (case fragmentStart L of Some p \<Rightarrow> p | None \<Rightarrow> 0), L)
         else scanString L)
      else case skipTrivia L of
          (AtEof, L1) \<Rightarrow> (mkToken Eof (curPtr L1) 0, L1)
        | (BadComment, L1) \<Rightarrow> (errorAt L1 (curPtr L1), L1)
        | (AtToken, L1) \<Rightarrow> dispatch U L1)"

text \<open>\<open>n\<close> consecutive calls of \<open>next\<close>, as the parser issues them.\<close>

fun lex_tokens :: "utf8_lib \<Rightarrow> nat \<Rightarrow> lexer \<Rightarrow> Token list \<times> lexer" where
  "lex_tokens U 0 L = ([], L)"
| "lex_tokens U (Suc n) L =
     (case lex_next U L of (t, L1) \<Rightarrow>
        (case lex_tokens U n L1 of (ts, L2) \<Rightarrow> (t # ts, L2)))"

end
