(* ===== verification/LexerInv.thy ===== *)
theory LexerInv
  imports Lexer
begin

text \<open>
  The invariant of the lexer and the shape of its tokens: every scanner keeps the cursor in
  the buffer, every token it returns is the slice between its location and the new cursor,
  and every call of \<open>lex_next\<close> keeps \<open>lexer_inv\<close>.
\<close>

subsection \<open>The invariant and the shape of tokens\<close>

definition lexer_inv :: "lexer \<Rightarrow> bool" where
  "lexer_inv L \<longleftrightarrow>
     inBuffer L \<and>
     (\<forall>f. fragmentStart L = Some f \<longrightarrow> f \<le> curPtr L) \<and>
     (inTemplateString L \<longrightarrow> fragmentStart L \<noteq> None) \<and>
     (inTemplateString L \<and> interpolationStack L = [] \<longrightarrow> fragmentStart L = Some (curPtr L)) \<and>
     (\<forall>n \<in> set (interpolationStack L). 0 \<le> n \<and> n \<le> int (curPtr L)) \<and>
     diag_inv (Diags L)"

definition tokShape :: "Token \<Rightarrow> lexer \<Rightarrow> bool" where
  "tokShape t L' \<longleftrightarrow>
     tok_location t \<le> curPtr L' \<and>
     tok_length t = of_nat (if tok_kind t = Error then max 1 (curPtr L' - tok_location t)
                            else curPtr L' - tok_location t)"

text \<open>A template string is being scanned, outside every \<open>${...}\<close>.\<close>

definition inFragment :: "lexer \<Rightarrow> bool" where
  "inFragment L \<longleftrightarrow> inTemplateString L \<and> interpolationStack L = []"

lemma lexer_inv_init: "diag_inv D \<Longrightarrow> lexer_inv (mkLexer b D)"
  by (simp add: lexer_inv_def mkLexer_def inTemplateString_def)

lemma lexer_inv_scans:
  assumes "lexer_inv L" and "scans n L L'" and "inBuffer L'" and "\<not> inFragment L"
  shows "lexer_inv L'"
  using assms by (fastforce simp: lexer_inv_def scans_def inTemplateString_def inFragment_def)

lemma inFragment_scans: "scans n L L' \<Longrightarrow> inFragment L' \<longleftrightarrow> inFragment L"
  by (simp add: scans_def inFragment_def inTemplateString_def)

lemma tokShape_tokenFrom [simp]:
  "tokShape (tokenFrom k p L) L \<longleftrightarrow> p \<le> curPtr L \<and> (k = Error \<longrightarrow> p < curPtr L \<or>
      (of_nat (curPtr L - p) :: 32 word) = 1)"
  by (auto simp: tokShape_def tokenFrom_def max_def)

lemma tokShape_mkToken:
  "k \<noteq> Error \<Longrightarrow> tokShape (mkToken k p n) L \<longleftrightarrow>
     p \<le> curPtr L \<and> (of_nat n :: 32 word) = of_nat (curPtr L - p)"
  by (simp add: tokShape_def)

lemma tokShape_errorAt [simp]: "tokShape (errorAt L p) L \<longleftrightarrow> p \<le> curPtr L"
  by (auto simp: tokShape_def errorAt_def)

lemma tokenFrom_simps [simp]:
  "tok_kind (tokenFrom k p L) = k" "tok_location (tokenFrom k p L) = p"
  by (simp_all add: tokenFrom_def)

lemma errorAt_simps [simp]: "tok_kind (errorAt L p) = Error" "tok_location (errorAt L p) = p"
  by (simp_all add: errorAt_def)

lemma tokShape_update [simp]:
  "tokShape (t\<lparr>tok_flags := f\<rparr>) L \<longleftrightarrow> tokShape t L"
  "tokShape (t\<lparr>tok_suffix := s\<rparr>) L \<longleftrightarrow> tokShape t L"
  "tokShape t (L\<lparr>fragmentStart := fs\<rparr>) \<longleftrightarrow> tokShape t L"
  "tokShape t (L\<lparr>lexState := ls\<rparr>) \<longleftrightarrow> tokShape t L"
  "tokShape t (L\<lparr>interpolationStack := is\<rparr>) \<longleftrightarrow> tokShape t L"
  by (simp_all add: tokShape_def)

lemma token_update [simp]:
  "tokenFrom k p (L\<lparr>fragmentStart := fs\<rparr>) = tokenFrom k p L"
  "tokenFrom k p (L\<lparr>lexState := ls\<rparr>) = tokenFrom k p L"
  "tokenFrom k p (L\<lparr>interpolationStack := is\<rparr>) = tokenFrom k p L"
  "errorAt (L\<lparr>fragmentStart := fs\<rparr>) p = errorAt L p"
  "errorAt (L\<lparr>lexState := ls\<rparr>) p = errorAt L p"
  by (simp_all add: tokenFrom_def errorAt_def)

lemma escapedFlag_simps [simp]:
  "tok_kind (escapedFlag e t) = tok_kind t" "tok_location (escapedFlag e t) = tok_location t"
  "tokShape (escapedFlag e t) L \<longleftrightarrow> tokShape t L"
  by (auto simp: escapedFlag_def)

text \<open>Keywords are never end of file or errors.\<close>

lemma keywordKind_proper: "keywordKind s \<notin> {Eof, Error}"
proof -
  have "list_all (\<lambda>(s, k). k \<notin> {Eof, Error}) keywordTable"
    by (simp add: keywordTable_def)
  then show ?thesis
    by (auto simp: keywordKind_def list_all_iff dest!: map_of_SomeD split: option.splits)
qed

subsection \<open>Scanners that only move the cursor\<close>

text \<open>
  The contract of a token scanner that leaves the template state alone: it advances by at
  least \<open>n\<close> bytes, stays in the buffer and returns the slice it passed over.
\<close>

definition slices :: "nat \<Rightarrow> lexer \<Rightarrow> Token \<times> lexer \<Rightarrow> bool" where
  "slices n L r \<longleftrightarrow>
     scans n L (snd r) \<and> inBuffer (snd r) \<and> tok_location (fst r) = curPtr L \<and>
     tokShape (fst r) (snd r) \<and> tok_kind (fst r) \<noteq> Eof"

lemma slicesI:
  "scans n L L' \<Longrightarrow> inBuffer L' \<Longrightarrow> tok_location t = curPtr L \<Longrightarrow> tokShape t L' \<Longrightarrow>
   tok_kind t \<noteq> Eof \<Longrightarrow> slices n L (t, L')"
  by (simp add: slices_def)

lemma identBody_scans:
  "inBuffer L \<Longrightarrow> scans 0 L (snd (identBody U L)) \<and> inBuffer (snd (identBody U L))"
proof (induction U L rule: identBody.induct)
  case (1 U L)
  consider "atEnd L" | "\<not> atEnd L" "isAsciiIdentBody (deref L)"
    | "\<not> atEnd L" "\<not> isAsciiIdentBody (deref L)" "isUTF8Start (deref L)"
    | "\<not> atEnd L" "\<not> isAsciiIdentBody (deref L)" "\<not> isUTF8Start (deref L)"
    by blast
  then show ?case
  proof cases
    case 2
    then have "scans 0 (bump 1 L) (snd (identBody U (bump 1 L))) \<and>
               inBuffer (snd (identBody U (bump 1 L)))"
      using "1.IH"(1) by (simp add: atEnd_def)
    with 2 show ?thesis
      by (auto simp: identBody.simps [of U L] scans_def)
  next
    case 3
    obtain ok L' where u: "advanceUTF8 U L = (ok, L')" by fastforce
    show ?thesis
    proof (cases ok)
      case True
      then have s: "scans 1 L L'" "inBuffer L'" using u advanceUTF8_True [of U L L'] by simp_all
      then have "scans 0 L' (snd (identBody U L')) \<and> inBuffer (snd (identBody U L'))"
        using "1.IH"(2) [OF 3 u [symmetric]] True by simp
      with 3 u True s show ?thesis
        by (auto simp: identBody.simps [of U L] scans_def)
    next
      case False
      with u have "L' = L" using advanceUTF8_False [of U L L'] by simp
      with 3 u False "1.prems" show ?thesis by (simp add: identBody.simps [of U L])
    qed
  qed (use "1.prems" in \<open>simp_all add: identBody.simps [of U L]\<close>)
qed

lemma scanIdentifier_slices:
  assumes "\<not> atEnd L"
  shows "slices (if isAsciiIdentStart (deref L) then 1 else 0) L (scanIdentifier U L)"
proof -
  define st where "st = (if isAsciiIdentStart (deref L) then (True, bump 1 L)
                      else if isUTF8Start (deref L) then advanceUTF8 U L else (False, L))"
  obtain ok L1 where st1: "st = (ok, L1)" by fastforce
  have s1: "scans (if isAsciiIdentStart (deref L) then 1 else 0) L L1 \<and> inBuffer L1"
    using st1 assms advanceUTF8_True [of U L] advanceUTF8_False [of U L]
    by (cases ok) (auto simp: st_def atEnd_def intro: scans_mono split: if_splits)
  note eq = scanIdentifier_def [of U L, folded st_def, unfolded st1 Let_def, simplified]
  show ?thesis
  proof (cases ok)
    case False
    with eq s1 show ?thesis by (auto intro!: slicesI dest: scansD)
  next
    case True
    obtain r L2 where b: "identBody U L1 = (r, L2)" by fastforce
    with s1 identBody_scans [of L1 U] have "scans 0 L1 L2" "inBuffer L2" by auto
    then have "scans (if isAsciiIdentStart (deref L) then 1 else 0) L L2"
      using s1 scans_trans by fastforce
    with True eq b \<open>inBuffer L2\<close> keywordKind_proper show ?thesis
      by (cases r) (auto intro!: slicesI dest: scansD)
  qed
qed


lemma inBuffer_bump: "curPtr L + n \<le> length (buffer L) \<Longrightarrow> inBuffer (bump n L)"
  by simp

lemma peek_class: "P (peek L n) \<Longrightarrow> \<not> P NUL \<Longrightarrow> curPtr L + n < length (buffer L)"
  by (metis peek_in_buffer)

lemma NUL_classes [simp]: "\<not> isdigit NUL" "\<not> isAsciiIdentStart NUL" "\<not> isUTF8Start NUL"
  by (simp_all add: cctype)

lemma NUL_neq [simp]:
  "NUL \<noteq> CHR ''.''" "NUL \<noteq> CHR ''0''" "NUL \<noteq> CHR ''x''" "NUL \<noteq> CHR ''X''" "NUL \<noteq> CHR ''b''"
  "NUL \<noteq> CHR ''B''" "NUL \<noteq> CHR ''o''" "NUL \<noteq> CHR ''O''" "NUL \<noteq> CHR ''e''" "NUL \<noteq> CHR ''E''"
  "NUL \<noteq> CHR ''+''" "NUL \<noteq> CHR ''-''" "NUL \<noteq> CHR 0x27" "NUL \<noteq> CHR ''{''"
  by (simp_all add: NUL_def)

text \<open>The stages of \<open>scanNumber\<close> compose: each is a step inside the buffer.\<close>

definition scansIn :: "nat \<Rightarrow> lexer \<Rightarrow> lexer \<Rightarrow> bool" where
  "scansIn n L L' \<longleftrightarrow> scans n L L' \<and> (inBuffer L \<longrightarrow> inBuffer L')"

lemma scansIn_refl [intro]: "scansIn 0 L L"
  by (simp add: scansIn_def)

lemma scansIn_trans: "scansIn m L L1 \<Longrightarrow> scansIn n L1 L2 \<Longrightarrow> scansIn (m + n) L L2"
  by (auto simp: scansIn_def intro: scans_trans)

lemma scansIn_trans0: "scansIn m L L1 \<Longrightarrow> scansIn n L1 L2 \<Longrightarrow> scansIn 0 L L2"
  by (auto simp: scansIn_def dest: scans_trans intro: scans_mono)

lemma scansIn_mono: "scansIn n L L' \<Longrightarrow> m \<le> n \<Longrightarrow> scansIn m L L'"
  by (auto simp: scansIn_def intro: scans_mono)

lemma scansIn_skip [intro]: "scansIn 0 L (skip P L)"
  by (auto simp: scansIn_def advance_while_le)

lemma scansIn_diagAt [intro]: "scansIn 0 L (diagAt p m L)"
  by (simp add: scansIn_def)

lemma scansIn_bump [intro]: "curPtr L + n \<le> length (buffer L) \<Longrightarrow> scansIn n L (bump n L)"
  by (simp add: scansIn_def)

lemma scansIn_bump_peek:
  "P (peek L n) \<Longrightarrow> \<not> P NUL \<Longrightarrow> scansIn (Suc n) L (bump (Suc n) L)"
  using peek_class [of P L n] by (intro scansIn_bump) simp

lemma scanNumber_prefix_scans: "scansIn 0 L (snd (scanNumber_prefix L))"
proof -
  have "scansIn 0 L (skip P (bump 2 L))" if "peek L 1 = c" "c \<noteq> NUL" for P c
    using scansIn_trans0 [OF scansIn_bump_peek [of "\<lambda>x. x = c" L 1] scansIn_skip] that
    by (simp add: numeral_2_eq_2)
  moreover have "scansIn 0 L (skip P (bump 1 L))" if "deref L = c" "c \<noteq> NUL" for P c
    using scansIn_trans0 [OF scansIn_bump_peek [of "\<lambda>x. x = c" L 0] scansIn_skip] that
    by (simp add: deref_def)
  ultimately show ?thesis
    by (auto simp: scanNumber_prefix_def Let_def NUL_neq [symmetric])
qed

lemma scanNumber_fraction_scans: "scansIn 0 L (snd (scanNumber_fraction N L))"
proof -
  have b: "scansIn 0 L (bump 1 L)" if "peek L 0 = CHR ''.''"
    using scansIn_bump_peek [of "\<lambda>x. x = CHR ''.''" L 0] that by (auto intro: scansIn_mono)
  have "scansIn 0 L (skip P (bump 1 L))" if "peek L 0 = CHR ''.''" for P
    using scansIn_trans0 [OF b [OF that] scansIn_skip] .
  moreover have "scansIn 0 L (skip P (diagAt p m (skip Q (bump 1 L))))"
    if "peek L 0 = CHR ''.''" for P Q p m
    using scansIn_trans0 [OF scansIn_trans0 [OF scansIn_trans0 [OF b [OF that] scansIn_skip]
        scansIn_diagAt] scansIn_skip] .
  ultimately show ?thesis
    using b by (auto simp: scanNumber_fraction_def Let_def)
qed

lemma scanNumber_exponent_scans: "scansIn 0 L (snd (scanNumber_exponent N L))"
proof (cases "peek L 0 = CHR ''e'' \<or> peek L 0 = CHR ''E''")
  case True
  let ?L1 = "bump 1 L"
  define L2 where
    "L2 = (if peek ?L1 0 = CHR ''+'' \<or> peek ?L1 0 = CHR ''-'' then bump 1 ?L1 else ?L1)"
  have "scansIn 0 L ?L1"
    using scansIn_bump_peek [of "\<lambda>x. x = CHR ''e'' \<or> x = CHR ''E''" L 0] True
    by (auto intro: scansIn_mono)
  moreover have "scansIn 0 ?L1 L2"
    using scansIn_bump_peek [of "\<lambda>x. x = CHR ''+'' \<or> x = CHR ''-''" ?L1 0]
    by (auto simp: L2_def intro: scansIn_mono)
  ultimately have s: "scansIn 0 L L2" by (rule scansIn_trans0)
  have "snd (scanNumber_exponent N L) =
      (if \<not> isdigit (peek L2 0)
       then skip decChar (diagAt (curPtr L2) ''missing digits after exponent'' L2)
       else skip decChar L2)"
    using True by (simp add: scanNumber_exponent_def Let_def L2_def)
  with s show ?thesis
    using scansIn_trans0 [OF s scansIn_skip]
      scansIn_trans0 [OF scansIn_trans0 [OF s scansIn_diagAt] scansIn_skip] by simp
qed (auto simp: scanNumber_exponent_def)

lemma scanNumber_body_scans: "scansIn 0 L (snd (scanNumber_body N L))"
  using scansIn_trans0 [OF scansIn_trans0 [OF scansIn_skip [of L decChar]
      scanNumber_fraction_scans [of "skip decChar L" N]] scanNumber_exponent_scans]
  by (auto simp: scanNumber_body_def split: prod.splits)

lemma scanNumber_suffix_scans: "scansIn 0 L (snd (snd (scanNumber_suffix N L)))"
  using scansIn_trans0 [OF scansIn_skip [of L isAsciiIdentBody] scansIn_diagAt]
  by (auto simp: scanNumber_suffix_def Let_def)

lemma scanNumber_underscores_scans: "scansIn 0 L (snd (scanNumber_underscores p s N L))"
  using scansIn_trans0 [OF scansIn_diagAt scansIn_diagAt, of L]
  by (auto simp: scanNumber_underscores_def Let_def split: option.splits)


lemma scanNumber_prefix_cases:
  "scansIn 1 L (snd (scanNumber_prefix L)) \<or>
   scanNumber_prefix L = (num_scan_init, L) \<and> deref L \<noteq> CHR ''.''"
proof -
  have "scansIn 1 L (skip P (bump 2 L))" if "peek L 1 = c" "c \<noteq> NUL" for P c
    using scansIn_trans [OF scansIn_bump_peek [of "\<lambda>x. x = c" L 1] scansIn_skip] that
    by (auto simp: numeral_2_eq_2 intro: scansIn_mono)
  moreover have "scansIn 1 L (skip P (bump 1 L))" if "deref L = c" "c \<noteq> NUL" for P c
    using scansIn_trans [OF scansIn_bump_peek [of "\<lambda>x. x = c" L 0] scansIn_skip] that
    by (auto simp: deref_def intro: scansIn_mono)
  ultimately show ?thesis
    by (auto simp: scanNumber_prefix_def Let_def NUL_neq [symmetric])
qed

lemma scanNumber_progress:
  assumes "isdigit (deref L) \<or> deref L = CHR ''.''"
  shows "scansIn 1 L (snd (case scanNumber_prefix L of (N, L1) \<Rightarrow> scanNumber_body N L1))"
proof -
  obtain N L1 where p: "scanNumber_prefix L = (N, L1)" by fastforce
  show ?thesis
  proof (cases "scansIn 1 L L1")
    case True
    then show ?thesis using p scansIn_trans [OF True scanNumber_body_scans] by simp
  next
    case False
    then have e: "N = num_scan_init" "L1 = L" and d: "isdigit (deref L)"
      using scanNumber_prefix_cases [of L] p assms by auto
    have "curPtr L < length (buffer L)"
      using peek_class [of isdigit L 0] d by (simp add: deref_def)
    then have "scansIn 1 L (skip decChar L)"
      using advance_while_step [of "curPtr L" "buffer L" decChar] d advance_while_le [of "curPtr L" "buffer L" decChar]
      by (simp add: scansIn_def scans_def deref_def peek_def decChar_def)
    from scansIn_trans [OF scansIn_trans [OF this scanNumber_fraction_scans] scanNumber_exponent_scans]
    show ?thesis
      using p e by (auto simp: scanNumber_body_def num_scan_init_def case_prod_beta)
  qed
qed

lemma scanNumber_slices:
  assumes "inBuffer L" and "isdigit (deref L) \<or> deref L = CHR ''.''"
  shows "slices 1 L (scanNumber L)"
proof -
  obtain N1 L1 where 1: "scanNumber_prefix L = (N1, L1)" by fastforce
  obtain N2 L2 where 2: "scanNumber_body N1 L1 = (N2, L2)" by fastforce
  obtain sfx N3 L3 where 3: "scanNumber_suffix N2 L2 = (sfx, N3, L3)" by (metis surj_pair)
  obtain N4 L4 where 4: "scanNumber_underscores (curPtr L) sfx N3 L3 = (N4, L4)" by fastforce
  have a: "scansIn 1 L L2" using scanNumber_progress [OF assms(2)] 1 2 by simp
  have b: "scansIn 0 L2 L3" using scanNumber_suffix_scans [of L2 N2] 3 by simp
  have c: "scansIn 0 L3 L4"
    using scanNumber_underscores_scans [of L3 "curPtr L" sfx N3] 4 by simp
  have "scansIn 1 L L4" using scansIn_trans [OF scansIn_trans [OF a b] c] by simp
  then have "scans 1 L L4" "inBuffer L4" using assms(1) by (auto simp: scansIn_def)
  then show ?thesis
    by (auto simp: scanNumber_def Let_def 1 2 3 4 intro!: slicesI dest: scansD)
qed

lemma scanChar_slices:
  assumes "\<not> atEnd L"
  shows "slices 1 L (scanChar U L)"
proof -
  let ?L1 = "bump 1 L"
  define st where "st = (if peek ?L1 0 = CHR 0x5C then consumeEscape ?L1 else advanceUTF8 U ?L1)"
  obtain ok L2 where s: "st = (ok, L2)" by fastforce
  have in1: "inBuffer ?L1" using assms by (simp add: atEnd_def)
  have "scans 0 ?L1 L2 \<and> inBuffer L2"
  proof (cases "peek ?L1 0 = CHR 0x5C")
    case True
    then have "\<not> atEnd ?L1"
      using peek_in_buffer [of ?L1 0] by (simp add: atEnd_def NUL_def)
    then show ?thesis
      using True s consumeEscape_scans [of ?L1] consumeEscape_inBuffer [of ?L1]
      by (auto simp: st_def intro: scans_mono)
  next
    case False
    then show ?thesis
      using s in1 advanceUTF8_True [of U ?L1 L2] advanceUTF8_False [of U ?L1 L2]
      by (cases ok) (auto simp: st_def intro: scans_mono)
  qed
  then have s2: "scans 1 L L2" and in2: "inBuffer L2"
    using scans_trans [OF scans_bump [of 1 L], of 0 L2] by simp_all
  have s3: "scans 1 L (bump 1 L2)" using scans_trans [OF s2 scans_bump [of 1 L2]]
    by (auto intro: scans_mono)
  have in3: "inBuffer (bump 1 L2)" if "peek L2 0 = CHR 0x27"
    using peek_in_buffer [of L2 0] that by (simp add: NUL_def)
  note eq = scanChar_def [of U L, unfolded Let_def, folded st_def, unfolded s, simplified]
  show ?thesis
    using s2 in2 s3 in3 by (auto simp: eq intro!: slicesI dest: scansD)
qed

lemma operatorKind_scans: "scansIn 0 L (snd (operatorKind c L)) \<and> fst (operatorKind c L) \<noteq> Eof"
proof -
  have b: "scansIn 0 M (bump 1 M)" if "peek M 0 \<noteq> NUL" for M
    using scansIn_bump_peek [of "\<lambda>y. y \<noteq> NUL" M 0] that by (auto intro: scansIn_mono)
  have b2: "scansIn 0 L (bump 2 L)" if "peek L 1 \<noteq> NUL"
    using scansIn_bump_peek [of "\<lambda>y. y \<noteq> NUL" L 1] that
    by (auto simp: numeral_2_eq_2 intro: scansIn_mono)
  have bb: "scansIn 0 L (bump 1 (bump 1 L))" if "peek L 0 \<noteq> NUL" "peek (bump 1 L) 0 \<noteq> NUL"
    using scansIn_trans0 [OF b [OF that(1)] b [OF that(2)]] .
  show ?thesis
    by (simp add: operatorKind_def Let_def NUL_def b [simplified] b2 [simplified] bb [simplified]
        scansIn_refl)
qed


subsection \<open>The contract of a call\<close>

definition tokenPost :: "lexer \<Rightarrow> Token \<times> lexer \<Rightarrow> bool" where
  "tokenPost L r \<longleftrightarrow>
     lexer_inv (snd r) \<and> buffer (snd r) = buffer L \<and> curPtr L \<le> curPtr (snd r) \<and>
     tokShape (fst r) (snd r) \<and> tok_kind (fst r) \<noteq> Eof"

lemma slices_post:
  assumes "slices n L r" and "lexer_inv L" and "\<not> inFragment L"
  shows "tokenPost L r \<and> curPtr L + n \<le> curPtr (snd r)"
  using assms lexer_inv_scans [of L n "snd r"]
  by (auto simp: slices_def tokenPost_def dest: scansD)

lemma scanOperator_other:
  assumes "deref L \<noteq> CHR ''{''" and "deref L \<noteq> CHR ''}''" and "\<not> atEnd L"
  shows "slices 1 L (scanOperator L)"
proof -
  obtain k L2 where k: "operatorKind (deref L) (bump 1 L) = (k, L2)" by fastforce
  have in1: "inBuffer (bump 1 L)" using assms(3) by (simp add: atEnd_def)
  have o: "scans 0 (bump 1 L) L2" "inBuffer L2" "k \<noteq> Eof"
    using operatorKind_scans [of "bump 1 L" "deref L"] k in1 by (auto simp: scansIn_def)
  have "scans 1 L L2" using scans_trans [OF scans_bump [of 1 L] o(1)] by simp
  moreover have "scanOperator L = (tokenFrom k (curPtr L) L2, L2)"
    using assms k by (simp add: scanOperator_def Let_def)
  ultimately show ?thesis using o by (auto intro!: slicesI dest: scansD)
qed

lemma lexer_inv_braces:
  assumes "lexer_inv L" and "\<not> atEnd L" and "\<forall>n \<in> set st. 0 \<le> n \<and> n \<le> int (curPtr L) + 1"
  shows "\<not> inFragment L \<Longrightarrow> st \<noteq> [] \<Longrightarrow> lexer_inv ((bump 1 L)\<lparr>interpolationStack := st\<rparr>)"
    and "lexer_inv ((bump 1 L)\<lparr>interpolationStack := st, lexState := InTemplate,
                               fragmentStart := Some (Suc (curPtr L))\<rparr>)"
  using assms by (auto simp: lexer_inv_def inTemplateString_def atEnd_def inFragment_def)

lemma scanOperator_post:
  assumes inv: "lexer_inv L" and nf: "\<not> inFragment L" and ne: "\<not> atEnd L"
  shows "tokenPost L (scanOperator L) \<and> curPtr L + 1 \<le> curPtr (snd (scanOperator L))"
proof (cases "interpolationStack L = [] \<or> deref L \<noteq> CHR ''{'' \<and> deref L \<noteq> CHR ''}''")
  case plain: True
  have "slices 1 L (scanOperator L)"
  proof (cases "deref L = CHR ''{'' \<or> deref L = CHR ''}''")
    case True
    then show ?thesis
      using plain ne scans_bump [of 1 L]
      by (auto simp: scanOperator_def Let_def atEnd_def intro!: slicesI)
  qed (use scanOperator_other ne in blast)
  from slices_post [OF this inv nf] show ?thesis .
next
  case False
  let ?st = "interpolationStack L"
  have st: "\<forall>n \<in> set ?st. 0 \<le> n \<and> n \<le> int (curPtr L)"
    using inv by (auto simp: lexer_inv_def)
  then have l: "0 \<le> last ?st \<and> last ?st \<le> int (curPtr L)" using False by simp
  have bl: "\<forall>n \<in> set (butlast ?st @ xs). 0 \<le> n \<and> n \<le> int (curPtr L) + 1"
    if "\<forall>n \<in> set xs. 0 \<le> n \<and> n \<le> int (curPtr L) + 1" for xs
    using st that by (auto dest!: in_set_butlastD)
  note li = lexer_inv_braces [OF inv ne]
  have up: "lexer_inv ((bump 1 L)\<lparr>interpolationStack := butlast ?st @ [last ?st + 1]\<rparr>)"
    using l by (intro li(1) bl nf) auto
  have down: "lexer_inv ((bump 1 L)\<lparr>interpolationStack := butlast ?st @ [last ?st - 1]\<rparr>)"
    if "last ?st \<noteq> 0" using l that by (intro li(1) bl nf) auto
  have out: "lexer_inv ((bump 1 L)\<lparr>interpolationStack := butlast ?st, lexState := InTemplate,
                               fragmentStart := Some (Suc (curPtr L))\<rparr>)"
    using bl [of "[]"] by (intro li(2)) simp
  show ?thesis
    using False up down out
    by (auto simp: scanOperator_def Let_def tokenPost_def)
qed

subsection \<open>Strings and template strings\<close>

text \<open>What holds whenever the loop of \<open>scanString\<close> tests its condition.\<close>

definition stringPre :: "bool \<Rightarrow> ptr \<Rightarrow> lexer \<Rightarrow> bool" where
  "stringPre isTemplate start L \<longleftrightarrow>
     inBuffer L \<and> diag_inv (Diags L) \<and>
     (\<forall>f. fragmentStart L = Some f \<longrightarrow> f \<le> curPtr L) \<and>
     (\<forall>n \<in> set (interpolationStack L). 0 \<le> n \<and> n \<le> int (curPtr L)) \<and>
     (if isTemplate then inTemplateString L \<and> fragmentStart L \<noteq> None
      else \<not> inTemplateString L \<and> start \<le> curPtr L)"

lemma stringPre_scans:
  "stringPre t s L \<Longrightarrow> scans n L L' \<Longrightarrow> inBuffer L' \<Longrightarrow> stringPre t s L'"
  by (fastforce simp: stringPre_def scans_def inTemplateString_def)

lemma stringEof_post: "stringPre t s L \<Longrightarrow> tokenPost L (stringEof t s L)"
  by (auto simp: stringEof_def Let_def tokenPost_def lexer_inv_def stringPre_def fragPtr_def
      inTemplateString_def diagAt_def split: option.splits)

lemma stringClose_post:
  "stringPre t s L \<Longrightarrow> \<not> atEnd L \<Longrightarrow> tokenPost L (stringClose t s e h L)"
  by (fastforce simp: stringClose_def Let_def tokenPost_def lexer_inv_def stringPre_def fragPtr_def
      inTemplateString_def atEnd_def split: option.splits)

lemma stringInterp_post:
  assumes "stringPre True s L" and "peek L 1 = CHR ''{''"
  shows "tokenPost L (stringInterp e L)"
proof -
  have "curPtr L + 1 < length (buffer L)"
    using peek_in_buffer [of L 1] assms(2) by (simp add: NUL_def)
  then show ?thesis
    using assms(1)
    by (cases "fragmentStart L = Some (curPtr L)")
       (auto simp: stringInterp_def tokenPost_def lexer_inv_def stringPre_def fragPtr_def
        inTemplateString_def tokShape_mkToken split: option.splits)
qed

lemma scanString_loop_post:
  "stringPre t s L \<Longrightarrow> tokenPost L (scanString_loop t s e h L)"
proof (induction t s e h L rule: scanString_loop.induct)
  case (1 t s e h L)
  have step: "tokenPost L (scanString_loop t s e' h' L1)"
    if "scans n L L1" "tokenPost L1 (scanString_loop t s e' h' L1)" for n L1 e' h'
    using that by (auto simp: tokenPost_def scans_def)
  consider "atEnd L"
    | "\<not> atEnd L" "\<not> t" "deref L = CHR 0x0A \<or> deref L = CHR 0x0D"
    | "\<not> atEnd L" "deref L = CHR 0x5C"
    | "\<not> atEnd L" "deref L = (if t then CHR 0x60 else CHR 0x22)"
    | "\<not> atEnd L" "t" "deref L = CHR ''$''" "peek L 1 = CHR ''{''"
    | "\<not> atEnd L" "\<not> (\<not> t \<and> (deref L = CHR 0x0A \<or> deref L = CHR 0x0D))" "deref L \<noteq> CHR 0x5C"
      "deref L \<noteq> (if t then CHR 0x60 else CHR 0x22)"
      "\<not> (t \<and> deref L = CHR ''$'' \<and> peek L 1 = CHR ''{'')"
    by blast
  then show ?case
  proof cases
    case 1
    with "1.prems" stringEof_post show ?thesis by (simp add: scanString_loop.simps [of t s e h L])
  next
    case 2
    with "1.prems" show ?thesis
      by (subst scanString_loop.simps)
         (auto simp: Let_def tokenPost_def lexer_inv_def stringPre_def inTemplateString_def
           diagAt_def)
  next
    case 3
    obtain ok L1 where c: "consumeEscape L = (ok, L1)" by fastforce
    have s1: "scans 1 L L1" "inBuffer L1"
      using consumeEscape_scans [of L] consumeEscape_inBuffer [OF 3(1)] c by auto
    have "tokenPost L1 (scanString_loop t s True (h \<or> \<not> ok) L1)"
      using "1.IH"(1) [OF 3(1) refl refl _ 3(2) c [symmetric] stringPre_scans [OF "1.prems" s1]] 3
      by simp
    from step [OF s1(1) this] show ?thesis
      using 3 c by (simp add: scanString_loop.simps [of t s e h L] Let_def)
  next
    case 4
    with stringClose_post [OF "1.prems"] show ?thesis
      by (auto simp: scanString_loop.simps [of t s e h L] Let_def split: if_splits)
  next
    case 5
    with stringInterp_post [of s L e] "1.prems" show ?thesis
      by (subst scanString_loop.simps) (simp add: Let_def)
  next
    case 6
    then have b: "inBuffer (bump 1 L)" by (simp add: atEnd_def)
    have "tokenPost (bump 1 L) (scanString_loop t s e h (bump 1 L))"
      using "1.IH"(2) [OF 6(1) refl refl 6(2-5) stringPre_scans [OF "1.prems" scans_bump b]] .
    from step [OF scans_bump this] show ?thesis
      using 6 by (auto simp: scanString_loop.simps [of t s e h L] Let_def)
  qed
qed


lemma scanString_loop_progress:
  assumes pre: "stringPre True s L" and "\<not> atEnd L"
    and start: "fragmentStart L = Some (curPtr L) \<or> deref L \<noteq> CHR ''$''"
  shows "curPtr L < curPtr (snd (scanString_loop True s e h L))"
proof -
  have go: "curPtr L < curPtr (snd (scanString_loop True s e' h' L1))"
    if "scans 1 L L1" "inBuffer L1" for e' h' L1
    using scanString_loop_post [OF stringPre_scans [OF pre that], of e' h'] that(1)
    by (simp add: tokenPost_def scans_def)
  obtain ok L1 where c: "consumeEscape L = (ok, L1)" by fastforce
  have c1: "scans 1 L L1" "inBuffer L1"
    using consumeEscape_scans [of L] consumeEscape_inBuffer [OF assms(2)] c by auto
  have b1: "inBuffer (bump 1 L)" using assms(2) by (simp add: atEnd_def)
  have i: "deref L = CHR ''$'' \<Longrightarrow> curPtr L < curPtr (snd (stringInterp e L))"
    using start by (auto simp: stringInterp_def)
  show ?thesis
    using assms(2) i go [OF c1] go [OF scans_bump b1] c
    by (subst scanString_loop.simps) (auto simp: Let_def stringClose_def)
qed

lemma scanString_post:
  assumes inv: "lexer_inv L" and ne: "\<not> atEnd L"
    and q: "inFragment L \<or> deref L = CHR 0x22 \<or> deref L = CHR 0x60"
  shows "tokenPost L (scanString L) \<and> curPtr L < curPtr (snd (scanString L))"
proof (cases "inTemplateString L")
  case True
  have f: "fragmentStart L \<noteq> None" using inv True by (auto simp: lexer_inv_def)
  then have eq: "scanString L = scanString_loop True 0 False False L"
    using True by (auto simp: scanString_def Let_def)
  have pre: "stringPre True 0 L"
    using inv True by (auto simp: lexer_inv_def stringPre_def)
  have "fragmentStart L = Some (curPtr L) \<or> deref L \<noteq> CHR ''$''"
    using q inv by (auto simp: lexer_inv_def inFragment_def)
  with scanString_loop_post [OF pre] scanString_loop_progress [OF pre ne] show ?thesis
    by (simp add: eq)
next
  case False
  let ?L2 = "bump 1 L"
  let ?T = "?L2\<lparr>lexState := InTemplate, fragmentStart := Some (curPtr ?L2)\<rparr>"
  have b: "inBuffer ?L2" using ne by (simp add: atEnd_def)
  have pt: "stringPre True 0 ?T"
    using inv b by (auto simp: lexer_inv_def stringPre_def inTemplateString_def)
  have ps: "stringPre False (curPtr L) ?L2"
    using inv b False by (auto simp: lexer_inv_def stringPre_def inTemplateString_def)
  have "scanString L = (if deref L = CHR 0x60 then scanString_loop True 0 False False ?T
                        else scanString_loop False (curPtr L) False False ?L2)"
    using False by (simp add: scanString_def Let_def)
  with scanString_loop_post [OF pt, of False False] scanString_loop_post [OF ps, of False False]
  show ?thesis by (auto simp: tokenPost_def)
qed

subsection \<open>Whitespace and comments\<close>

lemma skipTrivia_scans:
  assumes "inBuffer L"
  shows "skipTrivia L = (r, L') \<Longrightarrow>
           scans 0 L L' \<and> inBuffer L' \<and> (r = AtEof \<longrightarrow> atEnd L') \<and> (r = AtToken \<longrightarrow> \<not> atEnd L') \<and>
           (r = BadComment \<longrightarrow> curPtr L < curPtr L')"
  using assms
proof (induction L rule: skipTrivia.induct)
  case (1 L)
  define L1 where "L1 = skipWhitespace L"
  have w: "scans 0 L L1" "inBuffer L1"
    using "1.prems" by (simp_all add: L1_def skipWhitespace_def advance_while_le)
  let ?cm = "deref L1 = CHR ''/'' \<and> (peek L1 1 = CHR ''/'' \<or> peek L1 1 = CHR ''*'')"
  note eq = "1.prems"(1) [unfolded skipTrivia.simps [of L] Let_def, folded L1_def]
  consider "atEnd L1" | "\<not> atEnd L1" "?cm" | "\<not> atEnd L1" "\<not> ?cm" by blast
  then show ?case
  proof cases
    case 2
    obtain c L2 where c: "skipComment L1 = (c, L2)" by fastforce
    have s2: "scans 2 L1 L2" "inBuffer L2"
      using skipComment_scans [OF w(2)] 2 c by auto
    have s02: "scans 2 L L2" using scans_trans [OF w(1) s2(1)] by (simp only: add_0)
    show ?thesis
    proof (cases c)
      case True
      then have "skipTrivia L2 = (r, L')" using eq 2 c by auto
      from "1.IH" [OF L1_def 2 c [symmetric] _ this s2(2)] True
      have "scans 0 L2 L' \<and> inBuffer L' \<and> (r = AtEof \<longrightarrow> atEnd L') \<and>
            (r = AtToken \<longrightarrow> \<not> atEnd L') \<and> (r = BadComment \<longrightarrow> curPtr L2 < curPtr L')" by simp
      then show ?thesis using s02 scans_trans [OF s02, of 0 L'] by (auto simp: scans_def)
    next
      case False
      then show ?thesis using eq 2 c s02 s2 by (auto simp: scans_def)
    qed
  qed (use eq w in auto)
qed


subsection \<open>One call of next\<close>

text \<open>
  \<open>badUTF8 U L\<close>: the cursor is at a byte above 127 that starts no legal UTF-8 sequence.
\<close>

definition badUTF8 :: "utf8_lib \<Rightarrow> lexer \<Rightarrow> bool" where
  "badUTF8 U L \<longleftrightarrow> \<not> atEnd L \<and> isUTF8Start (deref L) \<and> advanceUTF8 U L = (False, L)"

lemma identStart_not_UTF8: "isAsciiIdentStart c \<Longrightarrow> \<not> isUTF8Start c"
  by (auto simp: cctype)

lemma dispatch_post:
  assumes inv: "lexer_inv L" and nf: "\<not> inFragment L" and ne: "\<not> atEnd L"
  shows "tokenPost L (dispatch U L)"
    and "curPtr L < curPtr (snd (dispatch U L)) \<or>
         badUTF8 U L \<and> dispatch U L = (errorAt L (curPtr L), L)"
proof -
  have in1: "inBuffer L" using inv by (simp add: lexer_inv_def)
  let ?c = "deref L"
  consider "isAsciiIdentStart ?c \<or> isUTF8Start ?c"
    | "\<not> (isAsciiIdentStart ?c \<or> isUTF8Start ?c)" "isdigit ?c \<or> ?c = CHR ''.'' \<and> isdigit (peek L 1)"
    | "\<not> (isAsciiIdentStart ?c \<or> isUTF8Start ?c)" "\<not> (isdigit ?c \<or> ?c = CHR ''.'' \<and> isdigit (peek L 1))"
      "?c = CHR 0x22 \<or> ?c = CHR 0x60"
    | "\<not> (isAsciiIdentStart ?c \<or> isUTF8Start ?c)" "\<not> (isdigit ?c \<or> ?c = CHR ''.'' \<and> isdigit (peek L 1))"
      "?c \<noteq> CHR 0x22" "?c \<noteq> CHR 0x60" "?c = CHR 0x27"
    | "\<not> (isAsciiIdentStart ?c \<or> isUTF8Start ?c)" "\<not> (isdigit ?c \<or> ?c = CHR ''.'' \<and> isdigit (peek L 1))"
      "?c \<noteq> CHR 0x22" "?c \<noteq> CHR 0x60" "?c \<noteq> CHR 0x27"
    by blast
  then have "tokenPost L (dispatch U L) \<and>
     (curPtr L < curPtr (snd (dispatch U L)) \<or>
      badUTF8 U L \<and> dispatch U L = (errorAt L (curPtr L), L))"
  proof cases
    case 1
    note sl = slices_post [OF scanIdentifier_slices [OF ne] inv nf, of U]
    have eq: "dispatch U L = scanIdentifier U L" using 1 by (simp add: dispatch_def Let_def)
    have "badUTF8 U L \<and> scanIdentifier U L = (errorAt L (curPtr L), L)"
      if "\<not> curPtr L < curPtr (snd (scanIdentifier U L))"
    proof -
      have ns: "\<not> isAsciiIdentStart ?c" using sl that by (auto split: if_splits)
      obtain ok L1 where u: "advanceUTF8 U L = (ok, L1)" by fastforce
      have "\<not> ok"
      proof
        assume ok
        then have s1: "scans 1 L L1" "inBuffer L1" using u advanceUTF8_True [of U L L1] by simp_all
        then have "scans 0 L1 (snd (identBody U L1))" using identBody_scans [of L1 U] by blast
        then have "curPtr L < curPtr (snd (scanIdentifier U L))"
          using ns 1 u \<open>ok\<close> s1
          by (auto simp: scanIdentifier_def Let_def scans_def split: prod.splits bool.splits)
        with that show False by simp
      qed
      then show ?thesis
        using u advanceUTF8_False [of U L L1] ns 1 ne
        by (simp add: badUTF8_def scanIdentifier_def Let_def)
    qed
    with sl eq show ?thesis by auto
  next
    case 2
    have "slices 1 L (scanNumber L)" using 2 in1 by (intro scanNumber_slices) auto
    from slices_post [OF this inv nf] 2 show ?thesis by (auto simp: dispatch_def Let_def)
  next
    case 3
    with scanString_post [OF inv ne] show ?thesis by (auto simp: dispatch_def Let_def)
  next
    case 4
    with slices_post [OF scanChar_slices [OF ne] inv nf, of U] show ?thesis
      by (auto simp: dispatch_def Let_def)
  next
    case 5
    with scanOperator_post [OF inv nf ne] show ?thesis by (auto simp: dispatch_def Let_def)
  qed
  then show "tokenPost L (dispatch U L)"
    and "curPtr L < curPtr (snd (dispatch U L)) \<or>
         badUTF8 U L \<and> dispatch U L = (errorAt L (curPtr L), L)" by blast+
qed

text \<open>The outcomes of \<open>lex_next\<close>.\<close>

lemma lex_next_cases [consumes 2, case_names template_eof eof progress bad_utf8]:
  assumes inv: "lexer_inv L" and call: "lex_next U L = (t, L')"
  obtains (template_eof) "inFragment L" "atEnd L" "L' = L" "tok_kind t = Error" "tokShape t L'"
    | (eof) "\<not> inFragment L" "tok_kind t = Eof" "tokShape t L'" "atEnd L'" "tok_location t = curPtr L'"
        "scans 0 L L'" "inBuffer L'"
    | (progress) "tokenPost L (t, L')" "curPtr L < curPtr L'"
    | (bad_utf8) "\<not> inFragment L" "scans 0 L L'" "inBuffer L'" "tokShape t L'" "tok_kind t = Error"
        "badUTF8 U L'" "t = errorAt L' (curPtr L')"
proof (cases "inFragment L")
  case True
  show ?thesis
  proof (cases "atEnd L")
    case e: True
    then have "t = errorAt L (curPtr L) \<and> L' = L"
      using True call inv by (auto simp: lex_next_def inFragment_def lexer_inv_def)
    with True e show ?thesis by (intro template_eof) auto
  next
    case False
    then have "scanString L = (t, L')" using True call by (auto simp: lex_next_def inFragment_def)
    with scanString_post [OF inv False] True show ?thesis by (intro progress) auto
  qed
next
  case False
  obtain r L1 where k: "skipTrivia L = (r, L1)" by fastforce
  have s: "scans 0 L L1" "inBuffer L1"
    and r: "r = AtEof \<longrightarrow> atEnd L1" "r = AtToken \<longrightarrow> \<not> atEnd L1" "r = BadComment \<longrightarrow> curPtr L < curPtr L1"
    using skipTrivia_scans [OF _ k] inv by (auto simp: lexer_inv_def)
  have inv1: "lexer_inv L1" and nf1: "\<not> inFragment L1"
    using lexer_inv_scans [OF inv s False] inFragment_scans [OF s(1)] False by auto
  note eq = call [unfolded lex_next_def inFragment_def [symmetric], simplified k, simplified False, simplified]
  show ?thesis
  proof (cases r)
    case AtEof
    with eq r s False show ?thesis
      by (intro eof) (auto simp: tokShape_mkToken inFragment_def [symmetric])
  next
    case BadComment
    with eq r s inv1 False show ?thesis
      by (intro progress) (auto simp: tokenPost_def scans_def inFragment_def [symmetric])
  next
    case AtToken
    then have d: "dispatch U L1 = (t, L')" using eq False by (simp add: inFragment_def [symmetric])
    note dp = dispatch_post [OF inv1 nf1, of U, unfolded d, simplified]
    show ?thesis
    proof (cases "curPtr L1 < curPtr L'")
      case True
      then show ?thesis
        using dp(1) r AtToken s(1) by (intro progress) (auto simp: tokenPost_def scans_def)
    next
      case n: False
      then have "badUTF8 U L1" "t = errorAt L1 (curPtr L1)" "L' = L1"
        using dp(2) r AtToken by auto
      with s False show ?thesis by (intro bad_utf8) auto
    qed
  qed
qed

end
