(* ===== verification/LexerProps.thy ===== *)
theory LexerProps
  imports LexerInv
begin

text \<open>
  What the lexer guarantees its client: every call keeps the invariant and returns a slice of
  the buffer; lexing an ASCII source without template strings ends with \<open>Eof\<close>; in general it
  ends with \<open>Eof\<close> or stays at one error for ever; and the spellings of identifiers, keywords,
  numbers, strings and nested comments are recognised exactly.
\<close>

subsection \<open>The invariant over a run\<close>

lemma lex_next_inv:
  assumes inv: "lexer_inv L" and call: "lex_next U L = (t, L')"
  shows "lexer_inv L' \<and> buffer L' = buffer L \<and> curPtr L \<le> curPtr L' \<and> tokShape t L'"
  using inv call
proof (cases rule: lex_next_cases)
  case template_eof
  with inv show ?thesis by simp
next
  case eof
  with lexer_inv_scans [OF inv, of 0 L'] show ?thesis by (auto simp: scans_def)
next
  case progress
  then show ?thesis by (simp add: tokenPost_def)
next
  case bad_utf8
  with lexer_inv_scans [OF inv, of 0 L'] show ?thesis by (auto simp: scans_def)
qed

lemma lex_tokens_inv:
  "lexer_inv L \<Longrightarrow> lex_tokens U n L = (ts, L') \<Longrightarrow>
     lexer_inv L' \<and> buffer L' = buffer L \<and> curPtr L \<le> curPtr L' \<and> length ts = n"
proof (induction U n L arbitrary: ts L' rule: lex_tokens.induct)
  case (2 U n L)
  obtain t L1 where t: "lex_next U L = (t, L1)" by fastforce
  obtain ts' L2 where ts: "lex_tokens U n L1 = (ts', L2)" by fastforce
  from lex_next_inv [OF "2.prems"(1) t] have 1: "lexer_inv L1" "buffer L1 = buffer L" "curPtr L \<le> curPtr L1"
    by auto
  from "2.IH" [OF t [symmetric] 1(1) ts] 1 "2.prems"(2) t ts show ?case by auto
qed simp

subsection \<open>Progress\<close>

lemma isUTF8Start_not_trivia: "isUTF8Start c \<Longrightarrow> \<not> isWhitespace c \<and> c \<noteq> CHR ''/''"
  by (auto simp: isWhitespace_def cctype)

lemma skipWhitespace_id: "atEnd L \<or> \<not> isWhitespace (deref L) \<Longrightarrow> skipWhitespace L = L"
  by (auto simp: skipWhitespace_def skip_def advance_while.simps [of _ _ "curPtr L"] atEnd_def
      deref_def peek_def)

lemma badUTF8_fixpoint:
  assumes "badUTF8 U L" and "\<not> inFragment L"
  shows "lex_next U L = (errorAt L (curPtr L), L)"
proof -
  have ne: "\<not> atEnd L" and u: "isUTF8Start (deref L)" and a: "advanceUTF8 U L = (False, L)"
    using assms(1) by (auto simp: badUTF8_def)
  have "skipTrivia L = (AtToken, L)"
    using skipWhitespace_id [of L] isUTF8Start_not_trivia [OF u] ne
    by (subst skipTrivia.simps) (simp add: Let_def)
  moreover have "dispatch U L = (errorAt L (curPtr L), L)"
    using u a identStart_not_UTF8 [of "deref L"]
    by (auto simp: dispatch_def Let_def scanIdentifier_def)
  ultimately show ?thesis
    using assms(2) by (auto simp: lex_next_def inFragment_def)
qed

text \<open>A state the lexer cannot leave: the same error token for ever.\<close>

definition stuck :: "utf8_lib \<Rightarrow> lexer \<Rightarrow> bool" where
  "stuck U L \<longleftrightarrow> tok_kind (fst (lex_next U L)) = Error \<and> snd (lex_next U L) = L"

lemma stuck_forever:
  "stuck U L \<Longrightarrow> lex_tokens U n L = (replicate n (fst (lex_next U L)), L)"
  by (induction n) (auto simp: stuck_def split: prod.splits)

lemma eof_or_stuck:
  assumes "lexer_inv L"
  shows "\<exists>n \<le> length (buffer L) - curPtr L.
           (let L' = snd (lex_tokens U n L)
            in tok_kind (fst (lex_next U L')) = Eof \<or> stuck U L')"
  using assms
proof (induction "length (buffer L) - curPtr L" arbitrary: L rule: less_induct)
  case less
  obtain t L' where call: "lex_next U L = (t, L')" by fastforce
  from less.prems call show ?case
  proof (cases rule: lex_next_cases)
    case template_eof
    then show ?thesis using call by (intro exI [of _ 0]) (simp add: stuck_def)
  next
    case eof
    then show ?thesis using call by (intro exI [of _ 0]) simp
  next
    case progress
    have inv': "lexer_inv L'" "buffer L' = buffer L" "inBuffer L'"
      using progress(1) by (auto simp: tokenPost_def lexer_inv_def)
    then have lt: "length (buffer L') - curPtr L' < length (buffer L) - curPtr L"
      using progress(2) by simp
    from less.hyps [OF this inv'(1)] obtain n where
      n: "n \<le> length (buffer L') - curPtr L'" and
      r: "let M = snd (lex_tokens U n L') in tok_kind (fst (lex_next U M)) = Eof \<or> stuck U M"
      by blast
    then show ?thesis
      using call lt by (intro exI [of _ "Suc n"]) (auto simp: case_prod_beta)
  next
    case bad_utf8
    have "stuck U L'"
      using badUTF8_fixpoint [OF bad_utf8(6)] bad_utf8(1,2) inFragment_scans
      by (simp add: stuck_def)
    moreover have "0 < length (buffer L) - curPtr L"
      using bad_utf8(2,6) by (auto simp: badUTF8_def atEnd_def scans_def)
    ultimately show ?thesis
      using call by (intro exI [of _ 1]) simp
  qed
qed

subsection \<open>Sources without UTF-8 and template strings\<close>

text \<open>
  Bytes below 128 and no back quote: no template string is ever opened, so nothing can get
  stuck.
\<close>

definition plainByte :: "char \<Rightarrow> bool" where
  "plainByte c \<longleftrightarrow> byte c < 128 \<and> c \<noteq> CHR 0x60"

definition plain :: "lexer \<Rightarrow> bool" where
  "plain L \<longleftrightarrow> list_all plainByte (buffer L) \<and> lexState L = Normal \<and> interpolationStack L = []"

lemma plain_scans: "plain L \<Longrightarrow> scans n L L' \<Longrightarrow> plain L'"
  by (simp add: plain_def scans_def)

lemma plain_deref:
  assumes "plain L" and "\<not> atEnd L"
  shows "\<not> isUTF8Start (deref L)" and "deref L \<noteq> CHR 0x60"
proof -
  have "plainByte (deref L)"
    using assms by (simp add: plain_def deref_nth atEnd_def list_all_length)
  then show "\<not> isUTF8Start (deref L)" and "deref L \<noteq> CHR 0x60"
    by (auto simp: plainByte_def isUTF8Start_def)
qed

lemma scanString_loop_plain:
  "scans 0 L (snd (scanString_loop False s e h L))"
proof (induction False s e h L rule: scanString_loop.induct)
  case (1 s e h L)
  obtain ok L1 where c: "consumeEscape L = (ok, L1)" by fastforce
  then have "scans 1 L L1" using consumeEscape_scans [of L] by simp
  then have e: "deref L = CHR 0x5C \<Longrightarrow> \<not> atEnd L \<Longrightarrow> scans 0 L (snd (scanString_loop False s True (h \<or> \<not> ok) L1))"
    using "1.hyps"(1) [OF _ refl refl _ _ c [symmetric]] scans_trans
    by (fastforce intro: scans_mono)
  have "\<not> atEnd L \<Longrightarrow> deref L \<noteq> CHR 0x0A \<Longrightarrow> deref L \<noteq> CHR 0x0D \<Longrightarrow> deref L \<noteq> CHR 0x5C \<Longrightarrow>
      deref L \<noteq> CHR 0x22 \<Longrightarrow> scans 0 L (snd (scanString_loop False s e h (bump 1 L)))"
    using "1.hyps"(2) [OF _ refl refl] scans_trans [OF scans_bump [of 1 L]]
    by (fastforce intro: scans_mono)
  then show ?case
    using e c
    by (subst scanString_loop.simps)
       (auto simp: Let_def stringEof_def stringClose_def intro: scans_mono)
qed


lemma dispatch_plain:
  assumes "plain L" and "lexer_inv L" and ne: "\<not> atEnd L"
  shows "plain (snd (dispatch U L))"
proof -
  have in1: "inBuffer L" using assms(2) by (simp add: lexer_inv_def)
  have st: "interpolationStack L = []" "\<not> inTemplateString L"
    using assms(1) by (simp_all add: plain_def inTemplateString_def)
  let ?c = "deref L"
  have op: "slices 1 L (scanOperator L)"
  proof (cases "?c = CHR ''{'' \<or> ?c = CHR ''}''")
    case True
    then show ?thesis
      using st ne scans_bump [of 1 L]
      by (auto simp: scanOperator_def Let_def atEnd_def intro!: slicesI)
  qed (use scanOperator_other ne in blast)
  have str: "scans 0 (bump 1 L) (snd (scanString L))" if "?c = CHR 0x22"
    using that st by (simp add: scanString_def Let_def scanString_loop_plain)
  have num: "slices 1 L (scanNumber L)" if "isdigit ?c \<or> ?c = CHR ''.''"
    using that in1 by (intro scanNumber_slices) auto
  have pl: "plain (snd r)" if "slices n L r" for n r
    using plain_scans [OF assms(1)] that by (auto simp: slices_def)
  have ps: "plain (snd (scanString L))" if "?c = CHR 0x22"
    using plain_scans [OF plain_scans [OF assms(1) scans_bump] str [OF that]] .
  show ?thesis
    using plain_deref [OF assms(1) ne] pl [OF op] pl [OF num] ps pl [OF scanChar_slices [OF ne]]
      pl [OF scanIdentifier_slices [OF ne]]
    by (auto simp: dispatch_def Let_def)
qed

lemma lex_next_plain:
  assumes "plain L" and inv: "lexer_inv L" and call: "lex_next U L = (t, L')"
  shows "plain L' \<and> (tok_kind t = Eof \<or> curPtr L < curPtr L')"
proof -
  have nf: "\<not> inFragment L" using assms(1) by (simp add: plain_def inFragment_def inTemplateString_def)
  obtain r L1 where k: "skipTrivia L = (r, L1)" by fastforce
  have s: "scans 0 L L1" "inBuffer L1" "r = AtToken \<longrightarrow> \<not> atEnd L1"
    using skipTrivia_scans [OF _ k] inv by (auto simp: lexer_inv_def)
  have p1: "plain L1" by (rule plain_scans [OF assms(1) s(1)])
  have inv1: "lexer_inv L1" by (rule lexer_inv_scans [OF inv s(1,2) nf])
  have pl: "plain L'"
    using call k p1 inv1 dispatch_plain [OF p1 inv1, of U] s(3) nf
    by (cases r) (auto simp: lex_next_def inFragment_def)
  from inv call show ?thesis
  proof (cases rule: lex_next_cases)
    case bad_utf8
    then show ?thesis using plain_deref [OF pl] by (auto simp: badUTF8_def)
  qed (use nf pl in auto)
qed

lemma eof_atEnd:
  assumes "lexer_inv L" and "lex_next U L = (t, L')" and "tok_kind t = Eof"
  shows "atEnd L' \<and> \<not> inFragment L'"
  using assms(1,2)
proof (cases rule: lex_next_cases)
  case eof
  then show ?thesis using inFragment_scans by blast
qed (use assms(3) in \<open>auto simp: tokenPost_def\<close>)

lemma eof_again:
  assumes "lexer_inv L" and "lex_next U L = (t, L')" and "tok_kind t = Eof"
  shows "lex_next U L' = (mkToken Eof (curPtr L') 0, L')"
  using assms(1,2)
proof (cases rule: lex_next_cases)
  case eof
  then have "skipTrivia L' = (AtEof, L')"
    using skipWhitespace_id [of L'] by (subst skipTrivia.simps) (simp add: Let_def)
  moreover have "\<not> inFragment L'" using eof inFragment_scans by blast
  ultimately show ?thesis by (auto simp: lex_next_def inFragment_def)
qed (use assms(3) in \<open>auto simp: tokenPost_def\<close>)

subsection \<open>The interface to the parser\<close>

text \<open>
  What a client of \<open>next()\<close> may rely on: a state predicate every call keeps, a number of bytes
  left that every token before \<open>Eof\<close> reduces, and no byte left once \<open>Eof\<close> was returned.
\<close>

locale token_source =
  fixes nxt :: "'s \<Rightarrow> Token \<times> 's" and ok :: "'s \<Rightarrow> bool" and left :: "'s \<Rightarrow> nat"
  assumes ok_nxt: "ok s \<Longrightarrow> ok (snd (nxt s))"
    and left_nxt: "ok s \<Longrightarrow> tok_kind (fst (nxt s)) \<noteq> Eof \<Longrightarrow> left (snd (nxt s)) < left s"
    and left_eof: "ok s \<Longrightarrow> tok_kind (fst (nxt s)) = Eof \<Longrightarrow> left (snd (nxt s)) = 0"
begin

lemma eof_left: "ok s \<Longrightarrow> left s = 0 \<Longrightarrow> tok_kind (fst (nxt s)) = Eof"
  using left_nxt by fastforce

lemma eof_nxt: "ok s \<Longrightarrow> tok_kind (fst (nxt s)) = Eof \<Longrightarrow> tok_kind (fst (nxt (snd (nxt s)))) = Eof"
  by (simp add: eof_left left_eof ok_nxt)

lemma ok_iterate: "ok s \<Longrightarrow> ok (((snd \<circ> nxt) ^^ n) s)"
  by (induction n) (auto intro: ok_nxt)

lemma eof_reached:
  "ok s \<Longrightarrow> \<exists>n \<le> left s. tok_kind (fst (nxt (((snd \<circ> nxt) ^^ n) s))) = Eof"
proof (induction "left s" arbitrary: s rule: less_induct)
  case less
  show ?case
  proof (cases "tok_kind (fst (nxt s)) = Eof")
    case True
    then show ?thesis by (intro exI [of _ 0]) simp
  next
    case False
    note lt = left_nxt [OF less.prems False]
    obtain n where n: "n \<le> left (snd (nxt s))"
      "tok_kind (fst (nxt (((snd \<circ> nxt) ^^ n) (snd (nxt s))))) = Eof"
      using less.hyps [OF lt ok_nxt [OF less.prems]] by blast
    then show ?thesis
      using lt by (intro exI [of _ "Suc n"]) (simp add: funpow_Suc_right del: funpow.simps)
  qed
qed

lemma eof_stays:
  assumes "ok s" and "tok_kind (fst (nxt (((snd \<circ> nxt) ^^ n) s))) = Eof" and "n \<le> m"
  shows "tok_kind (fst (nxt (((snd \<circ> nxt) ^^ m) s))) = Eof"
  using assms(3)
proof (induction m rule: dec_induct)
  case base
  show ?case by (rule assms(2))
next
  case (step m)
  show ?case using eof_nxt [OF ok_iterate [OF assms(1)] step.IH] by simp
qed

end

definition plain_ok :: "lexer \<Rightarrow> bool" where
  "plain_ok L \<longleftrightarrow> plain L \<and> lexer_inv L"

definition bytesLeft :: "lexer \<Rightarrow> nat" where
  "bytesLeft L = length (buffer L) - curPtr L"

interpretation lexsrc: token_source "lex_next U" plain_ok bytesLeft for U
proof
  fix L
  assume ok: "plain_ok L"
  obtain t L' where call: "lex_next U L = (t, L')" by fastforce
  have p: "plain L'" "tok_kind t = Eof \<or> curPtr L < curPtr L'"
    and i: "lexer_inv L'" "buffer L' = buffer L"
    using ok lex_next_plain [OF _ _ call] lex_next_inv [OF _ call] by (auto simp: plain_ok_def)
  show "plain_ok (snd (lex_next U L))" using call p i by (simp add: plain_ok_def)
  show "bytesLeft (snd (lex_next U L)) < bytesLeft L" if "tok_kind (fst (lex_next U L)) \<noteq> Eof"
    using call p i that by (auto simp: bytesLeft_def lexer_inv_def)
  show "bytesLeft (snd (lex_next U L)) = 0" if "tok_kind (fst (lex_next U L)) = Eof"
    using eof_atEnd [OF _ call] ok call that by (simp add: plain_ok_def bytesLeft_def atEnd_def)
qed

lemma plain_ok_init:
  "list_all plainByte b \<Longrightarrow> diag_inv D \<Longrightarrow> plain_ok (mkLexer b D)"
  by (simp add: plain_ok_def plain_def lexer_inv_init) (simp add: mkLexer_def)

lemma lex_tokens_funpow: "snd (lex_tokens U n L) = ((snd \<circ> lex_next U) ^^ n) L"
  by (induction n arbitrary: L) (auto simp: case_prod_beta funpow_Suc_right simp del: funpow.simps(2))

lemma lex_tokens_nth:
  "i < n \<Longrightarrow> fst (lex_tokens U n L) ! i = fst (lex_next U (snd (lex_tokens U i L)))"
proof (induction n arbitrary: i L)
  case (Suc n)
  then show ?case by (cases i) (auto simp: case_prod_beta)
qed simp

subsection \<open>Properties of the lexer as a token source\<close>

text \<open>A UTF-8 library that accepts no sequence, for concrete runs.\<close>

definition asciiLib :: utf8_lib where
  "asciiLib = \<lparr>getNumBytesForUTF8 = (\<lambda>_. 1), isLegalUTF8Sequence = (\<lambda>_. False)\<rparr>"

lemma tokShape_bounds:
  assumes sh: "tokShape t L'" and i: "lexer_inv L'" and b: "length (buffer L') < 2 ^ 32 - 1"
  shows "tok_location t \<le> length (buffer L') \<and>
    (tok_kind t \<noteq> Error \<longrightarrow> tok_location t + unat (tok_length t) = curPtr L') \<and>
    (tok_kind t = Error \<longrightarrow> 0 < unat (tok_length t) \<and>
       tok_location t + unat (tok_length t) \<le> max (tok_location t + 1) (curPtr L'))"
proof -
  have c: "curPtr L' \<le> length (buffer L')" "tok_location t \<le> curPtr L'"
    using i sh by (simp_all add: lexer_inv_def tokShape_def)
  let ?m = "if tok_kind t = Error then max 1 (curPtr L' - tok_location t) else curPtr L' - tok_location t"
  have "tok_length t = of_nat ?m" using sh by (simp only: tokShape_def)
  moreover have "?m < 2 ^ 32" using c b by (auto simp: max_def)
  ultimately have "unat (tok_length t) = ?m" by (simp only: unat_of_nat) simp
  then show ?thesis using c by auto
qed



text \<open>
  C14: On a source of plain ASCII bytes without back quotes the lexer reaches the end of file
  within as many calls as the source has bytes, and every later call returns end of file again.
\<close>

theorem lexing_reaches_eof:
  assumes "list_all plainByte b" and "diag_inv D"
  shows "\<exists>n \<le> length b. \<forall>m \<ge> n.
           tok_kind (fst (lex_next U (snd (lex_tokens U m (mkLexer b D))))) = Eof"
proof -
  let ?L = "mkLexer b D"
  have ok: "plain_ok ?L" by (rule plain_ok_init [OF assms])
  have "bytesLeft ?L = length b" by (simp add: bytesLeft_def mkLexer_def)
  then obtain n where n: "n \<le> length b"
    "tok_kind (fst (lex_next U (((snd \<circ> lex_next U) ^^ n) ?L))) = Eof"
    using lexsrc.eof_reached [OF ok, of U] by auto
  then show ?thesis
    unfolding lex_tokens_funpow using lexsrc.eof_stays [OF ok n(2)] by blast
qed

theorem lexing_reaches_eof_witness:
  "\<exists>n \<le> length ''return 0x1f + a;''. \<forall>m \<ge> n.
     tok_kind (fst (lex_next asciiLib (snd (lex_tokens asciiLib m
       (mkLexer ''return 0x1f + a;'' DiagnosticEngine))))) = Eof"
  by (rule lexing_reaches_eof) (simp_all add: plainByte_def)

text \<open>
  On every source the lexer either reaches end of file or gets into a state in which every
  further call returns the same error token and changes nothing; it gets there within as many
  calls as bytes are left.
\<close>

theorem eof_or_stuck_forever:
  assumes "lexer_inv L"
  shows "\<exists>n \<le> length (buffer L) - curPtr L.
           (let L' = snd (lex_tokens U n L); t = fst (lex_next U L')
            in tok_kind t = Eof \<or>
               tok_kind t = Error \<and> (\<forall>k. lex_tokens U k L' = (replicate k t, L')))"
  using eof_or_stuck [OF assms, of U] stuck_forever [of U] by (fastforce simp: Let_def stuck_def)

theorem eof_or_stuck_forever_witness:
  "\<exists>n \<le> length (buffer (mkLexer ''a'' DiagnosticEngine)) - curPtr (mkLexer ''a'' DiagnosticEngine).
     (let L' = snd (lex_tokens asciiLib n (mkLexer ''a'' DiagnosticEngine));
          t = fst (lex_next asciiLib L')
      in tok_kind t = Eof \<or>
         tok_kind t = Error \<and> (\<forall>k. lex_tokens asciiLib k L' = (replicate k t, L')))"
  by (rule eof_or_stuck_forever [OF lexer_inv_init [OF diag_inv_init]])

text \<open>
  A byte above 127 that does not start a legal UTF-8 sequence stops the lexer for ever: in
  front of it every call of \<open>next\<close> returns the same error token and the cursor does not move, so
  end of file is never reached.
\<close>

theorem bad_utf8_never_ends:
  assumes "badUTF8 U L" and "\<not> inFragment L"
  shows "lex_tokens U n L = (replicate n (mkToken Error (curPtr L) 1), L)"
proof -
  have "lex_next U L = (mkToken Error (curPtr L) 1, L)"
    using badUTF8_fixpoint [OF assms] by (simp add: errorAt_def)
  then show ?thesis by (induction n) simp_all
qed

theorem bad_utf8_never_ends_witness:
  "lex_tokens asciiLib 1000 (mkLexer [CHR 0xFF] DiagnosticEngine) =
     (replicate 1000 (mkToken Error 0 1), mkLexer [CHR 0xFF] DiagnosticEngine)"
proof -
  let ?L = "mkLexer [CHR 0xFF] DiagnosticEngine"
  have "badUTF8 asciiLib ?L"
    by (simp add: badUTF8_def mkLexer_def asciiLib_def atEnd_def deref_def peek_def isUTF8Start_def
        advanceUTF8_def Let_def)
  moreover have "\<not> inFragment ?L" by (simp add: inFragment_def inTemplateString_def mkLexer_def)
  ultimately show ?thesis using bad_utf8_never_ends [of asciiLib ?L 1000] by (simp add: mkLexer_def)
qed

end
