(* ===== verification/LexerSpell.thy ===== *)
theory LexerSpell
  imports LexerProps
begin

text \<open>
  Recognition: which token \<open>lex_next\<close> returns when the cursor is in front of a given text.
  Identifiers and keywords, nested comments, decimal integers with separators, string
  literals with escapes, and template strings with an interpolation.
\<close>

subsection \<open>Recognition: the cursor in front of a given text\<close>

definition before :: "lexer \<Rightarrow> bytes \<Rightarrow> bytes \<Rightarrow> bool" where
  "before L pre rest \<longleftrightarrow> buffer L = pre @ rest \<and> curPtr L = length pre"

lemma before_atEnd [simp]: "before L pre rest \<Longrightarrow> atEnd L \<longleftrightarrow> rest = []"
  by (auto simp: before_def atEnd_def)

lemma before_peek: "before L pre rest \<Longrightarrow> peek L n = (if n < length rest then rest ! n else NUL)"
  by (auto simp: before_def peek_def nth_append)

lemma before_deref: "before L pre (c # rest) \<Longrightarrow> deref L = c"
  by (simp add: deref_def before_peek)

lemma before_bump: "before L pre (xs @ rest) \<Longrightarrow> n = length xs \<Longrightarrow> before (bump n L) (pre @ xs) rest"
  by (simp add: before_def)

lemma before_skip:
  assumes "before L pre (xs @ rest)" and "\<forall>c \<in> set xs. P c" and "rest = [] \<or> \<not> P (hd rest)"
  shows "skip P L = bump (length xs) L"
  using assms advance_while_run [of "buffer L" pre xs rest P]
  by (simp add: before_def skip_def bump_def)

lemma skip_none: "before L pre rest \<Longrightarrow> rest = [] \<or> \<not> P (hd rest) \<Longrightarrow> skip P L = L"
  using before_skip [of L pre "[]" rest P] by (simp add: bump_def)

text \<open>Whitespace in front of a token is skipped.\<close>

definition startsComment :: "bytes \<Rightarrow> bool" where
  "startsComment s \<longleftrightarrow> take 2 s = ''//'' \<or> take 2 s = ''/*''"

lemma skipTrivia_token:
  assumes b: "before L pre (ws @ rest)" and "\<forall>c \<in> set ws. isWhitespace c"
    and "rest \<noteq> []" and "\<not> isWhitespace (hd rest)" and nc: "\<not> startsComment rest"
  shows "skipTrivia L = (AtToken, bump (length ws) L)"
proof -
  have w: "skipWhitespace L = bump (length ws) L"
    using assms(1-4) by (auto simp: skipWhitespace_def intro!: before_skip)
  have b1: "before (bump (length ws) L) (pre @ ws) rest" by (rule before_bump [OF b refl])
  obtain c rest' where r: "rest = c # rest'" using assms(3) by (cases rest) auto
  have "deref (bump (length ws) L) = c" using b1 r before_deref by blast
  moreover have "\<not> (c = CHR ''/'' \<and> (peek (bump (length ws) L) 1 = CHR ''/'' \<or>
                       peek (bump (length ws) L) 1 = CHR ''*''))"
    using nc r before_peek [OF b1, of 1]
    by (cases rest') (auto simp: startsComment_def NUL_def)
  ultimately show ?thesis
    using w b1 r by (subst skipTrivia.simps) (auto simp: Let_def)
qed

lemma lex_next_token:
  assumes "before L pre (ws @ rest)" and "\<forall>c \<in> set ws. isWhitespace c"
    and "rest \<noteq> []" and "\<not> isWhitespace (hd rest)" and "\<not> startsComment rest"
    and "\<not> inFragment L"
  shows "lex_next U L = dispatch U (bump (length ws) L)"
  using skipTrivia_token [OF assms(1-5)] assms(6) by (auto simp: lex_next_def inFragment_def)

subsection \<open>Identifiers and keywords\<close>

lemma identBody_run:
  assumes "before L pre (xs @ rest)" and "\<forall>c \<in> set xs. isAsciiIdentBody c"
    and "rest = [] \<or> \<not> isAsciiIdentBody (hd rest) \<and> \<not> isUTF8Start (hd rest)"
  shows "identBody U L = (True, bump (length xs) L)"
  using assms
proof (induction xs arbitrary: L pre)
  case Nil
  then show ?case
    by (cases rest) (auto simp: identBody.simps [of U L] before_deref bump_def)
next
  case (Cons x xs)
  have b: "before (bump 1 L) (pre @ [x]) (xs @ rest)"
    using Cons.prems(1) before_bump [of L pre "[x]" "xs @ rest" 1] by simp
  have "deref L = x" using Cons.prems(1) by (simp add: before_deref)
  then have "identBody U L = identBody U (bump 1 L)"
    using Cons.prems by (simp add: identBody.simps [of U L])
  also have "\<dots> = (True, bump (length xs) (bump 1 L))"
    using Cons.prems(2,3) by (intro Cons.IH [OF b]) auto
  finally show ?case by (simp add: bump_def)
qed

lemma ident_not_trivia:
  "isAsciiIdentStart c \<Longrightarrow> \<not> isWhitespace c \<and> c \<noteq> CHR ''/''"
  by (auto simp: isWhitespace_def cctype)

lemma lex_identifier_token:
  assumes b: "before L pre (ws @ s @ rest)" and ws: "\<forall>c \<in> set ws. isWhitespace c"
    and s: "s \<noteq> []" "isAsciiIdentStart (hd s)" "\<forall>c \<in> set s. isAsciiIdentBody c"
    and r: "rest = [] \<or> \<not> isAsciiIdentBody (hd rest) \<and> \<not> isUTF8Start (hd rest)"
    and nf: "\<not> inFragment L"
  shows "lex_next U L = (mkToken (keywordKind s) (length pre + length ws) (length s),
                         bump (length ws + length s) L)"
proof -
  obtain c s' where s': "s = c # s'" using s(1) by (cases s) auto
  let ?L1 = "bump (length ws) L"
  have b1: "before ?L1 (pre @ ws) (s @ rest)" by (rule before_bump [OF b refl])
  have b2: "before (bump 1 ?L1) (pre @ ws @ [c]) (s' @ rest)"
    using before_bump [of ?L1 "pre @ ws" "[c]" "s' @ rest" 1] b1 s' by simp
  have d: "deref ?L1 = c" using b1 s' by (simp add: before_deref)
  have body: "identBody U (bump 1 ?L1) = (True, bump (length s') (bump 1 ?L1))"
    using s(3) s' r by (intro identBody_run [OF b2]) auto
  have "lex_next U L = dispatch U ?L1"
    using s s' ident_not_trivia [of c]
    by (intro lex_next_token [OF b ws _ _ _ nf]) (auto simp: startsComment_def)
  also have "\<dots> = scanIdentifier U ?L1"
    using d s(2) s' by (simp add: dispatch_def Let_def)
  also have "\<dots> = (mkToken (keywordKind s) (length pre + length ws) (length s),
                    bump (length ws + length s) L)"
    using d s(2) s' body b
    by (simp add: scanIdentifier_def Let_def before_def tokenFrom_def bump_def)
  finally show ?thesis .
qed

lemma keywordTable_spelling:
  assumes "(s, k) \<in> set keywordTable"
  shows "s \<noteq> [] \<and> isAsciiIdentStart (hd s) \<and> list_all isAsciiIdentBody s \<and> keywordKind s = k"
proof -
  have "list_all (\<lambda>(s, k). s \<noteq> [] \<and> isAsciiIdentStart (hd s) \<and> list_all isAsciiIdentBody s) keywordTable"
    by (simp add: keywordTable_def cctype)
  moreover have "distinct (map fst keywordTable)"
    by (simp add: keywordTable_def)
  ultimately show ?thesis
    using assms by (auto simp: keywordKind_def list_all_iff)
qed


subsection \<open>Nested comments\<close>

text \<open>
  The contents of a block comment: bytes that cannot start or end a comment, and nested
  comments.  \<open>cprint\<close> writes a comment out.
\<close>

datatype cpart = CText char | CNested "cpart list"

fun cprint :: "cpart \<Rightarrow> bytes" where
  "cprint (CText c) = [c]"
| "cprint (CNested ps) = ''/*'' @ concat (map cprint ps) @ ''*/''"

fun cok :: "cpart \<Rightarrow> bool" where
  "cok (CText c) \<longleftrightarrow> c \<noteq> CHR ''/'' \<and> c \<noteq> CHR ''*''"
| "cok (CNested ps) \<longleftrightarrow> (\<forall>p \<in> set ps. cok p)"

lemma blockComment_open:
  "b = pre @ ''/*'' @ rest \<Longrightarrow> blockComment b (length pre) d = blockComment b (length pre + 2) (d + 1)"
  by (subst blockComment.simps) (simp add: Let_def nth_append)

lemma blockComment_close:
  "b = pre @ ''*/'' @ rest \<Longrightarrow> blockComment b (length pre) d =
     (if d - 1 = 0 then (True, length pre + 2) else blockComment b (length pre + 2) (d - 1))"
  by (subst blockComment.simps) (simp add: Let_def nth_append)

lemma blockComment_text:
  "b = pre @ c # rest \<Longrightarrow> c \<noteq> CHR ''/'' \<Longrightarrow> c \<noteq> CHR ''*'' \<Longrightarrow>
   blockComment b (length pre) d = blockComment b (length pre + 1) d"
  by (subst blockComment.simps) (simp add: Let_def nth_append)

lemma blockComment_part:
  "cok p \<Longrightarrow> 0 < d \<Longrightarrow> b = pre @ cprint p @ rest \<Longrightarrow>
   blockComment b (length pre) d = blockComment b (length pre + length (cprint p)) d"
proof (induction p arbitrary: pre rest d)
  case (CText c)
  then show ?case using blockComment_text [of b pre c rest d] by simp
next
  case (CNested ps)
  have parts: "blockComment b (length q) e = blockComment b (length q + length (concat (map cprint qs))) e"
    if "set qs \<subseteq> set ps" "0 < e" "b = q @ concat (map cprint qs) @ r" for qs q r e
    using that
  proof (induction qs arbitrary: q)
    case (Cons p qs)
    have "blockComment b (length q) e = blockComment b (length q + length (cprint p)) e"
      using Cons.prems CNested.prems(1)
      by (intro CNested.IH [of p e q "concat (map cprint qs) @ r"]) auto
    also have "\<dots> = blockComment b (length (q @ cprint p) + length (concat (map cprint qs))) e"
      using Cons.IH [of "q @ cprint p"] Cons.prems by simp
    finally show ?case by (simp add: add.assoc)
  qed simp
  let ?body = "concat (map cprint ps)"
  have "blockComment b (length pre) d = blockComment b (length (pre @ ''/*'')) (d + 1)"
    using blockComment_open [of b pre "?body @ ''*/'' @ rest" d] CNested.prems(3) by simp
  also have "\<dots> = blockComment b (length (pre @ ''/*'' @ ?body)) (d + 1)"
    using parts [of ps "d + 1" "pre @ ''/*''" "''*/'' @ rest"] CNested.prems(3) by simp
  also have "\<dots> = blockComment b (length (pre @ ''/*'' @ ?body) + 2) d"
    using blockComment_close [of b "pre @ ''/*'' @ ?body" rest "d + 1"] CNested.prems(2,3) by simp
  finally show ?case by simp
qed

lemma skipComment_block:
  assumes b: "before L pre (cprint (CNested ps) @ rest)" and ok: "cok (CNested ps)"
  shows "skipComment L = (True, bump (length (cprint (CNested ps))) L)"
proof -
  let ?body = "concat (map cprint ps)"
  have buf: "buffer L = pre @ ''/*'' @ ?body @ ''*/'' @ rest" and cur: "curPtr L = length pre"
    using b by (simp_all add: before_def)
  have parts: "blockComment (buffer L) (length q) 1 =
       blockComment (buffer L) (length q + length (concat (map cprint qs))) 1"
    if "set qs \<subseteq> set ps" "buffer L = q @ concat (map cprint qs) @ r" for qs q r
    using that
  proof (induction qs arbitrary: q)
    case (Cons p qs)
    have "blockComment (buffer L) (length q) 1 = blockComment (buffer L) (length (q @ cprint p)) 1"
      using Cons.prems ok blockComment_part [of p 1 "buffer L" q "concat (map cprint qs) @ r"] by auto
    also have "\<dots> = blockComment (buffer L) (length (q @ cprint p) + length (concat (map cprint qs))) 1"
      using Cons.prems by (intro Cons.IH) auto
    finally show ?case by (simp add: add.assoc)
  qed simp
  have "blockComment (buffer L) (curPtr L + 2) 1 =
        blockComment (buffer L) (length (pre @ ''/*'' @ ?body)) 1"
    using parts [of ps "pre @ ''/*''" "''*/'' @ rest"] buf cur by simp
  also have "\<dots> = (True, length (pre @ ''/*'' @ ?body) + 2)"
    using blockComment_close [of "buffer L" "pre @ ''/*'' @ ?body" rest 1] buf by simp
  finally show ?thesis
    using before_peek [OF b, of 1] cur by (simp add: skipComment_def Let_def bump_def)
qed

lemma bump_bump: "bump m (bump n L) = bump (n + m) L"
  by (simp add: bump_def add.assoc)

lemma skipTrivia_comment:
  assumes b: "before L pre (ws @ ''/'' @ rest)" and "\<forall>c \<in> set ws. isWhitespace c"
    and sc: "startsComment (''/'' @ rest)"
    and cm: "skipComment (bump (length ws) L) = (True, L2)"
  shows "skipTrivia L = skipTrivia L2"
proof -
  have w: "skipWhitespace L = bump (length ws) L"
    unfolding skipWhitespace_def
    by (rule before_skip [OF b assms(2)]) (simp add: isWhitespace_def)
  have b1: "before (bump (length ws) L) (pre @ ws) (CHR ''/'' # rest)"
    using before_bump [OF b refl] by simp
  have "peek (bump (length ws) L) 1 = CHR ''/'' \<or> peek (bump (length ws) L) 1 = CHR ''*''"
    using sc before_peek [OF b1, of 1] by (cases rest) (auto simp: startsComment_def)
  then show ?thesis
    using w cm b1 before_deref [OF b1] by (subst skipTrivia.simps) (simp add: Let_def)
qed

lemma comment_transparent:
  assumes b: "before L pre (ws @ cprint (CNested ps) @ rest)" and ws: "\<forall>c \<in> set ws. isWhitespace c"
    and ok: "cok (CNested ps)" and nf: "\<not> inFragment L"
  shows "lex_next U L = lex_next U (bump (length ws + length (cprint (CNested ps))) L)"
proof -
  let ?L1 = "bump (length ws) L" and ?n = "length (cprint (CNested ps))"
  have "before ?L1 (pre @ ws) (cprint (CNested ps) @ rest)" by (rule before_bump [OF b refl])
  from skipComment_block [OF this ok] have c: "skipComment ?L1 = (True, bump ?n ?L1)" .
  have "skipTrivia L = skipTrivia (bump ?n ?L1)"
    using b by (intro skipTrivia_comment [OF _ ws _ c]) (auto simp: startsComment_def)
  then have "skipTrivia L = skipTrivia (bump (length ws + ?n) L)" by (simp only: bump_bump)
  then show ?thesis
    using nf by (simp only: lex_next_def inFragment_def inTemplateString_def bump_simps if_False)
qed


subsection \<open>String literals\<close>

text \<open>
  The units of a string literal: a byte that stands for itself, a one-letter escape, \<open>\xHH\<close> and
  \<open>\u{H...}\<close>.  \<open>sprint\<close> writes a unit out; \<open>sok\<close> are the units a \<open>"..."\<close> literal may hold.
\<close>

datatype sunit = SPlain char | SEsc char | SHex char char | SUni "char list"

fun sprint :: "sunit \<Rightarrow> bytes" where
  "sprint (SPlain c) = [c]"
| "sprint (SEsc e) = [CHR 0x5C, e]"
| "sprint (SHex a b) = [CHR 0x5C, CHR ''x'', a, b]"
| "sprint (SUni hs) = [CHR 0x5C, CHR ''u'', CHR ''{''] @ hs @ [CHR ''}'']"

fun sok :: "sunit \<Rightarrow> bool" where
  "sok (SPlain c) \<longleftrightarrow> c \<noteq> CHR 0x22 \<and> c \<noteq> CHR 0x5C \<and> c \<noteq> CHR 0x0A \<and> c \<noteq> CHR 0x0D"
| "sok (SEsc e) \<longleftrightarrow> e \<in> set simpleEscapes"
| "sok (SHex a b) \<longleftrightarrow> isHexDigit a \<and> isHexDigit b"
| "sok (SUni hs) \<longleftrightarrow> (\<forall>h \<in> set hs. isHexDigit h)"

fun isEscape :: "sunit \<Rightarrow> bool" where
  "isEscape (SPlain c) = False"
| "isEscape _ = True"

lemma escape_letters:
  "CHR ''x'' \<notin> set simpleEscapes" "CHR ''u'' \<notin> set simpleEscapes" "CHR ''U'' \<notin> set simpleEscapes"
  by (simp_all add: simpleEscapes_def)

lemma hexDigits_ok:
  assumes "before L pre (hs @ rest)" and "\<forall>h \<in> set hs. isHexDigit h"
  shows "hexDigits (length hs) L = (True, bump (length hs) L)"
proof -
  have "curPtr L + length hs \<le> length (buffer L)" using assms(1) by (simp add: before_def)
  moreover have "isHexDigit (peek L i)" if "i < length hs" for i
    using that assms by (simp add: before_peek nth_append)
  ultimately show ?thesis by (simp add: hexDigits_def)
qed

lemma bracedEscape_ok:
  assumes b: "before L pre (hs @ CHR ''}'' # rest)" and "\<forall>h \<in> set hs. isHexDigit h"
  shows "bracedEscape L = (True, bump (length hs + 1) L)"
proof -
  have sk: "skip isHexDigit L = bump (length hs) L"
    using assms by (intro before_skip [OF b]) (auto simp: cctype)
  have b1: "before (bump (length hs) L) (pre @ hs) (CHR ''}'' # rest)" by (rule before_bump [OF b refl])
  show ?thesis
    using before_deref [OF b1] before_atEnd [OF b1] by (simp add: bracedEscape_def Let_def sk bump_bump)
qed

lemma consumeEscape_ok:
  assumes b: "before L pre (sprint u @ rest)" and "sok u" and "isEscape u"
  shows "consumeEscape L = (True, bump (length (sprint u)) L)"
proof -
  have step: "before (bump 1 M) (q @ [x]) r" if "before M q (x # r)" for M q x r
    using before_bump [of M q "[x]" r 1] that by simp
  show ?thesis
  proof (cases u)
    case (SEsc e)
    have b1: "before (bump 1 L) (pre @ [CHR 0x5C]) (e # rest)" using step b SEsc by simp
    show ?thesis
      using SEsc assms(2) before_deref [OF b1] before_atEnd [OF b1]
      by (simp add: consumeEscape_def Let_def bump_bump)
  next
    case (SHex x y)
    have b1: "before (bump 1 L) (pre @ [CHR 0x5C]) (CHR ''x'' # x # y # rest)"
      using step b SHex by simp
    have "before (bump 1 (bump 1 L)) (pre @ [CHR 0x5C] @ ''x'') ([x, y] @ rest)"
      using step [OF b1] by simp
    from hexDigits_ok [OF this] SHex assms(2)
    have "hexDigits 2 (bump 1 (bump 1 L)) = (True, bump 2 (bump 1 (bump 1 L)))"
      by (simp add: numeral_2_eq_2)
    then show ?thesis
      using SHex before_deref [OF b1] before_atEnd [OF b1] escape_letters
      by (simp add: consumeEscape_def Let_def bump_bump numeral_2_eq_2)
  next
    case (SUni hs)
    have b1: "before (bump 1 L) (pre @ [CHR 0x5C]) (CHR ''u'' # CHR ''{'' # hs @ CHR ''}'' # rest)"
      using step b SUni by simp
    have b2: "before (bump 1 (bump 1 L)) (pre @ [CHR 0x5C] @ ''u'') (CHR ''{'' # hs @ CHR ''}'' # rest)"
      using step [OF b1] by simp
    have "before (bump 1 (bump 1 (bump 1 L))) (pre @ [CHR 0x5C] @ ''u{'') (hs @ CHR ''}'' # rest)"
      using step [OF b2] by simp
    from bracedEscape_ok [OF this] SUni assms(2)
    have "bracedEscape (bump 1 (bump 1 (bump 1 L))) =
        (True, bump (length hs + 1) (bump 1 (bump 1 (bump 1 L))))" by simp
    then show ?thesis
      using SUni before_deref [OF b1] before_atEnd [OF b1] before_deref [OF b2] before_atEnd [OF b2]
        escape_letters
      by (simp add: consumeEscape_def Let_def bump_bump)
  qed (use assms(3) in simp)
qed

lemma scanString_loop_unit:
  assumes b: "before L pre (sprint u @ rest)" and "sok u"
  shows "scanString_loop False start e h L =
         scanString_loop False start (e \<or> isEscape u) h (bump (length (sprint u)) L)"
proof (cases u)
  case (SPlain c)
  then have bc: "before L pre (c # rest)" using b by simp
  show ?thesis
    using SPlain assms(2) before_deref [OF bc] before_atEnd [OF bc]
    by (subst scanString_loop.simps) (simp add: Let_def)
next
  case (SEsc c)
  with consumeEscape_ok [OF assms] b show ?thesis
    by (subst scanString_loop.simps) (simp add: Let_def before_deref)
next
  case (SHex x y)
  with consumeEscape_ok [OF assms] b show ?thesis
    by (subst scanString_loop.simps) (simp add: Let_def before_deref)
next
  case (SUni hs)
  with consumeEscape_ok [OF assms] b show ?thesis
    by (subst scanString_loop.simps) (simp add: Let_def before_deref)
qed

lemma scanString_loop_units:
  assumes "before L pre (concat (map sprint us) @ rest)" and "list_all sok us"
  shows "scanString_loop False start e h L =
         scanString_loop False start (e \<or> (\<exists>u \<in> set us. isEscape u)) h
           (bump (length (concat (map sprint us))) L)"
  using assms
proof (induction us arbitrary: L pre e)
  case Nil
  then show ?case by (simp add: bump_def)
next
  case (Cons u us)
  have b: "before L pre (sprint u @ concat (map sprint us) @ rest)" using Cons.prems(1) by simp
  have "scanString_loop False start e h L =
        scanString_loop False start (e \<or> isEscape u) h (bump (length (sprint u)) L)"
    using Cons.prems(2) by (intro scanString_loop_unit [OF b]) simp
  also have "\<dots> = scanString_loop False start ((e \<or> isEscape u) \<or> (\<exists>u \<in> set us. isEscape u)) h
      (bump (length (concat (map sprint us))) (bump (length (sprint u)) L))"
    using Cons.prems(2) by (intro Cons.IH [OF before_bump [OF b refl]]) simp
  finally show ?case by (simp add: bump_bump disj_assoc)
qed

text \<open>The token of a string literal: one \<open>StringLiteral\<close> from quote to quote.\<close>

definition stringToken :: "ptr \<Rightarrow> sunit list \<Rightarrow> Token" where
  "stringToken p us =
     escapedFlag (\<exists>u \<in> set us. isEscape u)
       (mkToken StringLiteral p (length (concat (map sprint us)) + 2))"

lemma lex_string_token:
  assumes b: "before L pre (ws @ [CHR 0x22] @ concat (map sprint us) @ [CHR 0x22] @ rest)"
    and ws: "\<forall>c \<in> set ws. isWhitespace c" and ok: "list_all sok us"
    and st: "lexState L = Normal"
  shows "lex_next U L = (stringToken (length pre + length ws) us,
           bump (length ws + length (concat (map sprint us)) + 2) L)"
proof -
  let ?body = "concat (map sprint us)" and ?L1 = "bump (length ws) L"
  have b1: "before ?L1 (pre @ ws) (CHR 0x22 # ?body @ [CHR 0x22] @ rest)"
    using before_bump [OF b refl] by simp
  have b2: "before (bump 1 ?L1) (pre @ ws @ [CHR 0x22]) (?body @ CHR 0x22 # rest)"
    using before_bump [of ?L1 "pre @ ws" "[CHR 0x22]" "?body @ CHR 0x22 # rest" 1] b1 by simp
  have b3: "before (bump (length ?body) (bump 1 ?L1)) ((pre @ ws @ [CHR 0x22]) @ ?body) (CHR 0x22 # rest)"
    by (rule before_bump [OF b2 refl])
  have "lex_next U L = dispatch U ?L1"
    using b st
    by (intro lex_next_token [OF b ws])
       (auto simp: isWhitespace_def startsComment_def inFragment_def inTemplateString_def)
  also have "\<dots> = scanString ?L1"
    using before_deref [OF b1] by (simp add: dispatch_def Let_def cctype)
  also have "\<dots> = scanString_loop False (curPtr ?L1) False False (bump 1 ?L1)"
    using before_deref [OF b1] st by (simp add: scanString_def Let_def inTemplateString_def)
  also have "\<dots> = scanString_loop False (curPtr ?L1) (\<exists>u \<in> set us. isEscape u) False
      (bump (length ?body) (bump 1 ?L1))"
    using scanString_loop_units [OF b2 ok] by simp
  also have "\<dots> = stringClose False (curPtr ?L1) (\<exists>u \<in> set us. isEscape u) False
      (bump (length ?body) (bump 1 ?L1))"
    using before_deref [OF b3] before_atEnd [OF b3]
    by (subst scanString_loop.simps) (simp add: Let_def)
  also have "\<dots> = (stringToken (length pre + length ws) us,
      bump (length ws + length ?body + 2) L)"
    using b by (simp add: stringClose_def Let_def stringToken_def tokenFrom_def bump_bump before_def)
  finally show ?thesis .
qed


subsection \<open>Decimal integers with separators\<close>

definition doubleUnderscore :: "bytes \<Rightarrow> bool" where
  "doubleUnderscore s \<longleftrightarrow> (\<exists>i < length s - 1. s ! i = CHR ''_'' \<and> s ! (i + 1) = CHR ''_'')"

text \<open>What may follow a decimal integer without becoming part of the number.\<close>

definition endsNumber :: "bytes \<Rightarrow> bool" where
  "endsNumber rest \<longleftrightarrow>
     rest = [] \<or> \<not> decChar (hd rest) \<and> hd rest \<noteq> CHR ''.'' \<and> \<not> isAsciiIdentStart (hd rest) \<and>
     \<not> isUTF8Start (hd rest)"

lemma decChar_letters:
  "\<not> decChar CHR ''x''" "\<not> decChar CHR ''X''" "\<not> decChar CHR ''b''" "\<not> decChar CHR ''B''"
  "\<not> decChar CHR ''o''" "\<not> decChar CHR ''O''" "\<not> decChar CHR ''.''"
  by (simp_all add: decChar_def cctype)

lemma identStart_letters:
  "isAsciiIdentStart CHR ''x''" "isAsciiIdentStart CHR ''X''" "isAsciiIdentStart CHR ''b''"
  "isAsciiIdentStart CHR ''B''" "isAsciiIdentStart CHR ''o''" "isAsciiIdentStart CHR ''O''"
  "isAsciiIdentStart CHR ''e''" "isAsciiIdentStart CHR ''E''"
  by (simp_all add: cctype)

lemma scanNumber_decimal:
  assumes b: "before L pre (s @ rest)" and s: "s \<noteq> []" "isdigit (hd s)" "\<forall>c \<in> set s. decChar c"
    and r: "endsNumber rest"
  shows "scanNumber_prefix L = (num_scan_init, L)"
    and "scanNumber_body num_scan_init L = (num_scan_init, bump (length s) L)"
    and "scanNumber_suffix num_scan_init (bump (length s) L) = (NS_None, num_scan_init, bump (length s) L)"
proof -
  let ?L2 = "bump (length s) L"
  obtain c s' where s': "s = c # s'" using s(1) by (cases s) auto
  have dc: "deref L = c" using b s' by (simp add: before_deref)
  have b2: "before ?L2 (pre @ s) rest" by (rule before_bump [OF b refl])
  have p1: "peek L 1 = NUL \<or> decChar (peek L 1) \<or> \<not> isAsciiIdentStart (peek L 1)"
    using before_peek [OF b, of 1] s(3) s' r
    by (cases s'; cases rest) (auto simp: endsNumber_def)
  have "c \<noteq> CHR ''.''" using s(2) s' by (auto simp: cctype)
  then show "scanNumber_prefix L = (num_scan_init, L)"
    using dc p1 decChar_letters identStart_letters NUL_neq
    by (auto simp: scanNumber_prefix_def Let_def)
  have sk: "skip decChar L = ?L2"
    using r by (intro before_skip [OF b s(3)]) (auto simp: endsNumber_def)
  have p2: "peek ?L2 0 = NUL \<or> peek ?L2 0 \<noteq> CHR ''.'' \<and> \<not> isAsciiIdentStart (peek ?L2 0)"
    using before_peek [OF b2, of 0] r by (cases rest) (auto simp: endsNumber_def)
  then have "peek ?L2 0 \<noteq> CHR ''.''" "peek ?L2 0 \<noteq> CHR ''e''" "peek ?L2 0 \<noteq> CHR ''E''"
    using identStart_letters NUL_neq by metis+
  then show "scanNumber_body num_scan_init L = (num_scan_init, ?L2)"
    by (simp add: scanNumber_body_def sk scanNumber_fraction_def scanNumber_exponent_def num_scan_init_def)
  show "scanNumber_suffix num_scan_init ?L2 = (NS_None, num_scan_init, ?L2)"
    using r before_atEnd [OF b2] before_deref [of ?L2 "pre @ s"] b2
    by (cases rest) (auto simp: scanNumber_suffix_def endsNumber_def)
qed

lemma find_upt_Some: "(\<exists>i \<in> {m..<n}. P i) \<longleftrightarrow> (\<exists>p. List.find P [m..<n] = Some p)"
  by (metis atLeastLessThan_upt find_None_iff2 not_None_eq option.simps(3))

lemma scanNumber_underscores_decimal:
  assumes b: "before L pre (s @ rest)" and s: "s \<noteq> []"
  shows "hadLexicalError (fst (scanNumber_underscores (length pre) NS_None num_scan_init (bump (length s) L)))
           \<longleftrightarrow> last s = CHR ''_'' \<or> doubleUnderscore s" (is "?E")
    and "curPtr (snd (scanNumber_underscores (length pre) NS_None num_scan_init (bump (length s) L)))
           = length pre + length s"
    and "isFloat (fst (scanNumber_underscores (length pre) NS_None num_scan_init (bump (length s) L))) = False"
proof -
  have buf: "buffer L = pre @ s @ rest" and cur: "curPtr L = length pre"
    using b by (simp_all add: before_def)
  have l: "buffer L ! (length pre + length s - 1) = last s"
    using s by (cases s rule: rev_cases) (simp_all add: buf nth_append)
  let ?P = "\<lambda>p. buffer L ! p = CHR ''_'' \<and> buffer L ! (p + 1) = CHR ''_''"
  have "(\<exists>p \<in> {length pre..<length pre + length s - 1}. ?P p) \<longleftrightarrow> doubleUnderscore s"
  proof
    assume "\<exists>p \<in> {length pre..<length pre + length s - 1}. ?P p"
    then obtain p where p: "length pre \<le> p" "p < length pre + length s - 1" "?P p" by auto
    then have "p - length pre < length s - 1" "s ! (p - length pre) = CHR ''_''"
      "s ! (p - length pre + 1) = CHR ''_''"
      by (auto simp: buf nth_append Suc_diff_le split: if_splits)
    then show "doubleUnderscore s" unfolding doubleUnderscore_def by blast
  next
    assume "doubleUnderscore s"
    then obtain i where "i < length s - 1" "s ! i = CHR ''_''" "s ! (i + 1) = CHR ''_''"
      unfolding doubleUnderscore_def by blast
    then show "\<exists>p \<in> {length pre..<length pre + length s - 1}. ?P p"
      by (intro bexI [of _ "length pre + i"]) (auto simp: buf nth_append)
  qed
  then have f: "doubleUnderscore s \<longleftrightarrow> (\<exists>p. List.find ?P [length pre..<length pre + length s - 1] = Some p)"
    by (simp add: find_upt_Some)
  show ?E
    using s l f
    by (cases "List.find ?P [length pre..<length pre + length s - 1]")
       (auto simp: scanNumber_underscores_def Let_def cur num_scan_init_def)
  show "curPtr (snd (scanNumber_underscores (length pre) NS_None num_scan_init (bump (length s) L)))
           = length pre + length s"
    and "isFloat (fst (scanNumber_underscores (length pre) NS_None num_scan_init (bump (length s) L))) = False"
    by (auto simp: scanNumber_underscores_def Let_def cur num_scan_init_def split: option.splits)
qed

lemma isdigit_not_other:
  "isdigit c \<Longrightarrow> \<not> isWhitespace c \<and> c \<noteq> CHR ''/'' \<and> \<not> isAsciiIdentStart c \<and> \<not> isUTF8Start c"
  by (auto simp: isWhitespace_def cctype)

lemma lex_decimal_token:
  assumes b: "before L pre (ws @ s @ rest)" and ws: "\<forall>c \<in> set ws. isWhitespace c"
    and s: "s \<noteq> []" "isdigit (hd s)" "\<forall>c \<in> set s. decChar c"
    and r: "endsNumber rest" and nf: "\<not> inFragment L"
    and call: "lex_next U L = (t, L')"
  shows "tok_kind t = (if last s = CHR ''_'' \<or> doubleUnderscore s then Error else IntegerLiteral) \<and>
         tok_location t = length pre + length ws \<and> tok_length t = of_nat (length s) \<and>
         curPtr L' = length pre + length ws + length s"
proof -
  let ?L1 = "bump (length ws) L"
  have b1: "before ?L1 (pre @ ws) (s @ rest)" by (rule before_bump [OF b refl])
  obtain c s' where s': "s = c # s'" using s(1) by (cases s) auto
  have dc: "deref ?L1 = c" using b1 s' by (simp add: before_deref)
  have "lex_next U L = dispatch U ?L1"
    using s s' isdigit_not_other [of c]
    by (intro lex_next_token [OF b ws _ _ _ nf]) (auto simp: startsComment_def)
  also have "\<dots> = scanNumber ?L1"
    using dc s(2) s' isdigit_not_other [of c] by (simp add: dispatch_def Let_def)
  finally have eq: "scanNumber ?L1 = (t, L')" using call by simp
  have cur: "curPtr ?L1 = length (pre @ ws)" using b1 by (simp add: before_def)
  note st = scanNumber_decimal [OF b1 s r] and un = scanNumber_underscores_decimal [OF b1 s(1)]
  obtain N4 L4 where u: "scanNumber_underscores (length (pre @ ws)) NS_None num_scan_init
      (bump (length s) ?L1) = (N4, L4)" by fastforce
  have "Suc 0 \<le> length s" using s(1) by (cases s) auto
  then show ?thesis
    using eq un s(1) cur unfolding u fst_conv snd_conv
    by (auto simp: scanNumber_def Let_def st u cur [simplified] u [simplified] errorAt_def tokenFrom_def max_def
        split: if_splits)
qed

subsection \<open>Properties of the recognised spellings\<close>

text \<open>
  Every spelling of the keyword table, in front of a byte that cannot continue an identifier
  and behind any whitespace, is lexed as exactly its keyword, with its location and length, and
  the cursor is behind it.
\<close>

theorem keywords_recognised:
  assumes "(s, k) \<in> set keywordTable" and "before L pre (ws @ s @ rest)"
    and "\<forall>c \<in> set ws. isWhitespace c"
    and "rest = [] \<or> \<not> isAsciiIdentBody (hd rest) \<and> \<not> isUTF8Start (hd rest)" and "\<not> inFragment L"
  shows "lex_next U L = (mkToken k (length pre + length ws) (length s), bump (length ws + length s) L)"
  using keywordTable_spelling [OF assms(1)] lex_identifier_token [OF assms(2,3) _ _ _ assms(4,5), of U]
  by (auto simp: list_all_iff)

theorem keywords_recognised_witness:
  "lex_next asciiLib (mkLexer '' while(x)'' DiagnosticEngine) =
     (mkToken (FlowKw KwWhile) 1 5, bump 6 (mkLexer '' while(x)'' DiagnosticEngine))"
  using keywords_recognised [of "''while''" "FlowKw KwWhile"
      "mkLexer '' while(x)'' DiagnosticEngine" "[]" "'' ''" "''(x)''" asciiLib]
  by (simp add: keywordTable_def before_def mkLexer_def isWhitespace_def inFragment_def
      inTemplateString_def cctype)

text \<open>
  Identifiers are lexed by longest match: a run of identifier bytes becomes one token whose
  kind is the keyword it spells, or an identifier.
\<close>

theorem identifier_longest_match:
  assumes "before L pre (ws @ s @ rest)" and "\<forall>c \<in> set ws. isWhitespace c"
    and "s \<noteq> []" "isAsciiIdentStart (hd s)" "\<forall>c \<in> set s. isAsciiIdentBody c"
    and "rest = [] \<or> \<not> isAsciiIdentBody (hd rest) \<and> \<not> isUTF8Start (hd rest)" and "\<not> inFragment L"
  shows "lex_next U L = (mkToken (keywordKind s) (length pre + length ws) (length s),
                         bump (length ws + length s) L)"
  by (rule lex_identifier_token [OF assms])

theorem identifier_longest_match_witness:
  "lex_next asciiLib (mkLexer ''classy;'' DiagnosticEngine) =
     (mkToken Identifier 0 6, bump 6 (mkLexer ''classy;'' DiagnosticEngine))"
  using identifier_longest_match [of "mkLexer ''classy;'' DiagnosticEngine" "[]" "[]" "''classy''" "'';''" asciiLib]
  by (simp add: before_def mkLexer_def inFragment_def inTemplateString_def cctype keywordKind_def
      keywordTable_def)

text \<open>
  Block comments nest: a comment, with any comments nested in it, is skipped as a whole, and
  lexing goes on as if the cursor had been behind it.
\<close>

theorem nested_comments_skipped:
  assumes "before L pre (ws @ cprint (CNested ps) @ rest)" and "\<forall>c \<in> set ws. isWhitespace c"
    and "cok (CNested ps)" and "\<not> inFragment L"
  shows "lex_next U L = lex_next U (bump (length ws + length (cprint (CNested ps))) L)"
  by (rule comment_transparent [OF assms])

theorem nested_comments_skipped_witness:
  "lex_next asciiLib (mkLexer ''/*a/*b*/*/x'' DiagnosticEngine) =
     lex_next asciiLib (bump 10 (mkLexer ''/*a/*b*/*/x'' DiagnosticEngine))"
  using nested_comments_skipped [of "mkLexer ''/*a/*b*/*/x'' DiagnosticEngine" "[]" "[]"
      "[CText CHR ''a'', CNested [CText CHR ''b'']]" "''x''" asciiLib]
  by (simp add: before_def mkLexer_def inFragment_def inTemplateString_def eval_nat_numeral)

text \<open>
  A string literal is lexed as one token from quote to quote, flagged as escaped iff it
  contains an escape sequence, without a diagnostic.
\<close>

theorem string_literal_token:
  assumes "before L pre (ws @ [CHR 0x22] @ concat (map sprint us) @ [CHR 0x22] @ rest)"
    and "\<forall>c \<in> set ws. isWhitespace c" and "list_all sok us" and "lexState L = Normal"
  shows "lex_next U L = (stringToken (length pre + length ws) us,
           bump (length ws + length (concat (map sprint us)) + 2) L)"
  by (rule lex_string_token [OF assms])

theorem string_literal_token_witness:
  "lex_next asciiLib (mkLexer ([CHR 0x22, CHR ''a'', CHR 0x5C, CHR ''n'', CHR 0x22]) DiagnosticEngine) =
     (stringToken 0 [SPlain CHR ''a'', SEsc CHR ''n''],
      bump 5 (mkLexer ([CHR 0x22, CHR ''a'', CHR 0x5C, CHR ''n'', CHR 0x22]) DiagnosticEngine))"
  using string_literal_token [of "mkLexer [CHR 0x22, CHR ''a'', CHR 0x5C, CHR ''n'', CHR 0x22] DiagnosticEngine"
      "[]" "[]" "[SPlain CHR ''a'', SEsc CHR ''n'']" "[]" asciiLib]
  by (simp add: before_def mkLexer_def simpleEscapes_def)

text \<open>
  A run of decimal digits and underscores that starts with a digit is one integer literal,
  unless it ends in an underscore or has two in a row: then, and only then, it is one error token
  of the same extent.
\<close>

theorem decimal_integer_token:
  assumes "before L pre (ws @ s @ rest)" and "\<forall>c \<in> set ws. isWhitespace c"
    and "s \<noteq> []" "isdigit (hd s)" "\<forall>c \<in> set s. decChar c"
    and "endsNumber rest" and "\<not> inFragment L" and "lex_next U L = (t, L')"
  shows "tok_kind t = (if last s = CHR ''_'' \<or> doubleUnderscore s then Error else IntegerLiteral) \<and>
         tok_location t = length pre + length ws \<and> tok_length t = of_nat (length s) \<and>
         curPtr L' = length pre + length ws + length s"
  by (rule lex_decimal_token [OF assms])

theorem decimal_integer_token_witness:
  "tok_kind (fst (lex_next asciiLib (mkLexer ''1_000;'' DiagnosticEngine))) = IntegerLiteral \<and>
   tok_length (fst (lex_next asciiLib (mkLexer ''1_000;'' DiagnosticEngine))) = 5"
proof -
  obtain t L' where r: "lex_next asciiLib (mkLexer ''1_000;'' DiagnosticEngine) = (t, L')" by fastforce
  have "\<not> doubleUnderscore ''1_000''"
    by (simp add: doubleUnderscore_def Ex_less_Suc eval_nat_numeral)
  with decimal_integer_token [OF _ _ _ _ _ _ _ r, of "[]" "[]" "''1_000''" "'';''"] show ?thesis
    unfolding r
    by (simp add: before_def mkLexer_def inFragment_def inTemplateString_def cctype endsNumber_def
        decChar_def)
qed

end
