(* ===== verification/ParserCore.thy ===== *)
theory ParserCore
  imports LexerSpell
begin

text \<open>
  The token window of the parser and its recovery
  (\<open>include/moksha/Parser/Parser.h\<close>, \<open>lib/frontend/parser/Parser.cpp\<close>): \<open>curTok\<close> and \<open>nextTok\<close>
  over the lexer, \<open>advance\<close>, \<open>expect\<close>, \<open>expectGreater\<close>, \<open>synchronize\<close>, the import list, and the
  literals whose spelling is decoded by \<open>unescapeString\<close>.

  The parser and the lexer hold a reference to the same diagnostic engine, so the parser
  reports into the engine of its lexer.  The loops of \<open>synchronize\<close> and
  \<open>parseImportSymbolList\<close> end only if the lexer reaches \<open>Eof\<close>; they are partial functions and
  \<open>None\<close> is a loop that never ends.  \<open>llvm::ConvertCodePointToUTF8\<close> is the parameter \<open>conv\<close>.
\<close>

subsection \<open>Token names\<close>

definition quoted :: "string \<Rightarrow> string" where
  "quoted s = [CHR 0x27] @ s @ [CHR 0x27]"

definition tokenNames :: "(TokenKind \<times> string) list" where
  "tokenNames =
     [(Eof, ''end of file''), (Error, ''error''), (Identifier, ''identifier''),
      (IntegerLiteral, ''integer literal''), (FloatLiteral, ''float literal''),
      (DecimalLiteral, ''decimal literal''), (StringLiteral, ''string literal''),
      (TemplateString, ''template string''), (CharLiteral, ''char literal''),
      (StringFragment, ''string fragment''), (InterpolationStart, ''${''),
      (InterpolationEnd, ''}''), (CoreKw KwClass, quoted ''class''),
      (CoreKw KwRef, quoted ''ref''), (CoreKw KwWeak, quoted ''weak''),
      (CoreKw KwShared, quoted ''shared''), (CoreKw KwNew, quoted ''new''),
      (CoreKw KwDelete, quoted ''delete''), (CoreKw KwUnsafe, quoted ''unsafe''),
      (CoreKw KwUnsigned, quoted ''unsigned''), (CoreKw KwConstructor, quoted ''constructor''),
      (CoreKw KwDestructor, quoted ''destructor''), (CoreKw KwThis, quoted ''this''),
      (CoreKw KwSuper, quoted ''super''), (CoreKw KwNull, quoted ''null''),
      (FlowKw KwIf, quoted ''if''), (FlowKw KwElse, quoted ''else''),
      (FlowKw KwWhile, quoted ''while''), (FlowKw KwDo, quoted ''do''),
      (FlowKw KwFor, quoted ''for''), (FlowKw KwIn, quoted ''in''),
      (FlowKw KwSwitch, quoted ''switch''), (FlowKw KwCase, quoted ''case''),
      (FlowKw KwDefault, quoted ''default''), (FlowKw KwReturn, quoted ''return''),
      (FlowKw KwBreak, quoted ''break''), (FlowKw KwContinue, quoted ''continue''),
      (FlowKw KwDefer, quoted ''defer''), (FlowKw KwWith, quoted ''with''),
      (ExnKw KwTry, quoted ''try''), (ExnKw KwCatch, quoted ''catch''),
      (ExnKw KwThrow, quoted ''throw''), (ExnKw KwFinally, quoted ''finally''),
      (PrimKw KwVoid, quoted ''void''), (PrimKw KwInt, quoted ''int''),
      (PrimKw KwFloat, quoted ''float''), (PrimKw KwBool, quoted ''bool''),
      (PrimKw KwString, quoted ''string''), (PrimKw KwChar, quoted ''char''),
      (PrimKw KwDecimal, quoted ''decimal''), (PrimKw KwAny, quoted ''any''),
      (ModKw KwPromise, quoted ''promise''), (TypeKw KwAs, quoted ''as''),
      (TypeKw KwTrue, quoted ''true''), (TypeKw KwFalse, quoted ''false''),
      (ModKw KwPublic, quoted ''public''), (ModKw KwPrivate, quoted ''private''),
      (ModKw KwProtected, quoted ''protected''), (ModKw KwConst, quoted ''const''),
      (ModKw KwStatic, quoted ''static''), (ConcKw KwAsync, quoted ''async''),
      (ConcKw KwAwait, quoted ''await''), (CoreKw KwThread, quoted ''thread''),
      (ConcKw KwImport, quoted ''import''), (ConcKw KwFrom, quoted ''from''),
      (ConcKw KwMacro, quoted ''macro''), (DataKw KwTable, quoted ''table''),
      (DataKw KwGeneric, quoted ''generic''), (DataKw KwStruct, quoted ''struct''),
      (DataKw KwUnion, quoted ''union''), (LowKw KwPacked, quoted ''packed''),
      (LowKw KwVolatile, quoted ''volatile''), (LowKw KwAlign, quoted ''align''),
      (LowKw KwSizeof, quoted ''sizeof''), (LowKw KwInterrupt, quoted ''interrupt''),
      (LowKw KwNaked, quoted ''naked''), (LowKw KwNoreturn, quoted ''noreturn''),
      (LowKw KwNoinline, quoted ''noinline''), (LowKw KwInline, quoted ''inline''),
      (LowKw KwPure, quoted ''pure''), (LowKw KwCold, quoted ''cold''),
      (BorrowKw KwLock, quoted ''lock''), (BorrowKw KwView, quoted ''view''),
      (BorrowKw KwMut, quoted ''mut''), (AsmKw KwExtern, quoted ''extern''),
      (AsmKw KwUsing, quoted ''using''), (AsmKw KwAsm, quoted ''asm''),
      (AsmKw KwSection, quoted ''section''), (AsmKw KwUsed, quoted ''used''),
      (AsmKw KwThreadLocal, quoted ''thread_local''), (OopKw KwClosure, quoted ''closure''),
      (AsmKw KwOut, quoted ''out''), (AsmKw KwInout, quoted ''inout''),
      (AsmKw KwClobber, quoted ''clobber''), (ModKw KwBitcast, quoted ''bitcast''),
      (MathOp Plus, quoted ''+''), (MathOp Minus, quoted ''-''), (MathOp Star, quoted ''*''),
      (MathOp Slash, quoted ''/''), (MathOp Percent, quoted ''%''), (MathOp Power, quoted ''**''),
      (MathOp PlusPlus, quoted ''++''), (MathOp MinusMinus, quoted ''--''),
      (AssignOp Equal, quoted ''=''), (AssignOp PlusEqual, quoted ''+=''),
      (AssignOp MinusEqual, quoted ''-=''), (AssignOp StarEqual, quoted ''*=''),
      (AssignOp SlashEqual, quoted ''/=''), (AssignOp PercentEqual, quoted ''%=''),
      (BitOp Amp, quoted ''&''), (BitOp Pipe, quoted ''|''), (BitOp Caret, quoted ''^''),
      (BitOp Tilde, quoted ''~''), (BitOp AmpEqual, quoted ''&=''),
      (BitOp PipeEqual, quoted ''|=''), (BitOp CaretEqual, quoted ''^=''),
      (BitOp LessLess, quoted ''<<''), (BitOp GreaterGreater, quoted ''>>''),
      (BitOp LessLessEqual, quoted ''<<=''), (BitOp GreaterGreaterEqual, quoted ''>>=''),
      (LogicOp AmpAmp, quoted ''&&''), (LogicOp PipePipe, quoted ''||''),
      (LogicOp PipeGreater, quoted ''|>''), (LogicOp Bang, quoted ''!''),
      (RelOp EqualEqual, quoted ''==''), (RelOp NotEqual, quoted ''!=''),
      (RelOp Less, quoted ''<''), (RelOp LessEqual, quoted ''<=''), (RelOp Greater, quoted ''>''),
      (RelOp GreaterEqual, quoted ''>=''), (SyntaxOp FatArrow, quoted ''=>''),
      (SyntaxOp Dot, quoted ''.''), (SyntaxOp DotDotDot, quoted ''...''),
      (SyntaxOp QuestionDot, quoted ''?.''), (SyntaxOp QuestionQuestion, quoted ''??''),
      (SyntaxOp Question, quoted ''?''), (SyntaxOp Colon, quoted '':''),
      (SyntaxOp Comma, quoted '',''), (SyntaxOp Semicolon, quoted '';''),
      (Bracket LParen, quoted ''(''), (Bracket RParen, quoted '')''),
      (Bracket LBrace, quoted ''{''), (Bracket RBrace, quoted ''}''),
      (Bracket LBracket, quoted ''[''), (Bracket RBracket, quoted '']'')]"

definition tokenKindToString :: "TokenKind \<Rightarrow> string" where
  "tokenKindToString k = (case map_of tokenNames k of Some s \<Rightarrow> s | None \<Rightarrow> ''token'')"

subsection \<open>Newlines before a token\<close>

text \<open>
  The scan backwards over whitespace, from the offset behind the byte to read.  \<open>None\<close> is the
  read in front of the buffer, which C++ leaves undefined.
\<close>

fun newlineBefore :: "bytes \<Rightarrow> ptr \<Rightarrow> bool option" where
  "newlineBefore b 0 = None"
| "newlineBefore b (Suc p) =
     (let c = b ! p in
      if c = CHR '' '' \<or> c = CHR 0x09 \<or> c = CHR 0x0D \<or> c = CHR 0x0A then
        (if c = CHR 0x0A \<or> c = CHR 0x0D then Some True else newlineBefore b p)
      else Some False)"

definition hasNewlineBeforeToken :: "bytes \<Rightarrow> Token \<Rightarrow> bool option" where
  "hasNewlineBeforeToken b t =
     (if getSpelling b t = [] then Some False else newlineBefore b (tok_location t))"

subsection \<open>Escape sequences\<close>

text \<open>\<open>std::stoi\<close> and \<open>std::stoul\<close> in base 16; \<open>None\<close> is the exception the caller catches.\<close>

definition hexDigitValue :: "char \<Rightarrow> nat" where
  "hexDigitValue c =
     (if in_range CHR ''0'' CHR ''9'' c then byte c - byte CHR ''0''
      else if in_range CHR ''a'' CHR ''f'' c then byte c - byte CHR ''a'' + 10
      else byte c - byte CHR ''A'' + 10)"

definition hexValue :: "bytes \<Rightarrow> nat" where
  "hexValue ds = foldl (\<lambda>a c. a * 16 + hexDigitValue c) 0 ds"

definition hexNumber :: "bytes \<Rightarrow> (bool \<times> nat) option" where
  "hexNumber s =
     (let s1 = dropWhile isspace s;
          neg = (s1 \<noteq> [] \<and> hd s1 = CHR ''-'');
          s2 = (if s1 \<noteq> [] \<and> (hd s1 = CHR ''-'' \<or> hd s1 = CHR ''+'') then tl s1 else s1);
          s3 = (if 2 < length s2 \<and> s2 ! 0 = CHR ''0'' \<and> (s2 ! 1 = CHR ''x'' \<or> s2 ! 1 = CHR ''X'') \<and>
                   isHexDigit (s2 ! 2) then drop 2 s2 else s2);
          ds = takeWhile isHexDigit s3
      in if ds = [] then None else Some (neg, hexValue ds))"

definition stoi16 :: "bytes \<Rightarrow> int option" where
  "stoi16 s =
     (case hexNumber s of
        None \<Rightarrow> None
      | Some (neg, n) \<Rightarrow>
          (let v = (if neg then - int n else int n)
           in if - (2 ^ 31) \<le> v \<and> v < 2 ^ 31 then Some v else None))"

definition stoul16 :: "bytes \<Rightarrow> 64 word option" where
  "stoul16 s =
     (case hexNumber s of
        None \<Rightarrow> None
      | Some (neg, n) \<Rightarrow>
          if n < 2 ^ 64 then Some (if neg then - of_nat n else of_nat n) else None)"

text \<open>\<open>codePoint = std::stoul(hexStr, nullptr, 16)\<close>: 0 when it throws, else cut to 32 bits.\<close>

definition codePointOf :: "bytes \<Rightarrow> 32 word" where
  "codePointOf s = (case stoul16 s of None \<Rightarrow> 0 | Some w \<Rightarrow> ucast w)"

type_synonym utf8_encode = "32 word \<Rightarrow> bytes option"

text \<open>\<open>raw.find(c, from)\<close>\<close>

definition find_from :: "char \<Rightarrow> bytes \<Rightarrow> nat \<Rightarrow> nat option" where
  "find_from c s p = (let q = advance_while (\<lambda>x. x \<noteq> c) s p in if q < length s then Some q else None)"

text \<open>
  One escape sequence at \<open>i\<close>: the bytes appended to \<open>result\<close> and the amount added to \<open>i\<close> before
  the increment of the loop.
\<close>

definition unescapeUnicode :: "utf8_encode \<Rightarrow> bytes \<Rightarrow> nat \<Rightarrow> bytes \<times> nat" where
  "unescapeUnicode conv raw i =
     (let e = raw ! (i + 1);
          (codePoint, consumed) =
            (if e = CHR ''u'' \<and> i + 2 < length raw \<and> raw ! (i + 2) = CHR ''{'' then
               (case find_from CHR ''}'' raw (i + 3) of
                  Some endBrace \<Rightarrow>
                    (codePointOf (take (endBrace - (i + 3)) (drop (i + 3) raw)), endBrace - i)
                | None \<Rightarrow> (0, 0))
             else if e = CHR ''u'' \<and> i + 5 < length raw then (codePointOf (take 4 (drop (i + 2) raw)), 5)
             else if e = CHR ''U'' \<and> i + 9 < length raw then (codePointOf (take 8 (drop (i + 2) raw)), 9)
             else (0, 0))
      in if consumed > 0 then
           (case conv codePoint of Some bs \<Rightarrow> (bs, consumed) | None \<Rightarrow> ([], consumed))
         else ([raw ! i], 0))"

definition unescapeOne :: "utf8_encode \<Rightarrow> bytes \<Rightarrow> nat \<Rightarrow> bytes \<times> nat" where
  "unescapeOne conv raw i =
     (let e = raw ! (i + 1) in
      if e = CHR ''n'' then ([CHR 0x0A], 1)
      else if e = CHR ''r'' then ([CHR 0x0D], 1)
      else if e = CHR ''t'' then ([CHR 0x09], 1)
      else if e = CHR ''b'' then ([CHR 0x08], 1)
      else if e = CHR ''0'' then ([CHR 0x00], 1)
      else if e = CHR 0x5C then ([CHR 0x5C], 1)
      else if e = CHR 0x27 then ([CHR 0x27], 1)
      else if e = CHR 0x22 then ([CHR 0x22], 1)
      else if e = CHR 0x60 then ([CHR 0x60], 1)
      else if e = CHR ''$'' then ([CHR ''$''], 1)
      else if e = CHR ''x'' then
        (if i + 3 < length raw then
           (case stoi16 (take 2 (drop (i + 2) raw)) of
              Some v \<Rightarrow> ([char_of v], 3)
            | None \<Rightarrow> ([], 3))
         else ([raw ! i], 0))
      else if e = CHR ''u'' \<or> e = CHR ''U'' then unescapeUnicode conv raw i
      else ([e], 1))"

function unescape_loop :: "utf8_encode \<Rightarrow> bytes \<Rightarrow> nat \<Rightarrow> bytes \<Rightarrow> bytes" where
  "unescape_loop conv raw i result =
     (if i < length raw then
        (if raw ! i = CHR 0x5C \<and> i + 1 < length raw then
           (case unescapeOne conv raw i of
              (app, step) \<Rightarrow> unescape_loop conv raw (i + step + 1) (result @ app))
         else unescape_loop conv raw (i + 1) (result @ [raw ! i]))
      else result)"
  by pat_completeness auto
termination
  by (relation "measure (\<lambda>(conv, raw, i, result). length raw - i)") auto

declare unescape_loop.simps [simp del]

definition unescapeString :: "utf8_encode \<Rightarrow> bytes \<Rightarrow> bytes" where
  "unescapeString conv raw = unescape_loop conv raw 0 []"

subsection \<open>The window of two tokens\<close>

text \<open>The lexer drops comments itself and never hands one out.\<close>

lemma scanString_loop_not_Comment:
  "tok_kind (fst (scanString_loop t s e h L)) \<noteq> Comment"
proof (induction t s e h L rule: scanString_loop.induct)
  case (1 t s e h L)
  obtain ok L1 where c: "consumeEscape L = (ok, L1)" by fastforce
  show ?case
    using "1.IH"(1) [OF _ refl refl _ _ c [symmetric]] "1.IH"(2) [OF _ refl refl] c
    by (subst scanString_loop.simps)
       (auto simp: Let_def stringEof_def stringClose_def stringInterp_def escapedFlag_def tokenFrom_def errorAt_def)
qed

lemma keywordKind_not_Comment: "keywordKind s \<noteq> Comment"
proof -
  have "list_all (\<lambda>(s, k). k \<noteq> Comment) keywordTable" by (simp add: keywordTable_def)
  then show ?thesis
    by (auto simp: keywordKind_def list_all_iff dest!: map_of_SomeD split: option.splits)
qed

lemma operatorKind_not_Comment: "fst (operatorKind c L) \<noteq> Comment"
  by (auto simp: operatorKind_def Let_def)

lemma scanOperator_not_Comment: "tok_kind (fst (scanOperator L)) \<noteq> Comment"
  using operatorKind_not_Comment [of "deref L" "bump 1 L"]
  by (auto simp: scanOperator_def Let_def tokenFrom_def split: prod.splits)

lemma scanIdentifier_not_Comment: "tok_kind (fst (scanIdentifier U L)) \<noteq> Comment"
  by (auto simp: scanIdentifier_def Let_def tokenFrom_def errorAt_def keywordKind_not_Comment
      split: prod.splits bool.splits)

lemma scanNumber_not_Comment: "tok_kind (fst (scanNumber L)) \<noteq> Comment"
  by (simp add: scanNumber_def Let_def tokenFrom_def errorAt_def split: prod.splits)

lemma scanString_not_Comment: "tok_kind (fst (scanString L)) \<noteq> Comment"
  by (simp add: scanString_def Let_def scanString_loop_not_Comment)

lemma scanChar_not_Comment: "tok_kind (fst (scanChar U L)) \<noteq> Comment"
  by (simp add: scanChar_def Let_def tokenFrom_def errorAt_def split: prod.splits)

lemma dispatch_not_Comment: "tok_kind (fst (dispatch U L)) \<noteq> Comment"
  by (simp add: dispatch_def Let_def scanOperator_not_Comment scanIdentifier_not_Comment
      scanNumber_not_Comment scanString_not_Comment scanChar_not_Comment)

lemma lex_next_not_Comment: "tok_kind (fst (lex_next U L)) \<noteq> Comment"
  by (simp add: lex_next_def errorAt_def scanString_not_Comment dispatch_not_Comment
      split: prod.splits trivia.splits)

record parser =
  p_lexer :: lexer
  curTok :: Token
  nextTok :: Token
  loopDepth :: int

definition p_buffer :: "parser \<Rightarrow> bytes" where
  "p_buffer P = buffer (p_lexer P)"

definition mkParser :: "utf8_lib \<Rightarrow> lexer \<Rightarrow> parser" where
  "mkParser U L =
     (case lex_next U L of (t1, L1) \<Rightarrow> case lex_next U L1 of (t2, L2) \<Rightarrow>
        \<lparr>p_lexer = L2, curTok = t1, nextTok = t2, loopDepth = 0\<rparr>)"

text \<open>\<open>curTok = nextTok; nextTok = lexer.next()\<close>, and the loop over comments.\<close>

definition shift :: "utf8_lib \<Rightarrow> parser \<Rightarrow> parser" where
  "shift U P =
     (case lex_next U (p_lexer P) of (t, L) \<Rightarrow> P\<lparr>curTok := nextTok P, nextTok := t, p_lexer := L\<rparr>)"

lemma shift_simps [simp]:
  "curTok (shift U P) = nextTok P" "nextTok (shift U P) = fst (lex_next U (p_lexer P))"
  "p_lexer (shift U P) = snd (lex_next U (p_lexer P))"
  by (simp_all add: shift_def split: prod.splits)

function skipComments :: "utf8_lib \<Rightarrow> parser \<Rightarrow> parser" where
  "skipComments U P = (if is_kind (curTok P) Comment then skipComments U (shift U P) else P)"
  by pat_completeness auto
termination
  by (relation "measure (\<lambda>(U, P). if is_kind (curTok P) Comment
        then 1 + (if is_kind (nextTok P) Comment then 1 else 0) else 0)")
     (auto simp: is_kind_def lex_next_not_Comment)

declare skipComments.simps [simp del]

definition advance :: "utf8_lib \<Rightarrow> parser \<Rightarrow> parser" where
  "advance U P = skipComments U (shift U P)"

definition consume :: "utf8_lib \<Rightarrow> parser \<Rightarrow> parser" where
  "consume U P = advance U P"

definition consumeIf :: "utf8_lib \<Rightarrow> TokenKind \<Rightarrow> parser \<Rightarrow> bool \<times> parser" where
  "consumeIf U kind P = (if is_kind (curTok P) kind then (True, advance U P) else (False, P))"

definition parseError :: "string \<Rightarrow> parser \<Rightarrow> parser" where
  "parseError message P =
     P\<lparr>p_lexer := (p_lexer P)\<lparr>Diags :=
         report (Diags (p_lexer P)) (tok_location (curTok P)) err_expected_token message\<rparr>\<rparr>"

definition expect :: "utf8_lib \<Rightarrow> TokenKind \<Rightarrow> parser \<Rightarrow> bool \<times> parser" where
  "expect U kind P =
     (if is_kind (curTok P) kind then (True, advance U P)
      else (False, parseError (''Expected '' @ tokenKindToString kind @ '', but found '' @
                               getSpelling (p_buffer P) (curTok P)) P))"

definition expectGreater :: "utf8_lib \<Rightarrow> parser \<Rightarrow> bool \<times> parser" where
  "expectGreater U P =
     (if is_kind (curTok P) (RelOp Greater) then (True, advance U P)
      else if is_kind (curTok P) (BitOp GreaterGreater) then
        (True, P\<lparr>curTok := (curTok P)\<lparr>tok_kind := RelOp Greater\<rparr>\<rparr>)
      else if is_kind (curTok P) (BitOp GreaterGreaterEqual) then
        (True, P\<lparr>curTok := (curTok P)\<lparr>tok_kind := RelOp GreaterEqual\<rparr>\<rparr>)
      else expect U (RelOp Greater) P)"

subsection \<open>Error recovery\<close>

definition syncKinds :: "TokenKind list" where
  "syncKinds = [CoreKw KwClass, FlowKw KwIf, FlowKw KwWhile, FlowKw KwFor, FlowKw KwReturn,
                ConcKw KwImport, Bracket RBrace]"

partial_function (option) synchronize_loop :: "utf8_lib \<Rightarrow> parser \<Rightarrow> parser option" where
  "synchronize_loop U P =
     (if is_kind (curTok P) Eof then Some P
      else if is_kind (curTok P) (SyntaxOp Semicolon) then Some (advance U P)
      else if isAny (curTok P) syncKinds then Some P
      else synchronize_loop U (advance U P))"

declare synchronize_loop.simps [code]

definition synchronize :: "utf8_lib \<Rightarrow> parser \<Rightarrow> parser option" where
  "synchronize U P =
     (if is_kind (curTok P) Eof then Some P
      else if is_kind (curTok P) (SyntaxOp Semicolon) then Some (advance U P)
      else synchronize_loop U (advance U P))"

subsection \<open>The import list\<close>

text \<open>One round of the loop: the symbol it adds, if any.\<close>

definition importSymbol :: "utf8_lib \<Rightarrow> parser \<Rightarrow> (string \<times> string) list \<times> parser" where
  "importSymbol U P =
     (if is_kind (curTok P) Identifier \<or> is_kind (curTok P) (DataKw KwTable) then
        (let originalName = getSpelling (p_buffer P) (curTok P);
             (isAs, P1) = consumeIf U (TypeKw KwAs) (consume U P)
         in if isAs then
              (if is_kind (curTok P1) Identifier then
                 ([(originalName, getSpelling (p_buffer P1) (curTok P1))], consume U P1)
               else ([(originalName, originalName)],
                     parseError (''Expected identifier after '' @ quoted ''as'') P1))
            else ([(originalName, originalName)], P1))
      else ([], consume U (parseError ''Expected identifier or type in import list'' P)))"

definition importSeparator :: "utf8_lib \<Rightarrow> parser \<Rightarrow> parser" where
  "importSeparator U P =
     (if is_kind (curTok P) (Bracket RBrace) then P
      else case consumeIf U (SyntaxOp Comma) P of
             (True, P1) \<Rightarrow> P1
           | (False, P1) \<Rightarrow> consume U (parseError ''Expected ',' between imported symbols'' P1))"

partial_function (option) importLoop ::
  "utf8_lib \<Rightarrow> parser \<Rightarrow> (string \<times> string) list \<Rightarrow> ((string \<times> string) list \<times> parser) option" where
  "importLoop U P symbols =
     (if is_kind (curTok P) (Bracket RBrace) \<or> is_kind (curTok P) Eof then Some (symbols, P)
      else importLoop U (importSeparator U (snd (importSymbol U P)))
             (symbols @ fst (importSymbol U P)))"

declare importLoop.simps [code]

definition parseImportSymbolList ::
  "utf8_lib \<Rightarrow> parser \<Rightarrow> ((string \<times> string) list \<times> parser) option" where
  "parseImportSymbolList U P =
     (case importLoop U P [] of
        None \<Rightarrow> None
      | Some (symbols, P1) \<Rightarrow> Some (symbols, snd (expect U (Bracket RBrace) P1)))"

subsection \<open>String literals\<close>

text \<open>The AST node: \<open>StringLiteral(val, isTemplate, loc)\<close>.\<close>

datatype string_literal = StringLit bytes bool ptr

definition parseStringLiteral :: "utf8_lib \<Rightarrow> utf8_encode \<Rightarrow> parser \<Rightarrow> string_literal \<times> parser" where
  "parseStringLiteral U conv P =
     (let loc = tok_location (curTok P);
          val = getSpelling (p_buffer P) (curTok P);
          val1 = (if 2 \<le> length val \<and> (hd val = CHR 0x22 \<or> hd val = CHR 0x60 \<or> hd val = CHR 0x27)
                  then take (length val - 2) (drop 1 val) else val)
      in (StringLit (unescapeString conv val1) False loc, consume U P))"

text \<open>Case 1 of \<open>parseTemplateString\<close>: a template string without interpolations.\<close>

definition parseSimpleTemplate :: "utf8_lib \<Rightarrow> utf8_encode \<Rightarrow> parser \<Rightarrow> string_literal \<times> parser" where
  "parseSimpleTemplate U conv P =
     (let loc = tok_location (curTok P);
          val = getSpelling (p_buffer P) (curTok P);
          val1 = (if 2 \<le> length val then take (length val - 2) (drop 1 val) else val)
      in (StringLit (unescapeString conv val1) True loc, consume U P))"

end
