(* ===== verification/AST.thy ===== *)
theory AST
  imports ParserCore "HOL-Library.Monad_Syntax"
begin

text \<open>
  The syntax tree (\<open>include/moksha/AST/Type.h\<close>, \<open>Expr.h\<close>, \<open>Stmt.h\<close>).  One constructor per node
  class, its arguments those of the class's constructor; what later phases write into a node is not
  part of it.  A \<open>unique_ptr\<close> the parser may leave null is an \<open>option\<close>.  The attributes of a
  declaration that are set one by one are records.
\<close>

datatype Scalar =
    S_Void | S_Bool | S_Char | S_String | S_Int | S_I8 | S_I16 | S_I32 | S_I64 | S_ISize
  | S_U8 | S_U16 | S_U32 | S_U64 | S_USize | S_F8 | S_F16 | S_F32 | S_F64

datatype Variance = Invariant | Covariant | Contravariant

datatype CaptureMode = C_Snapshot | C_View | C_Mut | C_Move

datatype Visibility = V_Default | V_Public | V_Private | V_Protected

datatype AggregateKind = A_Class | A_Struct | A_Union

text \<open>
  Attributes of a variable.  \<open>isShared\<close> is \<open>None\<close> where the constructor leaves it uninitialised.
\<close>

record var_attrs =
  va_const :: bool
  va_static :: bool
  va_shared :: "bool option"
  va_vis :: Visibility
  va_volatile :: bool
  va_extern :: bool
  va_alignment :: "32 word"
  va_section :: string
  va_used :: bool
  va_bitWidth :: int
  va_threadLocal :: bool
  va_weakLinkage :: bool

definition mkVarAttrs :: "bool \<Rightarrow> bool \<Rightarrow> bool option \<Rightarrow> Visibility \<Rightarrow> var_attrs" where
  "mkVarAttrs c s sh vis = \<lparr>va_const = c, va_static = s, va_shared = sh, va_vis = vis, va_volatile = False,
     va_extern = False, va_alignment = 0, va_section = [], va_used = False, va_bitWidth = -1,
     va_threadLocal = False, va_weakLinkage = False\<rparr>"

record fun_attrs =
  fa_async :: bool
  fa_static :: bool
  fa_variadic :: bool
  fa_weak :: bool
  fa_vis :: Visibility
  fa_extern :: bool
  fa_externLinkage :: string
  fa_interrupt :: bool
  fa_naked :: bool
  fa_noReturn :: bool
  fa_noInline :: bool
  fa_inline :: bool
  fa_pure :: bool
  fa_cold :: bool
  fa_used :: bool
  fa_section :: string
  fa_abi :: string
  fa_virtual :: bool
  fa_override :: bool
  fa_view :: bool

definition mkFunAttrs :: "bool \<Rightarrow> bool \<Rightarrow> bool \<Rightarrow> bool \<Rightarrow> Visibility \<Rightarrow> fun_attrs" where
  "mkFunAttrs a s v w vis = \<lparr>fa_async = a, fa_static = s, fa_variadic = v, fa_weak = w, fa_vis = vis,
     fa_extern = False, fa_externLinkage = [], fa_interrupt = False, fa_naked = False, fa_noReturn = False,
     fa_noInline = False, fa_inline = False, fa_pure = False, fa_cold = False, fa_used = False,
     fa_section = [], fa_abi = ''C'', fa_virtual = False, fa_override = False, fa_view = False\<rparr>"

record class_attrs =
  ca_packed :: bool
  ca_alignment :: "32 word"
  ca_section :: string

datatype (plugins only: code size) ast_type =
    NullTy ptr
  | PrimitiveTy Scalar ptr
  | AnyTy ptr
  | PointerTy "ast_type option" ptr
  | ReferenceTy "ast_type option" ptr
  | ArrayTy "ast_type option" expr ptr
  | SliceTy "ast_type option" ptr
  | MapTy "ast_type option" "ast_type option" ptr
  | ClosureTy "ast_type option" "ast_type list" ptr
  | FunctionTy "ast_type option" "ast_type list" bool bool ptr
  | NamedTy string "(ast_type \<times> Variance) list" ptr
  | NullableTy "ast_type option" ptr
  | LockTy ast_type ptr
  | ViewTy ast_type ptr
  | MutTy ast_type ptr
  | VolatileTy "ast_type option" ptr
  | ConstTy "ast_type option" ptr
  | WeakTy ast_type ptr
  | DecimalTy "32 word" "32 word" ptr
  | PromiseTy ast_type ptr
  | EnumTy string "string list" ptr
and expr =
    IntegerLit "64 word" NumericSuffix ptr
  | FloatLit "64 word" NumericSuffix ptr
  | DecimalLit string ptr
  | StringExpr string_literal
  | BoolLit bool ptr
  | NullLit ptr
  | CharLit char ptr
  | ArrayLit "expr option list" ptr
  | MapLit "(expr option \<times> expr option) list" ptr
  | BinaryExpr "expr option" TokenKind "expr option" ptr
  | UnaryExpr TokenKind "expr option" bool ptr
  | TernaryExpr expr expr expr ptr
  | CastExpr ast_type expr ptr
  | BitcastExpr ast_type expr ptr
  | IdentifierExpr string ptr
  | CallExpr expr "expr option list" ptr
  | MemberExpr expr string bool ptr
  | IndexExpr expr "expr option" bool ptr
  | LambdaExpr "(ast_type \<times> string \<times> expr option) list" stmt bool CaptureMode bool ptr
  | NewExpr ast_type "expr list" ptr
  | TemplateStringExpr "expr list" ptr
  | ThreadExpr bool expr ptr
  | ThisExpr ptr
  | SuperExpr ptr
  | AwaitExpr "expr option" ptr
  | SizeOfExpr "expr option" ptr
  | InputExpr "expr option" ptr
  | AsmExpr string "(string \<times> expr option) list" "(string \<times> expr option) list" "(string \<times> expr option) list"
      "string list" bool "ast_type option" ptr
and stmt =
    BlockStmt "stmt list" ptr
  | ExpressionStmt expr ptr
  | DeclStmt "decl option" ptr
  | ReturnStmt "expr option" ptr
  | BreakStmt ptr
  | ContinueStmt ptr
  | IfStmt "expr option" "stmt option" "stmt option" ptr
  | WhileStmt "expr option" "stmt option" ptr
  | DoWhileStmt "stmt option" "expr option" ptr
  | ForStmt "stmt option" "expr option" "expr option" "stmt option" ptr
  | ForInStmt "decl option" "decl option" "expr option" "stmt option" ptr
  | SwitchStmt "expr option" "(expr option list \<times> stmt \<times> bool) list" ptr
  | DeferStmt "stmt option" ptr
  | UnsafeBlockStmt "stmt list" ptr
  | TryCatchStmt stmt "(decl option \<times> stmt \<times> ptr) list" "stmt option" ptr
  | ThrowStmt "expr option" ptr
  | LockStmt "expr option" stmt bool ptr
and decl =
    VariableDecl "ast_type option" string "expr option" var_attrs ptr
  | FunctionDecl string "(string \<times> ast_type option \<times> ptr \<times> expr option) list" "ast_type" "stmt option" fun_attrs ptr
  | ClassDecl string "string list" "decl option list" bool AggregateKind class_attrs ptr
  | GenericDecl string "(string \<times> bool \<times> ptr) list" decl ptr
  | ImportDecl string string "(string \<times> string) list" ptr
  | EnumDecl string "(string \<times> expr option) list" ptr
  | MacroDecl string "string list" "stmt list" bool ptr
  | UsingDecl string "ast_type option" ptr

datatype module_decl = ModuleDecl string "decl list" ptr

subsection \<open>Accessors\<close>

fun type_getLoc :: "ast_type \<Rightarrow> ptr" where
  "type_getLoc (NullTy l) = l"
| "type_getLoc (PrimitiveTy s l) = l"
| "type_getLoc (AnyTy l) = l"
| "type_getLoc (PointerTy t l) = l"
| "type_getLoc (ReferenceTy t l) = l"
| "type_getLoc (ArrayTy t e l) = l"
| "type_getLoc (SliceTy t l) = l"
| "type_getLoc (MapTy k v l) = l"
| "type_getLoc (ClosureTy r ps l) = l"
| "type_getLoc (FunctionTy r ps v i l) = l"
| "type_getLoc (NamedTy n as l) = l"
| "type_getLoc (NullableTy t l) = l"
| "type_getLoc (LockTy t l) = l"
| "type_getLoc (ViewTy t l) = l"
| "type_getLoc (MutTy t l) = l"
| "type_getLoc (VolatileTy t l) = l"
| "type_getLoc (ConstTy t l) = l"
| "type_getLoc (WeakTy t l) = l"
| "type_getLoc (DecimalTy p s l) = l"
| "type_getLoc (PromiseTy t l) = l"
| "type_getLoc (EnumTy n ms l) = l"

fun expr_getLoc :: "expr \<Rightarrow> ptr" where
  "expr_getLoc (IntegerLit v s l) = l"
| "expr_getLoc (FloatLit v s l) = l"
| "expr_getLoc (DecimalLit v l) = l"
| "expr_getLoc (StringExpr s) = (case s of StringLit v t l \<Rightarrow> l)"
| "expr_getLoc (BoolLit v l) = l"
| "expr_getLoc (NullLit l) = l"
| "expr_getLoc (CharLit v l) = l"
| "expr_getLoc (ArrayLit es l) = l"
| "expr_getLoc (MapLit es l) = l"
| "expr_getLoc (BinaryExpr a op b l) = l"
| "expr_getLoc (UnaryExpr op a p l) = l"
| "expr_getLoc (TernaryExpr c a b l) = l"
| "expr_getLoc (CastExpr t e l) = l"
| "expr_getLoc (BitcastExpr t e l) = l"
| "expr_getLoc (IdentifierExpr n l) = l"
| "expr_getLoc (CallExpr c as l) = l"
| "expr_getLoc (MemberExpr e n opt l) = l"
| "expr_getLoc (IndexExpr e i opt l) = l"
| "expr_getLoc (LambdaExpr ps b x m a l) = l"
| "expr_getLoc (NewExpr t as l) = l"
| "expr_getLoc (TemplateStringExpr ps l) = l"
| "expr_getLoc (ThreadExpr w b l) = l"
| "expr_getLoc (ThisExpr l) = l"
| "expr_getLoc (SuperExpr l) = l"
| "expr_getLoc (AwaitExpr e l) = l"
| "expr_getLoc (SizeOfExpr e l) = l"
| "expr_getLoc (InputExpr e l) = l"
| "expr_getLoc (AsmExpr s os ins ios cl v t l) = l"

fun decl_getLoc :: "decl \<Rightarrow> ptr" where
  "decl_getLoc (VariableDecl t n e a l) = l"
| "decl_getLoc (FunctionDecl n ps r b a l) = l"
| "decl_getLoc (ClassDecl n ps ms r k a l) = l"
| "decl_getLoc (GenericDecl n ps d l) = l"
| "decl_getLoc (ImportDecl n al ss l) = l"
| "decl_getLoc (EnumDecl n cs l) = l"
| "decl_getLoc (MacroDecl n ps b f l) = l"
| "decl_getLoc (UsingDecl n t l) = l"

fun decl_getName :: "decl \<Rightarrow> string" where
  "decl_getName (VariableDecl t n e a l) = n"
| "decl_getName (FunctionDecl n ps r b a l) = n"
| "decl_getName (ClassDecl n ps ms r k a l) = n"
| "decl_getName (GenericDecl n ps d l) = n"
| "decl_getName (ImportDecl n al ss l) = n"
| "decl_getName (EnumDecl n cs l) = n"
| "decl_getName (MacroDecl n ps b f l) = n"
| "decl_getName (UsingDecl n t l) = n"

fun type_isImmutable :: "ast_type \<Rightarrow> bool" where
  "type_isImmutable (ViewTy t l) = True"
| "type_isImmutable (ConstTy t l) = True"
| "type_isImmutable _ = False"

fun isVolatileTy :: "ast_type \<Rightarrow> bool" where
  "isVolatileTy (VolatileTy t l) = True"
| "isVolatileTy _ = False"

fun isNullableTy :: "ast_type \<Rightarrow> bool" where
  "isNullableTy (NullableTy t l) = True"
| "isNullableTy _ = False"

text \<open>The types a \<open>weak\<close> variable of which is an ARC reference.\<close>

fun isObjectTy :: "ast_type \<Rightarrow> bool" where
  "isObjectTy (PointerTy t l) = True"
| "isObjectTy (ReferenceTy t l) = True"
| "isObjectTy (NamedTy n as l) = True"
| "isObjectTy _ = False"

text \<open>\<open>VariableDecl::isConstVar\<close>\<close>

fun isConstVar :: "ast_type option \<Rightarrow> var_attrs \<Rightarrow> bool" where
  "isConstVar t a = (va_const a \<or> (case t of Some (ViewTy u l) \<Rightarrow> True | Some (ConstTy u l) \<Rightarrow> True | _ \<Rightarrow> False))"

text \<open>The attributes \<open>VariableDecl::clone\<close> and \<open>FunctionDecl::clone\<close> give the copy.\<close>

definition cloneVarAttrs :: "ast_type option \<Rightarrow> var_attrs \<Rightarrow> var_attrs" where
  "cloneVarAttrs t a = (mkVarAttrs (isConstVar t a) (va_static a) (va_shared a) (va_vis a))
     \<lparr>va_volatile := va_volatile a, va_extern := va_extern a, va_alignment := va_alignment a,
      va_section := va_section a, va_used := va_used a, va_threadLocal := va_threadLocal a,
      va_weakLinkage := va_weakLinkage a, va_bitWidth := va_bitWidth a\<rparr>"

definition cloneFunAttrs :: "fun_attrs \<Rightarrow> fun_attrs" where
  "cloneFunAttrs a = (mkFunAttrs (fa_async a) (fa_static a) (fa_variadic a) (fa_weak a) (fa_vis a))
     \<lparr>fa_extern := fa_extern a, fa_externLinkage := fa_externLinkage a, fa_interrupt := fa_interrupt a,
      fa_naked := fa_naked a, fa_noReturn := fa_noReturn a, fa_noInline := fa_noInline a, fa_used := fa_used a,
      fa_section := fa_section a, fa_virtual := fa_virtual a, fa_override := fa_override a,
      fa_inline := fa_inline a, fa_pure := fa_pure a, fa_cold := fa_cold a\<rparr>"

text \<open>
  A child the code dereferences without a test, and a child it tests first.  A list of children is
  copied front to back.
\<close>

definition deref :: "('a \<Rightarrow> 'b option) \<Rightarrow> 'a option \<Rightarrow> 'b option option" where
  "deref f x = (case x of None \<Rightarrow> None | Some a \<Rightarrow> map_option Some (f a))"

definition ifset :: "('a \<Rightarrow> 'b option) \<Rightarrow> 'a option \<Rightarrow> 'b option option" where
  "ifset f x = (case x of None \<Rightarrow> Some None | Some a \<Rightarrow> map_option Some (f a))"

definition each :: "('a \<Rightarrow> 'b option) \<Rightarrow> 'a list \<Rightarrow> 'b list option" where
  "each f xs = those (map f xs)"

lemma deref_cong [fundef_cong]:
  "x = y \<Longrightarrow> (\<And>a. y = Some a \<Longrightarrow> f a = g a) \<Longrightarrow> deref f x = deref g y"
  by (cases y) (simp_all add: deref_def)

lemma ifset_cong [fundef_cong]:
  "x = y \<Longrightarrow> (\<And>a. y = Some a \<Longrightarrow> f a = g a) \<Longrightarrow> ifset f x = ifset g y"
  by (cases y) (simp_all add: ifset_def)

lemma each_cong [fundef_cong]:
  "xs = ys \<Longrightarrow> (\<And>a. a \<in> set ys \<Longrightarrow> f a = g a) \<Longrightarrow> each f xs = each g ys"
  by (simp add: each_def cong: map_cong)

text \<open>
  \<open>clone()\<close> of every node class; \<open>None\<close> is a null pointer that is dereferenced.  The copy of a function
  has the default ABI and is no \<open>view\<close> method.
\<close>

fun type_clone :: "ast_type \<Rightarrow> ast_type option"
  and expr_clone :: "expr \<Rightarrow> expr option"
  and stmt_clone :: "stmt \<Rightarrow> stmt option"
  and decl_clone :: "decl \<Rightarrow> decl option" where
  "type_clone (NullTy l) = Some (NullTy l)"
| "type_clone (PrimitiveTy s l) = Some (PrimitiveTy s l)"
| "type_clone (AnyTy l) = Some (AnyTy l)"
| "type_clone (PointerTy t l) = do { u \<leftarrow> deref type_clone t; Some (PointerTy u l) }"
| "type_clone (ReferenceTy t l) = do { u \<leftarrow> deref type_clone t; Some (ReferenceTy u l) }"
| "type_clone (ArrayTy t e l) = do { f \<leftarrow> expr_clone e; u \<leftarrow> deref type_clone t; Some (ArrayTy u f l) }"
| "type_clone (SliceTy t l) = do { u \<leftarrow> deref type_clone t; Some (SliceTy u l) }"
| "type_clone (MapTy k v l) = do { k' \<leftarrow> deref type_clone k; v' \<leftarrow> deref type_clone v; Some (MapTy k' v' l) }"
| "type_clone (ClosureTy r ps l) = do { qs \<leftarrow> each type_clone ps; s \<leftarrow> deref type_clone r; Some (ClosureTy s qs l) }"
| "type_clone (FunctionTy r ps v i l) =
     do { qs \<leftarrow> each type_clone ps; s \<leftarrow> deref type_clone r; Some (FunctionTy s qs v i l) }"
| "type_clone (NamedTy n as l) =
     do { bs \<leftarrow> each (\<lambda>(t, v). do { u \<leftarrow> type_clone t; Some (u, v) }) as; Some (NamedTy n bs l) }"
| "type_clone (NullableTy t l) = do { u \<leftarrow> deref type_clone t; Some (NullableTy u l) }"
| "type_clone (LockTy t l) = do { u \<leftarrow> type_clone t; Some (LockTy u l) }"
| "type_clone (ViewTy t l) = do { u \<leftarrow> type_clone t; Some (ViewTy u l) }"
| "type_clone (MutTy t l) = do { u \<leftarrow> type_clone t; Some (MutTy u l) }"
| "type_clone (VolatileTy t l) = do { u \<leftarrow> deref type_clone t; Some (VolatileTy u l) }"
| "type_clone (ConstTy t l) = do { u \<leftarrow> deref type_clone t; Some (ConstTy u l) }"
| "type_clone (WeakTy t l) = do { u \<leftarrow> type_clone t; Some (WeakTy u l) }"
| "type_clone (DecimalTy p s l) = Some (DecimalTy p s l)"
| "type_clone (PromiseTy t l) = do { u \<leftarrow> type_clone t; Some (PromiseTy u l) }"
| "type_clone (EnumTy n ms l) = Some (EnumTy n ms l)"
| "expr_clone (IntegerLit v s l) = Some (IntegerLit v s l)"
| "expr_clone (FloatLit v s l) = Some (FloatLit v s l)"
| "expr_clone (DecimalLit v l) = Some (DecimalLit v l)"
| "expr_clone (StringExpr s) = Some (StringExpr s)"
| "expr_clone (BoolLit v l) = Some (BoolLit v l)"
| "expr_clone (NullLit l) = Some (NullLit l)"
| "expr_clone (CharLit v l) = Some (CharLit v l)"
| "expr_clone (ArrayLit es l) = do { fs \<leftarrow> each (deref expr_clone) es; Some (ArrayLit fs l) }"
| "expr_clone (MapLit es l) =
     do { fs \<leftarrow> each (\<lambda>(k, v). do { k' \<leftarrow> deref expr_clone k; v' \<leftarrow> deref expr_clone v; Some (k', v') }) es;
          Some (MapLit fs l) }"
| "expr_clone (BinaryExpr a op b l) =
     do { a' \<leftarrow> deref expr_clone a; b' \<leftarrow> deref expr_clone b; Some (BinaryExpr a' op b' l) }"
| "expr_clone (UnaryExpr op a p l) = do { a' \<leftarrow> deref expr_clone a; Some (UnaryExpr op a' p l) }"
| "expr_clone (TernaryExpr c a b l) =
     do { c' \<leftarrow> expr_clone c; a' \<leftarrow> expr_clone a; b' \<leftarrow> expr_clone b; Some (TernaryExpr c' a' b' l) }"
| "expr_clone (CastExpr t e l) = do { u \<leftarrow> type_clone t; f \<leftarrow> expr_clone e; Some (CastExpr u f l) }"
| "expr_clone (BitcastExpr t e l) = do { u \<leftarrow> type_clone t; f \<leftarrow> expr_clone e; Some (BitcastExpr u f l) }"
| "expr_clone (IdentifierExpr n l) = Some (IdentifierExpr n l)"
| "expr_clone (CallExpr c as l) =
     do { bs \<leftarrow> each (deref expr_clone) as; c' \<leftarrow> expr_clone c; Some (CallExpr c' bs l) }"
| "expr_clone (MemberExpr e n opt l) = do { f \<leftarrow> expr_clone e; Some (MemberExpr f n opt l) }"
| "expr_clone (IndexExpr e i opt l) =
     do { f \<leftarrow> expr_clone e; j \<leftarrow> deref expr_clone i; Some (IndexExpr f j opt l) }"
| "expr_clone (LambdaExpr ps b x m a l) =
     do { qs \<leftarrow> each (\<lambda>(t, n, d). do { u \<leftarrow> type_clone t; d' \<leftarrow> ifset expr_clone d; Some (u, n, d') }) ps;
          b' \<leftarrow> stmt_clone b;
          Some (LambdaExpr qs b' x m a l) }"
| "expr_clone (NewExpr t as l) =
     do { bs \<leftarrow> each expr_clone as; u \<leftarrow> type_clone t; Some (NewExpr u bs l) }"
| "expr_clone (TemplateStringExpr ps l) = do { qs \<leftarrow> each expr_clone ps; Some (TemplateStringExpr qs l) }"
| "expr_clone (ThreadExpr w b l) = do { b' \<leftarrow> expr_clone b; Some (ThreadExpr w b' l) }"
| "expr_clone (ThisExpr l) = Some (ThisExpr l)"
| "expr_clone (SuperExpr l) = Some (SuperExpr l)"
| "expr_clone (AwaitExpr e l) = do { f \<leftarrow> deref expr_clone e; Some (AwaitExpr f l) }"
| "expr_clone (SizeOfExpr e l) = do { f \<leftarrow> deref expr_clone e; Some (SizeOfExpr f l) }"
| "expr_clone (InputExpr e l) = do { f \<leftarrow> ifset expr_clone e; Some (InputExpr f l) }"
| "expr_clone (AsmExpr s os ins ios cl v t l) =
     do { os' \<leftarrow> each (\<lambda>(c, e). do { f \<leftarrow> ifset expr_clone e; Some (c, f) }) os;
          ins' \<leftarrow> each (\<lambda>(c, e). do { f \<leftarrow> ifset expr_clone e; Some (c, f) }) ins;
          ios' \<leftarrow> each (\<lambda>(c, e). do { f \<leftarrow> ifset expr_clone e; Some (c, f) }) ios;
          Some (AsmExpr s os' ins' ios' cl v t l) }"
| "stmt_clone (BlockStmt ss l) = do { ts \<leftarrow> each stmt_clone ss; Some (BlockStmt ts l) }"
| "stmt_clone (ExpressionStmt e l) = do { f \<leftarrow> expr_clone e; Some (ExpressionStmt f l) }"
| "stmt_clone (DeclStmt d l) = do { d' \<leftarrow> deref decl_clone d; Some (DeclStmt d' l) }"
| "stmt_clone (ReturnStmt e l) = do { f \<leftarrow> ifset expr_clone e; Some (ReturnStmt f l) }"
| "stmt_clone (BreakStmt l) = Some (BreakStmt l)"
| "stmt_clone (ContinueStmt l) = Some (ContinueStmt l)"
| "stmt_clone (IfStmt c a b l) =
     do { c' \<leftarrow> deref expr_clone c; a' \<leftarrow> deref stmt_clone a; b' \<leftarrow> ifset stmt_clone b; Some (IfStmt c' a' b' l) }"
| "stmt_clone (WhileStmt c b l) =
     do { c' \<leftarrow> deref expr_clone c; b' \<leftarrow> deref stmt_clone b; Some (WhileStmt c' b' l) }"
| "stmt_clone (DoWhileStmt b c l) =
     do { b' \<leftarrow> deref stmt_clone b; c' \<leftarrow> deref expr_clone c; Some (DoWhileStmt b' c' l) }"
| "stmt_clone (ForStmt i c u b l) =
     do { i' \<leftarrow> ifset stmt_clone i; c' \<leftarrow> ifset expr_clone c; u' \<leftarrow> ifset expr_clone u; b' \<leftarrow> deref stmt_clone b;
          Some (ForStmt i' c' u' b' l) }"
| "stmt_clone (ForInStmt v i c b l) =
     do { v' \<leftarrow> deref decl_clone v; i' \<leftarrow> ifset decl_clone i; c' \<leftarrow> deref expr_clone c; b' \<leftarrow> deref stmt_clone b;
          Some (ForInStmt v' i' c' b' l) }"
| "stmt_clone (SwitchStmt c cs l) =
     do { cs' \<leftarrow> each (\<lambda>(vs, b, d). do { vs' \<leftarrow> each (deref expr_clone) vs; b' \<leftarrow> stmt_clone b; Some (vs', b', d) }) cs;
          c' \<leftarrow> deref expr_clone c;
          Some (SwitchStmt c' cs' l) }"
| "stmt_clone (DeferStmt s l) = do { s' \<leftarrow> deref stmt_clone s; Some (DeferStmt s' l) }"
| "stmt_clone (UnsafeBlockStmt ss l) = do { ts \<leftarrow> each stmt_clone ss; Some (UnsafeBlockStmt ts l) }"
| "stmt_clone (TryCatchStmt b cs f l) =
     do { cs' \<leftarrow> each (\<lambda>(v, s, k). do { v' \<leftarrow> ifset decl_clone v; s' \<leftarrow> stmt_clone s; Some (v', s', k) }) cs;
          b' \<leftarrow> stmt_clone b;
          f' \<leftarrow> ifset stmt_clone f;
          Some (TryCatchStmt b' cs' f' l) }"
| "stmt_clone (ThrowStmt e l) = do { f \<leftarrow> ifset expr_clone e; Some (ThrowStmt f l) }"
| "stmt_clone (LockStmt e b a l) = do { f \<leftarrow> ifset expr_clone e; b' \<leftarrow> stmt_clone b; Some (LockStmt f b' a l) }"
| "decl_clone (VariableDecl t n e a l) =
     do { u \<leftarrow> deref type_clone t; f \<leftarrow> ifset expr_clone e; Some (VariableDecl u n f (cloneVarAttrs t a) l) }"
| "decl_clone (FunctionDecl n ps r b a l) =
     do { qs \<leftarrow> each (\<lambda>(m, t, k, d). do { u \<leftarrow> deref type_clone t; d' \<leftarrow> ifset expr_clone d; Some (m, u, k, d') }) ps;
          r' \<leftarrow> type_clone r;
          b' \<leftarrow> ifset stmt_clone b;
          Some (FunctionDecl n qs r' b' (cloneFunAttrs a) l) }"
| "decl_clone (ClassDecl n ps ms r k a l) =
     do { ms' \<leftarrow> each (deref decl_clone) ms; Some (ClassDecl n ps ms' r k a l) }"
| "decl_clone (GenericDecl n ps d l) = do { d' \<leftarrow> decl_clone d; Some (GenericDecl n ps d' l) }"
| "decl_clone (ImportDecl n al ss l) = Some (ImportDecl n al ss l)"
| "decl_clone (EnumDecl n cs l) =
     do { cs' \<leftarrow> each (\<lambda>(c, e). do { f \<leftarrow> ifset expr_clone e; Some (c, f) }) cs; Some (EnumDecl n cs' l) }"
| "decl_clone (MacroDecl n ps b f l) = do { b' \<leftarrow> each stmt_clone b; Some (MacroDecl n ps b' f l) }"
| "decl_clone (UsingDecl n t l) = do { u \<leftarrow> deref type_clone t; Some (UsingDecl n u l) }"

end
