(* ===== verification/ParserLook.thy ===== *)
theory ParserLook
  imports AST "HOL-Library.Monad_Syntax"
begin

text \<open>
  What the parser reads ahead of its two tokens (\<open>Parser::isStartOfDeclaration\<close>): it scans the source
  bytes from the current token on.  The buffer ends in a NUL byte.
\<close>

definition byteAt :: "bytes \<Rightarrow> ptr \<Rightarrow> char" where
  "byteAt b p = (if p < length b then b ! p else NUL)"

definition blank :: "char \<Rightarrow> bool" where
  "blank c \<longleftrightarrow> c = CHR '' '' \<or> c = CHR 0x09 \<or> c = CHR 0x0D \<or> c = CHR 0x0A"

definition letter :: "char \<Rightarrow> bool" where
  "letter c \<longleftrightarrow> isalpha c \<or> c = CHR ''_''"

definition wordChar :: "char \<Rightarrow> bool" where
  "wordChar c \<longleftrightarrow> letter c \<or> isdigit c"

definition skipBlanks :: "bytes \<Rightarrow> ptr \<Rightarrow> ptr" where
  "skipBlanks b p = advance_while blank b p"

definition skipWord :: "bytes \<Rightarrow> ptr \<Rightarrow> ptr" where
  "skipWord b p = advance_while wordChar b p"

text \<open>
  The position behind the bracket that closes the one at \<open>p\<close>; \<open>None\<close> if a stop byte or the end of the
  buffer comes first.
\<close>

function closing :: "char \<Rightarrow> char \<Rightarrow> (char \<Rightarrow> bool) \<Rightarrow> bytes \<Rightarrow> ptr \<Rightarrow> int \<Rightarrow> ptr option" where
  "closing op cl stop b p depth =
     (if p < length b \<and> b ! p \<noteq> NUL \<and> \<not> stop (b ! p) then
        (if b ! p = op then closing op cl stop b (Suc p) (depth + 1)
         else if b ! p = cl then
           (if depth - 1 = 0 then Some (Suc p) else closing op cl stop b (Suc p) (depth - 1))
         else closing op cl stop b (Suc p) depth)
      else None)"
  by pat_completeness auto
termination
  by (relation "measure (\<lambda>(op, cl, stop, b, p, d). length b - p)") auto

declare closing.simps [simp del]

definition lineEnd :: "char \<Rightarrow> bool" where
  "lineEnd c \<longleftrightarrow> c = CHR '';'' \<or> c = CHR 0x0A"

text \<open>\<open>(Type) => ReturnType\<close>: the answer, or \<open>None\<close> if the parenthesis is not closed on the line.\<close>

definition functionPointerAhead :: "bytes \<Rightarrow> ptr \<Rightarrow> bool option" where
  "functionPointerAhead b p =
     (case closing CHR ''('' CHR '')'' lineEnd b p 0 of
        None \<Rightarrow> None
      | Some q \<Rightarrow> (let r = skipBlanks b q in Some (byteAt b r = CHR ''='' \<and> byteAt b (r + 1) = CHR ''>'')))"

text \<open>The chain of \<open>.name\<close> behind a name.\<close>

function skipDots :: "bytes \<Rightarrow> ptr \<Rightarrow> ptr" where
  "skipDots b p =
     (let t = skipBlanks b p
      in if t < length b \<and> b ! t = CHR ''.'' then
           (let u = skipBlanks b (t + 1)
            in if letter (byteAt b u) then skipDots b (skipWord b u) else p)
         else p)"
  by pat_completeness auto
termination
proof (relation "measure (\<lambda>(b, p). length b - p)")
  fix b p t u
  assume a: "t = skipBlanks b p" "t < length b \<and> b ! t = CHR ''.''" "u = skipBlanks b (t + 1)" "letter (byteAt b u)"
  have "p \<le> t" "t + 1 \<le> u" "u \<le> skipWord b u"
    unfolding a(1,3) skipBlanks_def skipWord_def by (rule advance_while_ge)+
  then show "((b, skipWord b u), b, p) \<in> measure (\<lambda>(b, p). length b - p)" using a(2) by auto
qed simp

declare skipDots.simps [simp del]

text \<open>
  \<open>Type[] Name\<close>, \<open>Type? Name\<close>, \<open>Type* Name\<close>: the suffixes behind a type name are skipped.  The inner
  loop over brackets stops when as many are closed as opened.
\<close>

function skipBrackets :: "bytes \<Rightarrow> ptr \<Rightarrow> int \<Rightarrow> ptr" where
  "skipBrackets b p depth =
     (if p < length b \<and> b ! p \<noteq> NUL then
        (let d = (if b ! p = CHR ''['' then depth + 1 else if b ! p = CHR '']'' then depth - 1 else depth)
         in if d = 0 then Suc p else skipBrackets b (Suc p) d)
      else p)"
  by pat_completeness auto
termination
  by (relation "measure (\<lambda>(b, p, d). length b - p)") auto

declare skipBrackets.simps [simp del]

lemma skipBrackets_more: "p < length b \<Longrightarrow> b ! p = CHR ''['' \<Longrightarrow> p < skipBrackets b p d"
proof -
  have ge: "p \<le> skipBrackets b p d" for p d
    by (induction b p d rule: skipBrackets.induct) (subst skipBrackets.simps, auto simp: Let_def intro: Suc_leD)
  assume "p < length b" "b ! p = CHR ''[''"
  then show ?thesis using ge [of "Suc p" "d + 1"] by (subst skipBrackets.simps) (auto simp: Let_def NUL_def)
qed

function nameAfterSuffixes :: "bytes \<Rightarrow> ptr \<Rightarrow> bool" where
  "nameAfterSuffixes b p =
     (if p < length b \<and> b ! p \<noteq> NUL then
        (if b ! p = CHR ''['' then nameAfterSuffixes b (skipBrackets b p 0)
         else if blank (b ! p) then nameAfterSuffixes b (Suc p)
         else if b ! p = CHR ''?'' \<or> b ! p = CHR ''*'' then nameAfterSuffixes b (Suc p)
         else letter (b ! p))
      else False)"
  by pat_completeness auto
termination
proof (relation "measure (\<lambda>(b, p). length b - p)")
  fix b p
  assume "p < length b \<and> b ! p \<noteq> NUL" "b ! p = CHR ''[''"
  then show "((b, skipBrackets b p 0), b, p) \<in> measure (\<lambda>(b, p). length b - p)"
    using skipBrackets_more [of p b 0] by auto
qed auto

declare nameAfterSuffixes.simps [simp del]

definition identifierDecl :: "bytes \<Rightarrow> ptr \<Rightarrow> bool" where
  "identifierDecl b p =
     (let q = skipBlanks b (skipDots b (skipWord b p))
      in if letter (byteAt b q) then True
         else if byteAt b q = CHR ''<'' then
           (case closing CHR ''<'' CHR ''>'' lineEnd b q 0 of
              None \<Rightarrow> False
            | Some r \<Rightarrow> letter (byteAt b (skipBlanks b r)))
         else nameAfterSuffixes b q)"

definition prefixTypeWords :: "string list" where
  "prefixTypeWords = [''mut'', ''const'', ''lock'', ''view'', ''int'', ''float'', ''double'', ''bool'',
     ''string'', ''char'', ''short'', ''long'', ''isize'', ''usize'', ''half'', ''quarter'', ''void'', ''any'',
     ''unsigned'', ''volatile'', ''decimal'']"

text \<open>
  Behind a prefix \<open>*\<close>, \<open>**\<close> or \<open>&\<close>.  When the template arguments are not closed on the line the scan
  stops where the line does.
\<close>

definition prefixDecl :: "bytes \<Rightarrow> ptr \<Rightarrow> bool" where
  "prefixDecl b p =
     (let q = advance_while (\<lambda>c. c = CHR ''*'' \<or> c = CHR ''&'' \<or> blank c) b p;
          r = skipWord b q;
          word = take (r - q) (drop q b);
          s = (if byteAt b r = CHR ''<'' then
                 (case closing CHR ''<'' CHR ''>'' lineEnd b r 0 of
                    Some s \<Rightarrow> s
                  | None \<Rightarrow> advance_while (\<lambda>c. c \<noteq> NUL \<and> \<not> lineEnd c) b r)
               else r)
      in word \<in> set prefixTypeWords \<or> letter (byteAt b (skipBlanks b s)))"

definition declKeywords :: "TokenKind list" where
  "declKeywords =
     [ConcKw KwImport, ConcKw KwFrom, DataKw KwGeneric, DataKw KwEnum, CoreKw KwClass, DataKw KwStruct,
      DataKw KwUnion, CoreKw KwRef, CoreKw KwThread, DataKw KwTable, CoreKw KwUnsigned, CoreKw KwWeak,
      ConcKw KwAsync, CoreKw KwShared, ConcKw KwMacro, ModKw KwConst, ModKw KwStatic, ModKw KwPublic,
      ModKw KwPrivate, ModKw KwProtected, AsmKw KwExtern, AsmKw KwUsing, LowKw KwPacked, LowKw KwAlign,
      AsmKw KwSection, LowKw KwInterrupt, LowKw KwNaked, LowKw KwNoreturn, LowKw KwNoinline,
      LowKw KwVolatile, LowKw KwInline, LowKw KwPure, LowKw KwCold, BorrowKw KwLock, BorrowKw KwView,
      BorrowKw KwMut, AsmKw KwUsed, AsmKw KwThreadLocal]"

definition primitiveKeywords :: "TokenKind list" where
  "primitiveKeywords =
     [PrimKw KwInt, PrimKw KwFloat, PrimKw KwBool, PrimKw KwString, PrimKw KwVoid, PrimKw KwAny,
      PrimKw KwChar, PrimKw KwISize, PrimKw KwUSize, PrimKw KwShort, PrimKw KwLong, PrimKw KwDouble,
      PrimKw KwHalf, PrimKw KwQuarter, CoreKw KwUnsigned, PrimKw KwDecimal, ModKw KwPromise]"

definition isStartOfDeclaration :: "parser \<Rightarrow> bool" where
  "isStartOfDeclaration P =
     (let c = curTok P; n = nextTok P; b = p_buffer P; p = tok_location c
      in if isAny c declKeywords then
           \<not> (is_kind c (BorrowKw KwLock) \<and> (is_kind n (Bracket LBrace) \<or> is_kind n (Bracket LParen)) \<or>
              isAny c [BorrowKw KwView, BorrowKw KwMut] \<and> is_kind n (Bracket LBrace) \<or>
              is_kind c (ConcKw KwAsync) \<and> is_kind n (BorrowKw KwLock))
         else if is_kind c (OopKw KwClosure) then True
         else if is_kind c (Bracket LParen) then
           (case functionPointerAhead b p of Some r \<Rightarrow> r | None \<Rightarrow> False)
         else if isAny c primitiveKeywords then \<not> is_kind n (Bracket LParen)
         else if is_kind c Identifier then identifierDecl b p
         else if isAny c [MathOp Star, MathOp Power, BitOp Amp] then prefixDecl b p
         else False)"

end
