(* ===== verification/ParserExpr.thy ===== *)
theory ParserExpr
  imports ParserLook
begin

text \<open>
  The grammar of types and expressions (\<open>lib/frontend/parser/Parser.cpp\<close>, \<open>parseExpression\<close> to
  \<open>parseClosureType\<close>).  A method is a function of the parser that returns its result and the parser
  after it; \<open>None\<close> is a call that does not return: an endless loop, an uncaught exception or undefined
  behaviour.  A null pointer it returns is \<open>None\<close> inside the result.

  The methods call each other recursively.  Each is defined over the record \<open>R\<close> of the methods it calls
  recursively; the knot is tied in \<open>ParserModule\<close>.  \<open>std::stod\<close>, the UTF-8 routines and
  the order in which the compiler evaluates the arguments of a call are the record \<open>C\<close>.
\<close>

record plib =
  pl_utf8 :: utf8_lib
  pl_conv :: utf8_encode
  pl_stod :: "bytes \<Rightarrow> 64 word option"
  pl_argsRightToLeft :: bool

type_synonym 'a parse = "parser \<Rightarrow> ('a \<times> parser) option"

record subs =
  rExpression :: "expr option parse"
  rTernary :: "expr option parse"
  rPower :: "expr option parse"
  rPrefix :: "expr option parse"
  rPrimary :: "expr option parse"
  rType :: "ast_type option parse"
  rStatement :: "stmt option parse"
  rDecls :: "decl list parse"

subsection \<open>Loops\<close>

text \<open>A loop whose body goes on with a new state (\<open>Inl\<close>) or leaves with a result (\<open>Inr\<close>).\<close>

partial_function (option) loop :: "('s \<Rightarrow> ('s + 'r) option) \<Rightarrow> 's \<Rightarrow> 'r option" where
  "loop step s = (case step s of None \<Rightarrow> None | Some (Inl t) \<Rightarrow> loop step t | Some (Inr r) \<Rightarrow> Some r)"

declare loop.simps [code]

text \<open>\<open>do { item } while (consumeIf(Comma))\<close>\<close>

definition commaStep :: "utf8_lib \<Rightarrow> 'a parse \<Rightarrow> 'a list \<times> parser \<Rightarrow> (('a list \<times> parser) + ('a list \<times> parser)) option" where
  "commaStep U item = (\<lambda>(acc, P). do {
     (x, P1) \<leftarrow> item P;
     (case consumeIf U (SyntaxOp Comma) P1 of
        (True, P2) \<Rightarrow> Some (Inl (acc @ [x], P2))
      | (False, P2) \<Rightarrow> Some (Inr (acc @ [x], P2)))})"

definition commaList :: "utf8_lib \<Rightarrow> 'a parse \<Rightarrow> 'a list parse" where
  "commaList U item P = loop (commaStep U item) ([], P)"

text \<open>\<open>while (curTok is none of ks) consume();\<close>\<close>

definition skipTo :: "utf8_lib \<Rightarrow> TokenKind list \<Rightarrow> parser \<Rightarrow> parser option" where
  "skipTo U ks = loop (\<lambda>P. if isAny (curTok P) ks then Some (Inr P) else Some (Inl (consume U P)))"

definition expects :: "utf8_lib \<Rightarrow> TokenKind \<Rightarrow> parser \<Rightarrow> parser" where
  "expects U k P = snd (expect U k P)"

definition expectsGreater :: "utf8_lib \<Rightarrow> parser \<Rightarrow> parser" where
  "expectsGreater U P = snd (expectGreater U P)"

definition spelling :: "parser \<Rightarrow> string" where
  "spelling P = getSpelling (p_buffer P) (curTok P)"

definition location :: "parser \<Rightarrow> ptr" where
  "location P = tok_location (curTok P)"

definition at :: "parser \<Rightarrow> TokenKind \<Rightarrow> bool" where
  "at P k = is_kind (curTok P) k"

definition reportAt :: "ptr \<Rightarrow> DiagID \<Rightarrow> string \<Rightarrow> parser \<Rightarrow> parser" where
  "reportAt loc i message P =
     P\<lparr>p_lexer := (p_lexer P)\<lparr>Diags := report (Diags (p_lexer P)) loc i message\<rparr>\<rparr>"

text \<open>A string token without its quotes, as the attributes and \<open>asm\<close> read it.\<close>

definition unquote :: "string \<Rightarrow> string" where
  "unquote s = (if 2 \<le> length s then take (length s - 2) (drop 1 s) else s)"

definition stmtStep :: "utf8_lib \<Rightarrow> subs \<Rightarrow> TokenKind list \<Rightarrow> stmt list \<times> parser \<Rightarrow>
    ((stmt list \<times> parser) + (stmt list \<times> parser)) option" where
  "stmtStep U R ks = (\<lambda>(acc, P).
     if isAny (curTok P) ks then Some (Inr (acc, P))
     else do {
       (s, P1) \<leftarrow> rStatement R P;
       (case s of
          Some x \<Rightarrow> Some (Inl (acc @ [x], P1))
        | None \<Rightarrow> do { P2 \<leftarrow> synchronize U P1; Some (Inl (acc, P2)) })})"

definition statementsUntil :: "utf8_lib \<Rightarrow> subs \<Rightarrow> TokenKind list \<Rightarrow> stmt list parse" where
  "statementsUntil U R ks P = loop (stmtStep U R ks) ([], P)"

definition parseBlock :: "utf8_lib \<Rightarrow> subs \<Rightarrow> stmt parse" where
  "parseBlock U R P =
     do {
       (stmts, P1) \<leftarrow> statementsUntil U R [Bracket RBrace, Eof] (expects U (Bracket LBrace) P);
       Some (BlockStmt stmts (location P), expects U (Bracket RBrace) P1)}"

subsection \<open>Numbers\<close>

definition digitVal :: "char \<Rightarrow> nat" where
  "digitVal c =
     (if isdigit c then byte c - byte CHR ''0''
      else if in_range CHR ''a'' CHR ''z'' c then byte c - byte CHR ''a'' + 10
      else if in_range CHR ''A'' CHR ''Z'' c then byte c - byte CHR ''A'' + 10
      else 36)"

text \<open>
  \<open>strtoull\<close> and its relatives: sign and value of the longest prefix that is a number in the base, where
  base 0 is read off the prefix; \<open>None\<close> if there is no digit.
\<close>

definition strtoNum :: "nat \<Rightarrow> bytes \<Rightarrow> (bool \<times> nat) option" where
  "strtoNum base s =
     (let s1 = dropWhile isspace s;
          neg = (s1 \<noteq> [] \<and> hd s1 = CHR ''-'');
          s2 = (if s1 \<noteq> [] \<and> (hd s1 = CHR ''-'' \<or> hd s1 = CHR ''+'') then tl s1 else s1);
          hex = ((base = 0 \<or> base = 16) \<and> 2 < length s2 \<and> s2 ! 0 = CHR ''0'' \<and>
                 (s2 ! 1 = CHR ''x'' \<or> s2 ! 1 = CHR ''X'') \<and> isHexDigit (s2 ! 2));
          base1 = (if base = 0 then (if hex then 16 else if s2 \<noteq> [] \<and> hd s2 = CHR ''0'' then 8 else 10) else base);
          ds = takeWhile (\<lambda>c. digitVal c < base1) (if hex then drop 2 s2 else s2)
      in if ds = [] then None else Some (neg, foldl (\<lambda>a c. a * base1 + digitVal c) 0 ds))"

definition stoull :: "nat \<Rightarrow> bytes \<Rightarrow> 64 word option" where
  "stoull base s =
     (case strtoNum base s of
        None \<Rightarrow> None
      | Some (neg, n) \<Rightarrow> if n < 2 ^ 64 then Some (if neg then - of_nat n else of_nat n) else None)"

text \<open>
  A number read where only \<open>std::out_of_range\<close> is caught: without a digit the exception leaves the
  parser.  \<open>Some None\<close> is the caught exception.
\<close>

definition stoul10 :: "bytes \<Rightarrow> 64 word option option" where
  "stoul10 s = (case strtoNum 10 s of None \<Rightarrow> None | Some _ \<Rightarrow> Some (stoull 10 s))"

definition stoi10 :: "bytes \<Rightarrow> int option option" where
  "stoi10 s =
     (case strtoNum 10 s of
        None \<Rightarrow> None
      | Some (neg, n) \<Rightarrow>
          (let v = (if neg then - int n else int n)
           in Some (if - (2 ^ 31) \<le> v \<and> v < 2 ^ 31 then Some v else None)))"

definition stripUnderscores :: "bytes \<Rightarrow> bytes" where
  "stripUnderscores s = filter (\<lambda>c. c \<noteq> CHR ''_'') s"

definition outOfRangeText :: "bytes \<Rightarrow> string" where
  "outOfRangeText text = ''Integer literal '' @ quoted text @ '' is out of range for i64''"

definition radixPrefix :: "bytes \<Rightarrow> char \<Rightarrow> char \<Rightarrow> bool" where
  "radixPrefix text lo up \<longleftrightarrow> 2 \<le> length text \<and> text ! 0 = CHR ''0'' \<and> (text ! 1 = lo \<or> text ! 1 = up)"

definition integerValue :: "bytes \<Rightarrow> 64 word option" where
  "integerValue text =
     (if radixPrefix text CHR ''b'' CHR ''B'' then stoull 2 (drop 2 text)
      else if radixPrefix text CHR ''o'' CHR ''O'' then stoull 8 (drop 2 text)
      else stoull 0 text)"

definition parseIntegerLiteral :: "utf8_lib \<Rightarrow> parser \<Rightarrow> expr \<times> parser" where
  "parseIntegerLiteral U P =
     (let text = stripUnderscores (spelling P);
          isHexBinOct = (radixPrefix text CHR ''b'' CHR ''B'' \<or> radixPrefix text CHR ''o'' CHR ''O'' \<or>
                         radixPrefix text CHR ''x'' CHR ''X'');
          suffix = tok_suffix (curTok P);
          (val, P1) =
            (case integerValue text of
               Some v \<Rightarrow>
                 (v, if \<not> isHexBinOct \<and> suffix = NS_None \<and> v > 9223372036854775808
                     then reportAt (location P) err_type_mismatch (outOfRangeText text) P else P)
             | None \<Rightarrow> (0, reportAt (location P) err_type_mismatch (outOfRangeText text) P))
      in (IntegerLit val suffix (location P), consume U P1))"

definition parseFloatLiteral :: "plib \<Rightarrow> parser \<Rightarrow> expr \<times> parser" where
  "parseFloatLiteral C P =
     (let (val, P1) =
            (case pl_stod C (stripUnderscores (spelling P)) of
               Some v \<Rightarrow> (v, P)
             | None \<Rightarrow> (0, parseError ''Invalid float literal'' P))
      in (FloatLit val (tok_suffix (curTok P)) (location P), consume (pl_utf8 C) P1))"

definition parseDecimalLiteral :: "utf8_lib \<Rightarrow> parser \<Rightarrow> expr \<times> parser" where
  "parseDecimalLiteral U P = (DecimalLit (stripUnderscores (spelling P)) (location P), consume U P)"

text \<open>The hexadecimal loop of character literals takes any byte that is no digit as 0.\<close>

definition looseHex :: "char \<Rightarrow> nat" where
  "looseHex c = (if isHexDigit c then hexDigitValue c else 0)"

definition charEscape :: "bytes \<Rightarrow> parser \<Rightarrow> char \<times> parser" where
  "charEscape text P =
     (let e = text ! 2 in
      if e = CHR ''n'' then (CHR 0x0A, P)
      else if e = CHR ''t'' then (CHR 0x09, P)
      else if e = CHR ''b'' then (CHR 0x08, P)
      else if e = CHR ''r'' then (CHR 0x0D, P)
      else if e = CHR ''0'' then (CHR 0x00, P)
      else if e = CHR 0x5C then (CHR 0x5C, P)
      else if e = CHR 0x27 then (CHR 0x27, P)
      else if e = CHR ''x'' \<or> e = CHR ''u'' \<or> e = CHR ''U'' then
        (let hexLen = (if e = CHR ''x'' then 2 else if e = CHR ''u'' then 4 else 8)
         in if 3 + hexLen \<le> length text then
              (let intVal = foldl (\<lambda>a c. a * 16 + looseHex c) 0 (take hexLen (drop 3 text))
               in (char_of intVal,
                   if intVal > 255 then parseError ''Character literal too large for 'char' type'' P else P))
            else (CHR 0x00, parseError ''Invalid escape sequence length'' P))
      else (e, parseError ''Invalid escape sequence in char literal'' P))"

definition parseCharLiteral :: "utf8_lib \<Rightarrow> parser \<Rightarrow> expr \<times> parser" where
  "parseCharLiteral U P =
     (let text = spelling P;
          (val, P1) =
            (if 3 \<le> length text then
               (if text ! 1 = CHR 0x5C \<and> 4 \<le> length text then charEscape text P else (text ! 1, P))
             else (CHR 0x00, P))
      in (CharLit val (location P), consume U P1))"


subsection \<open>Types\<close>

text \<open>The simple types: one keyword, no recursion.\<close>

definition simpleType :: "bool \<Rightarrow> TokenKind \<Rightarrow> ptr \<Rightarrow> ast_type option" where
  "simpleType isUnsigned k loc =
     (if k = PrimKw KwInt then Some (PrimitiveTy (if isUnsigned then S_U32 else S_I32) loc)
      else if k = PrimKw KwShort then Some (PrimitiveTy (if isUnsigned then S_U16 else S_I16) loc)
      else if k = PrimKw KwLong then Some (PrimitiveTy (if isUnsigned then S_U64 else S_I64) loc)
      else if k = PrimKw KwChar then Some (PrimitiveTy (if isUnsigned then S_U8 else S_Char) loc)
      else if k = PrimKw KwFloat then Some (PrimitiveTy S_F32 loc)
      else if k = PrimKw KwDouble then Some (PrimitiveTy S_F64 loc)
      else if k = PrimKw KwISize then Some (PrimitiveTy S_ISize loc)
      else if k = PrimKw KwUSize then Some (PrimitiveTy S_USize loc)
      else if k = PrimKw KwBool then Some (PrimitiveTy S_Bool loc)
      else if k = PrimKw KwString then Some (PrimitiveTy S_String loc)
      else if k = PrimKw KwVoid then Some (PrimitiveTy S_Void loc)
      else if k = CoreKw KwNull then Some (NullTy loc)
      else if k = PrimKw KwAny then Some (AnyTy loc)
      else if k = PrimKw KwHalf then Some (PrimitiveTy S_F16 loc)
      else if k = PrimKw KwQuarter then Some (PrimitiveTy S_F8 loc)
      else if k = CoreKw KwThread then Some (NamedTy ''Thread'' [] loc)
      else None)"

text \<open>An inner type that must be there.\<close>

definition innerType :: "subs \<Rightarrow> (ast_type \<Rightarrow> ast_type) \<Rightarrow> parser \<Rightarrow> (ast_type option \<times> parser) option" where
  "innerType R f P = do { (t, P1) \<leftarrow> rType R P; Some (map_option f t, P1) }"

definition decimalNumber :: "utf8_lib \<Rightarrow> string \<Rightarrow> string \<Rightarrow> parser \<Rightarrow> (32 word \<times> parser) option" where
  "decimalNumber U tooLarge expected P =
     (if at P IntegerLiteral then
        (case stoul10 (spelling P) of
           None \<Rightarrow> None
         | Some (Some v) \<Rightarrow> Some (ucast v, consume U P)
         | Some None \<Rightarrow> Some (0, consume U (parseError tooLarge P)))
      else Some (0, parseError expected P))"

definition parseDecimalType :: "utf8_lib \<Rightarrow> ptr \<Rightarrow> parser \<Rightarrow> (ast_type \<times> parser) option" where
  "parseDecimalType U loc P =
     (case expect U (RelOp Less) (consume U P) of
        (False, P1) \<Rightarrow> Some (DecimalTy 0 0 loc, P1)
      | (True, P1) \<Rightarrow> do {
          (precision, P2) \<leftarrow> decimalNumber U ''Decimal precision is too large''
             ''Expected integer literal for decimal precision'' P1;
          (scale, P3) \<leftarrow> decimalNumber U ''Decimal scale is too large''
             ''Expected integer literal for decimal scale'' (expects U (SyntaxOp Comma) P2);
          Some (DecimalTy precision scale loc, expectsGreater U P3)})"

text \<open>\<open>name(.name)*\<close>\<close>

definition dottedStep :: "utf8_lib \<Rightarrow> string \<times> parser \<Rightarrow> ((string \<times> parser) + (string \<times> parser)) option" where
  "dottedStep U = (\<lambda>(name, P).
     case consumeIf U (SyntaxOp Dot) P of
       (False, P1) \<Rightarrow> Some (Inr (name, P1))
     | (True, P1) \<Rightarrow>
         (if at P1 Identifier then Some (Inl (name @ ''.'' @ spelling P1, consume U P1))
          else Some (Inr (name, parseError ''Expected identifier after '.' in type name'' P1))))"

definition typeArgument :: "utf8_lib \<Rightarrow> subs \<Rightarrow> (ast_type \<times> Variance) list parse" where
  "typeArgument U R P = do {
     (t, P1) \<leftarrow> rType R P;
     (case t of
        Some u \<Rightarrow> Some ([(u, Invariant)], P1)
      | None \<Rightarrow> do {
          P2 \<leftarrow> skipTo U [SyntaxOp Comma, RelOp Greater, Eof] (parseError ''Expected type argument'' P1);
          Some ([], P2)})}"

definition parseNamedType :: "utf8_lib \<Rightarrow> subs \<Rightarrow> ptr \<Rightarrow> parser \<Rightarrow> (ast_type \<times> parser) option" where
  "parseNamedType U R loc P = do {
     (name, P1) \<leftarrow> loop (dottedStep U) (spelling P, consume U P);
     (case consumeIf U (RelOp Less) P1 of
        (False, P2) \<Rightarrow> Some (NamedTy name [] loc, P2)
      | (True, P2) \<Rightarrow> do {
          (args, P3) \<leftarrow> commaList U (typeArgument U R) P2;
          Some (NamedTy name (concat args) loc, expectsGreater U P3)})}"

text \<open>Types between parentheses; those that are missing are left out.\<close>

definition optionalType :: "subs \<Rightarrow> ast_type list parse" where
  "optionalType R P = do { (t, P1) \<leftarrow> rType R P; Some (case t of Some u \<Rightarrow> [u] | None \<Rightarrow> [], P1) }"

definition paramTypes :: "utf8_lib \<Rightarrow> subs \<Rightarrow> ast_type list parse" where
  "paramTypes U R P =
     (if at P (Bracket RParen) then Some ([], expects U (Bracket RParen) P)
      else do { (ts, P1) \<leftarrow> commaList U (optionalType R) P; Some (concat ts, expects U (Bracket RParen) P1) })"

definition parseClosureType :: "utf8_lib \<Rightarrow> subs \<Rightarrow> parser \<Rightarrow> (ast_type \<times> parser) option" where
  "parseClosureType U R P = do {
     (params, P1) \<leftarrow> paramTypes U R (expects U (Bracket LParen) (consume U P));
     (case consumeIf U (SyntaxOp Arrow) P1 of
        (True, P2) \<Rightarrow> do { (ret, P3) \<leftarrow> rType R P2; Some (ClosureTy ret params (location P), P3) }
      | (False, P2) \<Rightarrow> Some (ClosureTy (Some (PrimitiveTy S_Void (location P2))) params (location P), P2))}"

text \<open>
  The switch of \<open>parseType\<close>.  \<open>Inl\<close> is a \<open>return\<close> inside it, \<open>Inr\<close> the value of \<open>type\<close> behind it,
  which may be null.
\<close>

definition typeHead :: "utf8_lib \<Rightarrow> subs \<Rightarrow> ptr \<Rightarrow> bool \<Rightarrow> parser \<Rightarrow>
    ((ast_type option + ast_type option) \<times> parser) option" where
  "typeHead U R loc isUnsigned P =
     (let k = tok_kind (curTok P); here = location P;
          inner = (\<lambda>f. do { (t, P1) \<leftarrow> innerType R f (consume U P);
                            Some (case t of None \<Rightarrow> Inl None | Some u \<Rightarrow> Inr (Some u), P1) })
      in if k = BitOp Amp then inner (\<lambda>t. ReferenceTy (Some t) here)
         else if k = MathOp Star then inner (\<lambda>t. PointerTy (Some t) here)
         else if k = MathOp Power then inner (\<lambda>t. PointerTy (Some (PointerTy (Some t) here)) here)
         else if k = PrimKw KwDecimal then
           do { (t, P1) \<leftarrow> parseDecimalType U loc P; Some (Inr (Some t), P1) }
         else if k = BorrowKw KwLock then inner (\<lambda>t. LockTy t loc)
         else if k = BorrowKw KwView then inner (\<lambda>t. ViewTy t loc)
         else if k = BorrowKw KwMut then inner (\<lambda>t. MutTy t loc)
         else if k = CoreKw KwWeak then inner (\<lambda>t. NullableTy (Some (WeakTy t loc)) loc)
         else if k = ModKw KwPromise then
           (case consumeIf U (RelOp Less) (consume U P) of
              (True, P1) \<Rightarrow> do {
                (t, P2) \<leftarrow> rType R P1;
                (case t of
                   None \<Rightarrow> Some (Inl None, P2)
                 | Some u \<Rightarrow> Some (Inr (Some (PromiseTy u loc)), expectsGreater U P2))}
            | (False, P1) \<Rightarrow> Some (Inr None, parseError ''Expected '<' after promise'' P1))
         else if k = OopKw KwClosure then
           do { (t, P1) \<leftarrow> parseClosureType U R P; Some (Inr (Some t), P1) }
         else if k = CoreKw KwRef then
           do { (t, P1) \<leftarrow> rType R (consume U P); Some (Inr (Some (ReferenceTy t loc)), P1) }
         else if k = DataKw KwTable then
           (case consumeIf U (RelOp Less) (consume U P) of
              (True, P1) \<Rightarrow> do {
                (key, P2) \<leftarrow> rType R P1;
                (val, P3) \<leftarrow> rType R (expects U (SyntaxOp Comma) P2);
                Some (Inr (Some (MapTy key val loc)), expectsGreater U P3)}
            | (False, P1) \<Rightarrow> Some (Inr (Some (MapTy (Some (AnyTy loc)) (Some (AnyTy loc)) loc)), P1))
         else if k = Identifier then
           do { (t, P1) \<leftarrow> parseNamedType U R loc P; Some (Inr (Some t), P1) }
         else if k = LowKw KwInterrupt \<or> k = Bracket LParen then
           do {
             (params, P1) \<leftarrow> paramTypes U R (consume U P);
             (case consumeIf U (SyntaxOp FatArrow) P1 of
                (True, P2) \<Rightarrow> do {
                  (ret, P3) \<leftarrow> rType R P2;
                  Some (Inr (Some (FunctionTy ret params False False loc)), P3)}
              | (False, P2) \<Rightarrow> Some (Inl None, parseError ''Expected '=>' for function type'' P2))}
         else (case simpleType isUnsigned k loc of
                 Some t \<Rightarrow> Some (Inr (Some t), consume U P)
               | None \<Rightarrow> Some (Inl None, P)))"

text \<open>\<open>do { consume(); size; expect(RBracket) } while (curTok.is(LBracket))\<close>\<close>

definition sizeStep :: "utf8_lib \<Rightarrow> subs \<Rightarrow> expr option list \<times> parser \<Rightarrow>
    ((expr option list \<times> parser) + (expr option list \<times> parser)) option" where
  "sizeStep U R = (\<lambda>(acc, P). do {
     (e, P1) \<leftarrow> (if at (consume U P) (Bracket RBracket) then Some (None, consume U P)
                 else rExpression R (consume U P));
     (let P2 = expects U (Bracket RBracket) P1
      in if at P2 (Bracket LBracket) then Some (Inl (acc @ [e], P2)) else Some (Inr (acc @ [e], P2)))})"

definition wrapSize :: "ptr \<Rightarrow> expr option \<Rightarrow> ast_type option \<Rightarrow> ast_type option" where
  "wrapSize loc e t = Some (case e of None \<Rightarrow> SliceTy t loc | Some x \<Rightarrow> ArrayTy t x loc)"

definition suffixStep :: "utf8_lib \<Rightarrow> subs \<Rightarrow> ast_type option \<times> parser \<Rightarrow>
    ((ast_type option \<times> parser) + (ast_type option \<times> parser)) option" where
  "suffixStep U R = (\<lambda>(t, P).
     (let loc = location P
      in if at P (SyntaxOp Question) then Some (Inl (Some (NullableTy t loc), consume U P))
         else if at P (Bracket LBracket) then do {
           (sizes, P1) \<leftarrow> loop (sizeStep U R) ([], P);
           Some (Inl (foldr (wrapSize loc) sizes t, P1))}
         else if at P (MathOp Star) then Some (Inl (Some (PointerTy t loc), consume U P))
         else if at P (MathOp Power) then
           Some (Inl (Some (PointerTy (Some (PointerTy t loc)) loc), consume U P))
         else Some (Inr (t, P))))"

definition parseType :: "utf8_lib \<Rightarrow> subs \<Rightarrow> ast_type option parse" where
  "parseType U R P =
     (let loc = location P;
          (isVolatile, P1) = consumeIf U (LowKw KwVolatile) P;
          (isConst, P2) = consumeIf U (ModKw KwConst) P1;
          (isUnsigned, P3) = consumeIf U (CoreKw KwUnsigned) P2
      in do {
        (h, P4) \<leftarrow> typeHead U R loc isUnsigned P3;
        (case h of
           Inl r \<Rightarrow> Some (r, P4)
         | Inr t \<Rightarrow>
             (let t1 = (if isConst then Some (ConstTy t loc) else t);
                  t2 = (if isVolatile then Some (VolatileTy t1 loc) else t1)
              in loop (suffixStep U R) (t2, P4)))})"


subsection \<open>Binary operators\<close>

text \<open>
  \<open>hasNewlineBeforeToken\<close>: backwards over blanks from the token.  A token it is asked about has another one
  before it, so the scan stops inside the buffer.
\<close>

fun newlineBefore :: "bytes \<Rightarrow> nat \<Rightarrow> bool" where
  "newlineBefore b 0 = False"
| "newlineBefore b (Suc p) =
     (if blank (byteAt b p) then (byteAt b p = CHR 0x0A \<or> byteAt b p = CHR 0x0D) \<or> newlineBefore b p else False)"

definition hasNewlineBeforeToken :: "parser \<Rightarrow> bool" where
  "hasNewlineBeforeToken P = (spelling P \<noteq> [] \<and> newlineBefore (p_buffer P) (location P))"

text \<open>
  The loop of a level: while the current token is an operator of the level that \<open>binds\<close>, its right operand
  is parsed one level up and both are joined to the left.
\<close>

definition binaryStep :: "utf8_lib \<Rightarrow> (parser \<Rightarrow> bool) \<Rightarrow> expr option parse \<Rightarrow> expr option \<times> parser \<Rightarrow>
    ((expr option \<times> parser) + (expr option \<times> parser)) option" where
  "binaryStep U binds operand = (\<lambda>(left, P).
     if binds P then
       (case left of
          None \<Rightarrow> Some (Inr (None, P))
        | Some l \<Rightarrow> do {
            (right, P1) \<leftarrow> operand (consume U P);
            (case right of
               None \<Rightarrow> Some (Inr (None, P1))
             | Some r \<Rightarrow>
                 Some (Inl (Some (BinaryExpr (Some l) (tok_kind (curTok P)) (Some r) (location P)), P1)))})
     else Some (Inr (left, P)))"

definition binaryLevel :: "utf8_lib \<Rightarrow> (parser \<Rightarrow> bool) \<Rightarrow> expr option parse \<Rightarrow> expr option parse" where
  "binaryLevel U binds operand P = do { s \<leftarrow> operand P; loop (binaryStep U binds operand) s }"

definition assignOps :: "TokenKind list" where
  "assignOps = [AssignOp Equal, AssignOp PlusEqual, AssignOp MinusEqual, AssignOp StarEqual, AssignOp SlashEqual,
     AssignOp PercentEqual, BitOp AmpEqual, BitOp PipeEqual, BitOp CaretEqual, BitOp LessLessEqual,
     BitOp GreaterGreaterEqual]"

definition mulBinds :: "parser \<Rightarrow> bool" where
  "mulBinds P \<longleftrightarrow> isAny (curTok P) [MathOp Star, MathOp Slash, MathOp Percent] \<and>
     \<not> (at P (MathOp Star) \<and> (isStartOfDeclaration P \<or> hasNewlineBeforeToken P))"

definition addBinds :: "parser \<Rightarrow> bool" where
  "addBinds P \<longleftrightarrow> isAny (curTok P) [MathOp Plus, MathOp Minus] \<and> \<not> hasNewlineBeforeToken P"

definition shiftBinds :: "parser \<Rightarrow> bool" where
  "shiftBinds P \<longleftrightarrow> isAny (curTok P) [BitOp LessLess, BitOp GreaterGreater]"

definition coalesceBinds :: "parser \<Rightarrow> bool" where
  "coalesceBinds P \<longleftrightarrow> at P (SyntaxOp QuestionQuestion)"

definition relBinds :: "parser \<Rightarrow> bool" where
  "relBinds P \<longleftrightarrow> isAny (curTok P) [RelOp Less, RelOp LessEqual, RelOp Greater, RelOp GreaterEqual]"

definition eqBinds :: "parser \<Rightarrow> bool" where
  "eqBinds P \<longleftrightarrow> isAny (curTok P) [RelOp EqualEqual, RelOp NotEqual]"

definition andBinds :: "parser \<Rightarrow> bool" where
  "andBinds P \<longleftrightarrow> at P (BitOp Amp) \<and> \<not> hasNewlineBeforeToken P"

text \<open>\<open>l |> r\<close>: \<open>l\<close> becomes the first argument of the call at the root of \<open>r\<close>, or of the function \<open>r\<close>.\<close>

fun insertFirstArg :: "expr \<Rightarrow> expr \<Rightarrow> expr option" where
  "insertFirstArg l (MemberExpr e n opt loc) = map_option (\<lambda>f. MemberExpr f n opt loc) (insertFirstArg l e)"
| "insertFirstArg l (IndexExpr e i opt loc) = map_option (\<lambda>f. IndexExpr f i opt loc) (insertFirstArg l e)"
| "insertFirstArg l (CallExpr c as loc) = Some (CallExpr c (Some l # as) loc)"
| "insertFirstArg l e = None"

definition pipeInto :: "ptr \<Rightarrow> expr \<Rightarrow> expr \<Rightarrow> expr option" where
  "pipeInto opLoc l r =
     (case insertFirstArg l r of
        Some e \<Rightarrow> Some e
      | None \<Rightarrow> (case r of IdentifierExpr n loc \<Rightarrow> Some (CallExpr r [Some l] opLoc) | _ \<Rightarrow> None))"

subsection \<open>Primary expressions\<close>

text \<open>A list between the current token and the closing one, which may be empty.\<close>

definition listUntil :: "utf8_lib \<Rightarrow> TokenKind \<Rightarrow> 'a parse \<Rightarrow> 'a list parse" where
  "listUntil U close item P =
     (if at P close then Some ([], expects U close P)
      else do { (xs, P1) \<leftarrow> commaList U item P; Some (xs, expects U close P1) })"

definition elementStep :: "utf8_lib \<Rightarrow> subs \<Rightarrow> ptr \<Rightarrow> expr option list \<times> parser \<Rightarrow>
    ((expr option list \<times> parser) + (expr option list \<times> parser)) option" where
  "elementStep U R loc = (\<lambda>(acc, P).
     if isAny (curTok P) [Bracket RBracket, Eof] then Some (Inr (acc, P))
     else do {
       (e, P1) \<leftarrow> (if at P (SyntaxOp DotDotDot) then do {
                      (sub, P1) \<leftarrow> rExpression R (consume U P);
                      Some (Some (UnaryExpr (SyntaxOp DotDotDot) sub False loc), P1) }
                    else rExpression R P);
       (case consumeIf U (SyntaxOp Comma) P1 of
          (True, P2) \<Rightarrow> Some (Inl (acc @ [e], P2))
        | (False, P2) \<Rightarrow> Some (Inr (acc @ [e], P2)))})"

definition parseArrayLiteral :: "utf8_lib \<Rightarrow> subs \<Rightarrow> expr parse" where
  "parseArrayLiteral U R P = do {
     (es, P1) \<leftarrow> loop (elementStep U R (location P)) ([], consume U P);
     Some (ArrayLit es (location P), expects U (Bracket RBracket) P1)}"

definition mapEntry :: "utf8_lib \<Rightarrow> subs \<Rightarrow> (expr option \<times> expr option) parse" where
  "mapEntry U R P = do {
     (key, P1) \<leftarrow> rExpression R P;
     (val, P2) \<leftarrow> rExpression R (expects U (SyntaxOp Colon) P1);
     Some ((key, val), P2)}"

definition parseMapLiteral :: "utf8_lib \<Rightarrow> subs \<Rightarrow> expr parse" where
  "parseMapLiteral U R P = do {
     (es, P1) \<leftarrow> listUntil U (Bracket RBrace) (mapEntry U R) (consume U P);
     Some (MapLit es (location P), P1)}"

definition templatePart :: "plib \<Rightarrow> bytes \<Rightarrow> ptr \<Rightarrow> expr" where
  "templatePart C val loc = StringExpr (StringLit (unescapeString (pl_conv C) val) True loc)"

definition templateStep :: "plib \<Rightarrow> subs \<Rightarrow> expr list \<times> parser \<Rightarrow>
    ((expr list \<times> parser) + (expr list \<times> parser)) option" where
  "templateStep C R = (\<lambda>(parts, P).
     (let U = pl_utf8 C; val = spelling P
      in if at P StringFragment then
           Some (Inl (parts @ [templatePart C val (location P)], consume U P))
         else if at P InterpolationStart then do {
           (e, P1) \<leftarrow> rExpression R (consume U P);
           (let parts1 = (case e of Some x \<Rightarrow> parts @ [x] | None \<Rightarrow> parts)
            in case expect U InterpolationEnd P1 of
                 (True, P2) \<Rightarrow> Some (Inl (parts1, P2))
               | (False, P2) \<Rightarrow> Some (Inr (parts1, P2)))}
         else if at P TemplateString then
           (let val1 = (if val \<noteq> [] \<and> last val = CHR 0x60 then butlast val else val)
            in Some (Inr (parts @ [templatePart C val1 (location P)], consume U P)))
         else Some (Inr (parts, parseError ''Malformed template string'' P))))"

definition parseTemplateString :: "plib \<Rightarrow> subs \<Rightarrow> expr parse" where
  "parseTemplateString C R P =
     (if at P TemplateString then
        (case parseSimpleTemplate (pl_utf8 C) (pl_conv C) P of (l, P1) \<Rightarrow> Some (StringExpr l, P1))
      else do {
        (parts, P1) \<leftarrow> loop (templateStep C R) ([], P);
        Some (TemplateStringExpr parts (location P), P1)})"

definition parseLambdaBody :: "utf8_lib \<Rightarrow> subs \<Rightarrow> (ast_type \<times> string \<times> expr option) list \<Rightarrow> CaptureMode \<Rightarrow>
    expr parse" where
  "parseLambdaBody U R params mode P =
     (let loc = location P
      in if at P (Bracket LBrace) then do {
           (body, P1) \<leftarrow> parseBlock U R P;
           Some (LambdaExpr params body False mode False loc, P1)}
         else do {
           (e, P1) \<leftarrow> rExpression R P;
           (let retLoc = (case e of Some x \<Rightarrow> expr_getLoc x | None \<Rightarrow> loc)
            in Some (LambdaExpr params (ReturnStmt e retLoc) True mode False loc, P1))})"

fun isLambda :: "expr \<Rightarrow> bool" where
  "isLambda (LambdaExpr ps b x m a l) = True"
| "isLambda _ = False"

fun setAsync :: "expr \<Rightarrow> expr" where
  "setAsync (LambdaExpr ps b x m a l) = LambdaExpr ps b x m True l"
| "setAsync e = e"

definition presentArg :: "subs \<Rightarrow> expr list parse" where
  "presentArg R P = do { (e, P1) \<leftarrow> rExpression R P; Some (case e of Some x \<Rightarrow> [x] | None \<Rightarrow> [], P1) }"

definition newThread :: "utf8_lib \<Rightarrow> subs \<Rightarrow> ptr \<Rightarrow> bool \<Rightarrow> expr option parse" where
  "newThread U R loc isWeak P =
     (case expect U (Bracket LParen) P of
        (False, P1) \<Rightarrow> Some (None, P1)
      | (True, P1) \<Rightarrow> do {
          (task, P2) \<leftarrow> rExpression R P1;
          (case task of
             None \<Rightarrow> Some (None, P2)
           | Some e \<Rightarrow>
               if isLambda e then
                 (case expect U (Bracket RParen) P2 of
                    (False, P3) \<Rightarrow> Some (None, P3)
                  | (True, P3) \<Rightarrow> Some (Some (ThreadExpr isWeak e loc), P3))
               else Some (None, parseError ''Thread instantiation requires a closure/lambda expression.'' P2))})"

definition parseNewExpr :: "utf8_lib \<Rightarrow> subs \<Rightarrow> expr option parse" where
  "parseNewExpr U R P =
     (let loc = location P;
          (isWeak, P1) = consumeIf U (CoreKw KwWeak) (consume U P);
          (isThread, P2) = consumeIf U (CoreKw KwThread) P1
      in if isThread then newThread U R loc isWeak P2
         else do {
           (t, P3) \<leftarrow> rType R P2;
           (case t of
              None \<Rightarrow> Some (None, P3)
            | Some ty \<Rightarrow> do {
                (args, P4) \<leftarrow> listUntil U (Bracket RParen) (presentArg R) (expects U (Bracket LParen) P3);
                Some (Some (NewExpr (if isWeak then WeakTy ty loc else ty) (concat args) loc), P4)})})"

definition parseInputExpr :: "utf8_lib \<Rightarrow> subs \<Rightarrow> expr parse" where
  "parseInputExpr U R P = do {
     (prompt, P1) \<leftarrow> rExpression R (expects U (Bracket LParen) (consume U P));
     (let P2 = (if prompt = None then parseError ''input() requires a mandatory prompt string argument'' P1 else P1)
      in Some (InputExpr prompt (location P), expects U (Bracket RParen) P2))}"

text \<open>A quoted string token and what is reported in its place.\<close>

definition stringToken :: "utf8_lib \<Rightarrow> string \<Rightarrow> parser \<Rightarrow> string option \<times> parser" where
  "stringToken U message P =
     (if at P StringLiteral then (Some (unquote (spelling P)), consume U P) else (None, parseError message P))"

definition clobber :: "utf8_lib \<Rightarrow> string list parse" where
  "clobber U P =
     (case stringToken U ''Expected string literal for clobber register'' P of
        (s, P1) \<Rightarrow> Some (case s of Some x \<Rightarrow> [x] | None \<Rightarrow> [], P1))"

definition asmOperand :: "utf8_lib \<Rightarrow> subs \<Rightarrow> (string \<times> expr option) parse" where
  "asmOperand U R P =
     (case stringToken U ''Expected string literal for asm constraint'' P of
        (s, P1) \<Rightarrow> do {
          (e, P2) \<leftarrow> rExpression R (expects U (Bracket LParen) P1);
          Some ((case s of Some x \<Rightarrow> x | None \<Rightarrow> [], e), expects U (Bracket RParen) P2)})"

record asm_parts =
  ap_outputs :: "(string \<times> expr option) list"
  ap_inputs :: "(string \<times> expr option) list"
  ap_inouts :: "(string \<times> expr option) list"
  ap_clobbers :: "string list"
  ap_volatile :: bool

definition addOperands :: "TokenKind \<Rightarrow> (string \<times> expr option) list \<Rightarrow> asm_parts \<Rightarrow> asm_parts" where
  "addOperands opKind xs A =
     (if opKind = AsmKw KwOut then A\<lparr>ap_outputs := ap_outputs A @ xs\<rparr>
      else if opKind = FlowKw KwIn then A\<lparr>ap_inputs := ap_inputs A @ xs\<rparr>
      else A\<lparr>ap_inouts := ap_inouts A @ xs\<rparr>)"

definition asmStep :: "utf8_lib \<Rightarrow> subs \<Rightarrow> asm_parts \<times> parser \<Rightarrow> ((asm_parts \<times> parser) + (asm_parts \<times> parser)) option" where
  "asmStep U R = (\<lambda>(A, P).
     if at P (LowKw KwVolatile) then Some (Inl (A\<lparr>ap_volatile := True\<rparr>, consume U P))
     else if at P (AsmKw KwClobber) then do {
       (cs, P1) \<leftarrow> listUntil U (Bracket RParen) (clobber U) (expects U (Bracket LParen) (consume U P));
       Some (Inl (A\<lparr>ap_clobbers := ap_clobbers A @ concat cs\<rparr>, P1)) }
     else if isAny (curTok P) [AsmKw KwOut, FlowKw KwIn, AsmKw KwInout] then do {
       (xs, P1) \<leftarrow> listUntil U (Bracket RParen) (asmOperand U R) (expects U (Bracket LParen) (consume U P));
       Some (Inl (addOperands (tok_kind (curTok P)) xs A, P1)) }
     else Some (Inr (A, P)))"

definition parseAsmExpr :: "utf8_lib \<Rightarrow> subs \<Rightarrow> expr parse" where
  "parseAsmExpr U R P = do {
     (t, P1) \<leftarrow> (case consumeIf U (RelOp Less) (consume U P) of
                    (True, Q) \<Rightarrow> do { (t, Q1) \<leftarrow> rType R Q; Some (t, expectsGreater U Q1) }
                  | (False, Q) \<Rightarrow> Some (None, Q));
     (case stringToken U ''Expected string literal for asm block'' (expects U (Bracket LParen) P1) of
        (s, P2) \<Rightarrow> do {
          (A, P3) \<leftarrow> loop (asmStep U R)
             (\<lparr>ap_outputs = [], ap_inputs = [], ap_inouts = [], ap_clobbers = [], ap_volatile = False\<rparr>,
              expects U (Bracket RParen) P2);
          Some (AsmExpr (case s of Some x \<Rightarrow> x | None \<Rightarrow> []) (ap_outputs A) (ap_inputs A) (ap_inouts A)
                  (ap_clobbers A) (ap_volatile A) t (location P), P3)})}"

text \<open>\<open>cast<T>(e)\<close> and \<open>bitcast<T>(e)\<close>\<close>

definition parseCast :: "utf8_lib \<Rightarrow> subs \<Rightarrow> (ast_type \<Rightarrow> expr \<Rightarrow> ptr \<Rightarrow> expr) \<Rightarrow> ptr \<Rightarrow> expr option parse" where
  "parseCast U R mk loc P =
     (case expect U (RelOp Less) (consume U P) of
        (False, P1) \<Rightarrow> Some (None, P1)
      | (True, P1) \<Rightarrow> do {
          (t, P2) \<leftarrow> rType R P1;
          (case t of
             None \<Rightarrow> Some (None, P2)
           | Some ty \<Rightarrow>
               (case expect U (Bracket LParen) (expectsGreater U P2) of
                  (False, P3) \<Rightarrow> Some (None, P3)
                | (True, P3) \<Rightarrow> do {
                    (e, P4) \<leftarrow> rExpression R P3;
                    (case e of
                       None \<Rightarrow> Some (None, P4)
                     | Some x \<Rightarrow> Some (Some (mk ty x loc), expects U (Bracket RParen) P4))}))})"

text \<open>
  \<open>(T x, ...) =>\<close>: two tokens decide, and behind \<open>Name<\<close> the bytes of the line up to the matching \<open>>\<close>.
\<close>

definition lambdaTypeKinds :: "TokenKind list" where
  "lambdaTypeKinds = [PrimKw KwInt, PrimKw KwFloat, PrimKw KwBool, PrimKw KwString, PrimKw KwVoid, PrimKw KwAny,
     PrimKw KwChar, PrimKw KwDouble, PrimKw KwHalf, PrimKw KwQuarter, PrimKw KwShort, PrimKw KwLong,
     PrimKw KwUSize, PrimKw KwISize]"

definition isTypedLambda :: "parser \<Rightarrow> bool" where
  "isTypedLambda P =
     (if isAny (curTok P) lambdaTypeKinds then is_kind (nextTok P) Identifier
      else if at P Identifier then
        (if is_kind (nextTok P) Identifier \<or> is_kind (nextTok P) (SyntaxOp Question) then True
         else if is_kind (nextTok P) (RelOp Less) then
           (case closing CHR ''<'' CHR ''>'' (\<lambda>c. c = CHR '')'' \<or> c = CHR 0x0A) (p_buffer P)
                   (tok_location (nextTok P)) 0 of
              Some q \<Rightarrow> letter (byteAt (p_buffer P) (skipBlanks (p_buffer P) q))
            | None \<Rightarrow> False)
         else False)
      else False)"

definition optionalInit :: "utf8_lib \<Rightarrow> subs \<Rightarrow> expr option parse" where
  "optionalInit U R P =
     (case consumeIf U (AssignOp Equal) P of
        (True, P1) \<Rightarrow> rExpression R P1
      | (False, P1) \<Rightarrow> Some (None, P1))"

definition lambdaStep :: "utf8_lib \<Rightarrow> subs \<Rightarrow> (ast_type \<times> string \<times> expr option) list \<times> parser \<Rightarrow>
    (((ast_type \<times> string \<times> expr option) list \<times> parser) + ((ast_type \<times> string \<times> expr option) list \<times> parser)) option" where
  "lambdaStep U R = (\<lambda>(acc, P). do {
     (t, P1) \<leftarrow> rType R P;
     (case t of
        None \<Rightarrow> Some (Inr (acc, P1))
      | Some ty \<Rightarrow>
          (let (n, P2) = (if at P1 Identifier then (spelling P1, consume U P1)
                          else ([], parseError ''Expected parameter name'' P1))
           in do {
             (d, P3) \<leftarrow> optionalInit U R P2;
             (case consumeIf U (SyntaxOp Comma) P3 of
                (True, P4) \<Rightarrow> Some (Inl (acc @ [(ty, n, d)], P4))
              | (False, P4) \<Rightarrow> Some (Inr (acc @ [(ty, n, d)], P4)))}))})"

definition parseTypedLambda :: "utf8_lib \<Rightarrow> subs \<Rightarrow> CaptureMode \<Rightarrow> expr option parse" where
  "parseTypedLambda U R capMode P = do {
     (params, P1) \<leftarrow> loop (lambdaStep U R) ([], P);
     (case consumeIf U (SyntaxOp FatArrow) (expects U (Bracket RParen) P1) of
        (True, P2) \<Rightarrow> do { (e, P3) \<leftarrow> parseLambdaBody U R params capMode P2; Some (Some e, P3) }
      | (False, P2) \<Rightarrow> Some (None, parseError ''Expected '=>' after typed lambda parameters'' P2))}"

text \<open>A parenthesis: an empty or typed lambda, or an expression.\<close>

definition parseParen :: "utf8_lib \<Rightarrow> subs \<Rightarrow> ptr \<Rightarrow> CaptureMode \<Rightarrow> bool \<Rightarrow> expr option parse" where
  "parseParen U R loc capMode hasCaptureModifier P =
     (let P1 = consume U P
      in if at P1 (Bracket RParen) then
           (case consumeIf U (SyntaxOp FatArrow) (consume U P1) of
              (True, P2) \<Rightarrow> do { (e, P3) \<leftarrow> parseLambdaBody U R [] capMode P2; Some (Some e, P3) }
            | (False, P2) \<Rightarrow> Some (None, parseError ''Expected expression after empty parentheses'' P2))
         else if isTypedLambda P1 then parseTypedLambda U R capMode P1
         else do {
           (e, P2) \<leftarrow> rExpression R P1;
           (if at P2 (SyntaxOp FatArrow) \<or> at P2 (SyntaxOp Comma) then do {
              P3 \<leftarrow> skipTo U [Bracket RParen, Eof]
                (parseError (''Invalid lambda syntax. Moksha requires typed parameters (e.g., '' @
                             quoted ''(int x) => { ... }'' @ '')'') P2);
              Some (None, snd (consumeIf U (Bracket RParen) P3)) }
            else
              (let P3 = expects U (Bracket RParen) P2
               in if hasCaptureModifier then
                    Some (None, reportAt loc err_expected_token
                      ''closure capture modifier can only be applied to lambda expressions'' P3)
                  else Some (e, P3)))})"

text \<open>The capture modifiers in front of a lambda.\<close>

definition captureMode :: "utf8_lib \<Rightarrow> parser \<Rightarrow> CaptureMode \<times> bool \<times> parser" where
  "captureMode U P =
     (if at P (OopKw KwMove) \<or> at P Identifier \<and> spelling P = ''move'' then (C_Move, True, advance U P)
      else if at P (BitOp Amp) then
        (let P1 = advance U P
         in if at P1 (BorrowKw KwMut) then (C_Mut, True, advance U P1) else (C_View, True, P1))
      else (C_Snapshot, False, P))"

definition parseAsyncLambda :: "utf8_lib \<Rightarrow> subs \<Rightarrow> expr option parse" where
  "parseAsyncLambda U R P =
     (let P1 = consume U P; message = ''Expected '' @ quoted ''('' @ '' for async lambda expression''
      in if at P1 (Bracket LParen) then do {
           (e, P2) \<leftarrow> rPrimary R P1;
           (case e of
              Some x \<Rightarrow> if isLambda x then Some (Some (setAsync x), P2)
                        else Some (e, parseError (''Expected lambda expression after '' @ quoted ''async'') P2)
            | None \<Rightarrow> Some (None, parseError message P2))}
         else Some (None, parseError message P1))"

definition nameKinds :: "TokenKind list" where
  "nameKinds = [Identifier, PrimKw KwInt, PrimKw KwFloat, PrimKw KwDouble, PrimKw KwBool, PrimKw KwString,
     PrimKw KwChar, PrimKw KwShort, PrimKw KwLong, PrimKw KwISize, PrimKw KwUSize, PrimKw KwHalf,
     PrimKw KwQuarter, PrimKw KwAny, ModKw KwPromise]"

definition present :: "('a \<times> parser) option \<Rightarrow> ('a option \<times> parser) option" where
  "present m = do { (x, P) \<leftarrow> m; Some (Some x, P) }"

definition primarySwitch :: "plib \<Rightarrow> subs \<Rightarrow> ptr \<Rightarrow> CaptureMode \<Rightarrow> bool \<Rightarrow> expr option parse" where
  "primarySwitch C R loc capMode hasCaptureModifier P =
     (let U = pl_utf8 C; k = tok_kind (curTok P)
      in if k = ConcKw KwAsync then parseAsyncLambda U R P
         else if k = OopKw KwInput then present (parseInputExpr U R P)
         else if k = CoreKw KwNew then parseNewExpr U R P
         else if k = ModKw KwCast then parseCast U R CastExpr loc P
         else if k = ModKw KwBitcast then parseCast U R BitcastExpr loc P
         else if k = IntegerLiteral then present (Some (parseIntegerLiteral U P))
         else if k = FloatLiteral then present (Some (parseFloatLiteral C P))
         else if k = DecimalLiteral then present (Some (parseDecimalLiteral U P))
         else if k = CharLiteral then present (Some (parseCharLiteral U P))
         else if k = CoreKw KwNull then Some (Some (NullLit loc), consume U P)
         else if k = TypeKw KwTrue then Some (Some (BoolLit True loc), consume U P)
         else if k = TypeKw KwFalse then Some (Some (BoolLit False loc), consume U P)
         else if k \<in> set nameKinds then Some (Some (IdentifierExpr (spelling P) loc), consume U P)
         else if k = Bracket LParen then parseParen U R loc capMode hasCaptureModifier P
         else if k = StringLiteral then
           (case parseStringLiteral U (pl_conv C) P of (l, P1) \<Rightarrow> Some (Some (StringExpr l), P1))
         else if k = Bracket LBracket then present (parseArrayLiteral U R P)
         else if k = Bracket LBrace then present (parseMapLiteral U R P)
         else if k \<in> {TemplateString, StringFragment, InterpolationStart} then present (parseTemplateString C R P)
         else if k = CoreKw KwThis then Some (Some (ThisExpr loc), consume U P)
         else if k = CoreKw KwSuper then Some (Some (SuperExpr loc), consume U P)
         else if k = AsmKw KwAsm then present (parseAsmExpr U R P)
         else if k = Error then Some (None, consume U P)
         else if k = LowKw KwSizeof then do {
           (e, P1) \<leftarrow> rExpression R (expects U (Bracket LParen) (consume U P));
           Some (Some (SizeOfExpr e loc), expects U (Bracket RParen) P1) }
         else Some (None, parseError ''Expected expression'' P))"

definition parsePrimary :: "plib \<Rightarrow> subs \<Rightarrow> expr option parse" where
  "parsePrimary C R P =
     (case captureMode (pl_utf8 C) P of
        (capMode, hasCaptureModifier, P1) \<Rightarrow>
          (if hasCaptureModifier \<and> \<not> at P1 (Bracket LParen) then
             Some (None, reportAt (location P1) err_expected_token
               (quoted ''('' @ '' for lambda parameter list after capture modifier'') P1)
           else primarySwitch C R (location P) capMode hasCaptureModifier P1))"

subsection \<open>The levels of an expression\<close>

definition indexExpr :: "utf8_lib \<Rightarrow> subs \<Rightarrow> expr \<Rightarrow> bool \<Rightarrow> parser \<Rightarrow>
    ((expr option \<times> parser) + (expr option \<times> parser)) option" where
  "indexExpr U R l isOptional P =
     (if hasNewlineBeforeToken P then Some (Inr (Some l, P))
      else do {
        (i, P1) \<leftarrow> rExpression R (consume U P);
        Some (Inl (Some (IndexExpr l i isOptional (expr_getLoc l)), expects U (Bracket RBracket) P1))})"

definition postfixStep :: "utf8_lib \<Rightarrow> subs \<Rightarrow> expr option \<times> parser \<Rightarrow>
    ((expr option \<times> parser) + (expr option \<times> parser)) option" where
  "postfixStep U R = (\<lambda>(left, P).
     case left of
       None \<Rightarrow> Some (Inr (None, P))
     | Some l \<Rightarrow>
         (let loc = expr_getLoc l
          in if at P (Bracket LParen) then
               (if hasNewlineBeforeToken P then Some (Inr (left, P))
                else do {
                  (args, P1) \<leftarrow> listUntil U (Bracket RParen) (rExpression R) (consume U P);
                  Some (Inl (Some (CallExpr l args loc), P1)) })
             else if at P (SyntaxOp Dot) \<or> at P (SyntaxOp QuestionDot) then
               (let P1 = consume U P
                in Some (Inl (Some (MemberExpr l (spelling P1) (at P (SyntaxOp QuestionDot)) loc),
                              expects U Identifier P1)))
             else if at P (MathOp PlusPlus) then
               Some (Inl (Some (UnaryExpr (MathOp PlusPlus) (Some l) True loc), advance U P))
             else if at P (MathOp MinusMinus) then
               Some (Inl (Some (UnaryExpr (MathOp MinusMinus) (Some l) True loc), advance U P))
             else if at P (Bracket LBracket) then indexExpr U R l False P
             else if at P (SyntaxOp Question) \<and> is_kind (nextTok P) (Bracket LBracket) then
               indexExpr U R l True (consume U P)
             else Some (Inr (left, P))))"

definition parsePostfix :: "plib \<Rightarrow> subs \<Rightarrow> expr option parse" where
  "parsePostfix C R P = do { s \<leftarrow> parsePrimary C R P; loop (postfixStep (pl_utf8 C) R) s }"

definition prefixOps :: "TokenKind list" where
  "prefixOps = [LogicOp Bang, MathOp Minus, BitOp Tilde, MathOp PlusPlus, MathOp MinusMinus, SyntaxOp DotDotDot,
     BitOp Amp, MathOp Star, CoreKw KwShared]"

definition isClosureCapture :: "parser \<Rightarrow> bool" where
  "isClosureCapture P \<longleftrightarrow> at P (BitOp Amp) \<and>
     (is_kind (nextTok P) (Bracket LParen) \<or> is_kind (nextTok P) (BorrowKw KwMut) \<or>
      is_kind (nextTok P) Identifier \<and> getSpelling (p_buffer P) (nextTok P) = ''mut'')"

definition parsePrefix :: "plib \<Rightarrow> subs \<Rightarrow> expr option parse" where
  "parsePrefix C R P =
     (let U = pl_utf8 C; loc = location P
      in if at P (ConcKw KwAwait) then do {
           (e, P1) \<leftarrow> rPrefix R (consume U P);
           Some (Some (AwaitExpr e loc), P1) }
         else if isClosureCapture P then parsePostfix C R P
         else if at P (MathOp Power) then do {
           (e, P1) \<leftarrow> rPrefix R (consume U P);
           Some (map_option (\<lambda>x. UnaryExpr (MathOp Star) (Some (UnaryExpr (MathOp Star) (Some x) False loc))
                                   False loc) e, P1) }
         else if isAny (curTok P) prefixOps then do {
           (e, P1) \<leftarrow> rPrefix R (consume U P);
           Some (map_option (\<lambda>x. UnaryExpr (tok_kind (curTok P)) (Some x) False loc) e, P1) }
         else parsePostfix C R P)"

text \<open>\<open>**\<close> associates to the right.\<close>

definition parsePower :: "plib \<Rightarrow> subs \<Rightarrow> expr option parse" where
  "parsePower C R P = do {
     (left, P1) \<leftarrow> parsePrefix C R P;
     (if at P1 (MathOp Power) \<and> \<not> isStartOfDeclaration P1 then
        (case left of
           None \<Rightarrow> Some (None, P1)
         | Some l \<Rightarrow> do {
             (right, P2) \<leftarrow> rPower R (consume (pl_utf8 C) P1);
             Some (map_option (\<lambda>r. BinaryExpr (Some l) (MathOp Power) (Some r) (location P1)) right, P2)})
      else Some (left, P1))}"

definition parseMultiplicative :: "plib \<Rightarrow> subs \<Rightarrow> expr option parse" where
  "parseMultiplicative C R = binaryLevel (pl_utf8 C) mulBinds (parsePower C R)"

definition parseAdditive :: "plib \<Rightarrow> subs \<Rightarrow> expr option parse" where
  "parseAdditive C R = binaryLevel (pl_utf8 C) addBinds (parseMultiplicative C R)"

definition parseShift :: "plib \<Rightarrow> subs \<Rightarrow> expr option parse" where
  "parseShift C R = binaryLevel (pl_utf8 C) shiftBinds (parseAdditive C R)"

definition parseNullCoalescing :: "plib \<Rightarrow> subs \<Rightarrow> expr option parse" where
  "parseNullCoalescing C R = binaryLevel (pl_utf8 C) coalesceBinds (parseShift C R)"

definition pipeStep :: "plib \<Rightarrow> subs \<Rightarrow> expr option \<times> parser \<Rightarrow>
    ((expr option \<times> parser) + (expr option \<times> parser)) option" where
  "pipeStep C R = (\<lambda>(left, P).
     case left of
       None \<Rightarrow> Some (Inr (None, P))
     | Some l \<Rightarrow>
         (if at P (LogicOp PipeGreater) then do {
            (right, P1) \<leftarrow> parsePostfix C R (consume (pl_utf8 C) P);
            (case right of
               None \<Rightarrow> Some (Inr (None, P1))
             | Some r \<Rightarrow>
                 (case pipeInto (location P) l r of
                    Some e \<Rightarrow> Some (Inl (Some e, P1))
                  | None \<Rightarrow> Some (Inr (None, parseError (''Right side of '' @ quoted ''|>'' @
                      '' must be a function call, identifier, or member access'') P1))))}
          else Some (Inr (left, P))))"

definition parsePipe :: "plib \<Rightarrow> subs \<Rightarrow> expr option parse" where
  "parsePipe C R P = do { s \<leftarrow> parseNullCoalescing C R P; loop (pipeStep C R) s }"

definition parseRelational :: "plib \<Rightarrow> subs \<Rightarrow> expr option parse" where
  "parseRelational C R = binaryLevel (pl_utf8 C) relBinds (parsePipe C R)"

definition parseEquality :: "plib \<Rightarrow> subs \<Rightarrow> expr option parse" where
  "parseEquality C R = binaryLevel (pl_utf8 C) eqBinds (parseRelational C R)"

definition parseBitwiseAnd :: "plib \<Rightarrow> subs \<Rightarrow> expr option parse" where
  "parseBitwiseAnd C R = binaryLevel (pl_utf8 C) andBinds (parseEquality C R)"

definition parseBitwiseXor :: "plib \<Rightarrow> subs \<Rightarrow> expr option parse" where
  "parseBitwiseXor C R = binaryLevel (pl_utf8 C) (\<lambda>P. at P (BitOp Caret)) (parseBitwiseAnd C R)"

definition parseBitwiseOr :: "plib \<Rightarrow> subs \<Rightarrow> expr option parse" where
  "parseBitwiseOr C R = binaryLevel (pl_utf8 C) (\<lambda>P. at P (BitOp Pipe)) (parseBitwiseXor C R)"

definition parseLogicalAnd :: "plib \<Rightarrow> subs \<Rightarrow> expr option parse" where
  "parseLogicalAnd C R = binaryLevel (pl_utf8 C) (\<lambda>P. at P (LogicOp AmpAmp)) (parseBitwiseOr C R)"

definition parseLogicalOr :: "plib \<Rightarrow> subs \<Rightarrow> expr option parse" where
  "parseLogicalOr C R = binaryLevel (pl_utf8 C) (\<lambda>P. at P (LogicOp PipePipe)) (parseLogicalAnd C R)"

definition ternaryRest :: "utf8_lib \<Rightarrow> subs \<Rightarrow> expr \<Rightarrow> expr option parse" where
  "ternaryRest U R cond P = do {
     (a, P1) \<leftarrow> rTernary R P;
     (case a of
        None \<Rightarrow> Some (None, P1)
      | Some t \<Rightarrow>
          (case expect U (SyntaxOp Colon) P1 of
             (False, P2) \<Rightarrow> Some (None, P2)
           | (True, P2) \<Rightarrow> do {
               (b, P3) \<leftarrow> rTernary R P2;
               Some (map_option (\<lambda>f. TernaryExpr cond t f (expr_getLoc cond)) b, P3)}))}"

definition parseTernary :: "plib \<Rightarrow> subs \<Rightarrow> expr option parse" where
  "parseTernary C R P = do {
     (cond, P1) \<leftarrow> parseLogicalOr C R P;
     (case cond of
        None \<Rightarrow> Some (None, P1)
      | Some c \<Rightarrow>
          (case consumeIf (pl_utf8 C) (SyntaxOp Question) P1 of
             (True, P2) \<Rightarrow> ternaryRest (pl_utf8 C) R c P2
           | (False, P2) \<Rightarrow> Some (cond, P2)))}"

definition parseAssignment :: "plib \<Rightarrow> subs \<Rightarrow> expr option parse" where
  "parseAssignment C R P = do {
     (left, P1) \<leftarrow> parseTernary C R P;
     (case left of
        None \<Rightarrow> Some (None, P1)
      | Some l \<Rightarrow>
          (if isAny (curTok P1) assignOps then do {
             (right, P2) \<leftarrow> rExpression R (consume (pl_utf8 C) P1);
             Some (map_option (\<lambda>r. BinaryExpr (Some l) (tok_kind (curTok P1)) (Some r) (location P1)) right, P2)}
           else Some (left, P1)))}"

definition parseExpression :: "plib \<Rightarrow> subs \<Rightarrow> expr option parse" where
  "parseExpression C R = parseAssignment C R"

end
