(* ===== verification/ParserDecl.thy ===== *)
theory ParserDecl
  imports ParserExpr
begin

text \<open>
  Declarations (\<open>lib/frontend/parser/Parser.cpp\<close>, \<open>parseTopLevelDecls\<close> to \<open>parseMacroDecl\<close>).  The four
  loops over modifiers differ in the modifiers they take; each collects them into a record.
\<close>

subsection \<open>Modifiers\<close>

record modifiers =
  m_vis :: Visibility
  m_static :: bool
  m_async :: bool
  m_shared :: bool
  m_weak :: bool
  m_extern :: bool
  m_externLinkage :: string
  m_interrupt :: bool
  m_naked :: bool
  m_noReturn :: bool
  m_noInline :: bool
  m_inline :: bool
  m_pure :: bool
  m_cold :: bool
  m_packed :: bool
  m_alignment :: "32 word"
  m_section :: string
  m_used :: bool
  m_threadLocal :: bool
  m_virtual :: bool
  m_override :: bool

definition noModifiers :: modifiers where
  "noModifiers = \<lparr>m_vis = V_Default, m_static = False, m_async = False, m_shared = False, m_weak = False,
     m_extern = False, m_externLinkage = [], m_interrupt = False, m_naked = False, m_noReturn = False,
     m_noInline = False, m_inline = False, m_pure = False, m_cold = False, m_packed = False, m_alignment = 0,
     m_section = [], m_used = False, m_threadLocal = False, m_virtual = False, m_override = False\<rparr>"

definition setFlag :: "TokenKind \<Rightarrow> modifiers \<Rightarrow> modifiers" where
  "setFlag k M =
     (if k = ModKw KwPublic then M\<lparr>m_vis := V_Public\<rparr>
      else if k = ModKw KwPrivate then M\<lparr>m_vis := V_Private\<rparr>
      else if k = ModKw KwProtected then M\<lparr>m_vis := V_Protected\<rparr>
      else if k = ModKw KwStatic then M\<lparr>m_static := True\<rparr>
      else if k = ConcKw KwAsync then M\<lparr>m_async := True\<rparr>
      else if k = CoreKw KwShared then M\<lparr>m_shared := True\<rparr>
      else if k = CoreKw KwWeak then M\<lparr>m_weak := True\<rparr>
      else if k = LowKw KwInterrupt then M\<lparr>m_interrupt := True\<rparr>
      else if k = LowKw KwNaked then M\<lparr>m_naked := True\<rparr>
      else if k = LowKw KwNoreturn then M\<lparr>m_noReturn := True\<rparr>
      else if k = LowKw KwNoinline then M\<lparr>m_noInline := True\<rparr>
      else if k = LowKw KwInline then M\<lparr>m_inline := True\<rparr>
      else if k = LowKw KwPure then M\<lparr>m_pure := True\<rparr>
      else if k = LowKw KwCold then M\<lparr>m_cold := True\<rparr>
      else if k = LowKw KwPacked then M\<lparr>m_packed := True\<rparr>
      else if k = AsmKw KwUsed then M\<lparr>m_used := True\<rparr>
      else if k = AsmKw KwThreadLocal then M\<lparr>m_threadLocal := True\<rparr>
      else if k = OopKw KwVirtual then M\<lparr>m_virtual := True\<rparr>
      else if k = OopKw KwOverride then M\<lparr>m_override := True\<rparr>
      else M)"

text \<open>\<open>align(n)\<close>, \<open>section("s")\<close> and \<open>extern "C"\<close>, behind their keyword.\<close>

definition alignModifier :: "utf8_lib \<Rightarrow> modifiers \<Rightarrow> modifiers parse" where
  "alignModifier U M P =
     (let P1 = expects U (Bracket LParen) P
      in do {
        (M1, P2) \<leftarrow> (if at P1 IntegerLiteral then
                        (case stoul10 (spelling P1) of
                           None \<Rightarrow> None
                         | Some (Some v) \<Rightarrow> Some (M\<lparr>m_alignment := ucast v\<rparr>, consume U P1)
                         | Some None \<Rightarrow>
                             Some (M\<lparr>m_alignment := 0\<rparr>, consume U (parseError ''Alignment value is too large'' P1)))
                      else Some (M, parseError ''Expected integer alignment'' P1));
        Some (M1, expects U (Bracket RParen) P2)})"

definition sectionModifier :: "utf8_lib \<Rightarrow> modifiers \<Rightarrow> parser \<Rightarrow> modifiers \<times> parser" where
  "sectionModifier U M P =
     (case stringToken U ''Expected section name'' (expects U (Bracket LParen) P) of
        (s, P1) \<Rightarrow> (case s of Some x \<Rightarrow> M\<lparr>m_section := x\<rparr> | None \<Rightarrow> M, expects U (Bracket RParen) P1))"

definition externModifier :: "utf8_lib \<Rightarrow> modifiers \<Rightarrow> parser \<Rightarrow> modifiers \<times> parser" where
  "externModifier U M P =
     (if at P StringLiteral then (M\<lparr>m_extern := True, m_externLinkage := unquote (spelling P)\<rparr>, consume U P)
      else (M\<lparr>m_extern := True\<rparr>, P))"

definition modifierStep :: "utf8_lib \<Rightarrow> TokenKind list \<Rightarrow> modifiers \<times> parser \<Rightarrow>
    ((modifiers \<times> parser) + (modifiers \<times> parser)) option" where
  "modifierStep U allowed = (\<lambda>(M, P).
     (let k = tok_kind (curTok P); P1 = advance U P
      in if k \<notin> set allowed then Some (Inr (M, P))
         else if k = LowKw KwAlign then do { s \<leftarrow> alignModifier U M P1; Some (Inl s) }
         else if k = AsmKw KwSection then Some (Inl (sectionModifier U M P1))
         else if k = AsmKw KwExtern then Some (Inl (externModifier U M P1))
         else Some (Inl (setFlag k M, P1))))"

definition parseModifiers :: "utf8_lib \<Rightarrow> TokenKind list \<Rightarrow> modifiers parse" where
  "parseModifiers U allowed P = loop (modifierStep U allowed) (noModifiers, P)"

definition memberModifiers :: "TokenKind list" where
  "memberModifiers = [ModKw KwPublic, ModKw KwPrivate, ModKw KwProtected, ModKw KwStatic, ConcKw KwAsync,
     CoreKw KwShared, CoreKw KwWeak]"

definition classMemberModifiers :: "TokenKind list" where
  "classMemberModifiers = memberModifiers @ [AsmKw KwThreadLocal, LowKw KwAlign, AsmKw KwSection, OopKw KwVirtual,
     OopKw KwOverride, AsmKw KwUsed, LowKw KwNoinline, LowKw KwInline, LowKw KwPure, LowKw KwCold]"

definition topLevelModifiers :: "TokenKind list" where
  "topLevelModifiers = memberModifiers @ [AsmKw KwExtern, LowKw KwInterrupt, LowKw KwNaked, LowKw KwNoreturn,
     LowKw KwNoinline, LowKw KwInline, LowKw KwPure, LowKw KwCold, LowKw KwPacked, LowKw KwAlign, AsmKw KwSection,
     AsmKw KwUsed, AsmKw KwThreadLocal]"

definition variableModifiers :: "TokenKind list" where
  "variableModifiers = [ModKw KwPublic, ModKw KwPrivate, ModKw KwProtected, ModKw KwStatic, CoreKw KwShared,
     AsmKw KwExtern, AsmKw KwUsed, AsmKw KwThreadLocal, LowKw KwAlign, AsmKw KwSection]"

subsection \<open>Functions and variables\<close>

text \<open>The parameters; \<open>...\<close> ends the list.\<close>

type_synonym param = "string \<times> ast_type option \<times> ptr \<times> expr option"

definition paramStep :: "utf8_lib \<Rightarrow> subs \<Rightarrow> param list \<times> parser \<Rightarrow>
    ((param list \<times> parser) + ((param list \<times> bool) \<times> parser)) option" where
  "paramStep U R = (\<lambda>(acc, P).
     (case consumeIf U (SyntaxOp DotDotDot) P of
        (True, P1) \<Rightarrow> Some (Inr ((acc, True), P1))
      | (False, P1) \<Rightarrow> do {
          (t, P2) \<leftarrow> rType R P1;
          (let (n, P3) = (if at P2 Identifier then (spelling P2, consume U P2) else ([], P2))
           in do {
             (d, P4) \<leftarrow> optionalInit U R P3;
             (let acc1 = acc @ [(n, t, location P2, d)]
              in case consumeIf U (SyntaxOp Comma) P4 of
                   (True, P5) \<Rightarrow> Some (Inl (acc1, P5))
                 | (False, P5) \<Rightarrow> Some (Inr ((acc1, False), P5)))})}))"

text \<open>\<open>while (curTok is view or mut)\<close>: whether \<open>view\<close> was there.\<close>

definition viewStep :: "utf8_lib \<Rightarrow> bool \<times> parser \<Rightarrow> ((bool \<times> parser) + (bool \<times> parser)) option" where
  "viewStep U = (\<lambda>(v, P).
     if at P (BorrowKw KwView) then Some (Inl (True, advance U P))
     else if at P (BorrowKw KwMut) then Some (Inl (v, advance U P))
     else Some (Inr (v, P)))"

definition parseFunctionRest :: "utf8_lib \<Rightarrow> subs \<Rightarrow> ast_type \<Rightarrow> string \<Rightarrow> bool \<Rightarrow> bool \<Rightarrow> bool \<Rightarrow> Visibility \<Rightarrow>
    decl parse" where
  "parseFunctionRest U R returnType name isAsync isStatic isWeak vis P =
     (let P1 = expects U (Bracket LParen) P
      in do {
        ((params, isVariadic), P2) \<leftarrow>
          (if at P1 (Bracket RParen) then Some (([], False), P1) else loop (paramStep U R) ([], P1));
        (isView, P3) \<leftarrow> loop (viewStep U) (False, expects U (Bracket RParen) P2);
        (body, P4) \<leftarrow> (case consumeIf U (SyntaxOp Semicolon) P3 of
                         (True, Q) \<Rightarrow> Some (None, Q)
                       | (False, Q) \<Rightarrow> present (parseBlock U R Q));
        Some (FunctionDecl name params returnType body
                ((mkFunAttrs isAsync isStatic isVariadic isWeak vis)\<lparr>fa_view := isView\<rparr>)
                (type_getLoc returnType), P4)})"

definition bitFieldWidth :: "utf8_lib \<Rightarrow> int parse" where
  "bitFieldWidth U P =
     (if at P IntegerLiteral then
        (case stoi10 (spelling P) of
           None \<Rightarrow> None
         | Some (Some v) \<Rightarrow> Some (v, consume U P)
         | Some None \<Rightarrow> Some (-1, consume U (parseError ''Bitfield width is too large'' P)))
      else Some (-1, parseError ''Expected integer literal for bitfield width'' P))"

text \<open>What is read behind the name: the width, or the initializer; \<open>None\<close> if an initializer is missing.\<close>

definition variableTail :: "utf8_lib \<Rightarrow> subs \<Rightarrow> (int \<times> expr option) option parse" where
  "variableTail U R P =
     (case consumeIf U (SyntaxOp Colon) P of
        (True, P1) \<Rightarrow> do { (w, P2) \<leftarrow> bitFieldWidth U P1; Some (Some (w, None), P2) }
      | (False, P1) \<Rightarrow>
          (case consumeIf U (AssignOp Equal) P1 of
             (True, P2) \<Rightarrow> do {
               (e, P3) \<leftarrow> rExpression R P2;
               Some (case e of None \<Rightarrow> None | Some x \<Rightarrow> Some (-1, Some x), P3) }
           | (False, P2) \<Rightarrow> Some (Some (-1, None), P2)))"

definition parseVariableRest :: "utf8_lib \<Rightarrow> subs \<Rightarrow> ast_type \<Rightarrow> string \<Rightarrow> bool \<Rightarrow> bool \<Rightarrow> bool \<Rightarrow> Visibility \<Rightarrow>
    decl option parse" where
  "parseVariableRest U R t name isConst isStatic isShared vis P = do {
     (tail, P1) \<leftarrow> variableTail U R P;
     (let loc = type_getLoc t
      in Some (case tail of
           None \<Rightarrow> None
         | Some (width, init) \<Rightarrow>
             Some (VariableDecl (Some t) name
               (if init = None \<and> isNullableTy t then Some (NullLit loc) else init)
               ((mkVarAttrs isConst isStatic (Some isShared) vis)\<lparr>va_bitWidth := width\<rparr>) loc), P1))}"

fun mapVar :: "(var_attrs \<Rightarrow> var_attrs) \<Rightarrow> decl \<Rightarrow> decl" where
  "mapVar f (VariableDecl t n e a l) = VariableDecl t n e (f a) l"
| "mapVar f d = d"

fun mapFun :: "(fun_attrs \<Rightarrow> fun_attrs) \<Rightarrow> decl \<Rightarrow> decl" where
  "mapFun f (FunctionDecl n ps r b a l) = FunctionDecl n ps r b (f a) l"
| "mapFun f d = d"

fun mapClass :: "(class_attrs \<Rightarrow> class_attrs) \<Rightarrow> decl \<Rightarrow> decl" where
  "mapClass f (ClassDecl n ps ms r k a l) = ClassDecl n ps ms r k (f a) l"
| "mapClass f d = d"

text \<open>
  \<open>make_unique<NullableType>(make_unique<WeakType>(std::move(t), t->getLoc()), t->getLoc())\<close>: when the
  inner call is evaluated first, \<open>t\<close> is null at the second \<open>getLoc\<close>.
\<close>

definition weakType :: "plib \<Rightarrow> ast_type \<Rightarrow> ast_type option" where
  "weakType C t =
     (if pl_argsRightToLeft C then Some (NullableTy (Some (WeakTy t (type_getLoc t))) (type_getLoc t)) else None)"

definition appendDecl :: "decl list \<Rightarrow> decl option \<Rightarrow> decl list" where
  "appendDecl ds d = (case d of None \<Rightarrow> ds | Some x \<Rightarrow> ds @ [x])"

text \<open>The end of a declaration: a semicolon, \<open>in\<close>, a new line, \<open>}\<close> or the end of the file.\<close>

definition declEnd :: "utf8_lib \<Rightarrow> parser \<Rightarrow> parser" where
  "declEnd U P =
     (case consumeIf U (SyntaxOp Semicolon) P of
        (True, P1) \<Rightarrow> P1
      | (False, P1) \<Rightarrow>
          (if at P1 (FlowKw KwIn) then P1
           else if hasNewlineBeforeToken P1 \<or> at P1 Eof \<or> at P1 (Bracket RBrace) then P1
           else parseError (''Expected '' @ quoted '';'' @ '' or newline after declaration'') P1))"

definition variableAttrs :: "modifiers \<Rightarrow> bool \<Rightarrow> var_attrs \<Rightarrow> var_attrs" where
  "variableAttrs M isVolatile a =
     a\<lparr>va_volatile := isVolatile, va_extern := m_extern M, va_alignment := m_alignment M,
       va_section := m_section M, va_used := m_used M, va_threadLocal := m_threadLocal M\<rparr>"

definition variableStep :: "utf8_lib \<Rightarrow> subs \<Rightarrow> modifiers \<Rightarrow> (ast_type \<times> decl list) \<times> parser \<Rightarrow>
    (((ast_type \<times> decl list) \<times> parser) + (decl list \<times> parser)) option" where
  "variableStep U R M = (\<lambda>((t, ds), P). do {
     clonedType \<leftarrow> type_clone t;
     (d, P1) \<leftarrow> parseVariableRest U R clonedType (spelling P) (type_isImmutable t) (m_static M) (m_shared M) (m_vis M)
                  (expects U Identifier P);
     (let ds1 = appendDecl ds (map_option (mapVar (variableAttrs M (isVolatileTy t))) d)
      in case consumeIf U (SyntaxOp Comma) P1 of
           (False, P2) \<Rightarrow> Some (Inr (ds1, declEnd U P2))
         | (True, P2) \<Rightarrow>
             (if isStartOfDeclaration P2 then do {
                (t1, P3) \<leftarrow> rType R P2;
                Some (Inl ((case t1 of Some u \<Rightarrow> u | None \<Rightarrow> t, ds1), P3)) }
              else Some (Inl ((t, ds1), P2))))})"

definition parseVariableDecls :: "utf8_lib \<Rightarrow> subs \<Rightarrow> decl list parse" where
  "parseVariableDecls U R P = do {
     (M, P1) \<leftarrow> parseModifiers U variableModifiers P;
     (t, P2) \<leftarrow> rType R P1;
     (case t of
        None \<Rightarrow> Some ([], P2)
      | Some ty \<Rightarrow> loop (variableStep U R M) ((ty, []), P2))}"

subsection \<open>Imports, enums and macros\<close>

definition stripQuotes :: "string \<Rightarrow> string" where
  "stripQuotes s =
     (if 2 \<le> length s \<and> (hd s = CHR 0x22 \<or> hd s = CHR 0x60 \<or> hd s = CHR 0x27)
      then take (length s - 2) (drop 1 s) else s)"

definition moduleNameToken :: "utf8_lib \<Rightarrow> parser \<Rightarrow> string \<times> parser" where
  "moduleNameToken U P =
     (if at P StringLiteral \<or> at P Identifier then (stripQuotes (spelling P), consume U P)
      else ([], parseError (''Expected string literal or identifier after '' @ quoted ''from'') P))"

definition importAlias :: "utf8_lib \<Rightarrow> parser \<Rightarrow> string \<times> parser" where
  "importAlias U P =
     (case consumeIf U (TypeKw KwAs) P of
        (False, P1) \<Rightarrow> ([], P1)
      | (True, P1) \<Rightarrow>
          (if at P1 Identifier then (spelling P1, consume U P1)
           else ([], parseError (''Expected identifier after '' @ quoted ''as'') P1)))"

definition parseImportDecl :: "utf8_lib \<Rightarrow> decl parse" where
  "parseImportDecl U P = do {
     ((moduleName, aliasName, symbols), P1) \<leftarrow>
       (if at P (ConcKw KwFrom) then
          (case moduleNameToken U (advance U P) of
             (name, Q) \<Rightarrow> do {
               (symbols, Q1) \<leftarrow> parseImportSymbolList U (expects U (Bracket LBrace) (expects U (ConcKw KwImport) Q));
               Some ((name, [], symbols), Q1)})
        else if at P (ConcKw KwImport) then
          (let Q = advance U P
           in if at Q (Bracket LBrace) then do {
                (symbols, Q1) \<leftarrow> parseImportSymbolList U (consume U Q);
                (case moduleNameToken U (expects U (ConcKw KwFrom) Q1) of
                   (name, Q2) \<Rightarrow> Some ((name, [], symbols), Q2)) }
              else if at Q StringLiteral \<or> at Q Identifier then
                (case importAlias U (consume U Q) of
                   (alias, Q1) \<Rightarrow> Some ((stripQuotes (spelling Q), alias, []), Q1))
              else Some (([], [], []), parseError (''Expected '' @ quoted ''{'' @
                           '', identifier, or string literal after '' @ quoted ''import'') Q))
        else Some (([], [], []), P));
     Some (ImportDecl moduleName aliasName symbols (location P), snd (consumeIf U (SyntaxOp Semicolon) P1))}"

text \<open>
  The cases of an enum.  A token that is no identifier is reported and not consumed.
\<close>

definition enumStep :: "utf8_lib \<Rightarrow> subs \<Rightarrow> (string \<times> expr option) list \<times> parser \<Rightarrow>
    (((string \<times> expr option) list \<times> parser) + ((string \<times> expr option) list \<times> parser)) option" where
  "enumStep U R = (\<lambda>(acc, P).
     if isAny (curTok P) [Bracket RBrace, Eof] then Some (Inr (acc, P))
     else do {
       (v, P1) \<leftarrow> optionalInit U R (expects U Identifier P);
       Some (Inl (acc @ [(spelling P, v)], snd (consumeIf U (SyntaxOp Comma) P1)))})"

definition parseEnumDecl :: "utf8_lib \<Rightarrow> subs \<Rightarrow> decl parse" where
  "parseEnumDecl U R P =
     (let P1 = consume U P
      in do {
        (cases, P2) \<leftarrow> loop (enumStep U R) ([], expects U (Bracket LBrace) (expects U Identifier P1));
        Some (EnumDecl (spelling P1) cases (location P), expects U (Bracket RBrace) P2)})"

definition macroParam :: "utf8_lib \<Rightarrow> string list parse" where
  "macroParam U P =
     (if at P Identifier then Some ([spelling P], consume U P)
      else do {
        P1 \<leftarrow> skipTo U [SyntaxOp Comma, Bracket RParen, Eof]
                (parseError ''Expected identifier in macro parameters'' P);
        Some ([], P1)})"

definition macroParams :: "utf8_lib \<Rightarrow> string list parse" where
  "macroParams U P = do {
     (ps, P1) \<leftarrow> (if at P (Bracket RParen) then Some ([], P) else commaList U (macroParam U) P);
     (case expect U (Bracket RParen) P1 of
        (True, P2) \<Rightarrow> Some (concat ps, P2)
      | (False, P2) \<Rightarrow> do { P3 \<leftarrow> skipTo U [Bracket LBrace, Eof] P2; Some (concat ps, P3) })}"

definition macroBody :: "utf8_lib \<Rightarrow> subs \<Rightarrow> ptr \<Rightarrow> stmt list parse" where
  "macroBody U R loc P =
     (if at P (Bracket LBrace) then do {
        (body, P1) \<leftarrow> statementsUntil U R [Bracket RBrace, Eof] (consume U P);
        Some (body, expects U (Bracket RBrace) P1) }
      else do {
        (e, P1) \<leftarrow> rExpression R P;
        Some (case e of Some x \<Rightarrow> [ExpressionStmt x loc] | None \<Rightarrow> [], P1)})"

definition parseMacroDecl :: "utf8_lib \<Rightarrow> subs \<Rightarrow> decl option parse" where
  "parseMacroDecl U R P =
     (let P1 = consume U P
      in case expect U Identifier P1 of
           (False, P2) \<Rightarrow> Some (None, P2)
         | (True, P2) \<Rightarrow>
             (let (isFunctionMacro, P3) = consumeIf U (Bracket LParen) P2
              in do {
                (params, P4) \<leftarrow> (if isFunctionMacro then macroParams U P3 else Some ([], P3));
                (body, P5) \<leftarrow> macroBody U R (location P) P4;
                Some (Some (MacroDecl (spelling P1) params body isFunctionMacro (location P)), P5)}))"

subsection \<open>Classes and generics\<close>

text \<open>A name of a list; the error is the caller's.\<close>

definition nameItem :: "utf8_lib \<Rightarrow> string \<Rightarrow> string list parse" where
  "nameItem U message P =
     (if at P Identifier then Some ([spelling P], consume U P) else Some ([], parseError message P))"

definition isSpecialMember :: "parser \<Rightarrow> bool" where
  "isSpecialMember P \<longleftrightarrow> isAny (curTok P) [CoreKw KwConstructor, CoreKw KwDestructor]"

definition specialMember :: "utf8_lib \<Rightarrow> subs \<Rightarrow> Visibility \<Rightarrow> decl parse" where
  "specialMember U R vis P =
     parseFunctionRest U R (PrimitiveTy S_Void (location P))
       (if at P (CoreKw KwConstructor) then ''constructor'' else ''destructor'') False False False vis (consume U P)"

definition genericField :: "plib \<Rightarrow> subs \<Rightarrow> modifiers \<Rightarrow> ast_type \<Rightarrow> string \<Rightarrow> decl option parse" where
  "genericField C R M t name P = do {
     t1 \<leftarrow> (if m_weak M then weakType C t else Some t);
     (d, P1) \<leftarrow> parseVariableRest (pl_utf8 C) R t1 name (type_isImmutable t) (m_static M) (m_shared M) (m_vis M) P;
     Some (map_option (mapVar (\<lambda>a. a\<lparr>va_volatile := isVolatileTy t\<rparr>)) d, P1)}"

definition genericMember :: "plib \<Rightarrow> subs \<Rightarrow> decl option list parse" where
  "genericMember C R P =
     (let U = pl_utf8 C
      in do {
        (M, P1) \<leftarrow> parseModifiers U memberModifiers P;
        (if isSpecialMember P1 then do {
           (d, P2) \<leftarrow> specialMember U R (m_vis M) P1; Some ([Some d], P2) }
         else do {
           (t, P2) \<leftarrow> rType R P1;
           (case t of
              None \<Rightarrow> do { P3 \<leftarrow> synchronize U P2; Some ([], P3) }
            | Some ty \<Rightarrow>
                (let name = spelling P2; P3 = expects U Identifier P2
                 in if at P3 (Bracket LParen) then do {
                      (d, P4) \<leftarrow> parseFunctionRest U R ty name (m_async M) (m_static M) (m_weak M) (m_vis M) P3;
                      Some ([Some d], P4) }
                    else do { (d, P4) \<leftarrow> genericField C R M ty name P3; Some ([d], P4) }))})})"

text \<open>\<open>while (curTok is neither } nor Eof) member\<close>\<close>

definition memberStep :: "decl option list parse \<Rightarrow> decl option list \<times> parser \<Rightarrow>
    ((decl option list \<times> parser) + (decl option list \<times> parser)) option" where
  "memberStep member = (\<lambda>(acc, P).
     if isAny (curTok P) [Bracket RBrace, Eof] then Some (Inr (acc, P))
     else do { (ds, P1) \<leftarrow> member P; Some (Inl (acc @ ds, P1)) })"

definition typeParam :: "utf8_lib \<Rightarrow> (string \<times> bool \<times> ptr) list parse" where
  "typeParam U P =
     (let (isShared, P1) = consumeIf U (CoreKw KwShared) P
      in if at P1 Identifier then Some ([(spelling P1, isShared, location P1)], consume U P1)
         else Some ([], parseError ''Expected type parameter name'' P1))"

definition genericParams :: "utf8_lib \<Rightarrow> (string \<times> bool \<times> ptr) list parse" where
  "genericParams U P =
     (case consumeIf U (RelOp Less) P of
        (False, P1) \<Rightarrow> Some ([], P1)
      | (True, P1) \<Rightarrow> do { (xs, P2) \<leftarrow> commaList U (typeParam U) P1; Some (concat xs, expectsGreater U P2) })"

definition genericClass :: "plib \<Rightarrow> subs \<Rightarrow> ptr \<Rightarrow> string \<Rightarrow> decl parse" where
  "genericClass C R loc name P =
     (let U = pl_utf8 C
      in do {
        (parents, P1) \<leftarrow>
          (case consumeIf U (Bracket LParen) P of
             (False, Q) \<Rightarrow> Some ([], Q)
           | (True, Q) \<Rightarrow> do {
               (xs, Q1) \<leftarrow> commaList U (nameItem U ''Expected parent class name'') Q;
               Some (concat xs, expects U (Bracket RParen) Q1)});
        (members, P2) \<leftarrow> loop (memberStep (genericMember C R)) ([], expects U (Bracket LBrace) P1);
        Some (ClassDecl name parents members False A_Class \<lparr>ca_packed = False, ca_alignment = 0, ca_section = []\<rparr> loc,
              expects U (Bracket RBrace) P2)})"

definition parseGenericDecl :: "plib \<Rightarrow> subs \<Rightarrow> decl option parse" where
  "parseGenericDecl C R P =
     (let U = pl_utf8 C; loc = location P; P1 = expects U (DataKw KwGeneric) P;
          (name, P2) = (if at P1 Identifier then (spelling P1, consume U P1) else ([], P1))
      in do {
        (typeParams, P3) \<leftarrow> genericParams U P2;
        (if name \<noteq> [] \<and> (at P3 (Bracket LBrace) \<or> at P3 (Bracket LParen)) then do {
           (d, P4) \<leftarrow> genericClass C R loc name P3;
           Some (Some (GenericDecl name typeParams d loc), P4) }
         else do {
           (ds, P4) \<leftarrow> rDecls R P3;
           Some (case ds of [] \<Rightarrow> None | d # _ \<Rightarrow> Some (GenericDecl (decl_getName d) typeParams d loc), P4)})})"

text \<open>The name of a member: an identifier, or \<open>operator\<close> and an operator symbol.\<close>

definition operatorTable :: "(TokenKind \<times> string) list" where
  "operatorTable = [(MathOp Plus, ''+''), (MathOp Minus, ''-''), (MathOp Star, ''*''), (MathOp Slash, ''/''),
     (RelOp EqualEqual, ''==''), (RelOp NotEqual, ''!=''), (RelOp Less, ''<''), (RelOp Greater, ''>''),
     (RelOp LessEqual, ''<=''), (RelOp GreaterEqual, ''>='')]"

definition memberName :: "utf8_lib \<Rightarrow> parser \<Rightarrow> string \<times> parser" where
  "memberName U P =
     (case consumeIf U (CoreKw KwOperator) P of
        (False, P1) \<Rightarrow> (spelling P1, expects U Identifier P1)
      | (True, P1) \<Rightarrow>
          (case map_of operatorTable (tok_kind (curTok P1)) of
             Some s \<Rightarrow> (''operator'' @ s, consume U P1)
           | None \<Rightarrow>
               (if at P1 (Bracket LBracket) then
                  (case consumeIf U (Bracket RBracket) (consume U P1) of
                     (True, P2) \<Rightarrow> (''operator[]'', P2)
                   | (False, P2) \<Rightarrow> (''operator['', P2))
                else (''operator'', parseError ''Invalid operator for overloading'' P1))))"

definition fieldAttrs :: "modifiers \<Rightarrow> bool \<Rightarrow> var_attrs \<Rightarrow> var_attrs" where
  "fieldAttrs M isVolatile a =
     a\<lparr>va_volatile := isVolatile, va_alignment := m_alignment M, va_section := m_section M,
       va_threadLocal := m_threadLocal M\<rparr>"

definition classField :: "plib \<Rightarrow> subs \<Rightarrow> modifiers \<Rightarrow> ast_type \<Rightarrow> string \<Rightarrow> decl option parse" where
  "classField C R M t name P = do {
     t1 \<leftarrow> (if m_weak M then weakType C t else Some t);
     (d, P1) \<leftarrow> parseVariableRest (pl_utf8 C) R t1 name (type_isImmutable t) (m_static M) (m_shared M) (m_vis M) P;
     Some (map_option (mapVar (fieldAttrs M (isVolatileTy t))) d, P1)}"

definition fieldStep :: "plib \<Rightarrow> subs \<Rightarrow> modifiers \<Rightarrow> ast_type \<Rightarrow> decl option list \<times> parser \<Rightarrow>
    ((decl option list \<times> parser) + (decl option list \<times> parser)) option" where
  "fieldStep C R M t = (\<lambda>(acc, P).
     (case consumeIf (pl_utf8 C) (SyntaxOp Comma) P of
        (False, P1) \<Rightarrow> Some (Inr (acc, P1))
      | (True, P1) \<Rightarrow> do {
          nextType \<leftarrow> type_clone t;
          (d, P2) \<leftarrow> classField C R M nextType (spelling P1) (expects (pl_utf8 C) Identifier P1);
          Some (Inl (acc @ [d], P2))}))"

definition classFields :: "plib \<Rightarrow> subs \<Rightarrow> modifiers \<Rightarrow> ast_type \<Rightarrow> string \<Rightarrow> decl option list parse" where
  "classFields C R M t name P =
     (let P1 = (if m_virtual M \<or> m_override M then
                  parseError (''Variables cannot be marked '' @ quoted ''virtual'' @ '' or '' @ quoted ''override'') P
                else P);
          P2 = (if m_async M then parseError (quoted ''async'' @ '' on fields not supported'') P1 else P1)
      in do {
        baseType \<leftarrow> type_clone t;
        (d, P3) \<leftarrow> classField C R M t name P2;
        (ds, P4) \<leftarrow> loop (fieldStep C R M baseType) ([d], P3);
        Some (ds, snd (consumeIf (pl_utf8 C) (SyntaxOp Semicolon) P4))})"

definition methodAttrs :: "modifiers \<Rightarrow> fun_attrs \<Rightarrow> fun_attrs" where
  "methodAttrs M a =
     a\<lparr>fa_section := m_section M, fa_virtual := m_virtual M, fa_override := m_override M, fa_naked := False,
       fa_noReturn := False, fa_noInline := m_noInline M, fa_inline := m_inline M, fa_pure := m_pure M,
       fa_cold := m_cold M, fa_used := m_used M\<rparr>"

definition classMethod :: "utf8_lib \<Rightarrow> subs \<Rightarrow> modifiers \<Rightarrow> ast_type \<Rightarrow> string \<Rightarrow> decl option list parse" where
  "classMethod U R M t name P =
     (let P1 = (if type_isImmutable t then parseError (quoted ''const'' @ '' on methods not supported yet'') P else P)
      in do {
        (d, P2) \<leftarrow> parseFunctionRest U R t name (m_async M) (m_static M) (m_weak M) (m_vis M) P1;
        Some ([Some (mapFun (methodAttrs M) d)], P2)})"

definition classMember :: "plib \<Rightarrow> subs \<Rightarrow> decl option list parse" where
  "classMember C R P =
     (let U = pl_utf8 C
      in do {
        (M, P1) \<leftarrow> parseModifiers U classMemberModifiers P;
        (if isSpecialMember P1 then do {
           (d, P2) \<leftarrow> specialMember U R (m_vis M) P1; Some ([Some d], P2) }
         else do {
           (t, P2) \<leftarrow> rType R P1;
           (case t of
              None \<Rightarrow> do { P3 \<leftarrow> synchronize U P2; Some ([], P3) }
            | Some ty \<Rightarrow>
                (case memberName U P2 of
                   (name, P3) \<Rightarrow>
                     (if at P3 (Bracket LParen) then classMethod U R M ty name P3
                      else classFields C R M ty name P3)))})})"

text \<open>The parent list of a class: an element that is no identifier ends the declaration.\<close>

definition parentStep :: "utf8_lib \<Rightarrow> string list \<times> parser \<Rightarrow>
    ((string list \<times> parser) + (string list option \<times> parser)) option" where
  "parentStep U = (\<lambda>(acc, P).
     if at P Identifier then
       (case consumeIf U (SyntaxOp Comma) (consume U P) of
          (True, P1) \<Rightarrow> Some (Inl (acc @ [spelling P], P1))
        | (False, P1) \<Rightarrow>
            (case expect U (Bracket RParen) P1 of
               (True, P2) \<Rightarrow> Some (Inr (Some (acc @ [spelling P]), P2))
             | (False, P2) \<Rightarrow> Some (Inr (None, P2))))
     else Some (Inr (None, parseError ''Expected parent class name'' P)))"

definition classBody :: "plib \<Rightarrow> subs \<Rightarrow> (decl option list \<Rightarrow> decl) \<Rightarrow> decl option parse" where
  "classBody C R mk P =
     (case expect (pl_utf8 C) (Bracket LBrace) P of
        (False, P1) \<Rightarrow> Some (None, P1)
      | (True, P1) \<Rightarrow> do {
          (members, P2) \<leftarrow> loop (memberStep (classMember C R)) ([], P1);
          Some (Some (mk members), expects (pl_utf8 C) (Bracket RBrace) P2)})"

definition parseClassDecl :: "plib \<Rightarrow> subs \<Rightarrow> decl option parse" where
  "parseClassDecl C R P =
     (let U = pl_utf8 C; (isRef, P1) = consumeIf U (CoreKw KwRef) P;
          aggKind = (if at P1 (DataKw KwStruct) then A_Struct else if at P1 (DataKw KwUnion) then A_Union else A_Class)
      in if isAny (curTok P1) [CoreKw KwClass, DataKw KwStruct, DataKw KwUnion] then
           (let P2 = consume U P1
            in case expect U Identifier P2 of
                 (False, P3) \<Rightarrow> Some (None, P3)
               | (True, P3) \<Rightarrow> do {
                   (parents, P4) \<leftarrow> (case consumeIf U (Bracket LParen) P3 of
                                        (False, Q) \<Rightarrow> Some (Some [], Q)
                                      | (True, Q) \<Rightarrow> loop (parentStep U) ([], Q));
                   (case parents of
                      None \<Rightarrow> Some (None, P4)
                    | Some ps \<Rightarrow>
                        classBody C R (\<lambda>ms. ClassDecl (spelling P2) ps ms isRef aggKind
                           \<lparr>ca_packed = False, ca_alignment = 0, ca_section = []\<rparr> (location P1)) P4)})
         else Some (None, parseError (''Expected '' @ quoted ''class'' @ '', '' @ quoted ''struct'' @ '', or '' @
                            quoted ''union'') P1))"

subsection \<open>Top-level declarations\<close>

definition single :: "('a option \<times> parser) option \<Rightarrow> ('a list \<times> parser) option" where
  "single m = do { (d, P) \<leftarrow> m; Some (case d of Some x \<Rightarrow> [x] | None \<Rightarrow> [], P) }"

definition functionAttrs :: "modifiers \<Rightarrow> fun_attrs \<Rightarrow> fun_attrs" where
  "functionAttrs M a =
     a\<lparr>fa_extern := m_extern M, fa_externLinkage := m_externLinkage M,
       fa_abi := (if m_externLinkage M = [] then fa_abi a else m_externLinkage M),
       fa_interrupt := m_interrupt M, fa_naked := m_naked M, fa_noReturn := m_noReturn M,
       fa_noInline := m_noInline M, fa_inline := m_inline M, fa_pure := m_pure M, fa_cold := m_cold M,
       fa_used := m_used M, fa_section := m_section M\<rparr>"

text \<open>
  A variable of the list \<open>T a = 1, b, ...\<close>.  \<open>weak\<close> on an object type is an ARC reference, on any other
  type weak linkage.
\<close>

definition globalType :: "plib \<Rightarrow> modifiers \<Rightarrow> ast_type \<Rightarrow> (ast_type \<times> bool) option" where
  "globalType C M t = do {
     clonedType \<leftarrow> type_clone t;
     (if m_weak M \<and> isObjectTy clonedType then do { w \<leftarrow> weakType C clonedType; Some (w, True) }
      else Some (clonedType, False))}"

definition globalStep :: "plib \<Rightarrow> subs \<Rightarrow> modifiers \<Rightarrow> ast_type \<Rightarrow> (string \<times> decl list) \<times> parser \<Rightarrow>
    (((string \<times> decl list) \<times> parser) + (decl list \<times> parser)) option" where
  "globalStep C R M t = (\<lambda>((name, ds), P). (let U = pl_utf8 C in do {
     (t1, isARCWeak) \<leftarrow> globalType C M t;
     (d, P1) \<leftarrow> parseVariableRest U R t1 name (type_isImmutable t) (m_static M) (m_shared M) (m_vis M) P;
     (let ds1 = appendDecl ds (map_option (mapVar (\<lambda>a.
                  (variableAttrs M (isVolatileTy t) a)\<lparr>va_weakLinkage := m_weak M \<and> \<not> isARCWeak\<rparr>)) d)
      in case consumeIf U (SyntaxOp Comma) P1 of
           (True, P2) \<Rightarrow> Some (Inl ((spelling P2, ds1), expects U Identifier P2))
         | (False, P2) \<Rightarrow> Some (Inr (ds1, declEnd U P2)))}))"

definition globalDecls :: "plib \<Rightarrow> subs \<Rightarrow> modifiers \<Rightarrow> decl list parse" where
  "globalDecls C R M P =
     (let U = pl_utf8 C
      in do {
        (t, P1) \<leftarrow> rType R P;
        (case t of
           None \<Rightarrow> Some ([], if m_vis M \<noteq> V_Default \<or> m_static M \<or> m_async M
                            then parseError ''Expected declaration after modifiers'' P1 else P1)
         | Some ty \<Rightarrow>
             (let name = spelling P1; P2 = expects U Identifier P1
              in if at P2 (Bracket LParen) then do {
                   (d, P3) \<leftarrow> parseFunctionRest U R ty name (m_async M) (m_static M) (m_weak M) (m_vis M) P2;
                   Some ([mapFun (functionAttrs M) d], P3) }
                 else loop (globalStep C R M ty) ((name, []), P2)))})"

definition parseUsingDecl :: "utf8_lib \<Rightarrow> subs \<Rightarrow> decl parse" where
  "parseUsingDecl U R P = do {
     (target, P1) \<leftarrow> rType R (expects U (AssignOp Equal) (expects U Identifier P));
     Some (UsingDecl (spelling P) target (location P), snd (consumeIf U (SyntaxOp Semicolon) P1))}"

definition parseTopLevelDecls :: "plib \<Rightarrow> subs \<Rightarrow> decl list parse" where
  "parseTopLevelDecls C R P =
     (let U = pl_utf8 C
      in do {
        (M, P1) \<leftarrow> parseModifiers U topLevelModifiers P;
        (if at P1 (AsmKw KwUsing) then single (present (parseUsingDecl U R (advance U P1)))
         else if at P1 (ConcKw KwImport) \<or> at P1 (ConcKw KwFrom) then single (present (parseImportDecl U P1))
         else if at P1 (ConcKw KwMacro) then single (parseMacroDecl U R P1)
         else if at P1 (DataKw KwGeneric) then single (parseGenericDecl C R P1)
         else if at P1 (DataKw KwEnum) then single (present (parseEnumDecl U R P1))
         else if isAny (curTok P1) [CoreKw KwClass, DataKw KwStruct, CoreKw KwRef, DataKw KwUnion] then do {
           (d, P2) \<leftarrow> parseClassDecl C R P1;
           single (Some (map_option (mapClass (\<lambda>a. a\<lparr>ca_packed := m_packed M, ca_alignment := m_alignment M,
                                                      ca_section := m_section M\<rparr>)) d, P2)) }
         else globalDecls C R M P1)})"

end
