(* ===== verification/ParserModule.thy ===== *)
theory ParserModule
  imports ParserDecl
begin

text \<open>
  Statements and modules (\<open>lib/frontend/parser/Parser.cpp\<close>, \<open>parseStatement\<close> to \<open>parseThrowStmt\<close>,
  \<open>parseModule\<close>), and the recursion of the parser: \<open>parsers C n\<close> are the methods with at most \<open>n\<close>
  recursive calls nested.  A method that needs more does not return.
\<close>

subsection \<open>Statements\<close>

definition declStatement :: "ptr \<Rightarrow> decl list \<Rightarrow> stmt" where
  "declStatement loc ds =
     (case ds of [d] \<Rightarrow> DeclStmt (Some d) loc | _ \<Rightarrow> BlockStmt (map (\<lambda>d. DeclStmt (Some d) (decl_getLoc d)) ds) loc)"

text \<open>\<open>loopDepth++; parseStatement(); loopDepth--;\<close>\<close>

definition enterLoop :: "parser \<Rightarrow> parser" where
  "enterLoop P = P\<lparr>loopDepth := loopDepth P + 1\<rparr>"

definition leaveLoop :: "parser \<Rightarrow> parser" where
  "leaveLoop P = P\<lparr>loopDepth := loopDepth P - 1\<rparr>"

definition loopBody :: "subs \<Rightarrow> stmt option parse" where
  "loopBody R P = do { (s, P1) \<leftarrow> rStatement R (enterLoop P); Some (s, leaveLoop P1) }"

definition condition :: "utf8_lib \<Rightarrow> subs \<Rightarrow> expr option parse" where
  "condition U R P = do {
     (e, P1) \<leftarrow> rExpression R (expects U (Bracket LParen) P);
     Some (e, expects U (Bracket RParen) P1)}"

definition parseIfStmt :: "utf8_lib \<Rightarrow> subs \<Rightarrow> stmt parse" where
  "parseIfStmt U R P = do {
     (cond, P1) \<leftarrow> condition U R (consume U P);
     (thenStmt, P2) \<leftarrow> rStatement R P1;
     (elseStmt, P3) \<leftarrow> (case consumeIf U (FlowKw KwElse) P2 of
                          (True, Q) \<Rightarrow> rStatement R Q
                        | (False, Q) \<Rightarrow> Some (None, Q));
     Some (IfStmt cond thenStmt elseStmt (location P), P3)}"

definition parseWhileStmt :: "utf8_lib \<Rightarrow> subs \<Rightarrow> stmt parse" where
  "parseWhileStmt U R P = do {
     (cond, P1) \<leftarrow> condition U R (consume U P);
     (body, P2) \<leftarrow> loopBody R P1;
     Some (WhileStmt cond body (location P), P2)}"

definition parseDoWhileStmt :: "utf8_lib \<Rightarrow> subs \<Rightarrow> stmt parse" where
  "parseDoWhileStmt U R P = do {
     (body, P1) \<leftarrow> loopBody R (consume U P);
     (cond, P2) \<leftarrow> condition U R (expects U (FlowKw KwWhile) P1);
     Some (DoWhileStmt body cond (location P), snd (consumeIf U (SyntaxOp Semicolon) P2))}"

definition forInRest :: "utf8_lib \<Rightarrow> subs \<Rightarrow> ptr \<Rightarrow> decl \<Rightarrow> decl option \<Rightarrow> stmt parse" where
  "forInRest U R loc var index P = do {
     (collection, P1) \<leftarrow> rExpression R P;
     (body, P2) \<leftarrow> loopBody R (expects U (Bracket RParen) P1);
     Some (ForInStmt (Some var) index collection body loc, P2)}"

definition untypedVar :: "ptr \<Rightarrow> string \<Rightarrow> decl" where
  "untypedVar loc name =
     VariableDecl (Some (AnyTy loc)) name None (mkVarAttrs False False (Some False) V_Default) loc"

text \<open>\<open>for (x in\<close> and \<open>for (i, x in\<close>: the names in front of \<open>in\<close>.\<close>

definition forNames :: "utf8_lib \<Rightarrow> parser \<Rightarrow> string \<times> string \<times> parser" where
  "forNames U P =
     (case consumeIf U (SyntaxOp Comma) (consume U P) of
        (False, P1) \<Rightarrow> (spelling P, [], P1)
      | (True, P1) \<Rightarrow>
          (if at P1 Identifier then (spelling P, spelling P1, consume U P1)
           else (spelling P, [], parseError ''Expected second identifier in for-in loop'' P1)))"

definition forRest :: "utf8_lib \<Rightarrow> subs \<Rightarrow> ptr \<Rightarrow> stmt option \<Rightarrow> stmt parse" where
  "forRest U R loc init P = do {
     (cond, P1) \<leftarrow> (if at P (SyntaxOp Semicolon) then Some (None, P) else rExpression R P);
     (let P2 = expects U (SyntaxOp Semicolon) P1
      in do {
        (inc, P3) \<leftarrow> (if at P2 (Bracket RParen) then Some (None, P2) else rExpression R P2);
        (body, P4) \<leftarrow> loopBody R (expects U (Bracket RParen) P3);
        Some (ForStmt init cond inc body loc, P4)})}"

definition forDeclared :: "utf8_lib \<Rightarrow> subs \<Rightarrow> ptr \<Rightarrow> decl list \<Rightarrow> stmt parse" where
  "forDeclared U R loc ds P =
     (if length ds \<in> {1, 2} \<and> at P (FlowKw KwIn) then
        (if length ds = 2 then forInRest U R loc (ds ! 1) (Some (ds ! 0)) (advance U P)
         else forInRest U R loc (ds ! 0) None (advance U P))
      else forRest U R loc (if ds = [] then None else Some (declStatement loc ds)) P)"

definition forInit :: "utf8_lib \<Rightarrow> subs \<Rightarrow> ptr \<Rightarrow> stmt parse" where
  "forInit U R loc P =
     (if isStartOfDeclaration P then do {
        (ds, P1) \<leftarrow> parseVariableDecls U R P;
        forDeclared U R loc ds P1 }
      else do {
        (init, P1) \<leftarrow> (if at P (SyntaxOp Semicolon) then Some (None, P)
                       else do {
                         (e, Q) \<leftarrow> rExpression R P;
                         Some (map_option (\<lambda>x. ExpressionStmt x (location Q)) e, Q)});
        forRest U R loc init (expects U (SyntaxOp Semicolon) P1)})"

definition parseForStmt :: "utf8_lib \<Rightarrow> subs \<Rightarrow> stmt parse" where
  "parseForStmt U R P =
     (let loc = location P; P1 = expects U (Bracket LParen) (consume U P); varLoc = location P1
      in if at P1 Identifier \<and> (is_kind (nextTok P1) (FlowKw KwIn) \<or> is_kind (nextTok P1) (SyntaxOp Comma)) then
           (case forNames U P1 of
              (name1, name2, P2) \<Rightarrow>
                (if at P2 (FlowKw KwIn) then
                   (if name2 \<noteq> [] then
                      forInRest U R loc (untypedVar varLoc name2) (Some (untypedVar varLoc name1)) (advance U P2)
                    else forInRest U R loc (untypedVar varLoc name1) None (advance U P2))
                 else forInit U R loc (parseError (''Expected '' @ quoted ''in'' @ '' in for-in loop'') P2)))
         else forInit U R loc P1)"

text \<open>A value of a case: an expression or a range of literals.\<close>

definition caseValue :: "utf8_lib \<Rightarrow> subs \<Rightarrow> expr option parse" where
  "caseValue U R P = do {
     (v, P1) \<leftarrow> rExpression R P;
     (if at P1 (SyntaxOp Colon) \<and> isAny (nextTok P1) [IntegerLiteral, FloatLiteral, StringLiteral, CharLiteral] then do {
        (w, P2) \<leftarrow> rExpression R (consume U P1);
        Some (Some (BinaryExpr v (SyntaxOp Colon) w (location P2)), P2) }
      else Some (v, P1))}"

text \<open>The statements of a case; the end of the file does not end them.\<close>

type_synonym switch_case = "expr option list \<times> stmt \<times> bool"

definition caseStep :: "utf8_lib \<Rightarrow> subs \<Rightarrow> switch_case list \<times> parser \<Rightarrow>
    ((switch_case list \<times> parser) + (switch_case list \<times> parser)) option" where
  "caseStep U R = (\<lambda>(acc, P).
     (case consumeIf U (FlowKw KwCase) P of
        (False, P1) \<Rightarrow> Some (Inr (acc, P1))
      | (True, P1) \<Rightarrow> do {
          (vs, P2) \<leftarrow> commaList U (caseValue U R) P1;
          (ss, P3) \<leftarrow> statementsUntil U R [FlowKw KwCase, FlowKw KwDefault, Bracket RBrace]
                        (expects U (SyntaxOp Colon) P2);
          Some (Inl (acc @ [(vs, BlockStmt ss (location P3), False)], P3))}))"

definition defaultCase :: "utf8_lib \<Rightarrow> subs \<Rightarrow> switch_case list \<Rightarrow> switch_case list parse" where
  "defaultCase U R cases P =
     (case consumeIf U (FlowKw KwDefault) P of
        (False, P1) \<Rightarrow> Some (cases, P1)
      | (True, P1) \<Rightarrow> do {
          (ss, P2) \<leftarrow> statementsUntil U R [Bracket RBrace] (expects U (SyntaxOp Colon) P1);
          Some (cases @ [([], BlockStmt ss (location P2), True)], P2)})"

definition parseSwitchStmt :: "utf8_lib \<Rightarrow> subs \<Rightarrow> stmt parse" where
  "parseSwitchStmt U R P = do {
     (cond, P1) \<leftarrow> condition U R (consume U P);
     (cases, P2) \<leftarrow> loop (caseStep U R) ([], enterLoop (expects U (Bracket LBrace) P1));
     (cases1, P3) \<leftarrow> defaultCase U R cases P2;
     Some (SwitchStmt cond cases1 (location P), expects U (Bracket RBrace) (leaveLoop P3))}"

definition parseReturnStmt :: "utf8_lib \<Rightarrow> subs \<Rightarrow> stmt parse" where
  "parseReturnStmt U R P =
     (let P1 = consume U P
      in do {
        (val, P2) \<leftarrow> (if at P1 (SyntaxOp Semicolon) then Some (None, P1) else rExpression R P1);
        Some (ReturnStmt val (location P), snd (consumeIf U (SyntaxOp Semicolon) P2))})"

definition jumpStmt :: "utf8_lib \<Rightarrow> string \<Rightarrow> (ptr \<Rightarrow> stmt) \<Rightarrow> parser \<Rightarrow> stmt \<times> parser" where
  "jumpStmt U message mk P =
     (let P1 = consume U P; P2 = (if loopDepth P1 = 0 then parseError message P1 else P1)
      in (mk (location P), snd (consumeIf U (SyntaxOp Semicolon) P2)))"

definition parseBreakStmt :: "utf8_lib \<Rightarrow> parser \<Rightarrow> stmt \<times> parser" where
  "parseBreakStmt U = jumpStmt U ''break outside loop'' BreakStmt"

definition parseContinueStmt :: "utf8_lib \<Rightarrow> parser \<Rightarrow> stmt \<times> parser" where
  "parseContinueStmt U = jumpStmt U ''continue outside loop'' ContinueStmt"

definition parseDeferStmt :: "utf8_lib \<Rightarrow> subs \<Rightarrow> stmt parse" where
  "parseDeferStmt U R P = do {
     (s, P1) \<leftarrow> rStatement R (consume U P);
     Some (DeferStmt s (location P), P1)}"

definition catchStep :: "utf8_lib \<Rightarrow> subs \<Rightarrow> (decl option \<times> stmt \<times> ptr) list \<times> parser \<Rightarrow>
    (((decl option \<times> stmt \<times> ptr) list \<times> parser) + ((decl option \<times> stmt \<times> ptr) list \<times> parser)) option" where
  "catchStep U R = (\<lambda>(acc, P).
     (case consumeIf U (ExnKw KwCatch) P of
        (False, P1) \<Rightarrow> Some (Inr (acc, P1))
      | (True, P1) \<Rightarrow> do {
          (t, P2) \<leftarrow> rType R (expects U (Bracket LParen) P1);
          (let (var, P3) =
                 (if at P2 Identifier then
                    (let Q = consume U P2
                     in (Some (VariableDecl t (spelling P2) None (mkVarAttrs False False None V_Default) (location Q)), Q))
                  else (None, P2))
           in do {
             (body, P4) \<leftarrow> parseBlock U R (expects U (Bracket RParen) P3);
             Some (Inl (acc @ [(var, body, location P1)], P4))})}))"

definition parseTryCatchStmt :: "utf8_lib \<Rightarrow> subs \<Rightarrow> stmt parse" where
  "parseTryCatchStmt U R P = do {
     (tryBlock, P1) \<leftarrow> parseBlock U R (consume U P);
     (catches, P2) \<leftarrow> loop (catchStep U R) ([], P1);
     (finallyBlock, P3) \<leftarrow> (case consumeIf U (ExnKw KwFinally) P2 of
                              (True, Q) \<Rightarrow> present (parseBlock U R Q)
                            | (False, Q) \<Rightarrow> Some (None, Q));
     Some (TryCatchStmt tryBlock catches finallyBlock (location P), P3)}"

definition parseUnsafeBlock :: "utf8_lib \<Rightarrow> subs \<Rightarrow> stmt parse" where
  "parseUnsafeBlock U R P = do {
     (ss, P1) \<leftarrow> statementsUntil U R [Bracket RBrace, Eof] (expects U (Bracket LBrace) (consume U P));
     Some (UnsafeBlockStmt ss (location P), expects U (Bracket RBrace) P1)}"

definition parseLockStmt :: "utf8_lib \<Rightarrow> subs \<Rightarrow> stmt parse" where
  "parseLockStmt U R P =
     (let (isAsync, P1) = consumeIf U (ConcKw KwAsync) P
      in do {
        (target, P2) \<leftarrow> (case consumeIf U (Bracket LParen) (consume U P1) of
                            (True, Q) \<Rightarrow> do { (e, Q1) \<leftarrow> rExpression R Q; Some (e, expects U (Bracket RParen) Q1) }
                          | (False, Q) \<Rightarrow> Some (None, Q));
        (body, P3) \<leftarrow> parseBlock U R P2;
        Some (LockStmt target body isAsync (location P), P3)})"

definition parseThrowStmt :: "utf8_lib \<Rightarrow> subs \<Rightarrow> stmt parse" where
  "parseThrowStmt U R P = do {
     (e, P1) \<leftarrow> rExpression R (consume U P);
     Some (ThrowStmt e (location P), snd (consumeIf U (SyntaxOp Semicolon) P1))}"

definition topLevelStatement :: "subs \<Rightarrow> stmt option parse" where
  "topLevelStatement R P = do { (ds, P1) \<leftarrow> rDecls R P; Some (Some (declStatement (location P) ds), P1) }"

definition parseExpressionStmt :: "utf8_lib \<Rightarrow> subs \<Rightarrow> stmt option parse" where
  "parseExpressionStmt U R P = do {
     (e, P1) \<leftarrow> rExpression R P;
     (case e of
        None \<Rightarrow> Some (None, P1)
      | Some x \<Rightarrow>
          (case consumeIf U (SyntaxOp Semicolon) P1 of
             (True, P2) \<Rightarrow> Some (Some (ExpressionStmt x (location P)), P2)
           | (False, P2) \<Rightarrow>
               Some (Some (ExpressionStmt x (location P)),
                 if \<not> hasNewlineBeforeToken P2 \<and> \<not> at P2 Eof \<and> \<not> at P2 (Bracket RBrace)
                 then parseError (''Expected '' @ quoted '';'' @ '' or newline after expression'') P2 else P2)))}"

definition parseStatement :: "plib \<Rightarrow> subs \<Rightarrow> stmt option parse" where
  "parseStatement C R P =
     (let U = pl_utf8 C; k = tok_kind (curTok P); n = nextTok P
      in if k = Bracket LBrace then present (parseBlock U R P)
         else if k = FlowKw KwIf then present (parseIfStmt U R P)
         else if k = FlowKw KwWhile then present (parseWhileStmt U R P)
         else if k = FlowKw KwDo then present (parseDoWhileStmt U R P)
         else if k = FlowKw KwFor then present (parseForStmt U R P)
         else if k = FlowKw KwSwitch then present (parseSwitchStmt U R P)
         else if k = FlowKw KwReturn then present (parseReturnStmt U R P)
         else if k = FlowKw KwBreak then present (Some (parseBreakStmt U P))
         else if k = FlowKw KwContinue then present (Some (parseContinueStmt U P))
         else if k = FlowKw KwDefer then present (parseDeferStmt U R P)
         else if k = ExnKw KwTry then present (parseTryCatchStmt U R P)
         else if k = ExnKw KwThrow then present (parseThrowStmt U R P)
         else if k = CoreKw KwUnsafe then present (parseUnsafeBlock U R P)
         else if k = BorrowKw KwLock \<and> (is_kind n (Bracket LBrace) \<or> is_kind n (Bracket LParen)) \<or>
                 (k = BorrowKw KwView \<or> k = BorrowKw KwMut) \<and> is_kind n (Bracket LBrace) \<or>
                 k = ConcKw KwAsync \<and> is_kind n (BorrowKw KwLock) then present (parseLockStmt U R P)
         else if isStartOfDeclaration P then topLevelStatement R P
         else if k = BorrowKw KwLock \<or> k = BorrowKw KwView \<or> k = BorrowKw KwMut then Some (None, P)
         else if k = Identifier \<and> is_kind n Identifier then do {
           (ds, P1) \<leftarrow> parseVariableDecls U R P;
           Some (Some (declStatement (location P) ds), P1) }
         else parseExpressionStmt U R P)"

subsection \<open>The recursion\<close>

definition noParsers :: subs where
  "noParsers = \<lparr>rExpression = (\<lambda>P. None), rTernary = (\<lambda>P. None), rPower = (\<lambda>P. None), rPrefix = (\<lambda>P. None),
     rPrimary = (\<lambda>P. None), rType = (\<lambda>P. None), rStatement = (\<lambda>P. None), rDecls = (\<lambda>P. None)\<rparr>"

definition nest :: "plib \<Rightarrow> subs \<Rightarrow> subs" where
  "nest C R = \<lparr>rExpression = parseExpression C R, rTernary = parseTernary C R, rPower = parsePower C R,
     rPrefix = parsePrefix C R, rPrimary = parsePrimary C R, rType = parseType (pl_utf8 C) R,
     rStatement = parseStatement C R, rDecls = parseTopLevelDecls C R\<rparr>"

primrec parsers :: "plib \<Rightarrow> nat \<Rightarrow> subs" where
  "parsers C 0 = noParsers"
| "parsers C (Suc n) = nest C (parsers C n)"

subsection \<open>Modules\<close>

definition moduleStep :: "utf8_lib \<Rightarrow> subs \<Rightarrow> (decl list \<times> stmt list) \<times> parser \<Rightarrow>
    (((decl list \<times> stmt list) \<times> parser) + ((decl list \<times> stmt list) \<times> parser)) option" where
  "moduleStep U R = (\<lambda>((ds, ss), P).
     if at P Eof then Some (Inr ((ds, ss), P))
     else if isStartOfDeclaration P then do {
       (new, P1) \<leftarrow> rDecls R P;
       Some (Inl ((ds @ new, ss), P1)) }
     else do {
       (s, P1) \<leftarrow> rStatement R P;
       (case s of
          Some x \<Rightarrow> Some (Inl ((ds, ss @ [x]), P1))
        | None \<Rightarrow> do { P2 \<leftarrow> synchronize U P1; Some (Inl ((ds, ss), P2)) })})"

text \<open>
  The function that holds the statements of a script.  \<open>scriptCounter\<close> is the static variable of
  \<open>parseModule\<close>, \<open>toString\<close> its decimal spelling.
\<close>

fun toString :: "nat \<Rightarrow> string" where
  "toString n = (if n < 10 then [char_of (48 + n)] else toString (n div 10) @ [char_of (48 + n mod 10)])"

declare toString.simps [simp del]

definition scriptName :: "nat \<Rightarrow> string" where
  "scriptName scriptCounter =
     (if scriptCounter = 0 then ''main'' else ''__moksha_imported_script_'' @ toString scriptCounter)"

definition scriptMain :: "nat \<Rightarrow> ptr \<Rightarrow> stmt list \<Rightarrow> decl" where
  "scriptMain scriptCounter loc ss =
     FunctionDecl (scriptName scriptCounter)
       [(''argc'', Some (PrimitiveTy S_I32 loc), loc, None),
        (''argv'', Some (PointerTy (Some (PointerTy (Some (PrimitiveTy S_Char loc)) loc)) loc), loc, None)]
       (PrimitiveTy S_Void loc) (Some (BlockStmt ss loc)) (mkFunAttrs False False False False V_Default) loc"

definition parseModule :: "plib \<Rightarrow> nat \<Rightarrow> nat \<Rightarrow> parser \<Rightarrow> (module_decl \<times> nat \<times> parser) option" where
  "parseModule C n scriptCounter P = do {
     ((ds, ss), P1) \<leftarrow> loop (moduleStep (pl_utf8 C) (parsers C n)) (([], []), P);
     (if ss = [] then Some (ModuleDecl ''main'' ds (location P), scriptCounter, P1)
      else if list_ex (\<lambda>d. decl_getName d = ''main'') ds then
        Some (ModuleDecl ''main'' ds (location P), scriptCounter,
              parseError (''Cannot mix top-level statements with an explicit '' @ quoted ''main'' @ '' function.'') P1)
      else Some (ModuleDecl ''main'' (ds @ [scriptMain scriptCounter (location P) ss]) (location P),
                 scriptCounter + 1, P1))}"

end
