(* ===== verification/ParserProps.thy ===== *)
theory ParserProps
  imports ParserCore
begin

text \<open>
  The parser over its token source: on a source the lexer finishes, error recovery and the
  import list end and every round of them consumes a token; on a stuck lexer they never end.
  String literals are decoded to the bytes they denote, and a well-formed import list is
  parsed to its symbols.
\<close>

subsection \<open>A window of two tokens over a token source\<close>

context token_source
begin

definition win_ok :: "Token \<Rightarrow> Token \<Rightarrow> 's \<Rightarrow> bool" where
  "win_ok c n s \<longleftrightarrow> ok s \<and> (tok_kind c = Eof \<longrightarrow> tok_kind n = Eof) \<and> (tok_kind n = Eof \<longrightarrow> left s = 0)"

definition win_left :: "Token \<Rightarrow> Token \<Rightarrow> 's \<Rightarrow> nat" where
  "win_left c n s = (if tok_kind c = Eof then 0 else if tok_kind n = Eof then 1 else 2 + left s)"

lemma win_ok_nxt: "win_ok c n s \<Longrightarrow> win_ok n (fst (nxt s)) (snd (nxt s))"
  by (auto simp: win_ok_def ok_nxt eof_left left_eof)

lemma win_left_nxt:
  "win_ok c n s \<Longrightarrow> tok_kind c \<noteq> Eof \<Longrightarrow> win_left n (fst (nxt s)) (snd (nxt s)) < win_left c n s"
  using left_nxt [of s] by (auto simp: win_ok_def win_left_def)

lemma win_left_le: "win_ok c n s \<Longrightarrow> win_left n (fst (nxt s)) (snd (nxt s)) \<le> win_left c n s"
  using win_left_nxt [of c n s] by (cases "tok_kind c = Eof") (auto simp: win_ok_def win_left_def)

lemma win_init:
  assumes "ok s"
  shows "win_ok (fst (nxt s)) (fst (nxt (snd (nxt s)))) (snd (nxt (snd (nxt s))))"
  using assms by (auto simp: win_ok_def ok_nxt eof_left left_eof)

end

definition parser_ok :: "parser \<Rightarrow> bool" where
  "parser_ok P \<longleftrightarrow> lexsrc.win_ok (curTok P) (nextTok P) (p_lexer P)"

definition parser_left :: "parser \<Rightarrow> nat" where
  "parser_left P = lexsrc.win_left (curTok P) (nextTok P) (p_lexer P)"

lemma mkParser_simps [simp]:
  "curTok (mkParser U L) = fst (lex_next U L)"
  "nextTok (mkParser U L) = fst (lex_next U (snd (lex_next U L)))"
  "p_lexer (mkParser U L) = snd (lex_next U (snd (lex_next U L)))"
  by (simp_all add: mkParser_def split: prod.splits)

lemma mkParser_ok: "plain_ok L \<Longrightarrow> parser_ok (mkParser U L)"
  by (simp add: parser_ok_def lexsrc.win_init)

lemma skipComments_ok:
  "parser_ok P \<Longrightarrow> parser_ok (skipComments U P) \<and> parser_left (skipComments U P) \<le> parser_left P"
proof (induction U P rule: skipComments.induct)
  case (1 U P)
  have "parser_ok (shift U P)" "parser_left (shift U P) \<le> parser_left P"
    using 1(2) lexsrc.win_ok_nxt lexsrc.win_left_le by (simp_all add: parser_ok_def parser_left_def)
  with 1 show ?case by (subst (1 2) skipComments.simps) auto
qed

lemma advance_ok [intro]: "parser_ok P \<Longrightarrow> parser_ok (advance U P)"
  using skipComments_ok [of "shift U P" U] lexsrc.win_ok_nxt
  by (simp add: advance_def parser_ok_def)

lemma advance_left_le: "parser_ok P \<Longrightarrow> parser_left (advance U P) \<le> parser_left P"
  using skipComments_ok [of "shift U P" U] lexsrc.win_ok_nxt lexsrc.win_left_le [of "curTok P" "nextTok P" "p_lexer P" U]
  by (force simp: advance_def parser_ok_def parser_left_def)

lemma advance_left: 
  "parser_ok P \<Longrightarrow> tok_kind (curTok P) \<noteq> Eof \<Longrightarrow> parser_left (advance U P) < parser_left P"
  using skipComments_ok [of "shift U P" U] lexsrc.win_ok_nxt [of "curTok P" "nextTok P" "p_lexer P" U]
    lexsrc.win_left_nxt [of "curTok P" "nextTok P" "p_lexer P" U]
  by (force simp: advance_def parser_ok_def parser_left_def)

lemma parseError_simps [simp]:
  "curTok (parseError m P) = curTok P" "nextTok (parseError m P) = nextTok P"
  by (simp_all add: parseError_def)

lemma parseError_ok [simp]:
  "parser_ok P \<Longrightarrow> parser_ok (parseError m P)" "parser_left (parseError m P) = parser_left P"
  by (auto simp: parser_ok_def parser_left_def lexsrc.win_ok_def lexsrc.win_left_def parseError_def
      plain_ok_def plain_def lexer_inv_def inTemplateString_def bytesLeft_def)

subsection \<open>Error recovery ends\<close>

definition resynced :: "utf8_lib \<Rightarrow> nat \<Rightarrow> parser \<Rightarrow> bool" where
  "resynced U n P \<longleftrightarrow>
     (let k = \<lambda>i. tok_kind (curTok ((advance U ^^ i) P))
      in k n = Eof \<or> 0 < n \<and> (k (n - 1) = SyntaxOp Semicolon \<or> k n \<in> set syncKinds))"

lemma synchronize_loop_ends:
  "parser_ok P \<Longrightarrow> \<exists>n \<le> parser_left P. synchronize_loop U P = Some ((advance U ^^ n) P) \<and>
     (resynced U n P \<or> n = 0 \<and> tok_kind (curTok P) \<in> set syncKinds)"
proof (induction "parser_left P" arbitrary: P rule: less_induct)
  case less
  let ?k = "tok_kind (curTok P)"
  consider "?k = Eof \<or> ?k \<in> set syncKinds \<and> ?k \<noteq> SyntaxOp Semicolon" | "?k = SyntaxOp Semicolon"
    | "?k \<noteq> Eof" "?k \<noteq> SyntaxOp Semicolon" "?k \<notin> set syncKinds" by blast
  then show ?case
  proof cases
    case 1
    then show ?thesis
      by (intro exI [of _ 0], subst synchronize_loop.simps) (auto simp: is_kind_def isAny_def resynced_def)
  next
    case 2
    with advance_left [OF less.prems, of U] have "1 \<le> parser_left P" by simp
    with 2 show ?thesis
      by (intro exI [of _ 1], subst synchronize_loop.simps) (auto simp: is_kind_def resynced_def Let_def)
  next
    case 3
    note lt = advance_left [OF less.prems 3(1), of U]
    from less.hyps [OF lt advance_ok [OF less.prems]] obtain n where
      n: "n \<le> parser_left (advance U P)"
      "synchronize_loop U (advance U P) = Some ((advance U ^^ n) (advance U P))"
      "resynced U n (advance U P) \<or> n = 0 \<and> tok_kind (curTok (advance U P)) \<in> set syncKinds" by blast
    have "synchronize_loop U P = synchronize_loop U (advance U P)"
      using 3 by (subst synchronize_loop.simps) (auto simp: is_kind_def isAny_def)
    moreover have "resynced U (Suc n) P"
      using n(3) by (cases n) (auto simp: resynced_def Let_def funpow_swap1)
    ultimately show ?thesis
      using n lt by (intro exI [of _ "Suc n"]) (simp add: funpow_swap1)
  qed
qed

lemma synchronize_ends:
  assumes "parser_ok P"
  shows "\<exists>n \<le> parser_left P. synchronize U P = Some ((advance U ^^ n) P) \<and> resynced U n P \<and>
           (tok_kind (curTok P) \<noteq> Eof \<longrightarrow> parser_left ((advance U ^^ n) P) < parser_left P)"
proof -
  have mono: "parser_ok Q \<Longrightarrow> parser_left ((advance U ^^ n) Q) \<le> parser_left Q" for n Q
  proof (induction n arbitrary: Q)
    case (Suc n)
    from Suc.IH [OF advance_ok [OF Suc.prems, of U]] advance_left_le [OF Suc.prems, of U]
    show ?case by (simp add: funpow_swap1)
  qed simp
  let ?k = "tok_kind (curTok P)"
  consider "?k = Eof" | "?k = SyntaxOp Semicolon" | "?k \<noteq> Eof" "?k \<noteq> SyntaxOp Semicolon" by blast
  then show ?thesis
  proof cases
    case 1
    then show ?thesis by (intro exI [of _ 0]) (simp add: synchronize_def is_kind_def resynced_def)
  next
    case 2
    with advance_left [OF assms, of U] show ?thesis
      by (intro exI [of _ 1]) (auto simp: synchronize_def is_kind_def resynced_def Let_def)
  next
    case 3
    note lt = advance_left [OF assms 3(1), of U]
    obtain n where n: "n \<le> parser_left (advance U P)"
      "synchronize_loop U (advance U P) = Some ((advance U ^^ n) (advance U P))"
      "resynced U n (advance U P) \<or> n = 0 \<and> tok_kind (curTok (advance U P)) \<in> set syncKinds"
      using synchronize_loop_ends [OF advance_ok [OF assms]] by blast
    then have "resynced U (Suc n) P" by (cases n) (auto simp: resynced_def Let_def funpow_swap1)
    then show ?thesis
      using n lt 3 mono [OF advance_ok [OF assms, of U], of n]
      by (intro exI [of _ "Suc n"]) (auto simp: synchronize_def is_kind_def funpow_swap1)
  qed
qed

text \<open>\<dots> unless the lexer is stuck at an error.\<close>

definition parser_stuck :: "utf8_lib \<Rightarrow> parser \<Rightarrow> bool" where
  "parser_stuck U P \<longleftrightarrow>
     tok_kind (curTok P) = Error \<and> tok_kind (nextTok P) = Error \<and> stuck U (p_lexer P)"

lemma advance_stuck: "parser_stuck U P \<Longrightarrow> parser_stuck U (advance U P)"
  by (subst advance_def, subst skipComments.simps) (auto simp: parser_stuck_def stuck_def is_kind_def)

lemma synchronize_loop_returns:
  assumes "synchronize_loop U P = Some Q"
  shows "\<not> parser_stuck U P"
proof -
  have "(\<lambda>(U, P) Q. \<not> parser_stuck U P) (U, P) Q"
    using _ assms
  proof (rule synchronize_loop.raw_induct)
    fix f U P Q
    assume "\<And>U P Q. f U P = Some Q \<Longrightarrow> (\<lambda>(U, P) Q. \<not> parser_stuck U P) (U, P) Q"
    and "(if is_kind (curTok P) Eof then Some P
          else if is_kind (curTok P) (SyntaxOp Semicolon) then Some (advance U P)
          else if isAny (curTok P) syncKinds then Some P
          else f U (advance U P)) = Some Q"
    then show "(\<lambda>(U, P) Q. \<not> parser_stuck U P) (U, P) Q"
      using advance_stuck [of U P]
      by (auto simp: is_kind_def isAny_def parser_stuck_def syncKinds_def split: if_splits)
  qed
  then show ?thesis by simp
qed

lemma synchronize_stuck: "parser_stuck U P \<Longrightarrow> synchronize U P = None"
  using synchronize_loop_returns [of U "advance U P"] advance_stuck [of U P]
  by (cases "synchronize_loop U (advance U P)") (auto simp: synchronize_def is_kind_def parser_stuck_def)

subsection \<open>The import list ends\<close>

lemma consumeIf_ok:
  "parser_ok P \<Longrightarrow> parser_ok (snd (consumeIf U k P)) \<and> parser_left (snd (consumeIf U k P)) \<le> parser_left P"
  using advance_left_le by (auto simp: consumeIf_def)

lemma importSymbol_left:
  assumes "parser_ok P" and "tok_kind (curTok P) \<noteq> Eof"
  shows "parser_ok (snd (importSymbol U P)) \<and> parser_left (snd (importSymbol U P)) < parser_left P"
proof -
  let ?A = "advance U P"
  obtain b P1 where c: "consumeIf U (TypeKw KwAs) ?A = (b, P1)" by fastforce
  have A: "parser_ok ?A" "parser_left ?A < parser_left P"
    using advance_ok advance_left assms by blast+
  have P1: "parser_ok P1" "parser_left P1 \<le> parser_left ?A"
    using consumeIf_ok [OF A(1), of U "TypeKw KwAs"] c by auto
  have P2: "parser_ok (advance U P1)" "parser_left (advance U P1) \<le> parser_left P1"
    using advance_ok advance_left_le P1 by blast+
  have E: "parser_ok (advance U (parseError m P))" "parser_left (advance U (parseError m P)) < parser_left P" for m
    using advance_ok [of "parseError m P" U] advance_left [of "parseError m P" U] assms by auto
  show ?thesis
    using A P1 P2 E by (auto simp: importSymbol_def Let_def consume_def c)
qed

lemma importSeparator_left:
  assumes "parser_ok P"
  shows "parser_ok (importSeparator U P) \<and> parser_left (importSeparator U P) \<le> parser_left P"
proof -
  have E: "parser_ok (advance U (parseError m P))" "parser_left (advance U (parseError m P)) \<le> parser_left P" for m
    using advance_ok [of "parseError m P" U] advance_left_le [of "parseError m P" U] assms by auto
  show ?thesis
    using E assms advance_left_le [OF assms, of U]
    by (auto simp: importSeparator_def consumeIf_def consume_def)
qed

lemma importLoop_ends:
  "parser_ok P \<Longrightarrow> \<exists>syms P'. importLoop U P acc = Some (syms, P') \<and> parser_ok P' \<and>
     parser_left P' \<le> parser_left P \<and> tok_kind (curTok P') \<in> {Bracket RBrace, Eof}"
proof (induction "parser_left P" arbitrary: P acc rule: less_induct)
  case less
  show ?case
  proof (cases "tok_kind (curTok P) \<in> {Bracket RBrace, Eof}")
    case True
    then show ?thesis using less.prems by (subst importLoop.simps) (auto simp: is_kind_def)
  next
    case False
    let ?S = "importSymbol U P" and ?Q = "importSeparator U (snd (importSymbol U P))"
    have S: "parser_ok (snd ?S)" "parser_left (snd ?S) < parser_left P"
      using importSymbol_left [OF less.prems] False by auto
    then have Q: "parser_ok ?Q" "parser_left ?Q < parser_left P"
      using importSeparator_left [OF S(1), of U] by auto
    have "importLoop U P acc = importLoop U ?Q (acc @ fst ?S)"
      using False by (subst importLoop.simps) (auto simp: is_kind_def)
    then show ?thesis
      using less.hyps [OF Q(2,1), of "acc @ fst ?S"] Q(2) by fastforce
  qed
qed

subsection \<open>The import list is parsed\<close>

text \<open>
  The grammar of the list behind the opening brace: entries \<open>name\<close> or \<open>name as alias\<close>,
  separated by commas, a comma allowed behind the last, up to the closing brace.
\<close>

inductive importEntry :: "(Token \<Rightarrow> string) \<Rightarrow> Token list \<Rightarrow> string \<times> string \<Rightarrow> bool" for sp where
  plainEntry: "tok_kind a \<in> {Identifier, DataKw KwTable} \<Longrightarrow> importEntry sp [a] (sp a, sp a)"
| aliasEntry: "tok_kind a \<in> {Identifier, DataKw KwTable} \<Longrightarrow> tok_kind k = TypeKw KwAs \<Longrightarrow>
     tok_kind l = Identifier \<Longrightarrow> importEntry sp [a, k, l] (sp a, sp l)"

inductive importStream :: "(Token \<Rightarrow> string) \<Rightarrow> Token list \<Rightarrow> (string \<times> string) list \<Rightarrow> bool" for sp where
  closeList: "tok_kind r = Bracket RBrace \<Longrightarrow> importStream sp [r] []"
| lastEntry: "importEntry sp es p \<Longrightarrow> tok_kind r = Bracket RBrace \<Longrightarrow> importStream sp (es @ [r]) [p]"
| commaEntry: "importEntry sp es p \<Longrightarrow> tok_kind c = SyntaxOp Comma \<Longrightarrow> importStream sp ts ps \<Longrightarrow>
     importStream sp (es @ c # ts) (p # ps)"

text \<open>The tokens in front of the parser, as \<open>advance\<close> brings them to \<open>curTok\<close>.\<close>

definition sees :: "utf8_lib \<Rightarrow> parser \<Rightarrow> Token list \<Rightarrow> bool" where
  "sees U P ts \<longleftrightarrow> (\<forall>i < length ts. curTok ((advance U ^^ i) P) = ts ! i)"

lemma sees_Cons [simp]: "sees U P (t # ts) \<longleftrightarrow> curTok P = t \<and> sees U (advance U P) ts"
  by (auto simp: sees_def funpow_swap1 less_Suc_eq_0_disj All_less_Suc2)

lemma sees_Nil [simp]: "sees U P []"
  by (simp add: sees_def)

lemma sees_append: "sees U P (xs @ ys) \<longleftrightarrow> sees U P xs \<and> sees U ((advance U ^^ length xs) P) ys"
  by (induction xs arbitrary: P) (auto simp: funpow_swap1)

lemma lexer_inv_buffer:
  assumes "lexer_inv (p_lexer P)"
  shows "lexer_inv (p_lexer (advance U P)) \<and> p_buffer (advance U P) = p_buffer P"
proof -
  have "lexer_inv (p_lexer P) \<Longrightarrow>
     lexer_inv (p_lexer (skipComments U P)) \<and> p_buffer (skipComments U P) = p_buffer P" for P
  proof (induction U P rule: skipComments.induct)
    case (1 U P)
    then show ?case
      using lex_next_inv [OF "1.prems" prod.collapse [symmetric], of U]
      by (subst (1 2) skipComments.simps) (auto simp: p_buffer_def)
  qed
  from this [of "shift U P"] show ?thesis
    using lex_next_inv [OF assms prod.collapse [symmetric], of U]
    by (simp add: advance_def p_buffer_def)
qed

lemma importEntry_parsed:
  assumes "importEntry (getSpelling (p_buffer P)) es p" and "sees U P (es @ [s])"
    and "lexer_inv (p_lexer P)" and "tok_kind s \<in> {SyntaxOp Comma, Bracket RBrace}"
  shows "importSymbol U P = ([p], (advance U ^^ length es) P) \<and> es \<noteq> [] \<and>
         tok_kind (curTok P) \<notin> {Bracket RBrace, Eof}"
  using assms(1)
proof cases
  case (plainEntry a)
  then show ?thesis
    using assms(2,4) by (auto simp: importSymbol_def consume_def consumeIf_def is_kind_def Let_def)
next
  case (aliasEntry a k l)
  have "p_buffer (advance U (advance U P)) = p_buffer P"
    using lexer_inv_buffer assms(3) by metis
  with aliasEntry show ?thesis
    using assms(2,4) by (auto simp: importSymbol_def consume_def consumeIf_def is_kind_def Let_def)
qed

lemma lexer_inv_advances:
  "lexer_inv (p_lexer P) \<Longrightarrow>
   lexer_inv (p_lexer ((advance U ^^ n) P)) \<and> p_buffer ((advance U ^^ n) P) = p_buffer P"
  by (induction n) (use lexer_inv_buffer in auto)

lemma importLoop_stream:
  assumes "importStream (getSpelling b) ts ps"
  shows "sees U P ts \<Longrightarrow> lexer_inv (p_lexer P) \<Longrightarrow> p_buffer P = b \<Longrightarrow>
         importLoop U P acc = Some (acc @ ps, (advance U ^^ (length ts - 1)) P) \<and>
         ts \<noteq> [] \<and> tok_kind (last ts) = Bracket RBrace"
  using assms
proof (induction arbitrary: P acc rule: importStream.induct)
  case (closeList r)
  then show ?case by (subst importLoop.simps) (auto simp: is_kind_def)
next
  case (lastEntry es p r)
  let ?P1 = "(advance U ^^ length es) P"
  have e: "importSymbol U P = ([p], ?P1)" "es \<noteq> []" "tok_kind (curTok P) \<notin> {Bracket RBrace, Eof}"
    using importEntry_parsed [of P es p U r] lastEntry by auto
  have r: "curTok ?P1 = r" using lastEntry(3) by (simp add: sees_append)
  have "importLoop U P acc = importLoop U ?P1 (acc @ [p])"
    using e r lastEntry(2) by (subst importLoop.simps) (simp add: is_kind_def importSeparator_def)
  also have "\<dots> = Some (acc @ [p], ?P1)"
    using r lastEntry(2) by (subst importLoop.simps) (simp add: is_kind_def)
  finally show ?case using lastEntry(2) by simp
next
  case (commaEntry es p c ts ps)
  let ?P1 = "(advance U ^^ length es) P"
  have e: "importSymbol U P = ([p], ?P1)" "es \<noteq> []" "tok_kind (curTok P) \<notin> {Bracket RBrace, Eof}"
    using importEntry_parsed [of P es p U c] commaEntry by (auto simp: sees_append)
  have r: "curTok ?P1 = c" "sees U (advance U ?P1) ts" using commaEntry(5) by (simp_all add: sees_append)
  have inv: "lexer_inv (p_lexer (advance U ?P1))" "p_buffer (advance U ?P1) = b"
    using lexer_inv_advances [OF commaEntry(6), of "Suc (length es)" U] commaEntry(7) by simp_all
  have "importLoop U P acc = importLoop U (advance U ?P1) (acc @ [p])"
    using e r commaEntry(2)
    by (subst importLoop.simps) (simp add: is_kind_def importSeparator_def consumeIf_def)
  also have "\<dots> = Some ((acc @ [p]) @ ps, (advance U ^^ (length ts - 1)) (advance U ?P1))"
    and ne: "ts \<noteq> []" "tok_kind (last ts) = Bracket RBrace"
    using commaEntry.IH [OF r(2) inv] by auto
  moreover have "(advance U ^^ (length ts - 1)) (advance U ?P1) = (advance U ^^ (length (es @ c # ts) - 1)) P"
    using ne(1) by (cases ts) (simp_all add: funpow_add funpow_swap1 add.commute)
  ultimately show ?case by simp
qed

lemma parseImportSymbolList_stream:
  assumes "importStream (getSpelling (p_buffer P)) ts ps" and "sees U P ts" and "lexer_inv (p_lexer P)"
  shows "parseImportSymbolList U P = Some (ps, (advance U ^^ length ts) P)"
proof -
  have l: "importLoop U P [] = Some (ps, (advance U ^^ (length ts - 1)) P)"
    and ts: "ts \<noteq> []" "tok_kind (last ts) = Bracket RBrace"
    using importLoop_stream [OF assms(1,2,3) refl, of "[]"] by auto
  then have "curTok ((advance U ^^ (length ts - 1)) P) = last ts"
    using assms(2) by (simp add: sees_def last_conv_nth)
  then show ?thesis
    using l ts by (cases ts) (simp_all add: parseImportSymbolList_def expect_def is_kind_def)
qed

subsection \<open>String literals denote their bytes\<close>

text \<open>The bytes a unit of a string literal stands for.\<close>

definition escapeValue :: "char \<Rightarrow> char" where
  "escapeValue e =
     (if e = CHR ''n'' then CHR 0x0A else if e = CHR ''r'' then CHR 0x0D
      else if e = CHR ''t'' then CHR 0x09 else if e = CHR ''b'' then CHR 0x08
      else if e = CHR ''0'' then CHR 0x00 else e)"

fun sval :: "utf8_encode \<Rightarrow> sunit \<Rightarrow> bytes" where
  "sval conv (SPlain c) = [c]"
| "sval conv (SEsc e) = [escapeValue e]"
| "sval conv (SHex a b) = [char_of (16 * hexDigitValue a + hexDigitValue b)]"
| "sval conv (SUni hs) = (case conv (of_nat (hexValue hs)) of Some bs \<Rightarrow> bs | None \<Rightarrow> [])"

text \<open>\<open>\u{...}\<close> with one to eight digits.\<close>

fun sfits :: "sunit \<Rightarrow> bool" where
  "sfits (SUni hs) \<longleftrightarrow> hs \<noteq> [] \<and> length hs \<le> 8"
| "sfits _ = True"

lemma hexDigit_props:
  assumes "isHexDigit c"
  shows "\<not> isspace c" "c \<noteq> CHR ''-''" "c \<noteq> CHR ''+''" "c \<noteq> CHR ''x''" "c \<noteq> CHR ''X''" "c \<noteq> CHR ''}''"
    "hexDigitValue c < 16"
  using assms by (auto simp: cctype hexDigitValue_def)

lemma hexValue_bound:
  assumes "\<forall>h \<in> set hs. isHexDigit h"
  shows "hexValue hs < 16 ^ length hs"
  using assms
proof (induction hs rule: rev_induct)
  case (snoc h hs)
  then have "hexValue hs + 1 \<le> 16 ^ length hs" "hexDigitValue h < 16" by (auto dest: hexDigit_props(7))
  then have "16 * (hexValue hs + 1) \<le> 16 * 16 ^ length hs" by (rule_tac mult_le_mono) auto
  with \<open>hexDigitValue h < 16\<close> show ?case by (simp add: hexValue_def)
qed (simp add: hexValue_def)

lemma hexNumber_digits:
  assumes "hs \<noteq> []" and "\<forall>h \<in> set hs. isHexDigit h"
  shows "hexNumber hs = Some (False, hexValue hs)"
proof -
  obtain h hs' where h: "hs = h # hs'" using assms(1) by (cases hs) auto
  have "dropWhile isspace hs = hs" using assms(2) hexDigit_props(1) h by simp
  moreover note takeWhile_eq_all_conv [THEN iffD2, OF assms(2)]
  moreover have "hd hs \<noteq> CHR ''-''" "hd hs \<noteq> CHR ''+''" using assms(2) h hexDigit_props by auto
  moreover have "1 < length hs \<Longrightarrow> hs ! 1 \<noteq> CHR ''x'' \<and> hs ! 1 \<noteq> CHR ''X''"
    using assms(2) hexDigit_props nth_mem by metis
  ultimately show ?thesis using assms(1) by (auto simp: hexNumber_def Let_def simp del: takeWhile_eq_all_conv)
qed

lemma stoi16_two:
  assumes "isHexDigit a" "isHexDigit b"
  shows "stoi16 [a, b] = Some (int (16 * hexDigitValue a + hexDigitValue b))"
  using assms hexNumber_digits [of "[a, b]"] hexDigit_props(7) [of a] hexDigit_props(7) [of b]
  by (simp add: stoi16_def hexValue_def)

lemma codePointOf_digits:
  assumes "hs \<noteq> []" and "\<forall>h \<in> set hs. isHexDigit h" and "length hs \<le> 8"
  shows "codePointOf hs = of_nat (hexValue hs)"
proof -
  have "hexValue hs < 16 ^ length hs" by (rule hexValue_bound [OF assms(2)])
  also have "\<dots> \<le> 16 ^ 8" using assms(3) by (intro power_increasing) auto
  finally have "hexValue hs < 2 ^ 64" by simp
  then show ?thesis
    using hexNumber_digits [OF assms(1,2)] by (simp add: codePointOf_def stoul16_def unsigned_of_nat take_bit_nat_eq_self)
qed

lemma find_from_run:
  assumes "c \<notin> set xs"
  shows "find_from c (pre @ xs @ c # rest) (length pre) = Some (length pre + length xs)"
proof -
  have "\<forall>x \<in> set xs. x \<noteq> c" using assms by blast
  from advance_while_run [OF refl this, of "c # rest" pre] show ?thesis by (simp add: find_from_def)
qed

lemma unescapeOne_SUni:
  assumes "sok (SUni hs)" and "sfits (SUni hs)"
  shows "unescapeOne conv (pre @ sprint (SUni hs) @ rest) (length pre) =
         (sval conv (SUni hs), length (sprint (SUni hs)) - 1)"
proof -
  let ?raw = "pre @ sprint (SUni hs) @ rest"
  have "CHR ''}'' \<notin> set hs" using assms(1) hexDigit_props(6) by auto
  then have f: "find_from CHR ''}'' ?raw (length pre + 3) = Some (length pre + 3 + length hs)"
    using find_from_run [of "CHR ''}''" hs "pre @ [CHR 0x5C, CHR ''u'', CHR ''{'']" rest]
    by (simp add: numeral_3_eq_3)
  have "codePointOf hs = of_nat (hexValue hs)" using assms by (intro codePointOf_digits) auto
  then show ?thesis
    using f by (simp add: unescapeOne_def unescapeUnicode_def nth_append Let_def split: option.splits)
qed

lemma unescapeOne_unit:
  assumes "sok u" "sfits u" "isEscape u"
  shows "unescapeOne conv (pre @ sprint u @ rest) (length pre) = (sval conv u, length (sprint u) - 1)"
proof (cases u)
  case (SEsc e)
  then show ?thesis
    using assms(1) by (auto simp: unescapeOne_def escapeValue_def simpleEscapes_def nth_append Let_def)
next
  case (SHex a b)
  then show ?thesis
    using assms(1) stoi16_two [of a b] char_of_nat [of "16 * hexDigitValue a + hexDigitValue b"]
    by (simp add: unescapeOne_def nth_append Let_def numeral_2_eq_2 numeral_3_eq_3)
next
  case (SUni hs)
  then show ?thesis using unescapeOne_SUni assms by blast
qed (use assms(3) in simp)

lemma unescape_loop_unit:
  assumes "sok u" "sfits u"
  shows "unescape_loop conv (pre @ sprint u @ rest) (length pre) r =
         unescape_loop conv (pre @ sprint u @ rest) (length (pre @ sprint u)) (r @ sval conv u)"
proof (cases "isEscape u")
  case True
  have "sprint u ! 0 = CHR 0x5C" "2 \<le> length (sprint u)" using True by (cases u; simp)+
  then have "(pre @ sprint u @ rest) ! length pre = CHR 0x5C"
    "length pre + 1 < length (pre @ sprint u @ rest)" by (auto simp: nth_append)
  with unescapeOne_unit [OF assms True, of conv pre rest] \<open>2 \<le> length (sprint u)\<close> show ?thesis
    by (subst unescape_loop.simps) (cases "length (sprint u)"; simp)
next
  case False
  then obtain c where "u = SPlain c" by (cases u) auto
  with assms(1) show ?thesis by (subst unescape_loop.simps) simp
qed

lemma unescape_units:
  "list_all sok us \<Longrightarrow> list_all sfits us \<Longrightarrow>
   unescape_loop conv (pre @ concat (map sprint us)) (length pre) r = r @ concat (map (sval conv) us)"
proof (induction us arbitrary: pre r)
  case Nil
  then show ?case by (subst unescape_loop.simps) simp
next
  case (Cons u us)
  then show ?case
    using unescape_loop_unit [of u conv pre "concat (map sprint us)" r] Cons.IH [of "pre @ sprint u"]
    by simp
qed

lemma unescapeString_units:
  "list_all sok us \<Longrightarrow> list_all sfits us \<Longrightarrow>
   unescapeString conv (concat (map sprint us)) = concat (map (sval conv) us)"
  using unescape_units [of us conv "[]" "[]"] by (simp add: unescapeString_def)

lemma mkParser_buffer: "lexer_inv L \<Longrightarrow> p_buffer (mkParser U L) = buffer L"
  using lex_next_inv [OF _ prod.collapse [symmetric]] by (metis mkParser_simps(3) p_buffer_def)

lemma getSpelling_slice:
  assumes "b = pre @ s @ rest" and "tok_location t = length pre" and "tok_length t = of_nat (length s)"
    and "length s < 2 ^ 32"
  shows "getSpelling b t = s"
  using assms by (simp add: getSpelling_def unat_of_nat)

lemma parseStringLiteral_units:
  assumes b: "before L pre (ws @ [CHR 0x22] @ concat (map sprint us) @ [CHR 0x22] @ rest)"
    and "\<forall>c \<in> set ws. isWhitespace c" and ok: "list_all sok us" "list_all sfits us"
    and "lexState L = Normal" and inv: "lexer_inv L" and len: "length (concat (map sprint us)) + 2 < 2 ^ 32"
  shows "fst (parseStringLiteral U conv (mkParser U L)) =
         StringLit (concat (map (sval conv) us)) False (length pre + length ws)"
proof -
  let ?body = "concat (map sprint us)" and ?t = "curTok (mkParser U L)"
  have t: "?t = stringToken (length pre + length ws) us"
    using lex_string_token [OF assms(1,2,3,5)] by simp
  have "getSpelling (buffer L) ?t = [CHR 0x22] @ ?body @ [CHR 0x22]"
    unfolding t using b len
    by (intro getSpelling_slice [of _ "pre @ ws" _ rest])
       (auto simp: before_def stringToken_def escapedFlag_def)
  then show ?thesis
    using unescapeString_units [OF ok, of conv] t
    by (simp add: parseStringLiteral_def Let_def mkParser_buffer [OF inv] stringToken_def escapedFlag_def)
qed

subsection \<open>Template strings without interpolation\<close>

lemma scanString_loop_template_run:
  assumes "before L pre (xs @ CHR 0x60 # rest)" and "\<forall>c \<in> set xs. c \<notin> {CHR 0x60, CHR 0x5C, CHR ''$''}"
  shows "scanString_loop True s e h L = stringClose True s e h (bump (length xs) L)"
  using assms
proof (induction xs arbitrary: L pre)
  case Nil
  then show ?case
    using before_deref [of L pre] by (subst scanString_loop.simps) (simp add: bump_def)
next
  case (Cons x xs)
  have b: "before (bump 1 L) (pre @ [x]) (xs @ CHR 0x60 # rest)"
    using before_bump [of L pre "[x]" _ 1] Cons.prems(1) by simp
  have "scanString_loop True s e h L = scanString_loop True s e h (bump 1 L)"
    using Cons.prems before_deref [of L pre] by (subst scanString_loop.simps) simp
  also have "\<dots> = stringClose True s e h (bump (length xs) (bump 1 L))"
    using Cons.IH [OF b] Cons.prems(2) by simp
  finally show ?case by (simp add: bump_bump)
qed

lemma lex_template_token:
  assumes b: "before L pre ([CHR 0x60] @ xs @ [CHR 0x60] @ rest)"
    and xs: "\<forall>c \<in> set xs. c \<notin> {CHR 0x60, CHR 0x5C, CHR ''$''}" and st: "lexState L = Normal"
  shows "fst (lex_next U L) = mkToken TemplateString (length pre + 1) (length xs + 1)"
proof -
  have d: "deref L = CHR 0x60" using b before_deref by simp
  have cur: "curPtr L = length pre" using b by (simp add: before_def)
  let ?L = "(bump 1 L)\<lparr>lexState := InTemplate, fragmentStart := Some (curPtr (bump 1 L))\<rparr>"
  have "lex_next U L = dispatch U (bump (length ([] :: bytes)) L)"
    using b st by (intro lex_next_token) (auto simp: isWhitespace_def startsComment_def inFragment_def inTemplateString_def)
  also have "bump (length ([] :: bytes)) L = L" by (simp add: bump_def)
  also have "dispatch U L = scanString L"
    using d by (simp add: dispatch_def Let_def cctype)
  also have "\<dots> = scanString_loop True 0 False False ?L"
    using d st by (simp add: scanString_def Let_def inTemplateString_def)
  also have "\<dots> = stringClose True 0 False False (bump (length xs) ?L)"
    using b xs by (intro scanString_loop_template_run [of _ "pre @ [CHR 0x60]"]) (auto simp: before_def bump_def)
  finally show ?thesis
    by (simp add: stringClose_def Let_def fragPtr_def escapedFlag_def tokenFrom_def bump_def cur)
qed

lemma unescape_plain:
  "CHR 0x5C \<notin> set s \<Longrightarrow> unescapeString conv s = s"
proof -
  assume s: "CHR 0x5C \<notin> set s"
  have "unescape_loop conv s i r = r @ drop i s" for i r
    using s
  proof (induction conv s i r rule: unescape_loop.induct)
    case (1 conv raw i r)
    then show ?case
      by (subst unescape_loop.simps) (auto simp: Cons_nth_drop_Suc [symmetric] in_set_conv_nth)
  qed
  then show ?thesis by (simp add: unescapeString_def)
qed

lemma parseSimpleTemplate_drops:
  assumes b: "before L pre ([CHR 0x60] @ (x # xs) @ [CHR 0x60] @ rest)"
    and xs: "\<forall>c \<in> set (x # xs). c \<notin> {CHR 0x60, CHR 0x5C, CHR ''$''}" and st: "lexState L = Normal"
    and inv: "lexer_inv L" and len: "length xs + 2 < 2 ^ 32"
  shows "fst (parseSimpleTemplate U conv (mkParser U L)) = StringLit xs True (length pre + 1)"
proof -
  have "getSpelling (buffer L) (fst (lex_next U L)) = (x # xs) @ [CHR 0x60]"
    using b len lex_template_token [OF b xs st, of U]
    by (intro getSpelling_slice [of _ "pre @ [CHR 0x60]" _ rest]) (auto simp: before_def)
  moreover have "unescapeString conv xs = xs" using xs by (intro unescape_plain) auto
  ultimately show ?thesis
    using lex_template_token [OF b xs st, of U]
    by (simp add: parseSimpleTemplate_def Let_def mkParser_buffer [OF inv])
qed

subsection \<open>Properties of the parser\<close>



text \<open>
  A template string without interpolation loses its first byte: the token the lexer returns
  starts behind the opening back quote, and \<open>parseTemplateString\<close> strips a byte at both ends.
\<close>

theorem simple_template_loses_first_byte:
  assumes "before L pre ([CHR 0x60] @ (x # xs) @ [CHR 0x60] @ rest)"
    and "\<forall>c \<in> set (x # xs). c \<notin> {CHR 0x60, CHR 0x5C, CHR ''$''}" and "lexState L = Normal"
    and "lexer_inv L" and "length xs + 2 < 2 ^ 32"
  shows "fst (parseSimpleTemplate U conv (mkParser U L)) = StringLit xs True (length pre + 1)"
  by (rule parseSimpleTemplate_drops [OF assms])

theorem simple_template_loses_first_byte_witness:
  "fst (parseSimpleTemplate asciiLib (\<lambda>_. None)
          (mkParser asciiLib (mkLexer ([CHR 0x60] @ ''hello'' @ [CHR 0x60]) DiagnosticEngine)))
     = StringLit ''ello'' True 1"
  using simple_template_loses_first_byte
      [of "mkLexer ([CHR 0x60] @ ''hello'' @ [CHR 0x60]) DiagnosticEngine" "[]" "CHR ''h''" "''ello''" "[]"
          asciiLib "\<lambda>_. None"]
    lexer_inv_init [OF diag_inv_init]
  by (simp add: before_def mkLexer_def)

text \<open>
  Error recovery ends and makes progress: on a source the lexer finishes, \<open>synchronize\<close>
  returns after finitely many advances, in front of end of file or of a keyword that starts a
  statement, or behind a semicolon, and unless it was called at end of file it has consumed
  input.
\<close>

theorem synchronize_terminates:
  assumes "list_all plainByte b" and "diag_inv D" and "P = (advance U ^^ k) (mkParser U (mkLexer b D))"
  shows "\<exists>n \<le> parser_left P. synchronize U P = Some ((advance U ^^ n) P) \<and> resynced U n P \<and>
           (tok_kind (curTok P) \<noteq> Eof \<longrightarrow> parser_left ((advance U ^^ n) P) < parser_left P)"
proof -
  have "parser_ok ((advance U ^^ k) (mkParser U (mkLexer b D)))"
    using mkParser_ok [OF plain_ok_init [OF assms(1,2)]] by (induction k) auto
  then show ?thesis unfolding assms(3) by (rule synchronize_ends)
qed

theorem synchronize_terminates_witness:
  "\<exists>n \<le> parser_left (mkParser asciiLib (mkLexer ''a b ; c'' DiagnosticEngine)).
     synchronize asciiLib (mkParser asciiLib (mkLexer ''a b ; c'' DiagnosticEngine)) =
       Some ((advance asciiLib ^^ n) (mkParser asciiLib (mkLexer ''a b ; c'' DiagnosticEngine)))"
  using synchronize_terminates [of "''a b ; c''" DiagnosticEngine
      "mkParser asciiLib (mkLexer ''a b ; c'' DiagnosticEngine)" 0 asciiLib]
  by (auto simp: plainByte_def)

text \<open>
  Error recovery does not end on a source with an illegal UTF-8 sequence: once both tokens
  of the window are the error in front of it, \<open>synchronize\<close> never returns.
\<close>

theorem synchronize_hangs:
  assumes "badUTF8 U L" and "\<not> inFragment L"
  shows "synchronize U (mkParser U L) = None"
proof -
  have f: "lex_next U L = (errorAt L (curPtr L), L)" by (rule badUTF8_fixpoint [OF assms])
  then have "parser_stuck U (mkParser U L)" by (simp add: parser_stuck_def stuck_def)
  then show ?thesis by (rule synchronize_stuck)
qed

theorem synchronize_hangs_witness:
  "synchronize asciiLib (mkParser asciiLib (mkLexer [CHR 0x80] DiagnosticEngine)) = None"
  by (rule synchronize_hangs)
     (simp_all add: badUTF8_def mkLexer_def asciiLib_def atEnd_def deref_def peek_def isUTF8Start_def
        advanceUTF8_def Let_def inFragment_def inTemplateString_def)

text \<open>
  A well-formed import list is parsed to its symbols: for every token sequence of the grammar
  \<open>importStream\<close> in front of the parser, \<open>parseImportSymbolList\<close> returns the pairs of names and
  aliases it denotes, consumes exactly these tokens and reports nothing.
\<close>

theorem import_list_parsed:
  assumes "importStream (getSpelling (p_buffer P)) ts ps" and "sees U P ts" and "lexer_inv (p_lexer P)"
  shows "parseImportSymbolList U P = Some (ps, (advance U ^^ length ts) P)"
  by (rule parseImportSymbolList_stream [OF assms])

theorem import_list_parsed_witness:
  "\<exists>P. curTok P = mkToken Identifier 0 1 \<and>
       parseImportSymbolList asciiLib P = Some ([(''a'', ''a'')], (advance asciiLib ^^ 2) P)"
proof -
  let ?P = "mkParser asciiLib (mkLexer ''a}'' DiagnosticEngine)"
  have id: "lex_next asciiLib (mkLexer ''a}'' DiagnosticEngine) =
      (mkToken Identifier 0 1, bump 1 (mkLexer ''a}'' DiagnosticEngine))"
    using lex_identifier_token [of "mkLexer ''a}'' DiagnosticEngine" "[]" "[]" "''a''" "''}''" asciiLib]
    by (simp add: before_def mkLexer_def inFragment_def inTemplateString_def cctype keywordKind_def
        keywordTable_def)
  have br: "lex_next asciiLib (bump 1 (mkLexer ''a}'' DiagnosticEngine)) =
      (mkToken (Bracket RBrace) 1 1, bump 2 (mkLexer ''a}'' DiagnosticEngine))"
    using lex_next_token [of "bump 1 (mkLexer ''a}'' DiagnosticEngine)" "''a''" "[]" "''}''" asciiLib]
    by (simp add: before_def mkLexer_def inFragment_def inTemplateString_def bump_def isWhitespace_def
        startsComment_def dispatch_def Let_def deref_def peek_def cctype scanOperator_def tokenFrom_def)
  let ?t = "mkToken Identifier 0 1" and ?r = "mkToken (Bracket RBrace) 1 1"
  have P: "curTok ?P = ?t" "nextTok ?P = ?r" "p_buffer ?P = ''a}''"
    using id br by (simp_all add: p_buffer_def bump_def mkLexer_def)
  then have "curTok (advance asciiLib ?P) = ?r"
    by (simp add: advance_def skipComments.simps is_kind_def)
  then have s: "sees asciiLib ?P ([?t] @ [?r])" using P by simp
  have sp: "getSpelling (p_buffer ?P) ?t = ''a''" using P(3) by (simp add: getSpelling_def)
  have g: "importStream (getSpelling (p_buffer ?P)) ([?t] @ [?r])
             [(getSpelling (p_buffer ?P) ?t, getSpelling (p_buffer ?P) ?t)]"
    by (intro lastEntry plainEntry) simp_all
  have "lexer_inv (p_lexer ?P)"
    using lex_next_inv [OF lexer_inv_init [OF diag_inv_init] prod.collapse [symmetric]]
      lex_next_inv [OF _ prod.collapse [symmetric]] by simp
  from import_list_parsed [OF g s this] have
    "parseImportSymbolList asciiLib ?P = Some ([(''a'', ''a'')], (advance asciiLib ^^ 2) ?P)"
    unfolding sp by (simp add: numeral_2_eq_2)
  with P(1) show ?thesis by blast
qed

text \<open>
  The import list never hangs the parser on a source the lexer finishes, however malformed
  the list is: it returns, and stops behind a closing brace or at end of file.
\<close>

theorem import_list_terminates:
  assumes "parser_ok P"
  shows "\<exists>syms P'. parseImportSymbolList U P = Some (syms, P') \<and> parser_left P' \<le> parser_left P \<and> parser_ok P'"
proof -
  obtain syms P1 where l: "importLoop U P [] = Some (syms, P1)" "parser_ok P1" "parser_left P1 \<le> parser_left P"
    using importLoop_ends [OF assms] by blast
  have "parser_ok (snd (expect U (Bracket RBrace) P1))"
    "parser_left (snd (expect U (Bracket RBrace) P1)) \<le> parser_left P1"
    using advance_ok [OF l(2)] advance_left_le [OF l(2)] l(2) by (auto simp: expect_def)
  with l show ?thesis by (auto simp: parseImportSymbolList_def)
qed

theorem import_list_terminates_witness:
  "\<exists>syms P'. parseImportSymbolList asciiLib (mkParser asciiLib (mkLexer ''a as , ( b'' DiagnosticEngine)) =
     Some (syms, P')"
  using import_list_terminates [OF mkParser_ok [OF plain_ok_init [OF _ diag_inv_init]], of "''a as , ( b''" asciiLib asciiLib]
  by (auto simp: plainByte_def)

text \<open>
  \<open>expectGreater\<close> splits a shift operator: in front of \<open>>>\<close> it succeeds twice, the first time
  without consuming the token and the second time consuming it, so nested generic argument lists
  close; in front of \<open>>>=\<close> it leaves \<open>>=\<close>.
\<close>

theorem expectGreater_splits_shift:
  "tok_kind (curTok P) = BitOp GreaterGreater \<Longrightarrow>
     (\<exists>P1. expectGreater U P = (True, P1) \<and> tok_kind (curTok P1) = RelOp Greater \<and>
           p_lexer P1 = p_lexer P \<and> nextTok P1 = nextTok P \<and>
           expectGreater U P1 = (True, advance U P))"
  by (auto simp: expectGreater_def is_kind_def advance_def shift_def intro: arg_cong)

theorem expectGreater_splits_shift_witness:
  "\<exists>P1. expectGreater asciiLib
          \<lparr>p_lexer = mkLexer [] DiagnosticEngine, curTok = mkToken (BitOp GreaterGreater) 0 2,
           nextTok = mkToken Eof 2 0, loopDepth = 0\<rparr> = (True, P1) \<and> tok_kind (curTok P1) = RelOp Greater"
  using expectGreater_splits_shift
      [of "\<lparr>p_lexer = mkLexer [] DiagnosticEngine, curTok = mkToken (BitOp GreaterGreater) 0 2,
            nextTok = mkToken Eof 2 0, loopDepth = 0\<rparr>" asciiLib]
  by auto

end
