(* ===== verification/ParserGrammar.thy ===== *)
theory ParserGrammar
  imports ParserModule
begin

text \<open>
  The grammar of binary expressions.  \<open>derives\<close> is the grammar of the operators as an inductive relation:
  twelve levels of left-associative operators over the operands of \<open>parsePower\<close>.  The methods of the levels
  accept exactly what it derives up to a token that no level takes.
\<close>

subsection \<open>Loops\<close>

lemma loop_step: "step s = Some (Inl t) \<Longrightarrow> loop step s = loop step t"
  by (subst loop.simps) simp

lemma loop_done: "step s = Some (Inr r) \<Longrightarrow> loop step s = Some r"
  by (subst loop.simps) simp

lemma loop_rule:
  assumes "loop step s = Some r" and "I s"
    and "\<And>s t. I s \<Longrightarrow> step s = Some (Inl t) \<Longrightarrow> I t"
    and "\<And>s r. I s \<Longrightarrow> step s = Some (Inr r) \<Longrightarrow> J r"
  shows "J r"
proof -
  have "f = step \<longrightarrow> I s \<longrightarrow> J r" if "loop f s = Some r" for f s r
  proof (rule loop.raw_induct [where P = "\<lambda>f s r. f = step \<longrightarrow> I s \<longrightarrow> J r", OF _ that])
    fix loop' f s r
    assume ih: "\<And>f s r. loop' f s = Some r \<Longrightarrow> f = step \<longrightarrow> I s \<longrightarrow> J r"
      and r: "(case f s of None \<Rightarrow> None | Some (Inl t) \<Rightarrow> loop' f t | Some (Inr r) \<Rightarrow> Some r) = Some r"
    show "f = step \<longrightarrow> I s \<longrightarrow> J r"
    proof (intro impI)
      assume "f = step" "I s"
      then show "J r" using r ih assms(3,4) by (auto split: option.splits sum.splits)
    qed
  qed
  then show ?thesis using assms(1,2) by blast
qed

text \<open>A loop whose body never leaves it from a state of \<open>I\<close> does not return.\<close>

lemma loop_diverges:
  assumes "I s" and "\<And>s r. I s \<Longrightarrow> step s \<noteq> Some (Inr r)" and "\<And>s t. I s \<Longrightarrow> step s = Some (Inl t) \<Longrightarrow> I t"
  shows "loop step s = None"
proof (rule ccontr)
  assume "loop step s \<noteq> None"
  then obtain r where "loop step s = Some r" by auto
  from loop_rule [OF this, of I "\<lambda>_. False"] assms show False by blast
qed

subsection \<open>The levels\<close>

definition binds :: "nat \<Rightarrow> parser \<Rightarrow> bool" where
  "binds k =
     [\<lambda>P. at P (LogicOp PipePipe), \<lambda>P. at P (LogicOp AmpAmp), \<lambda>P. at P (BitOp Pipe), \<lambda>P. at P (BitOp Caret),
      andBinds, eqBinds, relBinds, \<lambda>P. at P (LogicOp PipeGreater), coalesceBinds, shiftBinds, addBinds, mulBinds] ! k"

definition level :: "plib \<Rightarrow> subs \<Rightarrow> nat \<Rightarrow> expr option parse" where
  "level C R k =
     [parseLogicalOr C R, parseLogicalAnd C R, parseBitwiseOr C R, parseBitwiseXor C R, parseBitwiseAnd C R,
      parseEquality C R, parseRelational C R, parsePipe C R, parseNullCoalescing C R, parseShift C R,
      parseAdditive C R, parseMultiplicative C R, parsePower C R] ! k"

definition levelStep :: "plib \<Rightarrow> subs \<Rightarrow> nat \<Rightarrow> expr option \<times> parser \<Rightarrow>
    ((expr option \<times> parser) + (expr option \<times> parser)) option" where
  "levelStep C R k = (if k = 7 then pipeStep C R else binaryStep (pl_utf8 C) (binds k) (level C R (Suc k)))"

text \<open>
  No operator of the levels from \<open>k\<close> up to \<open>m\<close> is the current token.
\<close>

definition stops :: "nat \<Rightarrow> nat \<Rightarrow> parser \<Rightarrow> bool" where
  "stops k m P \<longleftrightarrow> (\<forall>j. k \<le> j \<and> j < m \<longrightarrow> \<not> binds j P)"

text \<open>
  \<open>derives C R k m P e Q\<close>: from \<open>P\<close> to \<open>Q\<close> the tokens are the expression \<open>e\<close> of level \<open>k\<close>, and behind it
  the operators of the levels below \<open>m\<close> can go on.  Behind the operand of \<open>|>\<close>, a postfix expression, those
  above \<open>|>\<close> cannot.
\<close>

inductive derives :: "plib \<Rightarrow> subs \<Rightarrow> nat \<Rightarrow> nat \<Rightarrow> parser \<Rightarrow> expr \<Rightarrow> parser \<Rightarrow> bool" for C R where
  operand: "parsePower C R P = Some (Some e, Q) \<Longrightarrow> derives C R 12 12 P e Q"
| tighter: "k < 12 \<Longrightarrow> derives C R (Suc k) m P e Q \<Longrightarrow> derives C R k m P e Q"
| join: "k < 12 \<Longrightarrow> k \<noteq> 7 \<Longrightarrow> derives C R k m P l Q \<Longrightarrow> binds k Q \<Longrightarrow>
    derives C R (Suc k) n (consume (pl_utf8 C) Q) r S \<Longrightarrow>
    derives C R k n P (BinaryExpr (Some l) (tok_kind (curTok Q)) (Some r) (location Q)) S"
| pipe: "derives C R 7 m P l Q \<Longrightarrow> binds 7 Q \<Longrightarrow>
    parsePostfix C R (consume (pl_utf8 C) Q) = Some (Some r, S) \<Longrightarrow> pipeInto (location Q) l r = Some e \<Longrightarrow>
    derives C R 7 8 P e S"

lemma derives_levels: "derives C R k m P e Q \<Longrightarrow> m \<le> 12 \<and> (k < m \<or> k = 12 \<and> m = 12)"
  by (induction rule: derives.induct) auto

lemma less_12: "(k::nat) < 12 \<longleftrightarrow> k \<in> {0, 1, 2, 3, 4, 5, 6, 7, 8, 9, 10, 11}"
  by (auto, presburger)

lemmas bind_defs = andBinds_def eqBinds_def relBinds_def coalesceBinds_def shiftBinds_def addBinds_def mulBinds_def

text \<open>The operators of different levels are different tokens.\<close>

definition opLevel :: "TokenKind \<Rightarrow> nat" where
  "opLevel k =
     (if k = LogicOp PipePipe then 0 else if k = LogicOp AmpAmp then 1 else if k = BitOp Pipe then 2
      else if k = BitOp Caret then 3 else if k = BitOp Amp then 4
      else if k \<in> {RelOp EqualEqual, RelOp NotEqual} then 5
      else if k \<in> {RelOp Less, RelOp LessEqual, RelOp Greater, RelOp GreaterEqual} then 6
      else if k = LogicOp PipeGreater then 7 else if k = SyntaxOp QuestionQuestion then 8
      else if k \<in> {BitOp LessLess, BitOp GreaterGreater} then 9
      else if k \<in> {MathOp Plus, MathOp Minus} then 10 else 11)"

lemma binds_opLevel: "k < 12 \<Longrightarrow> binds k P \<Longrightarrow> opLevel (tok_kind (curTok P)) = k"
  unfolding less_12 by (auto simp: binds_def bind_defs at_def isAny_def is_kind_def opLevel_def)

lemma binds_stops: "k < 12 \<Longrightarrow> m \<le> 12 \<Longrightarrow> binds k P \<Longrightarrow> stops (Suc k) m P"
  unfolding stops_def using binds_opLevel by (metis Suc_n_not_le_n order_less_le_trans)

lemma stops_here: "k < m \<Longrightarrow> stops k m P \<longleftrightarrow> \<not> binds k P \<and> stops (Suc k) m P"
  unfolding stops_def by (metis Suc_leD Suc_leI le_neq_implies_less order_refl)

lemma level_operand: "level C R 12 = parsePower C R"
  by (simp add: level_def numeral_eq_Suc)

lemma level_unfold:
  assumes "k < 12"
  shows "level C R k P = do { s \<leftarrow> level C R (Suc k) P; loop (levelStep C R k) s }"
  using assms unfolding less_12
  by (elim insertE emptyE; simp add: level_def levelStep_def binds_def parseLogicalOr_def parseLogicalAnd_def
      parseBitwiseOr_def parseBitwiseXor_def parseBitwiseAnd_def parseEquality_def parseRelational_def parsePipe_def
      parseNullCoalescing_def parseShift_def parseAdditive_def parseMultiplicative_def binaryLevel_def numeral_eq_Suc)

lemma levelStep_stop: "\<not> binds k P \<Longrightarrow> levelStep C R k (Some e, P) = Some (Inr (Some e, P))"
  by (auto simp: levelStep_def binaryStep_def pipeStep_def binds_def numeral_eq_Suc)


lemma level_stops:
  "level C R k P = loop (levelStep C R k) (Some e, Q) \<Longrightarrow> \<not> binds k Q \<Longrightarrow> level C R k P = Some (Some e, Q)"
  by (simp add: loop_done levelStep_stop)

lemma levelStep_join:
  assumes "k \<noteq> 7" "binds k Q" "level C R (Suc k) (consume (pl_utf8 C) Q) = Some (Some r, S)"
  shows "levelStep C R k (Some l, Q) =
     Some (Inl (Some (BinaryExpr (Some l) (tok_kind (curTok Q)) (Some r) (location Q)), S))"
  using assms by (simp add: levelStep_def binaryStep_def)

lemma derives_complete:
  "derives C R k m P e Q \<Longrightarrow>
     (k < 12 \<longrightarrow> stops (Suc k) m Q \<longrightarrow> level C R k P = loop (levelStep C R k) (Some e, Q)) \<and>
     (stops k m Q \<longrightarrow> level C R k P = Some (Some e, Q))"
proof (induction rule: derives.induct)
  case (operand P e Q)
  then show ?case by (simp add: level_operand)
next
  case (tighter k m P e Q)
  have "level C R k P = loop (levelStep C R k) (Some e, Q)" if "stops (Suc k) m Q"
    using tighter that by (simp add: level_unfold)
  then show ?case
    using derives_levels [OF derives.tighter [OF tighter.hyps]] tighter.hyps(1) stops_here [of k m Q] level_stops by auto
next
  case (join k m P l Q n r S)
  have left: "level C R k P = loop (levelStep C R k) (Some l, Q)"
    using join binds_stops derives_levels by blast
  have "level C R k P = loop (levelStep C R k) (Some (BinaryExpr (Some l) (tok_kind (curTok Q)) (Some r) (location Q)), S)"
    if "stops (Suc k) n S"
    using left join that loop_step [of "levelStep C R k", OF levelStep_join] by simp
  then show ?case
    using derives_levels [OF derives.join [OF join.hyps]] join.hyps(1) stops_here [of k n S] level_stops by auto
next
  case (pipe m P l Q r S e)
  have "level C R 7 P = loop (levelStep C R 7) (Some l, Q)"
    using pipe binds_stops [of 7 m Q] derives_levels by fastforce
  also have "\<dots> = loop (levelStep C R 7) (Some e, S)"
    using pipe.hyps by (intro loop_step) (simp add: levelStep_def pipeStep_def binds_def numeral_eq_Suc)
  finally show ?case using stops_here [of 7 8 S] level_stops by auto
qed

text \<open>The state of a level's loop: what is derived so far.\<close>

definition derived :: "plib \<Rightarrow> subs \<Rightarrow> nat \<Rightarrow> parser \<Rightarrow> expr option \<times> parser \<Rightarrow> bool" where
  "derived C R k P s \<longleftrightarrow>
     (case fst s of None \<Rightarrow> True | Some e \<Rightarrow> \<exists>m. derives C R k m P e (snd s) \<and> stops (Suc k) m (snd s))"

definition finished :: "plib \<Rightarrow> subs \<Rightarrow> nat \<Rightarrow> parser \<Rightarrow> expr option \<times> parser \<Rightarrow> bool" where
  "finished C R k P s \<longleftrightarrow>
     (case fst s of None \<Rightarrow> True | Some e \<Rightarrow> \<exists>m. derives C R k m P e (snd s) \<and> stops k m (snd s))"

lemma derived_next:
  assumes k: "k < 12" and above: "\<And>P s. level C R (Suc k) P = Some s \<Longrightarrow> finished C R (Suc k) P s"
    and s: "derived C R k P s" and t: "levelStep C R k s = Some (Inl t)"
  shows "derived C R k P t"
proof (cases "k = 7")
  case False
  then obtain l r m Q S where *: "s = (Some l, Q)" "binds k Q" "derives C R k m P l Q"
      "level C R (Suc k) (consume (pl_utf8 C) Q) = Some (Some r, S)"
      "t = (Some (BinaryExpr (Some l) (tok_kind (curTok Q)) (Some r) (location Q)), S)"
    using s t by (cases s) (auto simp: levelStep_def binaryStep_def derived_def split: if_splits option.splits bind_splits)
  then obtain n where "derives C R (Suc k) n (consume (pl_utf8 C) Q) r S" "stops (Suc k) n S"
    using above [OF *(4)] by (auto simp: finished_def)
  then show ?thesis using * k False by (auto simp: derived_def intro: derives.join [OF k False *(3,2)])
next
  case True
  then obtain l r m Q S e where "s = (Some l, Q)" "binds 7 Q" "derives C R 7 m P l Q"
      "parsePostfix C R (consume (pl_utf8 C) Q) = Some (Some r, S)" "pipeInto (location Q) l r = Some e" "t = (Some e, S)"
    using s t by (cases s) (auto simp: levelStep_def pipeStep_def derived_def binds_def numeral_eq_Suc
        split: if_splits option.splits bind_splits)
  then show ?thesis using True derives.pipe by (fastforce simp: derived_def stops_def)
qed

lemma derived_last:
  assumes k: "k < 12" and s: "derived C R k P s" and r: "levelStep C R k s = Some (Inr r)"
  shows "finished C R k P r"
proof (cases "fst r")
  case (Some e)
  then have "s = r" "\<not> binds k (snd r)"
    using r by (cases s; auto simp: levelStep_def pipeStep_def binaryStep_def binds_def numeral_eq_Suc
        split: if_splits option.splits bind_splits)+
  then show ?thesis
    using s Some k derives_levels by (fastforce simp: derived_def finished_def stops_here)
qed (simp add: finished_def)

lemma derives_sound: "k \<le> 12 \<Longrightarrow> level C R k P = Some s \<Longrightarrow> finished C R k P s"
proof (induction k arbitrary: P s rule: inc_induct)
  case base
  then show ?case
    by (cases s) (auto simp: finished_def level_operand stops_def split: option.splits
        intro!: exI [of _ 12] derives.operand)
next
  case (step k)
  from step.prems step.hyps obtain s0 where s0: "level C R (Suc k) P = Some s0"
      "loop (levelStep C R k) s0 = Some s"
    by (auto simp: level_unfold split: bind_splits)
  have "derived C R k P s0"
    using step.IH [OF s0(1)] step.hyps
    by (cases "fst s0") (auto simp: finished_def derived_def intro: derives.tighter)
  then show ?case
    by (rule loop_rule [OF s0(2)]) (use step derived_next derived_last in blast)+
qed

lemma level_iff:
  "k \<le> 12 \<Longrightarrow> level C R k P = Some (Some e, Q) \<longleftrightarrow> (\<exists>m. derives C R k m P e Q \<and> stops k m Q)"
  using derives_complete derives_sound [of k C R P "(Some e, Q)"] by (fastforce simp: finished_def)

subsection \<open>Properties of the expression grammar\<close>


end
