(* ===== verification/ParserFuel.thy ===== *)
theory ParserFuel
  imports ParserModule ParserProps ParserGrammar
begin

text \<open>
  What every method of the parser keeps, and that its result does not depend on how deep the recursion may go.
  Both are shown in one pass: \<open>ok S P m n\<close> says that \<open>n\<close> returns what \<open>m\<close> returns, and that the parser
  behind it is \<open>later\<close> than \<open>P\<close>.
\<close>

named_theorems parse_ok \<open>rules of ok\<close>
named_theorems parse_later \<open>rules of later\<close>

definition later :: "parser \<Rightarrow> parser \<Rightarrow> bool" where
  "later P Q \<longleftrightarrow> loopDepth Q = loopDepth P \<and>
     (lexer_inv (p_lexer P) \<longrightarrow> lexer_inv (p_lexer Q) \<and> p_buffer Q = p_buffer P) \<and>
     (parser_ok P \<longrightarrow> parser_ok Q \<and> parser_left Q \<le> parser_left P)"

definition ok :: "('t \<Rightarrow> parser) \<Rightarrow> parser \<Rightarrow> 't option \<Rightarrow> 't option \<Rightarrow> bool" where
  "ok S P m n \<longleftrightarrow> (\<forall>t. m = Some t \<longrightarrow> n = Some t \<and> later P (S t))"

definition exit :: "(('a \<times> parser) + ('b \<times> parser)) \<Rightarrow> parser" where
  "exit t = (case t of Inl s \<Rightarrow> snd s | Inr r \<Rightarrow> snd r)"

subsection \<open>The steps of the parser\<close>

lemma later_refl [simp, parse_later]: "later P P"
  by (simp add: later_def)

lemma later_trans: "later P Q \<Longrightarrow> later Q S \<Longrightarrow> later P S"
  by (auto simp: later_def)

lemma loopDepth_skipComments: "loopDepth (skipComments U P) = loopDepth P"
  by (induction U P rule: skipComments.induct) (subst skipComments.simps, simp add: shift_def split: prod.splits)

lemma later_advance [parse_later]: "later P Q \<Longrightarrow> later P (advance U Q)"
  using lexer_inv_buffer [of Q U] advance_ok [of Q U] advance_left_le [of Q U]
  by (auto simp: later_def advance_def loopDepth_skipComments shift_def split: prod.splits)

lemma later_consume [parse_later]: "later P Q \<Longrightarrow> later P (consume U Q)"
  by (simp add: consume_def later_advance)

lemma lexer_inv_report: "lexer_inv L \<Longrightarrow> lexer_inv (L\<lparr>Diags := report (Diags L) loc i m\<rparr>)"
  by (simp add: lexer_inv_def inTemplateString_def diag_inv_report)

lemma parser_left_report: "parser_left (reportAt loc i m Q) = parser_left Q"
  by (simp add: parser_left_def lexsrc.win_left_def reportAt_def bytesLeft_def)

lemma parser_ok_report: "parser_ok Q \<Longrightarrow> parser_ok (reportAt loc i m Q)"
  using lexer_inv_report [of "p_lexer Q"]
  by (auto simp: parser_ok_def lexsrc.win_ok_def reportAt_def plain_ok_def plain_def bytesLeft_def)

lemma later_reportAt [parse_later]: "later P Q \<Longrightarrow> later P (reportAt loc i m Q)"
  using lexer_inv_report [of "p_lexer Q"]
  by (auto simp: later_def parser_left_report parser_ok_report) (auto simp: reportAt_def p_buffer_def)

lemma parseError_reportAt: "parseError m P = reportAt (location P) err_expected_token m P"
  by (simp add: parseError_def reportAt_def location_def)

lemma later_parseError [parse_later]: "later P Q \<Longrightarrow> later P (parseError m Q)"
  by (simp add: parseError_reportAt later_reportAt)

lemma later_snd_pair [parse_later]: "later P Q \<Longrightarrow> later P (snd (x, Q))"
  by simp

lemma later_if [parse_later]: "later P Q \<Longrightarrow> later P S \<Longrightarrow> later P (if c then Q else S)"
  by simp

lemma later_snd_if [parse_later]:
  "later P (snd x) \<Longrightarrow> later P (snd y) \<Longrightarrow> later P (snd (if c then x else y))"
  by simp

lemma later_snd_option [parse_later]:
  "later P (snd a) \<Longrightarrow> (\<And>x. later P (snd (f x))) \<Longrightarrow> later P (snd (case y of None \<Rightarrow> a | Some x \<Rightarrow> f x))"
  by (cases y) auto

lemma later_snd_bool [parse_later]:
  "later P (snd a) \<Longrightarrow> later P (snd b) \<Longrightarrow> later P (snd (case c of True \<Rightarrow> a | False \<Rightarrow> b))"
  by (cases c) auto

lemma later_snd_prod [parse_later]:
  "later P (snd y) \<Longrightarrow> (\<And>x Q. later P Q \<Longrightarrow> later P (snd (f x Q))) \<Longrightarrow> later P (snd (case y of (x, Q) \<Rightarrow> f x Q))"
  by (cases y) auto

lemma later_consumeIf [parse_later]: "later P Q \<Longrightarrow> later P (snd (consumeIf U k Q))"
  by (simp add: consumeIf_def later_advance)

lemma later_expect [parse_later]: "later P Q \<Longrightarrow> later P (snd (expect U k Q))"
  by (simp add: expect_def later_advance later_parseError)

lemma later_expects [parse_later]: "later P Q \<Longrightarrow> later P (expects U k Q)"
  by (simp add: expects_def later_expect)

lemma later_retag:
  assumes "k \<noteq> Eof" "tok_kind (curTok Q) \<noteq> Eof" "later P Q"
  shows "later P (Q\<lparr>curTok := (curTok Q)\<lparr>tok_kind := k\<rparr>\<rparr>)"
  using assms by (auto simp: later_def p_buffer_def parser_ok_def parser_left_def lexsrc.win_ok_def lexsrc.win_left_def)

lemma later_expectsGreater [parse_later]: "later P Q \<Longrightarrow> later P (expectsGreater U Q)"
  by (auto simp: expectsGreater_def expectGreater_def is_kind_def later_advance later_expect intro!: later_retag)

lemma later_loop: "later (enterLoop P) Q \<Longrightarrow> later P (leaveLoop Q)"
  by (simp add: later_def enterLoop_def leaveLoop_def p_buffer_def parser_ok_def parser_left_def)

lemma later_synchronize_loop: "synchronize_loop U Q = Some S \<Longrightarrow> later P Q \<longrightarrow> later P S"
  by (erule synchronize_loop.raw_induct [where Pa = "\<lambda>(U, Q) S. later P Q \<longrightarrow> later P S", unfolded case_prod_conv, rotated])
     (auto split: if_splits intro: later_advance)

lemma later_importSymbol: "later P Q \<Longrightarrow> later P (snd (importSymbol U Q))"
  by (auto simp: importSymbol_def Let_def consumeIf_def split: prod.splits
      intro: later_consume later_advance later_parseError)

lemma later_importSeparator: "later P Q \<Longrightarrow> later P (importSeparator U Q)"
  by (auto simp: importSeparator_def consumeIf_def intro: later_consume later_advance later_parseError)

lemma later_importLoop: "importLoop U Q ss = Some y \<Longrightarrow> later P Q \<longrightarrow> later P (snd y)"
  by (erule importLoop.raw_induct [where Pa = "\<lambda>((U, Q), ss) y. later P Q \<longrightarrow> later P (snd y)", unfolded case_prod_conv, rotated])
     (fastforce split: if_splits intro: later_importSymbol later_importSeparator)

subsection \<open>Rules\<close>

lemma ok_None [parse_ok]: "ok S P None n"
  by (simp add: ok_def)

lemma ok_Some [parse_ok]: "later P Q \<Longrightarrow> ok snd P (Some (x, Q)) (Some (x, Q))"
  by (simp add: ok_def)

lemma ok_Inl [parse_ok]: "later P Q \<Longrightarrow> ok exit P (Some (Inl (x, Q))) (Some (Inl (x, Q)))"
  by (simp add: ok_def exit_def)

lemma ok_Inr [parse_ok]: "later P Q \<Longrightarrow> ok exit P (Some (Inr (x, Q))) (Some (Inr (x, Q)))"
  by (simp add: ok_def exit_def)

lemma ok_bind [parse_ok]:
  assumes "ok snd P m n" and "\<And>x Q. later P Q \<Longrightarrow> ok S P (f x Q) (g x Q)"
  shows "ok S P (m \<bind> (\<lambda>(x, Q). f x Q)) (n \<bind> (\<lambda>(x, Q). g x Q))"
  using assms by (cases m) (auto simp: ok_def)

lemma ok_bind_parser [parse_ok]:
  assumes "ok id P m n" and "\<And>Q. later P Q \<Longrightarrow> ok S P (f Q) (g Q)"
  shows "ok S P (m \<bind> f) (n \<bind> g)"
  using assms by (cases m) (auto simp: ok_def)

lemma ok_bind_type [parse_ok]:
  fixes m :: "ast_type option"
  shows "(\<And>t. ok S P (f t) (g t)) \<Longrightarrow> ok S P (m \<bind> f) (m \<bind> g)"
  by (cases m) (auto simp: ok_def)

lemma ok_bind_weak [parse_ok]:
  fixes m :: "(ast_type \<times> bool) option"
  shows "(\<And>t b. ok S P (f t b) (g t b)) \<Longrightarrow> ok S P (m \<bind> (\<lambda>(t, b). f t b)) (m \<bind> (\<lambda>(t, b). g t b))"
  by (cases m) (auto simp: ok_def)

lemma ok_bind_Inl [parse_ok]:
  "ok snd P m n \<Longrightarrow> ok exit P (m \<bind> (\<lambda>s. Some (Inl s))) (n \<bind> (\<lambda>s. Some (Inl s)))"
  by (cases m) (auto simp: ok_def exit_def)

lemma ok_if [parse_ok]: "ok S P a a' \<Longrightarrow> ok S P b b' \<Longrightarrow> ok S P (if c then a else b) (if c then a' else b')"
  by simp

lemma ok_option [parse_ok]:
  "ok S P a a' \<Longrightarrow> (\<And>x. ok S P (f x) (f' x)) \<Longrightarrow>
   ok S P (case y of None \<Rightarrow> a | Some x \<Rightarrow> f x) (case y of None \<Rightarrow> a' | Some x \<Rightarrow> f' x)"
  by (cases y) auto

lemma ok_bool [parse_ok]:
  "ok S P a a' \<Longrightarrow> ok S P b b' \<Longrightarrow>
   ok S P (case c of True \<Rightarrow> a | False \<Rightarrow> b) (case c of True \<Rightarrow> a' | False \<Rightarrow> b')"
  by (cases c) auto

lemma ok_sum [parse_ok]:
  "(\<And>x. ok S P (f x) (f' x)) \<Longrightarrow> (\<And>x. ok S P (g x) (g' x)) \<Longrightarrow>
   ok S P (case y of Inl x \<Rightarrow> f x | Inr x \<Rightarrow> g x) (case y of Inl x \<Rightarrow> f' x | Inr x \<Rightarrow> g' x)"
  by (cases y) auto

lemma ok_prod [parse_ok]:
  "later P (snd y) \<Longrightarrow> (\<And>x Q. later P Q \<Longrightarrow> ok S P (f x Q) (f' x Q)) \<Longrightarrow>
   ok S P (case y of (x, Q) \<Rightarrow> f x Q) (case y of (x, Q) \<Rightarrow> f' x Q)"
  by (cases y) auto

lemma ok_triple [parse_ok]:
  "later P (snd (snd y)) \<Longrightarrow> (\<And>x z Q. later P Q \<Longrightarrow> ok S P (f x z Q) (f' x z Q)) \<Longrightarrow>
   ok S P (case y of (x, z, Q) \<Rightarrow> f x z Q) (case y of (x, z, Q) \<Rightarrow> f' x z Q)"
  by (cases y) auto

lemma ok_tuple [parse_ok]:
  "(\<And>x z. ok S P (f x z Q) (f' x z Q)) \<Longrightarrow> ok S P ((case y of (x, z) \<Rightarrow> f x z) Q) ((case y of (x, z) \<Rightarrow> f' x z) Q)"
  by (cases y) auto

lemma ok_loop [parse_ok]:
  assumes "later P Q" and step: "\<And>x Q. later P Q \<Longrightarrow> ok exit P (f (x, Q)) (g (x, Q))"
  shows "ok snd P (loop f (x, Q)) (loop g (x, Q))"
proof -
  have "loop g (x, Q) = Some r \<and> later P (snd r)" if "loop f (x, Q) = Some r" for r
  proof (rule loop_rule [OF that, where I = "\<lambda>s. later P (snd s) \<and> loop g (x, Q) = loop g s"])
    fix s t
    assume "later P (snd s) \<and> loop g (x, Q) = loop g s" "f s = Some (Inl t)"
    then show "later P (snd t) \<and> loop g (x, Q) = loop g t"
      using step [of "snd s" "fst s"] loop_step [of g s t] by (auto simp: ok_def exit_def)
  next
    fix s r
    assume "later P (snd s) \<and> loop g (x, Q) = loop g s" "f s = Some (Inr r)"
    then show "loop g (x, Q) = Some r \<and> later P (snd r)"
      using step [of "snd s" "fst s"] loop_done [of g s r] by (auto simp: ok_def exit_def)
  qed (use assms(1) in simp)
  then show ?thesis by (auto simp: ok_def)
qed

lemma ok_bind_loop [parse_ok]:
  assumes "ok snd P m n" and "\<And>x Q. later P Q \<Longrightarrow> ok exit P (f (x, Q)) (g (x, Q))"
  shows "ok snd P (m \<bind> loop f) (n \<bind> loop g)"
proof (cases m)
  case (Some s)
  then have "n = Some s" "later P (snd s)" using assms(1) by (auto simp: ok_def)
  with Some show ?thesis using ok_loop [of P "snd s" f g "fst s"] assms(2) by simp
qed (simp add: ok_None)

lemma ok_synchronize [parse_ok]: "later P Q \<Longrightarrow> ok id P (synchronize U Q) (synchronize U Q)"
  using later_advance [of P Q U] later_synchronize_loop [of U "advance U Q" _ P]
  by (auto simp: ok_def synchronize_def split: if_splits)

lemma ok_skipTo [parse_ok]: "later P Q \<Longrightarrow> ok id P (skipTo U ks Q) (skipTo U ks Q)"
  unfolding ok_def skipTo_def
  by (auto elim!: loop_rule [where I = "later P" and J = "later P"] split: if_splits intro: later_consume)

lemma ok_imports [parse_ok]:
  "later P Q \<Longrightarrow> ok snd P (parseImportSymbolList U Q) (parseImportSymbolList U Q)"
  by (auto simp: ok_def parseImportSymbolList_def split: option.splits intro!: later_expect dest: later_importLoop)

subsection \<open>The methods\<close>

definition sub_ok :: "subs \<Rightarrow> subs \<Rightarrow> bool" where
  "sub_ok R R' \<longleftrightarrow> (\<forall>P.
     ok snd P (rExpression R P) (rExpression R' P) \<and> ok snd P (rTernary R P) (rTernary R' P) \<and>
     ok snd P (rPower R P) (rPower R' P) \<and> ok snd P (rPrefix R P) (rPrefix R' P) \<and>
     ok snd P (rPrimary R P) (rPrimary R' P) \<and> ok snd P (rType R P) (rType R' P) \<and>
     ok snd P (rStatement R P) (rStatement R' P) \<and> ok snd P (rDecls R P) (rDecls R' P))"

lemma ok_from: "ok S Q m n \<Longrightarrow> later P Q \<Longrightarrow> ok S P m n"
  by (auto simp: ok_def intro: later_trans)

lemma sub_ok_rules [parse_ok]:
  assumes "sub_ok R R'" "later P Q"
  shows "ok snd P (rExpression R Q) (rExpression R' Q)" "ok snd P (rTernary R Q) (rTernary R' Q)"
    "ok snd P (rPower R Q) (rPower R' Q)" "ok snd P (rPrefix R Q) (rPrefix R' Q)"
    "ok snd P (rPrimary R Q) (rPrimary R' Q)" "ok snd P (rType R Q) (rType R' Q)"
    "ok snd P (rStatement R Q) (rStatement R' Q)" "ok snd P (rDecls R Q) (rDecls R' Q)"
  using assms by (auto simp: sub_ok_def intro: ok_from)

lemma ok_commaList [parse_ok]:
  assumes "later P Q" and "\<And>Q. later P Q \<Longrightarrow> ok snd P (f Q) (g Q)"
  shows "ok snd P (commaList U f Q) (commaList U g Q)"
  unfolding commaList_def commaStep_def by (intro parse_ok parse_later assms | assumption)+

lemma ok_listUntil [parse_ok]:
  assumes "later P Q" and "\<And>Q. later P Q \<Longrightarrow> ok snd P (f Q) (g Q)"
  shows "ok snd P (listUntil U k f Q) (listUntil U k g Q)"
  unfolding listUntil_def by (intro parse_ok parse_later assms | assumption)+

lemma ok_present [parse_ok]: "ok snd P m n \<Longrightarrow> ok snd P (present m) (present n)"
  unfolding present_def by (intro parse_ok parse_later | assumption)+

lemma ok_single [parse_ok]: "ok snd P m n \<Longrightarrow> ok snd P (single m) (single n)"
  unfolding single_def by (intro parse_ok parse_later | assumption)+

lemma ok_binaryLevel [parse_ok]:
  assumes "later P Q" and "\<And>Q. later P Q \<Longrightarrow> ok snd P (f Q) (g Q)"
  shows "ok snd P (binaryLevel U b f Q) (binaryLevel U b g Q)"
  unfolding binaryLevel_def binaryStep_def by (intro parse_ok parse_later assms | assumption)+


lemma ok_pairs [parse_ok]: "later P (snd r) \<Longrightarrow> ok snd P (Some r) (Some r)"
  by (simp add: ok_def)

lemma statementsUntil_ok [parse_ok]:
  "sub_ok R R' \<Longrightarrow> later P Q \<Longrightarrow> ok snd P (statementsUntil U R ks Q) (statementsUntil U R' ks Q)"
  unfolding statementsUntil_def stmtStep_def by (intro parse_ok parse_later | assumption)+

lemma parseBlock_ok [parse_ok]:
  "sub_ok R R' \<Longrightarrow> later P Q \<Longrightarrow> ok snd P (parseBlock U R Q) (parseBlock U R' Q)"
  unfolding parseBlock_def by (intro parse_ok parse_later | assumption)+

lemmas type_defs = innerType_def decimalNumber_def parseDecimalType_def dottedStep_def typeArgument_def
  parseNamedType_def optionalType_def paramTypes_def parseClosureType_def typeHead_def sizeStep_def suffixStep_def

lemma parseType_ok:
  "sub_ok R R' \<Longrightarrow> later P Q \<Longrightarrow> ok snd P (parseType U R Q) (parseType U R' Q)"
  unfolding parseType_def type_defs Let_def by (intro parse_ok parse_later | assumption)+

lemmas literal_defs = parseIntegerLiteral_def parseFloatLiteral_def parseDecimalLiteral_def parseCharLiteral_def
  charEscape_def parseStringLiteral_def parseSimpleTemplate_def stringToken_def

lemma later_literals [parse_later]:
  assumes "later P Q"
  shows "later P (snd (parseIntegerLiteral U Q))" "later P (snd (parseFloatLiteral C Q))"
    "later P (snd (parseDecimalLiteral U Q))" "later P (snd (parseCharLiteral U Q))"
    "later P (snd (parseStringLiteral U conv Q))" "later P (snd (parseSimpleTemplate U conv Q))"
    "later P (snd (stringToken U m Q))"
  unfolding literal_defs Let_def by (intro parse_later assms | assumption)+

lemma later_captureMode [parse_later]: "later P Q \<Longrightarrow> later P (snd (snd (captureMode U Q)))"
  by (auto simp: captureMode_def Let_def intro: later_advance)

lemma later_forNames [parse_later]: "later P Q \<Longrightarrow> later P (snd (snd (forNames U Q)))"
  by (auto simp: forNames_def consumeIf_def intro: later_advance later_consume later_parseError)

lemma parseLambdaBody_ok [parse_ok]:
  "sub_ok R R' \<Longrightarrow> later P Q \<Longrightarrow> ok snd P (parseLambdaBody U R ps m Q) (parseLambdaBody U R' ps m Q)"
  unfolding parseLambdaBody_def Let_def by (intro parse_ok parse_later | assumption)+

lemma optionalInit_ok [parse_ok]:
  "sub_ok R R' \<Longrightarrow> later P Q \<Longrightarrow> ok snd P (optionalInit U R Q) (optionalInit U R' Q)"
  unfolding optionalInit_def by (intro parse_ok parse_later | assumption)+

lemmas primary_defs = elementStep_def parseArrayLiteral_def mapEntry_def parseMapLiteral_def templateStep_def
  parseTemplateString_def presentArg_def newThread_def parseNewExpr_def parseInputExpr_def clobber_def
  asmOperand_def asmStep_def parseAsmExpr_def parseCast_def lambdaStep_def parseTypedLambda_def parseParen_def
  parseAsyncLambda_def primarySwitch_def

lemma parsePrimary_ok [parse_ok]:
  "sub_ok R R' \<Longrightarrow> later P Q \<Longrightarrow> ok snd P (parsePrimary C R Q) (parsePrimary C R' Q)"
  unfolding parsePrimary_def primary_defs Let_def by (intro parse_ok parse_later | assumption)+

lemma parsePostfix_ok [parse_ok]:
  "sub_ok R R' \<Longrightarrow> later P Q \<Longrightarrow> ok snd P (parsePostfix C R Q) (parsePostfix C R' Q)"
  unfolding parsePostfix_def postfixStep_def indexExpr_def Let_def by (intro parse_ok parse_later | assumption)+

lemma parsePrefix_ok [parse_ok]:
  "sub_ok R R' \<Longrightarrow> later P Q \<Longrightarrow> ok snd P (parsePrefix C R Q) (parsePrefix C R' Q)"
  unfolding parsePrefix_def Let_def by (intro parse_ok parse_later | assumption)+

lemma parsePower_ok [parse_ok]:
  "sub_ok R R' \<Longrightarrow> later P Q \<Longrightarrow> ok snd P (parsePower C R Q) (parsePower C R' Q)"
  unfolding parsePower_def by (intro parse_ok parse_later | assumption)+

lemmas level_defs = parseLogicalOr_def parseLogicalAnd_def parseBitwiseOr_def parseBitwiseXor_def parseBitwiseAnd_def
  parseEquality_def parseRelational_def parsePipe_def pipeStep_def parseNullCoalescing_def parseShift_def
  parseAdditive_def parseMultiplicative_def

lemma parseTernary_ok [parse_ok]:
  "sub_ok R R' \<Longrightarrow> later P Q \<Longrightarrow> ok snd P (parseTernary C R Q) (parseTernary C R' Q)"
  unfolding parseTernary_def ternaryRest_def level_defs by (intro parse_ok parse_later | assumption)+

lemma parseExpression_ok [parse_ok]:
  "sub_ok R R' \<Longrightarrow> later P Q \<Longrightarrow> ok snd P (parseExpression C R Q) (parseExpression C R' Q)"
  unfolding parseExpression_def parseAssignment_def by (intro parse_ok parse_later | assumption)+

text \<open>Declarations.\<close>

lemma later_declarations [parse_later]:
  assumes "later P Q"
  shows "later P (snd (sectionModifier U M Q))" "later P (snd (externModifier U M Q))"
    "later P (snd (moduleNameToken U Q))" "later P (snd (importAlias U Q))" "later P (snd (memberName U Q))"
  unfolding sectionModifier_def externModifier_def moduleNameToken_def importAlias_def memberName_def
  by (intro parse_later assms | assumption)+

lemma later_declEnd [parse_later]: "later P Q \<Longrightarrow> later P (declEnd U Q)"
  by (auto simp: declEnd_def consumeIf_def intro: later_advance later_parseError)

lemma ok_InlPair [parse_ok]: "later P (snd s) \<Longrightarrow> ok exit P (Some (Inl s)) (Some (Inl s))"
  by (simp add: ok_def exit_def)

lemma parseModifiers_ok [parse_ok]:
  "later P Q \<Longrightarrow> ok snd P (parseModifiers U ks Q) (parseModifiers U ks Q)"
  unfolding parseModifiers_def modifierStep_def alignModifier_def Let_def by (intro parse_ok parse_later | assumption)+

lemma parseFunctionRest_ok [parse_ok]:
  "sub_ok R R' \<Longrightarrow> later P Q \<Longrightarrow>
   ok snd P (parseFunctionRest U R t n a st w v Q) (parseFunctionRest U R' t n a st w v Q)"
  unfolding parseFunctionRest_def paramStep_def viewStep_def Let_def by (intro parse_ok parse_later | assumption)+

lemma parseVariableRest_ok [parse_ok]:
  "sub_ok R R' \<Longrightarrow> later P Q \<Longrightarrow>
   ok snd P (parseVariableRest U R t n c st sh v Q) (parseVariableRest U R' t n c st sh v Q)"
  unfolding parseVariableRest_def variableTail_def bitFieldWidth_def Let_def
  by (intro parse_ok parse_later | assumption)+

lemma parseVariableDecls_ok [parse_ok]:
  "sub_ok R R' \<Longrightarrow> later P Q \<Longrightarrow> ok snd P (parseVariableDecls U R Q) (parseVariableDecls U R' Q)"
  unfolding parseVariableDecls_def variableStep_def Let_def by (intro parse_ok parse_later | assumption)+

lemma specialMember_ok [parse_ok]:
  "sub_ok R R' \<Longrightarrow> later P Q \<Longrightarrow> ok snd P (specialMember U R v Q) (specialMember U R' v Q)"
  unfolding specialMember_def by (intro parse_ok parse_later | assumption)+

lemma ok_members [parse_ok]:
  assumes "later P Q" and "\<And>Q. later P Q \<Longrightarrow> ok snd P (f Q) (g Q)"
  shows "ok snd P (loop (memberStep f) (x, Q)) (loop (memberStep g) (x, Q))"
  unfolding memberStep_def by (intro parse_ok parse_later assms | assumption)+

lemmas class_defs = classField_def fieldStep_def classFields_def classMethod_def classMember_def parentStep_def
  classBody_def parseClassDecl_def

lemma parseClassDecl_ok [parse_ok]:
  "sub_ok R R' \<Longrightarrow> later P Q \<Longrightarrow> ok snd P (parseClassDecl C R Q) (parseClassDecl C R' Q)"
  unfolding class_defs Let_def by (intro parse_ok parse_later | assumption)+

lemmas generic_defs = genericField_def genericMember_def typeParam_def genericParams_def genericClass_def nameItem_def
  parseGenericDecl_def

lemma parseGenericDecl_ok [parse_ok]:
  "sub_ok R R' \<Longrightarrow> later P Q \<Longrightarrow> ok snd P (parseGenericDecl C R Q) (parseGenericDecl C R' Q)"
  unfolding generic_defs Let_def by (intro parse_ok parse_later | assumption)+

lemmas other_decl_defs = parseImportDecl_def enumStep_def parseEnumDecl_def macroParam_def macroParams_def
  macroBody_def parseMacroDecl_def globalStep_def globalDecls_def parseUsingDecl_def

lemma parseTopLevelDecls_ok [parse_ok]:
  "sub_ok R R' \<Longrightarrow> later P Q \<Longrightarrow> ok snd P (parseTopLevelDecls C R Q) (parseTopLevelDecls C R' Q)"
  unfolding parseTopLevelDecls_def other_decl_defs Let_def by (intro parse_ok parse_later | assumption)+

text \<open>Statements.\<close>

lemma later_jumps [parse_later]:
  assumes "later P Q"
  shows "later P (snd (parseBreakStmt U Q))" "later P (snd (parseContinueStmt U Q))"
  unfolding parseBreakStmt_def parseContinueStmt_def jumpStmt_def Let_def by (intro parse_later assms)+

lemma loopBody_ok [parse_ok]:
  assumes "sub_ok R R'" "later P Q"
  shows "ok snd P (loopBody R Q) (loopBody R' Q)"
proof -
  have "ok snd (enterLoop Q) (rStatement R (enterLoop Q)) (rStatement R' (enterLoop Q))"
    using assms(1) later_refl by (rule sub_ok_rules)
  then show ?thesis
    by (auto simp: ok_def loopBody_def split: bind_splits intro: later_trans [OF assms(2)] later_loop)
qed

lemma condition_ok [parse_ok]:
  "sub_ok R R' \<Longrightarrow> later P Q \<Longrightarrow> ok snd P (condition U R Q) (condition U R' Q)"
  unfolding condition_def by (intro parse_ok parse_later | assumption)+

lemma parseForStmt_ok [parse_ok]:
  "sub_ok R R' \<Longrightarrow> later P Q \<Longrightarrow> ok snd P (parseForStmt U R Q) (parseForStmt U R' Q)"
  unfolding parseForStmt_def forInit_def forDeclared_def forRest_def forInRest_def Let_def
  by (intro parse_ok parse_later | assumption)+

lemma caseLoop_ok:
  "sub_ok R R' \<Longrightarrow> later P Q \<Longrightarrow>
   ok snd P (loop (caseStep U R) (x, Q) \<bind> (\<lambda>(cs, Q). defaultCase U R cs Q))
            (loop (caseStep U R') (x, Q) \<bind> (\<lambda>(cs, Q). defaultCase U R' cs Q))"
  unfolding caseStep_def caseValue_def defaultCase_def by (intro parse_ok parse_later | assumption)+

lemma ok_leave:
  assumes "ok snd (enterLoop X) m n" "later P X"
  shows "ok snd P (m \<bind> (\<lambda>(c, T). Some (f c, expects U k (leaveLoop T))))
                  (n \<bind> (\<lambda>(c, T). Some (f c, expects U k (leaveLoop T))))"
proof (cases m)
  case (Some r)
  then have n: "n = Some r" and r: "later (enterLoop X) (snd r)" using assms(1) by (auto simp: ok_def)
  have "later P (expects U k (leaveLoop (snd r)))"
    using later_trans [OF assms(2) later_loop [OF r]] by (rule later_expects)
  with Some n show ?thesis by (cases r) (simp add: ok_def)
qed (simp add: ok_None)

lemma parseSwitchStmt_unfold:
  "parseSwitchStmt U R P = condition U R (consume U P) \<bind> (\<lambda>(cond, P1).
     (loop (caseStep U R) ([], enterLoop (expects U (Bracket LBrace) P1)) \<bind> (\<lambda>(cs, Q). defaultCase U R cs Q)) \<bind>
     (\<lambda>(cs, T). Some (SwitchStmt cond cs (location P), expects U (Bracket RBrace) (leaveLoop T))))"
  by (simp add: parseSwitchStmt_def case_prod_beta')

lemma parseSwitchStmt_ok [parse_ok]:
  "sub_ok R R' \<Longrightarrow> later P Q \<Longrightarrow> ok snd P (parseSwitchStmt U R Q) (parseSwitchStmt U R' Q)"
  unfolding parseSwitchStmt_unfold
  by (rule ok_bind, (intro condition_ok later_consume | assumption)+, rule ok_leave, rule caseLoop_ok, assumption,
      rule later_refl, rule later_expects, assumption)

lemmas statement_defs = parseIfStmt_def parseWhileStmt_def parseDoWhileStmt_def parseReturnStmt_def parseDeferStmt_def
  catchStep_def parseTryCatchStmt_def parseUnsafeBlock_def parseLockStmt_def parseThrowStmt_def topLevelStatement_def
  parseExpressionStmt_def

lemma parseStatement_ok [parse_ok]:
  "sub_ok R R' \<Longrightarrow> later P Q \<Longrightarrow> ok snd P (parseStatement C R Q) (parseStatement C R' Q)"
  unfolding parseStatement_def statement_defs Let_def by (intro parse_ok parse_later | assumption)+

subsection \<open>The recursion\<close>

lemma sub_ok_none: "sub_ok noParsers R"
  by (simp add: sub_ok_def noParsers_def ok_None)

lemma sub_ok_nest: "sub_ok R R' \<Longrightarrow> sub_ok (nest C R) (nest C R')"
  unfolding sub_ok_def [of "nest C R"] by (simp add: nest_def parse_ok parseType_ok)

lemma sub_ok_parsers: "n \<le> m \<Longrightarrow> sub_ok (parsers C n) (parsers C m)"
proof (induction n arbitrary: m)
  case (Suc n)
  then show ?case by (cases m) (auto intro: sub_ok_nest)
qed (simp add: sub_ok_none)

lemma module_ok:
  assumes "n \<le> m"
  shows "ok snd P (loop (moduleStep U (parsers C n)) (x, P)) (loop (moduleStep U (parsers C m)) (x, P))"
  unfolding moduleStep_def by (intro parse_ok parse_later sub_ok_parsers assms | assumption)+

lemma parseModule_more:
  assumes "parseModule C n k P = Some r" "n \<le> m"
  shows "parseModule C m k P = Some r"
  using assms module_ok [OF assms(2), of P "pl_utf8 C" C "([], [])"]
  by (auto simp: parseModule_def ok_def split: bind_splits)

lemma moduleStep_at_end: "moduleStep U R s = Some (Inr r) \<Longrightarrow> at (snd r) Eof"
  by (cases s) (auto simp: moduleStep_def bind_eq_Some_conv split: if_splits option.splits)

lemma parseModule_later:
  assumes "parseModule C n k P = Some (M, j, Q)"
  shows "later P Q \<and> at Q Eof"
proof -
  from assms obtain y where y: "loop (moduleStep (pl_utf8 C) (parsers C n)) (([], []), P) = Some y"
    by (auto simp: parseModule_def bind_eq_Some_conv)
  have "later P (snd y)" using module_ok [of n n P "pl_utf8 C" C "([], [])"] y by (simp add: ok_def)
  moreover have "at (snd y) Eof" 
    by (rule loop_rule [OF y, where I = "\<lambda>_. True"]) (simp_all add: moduleStep_at_end)
  moreover have "Q = snd y \<or> (\<exists>m. Q = parseError m (snd y))"
    using assms y by (cases y) (auto simp: parseModule_def split: if_splits)
  ultimately show ?thesis by (auto intro: later_parseError simp: at_def)
qed

subsection \<open>Properties of the recursion\<close>

text \<open>The library routines of a concrete run.\<close>

definition plainLib :: plib where
  "plainLib = \<lparr>pl_utf8 = asciiLib, pl_conv = (\<lambda>_. None), pl_stod = (\<lambda>_. None), pl_argsRightToLeft = True\<rparr>"

text \<open>
  What \<open>parseModule\<close> returns does not depend on the depth of recursion it is allowed: a result reached
  with one bound is the result with every larger one.
\<close>

theorem parse_result_unique:
  assumes "parseModule C n k P = Some r" "n \<le> m"
  shows "parseModule C m k P = Some r"
  by (rule parseModule_more [OF assms])

theorem parse_result_unique_witness:
  "\<exists>r. parseModule plainLib 9 0 (mkParser asciiLib (mkLexer ''x'' DiagnosticEngine)) = Some r"
proof -
  have "parseModule plainLib 2 0 (mkParser asciiLib (mkLexer ''x'' DiagnosticEngine)) \<noteq> None"
    by code_simp
  then obtain r where "parseModule plainLib 2 0 (mkParser asciiLib (mkLexer ''x'' DiagnosticEngine)) = Some r"
    by auto
  from parse_result_unique [OF this, of 9] show ?thesis by (intro exI) simp
qed



end
