(* ===== verification/ParserLoops.thy ===== *)
theory ParserLoops
  imports ParserFuel
begin

text \<open>
  Where the parser does not end, and where it reads something else than is written: the cases of an enum, the
  statements of a switch, products at the end of a line and integer literals.
\<close>

subsection \<open>Loops that do not end\<close>

text \<open>A token an enum cannot use is never consumed.\<close>

definition enumStuck :: "parser \<Rightarrow> bool" where
  "enumStuck P \<longleftrightarrow> tok_kind (curTok P) \<notin> {Bracket RBrace, Eof, Identifier, AssignOp Equal, SyntaxOp Comma}"

lemma enumStep_stuck:
  assumes "enumStuck P"
  shows "\<exists>c m. enumStep U R (acc, P) = Some (Inl (acc @ [c], parseError m P))"
  using assms
  by (auto simp: enumStuck_def enumStep_def isAny_def is_kind_def expects_def expect_def optionalInit_def consumeIf_def)

lemma enumStuck_parseError [simp]: "enumStuck (parseError m P) = enumStuck P"
  by (simp add: enumStuck_def)

lemma enumLoop_diverges: "enumStuck P \<Longrightarrow> loop (enumStep U R) (acc, P) = None"
proof (rule loop_diverges [where I = "\<lambda>s. enumStuck (snd s)"])
  fix s :: "(string \<times> expr option) list \<times> parser" and r
  assume "enumStuck (snd s)"
  then obtain c m where "enumStep U R s = Some (Inl (fst s @ [c], parseError m (snd s)))"
    using enumStep_stuck [of "snd s" U R "fst s"] by auto
  then show "enumStep U R s \<noteq> Some (Inr r)" "enumStep U R s = Some (Inl t) \<Longrightarrow> enumStuck (snd t)" for t
    using \<open>enumStuck (snd s)\<close> by auto
qed simp

lemma parseEnumDecl_diverges:
  "enumStuck (expects U (Bracket LBrace) (expects U Identifier (consume U P))) \<Longrightarrow> parseEnumDecl U R P = None"
  by (simp add: parseEnumDecl_def Let_def enumLoop_diverges)

text \<open>At the end of the file an expression is an error that consumes nothing, at any depth of recursion.\<close>

lemma eof_binds: "at P Eof \<Longrightarrow> k < 12 \<Longrightarrow> \<not> binds k P"
  unfolding less_12 by (auto simp: binds_def bind_defs at_def is_kind_def isAny_def)

lemma not_decl_at_eof: "at P Eof \<Longrightarrow> \<not> isStartOfDeclaration P"
  by (simp add: isStartOfDeclaration_def at_def is_kind_def isAny_def declKeywords_def primitiveKeywords_def Let_def)

lemma parsePrimary_at_eof: "at P Eof \<Longrightarrow> parsePrimary C R P = Some (None, parseError ''Expected expression'' P)"
  by (simp add: parsePrimary_def captureMode_def primarySwitch_def at_def is_kind_def Let_def nameKinds_def)

lemma parsePower_at_eof:
  assumes "at P Eof"
  shows "parsePower C R P = Some (None, parseError ''Expected expression'' P)"
proof -
  have "parsePostfix C R P = Some (None, parseError ''Expected expression'' P)"
    using assms by (simp add: parsePostfix_def parsePrimary_at_eof loop_done postfixStep_def)
  then show ?thesis
    using assms
    by (simp add: parsePower_def parsePrefix_def isClosureCapture_def prefixOps_def at_def is_kind_def isAny_def Let_def)
qed

lemma level_at_eof:
  assumes "at P Eof"
  shows "k \<le> 12 \<Longrightarrow> level C R k P = Some (None, parseError ''Expected expression'' P)"
proof (induction k rule: inc_induct)
  case base
  then show ?case using assms by (simp add: level_operand parsePower_at_eof)
next
  case (step k)
  have "\<not> binds k (parseError ''Expected expression'' P)"
    using eof_binds [of "parseError ''Expected expression'' P" k] assms step.hyps by (simp add: at_def)
  then have "levelStep C R k (None, parseError ''Expected expression'' P) = Some (Inr (None, parseError ''Expected expression'' P))"
    by (auto simp: levelStep_def pipeStep_def binaryStep_def)
  then show ?case using step by (simp add: level_unfold loop_done)
qed

lemma parseExpression_at_eof:
  assumes "at P Eof"
  shows "parseExpression C R P = Some (None, parseError ''Expected expression'' P)"
  using level_at_eof [OF assms, of 0 C R]
  by (simp add: parseExpression_def parseAssignment_def parseTernary_def level_def)

lemma parseStatement_at_eof:
  assumes "at P Eof"
  shows "parseStatement C (parsers C n) P =
     (case n of 0 \<Rightarrow> None | Suc _ \<Rightarrow> Some (None, parseError ''Expected expression'' P))"
  using assms not_decl_at_eof [OF assms] parseExpression_at_eof [OF assms]
  by (cases n) (simp_all add: parseStatement_def parseExpressionStmt_def at_def is_kind_def Let_def noParsers_def nest_def)

lemma statementsUntil_at_eof:
  assumes "at P Eof" "Eof \<notin> set ks"
  shows "statementsUntil U (parsers C n) ks P = None"
  unfolding statementsUntil_def
proof (rule loop_diverges [where I = "\<lambda>s. at (snd s) Eof"])
  fix s :: "stmt list \<times> parser" and r t
  assume e: "at (snd s) Eof"
  obtain acc Q where s: "s = (acc, Q)" by fastforce
  have k: "\<not> isAny (curTok Q) ks" using e assms(2) s by (auto simp: at_def is_kind_def isAny_def)
  have st: "rStatement (parsers C n) Q = None \<or>
      rStatement (parsers C n) Q = Some (None, parseError ''Expected expression'' Q)"
    using parseStatement_at_eof [of Q C "n - 1"] e s
    by (cases n) (auto simp: noParsers_def nest_def split: nat.splits)
  have sync: "synchronize U (parseError ''Expected expression'' Q) = Some (parseError ''Expected expression'' Q)"
    using e s by (simp add: synchronize_def at_def)
  show "stmtStep U (parsers C n) ks s \<noteq> Some (Inr r)" using s k st sync by (auto simp: stmtStep_def)
  show "at (snd t) Eof" if "stmtStep U (parsers C n) ks s = Some (Inl t)"
    using that e s k st sync by (auto simp: stmtStep_def at_def)
qed (use assms in simp)

lemma defaultCase_at_eof:
  assumes "at P (FlowKw KwDefault)" "at (expects U (SyntaxOp Colon) (advance U P)) Eof"
  shows "defaultCase U (parsers C n) cs P = None"
  using assms statementsUntil_at_eof [OF assms(2), of "[Bracket RBrace]"]
  by (simp add: defaultCase_def consumeIf_def at_def)

subsection \<open>Products at the end of a line\<close>

lemma wordChar_props: "wordChar c \<Longrightarrow> \<not> blank c \<and> c \<noteq> CHR ''*'' \<and> c \<noteq> CHR ''&''"
  by (auto simp: wordChar_def letter_def blank_def cctype)

lemma blank_props: "blank c \<Longrightarrow> \<not> wordChar c \<and> c \<noteq> CHR ''<''"
  by (auto simp: wordChar_def letter_def blank_def cctype)

lemma letter_wordChar: "letter c \<Longrightarrow> wordChar c"
  by (simp add: wordChar_def)

lemma prefixDecl_word:
  assumes b: "b = pre @ CHR ''*'' # ws @ w @ nl @ c # rest"
    and ws: "list_all blank ws" and w: "w \<noteq> []" "list_all wordChar w"
    and nl: "nl \<noteq> []" "list_all blank nl" and c: "letter c"
  shows "prefixDecl b (length pre)"
proof -
  let ?q = "length (pre @ CHR ''*'' # ws)"
  have q: "advance_while (\<lambda>c. c = CHR ''*'' \<or> c = CHR ''&'' \<or> blank c) b (length pre) = ?q"
    using b ws w wordChar_props [of "hd w"]
    by (subst advance_while_run [of b pre "CHR ''*'' # ws" "w @ nl @ c # rest"])
       (auto simp: list_all_iff hd_append)
  have r: "skipWord b ?q = ?q + length w"
    using b w nl blank_props [of "hd nl"] unfolding skipWord_def
    by (subst advance_while_run [of b "pre @ CHR ''*'' # ws" w "nl @ c # rest"]) (auto simp: list_all_iff hd_append)
  have "byteAt b (?q + length w) = hd nl"
    using b nl(1) by (cases nl) (auto simp: byteAt_def nth_append)
  then have lt: "byteAt b (?q + length w) \<noteq> CHR ''<''"
    using nl blank_props [of "hd nl"] by (simp add: list_all_iff)
  have s: "skipBlanks b (length (pre @ CHR ''*'' # ws @ w)) = length (pre @ CHR ''*'' # ws @ w) + length nl"
    using b nl c wordChar_props [OF letter_wordChar [OF c]] unfolding skipBlanks_def
    by (subst advance_while_run [of b "pre @ CHR ''*'' # ws @ w" nl "c # rest"]) (auto simp: list_all_iff)
  have "byteAt b (length (pre @ CHR ''*'' # ws @ w) + length nl) = c"
    using b by (simp add: byteAt_def nth_append)
  then show ?thesis using q r lt s c by (simp add: prefixDecl_def Let_def add.assoc)
qed

lemma product_not_bound:
  assumes "at P (MathOp Star)" "p_buffer P = pre @ CHR ''*'' # ws @ w @ nl @ c # rest" "location P = length pre"
    and "list_all blank ws" "w \<noteq> []" "list_all wordChar w" "nl \<noteq> []" "list_all blank nl" "letter c"
  shows "\<not> mulBinds P"
proof -
  have "isStartOfDeclaration P"
    using assms prefixDecl_word [OF assms(2,4-9)]
    by (simp add: isStartOfDeclaration_def Let_def at_def is_kind_def isAny_def declKeywords_def primitiveKeywords_def
        location_def)
  then show ?thesis using assms(1) by (simp add: mulBinds_def)
qed

lemma parseMultiplicative_stops:
  "parsePower C R P = Some (Some e, Q) \<Longrightarrow> \<not> mulBinds Q \<Longrightarrow> parseMultiplicative C R P = Some (Some e, Q)"
  by (simp add: parseMultiplicative_def binaryLevel_def binaryStep_def loop_done)

subsection \<open>Integer literals\<close>

definition digitsValue :: "nat \<Rightarrow> bytes \<Rightarrow> nat" where
  "digitsValue base ds = foldl (\<lambda>a c. a * base + digitVal c) 0 ds"

lemma digit_props:
  "isdigit c \<Longrightarrow> \<not> isspace c \<and> c \<noteq> CHR ''-'' \<and> c \<noteq> CHR ''+'' \<and> digitVal c < 10"
  by (auto simp: cctype digitVal_def)

lemma octal_props: "isOctDigit c \<Longrightarrow> isdigit c \<and> digitVal c < 8"
  by (auto simp: cctype digitVal_def isOctDigit_def)

lemma strtoNum_decimal:
  assumes "ds \<noteq> []" "list_all isdigit ds" "hd ds \<noteq> CHR ''0''"
  shows "strtoNum 0 ds = Some (False, digitsValue 10 ds)"
proof -
  have "dropWhile isspace ds = ds" using assms(1,2) digit_props by (cases ds) auto
  moreover have "takeWhile (\<lambda>c. digitVal c < 10) ds = ds"
    using assms(2) digit_props by (auto simp: list_all_iff takeWhile_eq_all_conv)
  moreover have "hd ds \<noteq> CHR ''-''" "hd ds \<noteq> CHR ''+''" using assms(1,2) digit_props by (cases ds; auto)+
  moreover have "ds ! 0 = hd ds" using assms(1) by (simp add: hd_conv_nth)
  ultimately show ?thesis using assms
    by (simp add: strtoNum_def Let_def digitsValue_def del: takeWhile_eq_all_conv)
qed

lemma strtoNum_octal:
  assumes "ds \<noteq> []" "list_all isOctDigit ds"
  shows "strtoNum 0 (CHR ''0'' # ds) = Some (False, digitsValue 8 ds)"
proof -
  have d: "isdigit (hd ds)" using assms octal_props by (cases ds) auto
  have "ds ! 0 \<noteq> CHR ''x''" "ds ! 0 \<noteq> CHR ''X''" using d assms(1) by (cases ds; auto simp: cctype)+
  moreover have "takeWhile (\<lambda>c. digitVal c < 8) ds = ds"
    using assms(2) octal_props by (auto simp: list_all_iff takeWhile_eq_all_conv)
  moreover have "digitVal CHR ''0'' = 0" by (simp add: digitVal_def cctype)
  ultimately show ?thesis
    by (simp add: strtoNum_def Let_def digitsValue_def cctype del: takeWhile_eq_all_conv)
qed

lemma integerValue_decimal:
  assumes "ds \<noteq> []" "list_all isdigit ds" "hd ds \<noteq> CHR ''0''"
  shows "integerValue ds = (if digitsValue 10 ds < 2 ^ 64 then Some (of_nat (digitsValue 10 ds)) else None)"
  using assms strtoNum_decimal [OF assms]
  by (simp add: integerValue_def radixPrefix_def stoull_def hd_conv_nth)

lemma integerValue_leading_zero:
  assumes "ds \<noteq> []" "list_all isOctDigit ds"
  shows "integerValue (CHR ''0'' # ds) =
     (if digitsValue 8 ds < 2 ^ 64 then Some (of_nat (digitsValue 8 ds)) else None)"
proof -
  have "\<not> radixPrefix (CHR ''0'' # ds) CHR ''b'' CHR ''B''" "\<not> radixPrefix (CHR ''0'' # ds) CHR ''o'' CHR ''O''"
    using assms by (cases ds; auto simp: radixPrefix_def isOctDigit_def cctype)+
  then show ?thesis using strtoNum_octal [OF assms] by (simp add: integerValue_def stoull_def)
qed

subsection \<open>Properties of the loops and literals\<close>

text \<open>
  C32: An enum whose next token is neither a name, \<open>=\<close>, a comma, \<open>}\<close> nor the end of the file is never
  finished: \<open>expect\<close> reports the token without consuming it, and the loop adds the same case forever.
\<close>

theorem enum_never_ends:
  assumes "tok_kind (curTok (expects U (Bracket LBrace) (expects U Identifier (consume U P)))) \<notin>
             {Bracket RBrace, Eof, Identifier, AssignOp Equal, SyntaxOp Comma}"
  shows "parseEnumDecl U R P = None"
  using assms by (intro parseEnumDecl_diverges) (simp add: enumStuck_def)

theorem enum_never_ends_witness:
  "parseEnumDecl asciiLib (parsers plainLib 3) (mkParser asciiLib (mkLexer ''enum E { 5 }'' DiagnosticEngine)) = None"
  by (rule enum_never_ends) code_simp

text \<open>
  A \<open>switch\<close> that the file ends in is never finished: the loop over the statements of \<open>default\<close> ends only
  at \<open>}\<close>, at the end of the file no statement consumes anything, and \<open>synchronize\<close> stays there.
\<close>

theorem unclosed_switch_never_ends:
  assumes "at P (FlowKw KwDefault)" "at (expects U (SyntaxOp Colon) (advance U P)) Eof"
  shows "defaultCase U (parsers C n) cases P = None"
  by (rule defaultCase_at_eof [OF assms])

theorem unclosed_switch_never_ends_witness:
  "defaultCase asciiLib (parsers plainLib 9) [] (mkParser asciiLib (mkLexer ''default:'' DiagnosticEngine)) = None"
  by (rule unclosed_switch_never_ends; code_simp)

text \<open>
  A product at the end of a line is cut in two when the next line starts with a letter: behind \<open>*\<close> the word
  and the word of the next line look like a declaration, so the multiplication ends in front of \<open>*\<close>.
\<close>

theorem line_end_product_cut:
  assumes "parsePower C R P = Some (Some e, Q)" "at Q (MathOp Star)" "location Q = length pre"
    and "p_buffer Q = pre @ CHR ''*'' # ws @ w @ nl @ c # rest"
    and "list_all blank ws" "w \<noteq> []" "list_all wordChar w" "nl \<noteq> []" "list_all blank nl" "letter c"
  shows "parseMultiplicative C R P = Some (Some e, Q)"
  using assms(1) product_not_bound [OF assms(2,4,3,5-10)] by (rule parseMultiplicative_stops)

theorem line_end_product_cut_witness:
  "parseMultiplicative plainLib noParsers (mkParser asciiLib (mkLexer ''a*b\<newline>c'' DiagnosticEngine)) =
     Some (Some (IdentifierExpr ''a'' 0),
           consume asciiLib (mkParser asciiLib (mkLexer ''a*b\<newline>c'' DiagnosticEngine)))"
  by (rule line_end_product_cut [where pre = "''a''" and ws = "[]" and w = "''b''" and nl = "[CHR 0x0A]" and
        c = "CHR ''c''" and rest = "[]"]; code_simp)

text \<open>
  An integer literal in decimal has its value in the unsigned 64 bits, and none if it does not fit.
\<close>

theorem decimal_literal_value:
  assumes "ds \<noteq> []" "list_all isdigit ds" "hd ds \<noteq> CHR ''0''"
  shows "integerValue ds = (if digitsValue 10 ds < 2 ^ 64 then Some (of_nat (digitsValue 10 ds)) else None)"
  by (rule integerValue_decimal [OF assms])

theorem decimal_literal_value_witness:
  "integerValue ''18446744073709551615'' = Some (- 1) \<and> integerValue ''18446744073709551616'' = None"
  by (simp add: decimal_literal_value digitsValue_def digitVal_def cctype)

text \<open>
  A literal with a leading zero is read in octal, although the comment at its place says that base 0 stands
  for hexadecimal and decimal: \<open>010\<close> is eight.
\<close>

theorem leading_zero_is_octal:
  assumes "ds \<noteq> []" "list_all isOctDigit ds"
  shows "integerValue (CHR ''0'' # ds) =
     (if digitsValue 8 ds < 2 ^ 64 then Some (of_nat (digitsValue 8 ds)) else None)"
  by (rule integerValue_leading_zero [OF assms])

theorem leading_zero_is_octal_witness: "integerValue ''010'' = Some 8"
  using leading_zero_is_octal [of "''10''"] by (simp add: digitsValue_def digitVal_def isOctDigit_def cctype)

end
