(* ===== verification/ASTType.thy ===== *)
theory ASTType
  imports AST
begin

text \<open>
  Equivalence and printing of source types (\<open>include/moksha/AST/Type.h\<close>, \<open>lib/frontend/ast/Type.cpp\<close>).
  \<open>None\<close> is a null child that is dereferenced.
\<close>

subsection \<open>Predicates\<close>

fun isInteger :: "ast_type \<Rightarrow> bool" where
  "isInteger (PrimitiveTy s l) = (s \<in> {S_I8, S_I16, S_I32, S_I64, S_ISize, S_U8, S_U16, S_U32, S_U64, S_USize, S_Int})"
| "isInteger _ = False"

fun isFloat :: "ast_type \<Rightarrow> bool" where
  "isFloat (PrimitiveTy s l) = (s \<in> {S_F8, S_F16, S_F32, S_F64})"
| "isFloat _ = False"

fun isNumeric :: "ast_type \<Rightarrow> bool" where
  "isNumeric (DecimalTy p s l) = True"
| "isNumeric t = (isInteger t \<or> isFloat t)"

fun stripModifiers :: "ast_type \<Rightarrow> ast_type option" where
  "stripModifiers (ViewTy t l) = stripModifiers t"
| "stripModifiers (ConstTy t l) = (case t of None \<Rightarrow> None | Some u \<Rightarrow> stripModifiers u)"
| "stripModifiers (MutTy t l) = stripModifiers t"
| "stripModifiers (LockTy t l) = stripModifiers t"
| "stripModifiers (VolatileTy t l) = (case t of None \<Rightarrow> None | Some u \<Rightarrow> stripModifiers u)"
| "stripModifiers t = Some t"

subsection \<open>Equivalence\<close>

text \<open>\<open>a && b\<close> over a list, left to right.\<close>

fun allTrue :: "bool option list \<Rightarrow> bool option" where
  "allTrue [] = Some True"
| "allTrue (x # xs) = (if x = Some True then allTrue xs else x)"

text \<open>\<open>inner->isEquivalent(*other.inner)\<close>\<close>

definition inner :: "(ast_type \<Rightarrow> ast_type \<Rightarrow> bool option) \<Rightarrow> ast_type option \<Rightarrow> ast_type option \<Rightarrow> bool option" where
  "inner f t u = (case t of None \<Rightarrow> None | Some a \<Rightarrow> (case u of None \<Rightarrow> None | Some b \<Rightarrow> f a b))"

lemma inner_cong [fundef_cong]: "t = t' \<Longrightarrow> u = u' \<Longrightarrow> (\<And>a. t' = Some a \<Longrightarrow> f a = g a) \<Longrightarrow> inner f t u = inner g t' u'"
  by (cases t'; cases u') (simp_all add: inner_def)

text \<open>\<open>for (i ...) if (!ps[i]->isEquivalent(*qs[i])) return false;\<close> on vectors of one size.\<close>

definition pairwise :: "(ast_type \<Rightarrow> bool option) list \<Rightarrow> ast_type list \<Rightarrow> bool option" where
  "pairwise fs qs = (if length fs \<noteq> length qs then Some False else allTrue (map2 (\<lambda>f q. f q) fs qs))"

fun literalSize :: "expr \<Rightarrow> 64 word option" where
  "literalSize (IntegerLit v s l) = Some v"
| "literalSize _ = None"

definition sameSize :: "expr \<Rightarrow> expr \<Rightarrow> bool" where
  "sameSize e f = (literalSize e \<noteq> None \<and> literalSize e = literalSize f)"

fun isEquivalent :: "ast_type \<Rightarrow> ast_type \<Rightarrow> bool option" where
  "isEquivalent (NullTy l) = (\<lambda>u. case u of NullTy k \<Rightarrow> Some True | _ \<Rightarrow> Some False)"
| "isEquivalent (PrimitiveTy s l) = (\<lambda>u. case u of PrimitiveTy s' k \<Rightarrow> Some (s' = s) | _ \<Rightarrow> Some False)"
| "isEquivalent (AnyTy l) = (\<lambda>u. case u of AnyTy k \<Rightarrow> Some True | _ \<Rightarrow> Some False)"
| "isEquivalent (PointerTy t l) = (\<lambda>u. case u of PointerTy t' k \<Rightarrow> inner isEquivalent t t' | _ \<Rightarrow> Some False)"
| "isEquivalent (ReferenceTy t l) = (\<lambda>u. case u of ReferenceTy t' k \<Rightarrow> inner isEquivalent t t' | _ \<Rightarrow> Some False)"
| "isEquivalent (ArrayTy t e l) = (\<lambda>u. case u of
     ArrayTy t' e' k \<Rightarrow> allTrue [inner isEquivalent t t', Some (sameSize e e')] | _ \<Rightarrow> Some False)"
| "isEquivalent (SliceTy t l) = (\<lambda>u. case u of SliceTy t' k \<Rightarrow> inner isEquivalent t t' | _ \<Rightarrow> Some False)"
| "isEquivalent (MapTy k v l) = (\<lambda>u. case u of
     MapTy k' v' j \<Rightarrow> allTrue [inner isEquivalent k k', inner isEquivalent v v'] | _ \<Rightarrow> Some False)"
| "isEquivalent (ClosureTy r ps l) = (\<lambda>u. case u of
     ClosureTy r' qs k \<Rightarrow> allTrue [inner isEquivalent r r', pairwise (map isEquivalent ps) qs] | _ \<Rightarrow> Some False)"
| "isEquivalent (FunctionTy r ps v i l) = (\<lambda>u. case u of
     FunctionTy r' qs v' i' k \<Rightarrow>
       allTrue [Some (v = v' \<and> i = i'), inner isEquivalent r r', pairwise (map isEquivalent ps) qs] | _ \<Rightarrow> Some False)"
| "isEquivalent (NamedTy n as l) = (\<lambda>u. case u of
     NamedTy n' bs k \<Rightarrow>
       (if n \<noteq> n' \<or> length as \<noteq> length bs then Some False
        else allTrue (map2 (\<lambda>(f, v) (t, w). if v \<noteq> w then Some False else f t)
               (map (\<lambda>(t, v). (isEquivalent t, v)) as) bs))
   | _ \<Rightarrow> Some False)"
| "isEquivalent (NullableTy t l) = (\<lambda>u. case u of NullableTy t' k \<Rightarrow> inner isEquivalent t t' | _ \<Rightarrow> Some False)"
| "isEquivalent (LockTy t l) = (\<lambda>u. case u of LockTy t' k \<Rightarrow> isEquivalent t t' | _ \<Rightarrow> Some False)"
| "isEquivalent (ViewTy t l) = (\<lambda>u. case u of ViewTy t' k \<Rightarrow> isEquivalent t t' | _ \<Rightarrow> Some False)"
| "isEquivalent (MutTy t l) = (\<lambda>u. case u of MutTy t' k \<Rightarrow> isEquivalent t t' | _ \<Rightarrow> Some False)"
| "isEquivalent (VolatileTy t l) = (\<lambda>u. case u of VolatileTy t' k \<Rightarrow> inner isEquivalent t t' | _ \<Rightarrow> Some False)"
| "isEquivalent (ConstTy t l) = (\<lambda>u. case u of ConstTy t' k \<Rightarrow> inner isEquivalent t t' | _ \<Rightarrow> Some False)"
| "isEquivalent (WeakTy t l) = (\<lambda>u. case u of WeakTy t' k \<Rightarrow> isEquivalent t t' | _ \<Rightarrow> Some False)"
| "isEquivalent (DecimalTy p s l) = (\<lambda>u. case u of DecimalTy p' s' k \<Rightarrow> Some (p = p' \<and> s = s') | _ \<Rightarrow> Some False)"
| "isEquivalent (PromiseTy t l) = (\<lambda>u. case u of PromiseTy t' k \<Rightarrow> isEquivalent t t' | _ \<Rightarrow> Some False)"
| "isEquivalent (EnumTy n ms l) = (\<lambda>u. case u of EnumTy n' ms' k \<Rightarrow> Some (n = n') | _ \<Rightarrow> Some False)"

subsection \<open>Printing\<close>

fun scalarName :: "Scalar \<Rightarrow> string" where
  "scalarName S_I8 = ''char''"
| "scalarName S_I16 = ''short''"
| "scalarName S_I32 = ''int''"
| "scalarName S_I64 = ''long''"
| "scalarName S_U8 = ''unsigned char''"
| "scalarName S_U16 = ''unsigned short''"
| "scalarName S_U32 = ''unsigned int''"
| "scalarName S_U64 = ''unsigned long''"
| "scalarName S_F8 = ''quarter''"
| "scalarName S_F16 = ''half''"
| "scalarName S_F32 = ''float''"
| "scalarName S_F64 = ''double''"
| "scalarName S_ISize = ''isize''"
| "scalarName S_USize = ''usize''"
| "scalarName S_Bool = ''bool''"
| "scalarName S_Char = ''char''"
| "scalarName S_String = ''string''"
| "scalarName S_Void = ''void''"
| "scalarName S_Int = ''unknown_primitive''"

fun isWeakTy :: "ast_type \<Rightarrow> bool" where
  "isWeakTy (WeakTy t l) = True"
| "isWeakTy _ = False"

fun commaSep :: "string list \<Rightarrow> string" where
  "commaSep [] = []"
| "commaSep [x] = x"
| "commaSep (x # y # xs) = x @ '', '' @ commaSep (y # xs)"

definition sizeText :: "expr \<Rightarrow> string" where
  "sizeText e = (case literalSize e of Some v \<Rightarrow> to_string (unat v) | None \<Rightarrow> ''...'')"

fun type_toString :: "ast_type \<Rightarrow> string option" where
  "type_toString (NullTy l) = Some ''null''"
| "type_toString (PrimitiveTy s l) = Some (scalarName s)"
| "type_toString (AnyTy l) = Some ''any''"
| "type_toString (PointerTy t l) = do { u \<leftarrow> t; s \<leftarrow> type_toString u; Some (''*'' @ s) }"
| "type_toString (ReferenceTy t l) = do { u \<leftarrow> t; s \<leftarrow> type_toString u; Some (''&'' @ s) }"
| "type_toString (ArrayTy t e l) = do { u \<leftarrow> t; s \<leftarrow> type_toString u; Some (s @ ''['' @ sizeText e @ '']'') }"
| "type_toString (SliceTy t l) = do { u \<leftarrow> t; s \<leftarrow> type_toString u; Some (s @ ''[]'') }"
| "type_toString (MapTy k v l) =
     do { a \<leftarrow> k; s \<leftarrow> type_toString a; b \<leftarrow> v; r \<leftarrow> type_toString b; Some (''table<'' @ s @ '', '' @ r @ ''>'') }"
| "type_toString (ClosureTy r ps l) = Some ''closure''"
| "type_toString (FunctionTy r ps v i l) = Some ''func''"
| "type_toString (NamedTy n as l) =
     do { ss \<leftarrow> each (\<lambda>(t, v). type_toString t) as;
          Some (if as = [] then n else n @ ''<'' @ commaSep ss @ ''>'') }"
| "type_toString (NullableTy t l) =
     do { u \<leftarrow> t; s \<leftarrow> type_toString u; Some (if isWeakTy u then s else s @ ''?'') }"
| "type_toString (LockTy t l) = do { s \<leftarrow> type_toString t; Some (''lock '' @ s) }"
| "type_toString (ViewTy t l) = do { s \<leftarrow> type_toString t; Some (''view '' @ s) }"
| "type_toString (MutTy t l) = do { s \<leftarrow> type_toString t; Some (''mut '' @ s) }"
| "type_toString (VolatileTy t l) = do { u \<leftarrow> t; s \<leftarrow> type_toString u; Some (''volatile '' @ s) }"
| "type_toString (ConstTy t l) = do { u \<leftarrow> t; s \<leftarrow> type_toString u; Some (''const '' @ s) }"
| "type_toString (WeakTy t l) = do { s \<leftarrow> type_toString t; Some (''weak '' @ s) }"
| "type_toString (DecimalTy p s l) = Some (''decimal<'' @ to_string (unat p) @ '', '' @ to_string (unat s) @ ''>'')"
| "type_toString (PromiseTy t l) = do { s \<leftarrow> type_toString t; Some (''promise<'' @ s @ ''>'') }"
| "type_toString (EnumTy n ms l) = Some (''enum '' @ n)"

subsection \<open>The contract of equivalence\<close>

text \<open>No null child.\<close>

fun intact :: "ast_type \<Rightarrow> bool" where
  "intact (PointerTy t l) = (case t of None \<Rightarrow> False | Some u \<Rightarrow> intact u)"
| "intact (ReferenceTy t l) = (case t of None \<Rightarrow> False | Some u \<Rightarrow> intact u)"
| "intact (ArrayTy t e l) = (case t of None \<Rightarrow> False | Some u \<Rightarrow> intact u)"
| "intact (SliceTy t l) = (case t of None \<Rightarrow> False | Some u \<Rightarrow> intact u)"
| "intact (MapTy k v l) = ((case k of None \<Rightarrow> False | Some u \<Rightarrow> intact u) \<and> (case v of None \<Rightarrow> False | Some u \<Rightarrow> intact u))"
| "intact (ClosureTy r ps l) = ((case r of None \<Rightarrow> False | Some u \<Rightarrow> intact u) \<and> list_all intact ps)"
| "intact (FunctionTy r ps v i l) = ((case r of None \<Rightarrow> False | Some u \<Rightarrow> intact u) \<and> list_all intact ps)"
| "intact (NamedTy n as l) = list_all (\<lambda>(t, v). intact t) as"
| "intact (NullableTy t l) = (case t of None \<Rightarrow> False | Some u \<Rightarrow> intact u)"
| "intact (LockTy t l) = intact t"
| "intact (ViewTy t l) = intact t"
| "intact (MutTy t l) = intact t"
| "intact (VolatileTy t l) = (case t of None \<Rightarrow> False | Some u \<Rightarrow> intact u)"
| "intact (ConstTy t l) = (case t of None \<Rightarrow> False | Some u \<Rightarrow> intact u)"
| "intact (WeakTy t l) = intact t"
| "intact (PromiseTy t l) = intact t"
| "intact t = True"

text \<open>A type without its locations; an array keeps its size if that is a literal.\<close>

fun key :: "ast_type \<Rightarrow> ast_type" where
  "key (NullTy l) = NullTy 0"
| "key (PrimitiveTy s l) = PrimitiveTy s 0"
| "key (AnyTy l) = AnyTy 0"
| "key (PointerTy t l) = PointerTy (map_option key t) 0"
| "key (ReferenceTy t l) = ReferenceTy (map_option key t) 0"
| "key (ArrayTy t e l) =
     ArrayTy (map_option key t) (case literalSize e of None \<Rightarrow> NullLit 0 | Some v \<Rightarrow> IntegerLit v NS_None 0) 0"
| "key (SliceTy t l) = SliceTy (map_option key t) 0"
| "key (MapTy k v l) = MapTy (map_option key k) (map_option key v) 0"
| "key (ClosureTy r ps l) = ClosureTy (map_option key r) (map key ps) 0"
| "key (FunctionTy r ps v i l) = FunctionTy (map_option key r) (map key ps) v i 0"
| "key (NamedTy n as l) = NamedTy n (map (\<lambda>(t, v). (key t, v)) as) 0"
| "key (NullableTy t l) = NullableTy (map_option key t) 0"
| "key (LockTy t l) = LockTy (key t) 0"
| "key (ViewTy t l) = ViewTy (key t) 0"
| "key (MutTy t l) = MutTy (key t) 0"
| "key (VolatileTy t l) = VolatileTy (map_option key t) 0"
| "key (ConstTy t l) = ConstTy (map_option key t) 0"
| "key (WeakTy t l) = WeakTy (key t) 0"
| "key (DecimalTy p s l) = DecimalTy p s 0"
| "key (PromiseTy t l) = PromiseTy (key t) 0"
| "key (EnumTy n ms l) = EnumTy n [] 0"

text \<open>Every array size is a literal.\<close>

fun sized :: "ast_type \<Rightarrow> bool" where
  "sized (PointerTy t l) = (case t of None \<Rightarrow> True | Some u \<Rightarrow> sized u)"
| "sized (ReferenceTy t l) = (case t of None \<Rightarrow> True | Some u \<Rightarrow> sized u)"
| "sized (ArrayTy t e l) = (literalSize e \<noteq> None \<and> (case t of None \<Rightarrow> True | Some u \<Rightarrow> sized u))"
| "sized (SliceTy t l) = (case t of None \<Rightarrow> True | Some u \<Rightarrow> sized u)"
| "sized (MapTy k v l) = ((case k of None \<Rightarrow> True | Some u \<Rightarrow> sized u) \<and> (case v of None \<Rightarrow> True | Some u \<Rightarrow> sized u))"
| "sized (ClosureTy r ps l) = ((case r of None \<Rightarrow> True | Some u \<Rightarrow> sized u) \<and> list_all sized ps)"
| "sized (FunctionTy r ps v i l) = ((case r of None \<Rightarrow> True | Some u \<Rightarrow> sized u) \<and> list_all sized ps)"
| "sized (NamedTy n as l) = list_all (\<lambda>(t, v). sized t) as"
| "sized (NullableTy t l) = (case t of None \<Rightarrow> True | Some u \<Rightarrow> sized u)"
| "sized (LockTy t l) = sized t"
| "sized (ViewTy t l) = sized t"
| "sized (MutTy t l) = sized t"
| "sized (VolatileTy t l) = (case t of None \<Rightarrow> True | Some u \<Rightarrow> sized u)"
| "sized (ConstTy t l) = (case t of None \<Rightarrow> True | Some u \<Rightarrow> sized u)"
| "sized (WeakTy t l) = sized t"
| "sized (PromiseTy t l) = sized t"
| "sized t = True"

lemma allTrue_Some [simp]: "allTrue (map Some bs) = Some (list_all id bs)"
  by (induction bs) auto

lemma allTrue_two [simp]: "allTrue [Some a, Some b] = Some (a \<and> b)"
  by simp

lemma allTrue_three [simp]: "allTrue [Some a, Some b, Some c] = Some (a \<and> b \<and> c)"
  by simp

lemma pairwise_exact:
  assumes "\<And>p u. p \<in> set ps \<Longrightarrow> intact u \<Longrightarrow> isEquivalent p u = Some (key p = key u \<and> sized p)" "list_all intact qs"
  shows "pairwise (map isEquivalent ps) qs = Some (map key ps = map key qs \<and> list_all sized ps)"
proof (cases "length ps = length qs")
  case True
  then show ?thesis using assms
    by (induction ps qs rule: list_induct2) (auto simp: pairwise_def split: if_splits)
next
  case False
  then show ?thesis by (auto simp: pairwise_def dest: arg_cong [where f = length])
qed

lemma named_exact:
  assumes "\<And>p v u. (p, v) \<in> set as \<Longrightarrow> intact u \<Longrightarrow> isEquivalent p u = Some (key p = key u \<and> sized p)"
    and "list_all (\<lambda>(t, v). intact t) bs" "length as = length bs"
  shows "allTrue (map2 (\<lambda>(f, v) (t, w). if v \<noteq> w then Some False else f t) (map (\<lambda>(t, v). (isEquivalent t, v)) as) bs) =
    Some (map (\<lambda>(t, v). (key t, v)) as = map (\<lambda>(t, v). (key t, v)) bs \<and> list_all (\<lambda>(t, v). sized t) as)"
  using assms(3,1,2)
proof (induction as bs rule: list_induct2)
  case (Cons x xs y ys)
  obtain a v b w where xy: "x = (a, v)" "y = (b, w)" by (cases x; cases y) auto
  have "isEquivalent a b = Some (key a = key b \<and> sized a)" using Cons.prems xy by auto
  moreover have "allTrue (map2 (\<lambda>(f, v) (t, w). if v \<noteq> w then Some False else f t) (map (\<lambda>(t, v). (isEquivalent t, v)) xs) ys) =
    Some (map (\<lambda>(t, v). (key t, v)) xs = map (\<lambda>(t, v). (key t, v)) ys \<and> list_all (\<lambda>(t, v). sized t) xs)"
    using Cons.prems by (intro Cons.IH) auto
  ultimately show ?case using xy by auto
qed simp

lemma isEquivalent_intact:
  "intact t \<Longrightarrow> intact u \<Longrightarrow> isEquivalent t u = Some (key t = key u \<and> sized t)"
proof (induction t arbitrary: u rule: isEquivalent.induct)
  case (9 r ps l)
  then show ?case
  proof (cases u)
    case (ClosureTy r' qs k)
    then have "pairwise (map isEquivalent ps) qs = Some (map key ps = map key qs \<and> list_all sized ps)"
      using 9 by (intro pairwise_exact) (auto simp: list_all_iff)
    then show ?thesis using 9 ClosureTy by (auto simp: inner_def split: option.splits)
  qed auto
next
  case (10 r ps v i l)
  then show ?case
  proof (cases u)
    case (FunctionTy r' qs v' i' k)
    then have "pairwise (map isEquivalent ps) qs = Some (map key ps = map key qs \<and> list_all sized ps)"
      using 10 by (intro pairwise_exact) (auto simp: list_all_iff)
    then show ?thesis using 10 FunctionTy by (auto simp: inner_def split: option.splits)
  qed auto
next
  case (11 n as l)
  then show ?case
  proof (cases u)
    case (NamedTy n' bs k)
    show ?thesis
    proof (cases "n = n' \<and> length as = length bs")
      case True
      have "isEquivalent p w = Some (key p = key w \<and> sized p)" if "(p, v) \<in> set as" "intact w" for p v w
        using 11 that True by (auto simp: list_all_iff)
      from named_exact [of as bs, OF this] show ?thesis using 11 True NamedTy by simp
    next
      case False
      then show ?thesis using NamedTy by (auto dest: arg_cong [where f = length])
    qed
  qed auto
qed (case_tac u; auto simp: inner_def sameSize_def split: option.splits)+

lemma weak_key [simp]: "isWeakTy (key t) = isWeakTy t"
  by (cases t) auto

lemma literal_key [simp]: "literalSize (case literalSize e of None \<Rightarrow> NullLit 0 | Some v \<Rightarrow> IntegerLit v NS_None 0) = literalSize e"
  by (cases "literalSize e") auto

lemma sizeText_key [simp]: "sizeText (case literalSize e of None \<Rightarrow> NullLit 0 | Some v \<Rightarrow> IntegerLit v NS_None 0) = sizeText e"
  by (simp add: sizeText_def)

lemma each_map: "each f (map g xs) = each (\<lambda>x. f (g x)) xs"
  by (simp add: each_def comp_def)

lemma toString_key: "type_toString (key t) = type_toString t"
proof (induction t rule: type_toString.induct)
  case (11 n as l)
  have "each (\<lambda>x. type_toString (fst (case x of (t, v) \<Rightarrow> (key t, v)))) as = each (\<lambda>x. type_toString (fst x)) as"
    using 11 by (intro each_cong) auto
  then show ?case by (simp add: each_map case_prod_unfold)
qed (auto simp: bind_map_option split: bind_splits)

subsection \<open>Properties\<close>



text \<open>Equivalent types are printed alike.\<close>

theorem equivalent_types_print_alike:
  assumes "intact t" "intact u" "isEquivalent t u = Some True"
  shows "type_toString t = type_toString u"
  using assms isEquivalent_intact [OF assms(1,2)] toString_key [of t] toString_key [of u] by simp

theorem equivalent_types_print_alike_witness:
  "type_toString (PointerTy (Some (PrimitiveTy S_I8 3)) 1) = type_toString (PointerTy (Some (PrimitiveTy S_I8 7)) 5)"
  by (rule equivalent_types_print_alike) (simp_all add: inner_def)

end
