(* ===== verification/GenericResolver.thy ===== *)
theory GenericResolver
  imports ASTType
begin

text \<open>
  Generic instantiation (\<open>include/moksha/Sema/GenericResolver.h\<close>,
  \<open>lib/frontend/sema/GenericResolver.cpp\<close>).  A \<open>StringMap\<close> is a map; an instantiated declaration is the
  tree the resolver registers in the AST context.  \<open>None\<close> is a null pointer that is dereferenced.
\<close>

datatype GenericError = ArityMismatch | AnyConstraintViolation | SharedConstraintViolation

type_synonym generic_param = "string \<times> bool \<times> ptr"

subsection \<open>Validation\<close>

text \<open>The two loops that unwrap an argument; a null pointer ends them.\<close>

fun hidesAny :: "ast_type \<Rightarrow> bool" where
  "hidesAny (AnyTy l) = True"
| "hidesAny (PointerTy t l) = (case t of None \<Rightarrow> False | Some u \<Rightarrow> hidesAny u)"
| "hidesAny (ReferenceTy t l) = (case t of None \<Rightarrow> False | Some u \<Rightarrow> hidesAny u)"
| "hidesAny (ViewTy t l) = hidesAny t"
| "hidesAny (MutTy t l) = hidesAny t"
| "hidesAny (LockTy t l) = hidesAny t"
| "hidesAny (PromiseTy t l) = hidesAny t"
| "hidesAny _ = False"

fun hasBorrow :: "ast_type \<Rightarrow> bool" where
  "hasBorrow (ViewTy t l) = True"
| "hasBorrow (MutTy t l) = True"
| "hasBorrow (PointerTy t l) = (case t of None \<Rightarrow> False | Some u \<Rightarrow> hasBorrow u)"
| "hasBorrow (ReferenceTy t l) = (case t of None \<Rightarrow> False | Some u \<Rightarrow> hasBorrow u)"
| "hasBorrow (PromiseTy t l) = hasBorrow t"
| "hasBorrow _ = False"

fun validateArgs :: "generic_param list \<Rightarrow> (ast_type \<times> Variance) list \<Rightarrow> GenericError option" where
  "validateArgs ((n, isShared, l) # ps) ((t, v) # as) =
     (if hidesAny t then Some AnyConstraintViolation
      else if isShared \<and> hasBorrow t then Some AnyConstraintViolation
      else validateArgs ps as)"
| "validateArgs _ _ = None"

definition validateGenericArgs :: "generic_param list \<Rightarrow> (ast_type \<times> Variance) list \<Rightarrow> GenericError option" where
  "validateGenericArgs ps as = (if length ps \<noteq> length as then Some ArityMismatch else validateArgs ps as)"

subsection \<open>Substitution\<close>

type_synonym substitution = "string \<rightharpoonup> ast_type"

text \<open>A null child stays null.\<close>

fun substituteType :: "substitution \<Rightarrow> ast_type \<Rightarrow> ast_type option" where
  "substituteType S (NamedTy n as l) =
     (if S n \<noteq> None \<and> as = [] then type_clone (the (S n))
      else if as \<noteq> [] then
        do { bs \<leftarrow> each (\<lambda>(t, v). do { u \<leftarrow> substituteType S t; Some (u, v) }) as; Some (NamedTy n bs l) }
      else type_clone (NamedTy n as l))"
| "substituteType S (ArrayTy t e l) =
     do { u \<leftarrow> ifset (substituteType S) t; f \<leftarrow> expr_clone e; Some (ArrayTy u f l) }"
| "substituteType S (SliceTy t l) = do { u \<leftarrow> ifset (substituteType S) t; Some (SliceTy u l) }"
| "substituteType S (PointerTy t l) = do { u \<leftarrow> ifset (substituteType S) t; Some (PointerTy u l) }"
| "substituteType S (ReferenceTy t l) = do { u \<leftarrow> ifset (substituteType S) t; Some (ReferenceTy u l) }"
| "substituteType S (MapTy k v l) =
     do { k' \<leftarrow> ifset (substituteType S) k; v' \<leftarrow> ifset (substituteType S) v; Some (MapTy k' v' l) }"
| "substituteType S (FunctionTy r ps v i l) =
     do { qs \<leftarrow> each (substituteType S) ps; r' \<leftarrow> ifset (substituteType S) r; Some (FunctionTy r' qs v i l) }"
| "substituteType S (ClosureTy r ps l) =
     do { qs \<leftarrow> each (substituteType S) ps; r' \<leftarrow> ifset (substituteType S) r; Some (ClosureTy r' qs l) }"
| "substituteType S (NullableTy t l) = do { u \<leftarrow> ifset (substituteType S) t; Some (NullableTy u l) }"
| "substituteType S (MutTy t l) = do { u \<leftarrow> substituteType S t; Some (MutTy u l) }"
| "substituteType S (ViewTy t l) = do { u \<leftarrow> substituteType S t; Some (ViewTy u l) }"
| "substituteType S (LockTy t l) = do { u \<leftarrow> substituteType S t; Some (LockTy u l) }"
| "substituteType S (ConstTy t l) = do { u \<leftarrow> ifset (substituteType S) t; Some (ConstTy u l) }"
| "substituteType S (VolatileTy t l) = do { u \<leftarrow> ifset (substituteType S) t; Some (VolatileTy u l) }"
| "substituteType S (WeakTy t l) = do { u \<leftarrow> substituteType S t; Some (WeakTy u l) }"
| "substituteType S (PromiseTy t l) = do { u \<leftarrow> substituteType S t; Some (PromiseTy u l) }"
| "substituteType S t = type_clone t"

subsection \<open>Signatures\<close>

fun isPromise :: "ast_type \<Rightarrow> bool" where
  "isPromise (PromiseTy t l) = True"
| "isPromise _ = False"

definition resolveReturn :: "substitution \<Rightarrow> fun_attrs \<Rightarrow> ptr \<Rightarrow> ast_type \<Rightarrow> ast_type option" where
  "resolveReturn S a loc r =
     do { t \<leftarrow> substituteType S r; Some (if fa_async a \<and> \<not> isPromise t then PromiseTy t loc else t) }"

definition resolveFunctionSignature ::
    "substitution \<Rightarrow> (string \<times> ast_type option \<times> ptr \<times> expr option) list \<Rightarrow> ast_type \<Rightarrow> fun_attrs \<Rightarrow> ptr \<Rightarrow>
     (ast_type \<times> ast_type option list) option" where
  "resolveFunctionSignature S ps r a loc =
     do { t \<leftarrow> resolveReturn S a loc r;
          us \<leftarrow> each (\<lambda>(n, t, k, d). ifset (substituteType S) t) ps;
          Some (t, us) }"

subsection \<open>Mangled names\<close>

definition mangledChar :: "char \<Rightarrow> char" where
  "mangledChar c = (if c \<in> set ''<>, *&[]'' then CHR ''_'' else c)"

text \<open>\<open>std::unique\<close> on underscores, and the underscore at the end.\<close>

fun collapse :: "string \<Rightarrow> string" where
  "collapse (a # b # s) = (if a = CHR ''_'' \<and> b = CHR ''_'' then collapse (a # s) else a # collapse (b # s))"
| "collapse s = s"

definition popUnderscore :: "string \<Rightarrow> string" where
  "popUnderscore s = (if s \<noteq> [] \<and> last s = CHR ''_'' then butlast s else s)"

definition mangledArg :: "ast_type \<Rightarrow> string option" where
  "mangledArg t = do { s \<leftarrow> type_toString t; Some (popUnderscore (collapse (map mangledChar s))) }"

definition getMangledName :: "string \<Rightarrow> ast_type list \<Rightarrow> string option" where
  "getMangledName base args = do { ss \<leftarrow> each mangledArg args; Some (base @ concat (map (\<lambda>s. ''_'' @ s) ss)) }"

subsection \<open>Instantiation\<close>

record resolver =
  instantiatedClasses :: "string \<rightharpoonup> decl"
  instantiatedFunctions :: "string \<rightharpoonup> decl"
  registeredClasses :: "decl list"
  registeredFunctions :: "decl list"

definition mkResolver :: resolver where
  "mkResolver = \<lparr>instantiatedClasses = Map.empty, instantiatedFunctions = Map.empty, registeredClasses = [],
     registeredFunctions = []\<rparr>"

definition substitutionOf :: "generic_param list \<Rightarrow> ast_type list \<Rightarrow> substitution" where
  "substitutionOf ps args = map_of (rev (zip (map fst ps) args))"

definition substituteParams :: "substitution \<Rightarrow> (string \<times> ast_type option \<times> ptr \<times> expr option) list \<Rightarrow>
    (string \<times> ast_type option \<times> ptr \<times> expr option) list option" where
  "substituteParams S = each (\<lambda>(n, t, k, d). do { u \<leftarrow> ifset (substituteType S) t; Some (n, u, k, d) })"

text \<open>Only the signatures of the members are substituted, not their initializers and bodies.\<close>

definition substituteMember :: "substitution \<Rightarrow> decl option \<Rightarrow> decl option option" where
  "substituteMember S m =
     (case m of
        Some (VariableDecl t n e a l) \<Rightarrow>
          do { u \<leftarrow> ifset (substituteType S) t; Some (Some (VariableDecl u n e a l)) }
      | Some (FunctionDecl n ps r b a l) \<Rightarrow>
          do { r' \<leftarrow> substituteType S r; qs \<leftarrow> substituteParams S ps; Some (Some (FunctionDecl n qs r' b a l)) }
      | _ \<Rightarrow> Some m)"

text \<open>The result is null if the template is not a class.\<close>

definition instantiateClass :: "decl \<Rightarrow> generic_param list \<Rightarrow> ast_type list \<Rightarrow> resolver \<Rightarrow> (decl option \<times> resolver) option" where
  "instantiateClass innerDecl params typeArgs R =
     (case innerDecl of
        ClassDecl n ps ms x k a l \<Rightarrow> do {
          mangled \<leftarrow> getMangledName n typeArgs;
          (case instantiatedClasses R mangled of
             Some d \<Rightarrow> Some (Some d, R)
           | None \<Rightarrow> do {
               ms1 \<leftarrow> each (deref decl_clone) ms;
               ms2 \<leftarrow> each (substituteMember (substitutionOf params typeArgs)) ms1;
               let d = ClassDecl mangled ps ms2 x k a l;
               Some (Some d, R\<lparr>instantiatedClasses := (instantiatedClasses R)(mangled \<mapsto> d),
                               registeredClasses := registeredClasses R @ [d]\<rparr>)})}
      | _ \<Rightarrow> Some (None, R))"

definition instantiateFunction :: "decl \<Rightarrow> generic_param list \<Rightarrow> ast_type list \<Rightarrow> resolver \<Rightarrow> (decl option \<times> resolver) option" where
  "instantiateFunction innerDecl params typeArgs R =
     (case innerDecl of
        FunctionDecl n ps r b a l \<Rightarrow> do {
          mangled \<leftarrow> getMangledName n typeArgs;
          (case instantiatedFunctions R mangled of
             Some d \<Rightarrow> Some (Some d, R)
           | None \<Rightarrow> do {
               c \<leftarrow> decl_clone innerDecl;
               (case c of
                  FunctionDecl n1 ps1 r1 b1 a1 l1 \<Rightarrow> do {
                    r2 \<leftarrow> substituteType (substitutionOf params typeArgs) r;
                    ps2 \<leftarrow> substituteParams (substitutionOf params typeArgs) ps1;
                    let d = FunctionDecl mangled ps2 r2 b1 a1 l1;
                    Some (Some d, R\<lparr>instantiatedFunctions := (instantiatedFunctions R)(mangled \<mapsto> d),
                                    registeredFunctions := registeredFunctions R @ [d]\<rparr>)}
                | _ \<Rightarrow> None)})}
      | _ \<Rightarrow> Some (None, R))"

end
