(* ===== verification/GenericProps.thy ===== *)
theory GenericProps
  imports GenericResolver
begin

text \<open>What substitution and instantiation do to the type parameters.\<close>

text \<open>The named types without arguments in a type: where a type parameter can stand.\<close>

fun typeVars :: "ast_type \<Rightarrow> string set" where
  "typeVars (NamedTy n as l) = (if as = [] then {n} else \<Union> (set (map (\<lambda>(t, v). typeVars t) as)))"
| "typeVars (ArrayTy t e l) = (case t of None \<Rightarrow> {} | Some u \<Rightarrow> typeVars u)"
| "typeVars (SliceTy t l) = (case t of None \<Rightarrow> {} | Some u \<Rightarrow> typeVars u)"
| "typeVars (PointerTy t l) = (case t of None \<Rightarrow> {} | Some u \<Rightarrow> typeVars u)"
| "typeVars (ReferenceTy t l) = (case t of None \<Rightarrow> {} | Some u \<Rightarrow> typeVars u)"
| "typeVars (MapTy k v l) =
     (case k of None \<Rightarrow> {} | Some u \<Rightarrow> typeVars u) \<union> (case v of None \<Rightarrow> {} | Some u \<Rightarrow> typeVars u)"
| "typeVars (FunctionTy r ps v i l) = (case r of None \<Rightarrow> {} | Some u \<Rightarrow> typeVars u) \<union> \<Union> (set (map typeVars ps))"
| "typeVars (ClosureTy r ps l) = (case r of None \<Rightarrow> {} | Some u \<Rightarrow> typeVars u) \<union> \<Union> (set (map typeVars ps))"
| "typeVars (NullableTy t l) = (case t of None \<Rightarrow> {} | Some u \<Rightarrow> typeVars u)"
| "typeVars (MutTy t l) = typeVars t"
| "typeVars (ViewTy t l) = typeVars t"
| "typeVars (LockTy t l) = typeVars t"
| "typeVars (ConstTy t l) = (case t of None \<Rightarrow> {} | Some u \<Rightarrow> typeVars u)"
| "typeVars (VolatileTy t l) = (case t of None \<Rightarrow> {} | Some u \<Rightarrow> typeVars u)"
| "typeVars (WeakTy t l) = typeVars t"
| "typeVars (PromiseTy t l) = typeVars t"
| "typeVars t = {}"

lemma eachD: "each f xs = Some ys \<Longrightarrow> list_all2 (\<lambda>x y. f x = Some y) xs ys"
proof (induction xs arbitrary: ys)
  case (Cons x xs)
  then show ?case by (cases ys) (auto simp: each_def split: option.splits)
qed (simp add: each_def)

lemma each_Union:
  assumes "each f xs = Some ys" "\<And>x y. x \<in> set xs \<Longrightarrow> f x = Some y \<Longrightarrow> g y = h x"
  shows "\<Union> (set (map g ys)) = \<Union> (set (map h xs))"
  using eachD [OF assms(1)] assms(2)
proof (induction rule: list_all2_induct)
  case (Cons x xs y ys)
  have "g y = h x" using Cons by simp
  moreover have "\<Union> (set (map g ys)) = \<Union> (set (map h xs))" using Cons by simp
  ultimately show ?case by simp
qed simp

lemma each_nil: "each f xs = Some ys \<Longrightarrow> ys = [] \<longleftrightarrow> xs = []"
  using eachD by fastforce

lemma clone_typeVars: "type_clone t = Some u \<Longrightarrow> typeVars u = typeVars t"
proof (induction t arbitrary: u rule: typeVars.induct)
  case (1 n as l)
  then obtain bs where bs: "each (\<lambda>(t, v). do { u \<leftarrow> type_clone t; Some (u, v) }) as = Some bs" "u = NamedTy n bs l"
    by (auto simp: bind_eq_Some_conv)
  have "typeVars w = typeVars a" if "(a, b) \<in> set as" "type_clone a = Some w" for a b w
    using 1(1) that by (cases "as = []") auto
  then have "\<Union> (set (map (\<lambda>(t, v). typeVars t) bs)) = \<Union> (set (map (\<lambda>(t, v). typeVars t) as))"
    by (intro each_Union [OF bs(1)]) (clarsimp simp: bind_eq_Some_conv)
  then show ?case using bs each_nil [OF bs(1)] by simp
next
  case (7 r ps v i l)
  then obtain qs s where qs: "each type_clone ps = Some qs" "deref type_clone r = Some s" "u = FunctionTy s qs v i l"
    by (auto simp: bind_eq_Some_conv)
  have "\<Union> (set (map typeVars qs)) = \<Union> (set (map typeVars ps))"
    using 7 by (intro each_Union [OF qs(1)]) auto
  then show ?case using 7 qs by (auto simp: deref_def split: option.splits)
next
  case (8 r ps l)
  then obtain qs s where qs: "each type_clone ps = Some qs" "deref type_clone r = Some s" "u = ClosureTy s qs l"
    by (auto simp: bind_eq_Some_conv)
  have "\<Union> (set (map typeVars qs)) = \<Union> (set (map typeVars ps))"
    using 8 by (intro each_Union [OF qs(1)]) auto
  then show ?case using 8 qs by (auto simp: deref_def split: option.splits)
qed (auto simp: bind_eq_Some_conv deref_def split: option.splits)

text \<open>What stands for a name.\<close>

definition standsFor :: "substitution \<Rightarrow> string \<Rightarrow> string set" where
  "standsFor S n = (case S n of None \<Rightarrow> {n} | Some u \<Rightarrow> typeVars u)"

lemma substituted_vars:
  "substituteType S t = Some u \<Longrightarrow> typeVars u = \<Union> (standsFor S ` typeVars t)"
proof (induction t arbitrary: u rule: typeVars.induct)
  case (1 n as l)
  show ?case
  proof (cases "as = []")
    case True
    show ?thesis
    proof (cases "S n")
      case None
      then show ?thesis using 1(2) True by (auto simp: standsFor_def each_def)
    next
      case (Some w)
      then show ?thesis using 1(2) True clone_typeVars [of w u] by (simp add: standsFor_def)
    qed
  next
    case False
    then obtain bs where bs: "each (\<lambda>(t, v). do { u \<leftarrow> substituteType S t; Some (u, v) }) as = Some bs" "u = NamedTy n bs l"
      using 1(2) by (auto simp: bind_eq_Some_conv)
    have "typeVars w = \<Union> (standsFor S ` typeVars a)" if "(a, b) \<in> set as" "substituteType S a = Some w" for a b w
      using 1(1) that False by auto
    then have "\<Union> (set (map (\<lambda>(t, v). typeVars t) bs)) = \<Union> (set (map (\<lambda>(t, v). \<Union> (standsFor S ` typeVars t)) as))"
      by (intro each_Union [OF bs(1)]) (clarsimp simp: bind_eq_Some_conv)
    then show ?thesis using bs False each_nil [OF bs(1)] by auto
  qed
next
  case (7 r ps v i l)
  then obtain qs s where qs: "each (substituteType S) ps = Some qs" "ifset (substituteType S) r = Some s" "u = FunctionTy s qs v i l"
    by (auto simp: bind_eq_Some_conv)
  have "\<Union> (set (map typeVars qs)) = \<Union> (set (map (\<lambda>p. \<Union> (standsFor S ` typeVars p)) ps))"
    using 7 by (intro each_Union [OF qs(1)]) auto
  then show ?case using 7 qs by (auto simp: ifset_def split: option.splits)
next
  case (8 r ps l)
  then obtain qs s where qs: "each (substituteType S) ps = Some qs" "ifset (substituteType S) r = Some s" "u = ClosureTy s qs l"
    by (auto simp: bind_eq_Some_conv)
  have "\<Union> (set (map typeVars qs)) = \<Union> (set (map (\<lambda>p. \<Union> (standsFor S ` typeVars p)) ps))"
    using 8 by (intro each_Union [OF qs(1)]) auto
  then show ?case using 8 qs by (auto simp: ifset_def split: option.splits)
next
  case (6 k v l)
  then show ?case by (auto simp: bind_eq_Some_conv ifset_def image_Un split: option.splits)
qed (auto simp: bind_eq_Some_conv ifset_def split: option.splits)

definition boxClass :: decl where
  "boxClass = ClassDecl ''Box'' [] [Some (VariableDecl (Some (NamedTy ''T'' [] 1)) ''value'' None (mkVarAttrs False False None V_Default) 2)]
     True A_Class \<lparr>ca_packed = False, ca_alignment = 0, ca_section = []\<rparr> 3"

definition boxOf :: "ast_type \<Rightarrow> string \<Rightarrow> decl" where
  "boxOf t n = ClassDecl n [] [Some (VariableDecl (Some t) ''value'' None (mkVarAttrs False False None V_Default) 2)]
     True A_Class \<lparr>ca_packed = False, ca_alignment = 0, ca_section = []\<rparr> 3"

subsection \<open>Properties\<close>

text \<open>
  C18: The type parameters a substituted type still mentions are those of the type that are not
  substituted, together with what the substituted types mention.  In particular substituting closed
  types for all parameters leaves a closed type.
\<close>

theorem substitution_closed:
  assumes "substituteType S t = Some u"
  shows "typeVars u = (typeVars t - dom S) \<union> (\<Union>n\<in>typeVars t \<inter> dom S. typeVars (the (S n)))"
  using substituted_vars [OF assms] by (auto simp: standsFor_def split: option.splits)

theorem substitution_closed_witness:
  "substituteType [''K'' \<mapsto> PrimitiveTy S_I32 9] (MapTy (Some (NamedTy ''K'' [] 1)) (Some (NamedTy ''List'' [(NamedTy ''V'' [] 2, Invariant)] 3)) 4) =
     Some (MapTy (Some (PrimitiveTy S_I32 9)) (Some (NamedTy ''List'' [(NamedTy ''V'' [] 2, Invariant)] 3)) 4) \<and>
   typeVars (MapTy (Some (PrimitiveTy S_I32 9)) (Some (NamedTy ''List'' [(NamedTy ''V'' [] 2, Invariant)] 3)) 4) = {''V''}"
proof -
  have s: "substituteType [''K'' \<mapsto> PrimitiveTy S_I32 9] (MapTy (Some (NamedTy ''K'' [] 1)) (Some (NamedTy ''List'' [(NamedTy ''V'' [] 2, Invariant)] 3)) 4) =
     Some (MapTy (Some (PrimitiveTy S_I32 9)) (Some (NamedTy ''List'' [(NamedTy ''V'' [] 2, Invariant)] 3)) 4)"
    by (simp add: ifset_def each_def)
  show ?thesis using s substitution_closed [OF s] by simp
qed

text \<open>
  Instantiating a generic class a second time with the same arguments returns the class of the first
  time and registers nothing.
\<close>

theorem instantiation_cached:
  assumes "instantiateClass c ps as R = Some (Some d, R1)"
  shows "instantiateClass c ps as R1 = Some (Some d, R1)"
  using assms by (auto simp: instantiateClass_def bind_eq_Some_conv Let_def split: decl.splits option.splits)

theorem instantiation_cached_witness:
  "\<exists>d R1. instantiateClass boxClass [(''T'', False, 0)] [PrimitiveTy S_Bool 5] mkResolver = Some (Some d, R1) \<and>
     instantiateClass boxClass [(''T'', False, 0)] [PrimitiveTy S_Bool 5] R1 = Some (Some d, R1)"
proof -
  obtain d R1 where "instantiateClass boxClass [(''T'', False, 0)] [PrimitiveTy S_Bool 5] mkResolver = Some (Some d, R1)"
    by (simp add: instantiateClass_def boxClass_def mkResolver_def getMangledName_def mangledArg_def each_def deref_def
      ifset_def mangledChar_def popUnderscore_def substituteMember_def substitutionOf_def Let_def)
  with instantiation_cached [OF this] show ?thesis by blast
qed

text \<open>
  Two arguments that print alike share an instance: after \<open>Box<char>\<close> of the character type, \<open>Box\<close> of
  the 8-bit integer is the class whose field is a character, although the two types are not equivalent.
\<close>

theorem instance_shared:
  "\<exists>R1. instantiateClass boxClass [(''T'', False, 0)] [PrimitiveTy S_Char 5] mkResolver = Some (Some (boxOf (PrimitiveTy S_Char 5) ''Box_char''), R1) \<and>
        instantiateClass boxClass [(''T'', False, 0)] [PrimitiveTy S_I8 6] R1 = Some (Some (boxOf (PrimitiveTy S_Char 5) ''Box_char''), R1) \<and>
        isEquivalent (PrimitiveTy S_Char 5) (PrimitiveTy S_I8 6) = Some False"
  by (simp add: instantiateClass_def boxClass_def boxOf_def mkResolver_def getMangledName_def mangledArg_def each_def deref_def ifset_def
    mangledChar_def popUnderscore_def substituteMember_def substitutionOf_def cloneVarAttrs_def mkVarAttrs_def Let_def)

text \<open>
  The error for a borrowed argument of a \<open>shared\<close> parameter is never returned; the violation is
  reported as one of \<open>any\<close>.
\<close>

theorem shared_violation_misreported:
  "validateGenericArgs ps as \<noteq> Some SharedConstraintViolation \<and>
   validateGenericArgs [(n, True, l)] [(ViewTy (PrimitiveTy s j) k, v)] = Some AnyConstraintViolation"
proof -
  have "validateArgs ps as \<noteq> Some SharedConstraintViolation"
    by (induction ps as rule: validateArgs.induct) auto
  then show ?thesis by (simp add: validateGenericArgs_def)
qed

end
