(* ===== verification/Macros.thy ===== *)
theory Macros
  imports AST
begin

text \<open>
  Macros (\<open>include/moksha/Macros/Macro.h\<close>) and the substitution of their arguments
  (\<open>MacroSubstituter\<close>, \<open>ObjectMacro::expand\<close> and \<open>FunctionMacro::expand\<close> in
  \<open>lib/frontend/macros/MacroExpander.cpp\<close>).

  A method of the substituter is a function of the map of renamed locals, the one field it changes.
  \<open>None\<close> is undefined behaviour: a null pointer that is dereferenced.  The address of a node, which the
  hygienic names are made of, and the order in which the compiler evaluates the arguments of a call are
  the record \<open>L\<close>.
\<close>

record mlib =
  ml_address :: "decl \<Rightarrow> nat"
  ml_argsRightToLeft :: bool

type_synonym rename = "string \<rightharpoonup> string"

text \<open>A method that changes a state \<open>'s\<close>.\<close>

type_synonym ('s, 'a) run = "'s \<Rightarrow> ('a \<times> 's) option"

type_synonym 'a clone = "(rename, 'a) run"

subsection \<open>Sequencing\<close>

definition ret :: "'a \<Rightarrow> ('s, 'a) run" where
  "ret x r = Some (x, r)"

definition args1 :: "('a \<Rightarrow> 'z) \<Rightarrow> ('s, 'a) run \<Rightarrow> ('s, 'z) run" where
  "args1 f m r = do { (a, r1) \<leftarrow> m r; Some (f a, r1) }"

text \<open>The arguments of a call, evaluated left to right or (flag set) right to left.\<close>

definition args2 :: "bool \<Rightarrow> ('a \<Rightarrow> 'b \<Rightarrow> 'z) \<Rightarrow> ('s, 'a) run \<Rightarrow> ('s, 'b) run \<Rightarrow> ('s, 'z) run" where
  "args2 rtl f m n r =
     (if rtl then do { (b, r1) \<leftarrow> n r; (a, r2) \<leftarrow> m r1; Some (f a b, r2) }
      else do { (a, r1) \<leftarrow> m r; (b, r2) \<leftarrow> n r1; Some (f a b, r2) })"

definition args3 :: "bool \<Rightarrow> ('a \<Rightarrow> 'b \<Rightarrow> 'c \<Rightarrow> 'z) \<Rightarrow> ('s, 'a) run \<Rightarrow> ('s, 'b) run \<Rightarrow> ('s, 'c) run \<Rightarrow> ('s, 'z) run" where
  "args3 rtl f m n p =
     args2 rtl (\<lambda>a (b, c). f a b c) m (args2 rtl Pair n p)"

definition args4 :: "bool \<Rightarrow> ('a \<Rightarrow> 'b \<Rightarrow> 'c \<Rightarrow> 'd \<Rightarrow> 'z) \<Rightarrow> ('s, 'a) run \<Rightarrow> ('s, 'b) run \<Rightarrow> ('s, 'c) run \<Rightarrow> ('s, 'd) run \<Rightarrow> ('s, 'z) run" where
  "args4 rtl f m n p q =
     args2 rtl (\<lambda>a (b, c, d). f a b c d) m (args3 rtl (\<lambda>b c d. (b, c, d)) n p q)"

text \<open>\<open>if (!x) return nullptr;\<close>, and the loop over a vector.\<close>

definition orNull :: "('a \<Rightarrow> ('s, 'b) run) \<Rightarrow> 'a option \<Rightarrow> ('s, 'b option) run" where
  "orNull f x = (case x of None \<Rightarrow> ret None | Some a \<Rightarrow> args1 Some (f a))"

primrec eachIn :: "('a \<Rightarrow> ('s, 'b) run) \<Rightarrow> 'a list \<Rightarrow> ('s, 'b list) run" where
  "eachIn f [] = ret []"
| "eachIn f (x # xs) = args2 False Cons (f x) (eachIn f xs)"

lemma orNull_cong [fundef_cong]:
  "x = y \<Longrightarrow> (\<And>a. y = Some a \<Longrightarrow> f a = g a) \<Longrightarrow> orNull f x = orNull g y"
  by (cases y) (simp_all add: orNull_def)

lemma eachIn_cong [fundef_cong]:
  "xs = ys \<Longrightarrow> (\<And>a. a \<in> set ys \<Longrightarrow> f a = g a) \<Longrightarrow> eachIn f xs = eachIn g ys"
  by (induction ys arbitrary: xs) auto

subsection \<open>The substituter\<close>

text \<open>
  \<open>k_fresh\<close> copies an expression by a new substituter with the given parameters, the same arguments and
  no renamed locals.
\<close>

record cloner =
  k_params :: "string list"
  k_args :: "expr option list"
  k_hygiene :: bool
  k_lib :: mlib
  k_fresh :: "string list \<Rightarrow> expr \<Rightarrow> expr option"

definition erase :: "nat \<Rightarrow> 'a list \<Rightarrow> 'a list" where
  "erase i xs = take i xs @ drop (Suc i) xs"

definition argAt :: "cloner \<Rightarrow> nat \<Rightarrow> expr option" where
  "argAt K i = (if i < length (k_args K) then k_args K ! i else None)"

definition findArg :: "cloner \<Rightarrow> string \<Rightarrow> (nat \<times> expr) option" where
  "findArg K name =
     (case List.find (\<lambda>i. k_params K ! i = name \<and> argAt K i \<noteq> None) [0..<length (k_params K)] of
        None \<Rightarrow> None
      | Some i \<Rightarrow> map_option (Pair i) (argAt K i))"

definition cloneIdentifier :: "cloner \<Rightarrow> string \<Rightarrow> ptr \<Rightarrow> expr clone" where
  "cloneIdentifier K name loc r =
     (case (if k_hygiene K then r name else None) of
        Some unique \<Rightarrow> Some (IdentifierExpr unique loc, r)
      | None \<Rightarrow>
          (case findArg K name of
             Some (i, arg) \<Rightarrow> do { e \<leftarrow> k_fresh K (erase i (k_params K)) arg; Some (e, r) }
           | None \<Rightarrow> Some (IdentifierExpr name loc, r)))"

text \<open>
  The name of a declaration.  The loop compares the parameters with the name it has found so far, so one
  substitution can feed the next.
\<close>

definition declNameStep :: "cloner \<Rightarrow> string \<times> bool \<Rightarrow> nat \<Rightarrow> string \<times> bool" where
  "declNameStep K = (\<lambda>(name, isParam) i.
     if k_params K ! i = name then
       (case argAt K i of Some (IdentifierExpr n l) \<Rightarrow> (n, True) | _ \<Rightarrow> (name, isParam))
     else (name, isParam))"

definition declName :: "cloner \<Rightarrow> string \<Rightarrow> string \<times> bool" where
  "declName K name = foldl (declNameStep K) (name, False) [0..<length (k_params K)]"

definition uniqueName :: "mlib \<Rightarrow> string \<Rightarrow> decl \<Rightarrow> string" where
  "uniqueName L name d = name @ ''_h'' @ to_string (ml_address L d)"

text \<open>The name of the copied variable, with the renaming it adds.\<close>

definition variableName :: "cloner \<Rightarrow> decl \<Rightarrow> string clone" where
  "variableName K d r =
     (case declName K (decl_getName d) of (name, isParam) \<Rightarrow>
        if k_hygiene K \<and> \<not> isParam
        then Some (uniqueName (k_lib K) name d, r(decl_getName d \<mapsto> uniqueName (k_lib K) name d))
        else Some (name, r))"

abbreviation order :: "cloner \<Rightarrow> bool" where
  "order K \<equiv> ml_argsRightToLeft (k_lib K)"

text \<open>
  A copy has no numeric suffix and no template flag, an unsafe block becomes a block (\<open>dyn_cast\<close> to
  \<open>BlockStmt\<close> succeeds first), and a declaration that is neither a variable nor a \<open>using\<close> becomes null.
\<close>

fun cloneType :: "cloner \<Rightarrow> ast_type \<Rightarrow> ast_type clone"
  and cloneExpr :: "cloner \<Rightarrow> expr \<Rightarrow> expr clone"
  and cloneStmt :: "cloner \<Rightarrow> stmt \<Rightarrow> stmt clone"
  and cloneDecl :: "cloner \<Rightarrow> decl \<Rightarrow> decl option clone" where
  "cloneType K (PrimitiveTy s l) = ret (PrimitiveTy s l)"
| "cloneType K (AnyTy l) = ret (AnyTy l)"
| "cloneType K (NullTy l) = ret (NullTy l)"
| "cloneType K (PointerTy t l) = args1 (\<lambda>t. PointerTy t l) (orNull (cloneType K) t)"
| "cloneType K (ReferenceTy t l) = args1 (\<lambda>t. ReferenceTy t l) (orNull (cloneType K) t)"
| "cloneType K (NullableTy t l) = args1 (\<lambda>t. NullableTy t l) (orNull (cloneType K) t)"
| "cloneType K (LockTy t l) = args1 (\<lambda>t. LockTy t l) (cloneType K t)"
| "cloneType K (ViewTy t l) = args1 (\<lambda>t. ViewTy t l) (cloneType K t)"
| "cloneType K (MutTy t l) = args1 (\<lambda>t. MutTy t l) (cloneType K t)"
| "cloneType K (ArrayTy t e l) =
     args2 (order K) (\<lambda>t e. ArrayTy t e l) (orNull (cloneType K) t) (cloneExpr K e)"
| "cloneType K (SliceTy t l) = args1 (\<lambda>t. SliceTy t l) (orNull (cloneType K) t)"
| "cloneType K (MapTy k v l) =
     args2 (order K) (\<lambda>k v. MapTy k v l) (orNull (cloneType K) k) (orNull (cloneType K) v)"
| "cloneType K (FunctionTy t ps v i l) =
     args2 False (\<lambda>ps t. FunctionTy t ps v i l) (eachIn (cloneType K) ps) (orNull (cloneType K) t)"
| "cloneType K (NamedTy n as l) =
     args1 (\<lambda>as. NamedTy n as l)
       (eachIn (\<lambda>(t, v). args1 (\<lambda>t. (t, v)) (cloneType K t)) as)"
| "cloneType K (ClosureTy t ps l) =
     args2 False (\<lambda>ps t. ClosureTy t ps l) (eachIn (cloneType K) ps) (orNull (cloneType K) t)"
| "cloneType K (PromiseTy t l) = args1 (\<lambda>t. PromiseTy t l) (cloneType K t)"
| "cloneType K (ConstTy t l) = args1 (\<lambda>t. ConstTy t l) (orNull (cloneType K) t)"
| "cloneType K (VolatileTy t l) = args1 (\<lambda>t. VolatileTy t l) (orNull (cloneType K) t)"
| "cloneType K (WeakTy t l) = args1 (\<lambda>t. WeakTy t l) (cloneType K t)"
| "cloneType K (EnumTy n ms l) = ret (EnumTy n ms l)"
| "cloneType K (DecimalTy p s l) = ret (DecimalTy p s l)"
| "cloneExpr K (IntegerLit v s l) = ret (IntegerLit v NS_None l)"
| "cloneExpr K (FloatLit v s l) = ret (FloatLit v NS_None l)"
| "cloneExpr K (DecimalLit v l) = ret (DecimalLit v l)"
| "cloneExpr K (StringExpr s) = ret (StringExpr (case s of StringLit v t l \<Rightarrow> StringLit v False l))"
| "cloneExpr K (BoolLit v l) = ret (BoolLit v l)"
| "cloneExpr K (CharLit v l) = ret (CharLit v l)"
| "cloneExpr K (NullLit l) = ret (NullLit l)"
| "cloneExpr K (ArrayLit es l) = args1 (\<lambda>es. ArrayLit es l) (eachIn (orNull (cloneExpr K)) es)"
| "cloneExpr K (MapLit es l) =
     args1 (\<lambda>es. MapLit es l)
       (eachIn (\<lambda>(k, v). args2 False Pair (orNull (cloneExpr K) k) (orNull (cloneExpr K) v)) es)"
| "cloneExpr K (IdentifierExpr n l) = cloneIdentifier K n l"
| "cloneExpr K (ThisExpr l) = ret (ThisExpr l)"
| "cloneExpr K (SuperExpr l) = ret (SuperExpr l)"
| "cloneExpr K (BinaryExpr a op b l) =
     args2 (order K) (\<lambda>a b. BinaryExpr a op b l) (orNull (cloneExpr K) a) (orNull (cloneExpr K) b)"
| "cloneExpr K (UnaryExpr op a p l) = args1 (\<lambda>a. UnaryExpr op a p l) (orNull (cloneExpr K) a)"
| "cloneExpr K (TernaryExpr c a b l) =
     args3 (order K) (\<lambda>c a b. TernaryExpr c a b l) (cloneExpr K c) (cloneExpr K a) (cloneExpr K b)"
| "cloneExpr K (CastExpr t e l) =
     args2 (order K) (\<lambda>t e. CastExpr t e l) (cloneType K t) (cloneExpr K e)"
| "cloneExpr K (BitcastExpr t e l) =
     args2 (order K) (\<lambda>t e. BitcastExpr t e l) (cloneType K t) (cloneExpr K e)"
| "cloneExpr K (CallExpr c as l) =
     args2 False (\<lambda>as c. CallExpr c as l) (eachIn (orNull (cloneExpr K)) as) (cloneExpr K c)"
| "cloneExpr K (MemberExpr e n q l) = args1 (\<lambda>e. MemberExpr e n q l) (cloneExpr K e)"
| "cloneExpr K (IndexExpr e i q l) =
     args2 (order K) (\<lambda>e i. IndexExpr e i q l) (cloneExpr K e) (orNull (cloneExpr K) i)"
| "cloneExpr K (LambdaExpr ps b x m a l) =
     args2 False (\<lambda>ps b. LambdaExpr ps b x m a l)
       (eachIn (\<lambda>(t, n, d). args2 (order K) (\<lambda>t d. (t, n, d)) (cloneType K t) (orNull (cloneExpr K) d)) ps)
       (cloneStmt K b)"
| "cloneExpr K (NewExpr t as l) =
     args2 False (\<lambda>as t. NewExpr t as l) (eachIn (cloneExpr K) as) (cloneType K t)"
| "cloneExpr K (ThreadExpr w b l) = args1 (\<lambda>b. ThreadExpr w b l) (cloneExpr K b)"
| "cloneExpr K (AwaitExpr e l) = args1 (\<lambda>e. AwaitExpr e l) (orNull (cloneExpr K) e)"
| "cloneExpr K (TemplateStringExpr ps l) =
     args1 (\<lambda>ps. TemplateStringExpr ps l) (eachIn (cloneExpr K) ps)"
| "cloneExpr K (SizeOfExpr e l) = args1 (\<lambda>e. SizeOfExpr e l) (orNull (cloneExpr K) e)"
| "cloneExpr K (InputExpr e l) = args1 (\<lambda>e. InputExpr e l) (orNull (cloneExpr K) e)"
| "cloneExpr K (AsmExpr s os ins ios cl v t l) =
     args3 (order K) (\<lambda>os ins ios. AsmExpr s os ins ios cl v t l)
       (eachIn (\<lambda>(c, e). args1 (Pair c) (orNull (cloneExpr K) e)) os)
       (eachIn (\<lambda>(c, e). args1 (Pair c) (orNull (cloneExpr K) e)) ins)
       (eachIn (\<lambda>(c, e). args1 (Pair c) (orNull (cloneExpr K) e)) ios)"
| "cloneStmt K (ExpressionStmt e l) = args1 (\<lambda>e. ExpressionStmt e l) (cloneExpr K e)"
| "cloneStmt K (DeclStmt d l) =
     args1 (\<lambda>d. DeclStmt d l)
       (case d of None \<Rightarrow> ret None | Some d \<Rightarrow> cloneDecl K d)"
| "cloneStmt K (BlockStmt ss l) = args1 (\<lambda>ss. BlockStmt ss l) (eachIn (cloneStmt K) ss)"
| "cloneStmt K (UnsafeBlockStmt ss l) = args1 (\<lambda>ss. BlockStmt ss l) (eachIn (cloneStmt K) ss)"
| "cloneStmt K (ReturnStmt e l) = args1 (\<lambda>e. ReturnStmt e l) (orNull (cloneExpr K) e)"
| "cloneStmt K (IfStmt c a b l) =
     args3 (order K) (\<lambda>c a b. IfStmt c a b l) (orNull (cloneExpr K) c) (orNull (cloneStmt K) a)
       (orNull (cloneStmt K) b)"
| "cloneStmt K (WhileStmt c b l) =
     args2 (order K) (\<lambda>c b. WhileStmt c b l) (orNull (cloneExpr K) c) (orNull (cloneStmt K) b)"
| "cloneStmt K (DoWhileStmt b c l) =
     args2 (order K) (\<lambda>b c. DoWhileStmt b c l) (orNull (cloneStmt K) b) (orNull (cloneExpr K) c)"
| "cloneStmt K (ForStmt i c u b l) =
     args4 (order K) (\<lambda>i c u b. ForStmt i c u b l) (orNull (cloneStmt K) i)
       (orNull (cloneExpr K) c) (orNull (cloneExpr K) u) (orNull (cloneStmt K) b)"
| "cloneStmt K (ForInStmt v i c b l) =
     args4 (order K) (\<lambda>v i c b. ForInStmt v i c b l)
       (case v of None \<Rightarrow> ret None | Some d \<Rightarrow> cloneDecl K d)
       (case i of None \<Rightarrow> ret None | Some d \<Rightarrow> cloneDecl K d) (orNull (cloneExpr K) c)
       (orNull (cloneStmt K) b)"
| "cloneStmt K (SwitchStmt c cs l) =
     args2 False (\<lambda>cs c. SwitchStmt c cs l)
       (eachIn (\<lambda>(vs, b, d). args2 False (\<lambda>vs b. (vs, b, d)) (eachIn (orNull (cloneExpr K)) vs) (cloneStmt K b)) cs)
       (orNull (cloneExpr K) c)"
| "cloneStmt K (DeferStmt s l) = args1 (\<lambda>s. DeferStmt s l) (orNull (cloneStmt K) s)"
| "cloneStmt K (TryCatchStmt b cs f l) =
     args2 False (\<lambda>cs (b, f). TryCatchStmt b cs f l)
       (eachIn (\<lambda>(v, s, k). args2 (order K) (\<lambda>v s. (v, s, k)) (case v of None \<Rightarrow> ret None | Some d \<Rightarrow> cloneDecl K d) (cloneStmt K s)) cs)
       (args2 (order K) Pair (cloneStmt K b) (orNull (cloneStmt K) f))"
| "cloneStmt K (ThrowStmt e l) = args1 (\<lambda>e. ThrowStmt e l) (orNull (cloneExpr K) e)"
| "cloneStmt K (LockStmt e b a l) =
     args2 (order K) (\<lambda>e b. LockStmt e b a l) (orNull (cloneExpr K) e) (cloneStmt K b)"
| "cloneStmt K (BreakStmt l) = ret (BreakStmt l)"
| "cloneStmt K (ContinueStmt l) = ret (ContinueStmt l)"
| "cloneDecl K (VariableDecl t n e a l) =
     (if decl_clone (VariableDecl t n e a l) = None then (\<lambda>r. None)
      else args3 False (\<lambda>name t' e'. Some (VariableDecl t' name e' (cloneVarAttrs t a) l))
             (variableName K (VariableDecl t n e a l)) (orNull (cloneType K) t) (orNull (cloneExpr K) e))"
| "cloneDecl K (UsingDecl n t l) =
     args1 (\<lambda>t. Some (UsingDecl (fst (declName K n)) t l)) (orNull (cloneType K) t)"
| "cloneDecl K (FunctionDecl n ps t b a l) = ret None"
| "cloneDecl K (ClassDecl n ps ms x k a l) = ret None"
| "cloneDecl K (GenericDecl n ps d l) = ret None"
| "cloneDecl K (ImportDecl n al ss l) = ret None"
| "cloneDecl K (EnumDecl n cs l) = ret None"
| "cloneDecl K (MacroDecl n ps b f l) = ret None"

subsection \<open>Macros\<close>

text \<open>
  A substituter for \<open>ps\<close>.  Substituting an argument removes the parameter, so as many nested
  substituters as there are parameters are enough.
\<close>

primrec mkCloner :: "mlib \<Rightarrow> bool \<Rightarrow> expr option list \<Rightarrow> nat \<Rightarrow> string list \<Rightarrow> cloner" where
  "mkCloner L h args 0 ps = \<lparr>k_params = ps, k_args = args, k_hygiene = h, k_lib = L, k_fresh = (\<lambda>qs e. None)\<rparr>"
| "mkCloner L h args (Suc n) ps =
     \<lparr>k_params = ps, k_args = args, k_hygiene = h, k_lib = L,
      k_fresh = (\<lambda>qs e. map_option fst (cloneExpr (mkCloner L h args n qs) e Map.empty))\<rparr>"

definition MacroSubstituter :: "mlib \<Rightarrow> string list \<Rightarrow> expr option list \<Rightarrow> bool \<Rightarrow> cloner" where
  "MacroSubstituter L ps args h = mkCloner L h args (length ps) ps"

datatype macro =
    ObjectMacro string "expr option" ptr
  | FunctionMacro string "string list" "stmt list" ptr

definition object_expand :: "mlib \<Rightarrow> expr option \<Rightarrow> ptr \<Rightarrow> expr option list \<Rightarrow> stmt list option" where
  "object_expand L val loc args =
     map_option (\<lambda>(e, r). case e of None \<Rightarrow> [] | Some v \<Rightarrow> [ExpressionStmt v loc])
       (orNull (cloneExpr (MacroSubstituter L [] args True)) val Map.empty)"

definition function_expand :: "mlib \<Rightarrow> string list \<Rightarrow> stmt list \<Rightarrow> expr option list \<Rightarrow> stmt list option" where
  "function_expand L ps body args =
     (if length args \<noteq> length ps then Some []
      else map_option fst (eachIn (cloneStmt (MacroSubstituter L ps args True)) body Map.empty))"

fun expand :: "mlib \<Rightarrow> macro \<Rightarrow> expr option list \<Rightarrow> stmt list option" where
  "expand L (ObjectMacro n v l) args = object_expand L v l args"
| "expand L (FunctionMacro n ps b l) args = function_expand L ps b args"

fun macro_getName :: "macro \<Rightarrow> string" where
  "macro_getName (ObjectMacro n v l) = n"
| "macro_getName (FunctionMacro n ps b l) = n"

type_synonym macro_table = "string \<rightharpoonup> macro"

definition addMacro :: "macro_table \<Rightarrow> macro \<Rightarrow> macro_table" where
  "addMacro T m = T(macro_getName m \<mapsto> m)"

definition macro_lookup :: "macro_table \<Rightarrow> string \<Rightarrow> macro option" where
  "macro_lookup T name = T name"

text \<open>The copy of a macro's body that the table keeps, made without parameters and without hygiene.\<close>

definition cloneBody :: "mlib \<Rightarrow> stmt list \<Rightarrow> stmt list option" where
  "cloneBody L body = map_option fst (eachIn (cloneStmt (MacroSubstituter L [] [] False)) body Map.empty)"

end
