(* ===== verification/MacroExpander.thy ===== *)
theory MacroExpander
  imports Macros
begin

text \<open>
  The expansion of macro calls in a module (\<open>expandExprHelper\<close> and the class \<open>MacroExpander\<close> of
  \<open>lib/frontend/macros/MacroExpander.cpp\<close>).  A visitor changes the tree in place and may report; here
  it returns the changed node.  \<open>None\<close> is a call that does not return: unbounded recursion or a null
  pointer that is dereferenced.

  The visitors call each other through \<open>accept\<close>.  Each is defined over the record \<open>V\<close> of the calls it
  makes; \<open>tie\<close> closes the recursion with a bound on its depth.
\<close>

type_synonym 'a visit = "(diag_engine, 'a) run"

record visitor =
  vType :: "ast_type \<Rightarrow> ast_type visit"
  vExpr :: "expr \<Rightarrow> expr visit"
  vStmt :: "stmt \<Rightarrow> stmt visit"
  vDecl :: "decl \<Rightarrow> decl visit"
  vHelper :: "nat \<Rightarrow> expr \<Rightarrow> expr visit"
  vProcess :: "nat \<Rightarrow> stmt \<Rightarrow> stmt list visit"

fun stmt_getLoc :: "stmt \<Rightarrow> ptr" where
  "stmt_getLoc (BlockStmt ss l) = l"
| "stmt_getLoc (ExpressionStmt e l) = l"
| "stmt_getLoc (DeclStmt d l) = l"
| "stmt_getLoc (ReturnStmt e l) = l"
| "stmt_getLoc (BreakStmt l) = l"
| "stmt_getLoc (ContinueStmt l) = l"
| "stmt_getLoc (IfStmt c a b l) = l"
| "stmt_getLoc (WhileStmt c b l) = l"
| "stmt_getLoc (DoWhileStmt b c l) = l"
| "stmt_getLoc (ForStmt i c u b l) = l"
| "stmt_getLoc (ForInStmt v i c b l) = l"
| "stmt_getLoc (SwitchStmt c cs l) = l"
| "stmt_getLoc (DeferStmt s l) = l"
| "stmt_getLoc (UnsafeBlockStmt ss l) = l"
| "stmt_getLoc (TryCatchStmt b cs f l) = l"
| "stmt_getLoc (ThrowStmt e l) = l"
| "stmt_getLoc (LockStmt e b a l) = l"

definition depthMessage :: string where
  "depthMessage = ''Macro recursion depth exceeded (limit 256)''"

text \<open>A call whose callee is the name of a macro.\<close>

fun macroCall :: "macro_table \<Rightarrow> expr \<Rightarrow> (macro \<times> expr option list \<times> ptr) option" where
  "macroCall T (CallExpr (IdentifierExpr n k) as l) = map_option (\<lambda>m. (m, as, l)) (macro_lookup T n)"
| "macroCall T _ = None"

text \<open>
  What replaces the call \<open>e\<close>: the expression of a single statement, or a call of a closure that runs the
  statements.  Anything else leaves the call as it is.
\<close>

definition returnLast :: "stmt list \<Rightarrow> stmt list option" where
  "returnLast ss =
     (case last ss of
        ExpressionStmt x k \<Rightarrow> do { y \<leftarrow> expr_clone x; Some (butlast ss @ [ReturnStmt (Some y) k]) }
      | _ \<Rightarrow> Some ss)"

definition replaceCall :: "expr \<Rightarrow> ptr \<Rightarrow> stmt list \<Rightarrow> expr option" where
  "replaceCall e loc ss =
     (case ss of
        [] \<Rightarrow> Some e
      | [ExpressionStmt x k] \<Rightarrow> expr_clone x
      | [ReturnStmt x k] \<Rightarrow> (case x of None \<Rightarrow> None | Some y \<Rightarrow> expr_clone y)
      | [s] \<Rightarrow> Some e
      | _ \<Rightarrow> do {
          body \<leftarrow> returnLast ss;
          Some (CallExpr (LambdaExpr [] (BlockStmt body loc) False C_Mut False loc) [] loc)})"

definition expandExprHelper :: "mlib \<Rightarrow> macro_table \<Rightarrow> visitor \<Rightarrow> nat \<Rightarrow> expr \<Rightarrow> expr visit" where
  "expandExprHelper L T V depth e D =
     (if 256 < depth then Some (e, report D (expr_getLoc e) err_type_mismatch depthMessage)
      else do {
        (e1, D1) \<leftarrow> vExpr V e D;
        (case macroCall T e1 of
           None \<Rightarrow> Some (e1, D1)
         | Some (m, as, loc) \<Rightarrow> do {
             ss \<leftarrow> expand L m as;
             e2 \<leftarrow> replaceCall e1 loc ss;
             vHelper V (Suc depth) e2 D1})})"

definition processStmt :: "mlib \<Rightarrow> macro_table \<Rightarrow> visitor \<Rightarrow> nat \<Rightarrow> stmt \<Rightarrow> stmt list visit" where
  "processStmt L T V depth s D =
     (if 256 < depth then Some ([s], report D (stmt_getLoc s) err_type_mismatch depthMessage)
      else
        (case (case s of ExpressionStmt e l \<Rightarrow> macroCall T e | _ \<Rightarrow> None) of
           Some (m, as, loc) \<Rightarrow> do {
             (as1, D1) \<leftarrow> eachIn (orNull (vHelper V 0)) as D;
             ss \<leftarrow> expand L m as1;
             (tss, D2) \<leftarrow> eachIn (vProcess V (Suc depth)) ss D1;
             Some (concat tss, D2)}
         | None \<Rightarrow> args1 (\<lambda>t. [t]) (vStmt V s) D))"

subsection \<open>Types\<close>

fun visitType :: "visitor \<Rightarrow> ast_type \<Rightarrow> ast_type visit" where
  "visitType V (PointerTy t l) = args1 (\<lambda>t. PointerTy t l) (orNull (vType V) t)"
| "visitType V (ReferenceTy t l) = args1 (\<lambda>t. ReferenceTy t l) (orNull (vType V) t)"
| "visitType V (ArrayTy t e l) = args2 False (\<lambda>t e. ArrayTy t e l) (orNull (vType V) t) (vExpr V e)"
| "visitType V (SliceTy t l) = args1 (\<lambda>t. SliceTy t l) (orNull (vType V) t)"
| "visitType V (MapTy k v l) = args2 False (\<lambda>k v. MapTy k v l) (orNull (vType V) k) (orNull (vType V) v)"
| "visitType V (FunctionTy t ps v i l) =
     args2 False (\<lambda>t ps. FunctionTy t ps v i l) (orNull (vType V) t) (eachIn (vType V) ps)"
| "visitType V (NamedTy n as l) = args1 (\<lambda>as. NamedTy n as l) (eachIn (\<lambda>(t, v). args1 (\<lambda>t. (t, v)) (vType V t)) as)"
| "visitType V (NullableTy t l) = args1 (\<lambda>t. NullableTy t l) (orNull (vType V) t)"
| "visitType V (LockTy t l) = args1 (\<lambda>t. LockTy t l) (vType V t)"
| "visitType V (ViewTy t l) = args1 (\<lambda>t. ViewTy t l) (vType V t)"
| "visitType V (MutTy t l) = args1 (\<lambda>t. MutTy t l) (vType V t)"
| "visitType V (VolatileTy t l) = args1 (\<lambda>t. VolatileTy t l) (orNull (vType V) t)"
| "visitType V (ConstTy t l) = args1 (\<lambda>t. ConstTy t l) (orNull (vType V) t)"
| "visitType V (ClosureTy t ps l) =
     args2 False (\<lambda>t ps. ClosureTy t ps l) (orNull (vType V) t) (eachIn (vType V) ps)"
| "visitType V (WeakTy t l) = args1 (\<lambda>t. WeakTy t l) (vType V t)"
| "visitType V (PromiseTy t l) = args1 (\<lambda>t. PromiseTy t l) (vType V t)"
| "visitType V t = ret t"

subsection \<open>Expressions\<close>

definition visitOperands :: "visitor \<Rightarrow> (string \<times> expr option) list \<Rightarrow> (string \<times> expr option) list visit" where
  "visitOperands V = eachIn (\<lambda>(c, e). args1 (Pair c) (orNull (vHelper V 0) e))"

fun visitExpr :: "visitor \<Rightarrow> expr \<Rightarrow> expr visit" where
  "visitExpr V (ArrayLit es l) = args1 (\<lambda>es. ArrayLit es l) (eachIn (orNull (vHelper V 0)) es)"
| "visitExpr V (MapLit es l) =
     args1 (\<lambda>es. MapLit es l)
       (eachIn (\<lambda>(k, v). args2 False Pair (orNull (vHelper V 0) k) (orNull (vHelper V 0) v)) es)"
| "visitExpr V (BinaryExpr a op b l) =
     args2 False (\<lambda>a b. BinaryExpr a op b l) (orNull (vHelper V 0) a) (orNull (vHelper V 0) b)"
| "visitExpr V (UnaryExpr op a p l) = args1 (\<lambda>a. UnaryExpr op a p l) (orNull (vExpr V) a)"
| "visitExpr V (TernaryExpr c a b l) =
     args3 False (\<lambda>c a b. TernaryExpr c a b l) (vExpr V c) (vExpr V a) (vExpr V b)"
| "visitExpr V (CastExpr t e l) = args2 False (\<lambda>t e. CastExpr t e l) (vType V t) (vExpr V e)"
| "visitExpr V (BitcastExpr t e l) = args2 False (\<lambda>t e. BitcastExpr t e l) (vType V t) (vExpr V e)"
| "visitExpr V (CallExpr c as l) =
     args2 False (\<lambda>c as. CallExpr c as l) (vExpr V c) (eachIn (orNull (vHelper V 0)) as)"
| "visitExpr V (MemberExpr e n q l) = args1 (\<lambda>e. MemberExpr e n q l) (vExpr V e)"
| "visitExpr V (IndexExpr e i q l) =
     args2 False (\<lambda>e i. IndexExpr e i q l) (vExpr V e) (orNull (vExpr V) i)"
| "visitExpr V (LambdaExpr ps b x m a l) =
     args2 False (\<lambda>ps b. LambdaExpr ps b x m a l)
       (eachIn (\<lambda>(t, n, d). args2 False (\<lambda>t d. (t, n, d)) (vType V t) (orNull (vExpr V) d)) ps) (vStmt V b)"
| "visitExpr V (NewExpr t as l) = args2 False (\<lambda>t as. NewExpr t as l) (vType V t) (eachIn (vHelper V 0) as)"
| "visitExpr V (TemplateStringExpr ps l) = args1 (\<lambda>ps. TemplateStringExpr ps l) (eachIn (vHelper V 0) ps)"
| "visitExpr V (ThreadExpr w b l) = args1 (\<lambda>b. ThreadExpr w b l) (vExpr V b)"
| "visitExpr V (AwaitExpr e l) = args1 (\<lambda>e. AwaitExpr e l) (orNull (vExpr V) e)"
| "visitExpr V (SizeOfExpr e l) = args1 (\<lambda>e. SizeOfExpr e l) (orNull (vExpr V) e)"
| "visitExpr V (InputExpr e l) = args1 (\<lambda>e. InputExpr e l) (orNull (vExpr V) e)"
| "visitExpr V (AsmExpr s os ins ios cl v t l) =
     args3 False (\<lambda>os ins ios. AsmExpr s os ins ios cl v t l)
       (visitOperands V os) (visitOperands V ins) (visitOperands V ios)"
| "visitExpr V e = ret e"

subsection \<open>Statements\<close>

fun visitStmt :: "visitor \<Rightarrow> stmt \<Rightarrow> stmt visit" where
  "visitStmt V (BlockStmt ss l) = args1 (\<lambda>tss. BlockStmt (concat tss) l) (eachIn (vProcess V 0) ss)"
| "visitStmt V (UnsafeBlockStmt ss l) = args1 (\<lambda>tss. UnsafeBlockStmt (concat tss) l) (eachIn (vProcess V 0) ss)"
| "visitStmt V (IfStmt c a b l) =
     args3 False (\<lambda>c a b. IfStmt c a b l) (orNull (vExpr V) c) (orNull (vStmt V) a) (orNull (vStmt V) b)"
| "visitStmt V (WhileStmt c b l) = args2 False (\<lambda>c b. WhileStmt c b l) (orNull (vExpr V) c) (orNull (vStmt V) b)"
| "visitStmt V (DoWhileStmt b c l) = args2 False (\<lambda>b c. DoWhileStmt b c l) (orNull (vStmt V) b) (orNull (vExpr V) c)"
| "visitStmt V (ForStmt i c u b l) =
     args4 False (\<lambda>i c u b. ForStmt i c u b l)
       (orNull (vStmt V) i) (orNull (vExpr V) c) (orNull (vExpr V) u) (orNull (vStmt V) b)"
| "visitStmt V (ForInStmt v i c b l) =
     args4 False (\<lambda>v i c b. ForInStmt v i c b l)
       (orNull (vDecl V) v) (orNull (vDecl V) i) (orNull (vExpr V) c) (orNull (vStmt V) b)"
| "visitStmt V (SwitchStmt c cs l) =
     args2 False (\<lambda>c cs. SwitchStmt c cs l) (orNull (vExpr V) c)
       (eachIn (\<lambda>(vs, b, d). args2 False (\<lambda>vs b. (vs, b, d)) (eachIn (orNull (vExpr V)) vs) (vStmt V b)) cs)"
| "visitStmt V (TryCatchStmt b cs f l) =
     args3 False (\<lambda>b cs f. TryCatchStmt b cs f l) (vStmt V b)
       (eachIn (\<lambda>(v, s, k). args2 False (\<lambda>v s. (v, s, k)) (orNull (vDecl V) v) (vStmt V s)) cs) (orNull (vStmt V) f)"
| "visitStmt V (LockStmt e b a l) = args2 False (\<lambda>e b. LockStmt e b a l) (orNull (vExpr V) e) (vStmt V b)"
| "visitStmt V (ReturnStmt e l) = args1 (\<lambda>e. ReturnStmt e l) (orNull (vHelper V 0) e)"
| "visitStmt V (DeclStmt d l) = args1 (\<lambda>d. DeclStmt d l) (orNull (vDecl V) d)"
| "visitStmt V (ExpressionStmt e l) = args1 (\<lambda>e. ExpressionStmt e l) (vExpr V e)"
| "visitStmt V (DeferStmt s l) = args1 (\<lambda>s. DeferStmt s l) (orNull (vStmt V) s)"
| "visitStmt V (ThrowStmt e l) = args1 (\<lambda>e. ThrowStmt e l) (orNull (vExpr V) e)"
| "visitStmt V (BreakStmt l) = ret (BreakStmt l)"
| "visitStmt V (ContinueStmt l) = ret (ContinueStmt l)"

subsection \<open>Declarations\<close>

text \<open>A class with a null member is dereferenced.\<close>

fun visitDecl :: "visitor \<Rightarrow> decl \<Rightarrow> decl visit" where
  "visitDecl V (FunctionDecl n ps t b a l) = args1 (\<lambda>b. FunctionDecl n ps t b a l) (orNull (vStmt V) b)"
| "visitDecl V (ClassDecl n ps ms x k a l) =
     args1 (\<lambda>ms. ClassDecl n ps ms x k a l)
       (eachIn (\<lambda>m. case m of None \<Rightarrow> (\<lambda>D. None) | Some d \<Rightarrow> args1 Some (vDecl V d)) ms)"
| "visitDecl V (GenericDecl n ps d l) = args1 (\<lambda>d. GenericDecl n ps d l) (vDecl V d)"
| "visitDecl V (VariableDecl t n e a l) = args1 (\<lambda>e. VariableDecl t n e a l) (orNull (vHelper V 0) e)"
| "visitDecl V (UsingDecl n t l) = args1 (\<lambda>t. UsingDecl n t l) (orNull (vType V) t)"
| "visitDecl V d = ret d"

primrec tie :: "mlib \<Rightarrow> macro_table \<Rightarrow> nat \<Rightarrow> visitor" where
  "tie L T 0 = \<lparr>vType = (\<lambda>t D. None), vExpr = (\<lambda>e D. None), vStmt = (\<lambda>s D. None), vDecl = (\<lambda>d D. None),
     vHelper = (\<lambda>i e D. None), vProcess = (\<lambda>i s D. None)\<rparr>"
| "tie L T (Suc n) =
     (let V = tie L T n in
      \<lparr>vType = visitType V, vExpr = visitExpr V, vStmt = visitStmt V, vDecl = visitDecl V,
       vHelper = expandExprHelper L T V, vProcess = processStmt L T V\<rparr>)"

subsection \<open>Modules\<close>

text \<open>Only function macros are entered; the body of every macro is copied.\<close>

definition registerDecl :: "mlib \<Rightarrow> macro_table \<Rightarrow> decl \<Rightarrow> macro_table option" where
  "registerDecl L T d =
     (case d of
        MacroDecl n ps b f l \<Rightarrow> do {
          body \<leftarrow> cloneBody L b;
          Some (if f then addMacro T (FunctionMacro n ps body l) else T)}
      | _ \<Rightarrow> Some T)"

primrec registerMacros :: "mlib \<Rightarrow> macro_table \<Rightarrow> decl list \<Rightarrow> macro_table option" where
  "registerMacros L T [] = Some T"
| "registerMacros L T (d # ds) = do { T1 \<leftarrow> registerDecl L T d; registerMacros L T1 ds }"

fun isMacroDecl :: "decl \<Rightarrow> bool" where
  "isMacroDecl (MacroDecl n ps b f l) = True"
| "isMacroDecl _ = False"

fun visitModuleDecl :: "mlib \<Rightarrow> nat \<Rightarrow> module_decl \<Rightarrow> module_decl visit" where
  "visitModuleDecl L n (ModuleDecl name ds loc) D = do {
     T \<leftarrow> registerMacros L Map.empty ds;
     args1 (\<lambda>ds. ModuleDecl name ds loc) (eachIn (\<lambda>d. if isMacroDecl d then ret d else vDecl (tie L T n) d) ds) D}"

end
