(* ===== verification/ASTParts.thy ===== *)
theory ASTParts
  imports AST
begin

text \<open>
  The nodes of a tree: every expression, statement and declaration in it, the root included.  What the
  properties of later phases say about a tree they say about its nodes.  (The type of an \<open>asm\<close>
  expression is a pointer to a type the node does not own.)
\<close>

datatype (plugins only: code size) part = PE expr | PS stmt | PD decl

definition optl :: "('a \<Rightarrow> 'b list) \<Rightarrow> 'a option \<Rightarrow> 'b list" where
  "optl f x = (case x of None \<Rightarrow> [] | Some a \<Rightarrow> f a)"

lemma optl_cong [fundef_cong]:
  "x = y \<Longrightarrow> (\<And>a. y = Some a \<Longrightarrow> f a = g a) \<Longrightarrow> optl f x = optl g y"
  by (cases y) (simp_all add: optl_def)

lemma optl_simps [simp]: "optl f None = []" "optl f (Some a) = f a"
  by (simp_all add: optl_def)

fun partsT :: "ast_type \<Rightarrow> part list"
  and partsE :: "expr \<Rightarrow> part list"
  and partsS :: "stmt \<Rightarrow> part list"
  and partsD :: "decl \<Rightarrow> part list" where
  "partsT (NullTy y0) = []"
| "partsT (PrimitiveTy y0 y1) = []"
| "partsT (AnyTy y0) = []"
| "partsT (PointerTy y0 y1) = optl partsT y0"
| "partsT (ReferenceTy y0 y1) = optl partsT y0"
| "partsT (ArrayTy y0 y1 y2) = optl partsT y0 @ partsE y1"
| "partsT (SliceTy y0 y1) = optl partsT y0"
| "partsT (MapTy y0 y1 y2) = optl partsT y0 @ optl partsT y1"
| "partsT (ClosureTy y0 y1 y2) = optl partsT y0 @ concat (map partsT y1)"
| "partsT (FunctionTy y0 y1 y2 y3 y4) = optl partsT y0 @ concat (map partsT y1)"
| "partsT (NamedTy y0 y1 y2) = concat (map (\<lambda>(x0, x1). partsT x0) y1)"
| "partsT (NullableTy y0 y1) = optl partsT y0"
| "partsT (LockTy y0 y1) = partsT y0"
| "partsT (ViewTy y0 y1) = partsT y0"
| "partsT (MutTy y0 y1) = partsT y0"
| "partsT (VolatileTy y0 y1) = optl partsT y0"
| "partsT (ConstTy y0 y1) = optl partsT y0"
| "partsT (WeakTy y0 y1) = partsT y0"
| "partsT (DecimalTy y0 y1 y2) = []"
| "partsT (PromiseTy y0 y1) = partsT y0"
| "partsT (EnumTy y0 y1 y2) = []"
| "partsE (IntegerLit y0 y1 y2) = [PE (IntegerLit y0 y1 y2)]"
| "partsE (FloatLit y0 y1 y2) = [PE (FloatLit y0 y1 y2)]"
| "partsE (DecimalLit y0 y1) = [PE (DecimalLit y0 y1)]"
| "partsE (StringExpr y0) = [PE (StringExpr y0)]"
| "partsE (BoolLit y0 y1) = [PE (BoolLit y0 y1)]"
| "partsE (NullLit y0) = [PE (NullLit y0)]"
| "partsE (CharLit y0 y1) = [PE (CharLit y0 y1)]"
| "partsE (ArrayLit y0 y1) = PE (ArrayLit y0 y1) # concat (map (optl partsE) y0)"
| "partsE (MapLit y0 y1) = PE (MapLit y0 y1) # concat (map (\<lambda>(x0, x1). optl partsE x0 @ optl partsE x1) y0)"
| "partsE (BinaryExpr y0 y1 y2 y3) = PE (BinaryExpr y0 y1 y2 y3) # optl partsE y0 @ optl partsE y2"
| "partsE (UnaryExpr y0 y1 y2 y3) = PE (UnaryExpr y0 y1 y2 y3) # optl partsE y1"
| "partsE (TernaryExpr y0 y1 y2 y3) = PE (TernaryExpr y0 y1 y2 y3) # partsE y0 @ partsE y1 @ partsE y2"
| "partsE (CastExpr y0 y1 y2) = PE (CastExpr y0 y1 y2) # partsT y0 @ partsE y1"
| "partsE (BitcastExpr y0 y1 y2) = PE (BitcastExpr y0 y1 y2) # partsT y0 @ partsE y1"
| "partsE (IdentifierExpr y0 y1) = [PE (IdentifierExpr y0 y1)]"
| "partsE (CallExpr y0 y1 y2) = PE (CallExpr y0 y1 y2) # partsE y0 @ concat (map (optl partsE) y1)"
| "partsE (MemberExpr y0 y1 y2 y3) = PE (MemberExpr y0 y1 y2 y3) # partsE y0"
| "partsE (IndexExpr y0 y1 y2 y3) = PE (IndexExpr y0 y1 y2 y3) # partsE y0 @ optl partsE y1"
| "partsE (LambdaExpr y0 y1 y2 y3 y4 y5) = PE (LambdaExpr y0 y1 y2 y3 y4 y5) # concat (map (\<lambda>(x0, x1, x2). partsT x0 @ optl partsE x2) y0) @ partsS y1"
| "partsE (NewExpr y0 y1 y2) = PE (NewExpr y0 y1 y2) # partsT y0 @ concat (map partsE y1)"
| "partsE (TemplateStringExpr y0 y1) = PE (TemplateStringExpr y0 y1) # concat (map partsE y0)"
| "partsE (ThreadExpr y0 y1 y2) = PE (ThreadExpr y0 y1 y2) # partsE y1"
| "partsE (ThisExpr y0) = [PE (ThisExpr y0)]"
| "partsE (SuperExpr y0) = [PE (SuperExpr y0)]"
| "partsE (AwaitExpr y0 y1) = PE (AwaitExpr y0 y1) # optl partsE y0"
| "partsE (SizeOfExpr y0 y1) = PE (SizeOfExpr y0 y1) # optl partsE y0"
| "partsE (InputExpr y0 y1) = PE (InputExpr y0 y1) # optl partsE y0"
| "partsE (AsmExpr y0 y1 y2 y3 y4 y5 y6 y7) = PE (AsmExpr y0 y1 y2 y3 y4 y5 y6 y7) # concat (map (\<lambda>(x0, x1). optl partsE x1) y1) @ concat (map (\<lambda>(x0, x1). optl partsE x1) y2) @ concat (map (\<lambda>(x0, x1). optl partsE x1) y3)"
| "partsS (BlockStmt y0 y1) = PS (BlockStmt y0 y1) # concat (map partsS y0)"
| "partsS (ExpressionStmt y0 y1) = PS (ExpressionStmt y0 y1) # partsE y0"
| "partsS (DeclStmt y0 y1) = PS (DeclStmt y0 y1) # optl partsD y0"
| "partsS (ReturnStmt y0 y1) = PS (ReturnStmt y0 y1) # optl partsE y0"
| "partsS (BreakStmt y0) = [PS (BreakStmt y0)]"
| "partsS (ContinueStmt y0) = [PS (ContinueStmt y0)]"
| "partsS (IfStmt y0 y1 y2 y3) = PS (IfStmt y0 y1 y2 y3) # optl partsE y0 @ optl partsS y1 @ optl partsS y2"
| "partsS (WhileStmt y0 y1 y2) = PS (WhileStmt y0 y1 y2) # optl partsE y0 @ optl partsS y1"
| "partsS (DoWhileStmt y0 y1 y2) = PS (DoWhileStmt y0 y1 y2) # optl partsS y0 @ optl partsE y1"
| "partsS (ForStmt y0 y1 y2 y3 y4) = PS (ForStmt y0 y1 y2 y3 y4) # optl partsS y0 @ optl partsE y1 @ optl partsE y2 @ optl partsS y3"
| "partsS (ForInStmt y0 y1 y2 y3 y4) = PS (ForInStmt y0 y1 y2 y3 y4) # optl partsD y0 @ optl partsD y1 @ optl partsE y2 @ optl partsS y3"
| "partsS (SwitchStmt y0 y1 y2) = PS (SwitchStmt y0 y1 y2) # optl partsE y0 @ concat (map (\<lambda>(x0, x1, x2). concat (map (optl partsE) x0) @ partsS x1) y1)"
| "partsS (DeferStmt y0 y1) = PS (DeferStmt y0 y1) # optl partsS y0"
| "partsS (UnsafeBlockStmt y0 y1) = PS (UnsafeBlockStmt y0 y1) # concat (map partsS y0)"
| "partsS (TryCatchStmt y0 y1 y2 y3) = PS (TryCatchStmt y0 y1 y2 y3) # partsS y0 @ concat (map (\<lambda>(x0, x1, x2). optl partsD x0 @ partsS x1) y1) @ optl partsS y2"
| "partsS (ThrowStmt y0 y1) = PS (ThrowStmt y0 y1) # optl partsE y0"
| "partsS (LockStmt y0 y1 y2 y3) = PS (LockStmt y0 y1 y2 y3) # optl partsE y0 @ partsS y1"
| "partsD (VariableDecl y0 y1 y2 y3 y4) = PD (VariableDecl y0 y1 y2 y3 y4) # optl partsT y0 @ optl partsE y2"
| "partsD (FunctionDecl y0 y1 y2 y3 y4 y5) = PD (FunctionDecl y0 y1 y2 y3 y4 y5) # concat (map (\<lambda>(x0, x1, x2, x3). optl partsT x1 @ optl partsE x3) y1) @ partsT y2 @ optl partsS y3"
| "partsD (ClassDecl y0 y1 y2 y3 y4 y5 y6) = PD (ClassDecl y0 y1 y2 y3 y4 y5 y6) # concat (map (optl partsD) y2)"
| "partsD (GenericDecl y0 y1 y2 y3) = PD (GenericDecl y0 y1 y2 y3) # partsD y2"
| "partsD (ImportDecl y0 y1 y2 y3) = [PD (ImportDecl y0 y1 y2 y3)]"
| "partsD (EnumDecl y0 y1 y2) = PD (EnumDecl y0 y1 y2) # concat (map (\<lambda>(x0, x1). optl partsE x1) y1)"
| "partsD (MacroDecl y0 y1 y2 y3 y4) = PD (MacroDecl y0 y1 y2 y3 y4) # concat (map partsS y2)"
| "partsD (UsingDecl y0 y1 y2) = PD (UsingDecl y0 y1 y2) # optl partsT y1"

end
