(* ===== verification/MacroProps.thy ===== *)
theory MacroProps
  imports MacroExpander ASTParts
begin

text \<open>\<open>ok Q m\<close>: whatever \<open>m\<close> returns satisfies \<open>Q\<close>.\<close>

definition ok :: "('a \<Rightarrow> bool) \<Rightarrow> ('s, 'a) run \<Rightarrow> bool" where
  "ok Q m \<longleftrightarrow> (\<forall>r x r'. m r = Some (x, r') \<longrightarrow> Q x)"

named_theorems ok_rules

lemma okD: "ok Q m \<Longrightarrow> m r = Some (x, r') \<Longrightarrow> Q x"
  unfolding ok_def by blast

lemma ok_ret: "Q x \<Longrightarrow> ok Q (ret x)"
  by (simp add: ok_def ret_def)

lemma ok_fail: "ok Q (\<lambda>r. None)"
  by (simp add: ok_def)

lemma ok_args1 [ok_rules]: "ok A m \<Longrightarrow> (\<And>a. A a \<Longrightarrow> Q (f a)) \<Longrightarrow> ok Q (args1 f m)"
  by (auto simp: ok_def args1_def bind_eq_Some_conv)

lemma ok_args2 [ok_rules]:
  "ok A m \<Longrightarrow> ok B n \<Longrightarrow> (\<And>a b. A a \<Longrightarrow> B b \<Longrightarrow> Q (f a b)) \<Longrightarrow> ok Q (args2 rtl f m n)"
  unfolding ok_def args2_def by (auto simp: bind_eq_Some_conv split: if_splits) blast+

lemma ok_args3 [ok_rules]:
  "ok A m \<Longrightarrow> ok B n \<Longrightarrow> ok C p \<Longrightarrow> (\<And>a b c. A a \<Longrightarrow> B b \<Longrightarrow> C c \<Longrightarrow> Q (f a b c)) \<Longrightarrow> ok Q (args3 rtl f m n p)"
  unfolding args3_def
  by (rule ok_args2 [where A = A and B = "\<lambda>(b, c). B b \<and> C c"], assumption, rule ok_args2 [where A = B and B = C]) auto

lemma ok_args4 [ok_rules]:
  "ok A m \<Longrightarrow> ok B n \<Longrightarrow> ok C p \<Longrightarrow> ok D q \<Longrightarrow> (\<And>a b c d. A a \<Longrightarrow> B b \<Longrightarrow> C c \<Longrightarrow> D d \<Longrightarrow> Q (f a b c d)) \<Longrightarrow>
   ok Q (args4 rtl f m n p q)"
  unfolding args4_def
  by (rule ok_args2 [where A = A and B = "\<lambda>(b, c, d). B b \<and> C c \<and> D d"], assumption,
      rule ok_args3 [where A = B and B = C and C = D]) auto

lemma ok_orNull [ok_rules]: "(\<And>a. x = Some a \<Longrightarrow> ok Q (f a)) \<Longrightarrow> ok (pred_option Q) (orNull f x)"
  by (cases x) (auto simp: orNull_def intro: ok_ret ok_args1)

lemma ok_eachIn [ok_rules]: "(\<And>x. x \<in> set xs \<Longrightarrow> ok Q (f x)) \<Longrightarrow> ok (list_all Q) (eachIn f xs)"
proof (induction xs)
  case (Cons x xs)
  then have "ok Q (f x)" "ok (list_all Q) (eachIn f xs)" by auto
  then show ?case by (auto intro: ok_args2)
qed (auto intro: ok_ret)

lemma ok_Pair: "ok A m \<Longrightarrow> ok B n \<Longrightarrow> ok (\<lambda>(a, b). A a \<and> B b) (args2 rtl Pair m n)"
  by (erule ok_args2) auto

lemma ok_guard [ok_rules]: "(\<not> c \<Longrightarrow> ok Q m) \<Longrightarrow> ok Q (if c then (\<lambda>r. None) else m)"
  by (simp add: ok_fail)

text \<open>The loops over vectors of structures.\<close>

lemma ok_each_type [ok_rules]:
  assumes "\<And>t v. (t, v) \<in> set xs \<Longrightarrow> ok A (g t)"
  shows "ok (list_all (\<lambda>(t, v). A t)) (eachIn (\<lambda>(t, v). args1 (\<lambda>t. (t, v)) (g t)) xs)"
  using assms by (intro ok_eachIn) (auto intro!: ok_args1 [where A = A])

lemma ok_each_operand [ok_rules]:
  assumes "\<And>c e. (c, e) \<in> set xs \<Longrightarrow> ok A (g e)"
  shows "ok (list_all (\<lambda>(c, e). A e)) (eachIn (\<lambda>(c, e). args1 (Pair c) (g e)) xs)"
  using assms by (intro ok_eachIn) (auto intro!: ok_args1 [where A = A])

lemma ok_each_entry [ok_rules]:
  assumes "\<And>k v. (k, v) \<in> set xs \<Longrightarrow> ok A (g k)" "\<And>k v. (k, v) \<in> set xs \<Longrightarrow> ok B (h v)"
  shows "ok (list_all (\<lambda>(k, v). A k \<and> B v)) (eachIn (\<lambda>(k, v). args2 rtl Pair (g k) (h v)) xs)"
  using assms by (intro ok_eachIn) (auto intro!: ok_args2 [where A = A and B = B])

lemma ok_each_param [ok_rules]:
  assumes "\<And>t n d. (t, n, d) \<in> set xs \<Longrightarrow> ok A (g t)" "\<And>t n d. (t, n, d) \<in> set xs \<Longrightarrow> ok B (h d)"
  shows "ok (list_all (\<lambda>(t, n, d). A t \<and> B d)) (eachIn (\<lambda>(t, n, d). args2 rtl (\<lambda>t d. (t, n, d)) (g t) (h d)) xs)"
  using assms by (intro ok_eachIn) (auto intro!: ok_args2 [where A = A and B = B])

lemma ok_each_clause [ok_rules]:
  assumes "\<And>v s k. (v, s, k) \<in> set xs \<Longrightarrow> ok A (g v)" "\<And>v s k. (v, s, k) \<in> set xs \<Longrightarrow> ok B (h s)"
  shows "ok (list_all (\<lambda>(v, s, k). A v \<and> B s)) (eachIn (\<lambda>(v, s, k). args2 rtl (\<lambda>v s. (v, s, k)) (g v) (h s)) xs)"
  using assms by (intro ok_eachIn) (auto intro!: ok_args2 [where A = A and B = B])

lemma ok_case_option [ok_rules]:
  "(\<And>d. x = Some d \<Longrightarrow> ok Q (f d)) \<Longrightarrow> Q None \<Longrightarrow> ok Q (case x of None \<Rightarrow> ret None | Some d \<Rightarrow> f d)"
  by (cases x) (auto intro: ok_ret)

text \<open>What every node of an expansion satisfies.\<close>

fun cloned :: "mlib \<Rightarrow> expr option list \<Rightarrow> part \<Rightarrow> bool" where
  "cloned L args (PD (VariableDecl t n e a l)) =
     ((\<exists>m d. n = uniqueName L m d) \<or> (\<exists>k. Some (IdentifierExpr n k) \<in> set args))"
| "cloned L args (PD (UsingDecl n t l)) = True"
| "cloned L args (PD _) = False"
| "cloned L args (PS (UnsafeBlockStmt ss l)) = False"
| "cloned L args (PS _) = True"
| "cloned L args (PE (IntegerLit v s l)) = (s = NS_None)"
| "cloned L args (PE (FloatLit v s l)) = (s = NS_None)"
| "cloned L args (PE (StringExpr (StringLit v t l))) = (\<not> t)"
| "cloned L args (PE _) = True"

definition good :: "cloner \<Rightarrow> bool" where
  "good K \<longleftrightarrow> k_hygiene K \<and>
     (\<forall>qs e f p. k_fresh K qs e = Some f \<longrightarrow> p \<in> set (partsE f) \<longrightarrow> cloned (k_lib K) (k_args K) p)"

lemma declName_arg:
  "declName K n = (m, True) \<Longrightarrow> \<exists>k. Some (IdentifierExpr m k) \<in> set (k_args K)"
proof -
  have "foldl (declNameStep K) (n, False) is = (m, True) \<Longrightarrow> \<exists>k. Some (IdentifierExpr m k) \<in> set (k_args K)" for "is"
    by (induction "is" arbitrary: m rule: rev_induct)
       (auto simp: declNameStep_def argAt_def split: prod.splits if_splits option.splits expr.splits intro: nth_mem
         dest: nth_mem, (metis nth_mem)+)
  then show "declName K n = (m, True) \<Longrightarrow> ?thesis" by (simp add: declName_def)
qed

lemma variableName_ok:
  "good K \<Longrightarrow> ok (\<lambda>x. (\<exists>m d. x = uniqueName (k_lib K) m d) \<or> (\<exists>k. Some (IdentifierExpr x k) \<in> set (k_args K)))
     (variableName K d)"
  using declName_arg [of K "decl_getName d"]
  by (auto simp: ok_def good_def variableName_def split: prod.splits if_splits)

abbreviation all_parts :: "cloner \<Rightarrow> part list \<Rightarrow> bool" where
  "all_parts K \<equiv> list_all (cloned (k_lib K) (k_args K))"

lemma cloneIdentifier_ok:
  "good K \<Longrightarrow> ok (\<lambda>e. all_parts K (partsE e)) (cloneIdentifier K n l)"
  by (auto simp: ok_def cloneIdentifier_def good_def list_all_iff bind_eq_Some_conv split: option.splits)

lemma list_all_concat_map [simp]: "list_all P (concat (map f xs)) = list_all (\<lambda>x. list_all P (f x)) xs"
  by (induction xs) auto

lemma list_all_optl [simp]: "list_all P (optl f x) = pred_option (\<lambda>a. list_all P (f a)) x"
  by (cases x) auto

lemma list_all_case_prod [simp]: "list_all P (case x of (a, b) \<Rightarrow> f a b) = (case x of (a, b) \<Rightarrow> list_all P (f a b))"
  by (cases x) simp

lemma clone_goals:
  "ok (\<lambda>t. all_parts K (partsT t)) (cloneType K t) \<Longrightarrow> ok (\<lambda>t. all_parts K (partsT t)) (cloneType K t)"
  "ok (\<lambda>e. all_parts K (partsE e)) (cloneExpr K e) \<Longrightarrow> ok (\<lambda>e. all_parts K (partsE e)) (cloneExpr K e)"
  "ok (\<lambda>s. all_parts K (partsS s)) (cloneStmt K s) \<Longrightarrow> ok (\<lambda>s. all_parts K (partsS s)) (cloneStmt K s)"
  "ok (\<lambda>d. all_parts K (optl partsD d)) (cloneDecl K d) \<Longrightarrow> ok (\<lambda>d. all_parts K (optl partsD d)) (cloneDecl K d)"
  by assumption+

lemma clone_parts:
  fixes K t e s d
  shows "good K \<Longrightarrow> ok (\<lambda>t. all_parts K (partsT t)) (cloneType K t)"
    and "good K \<Longrightarrow> ok (\<lambda>e. all_parts K (partsE e)) (cloneExpr K e)"
    and "good K \<Longrightarrow> ok (\<lambda>s. all_parts K (partsS s)) (cloneStmt K s)"
    and "good K \<Longrightarrow> ok (\<lambda>d. all_parts K (optl partsD d)) (cloneDecl K d)"
proof (induction K t and K e and K s and K d rule: cloneType_cloneExpr_cloneStmt_cloneDecl.induct)
qed (simp only: cloneType.simps cloneExpr.simps cloneStmt.simps cloneDecl.simps;
     (rule clone_goals, metis
       | rule ok_each_type ok_each_operand ok_each_entry ok_each_param ok_each_clause ok_Pair ok_rules ok_ret ok_fail
           cloneIdentifier_ok variableName_ok
       | assumption
       | (simp split: option.splits if_splits string_literal.splits prod.splits; fail))+)+

lemma mkCloner_simps [simp]:
  "k_params (mkCloner L h args n ps) = ps" "k_args (mkCloner L h args n ps) = args"
  "k_hygiene (mkCloner L h args n ps) = h" "k_lib (mkCloner L h args n ps) = L"
  by (cases n; simp)+

lemma good_mkCloner: "good (mkCloner L True args n ps)"
proof (induction n arbitrary: ps)
  case (Suc n)
  show ?case
    unfolding good_def
  proof (intro conjI allI impI)
    fix qs e f p
    assume f: "k_fresh (mkCloner L True args (Suc n) ps) qs e = Some f" and p: "p \<in> set (partsE f)"
    obtain r where "cloneExpr (mkCloner L True args n qs) e Map.empty = Some (f, r)" using f by auto
    then show "cloned (k_lib (mkCloner L True args (Suc n) ps)) (k_args (mkCloner L True args (Suc n) ps)) p"
      using okD [OF clone_parts(2) [OF Suc]] p by (auto simp: list_all_iff)
  qed simp
qed (simp add: good_def)

lemma expand_parts:
  assumes "expand L m args = Some ss" "s \<in> set ss" "p \<in> set (partsS s)"
  shows "cloned L args p"
proof (cases m)
  case (ObjectMacro n v l)
  then obtain e r where e: "orNull (cloneExpr (MacroSubstituter L [] args True)) v Map.empty = Some (e, r)"
    and ss: "ss = (case e of None \<Rightarrow> [] | Some x \<Rightarrow> [ExpressionStmt x l])"
    using assms(1) by (auto simp: object_expand_def)
  have "ok (pred_option (\<lambda>e. list_all (cloned L args) (partsE e))) (orNull (cloneExpr (MacroSubstituter L [] args True)) v)"
    using clone_parts(2) [OF good_mkCloner [of L args 0 "[]"]] by (intro ok_orNull) (simp add: MacroSubstituter_def)
  from okD [OF this e] show ?thesis using ss assms(2,3) by (auto simp: list_all_iff split: option.splits)
next
  case (FunctionMacro n ps b l)
  show ?thesis
  proof (cases "length args = length ps")
    case True
    then obtain r where r: "eachIn (cloneStmt (MacroSubstituter L ps args True)) b Map.empty = Some (ss, r)"
      using assms(1) FunctionMacro by (auto simp: function_expand_def)
    have "ok (list_all (\<lambda>s. list_all (cloned L args) (partsS s))) (eachIn (cloneStmt (MacroSubstituter L ps args True)) b)"
      using clone_parts(3) [OF good_mkCloner [of L args "length ps" ps]]
      by (intro ok_eachIn) (simp add: MacroSubstituter_def)
    from okD [OF this r] show ?thesis using assms(2,3) by (auto simp: list_all_iff)
  next
    case False
    then show ?thesis using assms FunctionMacro by (auto simp: function_expand_def)
  qed
qed

subsection \<open>Substituters that agree\<close>

fun agree :: "cloner \<Rightarrow> cloner \<Rightarrow> part \<Rightarrow> bool" where
  "agree K J (PE (IdentifierExpr n l)) = (cloneIdentifier K n l = cloneIdentifier J n l)"
| "agree K J (PD d) = (declName K (decl_getName d) = declName J (decl_getName d))"
| "agree K J p = True"

lemma variableName_agree:
  "k_hygiene K = k_hygiene J \<Longrightarrow> k_lib K = k_lib J \<Longrightarrow> declName K (decl_getName d) = declName J (decl_getName d) \<Longrightarrow>
   variableName K d = variableName J d"
  by (intro ext) (simp add: variableName_def cong: if_cong)

lemma run_congs:
  "k = k' \<Longrightarrow> m = m' \<Longrightarrow> args1 k m = args1 k' m'"
  "m = m' \<Longrightarrow> n = n' \<Longrightarrow> args2 b f m n = args2 b f m' n'"
  "m = m' \<Longrightarrow> n = n' \<Longrightarrow> p = p' \<Longrightarrow> args3 b g m n p = args3 b g m' n' p'"
  "m = m' \<Longrightarrow> n = n' \<Longrightarrow> p = p' \<Longrightarrow> q = q' \<Longrightarrow> args4 b h m n p q = args4 b h m' n' p' q'"
  by simp_all

lemma case_prod_congI: "(\<And>a b. x = (a, b) \<Longrightarrow> f a b = g a b) \<Longrightarrow> case_prod f x = case_prod g x"
  by (cases x) simp

lemma case_option_congI: "(\<And>a. x = Some a \<Longrightarrow> f a = g a) \<Longrightarrow> case_option y f x = case_option y g x"
  by (cases x) simp_all

lemma agree_goals:
  "cloneType K t = cloneType J t \<Longrightarrow> cloneType K t = cloneType J t"
  "cloneExpr K e = cloneExpr J e \<Longrightarrow> cloneExpr K e = cloneExpr J e"
  "cloneStmt K s = cloneStmt J s \<Longrightarrow> cloneStmt K s = cloneStmt J s"
  "cloneDecl K d = cloneDecl J d \<Longrightarrow> cloneDecl K d = cloneDecl J d"
  by assumption+

lemma clone_agree:
  fixes K t e s d
  shows "list_all (agree K J) (partsT t) \<Longrightarrow> k_hygiene K = k_hygiene J \<and> k_lib K = k_lib J \<Longrightarrow> cloneType K t = cloneType J t"
    and "list_all (agree K J) (partsE e) \<Longrightarrow> k_hygiene K = k_hygiene J \<and> k_lib K = k_lib J \<Longrightarrow> cloneExpr K e = cloneExpr J e"
    and "list_all (agree K J) (partsS s) \<Longrightarrow> k_hygiene K = k_hygiene J \<and> k_lib K = k_lib J \<Longrightarrow> cloneStmt K s = cloneStmt J s"
    and "list_all (agree K J) (partsD d) \<Longrightarrow> k_hygiene K = k_hygiene J \<and> k_lib K = k_lib J \<Longrightarrow> cloneDecl K d = cloneDecl J d"
proof (induction K t and K e and K s and K d rule: cloneType_cloneExpr_cloneStmt_cloneDecl.induct)
qed ((simp only: cloneType.simps cloneExpr.simps cloneStmt.simps cloneDecl.simps partsT.simps partsE.simps partsS.simps partsD.simps
       list_all_append list_all_concat_map list_all_optl list_all_case_prod list.pred_inject agree.simps decl_getName.simps simp_thms split_beta;
     (rule agree_goals, fastforce simp: list_all_iff | (rule variableName_agree; simp)
       | rule refl run_congs if_cong orNull_cong eachIn_cong case_prod_congI case_option_congI
       | assumption | (simp add: list_all_iff option.pred_set; fail) )+)[1])+

end
