(* ===== verification/MacroFuel.thy ===== *)
theory MacroFuel
  imports MacroProps Complex_Main
begin

text \<open>
  The expander and its recursion bound: a larger bound changes no result, and a tree without macro calls
  is left as it is.
\<close>

subsection \<open>A larger bound keeps the results\<close>

definition refines :: "('s, 'a) run \<Rightarrow> ('s, 'a) run \<Rightarrow> bool" where
  "refines m m' \<longleftrightarrow> (\<forall>s x. m s = Some x \<longrightarrow> m' s = Some x)"

named_theorems refines_rules

lemma refines_refl [refines_rules]: "refines m m"
  by (simp add: refines_def)

lemma refines_fail: "refines (\<lambda>s. None) m"
  by (simp add: refines_def)

lemma refines_args1 [refines_rules]: "refines m m' \<Longrightarrow> refines (args1 f m) (args1 f m')"
  by (fastforce simp: refines_def args1_def bind_eq_Some_conv)

lemma refines_args2 [refines_rules]: "refines m m' \<Longrightarrow> refines n n' \<Longrightarrow> refines (args2 b f m n) (args2 b f m' n')"
  by (fastforce simp: refines_def args2_def bind_eq_Some_conv split: if_splits)

lemma refines_args3 [refines_rules]:
  "refines m m' \<Longrightarrow> refines n n' \<Longrightarrow> refines p p' \<Longrightarrow> refines (args3 b f m n p) (args3 b f m' n' p')"
  by (simp add: args3_def refines_args2)

lemma refines_args4 [refines_rules]:
  "refines m m' \<Longrightarrow> refines n n' \<Longrightarrow> refines p p' \<Longrightarrow> refines q q' \<Longrightarrow>
   refines (args4 b f m n p q) (args4 b f m' n' p' q')"
  by (simp add: args4_def refines_args2 refines_args3)

lemma refines_orNull [refines_rules]: "(\<And>a. x = Some a \<Longrightarrow> refines (f a) (g a)) \<Longrightarrow> refines (orNull f x) (orNull g x)"
  by (cases x) (simp_all add: orNull_def refines_refl refines_args1)

lemma refines_eachIn [refines_rules]: "(\<And>a. a \<in> set xs \<Longrightarrow> refines (f a) (g a)) \<Longrightarrow> refines (eachIn f xs) (eachIn g xs)"
  by (induction xs) (simp_all add: refines_refl refines_args2)

lemma refines_prod [refines_rules]:
  "(\<And>a b. x = (a, b) \<Longrightarrow> refines (f a b) (g a b)) \<Longrightarrow> refines (case_prod f x) (case_prod g x)"
  by (cases x) simp

lemma refines_option [refines_rules]:
  "refines m m' \<Longrightarrow> (\<And>a. x = Some a \<Longrightarrow> refines (f a) (g a)) \<Longrightarrow> refines (case_option m f x) (case_option m' g x)"
  by (cases x) simp_all

lemma refinesD: "refines m m' \<Longrightarrow> m s = Some x \<Longrightarrow> m' s = Some x"
  unfolding refines_def by blast

lemma refinesI: "(\<And>s x. m s = Some x \<Longrightarrow> m' s = Some x) \<Longrightarrow> refines m m'"
  by (simp add: refines_def)

definition vle :: "visitor \<Rightarrow> visitor \<Rightarrow> bool" where
  "vle V W \<longleftrightarrow> (\<forall>t. refines (vType V t) (vType W t)) \<and> (\<forall>e. refines (vExpr V e) (vExpr W e)) \<and>
     (\<forall>s. refines (vStmt V s) (vStmt W s)) \<and> (\<forall>d. refines (vDecl V d) (vDecl W d)) \<and>
     (\<forall>i e. refines (vHelper V i e) (vHelper W i e)) \<and> (\<forall>i s. refines (vProcess V i s) (vProcess W i s))"

lemma vleD:
  assumes "vle V W"
  shows "refines (vType V t) (vType W t)" "refines (vExpr V e) (vExpr W e)" "refines (vStmt V s) (vStmt W s)"
    "refines (vDecl V d) (vDecl W d)" "refines (vHelper V i e) (vHelper W i e)" "refines (vProcess V i s) (vProcess W i s)"
  using assms by (simp_all add: vle_def)

lemma visitType_mono: "vle V W \<Longrightarrow> refines (visitType V t) (visitType W t)"
  by (cases t) (auto intro!: refines_rules vleD)

lemma visitExpr_mono: "vle V W \<Longrightarrow> refines (visitExpr V e) (visitExpr W e)"
  by (cases e) (auto simp: visitOperands_def intro!: refines_rules vleD)

lemma visitStmt_mono: "vle V W \<Longrightarrow> refines (visitStmt V s) (visitStmt W s)"
  by (cases s) (auto intro!: refines_rules vleD)

lemma visitDecl_mono: "vle V W \<Longrightarrow> refines (visitDecl V d) (visitDecl W d)"
  by (cases d) (auto intro!: refines_rules vleD)

lemma helper_mono:
  assumes "vle V W"
  shows "refines (expandExprHelper L T V i e) (expandExprHelper L T W i e)"
proof (rule refinesI)
  fix D x
  assume h: "expandExprHelper L T V i e D = Some x"
  show "expandExprHelper L T W i e D = Some x"
  proof (cases "256 < i")
    case True
    then show ?thesis using h by (simp add: expandExprHelper_def)
  next
    case False
    then obtain e1 D1 where v: "vExpr V e D = Some (e1, D1)"
      using h by (auto simp: expandExprHelper_def bind_eq_Some_conv)
    note w = refinesD [OF vleD(2) [OF assms] v]
    have hh: "vHelper V j f E = Some y \<Longrightarrow> vHelper W j f E = Some y" for j f E y
      by (rule refinesD [OF vleD(5) [OF assms]])
    show ?thesis using h False v w
      by (auto simp: expandExprHelper_def bind_eq_Some_conv split: option.splits) (erule hh)
  qed
qed

lemma process_mono:
  assumes "vle V W"
  shows "refines (processStmt L T V i s) (processStmt L T W i s)"
proof -
  have a: "refines (eachIn (orNull (vHelper V 0)) as) (eachIn (orNull (vHelper W 0)) as)"
    "refines (eachIn (vProcess V (Suc i)) ss) (eachIn (vProcess W (Suc i)) ss)" for as ss
    using assms by (auto intro!: refines_rules vleD)
  have b: "refines (args1 (\<lambda>t. [t]) (vStmt V s)) (args1 (\<lambda>t. [t]) (vStmt W s))"
    using assms by (auto intro!: refines_rules vleD)
  show ?thesis
  proof (rule refinesI)
    fix D x
    assume h: "processStmt L T V i s D = Some x"
    note dd = refinesD [OF a(1)] refinesD [OF a(2)] refinesD [OF b]
    show "processStmt L T W i s D = Some x"
    proof (cases "case s of ExpressionStmt e l \<Rightarrow> macroCall T e | _ \<Rightarrow> None")
      case None
      then show ?thesis using h by (auto simp: processStmt_def dest: dd(3) split: if_splits)
    next
      case (Some mal)
      obtain m as l where mal: "mal = (m, as, l)" by (cases mal)
      show ?thesis
      proof (cases "256 < i")
        case True
        then show ?thesis using h by (simp add: processStmt_def)
      next
        case False
        with h Some mal obtain as1 D1 ss tss D2 where
          st: "eachIn (orNull (vHelper V 0)) as D = Some (as1, D1)" "expand L m as1 = Some ss"
          "eachIn (vProcess V (Suc i)) ss D1 = Some (tss, D2)" "x = (concat tss, D2)"
          by (auto simp: processStmt_def bind_eq_Some_conv)
        from False Some mal dd(1) [OF st(1)] st(2) dd(2) [OF st(3)] st(4) show ?thesis
          by (simp add: processStmt_def)
      qed
    qed
  qed
qed

lemma tie_mono: "n \<le> m \<Longrightarrow> vle (tie L T n) (tie L T m)"
proof (induction n arbitrary: m)
  case 0
  then show ?case by (simp add: vle_def refines_fail)
next
  case (Suc n)
  then obtain k where "m = Suc k" "n \<le> k" by (cases m) auto
  with Suc.IH show ?case
    by (auto simp: vle_def Let_def visitType_mono visitExpr_mono visitStmt_mono visitDecl_mono helper_mono process_mono)
qed

lemma module_mono:
  assumes "visitModuleDecl L n M D = Some x" "n \<le> m"
  shows "visitModuleDecl L m M D = Some x"
proof (cases M)
  case (ModuleDecl name ds loc)
  have "refines (eachIn (\<lambda>d. if isMacroDecl d then ret d else vDecl (tie L T n) d) ds)
          (eachIn (\<lambda>d. if isMacroDecl d then ret d else vDecl (tie L T m) d) ds)" for T
    using tie_mono [OF assms(2), of L T] by (auto intro!: refines_rules vleD)
  then have "refines (args1 (\<lambda>ds. ModuleDecl name ds loc) (eachIn (\<lambda>d. if isMacroDecl d then ret d else vDecl (tie L T n) d) ds))
          (args1 (\<lambda>ds. ModuleDecl name ds loc) (eachIn (\<lambda>d. if isMacroDecl d then ret d else vDecl (tie L T m) d) ds))" for T
    by (rule refines_args1)
  then show ?thesis using assms(1) ModuleDecl by (auto simp: bind_eq_Some_conv dest: refinesD)
qed

subsection \<open>Trees without macro calls\<close>

text \<open>\<open>settles m x\<close>: with a large enough bound, \<open>m\<close> returns \<open>x\<close> and reports nothing.\<close>

definition settles :: "(nat \<Rightarrow> ('s, 'a) run) \<Rightarrow> 'a \<Rightarrow> bool" where
  "settles m x \<longleftrightarrow> (\<forall>\<^sub>F n in sequentially. m n = ret x)"

named_theorems settles_rules

lemma args_ret [simp]:
  "args1 f1 (ret a) = ret (f1 a)"
  "args2 b f2 (ret a) (ret c) = ret (f2 a c)"
  "args3 b f3 (ret a) (ret c) (ret d) = ret (f3 a c d)"
  "args4 b f4 (ret a) (ret c) (ret d) (ret e) = ret (f4 a c d e)"
  by (simp_all add: fun_eq_iff args1_def args2_def args3_def args4_def ret_def)

lemma settles_ret [settles_rules]: "settles (\<lambda>n. ret x) x"
  by (simp add: settles_def)

lemma settles_args1 [settles_rules]:
  assumes "settles m a"
  shows "settles (\<lambda>n. args1 f (m n)) (f a)"
  using assms unfolding settles_def by eventually_elim simp

lemma settles_args2 [settles_rules]:
  assumes "settles m a" "settles p c"
  shows "settles (\<lambda>n. args2 b f (m n) (p n)) (f a c)"
  using assms unfolding settles_def by eventually_elim simp

lemma settles_args3 [settles_rules]:
  assumes "settles m a" "settles p c" "settles q d"
  shows "settles (\<lambda>n. args3 b f (m n) (p n) (q n)) (f a c d)"
  using assms unfolding settles_def by eventually_elim simp

lemma settles_args4 [settles_rules]:
  assumes "settles m a" "settles p c" "settles q d" "settles r e"
  shows "settles (\<lambda>n. args4 b f (m n) (p n) (q n) (r n)) (f a c d e)"
  using assms unfolding settles_def by eventually_elim simp

lemma settles_orNull [settles_rules]: "(\<And>a. x = Some a \<Longrightarrow> settles (\<lambda>n. f n a) a) \<Longrightarrow> settles (\<lambda>n. orNull (f n) x) x"
  by (cases x) (auto simp: orNull_def settles_ret intro: settles_args1)

lemma settles_eachIn [settles_rules]: "(\<And>a. a \<in> set xs \<Longrightarrow> settles (\<lambda>n. f n a) a) \<Longrightarrow> settles (\<lambda>n. eachIn (f n) xs) xs"
  by (induction xs) (auto simp: settles_ret intro: settles_args2)

lemma settles_prod [settles_rules]:
  "(\<And>a b. x = (a, b) \<Longrightarrow> settles (\<lambda>n. f n a b) (a, b)) \<Longrightarrow> settles (\<lambda>n. case x of (a, b) \<Rightarrow> f n a b) x"
  by (cases x) auto

lemma settles_prod2 [settles_rules]:
  "(\<And>a b. x = (a, b) \<Longrightarrow> settles (\<lambda>n. f n a b) (c, a, b)) \<Longrightarrow> settles (\<lambda>n. case x of (a, b) \<Rightarrow> f n a b) (c, x)"
  by (cases x) auto

lemma settles_Suc: "settles (\<lambda>n. m (Suc n)) x \<Longrightarrow> settles m x"
  using eventually_sequentially_Suc [of "\<lambda>n. m n = ret x"] by (simp add: settles_def)

text \<open>No macro call, and no class with a null member.\<close>

fun inert :: "macro_table \<Rightarrow> part \<Rightarrow> bool" where
  "inert T (PE e) = (macroCall T e = None)"
| "inert T (PD (ClassDecl n ps ms x k a l)) = (None \<notin> set ms)"
| "inert T p = True"

lemma settles_helper:
  assumes "settles (\<lambda>n. vExpr (tie L T n) e) e" "macroCall T e = None"
  shows "settles (\<lambda>n. vHelper (tie L T n) 0 e) e"
proof (rule settles_Suc)
  have "expandExprHelper L T (tie L T n) 0 e = ret e" if "vExpr (tie L T n) e = ret e" for n
    using that assms(2) by (simp add: fun_eq_iff expandExprHelper_def ret_def)
  with assms(1) show "settles (\<lambda>n. vHelper (tie L T (Suc n)) 0 e) e"
    by (auto simp: settles_def Let_def elim!: eventually_mono)
qed

lemma settles_process:
  assumes "settles (\<lambda>n. vStmt (tie L T n) s) s" "list_all (inert T) (partsS s)"
  shows "settles (\<lambda>n. vProcess (tie L T n) 0 s) [s]"
proof (rule settles_Suc)
  have "(case s of ExpressionStmt e l \<Rightarrow> macroCall T e | _ \<Rightarrow> None) = None"
  proof (cases s)
    case (ExpressionStmt e l)
    then show ?thesis using assms(2) by (cases e) auto
  qed auto
  then have "processStmt L T (tie L T n) 0 s = ret [s]" if "vStmt (tie L T n) s = ret s" for n
    using that by (simp add: fun_eq_iff processStmt_def args1_def ret_def)
  with assms(1) show "settles (\<lambda>n. vProcess (tie L T (Suc n)) 0 s) [s]"
    by (auto simp: settles_def Let_def elim!: eventually_mono)
qed

abbreviation calm :: "macro_table \<Rightarrow> part list \<Rightarrow> bool" where
  "calm T \<equiv> list_all (inert T)"

lemma settles_goals:
  "calm T (partsT t) \<Longrightarrow> settles (\<lambda>n. vType (tie L T n) t) t \<Longrightarrow> settles (\<lambda>n. vType (tie L T n) t) t"
  "calm T (partsE e) \<Longrightarrow> settles (\<lambda>n. vExpr (tie L T n) e) e \<Longrightarrow> settles (\<lambda>n. vExpr (tie L T n) e) e"
  "calm T (partsS s) \<Longrightarrow> settles (\<lambda>n. vStmt (tie L T n) s) s \<Longrightarrow> settles (\<lambda>n. vStmt (tie L T n) s) s"
  "calm T (partsD d) \<Longrightarrow> settles (\<lambda>n. vDecl (tie L T n) d) d \<Longrightarrow> settles (\<lambda>n. vDecl (tie L T n) d) d"
  by assumption+

lemma calm_call: "calm T (partsE e) \<Longrightarrow> macroCall T e = None"
  by (cases e) auto

lemma settles_helperI:
  "calm T (partsE e) \<Longrightarrow> settles (\<lambda>n. vExpr (tie L T n) e) e \<Longrightarrow> settles (\<lambda>n. vHelper (tie L T n) 0 e) e"
  by (simp add: settles_helper calm_call)

lemma settles_block:
  assumes "\<And>s. s \<in> set ss \<Longrightarrow> calm T (partsS s)" "\<And>s. s \<in> set ss \<Longrightarrow> settles (\<lambda>n. vStmt (tie L T n) s) s"
  shows "settles (\<lambda>n. args1 (\<lambda>tss. F (concat tss)) (eachIn (vProcess (tie L T n) 0) ss)) (F ss)"
proof -
  have "settles (\<lambda>n. eachIn (vProcess (tie L T n) 0) ss) (map (\<lambda>s. [s]) ss)"
    using assms by (induction ss) (auto simp: settles_ret intro!: settles_args2 settles_process)
  then have "settles (\<lambda>n. args1 (\<lambda>tss. F (concat tss)) (eachIn (vProcess (tie L T n) 0) ss)) (F (concat (map (\<lambda>s. [s]) ss)))"
    by (rule settles_args1)
  then show ?thesis by simp
qed

lemma settles_members [settles_rules]:
  assumes "None \<notin> set ms" "\<And>d. Some d \<in> set ms \<Longrightarrow> settles (\<lambda>n. vDecl (tie L T n) d) d"
  shows "settles (\<lambda>n. eachIn (\<lambda>m. case m of None \<Rightarrow> (\<lambda>D. None) | Some d \<Rightarrow> args1 Some (vDecl (tie L T n) d)) ms) ms"
proof (rule settles_eachIn)
  fix m
  assume "m \<in> set ms"
  with assms obtain d where "m = Some d" "settles (\<lambda>n. vDecl (tie L T n) d) d" by (cases m) auto
  then show "settles (\<lambda>n. case m of None \<Rightarrow> (\<lambda>D. None) | Some d \<Rightarrow> args1 Some (vDecl (tie L T n) d)) m"
    by (auto intro: settles_args1)
qed

lemma tree_settles:
  shows "calm T (partsT t) \<Longrightarrow> settles (\<lambda>n. vType (tie L T n) t) t"
    and "calm T (partsE e) \<Longrightarrow> settles (\<lambda>n. vExpr (tie L T n) e) e"
    and "calm T (partsS s) \<Longrightarrow> settles (\<lambda>n. vStmt (tie L T n) s) s"
    and "calm T (partsD d) \<Longrightarrow> settles (\<lambda>n. vDecl (tie L T n) d) d"
proof (induction t and e and s and d rule: partsT_partsE_partsS_partsD.induct)
qed ((rule settles_Suc,
     simp only: tie.simps Let_def visitor.simps visitType.simps visitExpr.simps visitStmt.simps visitDecl.simps visitOperands_def
       partsT.simps partsE.simps partsS.simps partsD.simps list_all_append list_all_concat_map list_all_optl
       list_all_case_prod list.pred_inject inert.simps simp_thms;
     ((rule settles_goals settles_helperI; fastforce simp: list_all_iff)
       | (rule settles_block settles_members; fastforce simp: list_all_iff)
       | rule settles_rules)+)[1])+

end
