(* ===== verification/MacroSubst.thy ===== *)
theory MacroSubst
  imports MacroProps
begin

text \<open>What substitution does to a macro's arguments and locals.\<close>

lemma findArg_index: "findArg K n = Some (i, a) \<Longrightarrow> i < length (k_params K) \<and> k_params K ! i = n"
  by (auto simp: findArg_def find_Some_iff split: option.splits)

lemma length_erase: "i < length xs \<Longrightarrow> length (erase i xs) < length xs"
  by (simp add: erase_def)

lemma agreeI:
  assumes "\<And>n l. cloneIdentifier K n l = cloneIdentifier J n l" "\<And>n. declName K n = declName J n"
  shows "agree K J p"
proof (cases p)
  case (PE e)
  then show ?thesis using assms by (cases e) auto
qed (use assms in auto)

lemma argAt_mkCloner: "argAt (mkCloner L h args n ps) = (\<lambda>i. if i < length args then args ! i else None)"
  by (simp add: fun_eq_iff argAt_def)

lemma findArg_mkCloner: "findArg (mkCloner L h args n ps) = findArg (mkCloner L h args m ps)"
  unfolding findArg_def argAt_mkCloner mkCloner_simps ..

lemma declName_mkCloner: "declName (mkCloner L h args n ps) = declName (mkCloner L h args m ps)"
  unfolding declName_def declNameStep_def argAt_mkCloner mkCloner_simps ..

lemma findArg_avoids: "n \<notin> set (k_params K) \<Longrightarrow> findArg K n = None"
  by (cases "findArg K n") (auto dest!: findArg_index)

lemma cloneIdentifier_eqI:
  assumes "findArg K x = findArg J x" "k_hygiene K = k_hygiene J"
    and "\<And>i a. findArg J x = Some (i, a) \<Longrightarrow> k_fresh K (erase i (k_params K)) a = k_fresh J (erase i (k_params J)) a"
  shows "cloneIdentifier K x l = cloneIdentifier J x l"
  using assms by (intro ext) (auto simp: cloneIdentifier_def split: option.splits)

lemma clone_agree_all:
  assumes "\<And>n l. cloneIdentifier K n l = cloneIdentifier J n l" "\<And>n. declName K n = declName J n"
    and "k_hygiene K = k_hygiene J" "k_lib K = k_lib J"
  shows "cloneExpr K e = cloneExpr J e"
  using agreeI [of K J, OF assms(1,2)] assms(3,4) by (intro clone_agree(2)) (auto simp: list_all_iff)

text \<open>As many nested substituters as there are parameters are enough.\<close>

lemma mkCloner_enough:
  "length ps \<le> n \<Longrightarrow> length ps \<le> m \<Longrightarrow>
   cloneExpr (mkCloner L h args n ps) e = cloneExpr (mkCloner L h args m ps) e"
proof (induction n arbitrary: m ps e)
  case 0
  then have "cloneIdentifier (mkCloner L h args 0 ps) x l = cloneIdentifier (mkCloner L h args m ps) x l" for x l
    using 0 findArg_mkCloner [of L h args 0 ps m] findArg_avoids [of x "mkCloner L h args m ps"]
    by (intro cloneIdentifier_eqI) (simp_all only: mkCloner_simps, simp)
  then show ?case
    by (rule clone_agree_all) (simp_all only: declName_mkCloner [of L h args 0 ps m] mkCloner_simps)
next
  case (Suc n)
  have "cloneIdentifier (mkCloner L h args (Suc n) ps) x l = cloneIdentifier (mkCloner L h args m ps) x l" for x l
  proof (rule cloneIdentifier_eqI)
    fix i a
    assume "findArg (mkCloner L h args m ps) x = Some (i, a)"
    then have i: "i < length ps" using findArg_index [of "mkCloner L h args m ps"] by auto
    with Suc.prems obtain k where k: "m = Suc k" by (cases m) auto
    have "cloneExpr (mkCloner L h args n (erase i ps)) a = cloneExpr (mkCloner L h args k (erase i ps)) a"
      using Suc.prems length_erase [OF i] k by (intro Suc.IH) auto
    then show "k_fresh (mkCloner L h args (Suc n) ps) (erase i (k_params (mkCloner L h args (Suc n) ps))) a =
        k_fresh (mkCloner L h args m ps) (erase i (k_params (mkCloner L h args m ps))) a"
      using k by simp
  qed (simp_all only: findArg_mkCloner [of L h args "Suc n" ps m] mkCloner_simps)
  then show ?case
    by (rule clone_agree_all) (simp_all only: declName_mkCloner [of L h args "Suc n" ps m] mkCloner_simps)
qed

text \<open>A node that names none of \<open>ps\<close>.\<close>

fun avoids :: "string list \<Rightarrow> part \<Rightarrow> bool" where
  "avoids ps (PE (IdentifierExpr n l)) = (n \<notin> set ps)"
| "avoids ps (PD d) = (decl_getName d \<notin> set ps)"
| "avoids ps p = True"

lemma declName_avoids:
  assumes "n \<notin> set (k_params K)"
  shows "declName K n = (n, False)"
proof -
  have "\<forall>i\<in>set is. i < length (k_params K) \<Longrightarrow> foldl (declNameStep K) (n, False) is = (n, False)" for "is"
  proof (induction "is")
    case (Cons i js)
    then have "declNameStep K (n, False) i = (n, False)"
      using assms by (auto simp: declNameStep_def)
    then show ?case using Cons by simp
  qed simp
  then show ?thesis by (simp add: declName_def)
qed

lemma clone_avoids:
  assumes "list_all (avoids ps) (partsE e)"
  shows "cloneExpr (mkCloner L h args n ps) e = cloneExpr (mkCloner L h [] 0 []) e"
proof (rule clone_agree(2))
  have "agree (mkCloner L h args n ps) (mkCloner L h [] 0 []) p" if "avoids ps p" for p
  proof (cases p)
    case (PE x)
    then show ?thesis using that
      by (cases x) (auto simp: findArg_avoids intro!: cloneIdentifier_eqI)
  next
    case (PD d)
    then show ?thesis using that by (auto simp: declName_avoids)
  qed simp
  then show "list_all (agree (mkCloner L h args n ps) (mkCloner L h [] 0 [])) (partsE e)"
    using assms by (auto simp: list_all_iff)
qed simp

lemma in_erase: "x \<in> set (erase i xs) \<Longrightarrow> x \<in> set xs"
  by (auto simp: erase_def dest: in_set_takeD in_set_dropD)

lemma findArg_nth:
  assumes "i < length ps" "distinct ps" "i < length args" "args ! i = Some a"
  shows "findArg (mkCloner L h args n ps) (ps ! i) = Some (i, a)"
proof -
  have "List.find (\<lambda>j. ps ! j = ps ! i \<and> argAt (mkCloner L h args n ps) j \<noteq> None) [0..<length ps] = Some i"
    using assms by (auto simp: find_Some_iff argAt_def nth_eq_iff_index_eq intro!: exI [of _ i])
  then show ?thesis using assms by (simp add: findArg_def argAt_def)
qed

lemma argument_clone:
  assumes "i < length ps" "distinct ps" "length args = length ps" "args ! i = Some a"
    and "list_all (avoids ps) (partsE a)" "h \<Longrightarrow> r (ps ! i) = None"
  shows "cloneExpr (MacroSubstituter L ps args h) (IdentifierExpr (ps ! i) l) r =
     map_option (\<lambda>x. (x, r)) (map_option fst (cloneExpr (MacroSubstituter L [] [] h) a Map.empty))"
proof -
  obtain k where k: "length ps = Suc k" using assms(1) by (cases "length ps") auto
  have "list_all (avoids (erase i ps)) (partsE a)"
  proof -
    have "avoids ps p \<Longrightarrow> avoids (erase i ps) p" for p
      by (induction ps p rule: avoids.induct) (auto dest: in_erase)
    then show ?thesis using assms(5) by (auto simp: list_all_iff)
  qed
  from clone_avoids [OF this] k
  have fresh: "k_fresh (MacroSubstituter L ps args h) (erase i ps) a =
      map_option fst (cloneExpr (MacroSubstituter L [] [] h) a Map.empty)"
    by (simp add: MacroSubstituter_def)
  have "findArg (MacroSubstituter L ps args h) (ps ! i) = Some (i, a)"
    using findArg_nth [of i ps args a] assms by (simp add: MacroSubstituter_def)
  moreover have "(if h then r (ps ! i) else None) = None" using assms(6) by simp
  moreover have "k_params (MacroSubstituter L ps args h) = ps" "k_hygiene (MacroSubstituter L ps args h) = h"
    by (simp_all add: MacroSubstituter_def)
  ultimately show ?thesis
    using fresh by (cases "map_option fst (cloneExpr (MacroSubstituter L [] [] h) a Map.empty)")
      (auto simp: cloneIdentifier_def)
qed

subsection \<open>Examples\<close>

definition plainMacros :: mlib where
  "plainMacros = \<lparr>ml_address = (\<lambda>d. decl_getLoc d), ml_argsRightToLeft = False\<rparr>"

definition tmpDecl :: decl where
  "tmpDecl = VariableDecl (Some (PrimitiveTy S_I32 1)) ''t'' (Some (IdentifierExpr ''a'' 2))
     (mkVarAttrs False False None V_Default) 3"

text \<open>\<open>macro swap(a, b) { int t = a; a = b; b = t; }\<close>\<close>

definition swapBody :: "stmt list" where
  "swapBody = [DeclStmt (Some tmpDecl) 4,
     ExpressionStmt (BinaryExpr (Some (IdentifierExpr ''a'' 5)) (AssignOp Equal) (Some (IdentifierExpr ''b'' 6)) 7) 8,
     ExpressionStmt (BinaryExpr (Some (IdentifierExpr ''b'' 9)) (AssignOp Equal) (Some (IdentifierExpr ''t'' 10)) 11) 12]"

definition swapped :: "stmt list" where
  "swapped = [DeclStmt (Some (VariableDecl (Some (PrimitiveTy S_I32 1)) ''t_h3'' (Some (IdentifierExpr ''t'' 20))
        (mkVarAttrs False False None V_Default) 3)) 4,
     ExpressionStmt (BinaryExpr (Some (IdentifierExpr ''t'' 20)) (AssignOp Equal) (Some (IdentifierExpr ''y'' 21)) 7) 8,
     ExpressionStmt (BinaryExpr (Some (IdentifierExpr ''y'' 21)) (AssignOp Equal) (Some (IdentifierExpr ''t_h3'' 10)) 11) 12]"

lemma swap_expands:
  "expand plainMacros (FunctionMacro ''swap'' [''a'', ''b''] swapBody 0)
     [Some (IdentifierExpr ''t'' 20), Some (IdentifierExpr ''y'' 21)] = Some swapped"
  by code_simp

subsection \<open>Properties\<close>

text \<open>
  C5: Hygiene.  Every variable that an expansion declares, however deep in it, has a generated name
  (\<open>name_h<address>\<close>) or the name of an identifier that was passed as an argument: an expansion declares
  no name of the macro's author in the scope of its user.
\<close>

theorem expansion_hygienic:
  assumes "expand L m args = Some ss" "s \<in> set ss"
    and "PD (VariableDecl t n e a l) \<in> set (partsS s)"
  shows "(\<exists>x d. n = x @ ''_h'' @ to_string (ml_address L d)) \<or> (\<exists>k. Some (IdentifierExpr n k) \<in> set args)"
  using expand_parts [OF assms] by (auto simp: uniqueName_def)

theorem expansion_hygienic_witness:
  "(\<exists>x d. ''t_h3'' = x @ ''_h'' @ to_string (ml_address plainMacros d)) \<or>
   (\<exists>k. Some (IdentifierExpr ''t_h3'' k) \<in> set [Some (IdentifierExpr ''t'' 20), Some (IdentifierExpr ''y'' 21)])"
  using expansion_hygienic [OF swap_expands, of "hd swapped" "Some (PrimitiveTy S_I32 1)" "''t_h3''"
      "Some (IdentifierExpr ''t'' 20)" "mkVarAttrs False False None V_Default" 3]
  by (simp add: swapped_def)

text \<open>
  What an expansion loses.  No expansion contains an \<open>unsafe\<close> block (it has become a block), a
  function, class or enum declaration (it has become null), a numeric suffix or a template string.
\<close>

theorem expansion_loses:
  assumes "expand L m args = Some ss" "s \<in> set ss" "p \<in> set (partsS s)"
  shows "(case p of
       PS (UnsafeBlockStmt us l) \<Rightarrow> False
     | PD (FunctionDecl f ps r b at l) \<Rightarrow> False
     | PD (ClassDecl f ps ms x k at l) \<Rightarrow> False
     | PD (EnumDecl f cs l) \<Rightarrow> False
     | PE (IntegerLit v suffix l) \<Rightarrow> suffix = NS_None
     | PE (FloatLit v suffix l) \<Rightarrow> suffix = NS_None
     | PE (StringExpr (StringLit str template l)) \<Rightarrow> \<not> template
     | _ \<Rightarrow> True)"
  using expand_parts [OF assms]
  by (auto split: part.splits stmt.splits decl.splits expr.splits string_literal.splits)

theorem expansion_loses_witness:
  "expand plainMacros (FunctionMacro ''m'' [] [UnsafeBlockStmt [] 1, ExpressionStmt (IntegerLit 5 NS_u8 2) 3] 0) [] =
     Some [BlockStmt [] 1, ExpressionStmt (IntegerLit 5 NS_None 2) 3] \<and> NS_None \<noteq> NS_u8"
proof -
  have e: "expand plainMacros (FunctionMacro ''m'' [] [UnsafeBlockStmt [] 1, ExpressionStmt (IntegerLit 5 NS_u8 2) 3] 0) [] =
      Some [BlockStmt [] 1, ExpressionStmt (IntegerLit 5 NS_None 2) 3]"
    by code_simp
  from expansion_loses [OF e, of "ExpressionStmt (IntegerLit 5 NS_None 2) 3" "PE (IntegerLit 5 NS_None 2)"] e
  show ?thesis by simp
qed

text \<open>
  C19: Substitution.  Where the body names a parameter that is not hidden by a local of the macro, the
  expansion has the argument that was passed in its position, as the plain copy of it - provided the
  argument itself mentions no parameter of the macro.
\<close>

theorem argument_inserted:
  assumes "i < length ps" "distinct ps" "length args = length ps" "args ! i = Some a"
    and "list_all (avoids ps) (partsE a)" "r (ps ! i) = None"
  shows "cloneExpr (MacroSubstituter L ps args True) (IdentifierExpr (ps ! i) l) r =
     map_option (\<lambda>x. (x, r)) (map_option fst (cloneExpr (MacroSubstituter L [] [] True) a Map.empty))"
  using argument_clone [OF assms(1-5)] assms(6) by blast

theorem argument_inserted_witness:
  "cloneExpr (MacroSubstituter plainMacros [''a'', ''b''] [Some (IdentifierExpr ''x'' 1), Some (IdentifierExpr ''y'' 2)] True)
     (IdentifierExpr ''b'' 5) Map.empty = Some (IdentifierExpr ''y'' 2, Map.empty)"
proof -
  have "cloneExpr (MacroSubstituter plainMacros [] [] True) (IdentifierExpr ''y'' 2) Map.empty =
      Some (IdentifierExpr ''y'' 2, Map.empty)"
    by (simp add: MacroSubstituter_def cloneIdentifier_def findArg_def)
  then show ?thesis
    using argument_inserted [of 1 "[''a'', ''b'']" "[Some (IdentifierExpr ''x'' 1), Some (IdentifierExpr ''y'' 2)]"
        "IdentifierExpr ''y'' 2" Map.empty plainMacros 5]
    by simp
qed

text \<open>
  An argument that is a variable with the name of an earlier parameter is replaced by the argument
  of that parameter: for \<open>macro f(p, q) { p op q }\<close> the call \<open>f(v, p)\<close> expands to \<open>v op v\<close>.  The copy of an
  argument is substituted again, with the parameter removed from the list but its argument left in
  place, so that the remaining parameters are paired with the wrong arguments.
\<close>

theorem argument_captured:
  assumes "p \<noteq> q"
  shows "expand L (FunctionMacro f [p, q]
      [ExpressionStmt (BinaryExpr (Some (IdentifierExpr p i)) op (Some (IdentifierExpr q j)) k) m] l)
      [Some (IntegerLit v NS_None a), Some (IdentifierExpr p b)] =
    Some [ExpressionStmt (BinaryExpr (Some (IntegerLit v NS_None a)) op (Some (IntegerLit v NS_None a)) k) m]"
  using assms by (cases "ml_argsRightToLeft L")
    (simp_all add: function_expand_def MacroSubstituter_def cloneIdentifier_def findArg_def argAt_def erase_def upt_rec
      args1_def args2_def orNull_def ret_def numeral_2_eq_2)

theorem argument_captured_witness:
  "expand plainMacros (FunctionMacro ''add'' [''a'', ''b'']
      [ExpressionStmt (BinaryExpr (Some (IdentifierExpr ''a'' 1)) (MathOp Plus) (Some (IdentifierExpr ''b'' 2)) 3) 4] 0)
      [Some (IntegerLit 1 NS_None 5), Some (IdentifierExpr ''a'' 6)] =
    Some [ExpressionStmt (BinaryExpr (Some (IntegerLit 1 NS_None 5)) (MathOp Plus) (Some (IntegerLit 1 NS_None 5)) 3) 4]"
  using argument_captured [of "''a''" "''b''"] by simp

definition loopDecl :: "string \<Rightarrow> decl" where
  "loopDecl name = VariableDecl (Some (PrimitiveTy S_I32 1)) name (Some (IntegerLit 0 NS_None 2))
     (mkVarAttrs False False None V_Default) 3"

text \<open>
  A loop \<open>for (int i = 0; i; ) {}\<close> in a macro.  The declaration of \<open>i\<close> is renamed; its use in the
  condition is renamed with it only if the compiler evaluates the arguments of the call that makes the
  copy from left to right.  Evaluated from right to left, the loop of the expansion tests the \<open>i\<close> of the
  macro's user.
\<close>

theorem for_loop_renaming:
  "expand L (FunctionMacro f []
      [ForStmt (Some (DeclStmt (Some (loopDecl i)) 4)) (Some (IdentifierExpr i 5)) None (Some (BlockStmt [] 6)) 7] l) [] =
    Some [ForStmt (Some (DeclStmt (Some (loopDecl (uniqueName L i (loopDecl i)))) 4))
        (Some (IdentifierExpr (if ml_argsRightToLeft L then i else uniqueName L i (loopDecl i)) 5)) None
        (Some (BlockStmt [] 6)) 7]"
  by (cases "ml_argsRightToLeft L")
    (simp_all add: function_expand_def MacroSubstituter_def cloneIdentifier_def findArg_def variableName_def declName_def
      loopDecl_def deref_def ifset_def cloneVarAttrs_def mkVarAttrs_def
      args1_def args2_def args3_def args4_def orNull_def ret_def)

end
