(* ===== verification/MacroRecursion.thy ===== *)
theory MacroRecursion
  imports MacroFuel MacroSubst
begin

text \<open>
  Recursive macros: a macro that is a statement of its own body stops at depth 257 with one error; a
  macro called in an argument of its own body is expanded for ever, because the depth is counted from 0
  again in every argument.
\<close>

lemma run_simps:
  "args1 f m D = (case m D of None \<Rightarrow> None | Some (a, D1) \<Rightarrow> Some (f a, D1))"
  "args2 False g m p D = (case m D of None \<Rightarrow> None | Some (a, D1) \<Rightarrow> (case p D1 of None \<Rightarrow> None | Some (b, D2) \<Rightarrow> Some (g a b, D2)))"
  by (auto simp: args1_def args2_def split: option.splits)

lemma eachIn_length: "eachIn f xs D = Some (ys, D') \<Longrightarrow> length ys = length xs"
  by (induction xs arbitrary: ys D D') (auto simp: ret_def run_simps split: option.splits)

lemma vProcess_Suc [simp]: "vProcess (tie L T (Suc n)) = processStmt L T (tie L T n)"
  and vHelper_Suc [simp]: "vHelper (tie L T (Suc n)) = expandExprHelper L T (tie L T n)"
  and vExpr_Suc [simp]: "vExpr (tie L T (Suc n)) = visitExpr (tie L T n)"
  and vStmt_Suc [simp]: "vStmt (tie L T (Suc n)) = visitStmt (tie L T n)"
  and vDecl_Suc [simp]: "vDecl (tie L T (Suc n)) = visitDecl (tie L T n)"
  by (simp_all add: Let_def)

lemma tie_0 [simp]: "vHelper (tie L T 0) i e D = None" "vExpr (tie L T 0) e D = None" "vDecl (tie L T 0) d D = None"
  "vStmt (tie L T 0) s D = None" "vProcess (tie L T 0) i s D = None"
  by simp_all

declare tie.simps [simp del]

subsection \<open>A statement of its own body\<close>

definition selfCall :: "string \<Rightarrow> ptr \<Rightarrow> stmt" where
  "selfCall f l = ExpressionStmt (CallExpr (IdentifierExpr f l) [] l) l"

lemma expand_self: "expand L (FunctionMacro f [] [selfCall f l] k) [] = Some [selfCall f l]"
  by (simp add: function_expand_def MacroSubstituter_def selfCall_def cloneIdentifier_def findArg_def
      args1_def args2_def ret_def)

lemma process_self:
  assumes "T f = Some (FunctionMacro f [] [selfCall f l] k)"
  shows "257 - i < n \<Longrightarrow> i \<le> 257 \<Longrightarrow>
    vProcess (tie L T n) i (selfCall f l) D = Some ([selfCall f l], report D l err_type_mismatch depthMessage)"
proof (induction n arbitrary: i)
  case (Suc n)
  show ?case
  proof (cases "256 < i")
    case True
    then show ?thesis by (simp add: processStmt_def selfCall_def)
  next
    case False
    then have ih: "vProcess (tie L T n) (Suc i) (selfCall f l) D =
        Some ([selfCall f l], report D l err_type_mismatch depthMessage)"
      using Suc by auto
    have mc: "(case selfCall f l of ExpressionStmt e l \<Rightarrow> macroCall T e | _ \<Rightarrow> None) =
        Some (FunctionMacro f [] [selfCall f l] k, [], l)"
      using assms by (simp add: selfCall_def macro_lookup_def)
    show ?thesis using False
      by (simp only: vProcess_Suc processStmt_def mc) (simp add: ret_def expand_self ih run_simps del: expand.simps)
  qed
qed simp

subsection \<open>An argument of its own body\<close>

definition nestedBody :: "string \<Rightarrow> string \<Rightarrow> string \<Rightarrow> ptr \<Rightarrow> stmt list" where
  "nestedBody g f x l =
     [ExpressionStmt (CallExpr (IdentifierExpr g l) [Some (CallExpr (IdentifierExpr f l) [Some (IdentifierExpr x l)] l)] l) l]"

definition nestedCall :: "string \<Rightarrow> string \<Rightarrow> ptr \<Rightarrow> ptr \<Rightarrow> expr" where
  "nestedCall f y k l = CallExpr (IdentifierExpr f l) [Some (IdentifierExpr y k)] l"

lemma expand_nested:
  assumes "g \<noteq> x" "f \<noteq> x"
  shows "expand L (FunctionMacro f [x] (nestedBody g f x l) j) [Some (IdentifierExpr y k)] =
    Some [ExpressionStmt (CallExpr (IdentifierExpr g l) [Some (nestedCall f y k l)] l) l]"
  using assms
  by (simp add: function_expand_def MacroSubstituter_def nestedBody_def nestedCall_def cloneIdentifier_def findArg_def
      argAt_def erase_def upt_rec args1_def args2_def ret_def orNull_def)

lemma helper_nested:
  assumes T: "T f = Some (FunctionMacro f [x] (nestedBody g f x l) j)" "T g = None" and ne: "g \<noteq> x" "f \<noteq> x"
  shows "vHelper (tie L T n) 0 (nestedCall f y k m) D = None"
proof (induction n arbitrary: D m rule: less_induct)
  case (less n)
  show ?case
  proof (rule ccontr)
    assume "vHelper (tie L T n) 0 (nestedCall f y k m) D \<noteq> None"
    then obtain r where r: "vHelper (tie L T n) 0 (nestedCall f y k m) D = Some r" by blast
    then obtain n1 where n1: "n = Suc n1" by (cases n) auto
    from r n1 obtain e1 D1 where e1: "vExpr (tie L T n1) (nestedCall f y k m) D = Some (e1, D1)"
      by (auto simp: expandExprHelper_def bind_eq_Some_conv)
    then obtain n2 where n2: "n1 = Suc n2" by (cases n1) auto
    have "e1 = nestedCall f y k m"
      using e1 n2
      by (cases n2) (auto simp: nestedCall_def run_simps orNull_def ret_def expandExprHelper_def bind_eq_Some_conv
          split: option.splits, (case_tac nat; auto simp: ret_def)+)
    then have r1: "vHelper (tie L T n1) 1 (CallExpr (IdentifierExpr g l) [Some (nestedCall f y k l)] l) D1 = Some r"
      using r n1 e1 expand_nested [OF ne, of L l j y k] T(1)
      by (simp add: expandExprHelper_def macro_lookup_def nestedCall_def replaceCall_def deref_def each_def del: expand.simps)
    then obtain e2 D2 where "vExpr (tie L T n2) (CallExpr (IdentifierExpr g l) [Some (nestedCall f y k l)] l) D1 = Some (e2, D2)"
      using n2 by (auto simp: expandExprHelper_def bind_eq_Some_conv)
    then show False
      using less [of "n2 - 1"] n1 n2
      by (cases n2) (auto simp: run_simps orNull_def split: option.splits)
  qed
qed

lemma cloneBody_nested:
  "cloneBody L (nestedBody g f x l) = Some (nestedBody g f x l)"
  by (simp add: cloneBody_def MacroSubstituter_def nestedBody_def cloneIdentifier_def findArg_def args1_def args2_def ret_def orNull_def)

lemma cloneBody_self: "cloneBody L [selfCall f l] = Some [selfCall f l]"
  by (simp add: cloneBody_def MacroSubstituter_def selfCall_def cloneIdentifier_def findArg_def args1_def args2_def ret_def orNull_def)

lemma helper_wrong_count:
  assumes T: "macro_lookup T f = Some (FunctionMacro f ps b l)" and ps: "ps \<noteq> []"
  shows "259 - i < n \<Longrightarrow> i \<le> 257 \<Longrightarrow> vHelper (tie L T n) i (CallExpr (IdentifierExpr f k) [] c) D =
     Some (CallExpr (IdentifierExpr f k) [] c, report D c err_type_mismatch depthMessage)"
proof (induction n arbitrary: i)
  case (Suc n)
  show ?case
  proof (cases "256 < i")
    case True
    then show ?thesis by (simp add: expandExprHelper_def)
  next
    case False
    then obtain n1 where n: "n = Suc (Suc n1)" using Suc.prems by (cases n; cases "n - 1") auto
    have "vHelper (tie L T n) (Suc i) (CallExpr (IdentifierExpr f k) [] c) D =
       Some (CallExpr (IdentifierExpr f k) [] c, report D c err_type_mismatch depthMessage)"
      using Suc False by auto
    then show ?thesis using False T ps n
      by (simp add: expandExprHelper_def run_simps ret_def function_expand_def replaceCall_def)
  qed
qed simp

lemma settles_bound: "settles m x \<Longrightarrow> \<exists>n. \<forall>k\<ge>n. m k = ret x"
  by (simp add: settles_def eventually_sequentially)

subsection \<open>Properties\<close>

text \<open>
  A macro whose body is a call of itself, called as a statement, is expanded 257 times; then one
  error is reported and the call is left in the program.
\<close>

theorem self_call_stops:
  assumes "262 \<le> n"
    and "M = ModuleDecl name [MacroDecl f [] [selfCall f l] True k,
           FunctionDecl main [] t (Some (BlockStmt [selfCall f l] b)) a m] loc"
  shows "visitModuleDecl L n M D = Some (M, report D l err_type_mismatch depthMessage)"
proof -
  define T where "T = [f \<mapsto> FunctionMacro f [] [selfCall f l] k]"
  obtain n1 where n: "n = Suc (Suc n1)" "258 < n1" using assms(1) by (cases n; cases "n - 1") auto
  have "registerMacros L Map.empty [MacroDecl f [] [selfCall f l] True k,
      FunctionDecl main [] t (Some (BlockStmt [selfCall f l] b)) a m] = Some T"
    by (simp add: registerDecl_def cloneBody_self addMacro_def T_def)
  moreover have "vProcess (tie L T n1) 0 (selfCall f l) D = Some ([selfCall f l], report D l err_type_mismatch depthMessage)"
    using n by (intro process_self [of T f l k]) (auto simp: T_def)
  ultimately show ?thesis using n assms(2) by (simp add: run_simps ret_def orNull_def)
qed

theorem self_call_stops_witness:
  "visitModuleDecl plainMacros 300 (ModuleDecl ''m'' [MacroDecl ''f'' [] [selfCall ''f'' 1] True 2,
       FunctionDecl ''main'' [] (PrimitiveTy S_Void 3) (Some (BlockStmt [selfCall ''f'' 1] 4))
         (mkFunAttrs False False False False V_Default) 5] 6) DiagnosticEngine =
     Some (ModuleDecl ''m'' [MacroDecl ''f'' [] [selfCall ''f'' 1] True 2,
       FunctionDecl ''main'' [] (PrimitiveTy S_Void 3) (Some (BlockStmt [selfCall ''f'' 1] 4))
         (mkFunAttrs False False False False V_Default) 5] 6, report DiagnosticEngine 1 err_type_mismatch depthMessage)"
  by (rule self_call_stops [OF _ refl]) simp

text \<open>
  C31: A macro that is called in an argument of its own body (\<open>macro f(x) { g(f(x)); }\<close>) is expanded for
  ever: the depth that is limited to 256 starts at 0 again in every argument, so no bound on the
  recursion is enough.
\<close>

theorem nested_call_never_ends:
  assumes "g \<noteq> x" "f \<noteq> x" "g \<noteq> f"
  shows "visitModuleDecl L n (ModuleDecl name [MacroDecl f [x] (nestedBody g f x l) True j,
      VariableDecl t v (Some (nestedCall f y k m)) a p] loc) D = None"
proof -
  define T where "T = [f \<mapsto> FunctionMacro f [x] (nestedBody g f x l) j]"
  have T: "T f = Some (FunctionMacro f [x] (nestedBody g f x l) j)" "T g = None"
    using assms by (simp_all add: T_def)
  have "registerMacros L Map.empty [MacroDecl f [x] (nestedBody g f x l) True j,
      VariableDecl t v (Some (nestedCall f y k m)) a p] = Some T"
    by (simp add: registerDecl_def cloneBody_nested addMacro_def T_def)
  moreover have "vDecl (tie L T n) (VariableDecl t v (Some (nestedCall f y k m)) a p) D = None"
    using helper_nested [OF T assms(1,2)] by (cases n) (simp_all add: run_simps orNull_def)
  ultimately show ?thesis by (simp add: run_simps ret_def)
qed

theorem nested_call_never_ends_witness:
  "visitModuleDecl plainMacros 1000 (ModuleDecl ''m'' [MacroDecl ''f'' [''x''] (nestedBody ''g'' ''f'' ''x'' 1) True 2,
      VariableDecl (Some (PrimitiveTy S_I32 3)) ''v'' (Some (nestedCall ''f'' ''y'' 4 5))
        (mkVarAttrs False False None V_Default) 6] 7) DiagnosticEngine = None"
  by (rule nested_call_never_ends) simp_all

text \<open>
  A macro call with the wrong number of arguments, used as a statement, disappears from the program
  and nothing is reported beyond what the expansion of its arguments reports.
\<close>

theorem wrong_count_dropped:
  assumes "macro_lookup T f = Some (FunctionMacro f ps b l)" "length as \<noteq> length ps"
    and "eachIn (orNull (vHelper V 0)) as D = Some (as1, D1)"
  shows "processStmt L T V 0 (ExpressionStmt (CallExpr (IdentifierExpr f k) as c) s) D = Some ([], D1)"
  using assms eachIn_length [OF assms(3)] by (simp add: processStmt_def function_expand_def ret_def)

theorem wrong_count_dropped_witness:
  "processStmt plainMacros [''f'' \<mapsto> FunctionMacro ''f'' [''x''] [] 0]
     (tie plainMacros [''f'' \<mapsto> FunctionMacro ''f'' [''x''] [] 0] 5) 0
     (ExpressionStmt (CallExpr (IdentifierExpr ''f'' 1) [] 2) 3) DiagnosticEngine = Some ([], DiagnosticEngine)"
  by (rule wrong_count_dropped [where ps = "[''x'']"]) (simp_all add: macro_lookup_def ret_def)

text \<open>
  The same call inside an expression is left as it is, tried 257 times and reported as too deep a
  recursion.
\<close>

theorem wrong_count_reported:
  assumes "macro_lookup T f = Some (FunctionMacro f ps b l)" "ps \<noteq> []" "260 \<le> n"
  shows "vHelper (tie L T n) 0 (CallExpr (IdentifierExpr f k) [] c) D =
     Some (CallExpr (IdentifierExpr f k) [] c, report D c err_type_mismatch depthMessage)"
  using helper_wrong_count [OF assms(1,2)] assms(3) by simp

theorem wrong_count_reported_witness:
  "vHelper (tie plainMacros [''f'' \<mapsto> FunctionMacro ''f'' [''x''] [] 0] 260) 0 (CallExpr (IdentifierExpr ''f'' 1) [] 2)
     DiagnosticEngine = Some (CallExpr (IdentifierExpr ''f'' 1) [] 2, report DiagnosticEngine 2 err_type_mismatch depthMessage)"
  by (rule wrong_count_reported [where ps = "[''x'']"]) (simp_all add: macro_lookup_def)

text \<open>
  C20: A module in which no declaration calls one of the module's macros is left exactly as it is, and
  nothing is reported: there is a bound on the recursion from which on this is the result.
\<close>

theorem call_free_unchanged:
  assumes "registerMacros L Map.empty ds = Some T"
    and "\<forall>d\<in>set ds. isMacroDecl d \<or> list_all (inert T) (partsD d)"
  shows "\<exists>n. \<forall>m\<ge>n. \<forall>D. visitModuleDecl L m (ModuleDecl name ds loc) D = Some (ModuleDecl name ds loc, D)"
proof -
  have "settles (\<lambda>n. eachIn (\<lambda>d. if isMacroDecl d then ret d else vDecl (tie L T n) d) ds) ds"
  proof (rule settles_eachIn)
    fix d
    assume "d \<in> set ds"
    with assms(2) show "settles (\<lambda>n. if isMacroDecl d then ret d else vDecl (tie L T n) d) d"
      by (cases "isMacroDecl d") (auto simp: settles_ret intro: tree_settles(4))
  qed
  from settles_bound [OF this] obtain n where
    "\<forall>k\<ge>n. eachIn (\<lambda>d. if isMacroDecl d then ret d else vDecl (tie L T k) d) ds = ret ds" by blast
  with assms(1) have "\<forall>m\<ge>n. \<forall>D. visitModuleDecl L m (ModuleDecl name ds loc) D = Some (ModuleDecl name ds loc, D)"
    by (simp add: ret_def)
  then show ?thesis by blast
qed

theorem call_free_unchanged_witness:
  "\<exists>n. \<forall>m\<ge>n. \<forall>D. visitModuleDecl plainMacros m (ModuleDecl ''m'' [MacroDecl ''f'' [] [selfCall ''f'' 1] True 2,
        VariableDecl (Some (PrimitiveTy S_I32 3)) ''v'' (Some (CallExpr (IdentifierExpr ''g'' 4) [] 5))
          (mkVarAttrs False False None V_Default) 6] 7) D =
     Some (ModuleDecl ''m'' [MacroDecl ''f'' [] [selfCall ''f'' 1] True 2,
        VariableDecl (Some (PrimitiveTy S_I32 3)) ''v'' (Some (CallExpr (IdentifierExpr ''g'' 4) [] 5))
          (mkVarAttrs False False None V_Default) 6] 7, D)"
  by (rule call_free_unchanged [where T = "[''f'' \<mapsto> FunctionMacro ''f'' [] [selfCall ''f'' 1] 2]"])
     (simp_all add: registerDecl_def cloneBody_self addMacro_def macro_lookup_def)

text \<open>
  The result of the expansion does not depend on the bound on the recursion: two bounds with which
  it returns give the same module and the same diagnostics.
\<close>

theorem expansion_unique:
  assumes "visitModuleDecl L n M D = Some x" "visitModuleDecl L m M D = Some y"
  shows "x = y"
proof (cases "n \<le> m")
  case True
  then show ?thesis using module_mono [OF assms(1)] assms(2) by auto
next
  case False
  then show ?thesis using module_mono [OF assms(2), of n] assms(1) by auto
qed

theorem expansion_unique_witness:
  "the (visitModuleDecl plainMacros 3 (ModuleDecl ''m'' [] 1) DiagnosticEngine) =
   the (visitModuleDecl plainMacros 8 (ModuleDecl ''m'' [] 1) DiagnosticEngine)"
  by (rule expansion_unique [of plainMacros 3 "ModuleDecl ''m'' [] 1" DiagnosticEngine _ 8]) (simp_all add: args1_def ret_def)

end
