(* ===== verification/SymbolTable.thy ===== *)
theory SymbolTable
  imports Diagnostics
begin

text \<open>
  The scoped symbol table of the type checker (\<open>include/moksha/Sema/SymbolTable.h\<close>,
  \<open>lib/frontend/sema/SymbolTable.cpp\<close>).  \<open>scopeStack\<close> is a list of scopes, innermost last, as the
  vector of the class; a scope's \<open>StringMap\<close> is a map from names to symbols.  Pointers to types
  and declarations are opaque: \<open>BuiltinTy\<close> are the type objects the AST context creates once,
  \<open>OwnedTy\<close> every other one.  A failed \<open>assert\<close> is \<open>None\<close>.

  The interface \<open>scoped_env\<close> states what a client relies on: entering and leaving scopes is a stack
  discipline and additions touch the innermost scope only.
\<close>

subsection \<open>Data\<close>

datatype SymbolKind = Sym_Variable | Sym_Function | Sym_Type | Sym_Class | Sym_Module | Sym_Macro

datatype ScopeKind = Scope_Global | Scope_Function | Scope_Block | Scope_Class

text \<open>The builtin type objects of \<open>ASTContext\<close>.\<close>

datatype builtin_ty =
    VoidTy | BoolTy | CharTy | StringTy | AnyTy | NullTy
  | I8Ty | I16Ty | I32Ty | I64Ty | ISizeTy
  | U8Ty | U16Ty | U32Ty | U64Ty | USizeTy
  | F8Ty | F16Ty | F32Ty | F64Ty

datatype type_ptr = BuiltinTy builtin_ty | OwnedTy nat

datatype Symbol =
  Symbol (sym_kind: SymbolKind) (sym_name: string) (sym_type: "type_ptr option")
    (sym_decl: "nat option") (overloads: "Symbol list") (bitWidth: int)

text \<open>The constructor \<open>Symbol(k, n, t, d)\<close>.\<close>

definition mkSymbol :: "SymbolKind \<Rightarrow> string \<Rightarrow> type_ptr option \<Rightarrow> nat option \<Rightarrow> Symbol" where
  "mkSymbol k n t d = Symbol k n t d [] (- 1)"

definition pushOverload :: "Symbol \<Rightarrow> Symbol \<Rightarrow> Symbol" where
  "pushOverload s o' =
     (case s of Symbol k n t d os w \<Rightarrow> Symbol k n t d (os @ [o']) w)"

definition kindToString :: "Symbol \<Rightarrow> string" where
  "kindToString s =
     (case sym_kind s of
        Sym_Variable \<Rightarrow> ''Variable'' | Sym_Function \<Rightarrow> ''Function'' | Sym_Type \<Rightarrow> ''Type''
      | Sym_Class \<Rightarrow> ''Class'' | Sym_Module \<Rightarrow> ''Module'' | _ \<Rightarrow> ''Unknown'')"

record Scope =
  scope_kind :: ScopeKind
  symbols :: "string \<rightharpoonup> Symbol"

record symtab =
  scopeStack :: "Scope list"
  st_Diags :: diag_engine

subsection \<open>Scopes\<close>

definition mkScope :: "ScopeKind \<Rightarrow> Scope" where
  "mkScope k = \<lparr>scope_kind = k, symbols = Map.empty\<rparr>"

definition findSymbol :: "Scope \<Rightarrow> string \<Rightarrow> Symbol option" where
  "findSymbol S name = symbols S name"

definition Scope_addSymbol :: "string \<Rightarrow> Symbol \<Rightarrow> Scope \<Rightarrow> Scope option" where
  "Scope_addSymbol name symbol S =
     (if symbols S name = None then Some (S\<lparr>symbols := (symbols S)(name \<mapsto> symbol)\<rparr>) else None)"

definition Scope_addOverload :: "string \<Rightarrow> Symbol \<Rightarrow> Scope \<Rightarrow> Scope" where
  "Scope_addOverload name symbol S =
     (case symbols S name of
        Some s \<Rightarrow> S\<lparr>symbols := (symbols S)(name \<mapsto> pushOverload s symbol)\<rparr>
      | None \<Rightarrow> S\<lparr>symbols := (symbols S)(name \<mapsto> symbol)\<rparr>)"

subsection \<open>The table\<close>

definition enterScope :: "ScopeKind \<Rightarrow> symtab \<Rightarrow> symtab" where
  "enterScope k T = T\<lparr>scopeStack := scopeStack T @ [mkScope k]\<rparr>"

definition mkSymbolTable :: "diag_engine \<Rightarrow> symtab" where
  "mkSymbolTable D = enterScope Scope_Global \<lparr>scopeStack = [], st_Diags = D\<rparr>"

definition currentScope :: "symtab \<Rightarrow> Scope option" where
  "currentScope T = (if scopeStack T = [] then None else Some (last (scopeStack T)))"

definition exitScope :: "symtab \<Rightarrow> symtab option" where
  "exitScope T = (if scopeStack T = [] then None else Some (T\<lparr>scopeStack := butlast (scopeStack T)\<rparr>))"

text \<open>The destructor: \<open>while (!scopeStack.empty()) exitScope();\<close>\<close>

function destroy :: "symtab \<Rightarrow> symtab" where
  "destroy T = (case exitScope T of None \<Rightarrow> T | Some T1 \<Rightarrow> destroy T1)"
  by pat_completeness auto
termination
  by (relation "measure (\<lambda>T. length (scopeStack T))") (auto simp: exitScope_def split: if_splits)

declare destroy.simps [simp del]

definition setLast :: "Scope \<Rightarrow> symtab \<Rightarrow> symtab" where
  "setLast S T = T\<lparr>scopeStack := butlast (scopeStack T) @ [S]\<rparr>"

text \<open>The result of \<open>addSymbol\<close>, and the table; \<open>None\<close> if the assertion in \<open>Scope::addSymbol\<close> fails.\<close>

definition addSymbol :: "string \<Rightarrow> Symbol \<Rightarrow> ptr \<Rightarrow> symtab \<Rightarrow> (bool \<times> symtab) option" where
  "addSymbol name symbol loc T =
     (if scopeStack T = [] then Some (False, T)
      else let S = last (scopeStack T) in
        case findSymbol S name of
          Some existing \<Rightarrow>
            if sym_kind existing = sym_kind symbol \<and>
               (sym_kind symbol = Sym_Module \<or> sym_kind symbol = Sym_Variable) then Some (True, T)
            else if sym_kind existing = Sym_Function \<and> sym_kind symbol = Sym_Function then
              Some (True, setLast (S\<lparr>symbols := (symbols S)(name \<mapsto> pushOverload existing symbol)\<rparr>) T)
            else Some (False, T\<lparr>st_Diags := report (st_Diags T) loc err_symbol_redefinition name\<rparr>)
        | None \<Rightarrow>
            (case Scope_addSymbol name symbol S of
               Some S' \<Rightarrow> Some (True, setLast S' T)
             | None \<Rightarrow> None))"

definition addOverload :: "string \<Rightarrow> Symbol \<Rightarrow> symtab \<Rightarrow> symtab" where
  "addOverload name symbol T =
     (if scopeStack T = [] then T
      else setLast (Scope_addOverload name symbol (last (scopeStack T))) T)"

text \<open>The loop of \<open>lookup\<close>, over the reversed stack.\<close>

fun lookup_in :: "Scope list \<Rightarrow> string \<Rightarrow> Symbol option" where
  "lookup_in [] name = None"
| "lookup_in (S # Ss) name =
     (case findSymbol S name of Some s \<Rightarrow> Some s | None \<Rightarrow> lookup_in Ss name)"

definition lookup :: "symtab \<Rightarrow> string \<Rightarrow> Symbol option" where
  "lookup T name = lookup_in (rev (scopeStack T)) name"

definition lookupGlobal :: "symtab \<Rightarrow> string \<Rightarrow> Symbol option" where
  "lookupGlobal T name = (if scopeStack T = [] then None else findSymbol (hd (scopeStack T)) name)"

definition isDefinedInCurrentScope :: "symtab \<Rightarrow> string \<Rightarrow> bool" where
  "isDefinedInCurrentScope T name =
     (if scopeStack T = [] then False else findSymbol (last (scopeStack T)) name \<noteq> None)"

definition getCurrentScopeKind :: "symtab \<Rightarrow> ScopeKind" where
  "getCurrentScopeKind T =
     (if scopeStack T = [] then Scope_Global else scope_kind (last (scopeStack T)))"

text \<open>\<open>addPrimitiveTypes\<close>: the names and builtin types, in the order of the calls.\<close>

definition primitiveTypes :: "(string \<times> builtin_ty) list" where
  "primitiveTypes =
     [(''i8'', I8Ty), (''i16'', I16Ty), (''i32'', I32Ty), (''i64'', I64Ty), (''u8'', U8Ty),
      (''u16'', U16Ty), (''u32'', U32Ty), (''u64'', U64Ty), (''f8'', F8Ty), (''f16'', F16Ty),
      (''f32'', F32Ty), (''f64'', F64Ty), (''boolean'', BoolTy), (''void'', VoidTy),
      (''any'', AnyTy), (''char'', I8Ty), (''short'', I16Ty), (''int'', I32Ty), (''long'', I64Ty),
      (''isize'', ISizeTy), (''usize'', USizeTy), (''quarter'', F8Ty), (''half'', F16Ty),
      (''float'', F32Ty), (''double'', F64Ty)]"

fun addTypes :: "(string \<times> builtin_ty) list \<Rightarrow> symtab \<Rightarrow> symtab option" where
  "addTypes [] T = Some T"
| "addTypes ((n, ty) # ts) T =
     (case addSymbol n (mkSymbol Sym_Type n (Some (BuiltinTy ty)) None) 0 T of
        None \<Rightarrow> None
      | Some (b, T1) \<Rightarrow> addTypes ts T1)"

definition addPrimitiveTypes :: "symtab \<Rightarrow> symtab option" where
  "addPrimitiveTypes T = addTypes primitiveTypes T"

subsection \<open>The interface: scoped environments\<close>

text \<open>
  \<open>frames\<close> are the open scopes, outermost first.  \<open>enter\<close> opens an empty one, \<open>leave\<close> drops the
  innermost, \<open>add\<close> changes the innermost only, and \<open>look\<close> finds the innermost binding.
\<close>

locale scoped_env =
  fixes frames :: "'s \<Rightarrow> 'f list" and find :: "'f \<Rightarrow> 'n \<Rightarrow> 'v option"
    and enter :: "'k \<Rightarrow> 's \<Rightarrow> 's" and leave :: "'s \<Rightarrow> 's" and add :: "'a \<Rightarrow> 's \<Rightarrow> 's"
    and look :: "'s \<Rightarrow> 'n \<Rightarrow> 'v option"
  assumes enter_frames: "\<exists>f. frames (enter k s) = frames s @ [f] \<and> (\<forall>n. find f n = None)"
    and leave_frames: "frames (leave s) = butlast (frames s)"
    and add_frames: "frames s \<noteq> [] \<Longrightarrow> \<exists>f. frames (add a s) = butlast (frames s) @ [f]"
    and look_nil: "frames s = [] \<Longrightarrow> look s n = None"
    and look_snoc: "frames s = fs @ [f] \<Longrightarrow> frames s' = fs \<Longrightarrow>
          look s n = (case find f n of Some v \<Rightarrow> Some v | None \<Rightarrow> look s' n)"
begin

lemma look_frames: "frames s = frames s' \<Longrightarrow> look s n = look s' n"
proof (cases "frames s" rule: rev_cases)
  case (snoc fs f)
  assume eq: "frames s = frames s'"
  have "frames (leave s) = fs" using snoc leave_frames by simp
  with look_snoc snoc eq show ?thesis by metis
qed (simp add: look_nil)

lemma enter_look: "look (enter k s) n = look s n"
  using enter_frames [of k s] look_snoc by (metis option.simps(4))

lemma leave_enter_frames: "frames (leave (enter k s)) = frames s"
  using enter_frames [of k s] leave_frames by (metis butlast_snoc)

end

text \<open>
  Programs over a scoped environment: additions and blocks, as the checker visits declarations
  and nested statements.
\<close>

datatype ('k, 'a) item = Add 'a | Block 'k "('k, 'a) item list"

fun run_item :: "('k \<Rightarrow> 's \<Rightarrow> 's) \<Rightarrow> ('s \<Rightarrow> 's) \<Rightarrow> ('a \<Rightarrow> 's \<Rightarrow> 's) \<Rightarrow> ('k, 'a) item \<Rightarrow> 's \<Rightarrow> 's" where
  "run_item enter leave add (Add a) s = add a s"
| "run_item enter leave add (Block k is) s =
     leave (fold (run_item enter leave add) is (enter k s))"

context scoped_env
begin

lemma run_items_outer:
  assumes "\<And>i s f. i \<in> set is \<Longrightarrow> frames s = fs @ [f] \<Longrightarrow>
             \<exists>f. frames (run_item enter leave add i s) = fs @ [f]"
  shows "frames s = fs @ [f] \<Longrightarrow> \<exists>f'. frames (fold (run_item enter leave add) is s) = fs @ [f']"
  using assms
proof (induction "is" arbitrary: s f)
  case (Cons i "is")
  obtain g where g: "frames (run_item enter leave add i s) = fs @ [g]"
    using Cons.prems(2) [of i s f] Cons.prems(1) by auto
  show ?case using Cons.IH [OF g Cons.prems(2)] by simp
qed simp

lemma run_item_outer:
  "frames s = fs @ [f] \<Longrightarrow> \<exists>f. frames (run_item enter leave add i s) = fs @ [f]"
proof (induction i arbitrary: s fs f)
  case (Add a)
  then show ?case using add_frames [of s a] by simp
next
  case (Block k "is")
  obtain g where "frames (enter k s) = frames s @ [g]" using enter_frames by blast
  then obtain g' where "frames (fold (run_item enter leave add) is (enter k s)) = frames s @ [g']"
    using run_items_outer [of "is" "frames s" "enter k s" g] Block.IH by blast
  then show ?case using Block.prems leave_frames by (simp add: butlast_append)
qed

lemma block_frames: "frames (run_item enter leave add (Block k is) s) = frames s"
proof -
  obtain g where "frames (enter k s) = frames s @ [g]" using enter_frames by blast
  then obtain g' where "frames (fold (run_item enter leave add) is (enter k s)) = frames s @ [g']"
    using run_items_outer [of "is" "frames s" "enter k s" g] run_item_outer by blast
  then show ?thesis using leave_frames by simp
qed

lemma block_look: "look (run_item enter leave add (Block k is) s) n = look s n"
  by (rule look_frames) (rule block_frames)

end

subsection \<open>The table is a scoped environment\<close>

text \<open>\<open>addSymbol\<close> and \<open>exitScope\<close> on states where their assertions hold.\<close>

definition addSymbol_state :: "string \<times> Symbol \<times> ptr \<Rightarrow> symtab \<Rightarrow> symtab" where
  "addSymbol_state = (\<lambda>(n, s, l) T. case addSymbol n s l T of Some (b, T1) \<Rightarrow> T1 | None \<Rightarrow> T)"

definition exitScope_state :: "symtab \<Rightarrow> symtab" where
  "exitScope_state T = (case exitScope T of Some T1 \<Rightarrow> T1 | None \<Rightarrow> T)"

lemma addSymbol_total: "\<exists>b T1. addSymbol n s l T = Some (b, T1)"
  by (auto simp: addSymbol_def Let_def Scope_addSymbol_def findSymbol_def split: option.splits)

lemma addSymbol_stack:
  assumes "scopeStack T \<noteq> []"
  shows "\<exists>S. scopeStack (case addSymbol n s l T of Some (b, T1) \<Rightarrow> T1 | None \<Rightarrow> T) =
             butlast (scopeStack T) @ [S]"
proof -
  have "scopeStack T = butlast (scopeStack T) @ [last (scopeStack T)]" using assms by simp
  then have same: "\<exists>S. scopeStack T = butlast (scopeStack T) @ [S]" by blast
  show ?thesis
    using assms same
    by (cases "findSymbol (last (scopeStack T)) n")
       (simp_all add: addSymbol_def Let_def setLast_def Scope_addSymbol_def findSymbol_def)
qed

lemma lookup_snoc:
  "scopeStack T = Ss @ [S] \<Longrightarrow> lookup T n = (case findSymbol S n of Some v \<Rightarrow> Some v | None \<Rightarrow> lookup_in (rev Ss) n)"
  by (simp add: lookup_def)

interpretation symenv: scoped_env scopeStack findSymbol enterScope exitScope_state addSymbol_state lookup
proof
  show "\<exists>f. scopeStack (enterScope k s) = scopeStack s @ [f] \<and> (\<forall>n. findSymbol f n = None)" for k s
    by (simp add: enterScope_def mkScope_def findSymbol_def)
  show "scopeStack (exitScope_state s) = butlast (scopeStack s)" for s
    by (simp add: exitScope_state_def exitScope_def)
  show "\<exists>f. scopeStack (addSymbol_state a s) = butlast (scopeStack s) @ [f]" if "scopeStack s \<noteq> []" for a s
    using addSymbol_stack [OF that] by (cases a) (simp add: addSymbol_state_def)
qed (auto simp: lookup_def split: option.split)

subsection \<open>Adding and finding symbols\<close>

lemma scopeStack_snoc: "scopeStack T \<noteq> [] \<Longrightarrow> \<exists>Ss S. scopeStack T = Ss @ [S]"
  by (cases "scopeStack T" rule: rev_cases) auto

lemma lookup_setLast:
  assumes "scopeStack T = Ss @ [S]"
  shows "lookup (setLast (S\<lparr>symbols := (symbols S)(n \<mapsto> s)\<rparr>) T) m = (if m = n then Some s else lookup T m)"
  using assms by (simp add: lookup_def setLast_def findSymbol_def)

lemma addSymbol_fresh_lookup:
  assumes "scopeStack T \<noteq> []" and "\<not> isDefinedInCurrentScope T n"
  shows "\<exists>T'. addSymbol n s l T = Some (True, T') \<and> st_Diags T' = st_Diags T \<and>
           isDefinedInCurrentScope T' n \<and>
           (\<forall>m. lookup T' m = (if m = n then Some s else lookup T m))"
proof -
  obtain Ss S where S: "scopeStack T = Ss @ [S]" using scopeStack_snoc assms(1) by blast
  have "symbols S n = None" using assms(2) S by (simp add: isDefinedInCurrentScope_def findSymbol_def)
  then have "addSymbol n s l T = Some (True, setLast (S\<lparr>symbols := (symbols S)(n \<mapsto> s)\<rparr>) T)"
    using S by (simp add: addSymbol_def findSymbol_def Scope_addSymbol_def)
  then show ?thesis
    using lookup_setLast [OF S] by (simp add: setLast_def isDefinedInCurrentScope_def findSymbol_def)
qed

lemma addSymbol_existing:
  assumes S: "scopeStack T = Ss @ [S]" and e: "findSymbol S n = Some e"
  shows "addSymbol n s l T =
     (if sym_kind e = sym_kind s \<and> sym_kind s \<in> {Sym_Module, Sym_Variable} then Some (True, T)
      else if sym_kind e = Sym_Function \<and> sym_kind s = Sym_Function
      then Some (True, setLast (S\<lparr>symbols := (symbols S)(n \<mapsto> pushOverload e s)\<rparr>) T)
      else Some (False, T\<lparr>st_Diags := report (st_Diags T) l err_symbol_redefinition n\<rparr>))"
  using assms by (simp add: addSymbol_def)

text \<open>
  The overloads of a function: the symbol itself and the ones pushed behind it, in the order of
  their declarations.
\<close>

definition overloadSet :: "Symbol \<Rightarrow> Symbol list" where
  "overloadSet s = s # overloads s"

fun addFunctions :: "string \<Rightarrow> (Symbol \<times> ptr) list \<Rightarrow> symtab \<Rightarrow> symtab" where
  "addFunctions n [] T = T"
| "addFunctions n ((s, l) # ss) T = addFunctions n ss (addSymbol_state (n, s, l) T)"

lemma pushOverload_simps [simp]:
  "sym_kind (pushOverload e s) = sym_kind e" "overloads (pushOverload e s) = overloads e @ [s]"
  by (cases e; simp add: pushOverload_def)+

lemma addFunctions_overloads:
  assumes "scopeStack T = Ss @ [S]" and "findSymbol S n = Some e" and "sym_kind e = Sym_Function"
    and "\<forall>(s, l) \<in> set fs. sym_kind s = Sym_Function"
  shows "\<exists>e'. lookup (addFunctions n fs T) n = Some e' \<and> overloads e' = overloads e @ map fst fs \<and>
              sym_kind e' = Sym_Function \<and> st_Diags (addFunctions n fs T) = st_Diags T"
  using assms
proof (induction fs arbitrary: T S e)
  case Nil
  then show ?case by (simp add: lookup_def)
next
  case (Cons f fs)
  obtain s l where f: "f = (s, l)" by fastforce
  let ?S = "S\<lparr>symbols := (symbols S)(n \<mapsto> pushOverload e s)\<rparr>"
  have "addSymbol_state (n, s, l) T = setLast ?S T"
    using addSymbol_existing [OF Cons.prems(1,2), of s l] Cons.prems(3,4) f by (simp add: addSymbol_state_def)
  moreover have "scopeStack (setLast ?S T) = Ss @ [?S]" using Cons.prems(1) by (simp add: setLast_def)
  ultimately show ?case
    using Cons.IH [of "setLast ?S T" ?S "pushOverload e s"] Cons.prems(3,4) f
    by (simp add: findSymbol_def setLast_def)
qed

subsection \<open>Primitive types\<close>

lemma addTypes_lookup:
  assumes "scopeStack T = [S]" and "distinct (map fst ts)" and "\<forall>n \<in> fst ` set ts. findSymbol S n = None"
  shows "\<exists>T'. addTypes ts T = Some T' \<and> length (scopeStack T') = 1 \<and> st_Diags T' = st_Diags T \<and>
     (\<forall>n. lookup T' n = (case map_of ts n of
                            Some ty \<Rightarrow> Some (mkSymbol Sym_Type n (Some (BuiltinTy ty)) None)
                          | None \<Rightarrow> lookup T n))"
  using assms
proof (induction ts arbitrary: T S)
  case (Cons t ts)
  obtain n ty where t: "t = (n, ty)" by fastforce
  let ?s = "mkSymbol Sym_Type n (Some (BuiltinTy ty)) None"
  let ?S = "S\<lparr>symbols := (symbols S)(n \<mapsto> ?s)\<rparr>"
  have "symbols S n = None" using Cons.prems(3) t by (simp add: findSymbol_def)
  then have a: "addSymbol n ?s 0 T = Some (True, setLast ?S T)"
    using Cons.prems(1) by (simp add: addSymbol_def findSymbol_def Scope_addSymbol_def)
  have "\<forall>m \<in> fst ` set ts. findSymbol ?S m = None"
    using Cons.prems(2,3) t by (auto simp: findSymbol_def)
  then obtain T' where "addTypes ts (setLast ?S T) = Some T'" "length (scopeStack T') = 1"
    "st_Diags T' = st_Diags (setLast ?S T)"
    "\<forall>m. lookup T' m = (case map_of ts m of
           Some ty \<Rightarrow> Some (mkSymbol Sym_Type m (Some (BuiltinTy ty)) None)
         | None \<Rightarrow> lookup (setLast ?S T) m)"
    using Cons.IH [of "setLast ?S T" ?S] Cons.prems(1,2) by (auto simp: setLast_def)
  moreover have "map_of ts n = None" using Cons.prems(2) t by (simp add: map_of_eq_None_iff)
  ultimately show ?case
    using a t lookup_setLast [of T "[]" S] Cons.prems(1) by (auto simp: setLast_def split: option.split)
qed simp

lemma primitiveTypes_distinct: "distinct (map fst primitiveTypes)"
  by (simp add: primitiveTypes_def)

subsection \<open>Properties of the table\<close>

text \<open>
  C15: Scopes are a stack: a block that enters a scope, adds any symbols, opens any blocks inside,
  to any depth, and leaves the scope, leaves the open scopes and every lookup as they were.
\<close>

theorem block_restores_scopes:
  "scopeStack (run_item enterScope exitScope_state addSymbol_state (Block k is) T) = scopeStack T \<and>
   lookup (run_item enterScope exitScope_state addSymbol_state (Block k is) T) n = lookup T n"
  using symenv.block_frames symenv.block_look by blast

text \<open>
  A name that is not defined in the current scope can be added: \<open>addSymbol\<close> succeeds without
  a diagnostic, the name is then found as the new symbol, whether or not an outer scope defines
  it, and every other name is found as before.
\<close>

theorem addSymbol_fresh:
  assumes "scopeStack T \<noteq> []" and "\<not> isDefinedInCurrentScope T n"
  shows "\<exists>T'. addSymbol n s l T = Some (True, T') \<and> st_Diags T' = st_Diags T \<and>
           isDefinedInCurrentScope T' n \<and>
           (\<forall>m. lookup T' m = (if m = n then Some s else lookup T m))"
  by (rule addSymbol_fresh_lookup [OF assms])

theorem addSymbol_fresh_witness:
  "\<exists>T'. addSymbol ''x'' (mkSymbol Sym_Variable ''x'' None None) 4
          (enterScope Scope_Block (mkSymbolTable DiagnosticEngine)) = Some (True, T') \<and>
        lookup T' ''x'' = Some (mkSymbol Sym_Variable ''x'' None None)"
  using addSymbol_fresh [of "enterScope Scope_Block (mkSymbolTable DiagnosticEngine)" "''x''"
      "mkSymbol Sym_Variable ''x'' None None" 4]
  by (auto simp: enterScope_def mkSymbolTable_def isDefinedInCurrentScope_def mkScope_def findSymbol_def)

text \<open>
  Adding a name the current scope already defines, on every branch: a second variable or
  module of the name is accepted and changes nothing, a function joins the overloads of a
  function, and everything else is rejected with one error at the given location and changes no
  scope.
\<close>

theorem addSymbol_defined:
  assumes "scopeStack T = Ss @ [S]" and "findSymbol S n = Some e"
  shows "addSymbol n s l T =
     (if sym_kind e = sym_kind s \<and> sym_kind s \<in> {Sym_Module, Sym_Variable} then Some (True, T)
      else if sym_kind e = Sym_Function \<and> sym_kind s = Sym_Function
      then Some (True, T\<lparr>scopeStack := Ss @ [S\<lparr>symbols := (symbols S)(n \<mapsto> pushOverload e s)\<rparr>]\<rparr>)
      else Some (False, T\<lparr>st_Diags := report (st_Diags T) l err_symbol_redefinition n\<rparr>))"
  using addSymbol_existing [OF assms, of s l] assms(1) by (simp add: setLast_def)

theorem addSymbol_defined_witness:
  "addSymbol ''C'' (mkSymbol Sym_Class ''C'' None None) 9
     \<lparr>scopeStack = [\<lparr>scope_kind = Scope_Global, symbols = [''C'' \<mapsto> mkSymbol Sym_Variable ''C'' None None]\<rparr>],
      st_Diags = DiagnosticEngine\<rparr> =
   Some (False,
     \<lparr>scopeStack = [\<lparr>scope_kind = Scope_Global, symbols = [''C'' \<mapsto> mkSymbol Sym_Variable ''C'' None None]\<rparr>],
      st_Diags = report DiagnosticEngine 9 err_symbol_redefinition ''C''\<rparr>)"
  using addSymbol_defined [of
      "\<lparr>scopeStack = [\<lparr>scope_kind = Scope_Global, symbols = [''C'' \<mapsto> mkSymbol Sym_Variable ''C'' None None]\<rparr>],
        st_Diags = DiagnosticEngine\<rparr>"
      "[]" "\<lparr>scope_kind = Scope_Global, symbols = [''C'' \<mapsto> mkSymbol Sym_Variable ''C'' None None]\<rparr>" "''C''"
      "mkSymbol Sym_Variable ''C'' None None" "mkSymbol Sym_Class ''C'' None None" 9]
  by (simp add: findSymbol_def mkSymbol_def)

text \<open>
  Overloads are kept in the order of declaration: after a first function of a name, adding
  further functions of the name makes the lookup return the first with all the others behind it,
  in order, and reports nothing.
\<close>

theorem overloads_in_order:
  assumes "scopeStack T \<noteq> []" and "\<not> isDefinedInCurrentScope T n"
    and "sym_kind f = Sym_Function" and "overloads f = []" and "\<forall>(s, l) \<in> set fs. sym_kind s = Sym_Function"
  shows "\<exists>e. lookup (addFunctions n ((f, p) # fs) T) n = Some e \<and> overloads e = map fst fs \<and>
             st_Diags (addFunctions n ((f, p) # fs) T) = st_Diags T"
proof -
  obtain Ss S where S: "scopeStack T = Ss @ [S]" using scopeStack_snoc assms(1) by blast
  let ?S = "S\<lparr>symbols := (symbols S)(n \<mapsto> f)\<rparr>"
  have "symbols S n = None" using assms(2) S by (simp add: isDefinedInCurrentScope_def findSymbol_def)
  then have a: "addSymbol_state (n, f, p) T = setLast ?S T"
    using S by (simp add: addSymbol_state_def addSymbol_def findSymbol_def Scope_addSymbol_def)
  have "scopeStack (setLast ?S T) = Ss @ [?S]" using S by (simp add: setLast_def)
  from addFunctions_overloads [OF this, of n f fs] show ?thesis
    using assms(3-5) by (auto simp: a findSymbol_def setLast_def)
qed

theorem overloads_in_order_witness:
  "\<exists>e. lookup (addFunctions ''f'' [(mkSymbol Sym_Function ''f'' (Some (OwnedTy 0)) None, 1),
                                   (mkSymbol Sym_Function ''f'' (Some (OwnedTy 1)) None, 2)]
                 (mkSymbolTable DiagnosticEngine)) ''f'' = Some e \<and>
       overloads e = [mkSymbol Sym_Function ''f'' (Some (OwnedTy 1)) None]"
  using overloads_in_order [of "mkSymbolTable DiagnosticEngine" "''f''"
      "mkSymbol Sym_Function ''f'' (Some (OwnedTy 0)) None"
      "[(mkSymbol Sym_Function ''f'' (Some (OwnedTy 1)) None, 2)]" 1]
  by (auto simp: mkSymbolTable_def enterScope_def isDefinedInCurrentScope_def mkScope_def findSymbol_def
      mkSymbol_def)

text \<open>
  \<open>addPrimitiveTypes\<close> on a fresh table defines exactly the primitive type names, each with its
  builtin type, no assertion fails and nothing is reported.
\<close>

theorem primitive_types_defined:
  "\<exists>T'. addPrimitiveTypes (mkSymbolTable D) = Some T' \<and> st_Diags T' = D \<and>
     (\<forall>n. lookup T' n = map_option (\<lambda>ty. mkSymbol Sym_Type n (Some (BuiltinTy ty)) None)
            (map_of primitiveTypes n))"
proof -
  have T: "scopeStack (mkSymbolTable D) = [mkScope Scope_Global]" "st_Diags (mkSymbolTable D) = D"
    "lookup (mkSymbolTable D) n = None" for n
    by (simp_all add: mkSymbolTable_def enterScope_def lookup_def mkScope_def findSymbol_def)
  have "\<forall>n \<in> fst ` set primitiveTypes. findSymbol (mkScope Scope_Global) n = None"
    by (simp add: mkScope_def findSymbol_def)
  from addTypes_lookup [OF T(1) primitiveTypes_distinct this] T(2,3) show ?thesis
    unfolding addPrimitiveTypes_def by (fastforce split: option.split)
qed

end
