(* ===== verification/MIR.thy ===== *)
theory MIR
  imports Moksha_Prelude
begin

text \<open>
  The mid-level IR (\<open>include/moksha/MIR/*.h\<close>, \<open>lib/middle/mir/MIR{Inst,Block,Function}.cpp\<close>):
  values, instructions, basic blocks with their edge lists, functions.

  Every object the C++ code points to has a number, and a pointer is that number, tagged by the
  class of the object it points to (\<open>value\<close>): two pointers are equal iff they are the same tag
  and number.  A pointer the code allows to be null is an option.  The targets of branches and
  switches and the normal destination of an invoke are never null (the passes dereference them
  unchecked).  HIR types are opaque but for \<open>void\<close>; source locations are opaque numbers.
\<close>

subsection \<open>Values and instructions\<close>

datatype hirty = TyVoid | TyOther nat

datatype mvalue = VInst nat | VArg nat | VGlobal nat | VConst nat | VBlock nat | VFunc nat

datatype BorrowKind = Borrow_None | Borrow_View | Borrow_Mut | Borrow_Lock

datatype MemoryOrder = MO_Relaxed | MO_Consume | MO_Acquire | MO_Release | MO_AcqRel | MO_SeqCst

datatype AtomicOp =
    AO_Xchg | AO_Add | AO_Sub | AO_And | AO_Nand | AO_Or | AO_Xor | AO_Max | AO_Min | AO_UMax
  | AO_UMin

datatype BinOp =
    Op_Add | Op_Sub | Op_Mul | Op_Div | Op_Mod | Op_Pow | Op_FAdd | Op_FSub | Op_FMul | Op_FDiv
  | Op_And | Op_Or | Op_Xor | Op_Shl | Op_Shr

datatype CastOp =
    Op_BitCast | Op_IntToFloat | Op_FloatToInt | Op_ZExt | Op_SExt | Op_Trunc | Op_PtrToInt
  | Op_IntToPtr | Op_AnyCast | Op_ArrayToSlice | Op_SliceToArray | Op_Upcast

datatype ARCOp = Op_Retain | Op_Release

datatype CmpPred = EQ | NE | LT | LE | GT | GE | ULT | ULE | UGT | UGE

datatype FCmpPred = F_OEQ | F_ONE | F_OLT | F_OLE | F_OGT | F_OGE | F_UEQ | F_UNE | F_ULT | F_ULE
  | F_UGT | F_UGE

datatype ThreadKind = TK_Strong | TK_Weak | TK_Detached

text \<open>One constructor per instruction class, with the fields of the class.\<close>

datatype (plugins only: code size) inst_body =
    BranchInst nat
  | CondBranchInst mvalue nat nat
  | SwitchInst mvalue nat "(mvalue \<times> nat) list"
  | ReturnInst "mvalue option"
  | UnreachableInst
  | AllocaInst hirty nat
  | LoadInst mvalue nat bool
  | StoreInst mvalue mvalue nat bool
  | GetElementPtrInst mvalue "mvalue list"
  | InsertValueInst mvalue mvalue "32 word"
  | ExtractValueInst mvalue "32 word"
  | ARCInst ARCOp mvalue "nat option"
  | StoreWeakInst mvalue mvalue
  | LoadWeakInst mvalue
  | BinaryInst BinOp mvalue mvalue
  | CastInst CastOp mvalue "32 word"
  | CompareInst CmpPred mvalue mvalue
  | FCmpInst FCmpPred mvalue mvalue
  | PhiInst "(mvalue \<times> nat) list"
  | CallInst mvalue "mvalue list" bool
  | InvokeInst mvalue "mvalue list" nat "nat option"
  | LandingPadInst "hirty list"
  | ResumeInst "mvalue option"
  | ThrowInst mvalue "nat option"
  | InlineAsmInst string string "mvalue list" bool
  | MakeClosureInst mvalue "mvalue list"
  | MakeSharedInst mvalue
  | SpawnInst mvalue ThreadKind
  | AwaitInst mvalue
  | AtomicLoadInst mvalue MemoryOrder
  | AtomicStoreInst mvalue mvalue MemoryOrder
  | AtomicRMWInst AtomicOp mvalue mvalue MemoryOrder
  | AtomicCmpXchgInst mvalue mvalue mvalue MemoryOrder MemoryOrder
  | FenceInst MemoryOrder


record inst =
  i_id :: nat
  i_type :: "hirty option"
  i_name :: string
  i_loc :: nat
  i_borrow :: BorrowKind
  i_parent :: "nat option"
  i_body :: inst_body

subsection \<open>Operands\<close>

text \<open>\<open>if (field == oldVal) field = newVal\<close>, for a field of type \<open>MIRValue *\<close> and of type \<open>MIRBlock *\<close>.\<close>

definition replV :: "mvalue \<Rightarrow> mvalue \<Rightarrow> mvalue \<Rightarrow> mvalue" where
  "replV oldVal newVal v = (if v = oldVal then newVal else v)"

definition replB :: "mvalue \<Rightarrow> mvalue \<Rightarrow> nat \<Rightarrow> nat" where
  "replB oldVal newVal b =
     (if VBlock b = oldVal then (case newVal of VBlock b' \<Rightarrow> b' | _ \<Rightarrow> b) else b)"

text \<open>\<open>replaceOperand\<close> of every class; the base class does nothing.\<close>

fun replaceOperand :: "mvalue \<Rightarrow> mvalue \<Rightarrow> inst_body \<Rightarrow> inst_body" where
  "replaceOperand x y (BranchInst t) = BranchInst (replB x y t)"
| "replaceOperand x y (CondBranchInst c t f) =
     CondBranchInst (replV x y c) (replB x y t) (replB x y f)"
| "replaceOperand x y (SwitchInst c d cs) =
     SwitchInst (replV x y c) (replB x y d) (map (\<lambda>(v, b). (replV x y v, replB x y b)) cs)"
| "replaceOperand x y (ReturnInst v) = ReturnInst (map_option (replV x y) v)"
| "replaceOperand x y UnreachableInst = UnreachableInst"
| "replaceOperand x y (AllocaInst ty al) = AllocaInst ty al"
| "replaceOperand x y (LoadInst p al vol) = LoadInst (replV x y p) al vol"
| "replaceOperand x y (StoreInst v p al vol) = StoreInst (replV x y v) (replV x y p) al vol"
| "replaceOperand x y (GetElementPtrInst p idxs) =
     GetElementPtrInst (replV x y p) (map (replV x y) idxs)"
| "replaceOperand x y (InsertValueInst a v i) = InsertValueInst (replV x y a) (replV x y v) i"
| "replaceOperand x y (ExtractValueInst a i) = ExtractValueInst (replV x y a) i"
| "replaceOperand x y (ARCInst op ob df) = ARCInst op (replV x y ob) df"
| "replaceOperand x y (StoreWeakInst v p) = StoreWeakInst (replV x y v) (replV x y p)"
| "replaceOperand x y (LoadWeakInst p) = LoadWeakInst (replV x y p)"
| "replaceOperand x y (BinaryInst op l r) = BinaryInst op (replV x y l) (replV x y r)"
| "replaceOperand x y (CastInst op v off) = CastInst op (replV x y v) off"
| "replaceOperand x y (CompareInst pr l r) = CompareInst pr (replV x y l) (replV x y r)"
| "replaceOperand x y (FCmpInst pr l r) = FCmpInst pr (replV x y l) (replV x y r)"
| "replaceOperand x y (PhiInst inc) = PhiInst (map (\<lambda>(v, b). (replV x y v, replB x y b)) inc)"
| "replaceOperand x y (CallInst c as va) = CallInst (replV x y c) (map (replV x y) as) va"
| "replaceOperand x y (InvokeInst c as n u) =
     InvokeInst (replV x y c) (map (replV x y) as) (replB x y n) (map_option (replB x y) u)"
| "replaceOperand x y (LandingPadInst ts) = LandingPadInst ts"
| "replaceOperand x y (ResumeInst e) = ResumeInst (map_option (replV x y) e)"
| "replaceOperand x y (ThrowInst e u) = ThrowInst (replV x y e) (map_option (replB x y) u)"
| "replaceOperand x y (InlineAsmInst s c as vol) = InlineAsmInst s c (map (replV x y) as) vol"
| "replaceOperand x y (MakeClosureInst f cs) = MakeClosureInst (replV x y f) (map (replV x y) cs)"
| "replaceOperand x y (MakeSharedInst v) = MakeSharedInst (replV x y v)"
| "replaceOperand x y (SpawnInst c k) = SpawnInst (replV x y c) k"
| "replaceOperand x y (AwaitInst p) = AwaitInst (replV x y p)"
| "replaceOperand x y (AtomicLoadInst p m) = AtomicLoadInst (replV x y p) m"
| "replaceOperand x y (AtomicStoreInst v p m) = AtomicStoreInst (replV x y v) (replV x y p) m"
| "replaceOperand x y (AtomicRMWInst op p v m) = AtomicRMWInst op (replV x y p) (replV x y v) m"
| "replaceOperand x y (AtomicCmpXchgInst p e d sm fm) =
     AtomicCmpXchgInst (replV x y p) (replV x y e) (replV x y d) sm fm"
| "replaceOperand x y (FenceInst m) = FenceInst m"

text \<open>The values an instruction reads, blocks aside.\<close>

fun uses :: "inst_body \<Rightarrow> mvalue list" where
  "uses (BranchInst t) = []"
| "uses (CondBranchInst c t f) = [c]"
| "uses (SwitchInst c d cs) = c # map fst cs"
| "uses (ReturnInst v) = (case v of None \<Rightarrow> [] | Some w \<Rightarrow> [w])"
| "uses UnreachableInst = []"
| "uses (AllocaInst ty al) = []"
| "uses (LoadInst p al vol) = [p]"
| "uses (StoreInst v p al vol) = [v, p]"
| "uses (GetElementPtrInst p idxs) = p # idxs"
| "uses (InsertValueInst a v i) = [a, v]"
| "uses (ExtractValueInst a i) = [a]"
| "uses (ARCInst op ob df) = [ob]"
| "uses (StoreWeakInst v p) = [v, p]"
| "uses (LoadWeakInst p) = [p]"
| "uses (BinaryInst op l r) = [l, r]"
| "uses (CastInst op v off) = [v]"
| "uses (CompareInst pr l r) = [l, r]"
| "uses (FCmpInst pr l r) = [l, r]"
| "uses (PhiInst inc) = map fst inc"
| "uses (CallInst c as va) = c # as"
| "uses (InvokeInst c as n u) = c # as"
| "uses (LandingPadInst ts) = []"
| "uses (ResumeInst e) = (case e of None \<Rightarrow> [] | Some w \<Rightarrow> [w])"
| "uses (ThrowInst e u) = [e]"
| "uses (InlineAsmInst s c as vol) = as"
| "uses (MakeClosureInst f cs) = f # cs"
| "uses (MakeSharedInst v) = [v]"
| "uses (SpawnInst c k) = [c]"
| "uses (AwaitInst p) = [p]"
| "uses (AtomicLoadInst p m) = [p]"
| "uses (AtomicStoreInst v p m) = [v, p]"
| "uses (AtomicRMWInst op p v m) = [p, v]"
| "uses (AtomicCmpXchgInst p e d sm fm) = [p, e, d]"
| "uses (FenceInst m) = []"

text \<open>
  The blocks a terminator transfers control to, in the order \<open>MIRBlock::addInstruction\<close> wires
  them; empty for every other instruction.
\<close>

fun targets :: "inst_body \<Rightarrow> nat list" where
  "targets (BranchInst t) = [t]"
| "targets (CondBranchInst c t f) = [t, f]"
| "targets (SwitchInst c d cs) = d # map snd cs"
| "targets (InvokeInst c as n u) = n # (case u of None \<Rightarrow> [] | Some b \<Rightarrow> [b])"
| "targets (ThrowInst e u) = (case u of None \<Rightarrow> [] | Some b \<Rightarrow> [b])"
| "targets _ = []"

lemma uses_replaceOperand: "uses (replaceOperand x y b) = map (replV x y) (uses b)"
  by (cases b) (auto split: option.splits)

lemma targets_replaceOperand: "targets (replaceOperand x y b) = map (replB x y) (targets b)"
  by (cases b) (auto split: option.splits)

lemma replB_id: "(\<And>b. x \<noteq> VBlock b) \<Longrightarrow> replB x y b = b"
  by (auto simp: replB_def)

lemma replB_ident: "(\<And>b. x \<noteq> VBlock b) \<Longrightarrow> replB x y = id"
  by (rule ext) (auto simp: replB_def)

subsection \<open>Phi instructions\<close>

definition addIncoming :: "mvalue \<Rightarrow> nat \<Rightarrow> (mvalue \<times> nat) list \<Rightarrow> (mvalue \<times> nat) list" where
  "addIncoming v b inc = inc @ [(v, b)]"

definition removeIncoming :: "nat \<Rightarrow> (mvalue \<times> nat) list \<Rightarrow> (mvalue \<times> nat) list" where
  "removeIncoming b inc = filter (\<lambda>(v, p). p \<noteq> b) inc"

text \<open>The first incoming value of a block, as the passes search it.\<close>

definition incomingFor :: "nat \<Rightarrow> (mvalue \<times> nat) list \<Rightarrow> mvalue option" where
  "incomingFor b inc = map_option fst (List.find (\<lambda>(v, p). p = b) inc)"

definition isPhi :: "inst \<Rightarrow> bool" where
  "isPhi i = (case i_body i of PhiInst _ \<Rightarrow> True | _ \<Rightarrow> False)"

definition updPhi :: "((mvalue \<times> nat) list \<Rightarrow> (mvalue \<times> nat) list) \<Rightarrow> inst \<Rightarrow> inst" where
  "updPhi f i = (case i_body i of PhiInst inc \<Rightarrow> i\<lparr>i_body := PhiInst (f inc)\<rparr> | _ \<Rightarrow> i)"

text \<open>\<open>for (inst : block) if (phi = dyn_cast<PhiInst>(inst)) ... else break;\<close>\<close>

fun mapPhis :: "((mvalue \<times> nat) list \<Rightarrow> (mvalue \<times> nat) list) \<Rightarrow> inst list \<Rightarrow> inst list" where
  "mapPhis f [] = []"
| "mapPhis f (i # rest) = (if isPhi i then updPhi f i # mapPhis f rest else i # rest)"

subsection \<open>Basic blocks\<close>

record mblock =
  b_id :: nat
  b_name :: string
  instructions :: "inst list"
  predecessors :: "nat list"
  successors :: "nat list"

definition mkBlock :: "nat \<Rightarrow> string \<Rightarrow> mblock" where
  "mkBlock b n = \<lparr>b_id = b, b_name = n, instructions = [], predecessors = [], successors = []\<rparr>"

definition addPredecessor :: "nat \<Rightarrow> mblock \<Rightarrow> mblock" where
  "addPredecessor p b = b\<lparr>predecessors := push_unique p (predecessors b)\<rparr>"

definition addSuccessor :: "nat \<Rightarrow> mblock \<Rightarrow> mblock" where
  "addSuccessor s b = b\<lparr>successors := push_unique s (successors b)\<rparr>"

definition removePredecessor :: "nat \<Rightarrow> mblock \<Rightarrow> mblock" where
  "removePredecessor p b = b\<lparr>predecessors := erase_all p (predecessors b)\<rparr>"

definition removeSuccessor :: "nat \<Rightarrow> mblock \<Rightarrow> mblock" where
  "removeSuccessor s b = b\<lparr>successors := erase_all s (successors b)\<rparr>"

definition terminator :: "mblock \<Rightarrow> inst_body option" where
  "terminator b = (if instructions b = [] then None else Some (i_body (last (instructions b))))"

definition termTargets :: "mblock \<Rightarrow> nat list" where
  "termTargets b = (case terminator b of None \<Rightarrow> [] | Some t \<Rightarrow> targets t)"

lemmas block_edge_defs = addPredecessor_def addSuccessor_def removePredecessor_def removeSuccessor_def

lemma block_edge_simps [simp]:
  "b_id (addPredecessor p b) = b_id b" "b_id (addSuccessor p b) = b_id b"
  "b_id (removePredecessor p b) = b_id b" "b_id (removeSuccessor p b) = b_id b"
  "instructions (addPredecessor p b) = instructions b" "instructions (addSuccessor p b) = instructions b"
  "instructions (removePredecessor p b) = instructions b"
  "instructions (removeSuccessor p b) = instructions b"
  "successors (addPredecessor p b) = successors b" "successors (removePredecessor p b) = successors b"
  "predecessors (addSuccessor p b) = predecessors b" "predecessors (removeSuccessor p b) = predecessors b"
  "predecessors (addPredecessor p b) = push_unique p (predecessors b)"
  "successors (addSuccessor p b) = push_unique p (successors b)"
  "predecessors (removePredecessor p b) = erase_all p (predecessors b)"
  "successors (removeSuccessor p b) = erase_all p (successors b)"
  by (simp_all add: block_edge_defs)

subsection \<open>Functions\<close>

datatype Linkage = Link_Internal | Link_External | Link_Weak | Link_LinkOnce

record marg =
  a_id :: nat
  a_type :: "hirty option"
  a_name :: string

record mfunc =
  f_name :: string
  f_ret :: "hirty option"
  f_linkage :: Linkage
  f_args :: "marg list"
  blocks :: "mblock list"
  nameCounters :: "(string \<times> 32 word) list"

definition mkFunction :: "hirty option \<Rightarrow> string \<Rightarrow> Linkage \<Rightarrow> mfunc" where
  "mkFunction r n l = \<lparr>f_name = n, f_ret = r, f_linkage = l, f_args = [], blocks = [],
                       nameCounters = []\<rparr>"

definition isDeclaration :: "mfunc \<Rightarrow> bool" where
  "isDeclaration F \<longleftrightarrow> blocks F = []"

definition getEntryBlock :: "mfunc \<Rightarrow> nat option" where
  "getEntryBlock F = (if blocks F = [] then None else Some (b_id (hd (blocks F))))"

definition addBlock :: "mblock \<Rightarrow> mfunc \<Rightarrow> mfunc" where
  "addBlock b F = F\<lparr>blocks := blocks F @ [b]\<rparr>"

definition addArgument :: "marg \<Rightarrow> mfunc \<Rightarrow> mfunc" where
  "addArgument a F = F\<lparr>f_args := f_args F @ [a]\<rparr>"

text \<open>The object a block pointer points to, and a change made through the pointer.\<close>

definition theBlock :: "mfunc \<Rightarrow> nat \<Rightarrow> mblock option" where
  "theBlock F p = List.find (\<lambda>b. b_id b = p) (blocks F)"

definition updBlock :: "nat \<Rightarrow> (mblock \<Rightarrow> mblock) \<Rightarrow> mfunc \<Rightarrow> mfunc" where
  "updBlock p f F = F\<lparr>blocks := map (\<lambda>b. if b_id b = p then f b else b) (blocks F)\<rparr>"

definition blockIds :: "mfunc \<Rightarrow> nat list" where
  "blockIds F = map b_id (blocks F)"

text \<open>\<open>this->addSuccessor(dest); dest->addPredecessor(this);\<close>\<close>

definition addEdge :: "nat \<Rightarrow> nat \<Rightarrow> mfunc \<Rightarrow> mfunc" where
  "addEdge b dest F = updBlock dest (addPredecessor b) (updBlock b (addSuccessor dest) F)"

definition addInstruction :: "nat \<Rightarrow> inst \<Rightarrow> mfunc \<Rightarrow> mfunc" where
  "addInstruction b i F =
     (let F1 = fold (addEdge b) (targets (i_body i)) F
      in updBlock b (\<lambda>B. B\<lparr>instructions := instructions B @ [i\<lparr>i_parent := Some b\<rparr>]\<rparr>) F1)"

end
