(* ===== verification/SimplifyCFG.thy ===== *)
theory SimplifyCFG
  imports MIR
begin

text \<open>
  The control-flow simplification (\<open>lib/middle/mir/passes/SimplifyCFGPass.cpp\<close>): the edge lists
  are rebuilt from the terminators, then branches are folded, empty blocks bypassed and
  straight-line blocks merged until nothing changes, then blocks without a predecessor are
  erased.

  A function over a pass is a function on \<open>mfunc\<close> that returns the pass's result and the changed
  function.  Loops over the block list are folds over the block ids, with every block read
  through its pointer at the moment the code reads it.
\<close>

subsection \<open>Helpers\<close>

definition replaceAllUsesInFunction :: "mvalue \<Rightarrow> mvalue \<Rightarrow> mfunc \<Rightarrow> mfunc" where
  "replaceAllUsesInFunction oldVal newVal F =
     F\<lparr>blocks := map (\<lambda>b. b\<lparr>instructions :=
         map (\<lambda>i. i\<lparr>i_body := replaceOperand oldVal newVal (i_body i)\<rparr>) (instructions b)\<rparr>) (blocks F)\<rparr>"

definition replTarget :: "nat \<Rightarrow> nat \<Rightarrow> nat \<Rightarrow> nat" where
  "replTarget oldT newT b = (if b = oldT then newT else b)"

fun replaceTargetBlock :: "nat \<Rightarrow> nat \<Rightarrow> inst_body \<Rightarrow> inst_body" where
  "replaceTargetBlock x y (BranchInst t) = BranchInst (replTarget x y t)"
| "replaceTargetBlock x y (CondBranchInst c t f) =
     CondBranchInst c (replTarget x y t) (replTarget x y f)"
| "replaceTargetBlock x y (InvokeInst c as n u) =
     InvokeInst c as (replTarget x y n) (map_option (replTarget x y) u)"
| "replaceTargetBlock x y (ThrowInst e u) = ThrowInst e (map_option (replTarget x y) u)"
| "replaceTargetBlock x y (SwitchInst c d cs) =
     SwitchInst c (replTarget x y d) (map (\<lambda>(v, b). (v, replTarget x y b)) cs)"
| "replaceTargetBlock x y t = t"

definition updLast :: "(inst \<Rightarrow> inst) \<Rightarrow> mblock \<Rightarrow> mblock" where
  "updLast f b =
     (if instructions b = [] then b
      else b\<lparr>instructions := butlast (instructions b) @ [f (last (instructions b))]\<rparr>)"

text \<open>The fields of a block read through its pointer.\<close>

definition instsOf :: "mfunc \<Rightarrow> nat \<Rightarrow> inst list" where
  "instsOf F p = (case theBlock F p of None \<Rightarrow> [] | Some b \<Rightarrow> instructions b)"

definition predsOf :: "mfunc \<Rightarrow> nat \<Rightarrow> nat list" where
  "predsOf F p = (case theBlock F p of None \<Rightarrow> [] | Some b \<Rightarrow> predecessors b)"

definition succsOf :: "mfunc \<Rightarrow> nat \<Rightarrow> nat list" where
  "succsOf F p = (case theBlock F p of None \<Rightarrow> [] | Some b \<Rightarrow> successors b)"

definition termOf :: "mfunc \<Rightarrow> nat \<Rightarrow> inst_body option" where
  "termOf F p = (if instsOf F p = [] then None else Some (i_body (last (instsOf F p))))"

definition setInsts :: "(inst list \<Rightarrow> inst list) \<Rightarrow> mblock \<Rightarrow> mblock" where
  "setInsts f b = b\<lparr>instructions := f (instructions b)\<rparr>"

subsection \<open>The CFG healer\<close>

definition clearEdges :: "mfunc \<Rightarrow> mfunc" where
  "clearEdges F = F\<lparr>blocks := map (\<lambda>b. b\<lparr>successors := [], predecessors := []\<rparr>) (blocks F)\<rparr>"

text \<open>A phi with exactly one stale block whose entry is moved to the missing predecessors.\<close>

definition rescuePhi :: "nat list \<Rightarrow> (mvalue \<times> nat) list \<Rightarrow> (mvalue \<times> nat) list" where
  "rescuePhi preds inc =
     (let stale = filter (\<lambda>p. p \<notin> set preds) (map snd inc);
          missing = filter (\<lambda>p. p \<notin> snd ` set inc) preds
      in if length stale = 1 \<and> missing \<noteq> [] then
           (case incomingFor (hd stale) inc of
              Some val \<Rightarrow> fold (addIncoming val) missing (removeIncoming (hd stale) inc)
            | None \<Rightarrow> inc)
         else inc)"

definition healBlock :: "nat \<Rightarrow> mfunc \<Rightarrow> mfunc" where
  "healBlock b F =
     (case termOf F b of
        None \<Rightarrow> F
      | Some term \<Rightarrow>
          (let F1 = fold (addEdge b) (targets term) F
           in updBlock b (setInsts (mapPhis (rescuePhi (predsOf F1 b)))) F1))"

definition heal :: "mfunc \<Rightarrow> mfunc" where
  "heal F = fold healBlock (blockIds F) (clearEdges F)"

subsection \<open>Branch folding\<close>

text \<open>\<open>incoming.erase(it)\<close> for the first entry of the block.\<close>

fun eraseFirst :: "nat \<Rightarrow> (mvalue \<times> nat) list \<Rightarrow> (mvalue \<times> nat) list" where
  "eraseFirst b [] = []"
| "eraseFirst b ((v, p) # inc) = (if p = b then inc else (v, p) # eraseFirst b inc)"

text \<open>The new branch stands where the popped one stood and takes its number.\<close>

definition foldBlock :: "nat \<Rightarrow> bool \<times> mfunc \<Rightarrow> bool \<times> mfunc" where
  "foldBlock b = (\<lambda>(changed, F).
     (case termOf F b of
        Some (CondBranchInst c t f) \<Rightarrow>
          (if t = f then
             (let old = last (instsOf F b);
                  newBr = old\<lparr>i_type := None, i_name := [], i_borrow := Borrow_None, i_body := BranchInst t\<rparr>;
                  F1 = updBlock b (setInsts butlast) F;
                  F2 = addInstruction b newBr F1;
                  F3 = updBlock b (removeSuccessor t) F2;
                  F4 = updBlock t (removePredecessor b) F3
              in (True, updBlock t (setInsts (mapPhis (eraseFirst b))) F4))
           else (changed, F))
      | _ \<Rightarrow> (changed, F)))"

definition foldBranches :: "mfunc \<Rightarrow> bool \<times> mfunc" where
  "foldBranches F = fold foldBlock (blockIds F) (False, F)"

subsection \<open>Empty block bypassing\<close>

definition hasPhi :: "mfunc \<Rightarrow> nat \<Rightarrow> bool" where
  "hasPhi F c = list_ex isPhi (instsOf F c)"

definition endsInInvoke :: "mfunc \<Rightarrow> nat \<Rightarrow> bool" where
  "endsInInvoke F a = (case termOf F a of Some (InvokeInst _ _ _ _) \<Rightarrow> True | _ \<Rightarrow> False)"

text \<open>The block \<open>B\<close> only branches to \<open>C\<close>, and its predecessors may branch there themselves.\<close>

definition bypassTarget :: "mfunc \<Rightarrow> nat \<Rightarrow> nat option" where
  "bypassTarget F b =
     (if getEntryBlock F = Some b then None
      else if predsOf F b = [] then None
      else if length (instsOf F b) \<noteq> 1 then None
      else case i_body (hd (instsOf F b)) of
             BranchInst c \<Rightarrow>
               (if b = c then None
                else if list_ex (endsInInvoke F) (predsOf F b) then None
                else if hasPhi F c \<and> list_ex (\<lambda>a. a \<in> set (predsOf F c)) (predsOf F b) then None
                else Some c)
           | _ \<Rightarrow> None)"

definition copyIncoming :: "nat \<Rightarrow> nat \<Rightarrow> (mvalue \<times> nat) list \<Rightarrow> (mvalue \<times> nat) list" where
  "copyIncoming b a inc =
     (case incomingFor b inc of Some v \<Rightarrow> addIncoming v a inc | None \<Rightarrow> inc)"

definition bypassPred :: "nat \<Rightarrow> nat \<Rightarrow> nat \<Rightarrow> mfunc \<Rightarrow> mfunc" where
  "bypassPred b c a F =
     (let F1 = updBlock a (updLast (\<lambda>i. i\<lparr>i_body := replaceTargetBlock b c (i_body i)\<rparr>)) F;
          F2 = updBlock a (removeSuccessor b) F1;
          F3 = updBlock a (addSuccessor c) F2;
          F4 = updBlock c (addPredecessor a) F3
      in updBlock c (setInsts (mapPhis (copyIncoming b a))) F4)"

definition bypassBlock :: "nat \<Rightarrow> nat \<Rightarrow> mfunc \<Rightarrow> mfunc" where
  "bypassBlock b c F =
     (let F1 = fold (bypassPred b c) (predsOf F b) F;
          F2 = updBlock c (removePredecessor b) F1;
          F3 = updBlock c (setInsts (mapPhis (removeIncoming b))) F2
      in updBlock b (\<lambda>B. B\<lparr>predecessors := [], successors := []\<rparr>) F3)"

fun bypassFirst :: "nat list \<Rightarrow> mfunc \<Rightarrow> bool \<times> mfunc" where
  "bypassFirst [] F = (False, F)"
| "bypassFirst (b # bs) F =
     (case bypassTarget F b of Some c \<Rightarrow> (True, bypassBlock b c F) | None \<Rightarrow> bypassFirst bs F)"

definition bypassEmptyBlocks :: "mfunc \<Rightarrow> bool \<times> mfunc" where
  "bypassEmptyBlocks F = bypassFirst (blockIds F) F"

subsection \<open>Block merging\<close>

definition mergeTarget :: "mfunc \<Rightarrow> nat \<Rightarrow> nat option" where
  "mergeTarget F a =
     (case termOf F a of
        Some (BranchInst b) \<Rightarrow>
          (if b = a \<or> getEntryBlock F = Some b then None
           else if predsOf F b = [a] then Some b else None)
      | _ \<Rightarrow> None)"

text \<open>The \<open>k\<close>-th instruction of \<open>B\<close>: a phi is replaced by its value, the rest moves to \<open>A\<close>.\<close>

definition moveInst :: "nat \<Rightarrow> nat \<Rightarrow> nat \<Rightarrow> mfunc \<Rightarrow> mfunc" where
  "moveInst a b k F =
     (let i = instsOf F b ! k in
      case i_body i of
        PhiInst inc \<Rightarrow>
          (case incomingFor a inc of
             Some val \<Rightarrow> replaceAllUsesInFunction (VInst (i_id i)) val F
           | None \<Rightarrow> F)
      | _ \<Rightarrow> updBlock a (setInsts (\<lambda>is. is @ [i\<lparr>i_parent := Some a\<rparr>])) F)"

definition moveIncoming :: "nat \<Rightarrow> nat \<Rightarrow> (mvalue \<times> nat) list \<Rightarrow> (mvalue \<times> nat) list" where
  "moveIncoming b a inc =
     (case incomingFor b inc of
        Some v \<Rightarrow> addIncoming v a (removeIncoming b inc)
      | None \<Rightarrow> inc)"

definition mergeSucc :: "nat \<Rightarrow> nat \<Rightarrow> nat \<Rightarrow> mfunc \<Rightarrow> mfunc" where
  "mergeSucc a b s F =
     (let F1 = updBlock a (addSuccessor s) F;
          F2 = updBlock s (removePredecessor b) F1;
          F3 = updBlock s (addPredecessor a) F2
      in updBlock s (setInsts (mapPhis (moveIncoming b a))) F3)"

definition mergeInto :: "nat \<Rightarrow> nat \<Rightarrow> mfunc \<Rightarrow> mfunc" where
  "mergeInto a b F =
     (let F1 = updBlock a (setInsts butlast) F;
          F2 = fold (moveInst a b) [0..<length (instsOf F1 b)] F1;
          F3 = updBlock b (setInsts (\<lambda>_. [])) F2;
          F4 = updBlock a (removeSuccessor b) F3;
          F5 = fold (mergeSucc a b) (succsOf F4 b) F4
      in updBlock b (\<lambda>B. B\<lparr>successors := [], predecessors := []\<rparr>) F5)"

fun mergeFirst :: "nat list \<Rightarrow> mfunc \<Rightarrow> bool \<times> mfunc" where
  "mergeFirst [] F = (False, F)"
| "mergeFirst (a # as) F =
     (case mergeTarget F a of Some b \<Rightarrow> (True, mergeInto a b F) | None \<Rightarrow> mergeFirst as F)"

definition mergeBlocks :: "mfunc \<Rightarrow> bool \<times> mfunc" where
  "mergeBlocks F = mergeFirst (blockIds F) F"

subsection \<open>Dead block sweep\<close>

definition truePreds :: "mfunc \<Rightarrow> nat \<Rightarrow> nat list" where
  "truePreds F p = concat (map (\<lambda>b. map (\<lambda>_. b_id b) (filter (\<lambda>s. s = p) (successors b))) (blocks F))"

definition severSucc :: "nat \<Rightarrow> nat \<Rightarrow> mfunc \<Rightarrow> mfunc" where
  "severSucc b s F =
     updBlock s (setInsts (mapPhis (removeIncoming b))) (updBlock s (removePredecessor b) F)"

definition eraseBlock :: "nat \<Rightarrow> mfunc \<Rightarrow> mfunc" where
  "eraseBlock b F =
     (let F1 = fold (severSucc b) (succsOf F b) F
      in F1\<lparr>blocks := filter (\<lambda>B. b_id B \<noteq> b) (blocks F1)\<rparr>)"

text \<open>One round: \<open>truePreds\<close> is computed before the first block is erased.\<close>

definition deadIds :: "mfunc \<Rightarrow> nat list" where
  "deadIds F = filter (\<lambda>p. getEntryBlock F \<noteq> Some p \<and> truePreds F p = []) (blockIds F)"

definition sweepOnce :: "mfunc \<Rightarrow> mfunc" where
  "sweepOnce F = fold eraseBlock (deadIds F) F"

lemma sweep_length:
  "length (blocks (eraseBlock p F)) \<le> length (blocks F)"
  "p \<in> set (blockIds F) \<Longrightarrow> length (blocks (eraseBlock p F)) < length (blocks F)"
proof -
  have up: "length (blocks (updBlock q f G)) = length (blocks G)"
    "(\<And>b. b_id (f b) = b_id b) \<Longrightarrow> blockIds (updBlock q f G) = blockIds G" for q f G
    by (auto simp: updBlock_def blockIds_def)
  have sv: "length (blocks (fold (severSucc p) ss G)) = length (blocks G) \<and>
      blockIds (fold (severSucc p) ss G) = blockIds G" for ss G
    by (induction ss arbitrary: G) (auto simp: severSucc_def setInsts_def up)
  have fl: "length (filter (\<lambda>B. b_id B \<noteq> p) xs) \<le> length xs"
    "p \<in> b_id ` set xs \<Longrightarrow> length (filter (\<lambda>B. b_id B \<noteq> p) xs) < length xs" for xs :: "mblock list"
    by (simp, induction xs) (auto simp: less_Suc_eq_le)
  show "length (blocks (eraseBlock p F)) \<le> length (blocks F)"
    using fl(1) [of "blocks (fold (severSucc p) (succsOf F p) F)"] sv [of "succsOf F p" F]
    by (simp add: eraseBlock_def Let_def)
  show "length (blocks (eraseBlock p F)) < length (blocks F)" if "p \<in> set (blockIds F)"
    using fl(2) [of "blocks (fold (severSucc p) (succsOf F p) F)"] sv [of "succsOf F p" F] that
    by (simp add: eraseBlock_def Let_def blockIds_def) (metis image_set)
qed

lemma sweepOnce_shrinks:
  assumes "deadIds F \<noteq> []"
  shows "length (blocks (sweepOnce F)) < length (blocks F)"
proof -
  obtain p ps where d: "deadIds F = p # ps" using assms by (cases "deadIds F") auto
  have "length (blocks (fold eraseBlock ps G)) \<le> length (blocks G)" for ps G
    by (induction ps arbitrary: G) (auto intro: le_trans sweep_length)
  moreover have "p \<in> set (blockIds F)" using d by (metis deadIds_def filter_is_subset list.set_intros(1) subsetD)
  ultimately show ?thesis
    using sweep_length(2) [of p F] d by (simp add: sweepOnce_def) (metis le_less_trans)
qed

function removeDeadBlocks :: "mfunc \<Rightarrow> mfunc" where
  "removeDeadBlocks F = (if deadIds F = [] then F else removeDeadBlocks (sweepOnce F))"
  by pat_completeness auto
termination
  by (relation "measure (\<lambda>F. length (blocks F))") (simp_all add: sweepOnce_shrinks)

declare removeDeadBlocks.simps [simp del]

subsection \<open>The pass\<close>

text \<open>One round of \<open>while (localChanged)\<close>, and the loop; \<open>None\<close> is a loop that never ends.\<close>

definition simplifyRound :: "mfunc \<Rightarrow> bool \<times> mfunc" where
  "simplifyRound F =
     (let (c1, F1) = foldBranches F;
          (c2, F2) = bypassEmptyBlocks F1;
          (c3, F3) = mergeBlocks F2
      in (c1 \<or> c2 \<or> c3, F3))"

partial_function (option) simplifyLoop :: "mfunc \<Rightarrow> bool \<Rightarrow> (bool \<times> mfunc) option" where
  "simplifyLoop F changed =
     (case simplifyRound F of
        (localChanged, F1) \<Rightarrow>
          if localChanged then simplifyLoop F1 True else Some (changed, F1))"

declare simplifyLoop.simps [code]

definition runOnFunction :: "mfunc \<Rightarrow> (bool \<times> mfunc) option" where
  "runOnFunction F =
     (case simplifyLoop (heal F) False of
        None \<Rightarrow> None
      | Some (changed, F1) \<Rightarrow>
          (let F2 = removeDeadBlocks F1
           in Some (changed \<or> length (blocks F2) \<noteq> length (blocks F1), F2)))"

text \<open>\<open>runOnModule\<close>: every function with a body.\<close>

fun runOnFunctions :: "mfunc list \<Rightarrow> (bool \<times> mfunc list) option" where
  "runOnFunctions [] = Some (False, [])"
| "runOnFunctions (F # Fs) =
     (case (if isDeclaration F then Some (False, F) else runOnFunction F) of
        None \<Rightarrow> None
      | Some (c, F1) \<Rightarrow>
          (case runOnFunctions Fs of
             None \<Rightarrow> None
           | Some (c', Fs') \<Rightarrow> Some (c \<or> c', F1 # Fs')))"

end
