(* ===== verification/SimplifyProps.thy ===== *)
theory SimplifyProps
  imports SimplifyCFG
begin

text \<open>
  The edge lists of a function and its terminators.  \<open>synced\<close> says the predecessor and successor
  lists are the edges the terminators define; the healer establishes it, bypassing and merging
  keep it, and on such functions the sweep keeps every reachable block.  Branch folding does not
  keep it: two concrete functions show a live block erased and a loop that never ends.
\<close>

subsection \<open>Edges as sets\<close>

definition sset :: "mfunc \<Rightarrow> nat \<Rightarrow> nat set" where
  "sset F p = set (succsOf F p)"

definition pset :: "mfunc \<Rightarrow> nat \<Rightarrow> nat set" where
  "pset F p = set (predsOf F p)"

definition tset :: "mfunc \<Rightarrow> nat \<Rightarrow> nat set" where
  "tset F p = (case termOf F p of None \<Rightarrow> {} | Some t \<Rightarrow> set (targets t))"

definition ids :: "mfunc \<Rightarrow> nat set" where
  "ids F = set (blockIds F)"

lemma theBlock_upd:
  assumes "\<And>b. b_id (f b) = b_id b"
  shows "theBlock (updBlock p f F) q = (if q = p then map_option f (theBlock F q) else theBlock F q)"
proof -
  have "List.find (\<lambda>b. b_id b = q) (map (\<lambda>b. if b_id b = p then f b else b) bs) =
    (if q = p then map_option f (List.find (\<lambda>b. b_id b = q) bs) else List.find (\<lambda>b. b_id b = q) bs)" for bs
    by (induction bs) (auto simp: assms)
  then show ?thesis by (simp add: theBlock_def updBlock_def)
qed

lemma theBlock_ids: "theBlock F p = None \<longleftrightarrow> p \<notin> ids F"
  by (auto simp: theBlock_def ids_def blockIds_def find_None_iff)

lemma blockIds_upd: "(\<And>b. b_id (f b) = b_id b) \<Longrightarrow> blockIds (updBlock p f F) = blockIds F"
  by (auto simp: updBlock_def blockIds_def)

lemma outside_ids:
  "p \<notin> ids F \<Longrightarrow> sset F p = {} \<and> pset F p = {} \<and> tset F p = {} \<and> instsOf F p = []"
  using theBlock_ids [of F p]
  by (simp add: sset_def pset_def tset_def succsOf_def predsOf_def termOf_def instsOf_def)

text \<open>What the single changes do to the views.\<close>

lemma setInsts_simps [simp]:
  "b_id (setInsts f b) = b_id b" "successors (setInsts f b) = successors b"
  "predecessors (setInsts f b) = predecessors b" "instructions (setInsts f b) = f (instructions b)"
  by (simp_all add: setInsts_def)

lemma updLast_simps [simp]:
  "b_id (updLast f b) = b_id b" "successors (updLast f b) = successors b"
  "predecessors (updLast f b) = predecessors b"
  by (simp_all add: updLast_def)

lemmas view_defs = sset_def pset_def tset_def succsOf_def predsOf_def termOf_def instsOf_def

lemma view_addSuccessor [simp]:
  "blockIds (updBlock p (addSuccessor s) F) = blockIds F"
  "sset (updBlock p (addSuccessor s) F) q = (if q = p \<and> p \<in> ids F then insert s (sset F q) else sset F q)"
  "pset (updBlock p (addSuccessor s) F) q = pset F q"
  "instsOf (updBlock p (addSuccessor s) F) q = instsOf F q"
  using theBlock_ids [of F q]
  by (cases "theBlock F q"; auto simp: blockIds_upd view_defs theBlock_upd)+

lemma view_addPredecessor [simp]:
  "blockIds (updBlock p (addPredecessor s) F) = blockIds F"
  "sset (updBlock p (addPredecessor s) F) q = sset F q"
  "pset (updBlock p (addPredecessor s) F) q = (if q = p \<and> p \<in> ids F then insert s (pset F q) else pset F q)"
  "instsOf (updBlock p (addPredecessor s) F) q = instsOf F q"
  using theBlock_ids [of F q]
  by (cases "theBlock F q"; auto simp: blockIds_upd view_defs theBlock_upd)+

lemma view_removeSuccessor [simp]:
  "blockIds (updBlock p (removeSuccessor s) F) = blockIds F"
  "sset (updBlock p (removeSuccessor s) F) q = (if q = p then sset F q - {s} else sset F q)"
  "pset (updBlock p (removeSuccessor s) F) q = pset F q"
  "instsOf (updBlock p (removeSuccessor s) F) q = instsOf F q"
  by (cases "theBlock F q"; auto simp: blockIds_upd view_defs theBlock_upd)+

lemma view_removePredecessor [simp]:
  "blockIds (updBlock p (removePredecessor s) F) = blockIds F"
  "sset (updBlock p (removePredecessor s) F) q = sset F q"
  "pset (updBlock p (removePredecessor s) F) q = (if q = p then pset F q - {s} else pset F q)"
  "instsOf (updBlock p (removePredecessor s) F) q = instsOf F q"
  by (cases "theBlock F q"; auto simp: blockIds_upd view_defs theBlock_upd)+

lemma view_setInsts [simp]:
  "blockIds (updBlock p (setInsts f) F) = blockIds F"
  "sset (updBlock p (setInsts f) F) q = sset F q"
  "pset (updBlock p (setInsts f) F) q = pset F q"
  by (cases "theBlock F q"; auto simp: blockIds_upd view_defs theBlock_upd)+

lemma instsOf_setInsts:
  "p \<in> ids F \<Longrightarrow> instsOf (updBlock p (setInsts f) F) q = (if q = p then f (instsOf F q) else instsOf F q)"
  using theBlock_ids [of F p]
  by (cases "theBlock F p") (simp_all add: instsOf_def theBlock_upd)

lemma ids_cong: "blockIds F = blockIds G \<Longrightarrow> ids F = ids G"
  by (simp add: ids_def)

lemma tset_insts: "tset F p = (if instsOf F p = [] then {} else set (targets (i_body (last (instsOf F p)))))"
  by (simp add: tset_def termOf_def)

lemma mapPhis_Nil [simp]: "mapPhis f is = [] \<longleftrightarrow> is = []"
  by (cases "is") auto

lemma targets_updPhi [simp]: "targets (i_body (updPhi f i)) = targets (i_body i)"
  by (cases "i_body i") (simp_all add: updPhi_def)

lemma last_mapPhis: "is \<noteq> [] \<Longrightarrow> targets (i_body (last (mapPhis f is))) = targets (i_body (last is))"
  by (induction "is") auto

lemma tset_mapPhis [simp]: "tset (updBlock p (setInsts (mapPhis f)) F) q = tset F q"
proof (cases "p \<in> ids F")
  case True
  then show ?thesis by (auto simp: tset_insts instsOf_setInsts last_mapPhis)
next
  case False
  then show ?thesis
    using theBlock_ids [of F p]
    by (cases "q = p") (simp_all add: tset_insts instsOf_def theBlock_upd)
qed

lemma tset_cong: "(\<And>q. instsOf F q = instsOf G q) \<Longrightarrow> tset F p = tset G p"
  by (simp add: tset_insts)

lemma tset_edges [simp]:
  "tset (updBlock p (addSuccessor s) F) q = tset F q" "tset (updBlock p (addPredecessor s) F) q = tset F q"
  "tset (updBlock p (removeSuccessor s) F) q = tset F q"
  "tset (updBlock p (removePredecessor s) F) q = tset F q"
  by (simp_all add: tset_insts)

lemma ids_upd [simp]:
  "ids (updBlock p (addSuccessor s) F) = ids F" "ids (updBlock p (addPredecessor s) F) = ids F"
  "ids (updBlock p (removeSuccessor s) F) = ids F" "ids (updBlock p (removePredecessor s) F) = ids F"
  "ids (updBlock p (setInsts f) F) = ids F"
  by (simp_all add: ids_def)

lemma view_addEdge [simp]:
  "blockIds (addEdge b t F) = blockIds F" "ids (addEdge b t F) = ids F"
  "sset (addEdge b t F) q = (if q = b \<and> b \<in> ids F then insert t (sset F q) else sset F q)"
  "pset (addEdge b t F) q = (if q = t \<and> t \<in> ids F then insert b (pset F q) else pset F q)"
  "instsOf (addEdge b t F) q = instsOf F q" "tset (addEdge b t F) q = tset F q"
  by (simp_all add: addEdge_def)

lemma view_addEdges [simp]:
  "blockIds (fold (addEdge b) ts F) = blockIds F \<and> ids (fold (addEdge b) ts F) = ids F \<and>
   sset (fold (addEdge b) ts F) q = (if q = b \<and> b \<in> ids F then sset F q \<union> set ts else sset F q) \<and>
   pset (fold (addEdge b) ts F) q = (if q \<in> set ts \<and> q \<in> ids F then insert b (pset F q) else pset F q) \<and>
   instsOf (fold (addEdge b) ts F) q = instsOf F q \<and> tset (fold (addEdge b) ts F) q = tset F q"
  by (induction ts arbitrary: F) auto

subsection \<open>Functions whose edge lists are their edges\<close>

definition detached :: "mfunc \<Rightarrow> nat \<Rightarrow> bool" where
  "detached F p \<longleftrightarrow> sset F p = {} \<and> pset F p = {}"

definition synced :: "mfunc \<Rightarrow> bool" where
  "synced F \<longleftrightarrow>
     distinct (blockIds F) \<and>
     (\<forall>p \<in> ids F. (sset F p = tset F p \<or> detached F p \<and> getEntryBlock F \<noteq> Some p) \<and>
        sset F p \<subseteq> ids F \<and> pset F p \<subseteq> ids F \<and>
        (\<forall>q \<in> ids F. q \<in> sset F p \<longleftrightarrow> p \<in> pset F q))"

lemma getEntryBlock_ids: "getEntryBlock F = (case blockIds F of [] \<Rightarrow> None | p # ps \<Rightarrow> Some p)"
  by (cases "blocks F") (auto simp: getEntryBlock_def blockIds_def)

lemma getEntryBlock_cong: "blockIds F = blockIds G \<Longrightarrow> getEntryBlock F = getEntryBlock G"
  by (simp add: getEntryBlock_ids)

lemma synced_attached:
  "synced F \<Longrightarrow> p \<in> ids F \<Longrightarrow> sset F p \<noteq> {} \<or> pset F p \<noteq> {} \<Longrightarrow> sset F p = tset F p"
  unfolding synced_def detached_def by blast

lemma synced_pred:
  "synced F \<Longrightarrow> q \<in> ids F \<Longrightarrow> p \<in> pset F q \<Longrightarrow> p \<in> ids F \<and> q \<in> sset F p"
  unfolding synced_def by blast

lemma synced_succ:
  "synced F \<Longrightarrow> p \<in> ids F \<Longrightarrow> q \<in> sset F p \<Longrightarrow> q \<in> ids F \<and> p \<in> pset F q"
  unfolding synced_def by blast

text \<open>Every target of a terminator is a block of the function.\<close>

definition closed :: "mfunc \<Rightarrow> bool" where
  "closed F \<longleftrightarrow> distinct (blockIds F) \<and> (\<forall>p \<in> ids F. tset F p \<subseteq> ids F)"

subsection \<open>The healer\<close>

lemma view_clearEdges [simp]:
  "blockIds (clearEdges F) = blockIds F" "ids (clearEdges F) = ids F"
  "sset (clearEdges F) p = {}" "pset (clearEdges F) p = {}" "tset (clearEdges F) p = tset F p"
proof -
  have f: "List.find (\<lambda>b. b_id b = p) (map (\<lambda>b. b\<lparr>successors := [], predecessors := []\<rparr>) bs) =
    map_option (\<lambda>b. b\<lparr>successors := [], predecessors := []\<rparr>) (List.find (\<lambda>b. b_id b = p) bs)" for bs :: "mblock list"
    by (induction bs) auto
  show "blockIds (clearEdges F) = blockIds F" by (simp add: clearEdges_def blockIds_def)
  then show "ids (clearEdges F) = ids F" by (simp add: ids_def)
  show "sset (clearEdges F) p = {}" "pset (clearEdges F) p = {}" "tset (clearEdges F) p = tset F p"
    by (auto simp: clearEdges_def view_defs theBlock_def f split: option.splits)
qed

lemma healBlock_view:
  "blockIds (healBlock b F) = blockIds F \<and> ids (healBlock b F) = ids F \<and> tset (healBlock b F) q = tset F q \<and>
   sset (healBlock b F) q = (if q = b then sset F q \<union> tset F q else sset F q) \<and>
   pset (healBlock b F) q = (if q \<in> tset F b \<and> q \<in> ids F then insert b (pset F q) else pset F q)"
proof (cases "termOf F b")
  case None
  then show ?thesis by (auto simp: healBlock_def tset_def)
next
  case (Some t)
  then have "b \<in> ids F" using outside_ids [of b F] by (auto simp: termOf_def split: if_splits)
  with Some show ?thesis by (auto simp: healBlock_def Let_def tset_def [of F])
qed

lemma healBlocks_view:
  "blockIds (fold healBlock bs F) = blockIds F \<and> ids (fold healBlock bs F) = ids F \<and>
   tset (fold healBlock bs F) q = tset F q \<and>
   sset (fold healBlock bs F) q = (if q \<in> set bs then sset F q \<union> tset F q else sset F q) \<and>
   pset (fold healBlock bs F) q = pset F q \<union> {b \<in> set bs. q \<in> tset F b \<and> q \<in> ids F}"
proof (induction bs arbitrary: F)
  case (Cons b bs)
  show ?case using Cons.IH [of "healBlock b F"] healBlock_view [of b F] by (auto split: if_splits)
qed simp

lemma heal_view:
  "blockIds (heal F) = blockIds F" "ids (heal F) = ids F" "tset (heal F) p = tset F p"
  "sset (heal F) p = tset F p" "pset (heal F) p = {b \<in> ids F. p \<in> tset F b \<and> p \<in> ids F}"
  using healBlocks_view [of "blockIds F" "clearEdges F" p] outside_ids [of p F]
  by (auto simp: heal_def ids_def)

lemma heal_synced_aux: "closed F \<Longrightarrow> synced (heal F)"
  by (auto simp: synced_def closed_def heal_view)

subsection \<open>Bypassing keeps the edges\<close>

lemma targets_replaceTargetBlock: "targets (replaceTargetBlock x y t) = map (replTarget x y) (targets t)"
  by (cases t) (auto split: option.splits)

lemma updLast_insts:
  "instructions (updLast f b) =
     (if instructions b = [] then [] else butlast (instructions b) @ [f (last (instructions b))])"
  by (simp add: updLast_def)

lemma view_updLast:
  "blockIds (updBlock p (updLast f) F) = blockIds F" "ids (updBlock p (updLast f) F) = ids F"
  "sset (updBlock p (updLast f) F) q = sset F q" "pset (updBlock p (updLast f) F) q = pset F q"
  "instsOf (updBlock p (updLast f) F) q =
     (if q = p \<and> instsOf F q \<noteq> [] then butlast (instsOf F q) @ [f (last (instsOf F q))] else instsOf F q)"
  by (cases "theBlock F q"; auto simp: ids_def blockIds_upd view_defs theBlock_upd updLast_insts)+

lemma view_clearBlock:
  "blockIds (updBlock p (\<lambda>B. B\<lparr>predecessors := [], successors := []\<rparr>) F) = blockIds F"
  "ids (updBlock p (\<lambda>B. B\<lparr>predecessors := [], successors := []\<rparr>) F) = ids F"
  "sset (updBlock p (\<lambda>B. B\<lparr>predecessors := [], successors := []\<rparr>) F) q = (if q = p then {} else sset F q)"
  "pset (updBlock p (\<lambda>B. B\<lparr>predecessors := [], successors := []\<rparr>) F) q = (if q = p then {} else pset F q)"
  "instsOf (updBlock p (\<lambda>B. B\<lparr>predecessors := [], successors := []\<rparr>) F) q = instsOf F q"
  by (cases "theBlock F q"; auto simp: ids_def blockIds_upd view_defs theBlock_upd)+

lemma tset_clearBlock:
  "tset (updBlock p (\<lambda>B. B\<lparr>predecessors := [], successors := []\<rparr>) F) q = tset F q"
  by (simp add: tset_insts view_clearBlock)

lemma bypassPred_view:
  assumes "a \<in> ids F" "c \<in> ids F" "b \<noteq> c"
  shows "blockIds (bypassPred b c a F) = blockIds F" "ids (bypassPred b c a F) = ids F"
    "sset (bypassPred b c a F) q = (if q = a then insert c (sset F q - {b}) else sset F q)"
    "pset (bypassPred b c a F) q = (if q = c then insert a (pset F q) else pset F q)"
    "tset (bypassPred b c a F) q = (if q = a then replTarget b c ` tset F q else tset F q)"
  using assms
  by (simp_all add: bypassPred_def Let_def view_updLast tset_insts [of "updBlock _ (updLast _) _"]
      targets_replaceTargetBlock) (auto simp: tset_insts)

lemma replTarget_image: "b \<noteq> c \<Longrightarrow> replTarget b c ` replTarget b c ` X = replTarget b c ` X"
  by (auto simp: replTarget_def image_iff)

lemma bypassPreds_view:
  assumes "set as \<subseteq> ids F" "c \<in> ids F" "b \<noteq> c"
  shows "blockIds (fold (bypassPred b c) as F) = blockIds F \<and> ids (fold (bypassPred b c) as F) = ids F \<and>
    sset (fold (bypassPred b c) as F) q = (if q \<in> set as then insert c (sset F q - {b}) else sset F q) \<and>
    pset (fold (bypassPred b c) as F) q = (if q = c then set as \<union> pset F q else pset F q) \<and>
    tset (fold (bypassPred b c) as F) q = (if q \<in> set as then replTarget b c ` tset F q else tset F q)"
  using assms
proof (induction as arbitrary: F)
  case (Cons a as)
  note v = bypassPred_view [of a F c b]
  have "a \<in> ids F" using Cons.prems by simp
  with Cons.IH [of "bypassPred b c a F"] Cons.prems v show ?case
    using replTarget_image [of b c "tset F q"] by (auto split: if_splits)
qed simp

lemma bypassBlock_view:
  assumes "pset F b \<subseteq> ids F" "c \<in> ids F" "b \<noteq> c"
  shows "blockIds (bypassBlock b c F) = blockIds F" "ids (bypassBlock b c F) = ids F"
    "sset (bypassBlock b c F) q =
       (if q = b then {} else if q \<in> pset F b then insert c (sset F q - {b}) else sset F q)"
    "pset (bypassBlock b c F) q =
       (if q = b then {} else if q = c then pset F c \<union> pset F b - {b} else pset F q)"
    "tset (bypassBlock b c F) q = (if q \<in> pset F b then replTarget b c ` tset F q else tset F q)"
proof -
  note v = bypassPreds_view [of "predsOf F b" F c b q]
  have p: "set (predsOf F b) = pset F b" by (simp add: pset_def)
  show "blockIds (bypassBlock b c F) = blockIds F" "ids (bypassBlock b c F) = ids F"
    "sset (bypassBlock b c F) q =
       (if q = b then {} else if q \<in> pset F b then insert c (sset F q - {b}) else sset F q)"
    "pset (bypassBlock b c F) q =
       (if q = b then {} else if q = c then pset F c \<union> pset F b - {b} else pset F q)"
    "tset (bypassBlock b c F) q = (if q \<in> pset F b then replTarget b c ` tset F q else tset F q)"
    using v assms by (auto simp: bypassBlock_def Let_def view_clearBlock tset_clearBlock p)
qed

lemma bypassTarget_Some:
  assumes "bypassTarget F b = Some c"
  shows "b \<noteq> c \<and> tset F b = {c} \<and> pset F b \<noteq> {} \<and> getEntryBlock F \<noteq> Some b"
proof -
  obtain i where i: "instsOf F b = [i]" "i_body i = BranchInst c" "b \<noteq> c"
    using assms by (auto simp: bypassTarget_def length_Suc_conv split: if_splits inst_body.splits)
  then show ?thesis using assms by (auto simp: tset_insts pset_def bypassTarget_def split: if_splits)
qed

lemma bypassBlock_synced:
  assumes s: "synced F" and t: "bypassTarget F b = Some c"
  shows "synced (bypassBlock b c F)"
proof -
  have bc: "b \<noteq> c" "tset F b = {c}" "pset F b \<noteq> {}" using bypassTarget_Some [OF t] by auto
  then have b: "b \<in> ids F" using outside_ids by blast
  have sy: "\<forall>p \<in> ids F. (sset F p = tset F p \<or> detached F p \<and> getEntryBlock F \<noteq> Some p) \<and>
        sset F p \<subseteq> ids F \<and> pset F p \<subseteq> ids F \<and> (\<forall>q \<in> ids F. q \<in> sset F p \<longleftrightarrow> p \<in> pset F q)" and d: "distinct (blockIds F)"
    using s by (simp_all add: synced_def)
  have sb: "sset F b = {c}" "pset F b \<subseteq> ids F" "c \<in> ids F" "b \<notin> pset F b"
    using sy b bc by (auto simp: detached_def)
  have a: "sset F p = tset F p \<and> b \<in> sset F p" if "p \<in> pset F b" for p
  proof -
    have p: "p \<in> ids F" using that sb(2) by blast
    then have "b \<in> sset F p" using sy b that by blast
    then show ?thesis using sy p unfolding detached_def by blast
  qed
  have tg: "replTarget b c ` tset F p = insert c (sset F p - {b})" if "p \<in> pset F b" for p
    using a [OF that] by (auto simp: replTarget_def)
  have "b \<in> pset F c" using sy b sb(1,3) by blast
  then have c: "sset F c = tset F c" using sy sb(3) unfolding detached_def by blast
  note v = bypassBlock_view [OF sb(2,3) bc(1)]
  show ?thesis
    unfolding synced_def v(1,2)
  proof (intro conjI ballI d)
    fix p assume p: "p \<in> ids F"
    show "sset (bypassBlock b c F) p = tset (bypassBlock b c F) p \<or>
        detached (bypassBlock b c F) p \<and> getEntryBlock (bypassBlock b c F) \<noteq> Some p"
      unfolding getEntryBlock_cong [OF v(1)]
      using sy p tg sb(4) c bypassTarget_Some [OF t] by (auto simp: v(3-5) detached_def)
    show "sset (bypassBlock b c F) p \<subseteq> ids F" "pset (bypassBlock b c F) p \<subseteq> ids F"
      using sy p sb by (auto simp: v(3,4))
    fix q assume "q \<in> ids F"
    then show "(q \<in> sset (bypassBlock b c F) p) = (p \<in> pset (bypassBlock b c F) q)"
      using sy p sb bc b by (auto simp: v(3,4))
  qed
qed

lemma bypassFirst_synced: "synced F \<Longrightarrow> synced (snd (bypassFirst bs F))"
  by (induction bs) (auto simp: bypassBlock_synced split: option.splits)

subsection \<open>Merging keeps the edges\<close>

text \<open>
  The shape of a block: for every instruction whether it is a phi, whether it is a conditional
  branch, and where it branches to.  A function is tidy if only the last instruction of a block
  branches.
\<close>

definition isCond :: "inst_body \<Rightarrow> bool" where
  "isCond t = (case t of CondBranchInst _ _ _ \<Rightarrow> True | _ \<Rightarrow> False)"

definition sig :: "inst \<Rightarrow> bool \<times> bool \<times> nat list" where
  "sig i = (isPhi i, isCond (i_body i), targets (i_body i))"

definition shape :: "mfunc \<Rightarrow> nat \<Rightarrow> (bool \<times> bool \<times> nat list) list" where
  "shape F p = map sig (instsOf F p)"

definition tidy :: "mfunc \<Rightarrow> bool" where
  "tidy F \<longleftrightarrow> (\<forall>p. \<forall>x \<in> set (butlast (shape F p)). snd (snd x) = [])"

definition condFree :: "mfunc \<Rightarrow> bool" where
  "condFree F \<longleftrightarrow> (\<forall>p. \<forall>x \<in> set (shape F p). \<not> fst (snd x))"

lemma tset_shape: "tset F p = (if shape F p = [] then {} else set (snd (snd (last (shape F p)))))"
  by (simp add: tset_insts shape_def last_map sig_def)

lemma shape_phi: "x \<in> set (shape F p) \<Longrightarrow> fst x \<Longrightarrow> snd (snd x) = []"
  by (auto simp: shape_def sig_def isPhi_def split: inst_body.splits)

lemma sig_updPhi [simp]: "sig (updPhi f i) = sig i"
  by (cases "i_body i") (simp_all add: updPhi_def isPhi_def sig_def isCond_def)

lemma sig_parent [simp]: "sig (i\<lparr>i_parent := p\<rparr>) = sig i"
  by (simp add: sig_def isPhi_def)

lemma sig_replaceOperand: "sig (i\<lparr>i_body := replaceOperand (VInst n) y (i_body i)\<rparr>) = sig i"
proof -
  have "targets (replaceOperand (VInst n) y (i_body i)) = targets (i_body i)"
    by (simp add: targets_replaceOperand replB_ident)
  then show ?thesis by (cases "i_body i") (simp_all add: sig_def isPhi_def isCond_def)
qed

lemma shape_edges [simp]:
  "shape (updBlock p (addSuccessor s) F) q = shape F q" "shape (updBlock p (addPredecessor s) F) q = shape F q"
  "shape (updBlock p (removeSuccessor s) F) q = shape F q"
  "shape (updBlock p (removePredecessor s) F) q = shape F q"
  by (simp_all add: shape_def)

lemma shape_setInsts:
  "p \<in> ids F \<Longrightarrow> shape (updBlock p (setInsts f) F) q =
     (if q = p then map sig (f (instsOf F p)) else shape F q)"
  by (simp add: shape_def instsOf_setInsts)

lemma instsOf_outside: "p \<notin> ids F \<Longrightarrow> instsOf (updBlock p (setInsts f) F) q = instsOf F q"
  using theBlock_ids [of F p] by (cases "q = p") (simp_all add: instsOf_def theBlock_upd)

lemma shape_mapPhis [simp]: "shape (updBlock p (setInsts (mapPhis f)) F) q = shape F q"
proof -
  have "map sig (mapPhis f is) = map sig is" for "is" by (induction "is") auto
  then show ?thesis
    by (cases "p \<in> ids F") (simp_all add: shape_setInsts, auto simp: shape_def instsOf_outside)
qed

lemma view_replaceAllUses:
  "blockIds (replaceAllUsesInFunction x y F) = blockIds F" "ids (replaceAllUsesInFunction x y F) = ids F"
  "sset (replaceAllUsesInFunction x y F) q = sset F q" "pset (replaceAllUsesInFunction x y F) q = pset F q"
  "instsOf (replaceAllUsesInFunction x y F) q =
     map (\<lambda>i. i\<lparr>i_body := replaceOperand x y (i_body i)\<rparr>) (instsOf F q)"
proof -
  let ?g = "\<lambda>b :: mblock. b\<lparr>instructions := map (\<lambda>i. i\<lparr>i_body := replaceOperand x y (i_body i)\<rparr>) (instructions b)\<rparr>"
  have f: "List.find (\<lambda>b. b_id b = q) (map ?g bs) = map_option ?g (List.find (\<lambda>b. b_id b = q) bs)" for bs
    by (induction bs) auto
  show 1: "blockIds (replaceAllUsesInFunction x y F) = blockIds F"
    by (simp add: replaceAllUsesInFunction_def blockIds_def)
  then show "ids (replaceAllUsesInFunction x y F) = ids F" by (simp add: ids_def)
  show "sset (replaceAllUsesInFunction x y F) q = sset F q" "pset (replaceAllUsesInFunction x y F) q = pset F q"
    "instsOf (replaceAllUsesInFunction x y F) q =
       map (\<lambda>i. i\<lparr>i_body := replaceOperand x y (i_body i)\<rparr>) (instsOf F q)"
    by (cases "List.find (\<lambda>b. b_id b = q) (blocks F)";
        simp add: replaceAllUsesInFunction_def view_defs theBlock_def f)+
qed

lemma shape_replaceAllUses: "shape (replaceAllUsesInFunction (VInst n) y F) q = shape F q"
  by (simp add: shape_def view_replaceAllUses sig_replaceOperand)

lemma moveInst_view:
  assumes "a \<in> ids F" "k < length (shape F b)"
  shows "blockIds (moveInst a b k F) = blockIds F" "ids (moveInst a b k F) = ids F"
    "sset (moveInst a b k F) q = sset F q" "pset (moveInst a b k F) q = pset F q"
    "shape (moveInst a b k F) q =
       (if q = a \<and> \<not> fst (shape F b ! k) then shape F a @ [shape F b ! k] else shape F q)"
proof -
  let ?i = "instsOf F b ! k"
  have sh: "shape F b ! k = sig ?i" "fst (sig ?i) = isPhi ?i"
    using assms(2) by (simp_all add: shape_def sig_def)
  have np: "moveInst a b k F = updBlock a (setInsts (\<lambda>is. is @ [?i\<lparr>i_parent := Some a\<rparr>])) F" if "\<not> isPhi ?i"
    using that by (simp add: moveInst_def isPhi_def split: inst_body.splits)
  have p: "moveInst a b k F = F \<or> (\<exists>n v. moveInst a b k F = replaceAllUsesInFunction (VInst n) v F)"
    if "isPhi ?i"
    using that by (auto simp: moveInst_def isPhi_def Let_def split: inst_body.splits option.splits)
  show "blockIds (moveInst a b k F) = blockIds F" "ids (moveInst a b k F) = ids F"
    "sset (moveInst a b k F) q = sset F q" "pset (moveInst a b k F) q = pset F q"
    using np p by (cases "isPhi ?i"; fastforce simp: view_replaceAllUses)+
  show "shape (moveInst a b k F) q =
       (if q = a \<and> \<not> fst (shape F b ! k) then shape F a @ [shape F b ! k] else shape F q)"
  proof (cases "isPhi ?i")
    case True
    then show ?thesis using p sh shape_replaceAllUses by fastforce
  next
    case False
    show ?thesis using False np sh assms(1) by (simp add: shape_setInsts) (simp add: shape_def)
  qed
qed

lemma moveInsts_view:
  assumes "a \<in> ids F" "n \<le> length (shape F b)" "a \<noteq> b"
  shows "blockIds (fold (moveInst a b) [0..<n] F) = blockIds F \<and> ids (fold (moveInst a b) [0..<n] F) = ids F \<and>
    sset (fold (moveInst a b) [0..<n] F) q = sset F q \<and> pset (fold (moveInst a b) [0..<n] F) q = pset F q \<and>
    shape (fold (moveInst a b) [0..<n] F) q =
      (if q = a then shape F a @ filter (\<lambda>x. \<not> fst x) (take n (shape F b)) else shape F q)"
  using assms(2)
proof (induction n arbitrary: q)
  case (Suc n)
  let ?G = "fold (moveInst a b) [0..<n] F"
  have IH: "blockIds ?G = blockIds F" "ids ?G = ids F" "sset ?G q = sset F q" "pset ?G q = pset F q"
    "shape ?G a = shape F a @ filter (\<lambda>x. \<not> fst x) (take n (shape F b))" "shape ?G b = shape F b"
    "q \<noteq> a \<Longrightarrow> shape ?G q = shape F q"
    using Suc.IH [of q] Suc.IH [of a] Suc.IH [of b] Suc.prems assms(3) by auto
  have n: "n < length (shape ?G b)" "a \<in> ids ?G" using IH Suc.prems assms(1) by simp_all
  show ?case
    using moveInst_view(1,2) [OF n(2,1)] moveInst_view(3-5) [OF n(2,1), of q] IH Suc.prems
    by (simp add: take_Suc_conv_app_nth)
qed simp

lemma mergeSucc_view:
  assumes "a \<in> ids F" "s \<in> ids F" "a \<noteq> b"
  shows "blockIds (mergeSucc a b s F) = blockIds F" "ids (mergeSucc a b s F) = ids F"
    "sset (mergeSucc a b s F) q = (if q = a then insert s (sset F q) else sset F q)"
    "pset (mergeSucc a b s F) q = (if q = s then insert a (pset F q - {b}) else pset F q)"
    "shape (mergeSucc a b s F) q = shape F q"
  using assms by (auto simp: mergeSucc_def Let_def)

lemma mergeSuccs_view:
  assumes "a \<in> ids F" "set ss \<subseteq> ids F" "a \<noteq> b"
  shows "blockIds (fold (mergeSucc a b) ss F) = blockIds F \<and> ids (fold (mergeSucc a b) ss F) = ids F \<and>
    sset (fold (mergeSucc a b) ss F) q = (if q = a then set ss \<union> sset F q else sset F q) \<and>
    pset (fold (mergeSucc a b) ss F) q = (if q \<in> set ss then insert a (pset F q - {b}) else pset F q) \<and>
    shape (fold (mergeSucc a b) ss F) q = shape F q"
  using assms
proof (induction ss arbitrary: F)
  case (Cons s ss)
  then have s: "s \<in> ids F" by simp
  note v1 = mergeSucc_view(1,2) [OF Cons.prems(1) s Cons.prems(3)]
  note v2 = mergeSucc_view(3-5) [OF Cons.prems(1) s Cons.prems(3), of q]
  show ?case using Cons.IH [of "mergeSucc a b s F"] Cons.prems v1 v2 by auto
qed simp

lemma mergeInto_view:
  assumes a: "a \<in> ids F" "b \<in> ids F" "a \<noteq> b" and s: "sset F b \<subseteq> ids F" "b \<notin> sset F b"
  shows "blockIds (mergeInto a b F) = blockIds F" "ids (mergeInto a b F) = ids F"
    "sset (mergeInto a b F) q =
       (if q = b then {} else if q = a then sset F b \<union> (sset F a - {b}) else sset F q)"
    "pset (mergeInto a b F) q =
       (if q = b then {} else if q \<in> sset F b then insert a (pset F q - {b}) else pset F q)"
    "shape (mergeInto a b F) q =
       (if q = b then [] else if q = a then butlast (shape F a) @ filter (\<lambda>x. \<not> fst x) (shape F b)
        else shape F q)"
proof -
  let ?F1 = "updBlock a (setInsts butlast) F"
  have F1: "ids ?F1 = ids F" "instsOf ?F1 b = instsOf F b" "shape ?F1 a = butlast (shape F a)"
    "\<And>q. q \<noteq> a \<Longrightarrow> shape ?F1 q = shape F q" "\<And>q. sset ?F1 q = sset F q" "\<And>q. pset ?F1 q = pset F q"
    "blockIds ?F1 = blockIds F"
    using a by (simp_all add: instsOf_setInsts shape_setInsts) (simp add: shape_def map_butlast)
  define F2 where "F2 = fold (moveInst a b) [0..<length (instsOf ?F1 b)] ?F1"
  have len: "length (instsOf ?F1 b) = length (shape ?F1 b)" by (simp add: shape_def)
  have F2: "blockIds F2 = blockIds F \<and> ids F2 = ids F \<and> sset F2 q = sset F q \<and> pset F2 q = pset F q \<and>
      shape F2 q = (if q = a then butlast (shape F a) @ filter (\<lambda>x. \<not> fst x) (shape F b) else shape F q)" for q
    using moveInsts_view [of a ?F1 "length (shape ?F1 b)" b q] F1 a len by (simp add: F2_def)
  define F4 where "F4 = updBlock a (removeSuccessor b) (updBlock b (setInsts (\<lambda>_. [])) F2)"
  have F4: "blockIds F4 = blockIds F \<and> ids F4 = ids F \<and> sset F4 q = (if q = a then sset F q - {b} else sset F q) \<and>
      pset F4 q = pset F q \<and> shape F4 q = (if q = b then [] else shape F2 q)" for q
    using F2 [of q] a by (auto simp: F4_def shape_setInsts)
  have "set (succsOf F4 b) = sset F b" using F4 [of b] a(3) by (simp add: sset_def)
  then have F5: "blockIds (fold (mergeSucc a b) (succsOf F4 b) F4) = blockIds F"
    "ids (fold (mergeSucc a b) (succsOf F4 b) F4) = ids F"
    "sset (fold (mergeSucc a b) (succsOf F4 b) F4) q = (if q = a then sset F b \<union> sset F4 q else sset F4 q)"
    "pset (fold (mergeSucc a b) (succsOf F4 b) F4) q = (if q \<in> sset F b then insert a (pset F q - {b}) else pset F q)"
    "shape (fold (mergeSucc a b) (succsOf F4 b) F4) q = shape F4 q" for q
    using mergeSuccs_view [of a F4 "succsOf F4 b" b q] F4 a s by auto
  have m: "mergeInto a b F = updBlock b (\<lambda>B. B\<lparr>successors := [], predecessors := []\<rparr>)
             (fold (mergeSucc a b) (succsOf F4 b) F4)"
    by (simp add: mergeInto_def Let_def F2_def F4_def)
  have "(\<lambda>B :: mblock. B\<lparr>successors := [], predecessors := []\<rparr>) = (\<lambda>B. B\<lparr>predecessors := [], successors := []\<rparr>)"
    by (rule ext) simp
  note v = view_clearBlock [of b "fold (mergeSucc a b) (succsOf F4 b) F4", folded this]
  show "blockIds (mergeInto a b F) = blockIds F" "ids (mergeInto a b F) = ids F"
    unfolding m v using F5 by simp_all
  show "sset (mergeInto a b F) q =
       (if q = b then {} else if q = a then sset F b \<union> (sset F a - {b}) else sset F q)"
    unfolding m v using F5(3) [of q] F4 [of q] by auto
  show "pset (mergeInto a b F) q =
       (if q = b then {} else if q \<in> sset F b then insert a (pset F q - {b}) else pset F q)"
    unfolding m v using F5(4) [of q] by auto
  show "shape (mergeInto a b F) q =
       (if q = b then [] else if q = a then butlast (shape F a) @ filter (\<lambda>x. \<not> fst x) (shape F b)
        else shape F q)"
    unfolding m shape_def v using F5(5) [of q] F4 [of q] F2 [of q] a(3) by (auto simp: shape_def)
qed

lemma set_butlast_filter: "set (butlast (filter P xs)) \<subseteq> set (butlast xs)"
proof (induction xs rule: rev_induct)
  case (snoc x xs)
  then show ?case by (auto dest: in_set_butlastD)
qed simp

lemma mergeTarget_Some:
  assumes "mergeTarget F a = Some b"
  shows "a \<noteq> b \<and> pset F b = {a} \<and> tset F a = {b} \<and> getEntryBlock F \<noteq> Some b"
  using assms by (auto simp: mergeTarget_def tset_def pset_def split: option.splits inst_body.splits if_splits)

lemma mergeInto_tset:
  assumes "tidy F" "a \<in> ids F" "b \<in> ids F" "a \<noteq> b" "sset F b \<subseteq> ids F" "b \<notin> sset F b"
  shows "tset (mergeInto a b F) a = tset F b" "tidy (mergeInto a b F)"
proof -
  let ?A = "butlast (shape F a)" and ?B = "shape F b" and ?P = "\<lambda>x. \<not> fst x"
  note v = mergeInto_view(5) [OF assms(2-6)]
  have tA: "\<forall>x \<in> set ?A. snd (snd x) = []" and tB: "\<forall>x \<in> set (butlast ?B). snd (snd x) = []"
    using assms(1) by (simp_all add: tidy_def)
  show "tset (mergeInto a b F) a = tset F b"
  proof (cases "filter ?P ?B = []")
    case True
    then have "tset F b = {}"
      using shape_phi [of "last ?B" F b] by (auto simp: tset_shape filter_empty_conv)
    moreover have "tset (mergeInto a b F) a = {}"
      using True tA assms(4) last_in_set [of ?A] by (auto simp: tset_shape v)
    ultimately show ?thesis by simp
  next
    case False
    then obtain ys y where B: "?B = ys @ [y]" by (cases ?B rule: rev_cases) auto
    show ?thesis
    proof (cases "fst y")
      case True
      then have f: "filter ?P ?B = filter ?P ys" using B by simp
      have "last (filter ?P ys) \<in> set ys" using False f last_in_set [of "filter ?P ys"] by auto
      then have "snd (snd (last (filter ?P ys))) = []" using tB B by simp
      moreover have "snd (snd y) = []" using shape_phi [of y F b] True B by simp
      ultimately show ?thesis using False f B assms(4) by (simp add: tset_shape v)
    qed (use B assms(4) in \<open>simp add: tset_shape v\<close>)
  qed
  have "snd (snd x) = []" if "x \<in> set (butlast (?A @ filter ?P ?B))" for x
    using that tA tB set_butlast_filter [of ?P ?B]
    by (auto simp: butlast_append split: if_splits dest: in_set_butlastD)
  then show "tidy (mergeInto a b F)"
    using assms(1) by (auto simp: tidy_def v)
qed

lemma mergeInto_synced:
  assumes s: "synced F" and td: "tidy F" and t: "mergeTarget F a = Some b"
  shows "synced (mergeInto a b F) \<and> tidy (mergeInto a b F)"
proof -
  have ab: "a \<noteq> b" "pset F b = {a}" "tset F a = {b}" using mergeTarget_Some [OF t] by auto
  have b: "b \<in> ids F" using ab(2) outside_ids by blast
  have sy: "\<forall>p \<in> ids F. (sset F p = tset F p \<or> detached F p \<and> getEntryBlock F \<noteq> Some p) \<and>
        sset F p \<subseteq> ids F \<and> pset F p \<subseteq> ids F \<and> (\<forall>q \<in> ids F. q \<in> sset F p \<longleftrightarrow> p \<in> pset F q)" and d: "distinct (blockIds F)"
    using s by (simp_all add: synced_def)
  have a: "a \<in> ids F" "b \<in> sset F a" using synced_pred [OF s b] ab(2) by auto
  then have sa: "sset F a = {b}" using synced_attached [OF s a(1)] ab(3) by auto
  have sb: "sset F b = tset F b" "sset F b \<subseteq> ids F" "b \<notin> sset F b"
    using synced_attached [OF s b] synced_succ [OF s b] synced_succ [OF s b, of b] ab by auto
  have ss: "sset F p = tset F p" if "p \<in> sset F b" for p
    using synced_attached [OF s] synced_succ [OF s b that] by blast
  note a = a(1)
  note v = mergeInto_view [OF a b ab(1) sb(2,3)] and m = mergeInto_tset [OF td a b ab(1) sb(2,3)]
  have tq: "tset (mergeInto a b F) q = (if q = a then tset F b else if q = b then {} else tset F q)" for q
    using m(1) ab(1) by (cases "q = a") (simp_all add: tset_shape v(5))
  have "synced (mergeInto a b F)"
    unfolding synced_def v(1,2)
  proof (intro conjI ballI d)
    fix p assume p: "p \<in> ids F"
    show "sset (mergeInto a b F) p = tset (mergeInto a b F) p \<or>
        detached (mergeInto a b F) p \<and> getEntryBlock (mergeInto a b F) \<noteq> Some p"
      unfolding getEntryBlock_cong [OF v(1)]
      using sy p ab sa sb ss by (auto simp: v(3,4) tq detached_def)
    show "sset (mergeInto a b F) p \<subseteq> ids F" "pset (mergeInto a b F) p \<subseteq> ids F"
      using sy p sb a by (auto simp: v(3,4))
    fix q assume "q \<in> ids F"
    then show "(q \<in> sset (mergeInto a b F) p) = (p \<in> pset (mergeInto a b F) q)"
      using sy p sa sb ab b a by (auto simp: v(3,4))
  qed
  with m(2) show ?thesis by simp
qed

lemma mergeFirst_synced:
  "synced F \<Longrightarrow> tidy F \<Longrightarrow> synced (snd (mergeFirst as F)) \<and> tidy (snd (mergeFirst as F))"
  by (induction as) (auto simp: mergeInto_synced split: option.splits)

subsection \<open>The rest of the invariant\<close>

lemma healBlock_shape: "shape (healBlock b F) q = shape F q"
proof (cases "termOf F b")
  case (Some t)
  have "shape (fold (addEdge b) ts F) q = shape F q" for ts by (simp add: shape_def)
  with Some show ?thesis by (simp add: healBlock_def Let_def)
qed (simp add: healBlock_def)

lemma heal_shape: "shape (heal F) q = shape F q"
proof -
  have "shape (fold healBlock bs G) q = shape G q" for bs G
    by (induction bs arbitrary: G) (simp_all add: healBlock_shape)
  moreover have "shape (clearEdges F) q = shape F q"
  proof -
    have "List.find (\<lambda>b. b_id b = q) (map (\<lambda>b. b\<lparr>successors := [], predecessors := []\<rparr>) bs) =
      map_option (\<lambda>b. b\<lparr>successors := [], predecessors := []\<rparr>) (List.find (\<lambda>b. b_id b = q) bs)" for bs :: "mblock list"
      by (induction bs) auto
    then show ?thesis
      by (cases "theBlock F q") (simp_all add: clearEdges_def shape_def instsOf_def theBlock_def)
  qed
  ultimately show ?thesis by (simp add: heal_def)
qed

lemma heal_tidy: "tidy (heal F) \<longleftrightarrow> tidy F" "condFree (heal F) \<longleftrightarrow> condFree F"
  by (simp_all add: tidy_def condFree_def heal_shape)

lemma bypassPred_insts:
  "shape (bypassPred b c a F) q =
     shape (updBlock a (updLast (\<lambda>i. i\<lparr>i_body := replaceTargetBlock b c (i_body i)\<rparr>)) F) q"
  by (simp add: bypassPred_def Let_def)

lemma sig_replaceTarget: "fst (snd (sig (i\<lparr>i_body := replaceTargetBlock b c (i_body i)\<rparr>))) = fst (snd (sig i))"
  by (cases "i_body i") (simp_all add: sig_def isCond_def)

lemma bypassPred_shape:
  "butlast (shape (bypassPred b c a F) q) = butlast (shape F q) \<and>
   map (\<lambda>x. fst (snd x)) (shape (bypassPred b c a F) q) = map (\<lambda>x. fst (snd x)) (shape F q)"
  unfolding bypassPred_insts
  by (cases "instsOf F q" rule: rev_cases) (auto simp: shape_def view_updLast sig_replaceTarget)

lemma bypassBlock_shape:
  "butlast (shape (bypassBlock b c F) q) = butlast (shape F q) \<and>
   map (\<lambda>x. fst (snd x)) (shape (bypassBlock b c F) q) = map (\<lambda>x. fst (snd x)) (shape F q)"
proof -
  have "butlast (shape (fold (bypassPred b c) as G) q) = butlast (shape G q) \<and>
    map (\<lambda>x. fst (snd x)) (shape (fold (bypassPred b c) as G) q) = map (\<lambda>x. fst (snd x)) (shape G q)" for as G
    by (induction as arbitrary: G) (auto simp: bypassPred_shape)
  moreover have "shape (updBlock p (\<lambda>B. B\<lparr>predecessors := [], successors := []\<rparr>) G) q = shape G q" for p G
    by (simp add: shape_def view_clearBlock)
  ultimately show ?thesis by (simp add: bypassBlock_def Let_def)
qed

lemma condFree_map: "condFree F \<longleftrightarrow> (\<forall>p. \<forall>c \<in> set (map (\<lambda>x. fst (snd x)) (shape F p)). \<not> c)"
  by (auto simp: condFree_def)

lemma bypassBlock_tidy:
  "tidy F \<Longrightarrow> tidy (bypassBlock b c F)" "condFree F \<Longrightarrow> condFree (bypassBlock b c F)"
  using bypassBlock_shape [of b c F] by (simp add: tidy_def, simp only: condFree_map)

lemma mergeInto_condFree:
  assumes "condFree F" "a \<in> ids F" "b \<in> ids F" "a \<noteq> b" "sset F b \<subseteq> ids F" "b \<notin> sset F b"
  shows "condFree (mergeInto a b F)"
  using assms(1) mergeInto_view(5) [OF assms(2-6)]
  by (auto simp: condFree_def dest: in_set_butlastD)

lemma foldBranches_condFree:
  assumes "condFree F"
  shows "foldBranches F = (False, F)"
proof -
  have "foldBlock b (False, F) = (False, F)" for b
  proof -
    have "\<not> isCond (i_body (last (instsOf F b)))" if "instsOf F b \<noteq> []"
      using assms last_in_set [OF that] unfolding condFree_def shape_def sig_def by auto
    then show ?thesis
      by (cases "instsOf F b = []")
         (auto simp: foldBlock_def termOf_def isCond_def split: inst_body.splits)
  qed
  then have "fold foldBlock bs (False, F) = (False, F)" for bs by (induction bs) auto
  then show ?thesis by (simp add: foldBranches_def)
qed

subsection \<open>The loop ends where no branch is folded\<close>

definition cfgOk :: "mfunc \<Rightarrow> bool" where
  "cfgOk F \<longleftrightarrow> synced F \<and> tidy F \<and> condFree F"

definition liveHeads :: "mfunc \<Rightarrow> nat" where
  "liveHeads F = card {p \<in> ids F. pset F p \<noteq> {}}"

lemma finite_heads [simp]: "finite {p \<in> ids F. P p}"
  by (simp add: ids_def)

lemma liveHeads_less:
  assumes "ids G = ids F" "b \<in> ids F" "pset F b \<noteq> {}" "pset G b = {}"
    and "\<And>p. p \<in> ids F \<Longrightarrow> pset G p \<noteq> {} \<Longrightarrow> pset F p \<noteq> {}"
  shows "liveHeads G < liveHeads F"
  unfolding liveHeads_def assms(1) by (rule psubset_card_mono) (use assms in auto)

lemma bypass_step:
  assumes "cfgOk F" "bypassTarget F b = Some c"
  shows "cfgOk (bypassBlock b c F) \<and> liveHeads (bypassBlock b c F) < liveHeads F \<and>
         blockIds (bypassBlock b c F) = blockIds F"
proof -
  have s: "synced F" using assms(1) by (simp add: cfgOk_def)
  have bc: "b \<noteq> c" "tset F b = {c}" "pset F b \<noteq> {}" using bypassTarget_Some [OF assms(2)] by auto
  then have b: "b \<in> ids F" using outside_ids by blast
  have "sset F b = {c}" using synced_attached [OF s b] bc by simp
  then have c: "c \<in> ids F" "b \<in> pset F c" "pset F b \<subseteq> ids F"
    using synced_succ [OF s b] synced_pred [OF s b] by auto
  note v = bypassBlock_view [OF c(3,1) bc(1)]
  have "liveHeads (bypassBlock b c F) < liveHeads F"
    using c bc b by (intro liveHeads_less [of _ _ b]) (auto simp: v split: if_splits)
  moreover have "cfgOk (bypassBlock b c F)"
    using assms bypassBlock_synced bypassBlock_tidy by (simp add: cfgOk_def)
  ultimately show ?thesis by (simp add: v)
qed

lemma merge_step:
  assumes "cfgOk F" "mergeTarget F a = Some b"
  shows "cfgOk (mergeInto a b F) \<and> liveHeads (mergeInto a b F) < liveHeads F \<and>
         blockIds (mergeInto a b F) = blockIds F"
proof -
  have s: "synced F" using assms(1) by (simp add: cfgOk_def)
  have ab: "a \<noteq> b" "pset F b = {a}" using mergeTarget_Some [OF assms(2)] by auto
  have b: "b \<in> ids F" using ab(2) outside_ids by blast
  have a: "a \<in> ids F" using synced_pred [OF s b] ab(2) by auto
  have sb: "sset F b \<subseteq> ids F" "b \<notin> sset F b"
    using synced_succ [OF s b] synced_succ [OF s b, of b] ab by auto
  note v = mergeInto_view [OF a b ab(1) sb]
  have "liveHeads (mergeInto a b F) < liveHeads F"
    using ab b synced_succ [OF s b] by (intro liveHeads_less [of _ _ b]) (auto simp: v split: if_splits)
  moreover have "cfgOk (mergeInto a b F)"
    using assms mergeInto_synced mergeInto_condFree [OF _ a b ab(1) sb] by (simp add: cfgOk_def)
  ultimately show ?thesis by (simp add: v)
qed

lemma bypassFirst_step:
  "cfgOk F \<Longrightarrow> cfgOk (snd (bypassFirst bs F)) \<and> liveHeads (snd (bypassFirst bs F)) \<le> liveHeads F \<and>
     blockIds (snd (bypassFirst bs F)) = blockIds F \<and>
     (fst (bypassFirst bs F) \<longrightarrow> liveHeads (snd (bypassFirst bs F)) < liveHeads F)"
  by (induction bs) (auto simp: bypass_step less_imp_le split: option.splits)

lemma mergeFirst_step:
  "cfgOk F \<Longrightarrow> cfgOk (snd (mergeFirst as F)) \<and> liveHeads (snd (mergeFirst as F)) \<le> liveHeads F \<and>
     blockIds (snd (mergeFirst as F)) = blockIds F \<and>
     (fst (mergeFirst as F) \<longrightarrow> liveHeads (snd (mergeFirst as F)) < liveHeads F)"
  by (induction as) (auto simp: merge_step less_imp_le split: option.splits)

lemma simplifyRound_step:
  assumes "cfgOk F" "simplifyRound F = (c, F')"
  shows "cfgOk F' \<and> blockIds F' = blockIds F \<and> (c \<longrightarrow> liveHeads F' < liveHeads F)"
proof -
  obtain c2 F2 where 2: "bypassEmptyBlocks F = (c2, F2)" by fastforce
  obtain c3 F3 where 3: "mergeBlocks F2 = (c3, F3)" by fastforce
  have f: "foldBranches F = (False, F)" using assms(1) foldBranches_condFree by (simp add: cfgOk_def)
  have r: "c = (c2 \<or> c3)" "F' = F3" using assms(2) f 2 3 by (auto simp: simplifyRound_def)
  have "cfgOk F2" "blockIds F2 = blockIds F" "liveHeads F2 \<le> liveHeads F" "c2 \<longrightarrow> liveHeads F2 < liveHeads F"
    using bypassFirst_step [OF assms(1), of "blockIds F"] 2 by (simp_all add: bypassEmptyBlocks_def)
  moreover from this have "cfgOk F3" "blockIds F3 = blockIds F2" "liveHeads F3 \<le> liveHeads F2" "c3 \<longrightarrow> liveHeads F3 < liveHeads F2"
    using mergeFirst_step [of F2 "blockIds F2"] 3 by (simp_all add: mergeBlocks_def)
  ultimately show ?thesis using r by auto
qed

lemma simplifyLoop_ends: "cfgOk F \<Longrightarrow> \<exists>c' F'. simplifyLoop F c = Some (c', F') \<and> cfgOk F' \<and> blockIds F' = blockIds F"
proof (induction "liveHeads F" arbitrary: F c rule: less_induct)
  case less
  obtain d F1 where r: "simplifyRound F = (d, F1)" by fastforce
  from simplifyRound_step [OF less.prems r] have 1: "cfgOk F1" "blockIds F1 = blockIds F" "d \<longrightarrow> liveHeads F1 < liveHeads F"
    by auto
  show ?case
  proof (cases d)
    case True
    with less.hyps [of F1 True] 1 r show ?thesis by (subst simplifyLoop.simps) simp
  next
    case False
    with 1 r show ?thesis by (subst simplifyLoop.simps) simp
  qed
qed

subsection \<open>The dead block sweep\<close>

lemma severSuccs_view:
  "blockIds (fold (severSucc b) ss F) = blockIds F \<and> sset (fold (severSucc b) ss F) q = sset F q \<and>
   tset (fold (severSucc b) ss F) q = tset F q \<and>
   pset (fold (severSucc b) ss F) q = (if q \<in> set ss then pset F q - {b} else pset F q)"
  by (induction ss arbitrary: F) (auto simp: severSucc_def)

lemma theBlock_filter:
  "theBlock (F\<lparr>blocks := filter (\<lambda>B. b_id B \<noteq> b) (blocks F)\<rparr>) q = (if q = b then None else theBlock F q)"
proof -
  have "List.find (\<lambda>B. b_id B = q) (filter (\<lambda>B. b_id B \<noteq> b) bs) =
    (if q = b then None else List.find (\<lambda>B. b_id B = q) bs)" for bs :: "mblock list"
    by (induction bs) auto
  then show ?thesis by (simp add: theBlock_def)
qed

lemma eraseBlock_view:
  "blockIds (eraseBlock b F) = filter (\<lambda>p. p \<noteq> b) (blockIds F)"
  "sset (eraseBlock b F) q = (if q = b then {} else sset F q)"
  "tset (eraseBlock b F) q = (if q = b then {} else tset F q)"
  "pset (eraseBlock b F) q = (if q = b then {} else if q \<in> sset F b then pset F q - {b} else pset F q)"
proof -
  let ?G = "fold (severSucc b) (succsOf F b) F"
  note v = severSuccs_view [of b "succsOf F b" F]
  have e: "eraseBlock b F = ?G\<lparr>blocks := filter (\<lambda>B. b_id B \<noteq> b) (blocks ?G)\<rparr>"
    by (simp add: eraseBlock_def Let_def)
  have "blockIds (eraseBlock b F) = filter (\<lambda>p. p \<noteq> b) (blockIds ?G)"
    by (simp add: e blockIds_def filter_map comp_def)
  then show "blockIds (eraseBlock b F) = filter (\<lambda>p. p \<noteq> b) (blockIds F)" using v by simp
  have w: "sset (eraseBlock b F) q = (if q = b then {} else sset ?G q)"
    "tset (eraseBlock b F) q = (if q = b then {} else tset ?G q)"
    "pset (eraseBlock b F) q = (if q = b then {} else pset ?G q)"
    unfolding e by (simp_all add: view_defs theBlock_filter)
  show "sset (eraseBlock b F) q = (if q = b then {} else sset F q)"
    "tset (eraseBlock b F) q = (if q = b then {} else tset F q)"
    "pset (eraseBlock b F) q = (if q = b then {} else if q \<in> sset F b then pset F q - {b} else pset F q)"
    using v [of q] w by (auto simp: sset_def)
qed

lemma eraseBlocks_view:
  "blockIds (fold eraseBlock ds F) = filter (\<lambda>p. p \<notin> set ds) (blockIds F) \<and>
   sset (fold eraseBlock ds F) q = (if q \<in> set ds then {} else sset F q) \<and>
   tset (fold eraseBlock ds F) q = (if q \<in> set ds then {} else tset F q) \<and>
   (q \<notin> set ds \<longrightarrow> pset (fold eraseBlock ds F) q = pset F q - {d \<in> set ds. q \<in> sset F d})"
proof (induction ds arbitrary: F)
  case (Cons d ds)
  show ?case
    using Cons.IH [of "eraseBlock d F"] eraseBlock_view(1) [of d F] eraseBlock_view(2-4) [of d F q]
      eraseBlock_view(2) [of d F]
    by (auto simp: conj_commute split: if_splits)
qed simp

lemma truePreds_ids:
  assumes "distinct (blockIds F)"
  shows "truePreds F p = [] \<longleftrightarrow> (\<forall>q \<in> ids F. p \<notin> sset F q)"
proof -
  have s: "succsOf F (b_id b) = successors b" if "b \<in> set (blocks F)" for b
  proof -
    have "List.find (\<lambda>c. b_id c = b_id b) bs = Some b" if "b \<in> set bs" "distinct (map b_id bs)" for bs
      using that by (induction bs) force+
    then show ?thesis using assms that by (simp add: succsOf_def theBlock_def blockIds_def)
  qed
  have "truePreds F p = [] \<longleftrightarrow> (\<forall>b \<in> set (blocks F). p \<notin> set (successors b))"
    by (auto simp: truePreds_def filter_empty_conv)
  also have "\<dots> \<longleftrightarrow> (\<forall>q \<in> ids F. p \<notin> sset F q)"
    using s by (auto simp: ids_def blockIds_def sset_def)
  finally show ?thesis .
qed

lemma deadIds_set:
  "distinct (blockIds F) \<Longrightarrow>
   set (deadIds F) = {p \<in> ids F. getEntryBlock F \<noteq> Some p \<and> (\<forall>q \<in> ids F. p \<notin> sset F q)}"
  by (auto simp: deadIds_def truePreds_ids ids_def)

lemma sweepOnce_entry:
  assumes "distinct (blockIds F)"
  shows "getEntryBlock (sweepOnce F) = getEntryBlock F"
proof (cases "blockIds F")
  case Nil
  then show ?thesis using eraseBlocks_view [of "deadIds F" F] by (simp add: sweepOnce_def getEntryBlock_ids)
next
  case (Cons e es)
  then have "e \<notin> set (deadIds F)" using deadIds_set [OF assms] by (simp add: getEntryBlock_ids)
  then show ?thesis
    using Cons eraseBlocks_view [of "deadIds F" F] by (simp add: sweepOnce_def getEntryBlock_ids)
qed

lemma sweepOnce_synced:
  assumes s: "synced F"
  shows "synced (sweepOnce F)"
proof -
  have d: "distinct (blockIds F)" using s by (simp add: synced_def)
  note dead = deadIds_set [OF d]
  note v = eraseBlocks_view [of "deadIds F" F, folded sweepOnce_def]
  have i: "ids (sweepOnce F) = ids F - set (deadIds F)" using v by (auto simp: ids_def)
  have live: "sset F p \<subseteq> ids F - set (deadIds F)" if "p \<in> ids F" for p
    using that synced_succ [OF s that] dead by blast
  show ?thesis
    unfolding synced_def i sweepOnce_entry [OF d]
  proof (intro conjI ballI)
    show "distinct (blockIds (sweepOnce F))" using v d by simp
    fix p assume p: "p \<in> ids F - set (deadIds F)"
    then show "sset (sweepOnce F) p = tset (sweepOnce F) p \<or>
        detached (sweepOnce F) p \<and> getEntryBlock F \<noteq> Some p"
      using s v [of p] by (auto simp: synced_def detached_def)
    show "sset (sweepOnce F) p \<subseteq> ids F - set (deadIds F)" using live v [of p] p by auto
    show "pset (sweepOnce F) p \<subseteq> ids F - set (deadIds F)"
      using synced_pred [OF s, of p] v [of p] p by auto
    fix q assume q: "q \<in> ids F - set (deadIds F)"
    show "(q \<in> sset (sweepOnce F) p) = (p \<in> pset (sweepOnce F) q)"
      using s p q v [of p] v [of q] by (auto simp: synced_def)
  qed
qed

text \<open>The blocks control can reach from the entry.\<close>

inductive reachable :: "mfunc \<Rightarrow> nat \<Rightarrow> bool" for F where
  entry: "getEntryBlock F = Some e \<Longrightarrow> reachable F e"
| step: "reachable F p \<Longrightarrow> q \<in> tset F p \<Longrightarrow> reachable F q"

lemma reachable_attached:
  assumes s: "synced F" and r: "reachable F p"
  shows "p \<in> ids F \<and> sset F p = tset F p"
  using r
proof (induction rule: reachable.induct)
  case (entry e)
  then have "e \<in> ids F" by (auto simp: getEntryBlock_ids ids_def split: list.splits)
  with entry s show ?case by (auto simp: synced_def)
next
  case (step p q)
  then have q: "q \<in> sset F p" by simp
  with step synced_succ [OF s] have "q \<in> ids F" "p \<in> pset F q" by blast+
  then show ?case using synced_attached [OF s] by blast
qed

lemma sweepOnce_reachable:
  assumes s: "synced F" and r: "reachable F p"
  shows "reachable (sweepOnce F) p \<and> p \<notin> set (deadIds F)"
proof -
  have d: "distinct (blockIds F)" using s by (simp add: synced_def)
  note v = eraseBlocks_view [of "deadIds F" F, folded sweepOnce_def] and dead = deadIds_set [OF d]
  show ?thesis
    using r
  proof (induction rule: reachable.induct)
    case (entry e)
    then show ?case using sweepOnce_entry [OF d] dead reachable.entry by auto
  next
    case (step p q)
    have "q \<in> sset F p" "p \<in> ids F" using reachable_attached [OF s step.hyps(1)] step.hyps(2) by auto
    then have "q \<notin> set (deadIds F)" using dead by blast
    moreover have "q \<in> tset (sweepOnce F) p" using v [of p] step by simp
    ultimately show ?case using step.IH reachable.step by blast
  qed
qed

lemma removeDeadBlocks_props:
  "synced F \<Longrightarrow> synced (removeDeadBlocks F) \<and> getEntryBlock (removeDeadBlocks F) = getEntryBlock F \<and>
     (\<forall>p. reachable F p \<longrightarrow> reachable (removeDeadBlocks F) p) \<and> deadIds (removeDeadBlocks F) = [] \<and>
     ids (removeDeadBlocks F) \<subseteq> ids F \<and>
     (\<forall>p \<in> ids (removeDeadBlocks F). tset (removeDeadBlocks F) p = tset F p)"
proof (induction F rule: removeDeadBlocks.induct)
  case (1 F)
  show ?case
  proof (cases "deadIds F = []")
    case True
    then show ?thesis using "1.prems" by (simp add: removeDeadBlocks.simps [of F])
  next
    case False
    have s: "synced (sweepOnce F)" by (rule sweepOnce_synced [OF "1.prems"])
    have d: "distinct (blockIds F)" using "1.prems" by (simp add: synced_def)
    note v = eraseBlocks_view [of "deadIds F" F, folded sweepOnce_def]
    have i: "ids (sweepOnce F) = ids F - set (deadIds F)" using v by (auto simp: ids_def)
    have eq: "removeDeadBlocks F = removeDeadBlocks (sweepOnce F)"
      using False by (simp add: removeDeadBlocks.simps [of F])
    show ?thesis
      unfolding eq
      using "1.IH" [OF False s] sweepOnce_entry [OF d] sweepOnce_reachable [OF "1.prems"] i v by auto
  qed
qed

lemma sweep_closed:
  assumes s: "synced F"
  shows "closed (removeDeadBlocks F) \<and>
    (\<forall>p \<in> ids (removeDeadBlocks F). getEntryBlock F \<noteq> Some p \<longrightarrow>
        (\<exists>q \<in> ids (removeDeadBlocks F). p \<in> tset (removeDeadBlocks F) q))"
proof -
  let ?G = "removeDeadBlocks F"
  have G: "synced ?G" "getEntryBlock ?G = getEntryBlock F" "deadIds ?G = []"
    using removeDeadBlocks_props [OF s] by auto
  then have d: "distinct (blockIds ?G)" by (simp add: synced_def)
  have pred: "\<exists>q \<in> ids ?G. p \<in> sset ?G q" if "p \<in> ids ?G" "getEntryBlock F \<noteq> Some p" for p
    using that deadIds_set [OF d] G by auto
  have att: "sset ?G p = tset ?G p" if p: "p \<in> ids ?G" for p
  proof (cases "getEntryBlock F = Some p")
    case True
    with p G(1,2) show ?thesis by (auto simp: synced_def)
  next
    case False
    with pred [OF p] synced_succ [OF G(1)] have "pset ?G p \<noteq> {}" by blast
    with synced_attached [OF G(1) p] show ?thesis by blast
  qed
  have "closed ?G" using G(1) att by (auto simp: closed_def synced_def)
  with pred att show ?thesis by auto
qed

lemma runOnFunction_condFree:
  assumes "closed F" "tidy F" "condFree F"
  shows "\<exists>c G. runOnFunction F = Some (c, G) \<and> closed G \<and> getEntryBlock G = getEntryBlock F \<and>
     (\<forall>p \<in> ids G. getEntryBlock F \<noteq> Some p \<longrightarrow> (\<exists>q \<in> ids G. p \<in> tset G q))"
proof -
  have "cfgOk (heal F)" using assms heal_synced_aux by (simp add: cfgOk_def heal_tidy)
  then obtain c F1 where l: "simplifyLoop (heal F) False = Some (c, F1)" "synced F1" "blockIds F1 = blockIds F"
    using simplifyLoop_ends [of "heal F" False] by (auto simp: cfgOk_def heal_view)
  have e: "getEntryBlock F1 = getEntryBlock F" by (rule getEntryBlock_cong [OF l(3)])
  show ?thesis
    using l(1) sweep_closed [OF l(2)] removeDeadBlocks_props [OF l(2)]
    by (simp add: runOnFunction_def Let_def e)
qed

subsection \<open>Branch folding drops live edges\<close>

lemma simplifyLoop_diverges:
  assumes S: "\<And>G. G \<in> S \<Longrightarrow> \<exists>H \<in> S. simplifyRound G = (True, H)" and F: "F \<in> S"
  shows "simplifyLoop F c = None"
proof (rule ccontr)
  assume "simplifyLoop F c \<noteq> None"
  then obtain r where r: "simplifyLoop F c = Some r" by blast
  have "(\<lambda>(F, c) r. F \<notin> S) (F, c) r"
    using _ r
  proof (rule simplifyLoop.raw_induct)
    fix loop G d r
    assume IH: "\<And>G d r. loop G d = Some r \<Longrightarrow> (\<lambda>(F, c) r. F \<notin> S) (G, d) r"
      and b: "(case simplifyRound G of (l, F1) \<Rightarrow> if l then loop F1 True else Some (d, F1)) = Some r"
    show "(\<lambda>(F, c) r. F \<notin> S) (G, d) r"
    proof (cases "G \<in> S")
      case True
      then obtain H where "H \<in> S" "simplifyRound G = (True, H)" using S by blast
      with b IH [of H True r] show ?thesis by simp
    qed simp
  qed
  with F show False by simp
qed

text \<open>
  Small functions: block \<open>p\<close> with the given instructions, numbered from \<open>100 * p\<close>.
\<close>

definition exBlock :: "nat \<Rightarrow> inst_body list \<Rightarrow> mblock" where
  "exBlock p bs = (mkBlock p [])\<lparr>instructions :=
     map (\<lambda>(k, b). \<lparr>i_id = 100 * p + k, i_type = None, i_name = [], i_loc = 0, i_borrow = Borrow_None,
                     i_parent = Some p, i_body = b\<rparr>) (enumerate 0 bs)\<rparr>"

definition exFunc :: "mblock list \<Rightarrow> mfunc" where
  "exFunc bs = (mkFunction None ''f'' Link_External)\<lparr>blocks := bs\<rparr>"

text \<open>\<open>if (c) {} else {} return;\<close>\<close>

definition emptyIf :: mfunc where
  "emptyIf = exFunc [exBlock 0 [CondBranchInst (VArg 0) 1 2], exBlock 1 [BranchInst 3],
                     exBlock 2 [BranchInst 3], exBlock 3 [ReturnInst None]]"

text \<open>Two blocks that test a condition and go to each other either way, behind a branch.\<close>

definition pingPong :: mfunc where
  "pingPong = exFunc [exBlock 0 [CondBranchInst (VArg 0) 1 3], exBlock 1 [CondBranchInst (VArg 1) 2 2],
                      exBlock 2 [CondBranchInst (VArg 1) 1 1], exBlock 3 [ReturnInst None]]"

lemma closed_code [code]:
  "closed F \<longleftrightarrow> distinct (blockIds F) \<and>
     list_all (\<lambda>p. case termOf F p of None \<Rightarrow> True | Some t \<Rightarrow> list_all (\<lambda>q. q \<in> set (blockIds F)) (targets t)) (blockIds F)"
  by (auto simp: closed_def ids_def tset_def list_all_iff split: option.splits)

lemma emptyIf_run:
  "closed emptyIf \<and> (\<exists>c G. runOnFunction emptyIf = Some (c, G) \<and> blockIds G = [0] \<and>
     map i_body (instsOf G 0) = [BranchInst 3])"
proof -
  have "closed emptyIf" by code_simp
  moreover have "(case runOnFunction emptyIf of None \<Rightarrow> False
      | Some (c, G) \<Rightarrow> blockIds G = [0] \<and> map i_body (instsOf G 0) = [BranchInst 3])"
    by code_simp
  ultimately show ?thesis by (auto split: option.splits prod.splits)
qed

lemma pingPong_diverges: "closed pingPong \<and> runOnFunction pingPong = None"
proof -
  let ?G0 = "heal pingPong" and ?G1 = "snd (simplifyRound (heal pingPong))"
  let ?G2 = "snd (simplifyRound (snd (simplifyRound (heal pingPong))))"
  have "fst (simplifyRound ?G0)" "fst (simplifyRound ?G1)" "simplifyRound ?G2 = (True, ?G1)"
    by code_simp+
  then have "simplifyLoop ?G0 False = None"
    by (intro simplifyLoop_diverges [of "{?G0, ?G1, ?G2}"]) (auto simp: prod_eq_iff)
  moreover have "closed pingPong" by code_simp
  ultimately show ?thesis by (simp add: runOnFunction_def)
qed

subsection \<open>Properties of the pass\<close>

text \<open>
  C27: The healer: whatever the edge lists were, afterwards they are exactly the edges the
  terminators define, in both directions.
\<close>

theorem heal_synced:
  assumes "closed F"
  shows "synced (heal F) \<and> (\<forall>p \<in> ids F. sset (heal F) p = tset F p) \<and> blockIds (heal F) = blockIds F"
  using heal_synced_aux [OF assms] by (simp add: heal_view)

theorem heal_synced_witness: "synced (heal emptyIf)"
proof -
  have "closed emptyIf" by code_simp
  from heal_synced [OF this] show ?thesis by blast
qed

lemma bypassFirst_Some:
  "fst (bypassFirst bs F) \<Longrightarrow> \<exists>b k. bypassTarget F b = Some k \<and> snd (bypassFirst bs F) = bypassBlock b k F"
  by (induction bs) (auto split: option.splits)

text \<open>
  Bypassing an empty block keeps the edge lists in step with the terminators, keeps the
  blocks, and takes away every edge into the bypassed block.
\<close>

theorem bypass_keeps_edges:
  assumes "synced F" and "bypassEmptyBlocks F = (c, G)"
  shows "synced G \<and> (c \<longrightarrow> blockIds G = blockIds F \<and>
     (\<exists>b \<in> ids F. pset F b \<noteq> {} \<and> pset G b = {} \<and> (\<forall>q \<in> ids G. b \<notin> sset G q)))"
proof -
  have s: "synced G" using bypassFirst_synced [OF assms(1), of "blockIds F"] assms(2)
    by (simp add: bypassEmptyBlocks_def)
  moreover have "blockIds G = blockIds F \<and>
     (\<exists>b \<in> ids F. pset F b \<noteq> {} \<and> pset G b = {} \<and> (\<forall>q \<in> ids G. b \<notin> sset G q))" if c
  proof -
    obtain b k where bk: "bypassTarget F b = Some k" "G = bypassBlock b k F"
      using bypassFirst_Some [of "blockIds F" F] assms(2) \<open>c\<close> by (auto simp: bypassEmptyBlocks_def)
    have k: "b \<noteq> k" "tset F b = {k}" "pset F b \<noteq> {}" using bypassTarget_Some [OF bk(1)] by auto
    then have b: "b \<in> ids F" "bypassTarget F b = Some k" "G = bypassBlock b k F"
      using outside_ids bk by blast+
    have "sset F b = {k}" using synced_attached [OF assms(1) b(1)] k by simp
    then have "k \<in> ids F" "pset F b \<subseteq> ids F"
      using synced_succ [OF assms(1) b(1)] synced_pred [OF assms(1) b(1)] by auto
    note v = bypassBlock_view [OF this(2,1) k(1)]
    have G: "blockIds G = blockIds F" "ids G = ids F" "pset G b = {}" using v b(3) by simp_all
    then have "\<forall>q \<in> ids G. b \<notin> sset G q" using synced_succ [OF s] b(1) by blast
    with G k(3) b(1) show ?thesis by blast
  qed
  ultimately show ?thesis by blast
qed

theorem bypass_keeps_edges_witness:
  "fst (bypassEmptyBlocks (heal emptyIf)) \<and> synced (snd (bypassEmptyBlocks (heal emptyIf)))"
proof -
  have "closed emptyIf" by code_simp
  then have "synced (heal emptyIf)" by (rule heal_synced_aux)
  from bypass_keeps_edges [OF this prod.collapse [symmetric]] show ?thesis by code_simp
qed

text \<open>Two blocks in a row.\<close>

definition straightLine :: mfunc where
  "straightLine = exFunc [exBlock 0 [BranchInst 1], exBlock 1 [ReturnInst None]]"

lemma straightLine_shape:
  "shape straightLine p =
     (if p = 0 then [(False, False, [1])] else if p = 1 then [(False, False, [])] else [])"
  by (simp add: straightLine_def shape_def instsOf_def theBlock_def exFunc_def exBlock_def mkBlock_def
      sig_def isPhi_def isCond_def enumerate_eq_zip)

lemma straightLine_ok: "closed straightLine" "tidy straightLine" "condFree straightLine"
proof -
  show "closed straightLine" by code_simp
  show "tidy straightLine" "condFree straightLine"
    by (simp_all add: tidy_def condFree_def straightLine_shape)
qed

text \<open>
  Merging a block into its only predecessor keeps the edge lists in step with the
  terminators, keeps terminators last in their blocks, and moves the merged block's outgoing
  edges to the predecessor.
\<close>

theorem merge_keeps_edges:
  assumes "synced F" and "tidy F" and "mergeTarget F a = Some b"
  shows "synced (mergeInto a b F) \<and> tidy (mergeInto a b F) \<and> blockIds (mergeInto a b F) = blockIds F \<and>
     tset (mergeInto a b F) a = tset F b \<and> instsOf (mergeInto a b F) b = []"
proof -
  have ab: "a \<noteq> b" "pset F b = {a}" using mergeTarget_Some [OF assms(3)] by auto
  have b: "b \<in> ids F" using ab(2) outside_ids by blast
  have a: "a \<in> ids F" using synced_pred [OF assms(1) b] ab(2) by auto
  have sb: "sset F b \<subseteq> ids F" "b \<notin> sset F b"
    using synced_succ [OF assms(1) b] synced_succ [OF assms(1) b, of b] ab by auto
  have "shape (mergeInto a b F) b = []" by (simp add: mergeInto_view(5) [OF a b ab(1) sb])
  then show ?thesis
    using mergeInto_synced [OF assms] mergeInto_tset(1) [OF assms(2) a b ab(1) sb]
      mergeInto_view(1) [OF a b ab(1) sb] by (simp add: shape_def)
qed

theorem merge_keeps_edges_witness: "synced (mergeInto 0 1 (heal straightLine))"
proof -
  have s: "synced (heal straightLine)" by (rule heal_synced_aux [OF straightLine_ok(1)])
  have t: "tidy (heal straightLine)" using straightLine_ok(2) by (simp add: heal_tidy)
  have "mergeTarget (heal straightLine) 0 = Some 1" by code_simp
  from merge_keeps_edges [OF s t this] show ?thesis by blast
qed



text \<open>
  C30: On a function without conditional branches the pass ends and its result is well formed: no
  terminator names an erased block, the entry is the same, and every other block left has a
  predecessor left.
\<close>

theorem pass_correct_without_conditions:
  assumes "closed F" "tidy F" "condFree F"
  shows "\<exists>c G. runOnFunction F = Some (c, G) \<and> closed G \<and> getEntryBlock G = getEntryBlock F \<and>
     (\<forall>p \<in> ids G. getEntryBlock F \<noteq> Some p \<longrightarrow> (\<exists>q \<in> ids G. p \<in> tset G q))"
  by (rule runOnFunction_condFree [OF assms])

theorem pass_correct_without_conditions_witness:
  "\<exists>c G. runOnFunction straightLine = Some (c, G) \<and> closed G"
  using pass_correct_without_conditions [OF straightLine_ok] by blast


text \<open>
  The pass does not end on every function: two blocks that branch to each other on either
  outcome of a condition, reached by a conditional branch, are bypassed in turn for ever.
\<close>

theorem pass_does_not_end: "closed pingPong \<and> runOnFunction pingPong = None"
  by (rule pingPong_diverges)

text \<open>
  \<open>replaceAllUsesInFunction\<close> with an instruction as the old value: afterwards no instruction of
  the function uses it, every other use is unchanged, and no terminator changes its targets.
\<close>

theorem replace_all_uses:
  assumes "v \<noteq> VInst n"
  shows "(\<forall>i \<in> set (instsOf (replaceAllUsesInFunction (VInst n) v F) p). VInst n \<notin> set (uses (i_body i))) \<and>
    map (\<lambda>i. uses (i_body i)) (instsOf (replaceAllUsesInFunction (VInst n) v F) p) =
      map (\<lambda>i. map (\<lambda>u. if u = VInst n then v else u) (uses (i_body i))) (instsOf F p) \<and>
    tset (replaceAllUsesInFunction (VInst n) v F) p = tset F p"
proof -
  have "tset (replaceAllUsesInFunction (VInst n) v F) p = tset F p"
    by (simp add: tset_shape shape_replaceAllUses)
  then show ?thesis
    using assms by (auto simp: view_replaceAllUses uses_replaceOperand replV_def [abs_def])
qed

theorem replace_all_uses_witness:
  "map (\<lambda>i. uses (i_body i)) (instsOf (replaceAllUsesInFunction (VInst 7) (VArg 0)
      (exFunc [exBlock 0 [BinaryInst Op_Add (VInst 7) (VArg 1)]])) 0) = [[VArg 0, VArg 1]]"
  using replace_all_uses [of "VArg 0" 7 "exFunc [exBlock 0 [BinaryInst Op_Add (VInst 7) (VArg 1)]]" 0]
  by (simp add: instsOf_def theBlock_def exFunc_def exBlock_def mkBlock_def enumerate_eq_zip)

end
