(* ===== verification/MIRDominance.thy ===== *)
theory MIRDominance
  imports SimplifyCFG
begin

text \<open>
  Dominance (\<open>lib/middle/analysis/MIRDominance.cpp\<close>): immediate dominators by iteration over the
  reverse post-order, the dominator tree, its depth-first numbering, the dominance test and the
  SSA check built on it.

  \<open>std::unordered_map\<close>s are maps; \<open>at\<close> on a missing key (an exception in the code) and a loop that
  never ends are \<open>None\<close>.  The one loop over such a map, which builds the dominator tree, visits the
  keys in an order the standard leaves open: the order is the parameter \<open>iter\<close>.
  The two recursive walks take the list of blocks still to be visited by the loop of their caller.
\<close>

subsection \<open>Operands and reverse post-order\<close>

text \<open>The operands the SSA check looks at.\<close>

fun getOperands :: "inst_body \<Rightarrow> mvalue list" where
  "getOperands (BinaryInst op l r) = [l, r]"
| "getOperands (StoreInst v p al vol) = [v, p]"
| "getOperands (LoadInst p al vol) = [p]"
| "getOperands (StoreWeakInst v p) = [v, p]"
| "getOperands (LoadWeakInst p) = [p]"
| "getOperands (ARCInst op ob df) = [ob]"
| "getOperands (CondBranchInst c t f) = [c]"
| "getOperands (ReturnInst v) = (case v of Some w \<Rightarrow> [w] | None \<Rightarrow> [])"
| "getOperands (CallInst c as va) = c # as"
| "getOperands (InvokeInst c as n u) = c # as"
| "getOperands (ResumeInst e) = (case e of Some w \<Rightarrow> [w] | None \<Rightarrow> [])"
| "getOperands (ThrowInst e u) = [e]"
| "getOperands (InlineAsmInst s c as vol) = as"
| "getOperands (MakeClosureInst f cs) = f # cs"
| "getOperands (SpawnInst c k) = [c]"
| "getOperands (AwaitInst p) = [p]"
| "getOperands (ExtractValueInst a i) = [a]"
| "getOperands (InsertValueInst a v i) = [a, v]"
| "getOperands (CastInst op v off) = [v]"
| "getOperands _ = []"

definition allSuccs :: "mfunc \<Rightarrow> nat set" where
  "allSuccs F = (\<Union>b \<in> set (blocks F). set (successors b))"

lemma finite_allSuccs [simp]: "finite (allSuccs F)"
  by (simp add: allSuccs_def)

lemma succsOf_allSuccs: "set (succsOf F b) \<subseteq> allSuccs F"
  by (fastforce simp: succsOf_def theBlock_def allSuccs_def find_Some_iff2 split: option.splits)

function (domintros) computeRPO :: "mfunc \<Rightarrow> nat list \<Rightarrow> nat list \<Rightarrow> nat list \<Rightarrow> nat list \<times> nat list" where
  "computeRPO F [] rpo visited = (rpo, visited)"
| "computeRPO F (b # bs) rpo visited =
     (if b \<in> set visited then computeRPO F bs rpo visited
      else case computeRPO F (succsOf F b) rpo (b # visited) of
             (rpo1, visited1) \<Rightarrow> computeRPO F bs (rpo1 @ [b]) visited1)"
  by pat_completeness auto

lemma computeRPO_grows:
  "computeRPO_dom (F, bs, r, v) \<Longrightarrow> computeRPO F bs r v = (r1, v1) \<Longrightarrow> set v \<subseteq> set v1"
proof (induction arbitrary: r1 v1 rule: computeRPO.pinduct)
  case (2 F b bs rpo visited)
  show ?case
  proof (cases "b \<in> set visited")
    case True
    then show ?thesis using 2 by (simp add: computeRPO.psimps)
  next
    case False
    obtain r2 v2 where *: "computeRPO F (succsOf F b) rpo (b # visited) = (r2, v2)" by force
    have "set (b # visited) \<subseteq> set v2" using 2(3) False * by blast
    moreover have "set v2 \<subseteq> set v1"
      using 2(4) [OF False * [symmetric]] 2(1,5) False * by (simp add: computeRPO.psimps)
    ultimately show ?thesis by auto
  qed
qed (simp add: computeRPO.psimps)

termination computeRPO
proof (relation "measures [\<lambda>(F, bs, r, v). card ((allSuccs F \<union> set bs) - set v), \<lambda>(F, bs, r, v). length bs]",
       goal_cases)
  case (2 F b bs rpo visited)
  have "(allSuccs F \<union> set bs) - set visited \<subseteq> (allSuccs F \<union> set (b # bs)) - set visited" by auto
  then have "card ((allSuccs F \<union> set bs) - set visited) \<le> card ((allSuccs F \<union> set (b # bs)) - set visited)"
    by (intro card_mono) auto
  then show ?case by (auto simp: le_less)
next
  case (3 F b bs rpo visited)
  have "(allSuccs F \<union> set (succsOf F b)) - set (b # visited) \<subset> (allSuccs F \<union> set (b # bs)) - set visited"
    using 3 succsOf_allSuccs [of F b] by auto
  then have "card ((allSuccs F \<union> set (succsOf F b)) - set (b # visited)) <
             card ((allSuccs F \<union> set (b # bs)) - set visited)"
    by (intro psubset_card_mono) auto
  then show ?case by simp
next
  case (4 F b bs rpo visited r1 v1)
  have "set (b # visited) \<subseteq> set v1"
    using computeRPO_grows [of F "succsOf F b" rpo "b # visited" r1 v1] 4 by simp
  then have "(allSuccs F \<union> set bs) - set v1 \<subseteq> (allSuccs F \<union> set (b # bs)) - set visited" by auto
  then have "card ((allSuccs F \<union> set bs) - set v1) \<le> card ((allSuccs F \<union> set (b # bs)) - set visited)"
    by (intro card_mono) auto
  then show ?case by (auto simp: le_less)
qed simp

declare computeRPO.simps [simp del]

subsection \<open>Immediate dominators\<close>

text \<open>One inner loop of \<open>intersect\<close>: \<open>while (rpoIndex.at(b1) > rpoIndex.at(b2)) b1 = idoms.at(b1)\<close>.\<close>

partial_function (option) climb :: "(nat \<rightharpoonup> nat) \<Rightarrow> (nat \<rightharpoonup> nat) \<Rightarrow> nat \<Rightarrow> nat \<Rightarrow> nat option" where
  "climb rpoIndex idoms b1 b2 =
     (case rpoIndex b1 of None \<Rightarrow> None | Some i1 \<Rightarrow>
      (case rpoIndex b2 of None \<Rightarrow> None | Some i2 \<Rightarrow>
       (if i1 > i2
        then (case idoms b1 of None \<Rightarrow> None | Some c \<Rightarrow> climb rpoIndex idoms c b2)
        else Some b1)))"

partial_function (option) intersect :: "(nat \<rightharpoonup> nat) \<Rightarrow> (nat \<rightharpoonup> nat) \<Rightarrow> nat \<Rightarrow> nat \<Rightarrow> nat option" where
  "intersect rpoIndex idoms b1 b2 =
     (if b1 = b2 then Some b1
      else case climb rpoIndex idoms b1 b2 of None \<Rightarrow> None | Some c1 \<Rightarrow>
             (case climb rpoIndex idoms b2 c1 of None \<Rightarrow> None | Some c2 \<Rightarrow>
                intersect rpoIndex idoms c1 c2))"

declare climb.simps [code] intersect.simps [code]

text \<open>The second loop over the predecessors, from the first one that has a dominator.\<close>

fun meetPreds :: "(nat \<rightharpoonup> nat) \<Rightarrow> (nat \<rightharpoonup> nat) \<Rightarrow> nat list \<Rightarrow> nat \<Rightarrow> nat option" where
  "meetPreds rpoIndex idoms [] newIDom = Some newIDom"
| "meetPreds rpoIndex idoms (p # ps) newIDom =
     (if p \<noteq> newIDom \<and> idoms p \<noteq> None
      then (case intersect rpoIndex idoms p newIDom of None \<Rightarrow> None
            | Some d \<Rightarrow> meetPreds rpoIndex idoms ps d)
      else meetPreds rpoIndex idoms ps newIDom)"

definition updateIDom ::
  "mfunc \<Rightarrow> nat \<Rightarrow> (nat \<rightharpoonup> nat) \<Rightarrow> nat \<Rightarrow> bool \<times> (nat \<rightharpoonup> nat) \<Rightarrow> (bool \<times> (nat \<rightharpoonup> nat)) option" where
  "updateIDom F entry rpoIndex block st =
     (case st of (changed, idoms) \<Rightarrow>
        if block = entry then Some (changed, idoms)
        else (case List.find (\<lambda>p. idoms p \<noteq> None) (predsOf F block) of
                None \<Rightarrow> Some (changed, idoms)
              | Some first \<Rightarrow>
                  (case meetPreds rpoIndex idoms (predsOf F block) first of
                     None \<Rightarrow> None
                   | Some newIDom \<Rightarrow>
                       if idoms block \<noteq> Some newIDom then Some (True, idoms(block \<mapsto> newIDom))
                       else Some (changed, idoms))))"

fun domPass ::
  "mfunc \<Rightarrow> nat \<Rightarrow> (nat \<rightharpoonup> nat) \<Rightarrow> nat list \<Rightarrow> bool \<times> (nat \<rightharpoonup> nat) \<Rightarrow> (bool \<times> (nat \<rightharpoonup> nat)) option" where
  "domPass F entry rpoIndex [] st = Some st"
| "domPass F entry rpoIndex (b # bs) st =
     (case updateIDom F entry rpoIndex b st of None \<Rightarrow> None
      | Some st1 \<Rightarrow> domPass F entry rpoIndex bs st1)"

partial_function (option) domLoop ::
  "mfunc \<Rightarrow> nat \<Rightarrow> (nat \<rightharpoonup> nat) \<Rightarrow> nat list \<Rightarrow> (nat \<rightharpoonup> nat) \<Rightarrow> (nat \<rightharpoonup> nat) option" where
  "domLoop F entry rpoIndex order idoms =
     (case domPass F entry rpoIndex order (False, idoms) of
        None \<Rightarrow> None
      | Some st \<Rightarrow> if fst st then domLoop F entry rpoIndex order (snd st) else Some (snd st))"

text \<open>The depth of a block: the steps to the entry, or to a block without a dominator.\<close>

partial_function (option) depthOf :: "nat \<Rightarrow> (nat \<rightharpoonup> nat) \<Rightarrow> nat \<Rightarrow> nat \<Rightarrow> nat option" where
  "depthOf entry idoms blk d =
     (if blk = entry then Some d
      else case idoms blk of None \<Rightarrow> Some d
           | Some c \<Rightarrow> if c = blk then Some d else depthOf entry idoms c (d + 1))"

declare domLoop.simps [code] depthOf.simps [code]

fun depthsOf :: "nat \<Rightarrow> (nat \<rightharpoonup> nat) \<Rightarrow> nat list \<Rightarrow> (nat \<rightharpoonup> nat) \<Rightarrow> (nat \<rightharpoonup> nat) option" where
  "depthsOf entry idoms [] m = Some m"
| "depthsOf entry idoms (b # bs) m =
     (case depthOf entry idoms b 0 of None \<Rightarrow> None
      | Some d \<Rightarrow> depthsOf entry idoms bs (m(b \<mapsto> d)))"

subsection \<open>The dominator tree\<close>

text \<open>\<open>domTree\<close> as the pairs (dominator, block) in the order of the \<open>push_back\<close>s.\<close>

definition buildTree :: "((nat \<rightharpoonup> nat) \<Rightarrow> nat list) \<Rightarrow> (nat \<rightharpoonup> nat) \<Rightarrow> (nat \<times> nat) list" where
  "buildTree iter idoms =
     concat (map (\<lambda>b. case idoms b of None \<Rightarrow> [] | Some d \<Rightarrow> if b \<noteq> d then [(d, b)] else []) (iter idoms))"

definition childrenOf :: "(nat \<times> nat) list \<Rightarrow> nat \<Rightarrow> nat list" where
  "childrenOf T b = map snd (filter (\<lambda>e. fst e = b) T)"

lemma childrenOf_subset: "set (childrenOf T b) \<subseteq> snd ` set T"
  by (auto simp: childrenOf_def)

function (domintros) computeDFS ::
  "(nat \<times> nat) list \<Rightarrow> nat list \<Rightarrow> nat \<Rightarrow> nat list \<Rightarrow> (nat \<rightharpoonup> nat \<times> nat) \<Rightarrow>
     nat \<times> nat list \<times> (nat \<rightharpoonup> nat \<times> nat)" where
  "computeDFS T [] counter visited nums = (counter, visited, nums)"
| "computeDFS T (b # bs) counter visited nums =
     (if b \<in> set visited then computeDFS T bs counter visited nums
      else case computeDFS T (childrenOf T b) (counter + 1) (b # visited) nums of
             (counter1, visited1, nums1) \<Rightarrow>
               computeDFS T bs counter1 visited1 (nums1(b \<mapsto> (counter + 1, counter1))))"
  by pat_completeness auto

lemma computeDFS_grows:
  "computeDFS_dom (T, bs, c, v, m) \<Longrightarrow> computeDFS T bs c v m = (c1, v1, m1) \<Longrightarrow> set v \<subseteq> set v1"
proof (induction arbitrary: c1 v1 m1 rule: computeDFS.pinduct)
  case (2 T b bs c v m)
  show ?case
  proof (cases "b \<in> set v")
    case True
    then show ?thesis using 2 by (simp add: computeDFS.psimps)
  next
    case False
    obtain c2 v2 m2 where *: "computeDFS T (childrenOf T b) (c + 1) (b # v) m = (c2, v2, m2)"
      by (metis prod_cases3)
    have "set (b # v) \<subseteq> set v2" using 2(3) False * by blast
    moreover have "set v2 \<subseteq> set v1"
      using 2(4) [OF False * [symmetric] refl] 2(1,5) False * by (simp add: computeDFS.psimps fun_upd_def)
    ultimately show ?thesis by auto
  qed
qed (simp add: computeDFS.psimps)

termination computeDFS
proof (relation "measures [\<lambda>(T, bs, c, v, m). card ((snd ` set T \<union> set bs) - set v), \<lambda>(T, bs, c, v, m). length bs]",
       goal_cases)
  case (2 T b bs c v m)
  have "(snd ` set T \<union> set bs) - set v \<subseteq> (snd ` set T \<union> set (b # bs)) - set v" by auto
  then have "card ((snd ` set T \<union> set bs) - set v) \<le> card ((snd ` set T \<union> set (b # bs)) - set v)"
    by (intro card_mono) auto
  then show ?case by (auto simp: le_less)
next
  case (3 T b bs c v m)
  have "(snd ` set T \<union> set (childrenOf T b)) - set (b # v) \<subset> (snd ` set T \<union> set (b # bs)) - set v"
    using 3 childrenOf_subset [of T b] by auto
  then have "card ((snd ` set T \<union> set (childrenOf T b)) - set (b # v)) <
             card ((snd ` set T \<union> set (b # bs)) - set v)"
    by (intro psubset_card_mono) auto
  then show ?case by simp
next
  case (4 T b bs c v m c1 y v1 m1)
  have "set (b # v) \<subseteq> set v1"
    using computeDFS_grows [of T "childrenOf T b" "c + 1" "b # v" m c1 v1 m1] 4 by simp
  then have "(snd ` set T \<union> set bs) - set v1 \<subseteq> (snd ` set T \<union> set (b # bs)) - set v" by auto
  then have "card ((snd ` set T \<union> set bs) - set v1) \<le> card ((snd ` set T \<union> set (b # bs)) - set v)"
    by (intro card_mono) auto
  then show ?case by (auto simp: le_less)
qed simp

declare computeDFS.simps [simp del]

subsection \<open>The analysis\<close>

record dominance =
  func :: mfunc
  depths :: "nat \<rightharpoonup> nat"
  idoms :: "nat \<rightharpoonup> nat"
  domTree :: "(nat \<times> nat) list"
  dfsNumbers :: "nat \<rightharpoonup> nat \<times> nat"

definition mkDominance :: "mfunc \<Rightarrow> dominance" where
  "mkDominance F = \<lparr>func = F, depths = Map.empty, idoms = Map.empty, domTree = [],
                    dfsNumbers = Map.empty\<rparr>"

definition rpoIndexOf :: "nat list \<Rightarrow> (nat \<rightharpoonup> nat)" where
  "rpoIndexOf rpoStack = map_of (zip (rev rpoStack) [0..<length rpoStack])"

definition analyze :: "((nat \<rightharpoonup> nat) \<Rightarrow> nat list) \<Rightarrow> dominance \<Rightarrow> dominance option" where
  "analyze iter D =
     (case getEntryBlock (func D) of
        None \<Rightarrow> Some D
      | Some entry \<Rightarrow>
          (let F = func D;
               rpoStack = fst (computeRPO F [entry] [] []);
               rpoIndex = rpoIndexOf rpoStack
           in case domLoop F entry rpoIndex (rev rpoStack) [entry \<mapsto> entry] of
                None \<Rightarrow> None
              | Some ids \<Rightarrow>
                  (case depthsOf entry ids (blockIds F) Map.empty of
                     None \<Rightarrow> None
                   | Some ds \<Rightarrow>
                       (let T = buildTree iter ids;
                            nums = snd (snd (computeDFS T [entry] 0 [] Map.empty))
                        in Some (D\<lparr>depths := ds, idoms := ids, domTree := T, dfsNumbers := nums\<rparr>)))))"

definition dominates :: "dominance \<Rightarrow> nat \<Rightarrow> nat \<Rightarrow> bool" where
  "dominates D a b =
     (if a = b then True
      else case dfsNumbers D a of None \<Rightarrow> False | Some (sa, ea) \<Rightarrow>
             (case dfsNumbers D b of None \<Rightarrow> False | Some (sb, eb) \<Rightarrow> sa \<le> sb \<and> ea \<ge> eb))"

definition getIDom :: "dominance \<Rightarrow> nat \<Rightarrow> nat option" where
  "getIDom D b = idoms D b"

definition getChildren :: "dominance \<Rightarrow> nat \<Rightarrow> nat list" where
  "getChildren D b = childrenOf (domTree D) b"

text \<open>
  The SSA check.  The defining block of an instruction is its parent pointer; a null parent has no
  number and dominates nothing.
\<close>

definition parentOf :: "mfunc \<Rightarrow> nat \<Rightarrow> nat option" where
  "parentOf F n =
     (case List.find (\<lambda>i. i_id i = n) (concat (map instructions (blocks F))) of
        None \<Rightarrow> None | Some i \<Rightarrow> i_parent i)"

definition defDominates :: "dominance \<Rightarrow> mvalue \<Rightarrow> nat \<Rightarrow> bool" where
  "defDominates D v b =
     (case v of
        VInst n \<Rightarrow> (case parentOf (func D) n of None \<Rightarrow> False | Some a \<Rightarrow> dominates D a b)
      | _ \<Rightarrow> True)"

definition verifyInst :: "dominance \<Rightarrow> nat \<Rightarrow> inst \<Rightarrow> bool" where
  "verifyInst D useBlock i =
     (case i_body i of
        PhiInst inc \<Rightarrow> list_all (\<lambda>(v, p). defDominates D v p) inc
      | b \<Rightarrow> list_all (\<lambda>v. defDominates D v useBlock) (getOperands b))"

definition verifySSA :: "dominance \<Rightarrow> bool" where
  "verifySSA D = list_all (\<lambda>b. list_all (verifyInst D (b_id b)) (instructions b)) (blocks (func D))"

end
