(* ===== verification/DominanceProps.thy ===== *)
theory DominanceProps
  imports MIRDominance SimplifyProps
begin

text \<open>
  Correctness of the dominance analysis.  Dominance is defined by paths from the entry.  The
  iteration is followed pass by pass: after pass \<open>k\<close> the dominator assigned to a block lies on every
  path to it with at most \<open>k\<close> retreating edges (edges that do not increase the reverse post-order
  index), and every strict dominator of the block dominates it.  A simple path has fewer retreating
  edges than there are blocks, so the iteration reaches the immediate dominators and stops.
\<close>

subsection \<open>Paths and dominance\<close>

definition edges :: "mfunc \<Rightarrow> (nat \<times> nat) set" where
  "edges F = {(p, q). q \<in> sset F p}"

inductive epath :: "(nat \<times> nat) set \<Rightarrow> nat \<Rightarrow> nat list \<Rightarrow> nat \<Rightarrow> bool" for E e where
  start: "epath E e [e] e"
| snoc: "epath E e \<pi> p \<Longrightarrow> (p, q) \<in> E \<Longrightarrow> epath E e (\<pi> @ [q]) q"

definition doms :: "(nat \<times> nat) set \<Rightarrow> nat \<Rightarrow> nat \<Rightarrow> nat \<Rightarrow> bool" where
  "doms E e a b \<longleftrightarrow> (\<forall>\<pi>. epath E e \<pi> b \<longrightarrow> a \<in> set \<pi>)"

lemma epath_ends: "epath E e \<pi> b \<Longrightarrow> b \<in> set \<pi> \<and> e \<in> set \<pi>"
  by (induction rule: epath.induct) auto

lemma epath_prefix:
  "epath E e \<pi> b \<Longrightarrow> q \<in> set \<pi> \<Longrightarrow>
     \<exists>\<pi>1. epath E e \<pi>1 q \<and> set \<pi>1 \<subseteq> set \<pi> \<and> (distinct \<pi> \<longrightarrow> distinct \<pi>1)"
proof (induction rule: epath.induct)
  case start
  then show ?case using epath.start by (intro exI [of _ "[e]"]) auto
next
  case (snoc \<pi> p r)
  show ?case
  proof (cases "q \<in> set \<pi>")
    case True
    then show ?thesis using snoc by fastforce
  next
    case False
    then show ?thesis using snoc epath.snoc by fastforce
  qed
qed

lemma epath_simple:
  "epath E e \<pi> b \<Longrightarrow> \<exists>\<pi>1. epath E e \<pi>1 b \<and> distinct \<pi>1 \<and> set \<pi>1 \<subseteq> set \<pi>"
proof (induction rule: epath.induct)
  case start
  then show ?case using epath.start by fastforce
next
  case (snoc \<pi> p q)
  then obtain \<pi>1 where 1: "epath E e \<pi>1 p" "distinct \<pi>1" "set \<pi>1 \<subseteq> set \<pi>" by blast
  show ?case
  proof (cases "q \<in> set \<pi>1")
    case True
    then show ?thesis using epath_prefix [OF 1(1)] 1(2,3) by fastforce
  next
    case False
    then show ?thesis using epath.snoc [OF 1(1) snoc.hyps(2)] 1 by (intro exI [of _ "\<pi>1 @ [q]"]) auto
  qed
qed

lemma doms_refl: "doms E e b b"
  using epath_ends by (auto simp: doms_def)

lemma doms_entry: "doms E e x e \<Longrightarrow> x = e"
  using epath.start by (fastforce simp: doms_def)

lemma doms_pred: "doms E e x b \<Longrightarrow> x \<noteq> b \<Longrightarrow> (p, b) \<in> E \<Longrightarrow> doms E e x p"
  unfolding doms_def using epath.snoc by fastforce

subsection \<open>Paths by their retreating edges\<close>

inductive rpath :: "(nat \<times> nat) set \<Rightarrow> nat \<Rightarrow> (nat \<Rightarrow> nat) \<Rightarrow> nat \<Rightarrow> nat list \<Rightarrow> nat \<Rightarrow> bool"
  for E e ix where
  start: "rpath E e ix 0 [e] e"
| forward: "rpath E e ix k \<pi> p \<Longrightarrow> (p, q) \<in> E \<Longrightarrow> ix p < ix q \<Longrightarrow> rpath E e ix k (\<pi> @ [q]) q"
| retreat: "rpath E e ix k \<pi> p \<Longrightarrow> (p, q) \<in> E \<Longrightarrow> \<not> ix p < ix q \<Longrightarrow> rpath E e ix (Suc k) (\<pi> @ [q]) q"

inductive_cases rpathE: "rpath E e ix k \<pi> b"

text \<open>\<open>x\<close> is on every path to \<open>b\<close> with at most \<open>k\<close> retreating edges.\<close>

definition kdoms :: "(nat \<times> nat) set \<Rightarrow> nat \<Rightarrow> (nat \<Rightarrow> nat) \<Rightarrow> nat \<Rightarrow> nat \<Rightarrow> nat \<Rightarrow> bool" where
  "kdoms E e ix k x b \<longleftrightarrow> (\<forall>j \<pi>. j \<le> k \<longrightarrow> rpath E e ix j \<pi> b \<longrightarrow> x \<in> set \<pi>)"

lemma rpath_epath: "rpath E e ix k \<pi> b \<Longrightarrow> epath E e \<pi> b"
  by (induction rule: rpath.induct) (auto intro: epath.intros)

lemma epath_rpath: "epath E e \<pi> b \<Longrightarrow> \<exists>k < length \<pi>. rpath E e ix k \<pi> b"
proof (induction rule: epath.induct)
  case start
  then show ?case using rpath.start by fastforce
next
  case (snoc \<pi> p q)
  then obtain k where "k < length \<pi>" "rpath E e ix k \<pi> p" by blast
  then show ?case using snoc(2) rpath.forward rpath.retreat by (cases "ix p < ix q") fastforce+
qed

lemma rpath_prefix:
  "rpath E e ix k \<pi> b \<Longrightarrow> q \<in> set \<pi> \<Longrightarrow> \<exists>j \<pi>1. j \<le> k \<and> rpath E e ix j \<pi>1 q \<and> set \<pi>1 \<subseteq> set \<pi>"
proof (induction rule: rpath.induct)
  case start
  then show ?case using rpath.start by fastforce
next
  case (forward k \<pi> p r)
  then show ?case using rpath.forward by (cases "q \<in> set \<pi>") fastforce+
next
  case (retreat k \<pi> p r)
  show ?case
  proof (cases "q \<in> set \<pi>")
    case True
    then obtain j \<pi>1 where "j \<le> k" "rpath E e ix j \<pi>1 q" "set \<pi>1 \<subseteq> set \<pi>" using retreat by blast
    then show ?thesis by (intro exI [of _ j] exI [of _ \<pi>1]) auto
  next
    case False
    then have "q = r" using retreat by auto
    then show ?thesis using rpath.retreat [OF retreat(1,2,3)] by blast
  qed
qed

lemma kdoms_refl: "kdoms E e ix k b b"
  using rpath_epath epath_ends unfolding kdoms_def by blast

lemma kdoms_trans: "kdoms E e ix k x c \<Longrightarrow> kdoms E e ix k c b \<Longrightarrow> kdoms E e ix k x b"
  unfolding kdoms_def by (meson rpath_prefix le_trans subsetD)

lemma kdoms_mono: "kdoms E e ix k x b \<Longrightarrow> j \<le> k \<Longrightarrow> kdoms E e ix j x b"
  unfolding kdoms_def by (meson le_trans)

lemma kdoms_doms:
  assumes "kdoms E e ix k x b" and "\<And>\<pi> b. epath E e \<pi> b \<Longrightarrow> set \<pi> \<subseteq> V" and "finite V" "card V \<le> k"
  shows "doms E e x b"
  unfolding doms_def
proof (intro allI impI)
  fix \<pi>
  assume "epath E e \<pi> b"
  then obtain \<pi>1 where 1: "epath E e \<pi>1 b" "distinct \<pi>1" "set \<pi>1 \<subseteq> set \<pi>" using epath_simple by blast
  obtain j where j: "j < length \<pi>1" "rpath E e ix j \<pi>1 b" using epath_rpath [OF 1(1)] by blast
  have "length \<pi>1 \<le> card V"
    using 1(2) card_mono [OF assms(3) assms(2) [OF 1(1)]] by (simp add: distinct_card)
  then have "j \<le> k" using j(1) assms(4) by simp
  then show "x \<in> set \<pi>" using assms(1) j(2) 1(3) by (auto simp: kdoms_def)
qed

text \<open>Behind a block of a path without retreating edges the indices grow.\<close>

lemma forward_tail:
  assumes "rpath E e ix k \<sigma> b" and "k = 0" and "r \<in> set \<sigma>"
  shows "ix r \<le> ix b \<and> (\<exists>\<tau>. (\<forall>y \<in> set \<tau>. ix r < ix y) \<and> (\<forall>\<pi>. epath E e \<pi> r \<longrightarrow> epath E e (\<pi> @ \<tau>) b))"
  using assms
proof (induction rule: rpath.induct)
  case start
  then show ?case by (intro conjI exI [of _ "[]"]) auto
next
  case (forward k \<sigma> p q)
  show ?case
  proof (cases "r \<in> set \<sigma>")
    case True
    then obtain \<tau> where t: "ix r \<le> ix p" "\<forall>y \<in> set \<tau>. ix r < ix y"
        "\<And>\<pi>. epath E e \<pi> r \<Longrightarrow> epath E e (\<pi> @ \<tau>) p"
      using forward by blast
    have "epath E e (\<pi> @ \<tau> @ [q]) q" if "epath E e \<pi> r" for \<pi>
      using epath.snoc [OF t(3) [OF that] forward(2)] by simp
    then show ?thesis using t(1,2) forward(3) by (intro conjI exI [of _ "\<tau> @ [q]"]) auto
  next
    case False
    then have "r = q" using forward by auto
    then show ?thesis by (intro conjI exI [of _ "[]"]) auto
  qed
qed simp

lemma doms_on_forward:
  assumes "doms E e x b" "rpath E e ix 0 \<sigma> b" "kdoms E e ix 0 r b" "ix x \<le> ix r"
  shows "doms E e x r"
  unfolding doms_def
proof (intro allI impI, rule ccontr)
  fix \<pi>
  assume p: "epath E e \<pi> r" and x: "x \<notin> set \<pi>"
  have "r \<in> set \<sigma>" using assms(2,3) by (auto simp: kdoms_def)
  then obtain \<tau> where t: "\<forall>y \<in> set \<tau>. ix r < ix y" "epath E e (\<pi> @ \<tau>) b"
    using forward_tail [OF assms(2)] p by blast
  then have "x \<in> set (\<pi> @ \<tau>)" using assms(1) by (simp only: doms_def)
  then show False using x t(1) assms(4) by fastforce
qed

subsection \<open>Trees of dominators\<close>

inductive anc :: "(nat \<rightharpoonup> nat) \<Rightarrow> nat \<Rightarrow> nat \<Rightarrow> bool" for m where
  self: "anc m b b"
| up: "m b = Some c \<Longrightarrow> anc m x c \<Longrightarrow> anc m x b"

lemmas anc_refl [simp, intro] = anc.self

lemma anc_trans: "anc m y b \<Longrightarrow> anc m x y \<Longrightarrow> anc m x b"
  by (induction rule: anc.induct) (auto intro: anc.up)

text \<open>A map that leads every block but the entry to a block of smaller index.\<close>

definition treeOk :: "nat \<Rightarrow> (nat \<Rightarrow> nat) \<Rightarrow> (nat \<rightharpoonup> nat) \<Rightarrow> bool" where
  "treeOk e ix m \<longleftrightarrow> m e = Some e \<and> (\<forall>b c. m b = Some c \<longrightarrow> c \<in> dom m \<and> (b \<noteq> e \<longrightarrow> ix c < ix b)) \<and>
     inj_on ix (dom m) \<and> (\<forall>b \<in> dom m. b \<noteq> e \<longrightarrow> ix e < ix b)"

lemma treeOk_up:
  assumes "treeOk e ix m" "b \<in> dom m" "b \<noteq> e"
  obtains c where "m b = Some c" "c \<in> dom m" "ix c < ix b"
  using assms unfolding treeOk_def by fastforce

lemma anc_index: "anc m x b \<Longrightarrow> treeOk e ix m \<Longrightarrow> b \<in> dom m \<Longrightarrow> x \<in> dom m \<and> ix x \<le> ix b"
proof (induction rule: anc.induct)
  case (up b c x)
  then have "c \<in> dom m" "ix c \<le> ix b" unfolding treeOk_def by (fastforce, metis less_imp_le option.inject order_refl)
  then show ?case using up by fastforce
qed simp

lemma anc_cases:
  assumes "anc m x b" "x \<noteq> b"
  obtains c where "m b = Some c" "anc m x c"
  using assms by (cases rule: anc.cases) auto

lemma climb_spec:
  assumes t: "treeOk e ix m" and i: "\<And>b. b \<in> dom m \<Longrightarrow> idx b = Some (ix b)"
  shows "b1 \<in> dom m \<Longrightarrow> b2 \<in> dom m \<Longrightarrow>
    \<exists>c. climb idx m b1 b2 = Some c \<and> c \<in> dom m \<and> anc m c b1 \<and> ix c \<le> ix b2 \<and> ix c \<le> ix b1 \<and>
        (ix b2 < ix b1 \<longrightarrow> ix c < ix b1) \<and> (\<forall>x. anc m x b1 \<and> anc m x b2 \<longrightarrow> anc m x c)"
proof (induction "ix b1" arbitrary: b1 rule: less_induct)
  case less
  note e = climb.simps [of idx m b1 b2] i [OF less(2)] i [OF less(3)]
  show ?case
  proof (cases "ix b2 < ix b1")
    case False
    then show ?thesis by (simp add: e less)
  next
    case True
    then have "b1 \<noteq> e" using t less(3) unfolding treeOk_def by (metis domI less_asym)
    then obtain d where d: "m b1 = Some d" "d \<in> dom m" "ix d < ix b1" using treeOk_up [OF t less(2)] by blast
    then obtain c where c: "climb idx m d b2 = Some c" "c \<in> dom m" "anc m c d" "ix c \<le> ix b2" "ix c \<le> ix d"
        "\<forall>x. anc m x d \<and> anc m x b2 \<longrightarrow> anc m x c"
      using less(1) [OF d(3) d(2) less(3)] by blast
    have "anc m x d" if "anc m x b1" "anc m x b2" for x
    proof -
      have "x \<noteq> b1" using anc_index [OF that(2) t less(3)] True by auto
      then show ?thesis using that(1) d(1) by (auto elim: anc_cases)
    qed
    then show ?thesis using c d True by (auto simp: e intro: anc.up)
  qed
qed

lemma intersect_spec:
  assumes t: "treeOk e ix m" and i: "\<And>b. b \<in> dom m \<Longrightarrow> idx b = Some (ix b)"
  shows "b1 \<in> dom m \<Longrightarrow> b2 \<in> dom m \<Longrightarrow>
    \<exists>r. intersect idx m b1 b2 = Some r \<and> r \<in> dom m \<and> anc m r b1 \<and> anc m r b2 \<and>
        (\<forall>x. anc m x b1 \<and> anc m x b2 \<longrightarrow> anc m x r)"
proof (induction "ix b1 + ix b2" arbitrary: b1 b2 rule: less_induct)
  case less
  show ?case
  proof (cases "b1 = b2")
    case True
    then show ?thesis using less by (auto simp: intersect.simps)
  next
    case False
    then have ne: "ix b1 \<noteq> ix b2" using t less(2,3) unfolding treeOk_def inj_on_def by blast
    obtain c1 where c1: "climb idx m b1 b2 = Some c1" "c1 \<in> dom m" "anc m c1 b1" "ix c1 \<le> ix b2" "ix c1 \<le> ix b1"
        "ix b2 < ix b1 \<longrightarrow> ix c1 < ix b1" "\<forall>x. anc m x b1 \<and> anc m x b2 \<longrightarrow> anc m x c1"
      using climb_spec [OF t i less(2,3)] by blast
    obtain c2 where c2: "climb idx m b2 c1 = Some c2" "c2 \<in> dom m" "anc m c2 b2" "ix c2 \<le> ix c1" "ix c2 \<le> ix b2"
        "ix c1 < ix b2 \<longrightarrow> ix c2 < ix b2" "\<forall>x. anc m x b2 \<and> anc m x c1 \<longrightarrow> anc m x c2"
      using climb_spec [OF t i less(3) c1(2)] by blast
    have "ix c1 + ix c2 < ix b1 + ix b2" using ne c1(4-6) c2(4-6) by linarith
    then obtain r where r: "intersect idx m c1 c2 = Some r" "r \<in> dom m" "anc m r c1" "anc m r c2"
        "\<forall>x. anc m x c1 \<and> anc m x c2 \<longrightarrow> anc m x r"
      using less(1) c1(2) c2(2) by blast
    then have "intersect idx m b1 b2 = Some r" using False c1(1) c2(1) by (simp add: intersect.simps [of _ _ b1])
    then show ?thesis using r c1(3,7) c2(3,7) by (intro exI [of _ r]) (blast intro: anc_trans)
  qed
qed

lemma meetPreds_spec:
  assumes t: "treeOk e ix m" and i: "\<And>b. b \<in> dom m \<Longrightarrow> idx b = Some (ix b)"
  shows "d \<in> dom m \<Longrightarrow>
    \<exists>r. meetPreds idx m ps d = Some r \<and> r \<in> dom m \<and> anc m r d \<and> (\<forall>p \<in> set ps \<inter> dom m. anc m r p) \<and>
        (\<forall>x. anc m x d \<and> (\<forall>p \<in> set ps \<inter> dom m. anc m x p) \<longrightarrow> anc m x r)"
proof (induction ps arbitrary: d)
  case (Cons p ps)
  show ?case
  proof (cases "p \<noteq> d \<and> m p \<noteq> None")
    case True
    then have "p \<in> dom m" by auto
    then obtain c where c: "intersect idx m p d = Some c" "c \<in> dom m" "anc m c p" "anc m c d"
        "\<forall>x. anc m x p \<and> anc m x d \<longrightarrow> anc m x c"
      using intersect_spec [OF t i _ Cons(2)] by blast
    from Cons.IH [OF c(2)] obtain r where r: "meetPreds idx m ps c = Some r" "r \<in> dom m" "anc m r c"
        "\<forall>p \<in> set ps \<inter> dom m. anc m r p"
        "\<forall>x. anc m x c \<and> (\<forall>p \<in> set ps \<inter> dom m. anc m x p) \<longrightarrow> anc m x r" by blast
    have "meetPreds idx m (p # ps) d = Some r" using True c(1) r(1) by simp
    moreover have "anc m r d" "anc m r p" using r(3) c(3,4) anc_trans by blast+
    ultimately show ?thesis using r(2,4,5) c(5) \<open>p \<in> dom m\<close> by (intro exI [of _ r]) auto
  next
    case False
    from Cons.IH [OF Cons(2)] obtain r where r: "meetPreds idx m ps d = Some r" "r \<in> dom m" "anc m r d"
        "\<forall>p \<in> set ps \<inter> dom m. anc m r p"
        "\<forall>x. anc m x d \<and> (\<forall>p \<in> set ps \<inter> dom m. anc m x p) \<longrightarrow> anc m x r" by blast
    have "meetPreds idx m (p # ps) d = Some r" using False r(1) by auto
    then show ?thesis using r False by (intro exI [of _ r]) auto
  qed
qed auto

subsection \<open>One pass of the iteration\<close>

text \<open>
  What the iteration needs of the function: the predecessor lists are the edges, \<open>R\<close> are the
  reachable blocks, numbered by \<open>ix\<close>, and every block but the entry has a predecessor of smaller
  index.
\<close>

definition numbered :: "mfunc \<Rightarrow> nat \<Rightarrow> nat set \<Rightarrow> (nat \<rightharpoonup> nat) \<Rightarrow> (nat \<Rightarrow> nat) \<Rightarrow> bool" where
  "numbered F e R idx ix \<longleftrightarrow>
     (\<forall>p q. p \<in> set (predsOf F q) \<longleftrightarrow> (p, q) \<in> edges F) \<and> e \<in> R \<and> finite R \<and>
     (\<forall>\<pi> b. epath (edges F) e \<pi> b \<longrightarrow> set \<pi> \<subseteq> R) \<and>
     (\<forall>b \<in> R. idx b = Some (ix b)) \<and> inj_on ix R \<and> (\<forall>b \<in> R. b \<noteq> e \<longrightarrow> ix e < ix b) \<and>
     (\<forall>b \<in> R. b \<noteq> e \<longrightarrow> (\<exists>p \<in> R. (p, b) \<in> edges F \<and> ix p < ix b))"

lemma forward_path:
  assumes "numbered F e R idx ix"
  shows "b \<in> R \<Longrightarrow> \<exists>\<sigma>. rpath (edges F) e ix 0 \<sigma> b"
proof (induction "ix b" arbitrary: b rule: less_induct)
  case less
  show ?case
  proof (cases "b = e")
    case True
    then show ?thesis using rpath.start by blast
  next
    case False
    then obtain p where "p \<in> R" "(p, b) \<in> edges F" "ix p < ix b"
      using assms less(2) unfolding numbered_def by blast
    then show ?thesis using less(1) rpath.forward by blast
  qed
qed

text \<open>The two conditions on the dominator \<open>r\<close> assigned to \<open>b\<close>.\<close>

definition approx :: "mfunc \<Rightarrow> nat \<Rightarrow> (nat \<Rightarrow> nat) \<Rightarrow> nat \<Rightarrow> nat \<Rightarrow> nat \<Rightarrow> bool" where
  "approx F e ix k b r \<longleftrightarrow> kdoms (edges F) e ix k r b \<and>
     (\<forall>x. x \<noteq> b \<longrightarrow> doms (edges F) e x b \<longrightarrow> doms (edges F) e x r)"

text \<open>
  The state in the middle of pass \<open>k\<close>, when the blocks of index below \<open>n\<close> have been visited.
\<close>

definition passInv ::
  "mfunc \<Rightarrow> nat \<Rightarrow> nat set \<Rightarrow> (nat \<Rightarrow> nat) \<Rightarrow> nat \<Rightarrow> nat \<Rightarrow> (nat \<rightharpoonup> nat) \<Rightarrow> bool" where
  "passInv F e R ix k n m \<longleftrightarrow> treeOk e ix m \<and> dom m \<subseteq> R \<and> {b \<in> R. ix b < n} \<subseteq> dom m \<and>
     (if k = 0 then dom m \<subseteq> {b \<in> R. ix b < n} \<union> {e} else dom m = R) \<and>
     (\<forall>b r. m b = Some r \<longrightarrow> b \<noteq> e \<longrightarrow> approx F e ix (if ix b < n then k else k - 1) b r)"

lemma anc_kdoms:
  assumes "treeOk e ix m" and "\<And>c r. m c = Some r \<Longrightarrow> c \<noteq> e \<Longrightarrow> ix c \<le> n \<Longrightarrow> kdoms E e ix k r c"
  shows "anc m x b \<Longrightarrow> b \<in> dom m \<Longrightarrow> ix b \<le> n \<Longrightarrow> kdoms E e ix k x b"
proof (induction rule: anc.induct)
  case (self b)
  then show ?case by (simp add: kdoms_refl)
next
  case (up b c x)
  show ?case
  proof (cases "b = e")
    case True
    then have "c = b" using up(1) assms(1) by (auto simp: treeOk_def)
    then show ?thesis using up by simp
  next
    case False
    then have "c \<in> dom m" "ix c < ix b" using up(1) assms(1) by (auto simp: treeOk_def)
    then show ?thesis using up False assms(2) [OF up(1) False] kdoms_trans by fastforce
  qed
qed

lemma doms_anc:
  assumes "treeOk e ix m" and "\<And>c r. m c = Some r \<Longrightarrow> c \<noteq> e \<Longrightarrow> approx F e ix 0 c r"
  shows "b \<in> dom m \<Longrightarrow> doms (edges F) e x b \<Longrightarrow> anc m x b"
proof (induction "ix b" arbitrary: b rule: less_induct)
  case less
  show ?case
  proof (cases "b = e \<or> x = b")
    case True
    then show ?thesis using less(3) doms_entry by auto
  next
    case False
    then obtain c where c: "m b = Some c" "c \<in> dom m" "ix c < ix b" using treeOk_up [OF assms(1) less(2)] by blast
    then have "doms (edges F) e x c" using assms(2) [OF c(1)] False less(3) by (auto simp: approx_def)
    then show ?thesis using less(1) c anc.up by blast
  qed
qed

lemma approx_mono: "approx F e ix k b r \<Longrightarrow> j \<le> k \<Longrightarrow> approx F e ix j b r"
  using kdoms_mono unfolding approx_def by blast

lemma updateIDom_spec:
  assumes g: "numbered F e R idx ix" and v: "passInv F e R ix k (ix b) m" and b: "b \<in> R" "b \<noteq> e"
  shows "\<exists>r. updateIDom F e idx b (ch, m) = Some (ch \<or> m b \<noteq> Some r, m(b \<mapsto> r)) \<and>
             approx F e ix k b r \<and> r \<in> dom m \<and> ix r < ix b"
proof -
  note t = v [unfolded passInv_def, THEN conjunct1]
  have dR: "dom m \<subseteq> R" and vis: "{c \<in> R. ix c < ix b} \<subseteq> dom m"
    and lev: "\<And>c r. m c = Some r \<Longrightarrow> c \<noteq> e \<Longrightarrow> approx F e ix (if ix c < ix b then k else k - 1) c r"
    using v unfolding passInv_def by blast+
  have i: "\<And>c. c \<in> dom m \<Longrightarrow> idx c = Some (ix c)" using g dR unfolding numbered_def by blast
  have pe: "\<And>p q. p \<in> set (predsOf F q) \<longleftrightarrow> (p, q) \<in> edges F" using g by (simp add: numbered_def)
  obtain q where q: "q \<in> R" "(q, b) \<in> edges F" "ix q < ix b" using g b unfolding numbered_def by blast
  then have qm: "q \<in> dom m" "q \<in> set (predsOf F b)" using vis pe by auto
  then obtain d where d: "List.find (\<lambda>p. m p \<noteq> None) (predsOf F b) = Some d" "d \<in> dom m" "d \<in> set (predsOf F b)"
    by (cases "List.find (\<lambda>p. m p \<noteq> None) (predsOf F b)")
       (auto simp: find_None_iff find_Some_iff in_set_conv_nth)
  obtain r where r: "meetPreds idx m (predsOf F b) d = Some r" "r \<in> dom m"
      "\<And>p. p \<in> set (predsOf F b) \<Longrightarrow> p \<in> dom m \<Longrightarrow> anc m r p"
      "\<And>x. (\<forall>p \<in> set (predsOf F b) \<inter> dom m. anc m x p) \<Longrightarrow> anc m x r"
    using meetPreds_spec [OF t i d(2), of "predsOf F b"] d(3,2) by blast
  have rq: "ix r \<le> ix q" using anc_index [OF r(3) [OF qm(2,1)] t qm(1)] by simp
  have kd: "kdoms (edges F) e ix k r b"
    unfolding kdoms_def
  proof (intro allI impI)
    fix j \<pi>
    assume j: "j \<le> k" and p: "rpath (edges F) e ix j \<pi> b"
    from p b(2) show "r \<in> set \<pi>"
    proof (cases rule: rpath.cases)
      case (forward \<pi>1 p)
      then have pR: "p \<in> R" using rpath_epath [OF forward(2)] epath_ends g unfolding numbered_def by blast
      then have pm: "p \<in> dom m" using forward(4) vis by auto
      have "kdoms (edges F) e ix k r p"
      proof (rule anc_kdoms [OF t, of "ix p"])
        show "kdoms (edges F) e ix k s c" if "m c = Some s" "c \<noteq> e" "ix c \<le> ix p" for c s
          using lev [OF that(1,2)] that(3) forward(4) by (simp add: approx_def)
      qed (use r(3) forward pm pe in auto)
      then show ?thesis using forward j by (auto simp: kdoms_def)
    next
      case (retreat j1 \<pi>1 p)
      then have pR: "p \<in> R" using rpath_epath [OF retreat(3)] epath_ends g unfolding numbered_def by blast
      have k: "k \<noteq> 0" "j1 \<le> k - 1" using j retreat(1) by auto
      then have pm: "p \<in> dom m" using v pR by (simp add: passInv_def)
      have "kdoms (edges F) e ix (k - 1) r p"
      proof (rule anc_kdoms [OF t, of "ix p"])
        show "kdoms (edges F) e ix (k - 1) s c" if "m c = Some s" "c \<noteq> e" "ix c \<le> ix p" for c s
          using lev [OF that(1,2)] kdoms_mono [of _ _ _ k _ _ "k - 1"]
          by (auto simp: approx_def split: if_splits)
      qed (use r(3) retreat pm pe in auto)
      then show ?thesis using retreat k by (auto simp: kdoms_def)
    qed simp
  qed
  have "doms (edges F) e x r" if x: "x \<noteq> b" "doms (edges F) e x b" for x
  proof -
    have a0: "\<And>c s. m c = Some s \<Longrightarrow> c \<noteq> e \<Longrightarrow> approx F e ix 0 c s" using lev approx_mono by blast
    have "anc m x p" if "p \<in> set (predsOf F b)" "p \<in> dom m" for p
      using doms_anc [OF t a0 that(2)] doms_pred [OF x(2,1)] that(1) pe by blast
    then have "anc m x r" using r(4) by blast
    then have "ix x \<le> ix r" using anc_index t r(2) by blast
    then show ?thesis
      using doms_on_forward [OF x(2) _ kdoms_mono [OF kd le0]] forward_path [OF g b(1)] by blast
  qed
  then have "approx F e ix k b r" using kd by (simp add: approx_def)
  moreover have "updateIDom F e idx b (ch, m) = Some (ch \<or> m b \<noteq> Some r, m(b \<mapsto> r))"
    using b(2) d(1) r(1) by (auto simp: updateIDom_def fun_upd_idem_iff)
  ultimately show ?thesis using r(2) rq q(3) by (intro exI [of _ r]) auto
qed

lemma passInv_step:
  assumes g: "numbered F e R idx ix" and v: "passInv F e R ix k (ix b) m" and b: "b \<in> R" "b \<noteq> e"
    and r: "approx F e ix k b r" "r \<in> dom m" "ix r < ix b"
  shows "passInv F e R ix k (Suc (ix b)) (m(b \<mapsto> r))"
proof -
  have inj: "c = b" if "c \<in> R" "ix c = ix b" for c using g that b unfolding numbered_def inj_on_def by blast
  have "inj_on ix R" "\<forall>b \<in> R. b \<noteq> e \<longrightarrow> ix e < ix b" "e \<in> R" using g by (auto simp: numbered_def)
  moreover have dm: "dom m \<subseteq> R" "treeOk e ix m" using v by (auto simp: passInv_def)
  moreover have "inj_on ix (insert b (dom m))" using calculation(1) dm(1) b(1) by (meson inj_on_subset insert_subset)
  ultimately have "treeOk e ix (m(b \<mapsto> r))"
    using b r unfolding treeOk_def by auto
  moreover have "{c \<in> R. ix c < Suc (ix b)} \<subseteq> insert b {c \<in> R. ix c < ix b}" using inj by (auto simp: less_Suc_eq)
  moreover have "{c \<in> R. ix c < ix b} \<subseteq> dom m" using v by (simp add: passInv_def)
  moreover have "approx F e ix (if ix c < Suc (ix b) then k else k - 1) c s"
    if "(m(b \<mapsto> r)) c = Some s" "c \<noteq> e" for c s
  proof (cases "c = b")
    case True
    then show ?thesis using r that by simp
  next
    case False
    then have "m c = Some s" "ix c \<noteq> ix b" using that inj dm(1) by auto
    then show ?thesis using v that(2) by (auto simp: passInv_def less_Suc_eq)
  qed
  ultimately show ?thesis using v b dm(1) unfolding passInv_def by (auto split: if_splits)
qed

subsection \<open>The iteration\<close>

text \<open>The blocks in the order they are visited.\<close>

definition visitOrder :: "nat list \<Rightarrow> nat \<Rightarrow> nat set \<Rightarrow> (nat \<Rightarrow> nat) \<Rightarrow> bool" where
  "visitOrder ord e R ix \<longleftrightarrow> set ord = R \<and> (\<forall>i < length ord. ix (ord ! i) = i) \<and> ord \<noteq> [] \<and> ord ! 0 = e"

lemma passInv_entry:
  assumes "numbered F e R idx ix" "ix e = 0" "passInv F e R ix k 0 m"
  shows "passInv F e R ix k 1 m"
proof -
  have "{b \<in> R. ix b < 1} = {e}" using assms(1,2) unfolding numbered_def by fastforce
  then show ?thesis using assms(2,3) unfolding passInv_def treeOk_def
    by (auto simp: less_Suc_eq split: if_splits)
qed

lemma domPass_spec:
  assumes g: "numbered F e R idx ix" and o: "visitOrder ord e R ix"
  shows "bs = drop n ord \<Longrightarrow> passInv F e R ix k n m \<Longrightarrow> n \<le> length ord \<Longrightarrow>
    \<exists>ch' m'. domPass F e idx bs (ch, m) = Some (ch', m') \<and> passInv F e R ix k (length ord) m' \<and>
             (\<not> ch' \<longrightarrow> \<not> ch \<and> m' = m)"
proof (induction bs arbitrary: n ch m)
  case Nil
  then show ?case by simp
next
  case (Cons b bs)
  then have n: "n < length ord" "b = ord ! n" "bs = drop (Suc n) ord"
    by (metis drop_eq_Nil list.distinct(1) not_less, metis hd_drop_conv_nth list.sel(1) drop_eq_Nil list.distinct(1) not_less,
        metis drop_Suc list.sel(3) tl_drop)
  then have b: "b \<in> R" "ix b = n" using o by (auto simp: visitOrder_def)
  show ?case
  proof (cases "b = e")
    case True
    then have "ix e = 0" using o by (auto simp: visitOrder_def)
    then have "passInv F e R ix k (Suc n) m" using passInv_entry [OF g] Cons(3) True b by auto
    then show ?thesis using Cons.IH [OF n(3)] n(1) True by (simp add: updateIDom_def)
  next
    case False
    obtain r where r: "updateIDom F e idx b (ch, m) = Some (ch \<or> m b \<noteq> Some r, m(b \<mapsto> r))"
        "approx F e ix k b r" "r \<in> dom m" "ix r < ix b"
      using updateIDom_spec [OF g _ b(1) False, of k m ch] Cons(3) b(2) by blast
    define m1 c1 where "m1 = m(b \<mapsto> r)" and "c1 = (ch \<or> m b \<noteq> Some r)"
    have "passInv F e R ix k (Suc n) m1"
      using passInv_step [OF g _ b(1) False r(2-4)] Cons(3) b(2) by (simp add: m1_def)
    from Cons.IH [OF n(3) this, of c1] n(1) obtain ch' m' where
      m': "domPass F e idx bs (c1, m1) = Some (ch', m')"
      "passInv F e R ix k (length ord) m'" "\<not> ch' \<longrightarrow> \<not> c1 \<and> m' = m1" by auto
    have "\<not> c1 \<longrightarrow> \<not> ch \<and> m1 = m" by (auto simp: c1_def m1_def fun_upd_idem)
    then show ?thesis using r(1) m' unfolding m1_def [symmetric] c1_def [symmetric]
      by (intro exI [of _ ch'] exI [of _ m']) auto
  qed
qed

lemma passInv_next:
  assumes "numbered F e R idx ix" "visitOrder ord e R ix" "passInv F e R ix k (length ord) m"
  shows "passInv F e R ix (Suc k) 0 m"
proof -
  have l: "ix b < length ord" if "b \<in> R" for b
    using assms(2) that unfolding visitOrder_def by (metis in_set_conv_nth)
  then have "{b \<in> R. ix b < length ord} = R" by auto
  then have "dom m = R" using assms(3) by (auto simp: passInv_def)
  then show ?thesis using assms(3) l unfolding passInv_def by (auto split: if_splits)
qed

lemma doms_index:
  assumes "numbered F e R idx ix" "doms (edges F) e x b" "b \<in> R"
  shows "ix x \<le> ix b \<and> x \<in> R"
proof -
  obtain \<sigma> where s: "rpath (edges F) e ix 0 \<sigma> b" using forward_path assms by blast
  then have "x \<in> set \<sigma>" using rpath_epath assms(2) unfolding doms_def by blast
  then show ?thesis using forward_tail [OF s refl] rpath_epath [OF s] assms(1) unfolding numbered_def by blast
qed

lemma approx_unique:
  assumes g: "numbered F e R idx ix" and k: "card R \<le> k" and b: "b \<in> R"
    and r: "approx F e ix k b r" "r \<noteq> b" "r \<in> R" and s: "approx F e ix k b s" "s \<noteq> b" "s \<in> R"
  shows "r = s"
proof -
  have V: "\<And>\<pi> b. epath (edges F) e \<pi> b \<Longrightarrow> set \<pi> \<subseteq> R" "finite R" "inj_on ix R" using g by (auto simp: numbered_def)
  have "doms (edges F) e r b" "doms (edges F) e s b"
    using r(1) s(1) by (auto simp: approx_def intro: kdoms_doms [where V = R, OF _ _ V(2) k] dest: V(1))
  then have "doms (edges F) e r s" "doms (edges F) e s r" using r s by (auto simp: approx_def)
  then have "ix r = ix s" using doms_index [OF g] r(3) s(3) by (meson order_antisym)
  then show ?thesis using V(3) r(3) s(3) by (auto dest: inj_onD)
qed

lemma domPass_exact:
  assumes g: "numbered F e R idx ix" and o: "visitOrder ord e R ix" and k: "card R \<le> k"
  shows "bs = drop n ord \<Longrightarrow> passInv F e R ix (Suc k) n m \<Longrightarrow> n \<le> length ord \<Longrightarrow>
    domPass F e idx bs (ch, m) = Some (ch, m)"
proof (induction bs arbitrary: n)
  case (Cons b bs)
  then have n: "n < length ord" "b = ord ! n" "bs = drop (Suc n) ord"
    by (metis drop_eq_Nil list.distinct(1) not_less, metis hd_drop_conv_nth list.sel(1) drop_eq_Nil list.distinct(1) not_less,
        metis drop_Suc list.sel(3) tl_drop)
  then have b: "b \<in> R" "ix b = n" using o by (auto simp: visitOrder_def)
  show ?case
  proof (cases "b = e")
    case True
    then have "ix e = 0" using o by (auto simp: visitOrder_def)
    then have "passInv F e R ix (Suc k) (Suc n) m" using passInv_entry [OF g] Cons(3) True b by auto
    then show ?thesis using Cons.IH [OF n(3)] n(1) True by (simp add: updateIDom_def)
  next
    case False
    obtain r where r: "updateIDom F e idx b (ch, m) = Some (ch \<or> m b \<noteq> Some r, m(b \<mapsto> r))"
        "approx F e ix (Suc k) b r" "r \<in> dom m" "ix r < ix b"
      using updateIDom_spec [OF g _ b(1) False, of "Suc k" m ch] Cons(3) b(2) by blast
    have dm: "dom m = R" "treeOk e ix m" using Cons(3) by (auto simp: passInv_def)
    then obtain s where s: "m b = Some s" "s \<in> R" "ix s < ix b" using b False treeOk_up by blast
    have "approx F e ix k b s" using Cons(3) s(1) False b(2) unfolding passInv_def by fastforce
    then have "r = s"
      using approx_unique [OF g k b(1) approx_mono [OF r(2)]] r s dm by fastforce
    then have "m(b \<mapsto> r) = m" "m b = Some r" using s(1) by (auto simp: fun_upd_idem)
    moreover have "passInv F e R ix (Suc k) (Suc n) (m(b \<mapsto> r))"
      using passInv_step [OF g _ b(1) False r(2-4)] Cons(3) b(2) by simp
    ultimately show ?thesis using Cons.IH [OF n(3)] n(1) r(1) by simp
  qed
qed simp

lemma passInv_stable:
  assumes g: "numbered F e R idx ix" and o: "visitOrder ord e R ix"
    and d: "domPass F e idx ord (False, m) = Some (False, m)"
  shows "passInv F e R ix k 0 m \<Longrightarrow> passInv F e R ix (k + j) 0 m"
proof (induction j)
  case (Suc j)
  then have "passInv F e R ix (k + j) (length ord) m"
    using domPass_spec [OF g o, of ord 0 "k + j" m False] d by simp
  then show ?case using passInv_next [OF g o] by simp
qed simp

lemma domLoop_spec:
  assumes g: "numbered F e R idx ix" and o: "visitOrder ord e R ix"
  shows "passInv F e R ix k 0 m \<Longrightarrow> k \<le> Suc (card R) \<Longrightarrow>
    \<exists>m'. domLoop F e idx ord m = Some m' \<and> passInv F e R ix (Suc (card R)) 0 m'"
proof (induction "Suc (card R) - k" arbitrary: k m rule: less_induct)
  case less
  obtain ch' m' where m': "domPass F e idx ord (False, m) = Some (ch', m')"
      "passInv F e R ix k (length ord) m'" "\<not> ch' \<Longrightarrow> m' = m"
    using domPass_spec [OF g o, of ord 0 k m False] less(2) by auto
  note e = domLoop.simps [of F e idx ord m] m'(1)
  show ?case
  proof (cases ch')
    case True
    then have "k \<noteq> Suc (card R)"
      using domPass_exact [OF g o order_refl, of ord 0 m False] less(2) m'(1) by auto
    then show ?thesis
      using less(1) [of "Suc k" m'] less(3) passInv_next [OF g o m'(2)] True by (simp add: e)
  next
    case False
    then have "passInv F e R ix (k + (Suc (card R) - k)) 0 m"
      using passInv_stable [OF g o _ less(2)] m' by simp
    then show ?thesis using False m'(3) less(3) by (simp add: e)
  qed
qed

subsection \<open>Reverse post-order\<close>

lemma computeRPO_spec:
  "computeRPO F bs r v = (r1, v1) \<Longrightarrow>
    \<exists>s. r1 = r @ s \<and> distinct s \<and> set s \<inter> set v = {} \<and> set v1 = set v \<union> set s \<and> set bs \<subseteq> set v1 \<and>
        (\<forall>x \<in> set s. \<exists>b \<in> set bs. (b, x) \<in> (edges F)\<^sup>*) \<and> (\<forall>x \<in> set s. sset F x \<subseteq> set v1) \<and>
        (\<forall>x \<in> set s. x \<in> set bs \<or> (\<exists>s1 s2 p. s = s1 @ x # s2 \<and> p \<in> set s2 \<and> (p, x) \<in> edges F))"
proof (induction F bs r v arbitrary: r1 v1 rule: computeRPO.induct)
  case (1 F r v)
  then show ?case by (simp add: computeRPO.simps)
next
  case (2 F b bs r v)
  show ?case
  proof (cases "b \<in> set v")
    case True
    then obtain s where "r1 = r @ s" "distinct s" "set s \<inter> set v = {}" "set v1 = set v \<union> set s" "set bs \<subseteq> set v1"
        "\<forall>x \<in> set s. \<exists>b \<in> set bs. (b, x) \<in> (edges F)\<^sup>*" "\<forall>x \<in> set s. sset F x \<subseteq> set v1"
        "\<forall>x \<in> set s. x \<in> set bs \<or> (\<exists>s1 s2 p. s = s1 @ x # s2 \<and> p \<in> set s2 \<and> (p, x) \<in> edges F)"
      using 2(1) [OF True] 2(4) by (auto simp: computeRPO.simps)
    then show ?thesis using True by (intro exI [of _ s]) auto
  next
    case False
    obtain r2 v2 where c: "computeRPO F (succsOf F b) r (b # v) = (r2, v2)" by force
    from 2(2) [OF False c] obtain s where s: "r2 = r @ s" "distinct s" "set s \<inter> set (b # v) = {}"
        "set v2 = set (b # v) \<union> set s" "set (succsOf F b) \<subseteq> set v2"
        "\<forall>x \<in> set s. \<exists>q \<in> set (succsOf F b). (q, x) \<in> (edges F)\<^sup>*" "\<forall>x \<in> set s. sset F x \<subseteq> set v2"
        "\<forall>x \<in> set s. x \<in> set (succsOf F b) \<or> (\<exists>s1 s2 p. s = s1 @ x # s2 \<and> p \<in> set s2 \<and> (p, x) \<in> edges F)"
      by blast
    have "computeRPO F bs (r2 @ [b]) v2 = (r1, v1)" using 2(4) False c by (simp add: computeRPO.simps)
    from 2(3) [OF False c [symmetric] this] obtain t where t: "r1 = (r2 @ [b]) @ t" "distinct t"
        "set t \<inter> set v2 = {}" "set v1 = set v2 \<union> set t" "set bs \<subseteq> set v1"
        "\<forall>x \<in> set t. \<exists>q \<in> set bs. (q, x) \<in> (edges F)\<^sup>*" "\<forall>x \<in> set t. sset F x \<subseteq> set v1"
        "\<forall>x \<in> set t. x \<in> set bs \<or> (\<exists>s1 s2 p. t = s1 @ x # s2 \<and> p \<in> set s2 \<and> (p, x) \<in> edges F)"
      by blast
    define u where "u = s @ b # t"
    have bE: "(b, x) \<in> edges F" if "x \<in> set (succsOf F b)" for x using that by (simp add: edges_def sset_def)
    have reach: "\<exists>q \<in> set (b # bs). (q, x) \<in> (edges F)\<^sup>*" if "x \<in> set u" for x
      using that s(6) t(6) bE unfolding u_def
      by simp (metis converse_rtrancl_into_rtrancl rtrancl.rtrancl_refl)
    have later: "x \<in> set (b # bs) \<or> (\<exists>s1 s2 p. u = s1 @ x # s2 \<and> p \<in> set s2 \<and> (p, x) \<in> edges F)"
      if x: "x \<in> set u" for x
    proof -
      consider "x \<in> set s" "x \<in> set (succsOf F b)"
        | s1 s2 p where "s = s1 @ x # s2" "p \<in> set s2" "(p, x) \<in> edges F"
        | "x = b" | "x \<in> set bs"
        | s1 s2 p where "t = s1 @ x # s2" "p \<in> set s2" "(p, x) \<in> edges F"
        using x s(8) t(8) unfolding u_def by auto
      then show ?thesis
      proof cases
        case 1
        then obtain s1 s2 where "s = s1 @ x # s2" using split_list by fast
        then have "u = s1 @ x # (s2 @ b # t)" "b \<in> set (s2 @ b # t)" by (simp_all add: u_def)
        then show ?thesis using bE [OF 1(2)] by blast
      next
        case (2 s1 s2 p)
        then have "u = s1 @ x # (s2 @ b # t)" "p \<in> set (s2 @ b # t)" by (simp_all add: u_def)
        then show ?thesis using 2(3) by blast
      next
        case (5 s1 s2 p)
        then have "u = (s @ b # s1) @ x # s2" by (simp add: u_def)
        then show ?thesis using 5 by blast
      qed simp_all
    qed
    have "r1 = r @ u" "distinct u" "set u \<inter> set v = {}" "set v1 = set v \<union> set u" "set (b # bs) \<subseteq> set v1"
      "\<forall>x \<in> set u. sset F x \<subseteq> set v1"
      using s t False by (auto simp: u_def sset_def)
    then show ?thesis using reach later by (intro exI [of _ u]) blast
  qed
qed

lemma computeRPO_last:
  assumes "computeRPO F [e] [] [] = (r, v)"
  shows "\<exists>s. r = s @ [e]"
  using assms by (auto simp: computeRPO.simps split: prod.splits)

lemma epath_edges: "epath E e \<pi> b \<Longrightarrow> e \<in> A \<Longrightarrow> (\<And>p q. p \<in> A \<Longrightarrow> (p, q) \<in> E \<Longrightarrow> q \<in> A) \<Longrightarrow> set \<pi> \<subseteq> A"
proof (induction rule: epath.induct)
  case (snoc \<pi> p q)
  then have "set \<pi> \<subseteq> A" "p \<in> A" using epath_ends by fastforce+
  then show ?case using snoc by auto
qed simp

lemma rtrancl_epath: "(e, b) \<in> E\<^sup>* \<Longrightarrow> \<exists>\<pi>. epath E e \<pi> b"
  by (induction rule: rtrancl_induct) (auto intro: epath.intros)

text \<open>The reverse post-order satisfies what the iteration needs.\<close>

lemma computeRPO_numbered:
  assumes pe: "\<And>p q. p \<in> set (predsOf F q) \<longleftrightarrow> (p, q) \<in> edges F"
    and r: "computeRPO F [e] [] [] = (r, v)"
  shows "\<exists>ix. numbered F e (set r) (rpoIndexOf r) ix \<and> visitOrder (rev r) e (set r) ix \<and>
              (\<forall>b. b \<in> set r \<longleftrightarrow> (\<exists>\<pi>. epath (edges F) e \<pi> b))"
proof -
  define ix where "ix b = the (rpoIndexOf r b)" for b
  obtain s where s: "r = s" "distinct s" "set v = set s" "e \<in> set v"
      "\<forall>x \<in> set s. (e, x) \<in> (edges F)\<^sup>*" "\<forall>x \<in> set s. sset F x \<subseteq> set v"
      "\<forall>x \<in> set s. x = e \<or> (\<exists>s1 s2 p. s = s1 @ x # s2 \<and> p \<in> set s2 \<and> (p, x) \<in> edges F)"
    using computeRPO_spec [OF r] by auto
  have cl: "q \<in> set r" if "p \<in> set r" "(p, q) \<in> edges F" for p q
    using that s by (auto simp: edges_def)
  have d: "distinct r" using s by simp
  have idx: "rpoIndexOf r (rev r ! i) = Some i" if "i < length r" for i
    using that d by (simp add: rpoIndexOf_def map_of_zip_nth)
  then have nth: "ix (rev r ! i) = i" if "i < length r" for i using that by (simp add: ix_def)
  obtain s0 where "r = s0 @ [e]" using computeRPO_last [OF r] by blast
  then have e0: "rev r ! 0 = e" "r \<noteq> []" "e \<in> set r" by auto
  have pos: "\<exists>i < length r. b = rev r ! i \<and> ix b = i" if "b \<in> set r" for b
  proof -
    have "b \<in> set (rev r)" using that by simp
    then obtain i where "i < length r" "rev r ! i = b" by (auto simp only: in_set_conv_nth length_rev)
    then show ?thesis using nth by (intro exI [of _ i]) blast
  qed
  have inj: "inj_on ix (set r)" using pos by (metis inj_onI)
  have ixe: "ix e = 0" using nth [of 0] e0 by (cases r) auto
  then have min: "ix e < ix b" if "b \<in> set r" "b \<noteq> e" for b
    using that inj e0(3) by (metis gr0I inj_onD)
  have fwd: "\<exists>p \<in> set r. (p, b) \<in> edges F \<and> ix p < ix b" if b: "b \<in> set r" "b \<noteq> e" for b
  proof -
    obtain s1 s2 p where p: "r = s1 @ b # s2" "p \<in> set s2" "(p, b) \<in> edges F" using s b by blast
    have rr: "rev r = rev s2 @ b # rev s1" using p(1) by simp
    have "p \<in> set (rev s2)" using p(2) by simp
    then obtain i where i: "i < length s2" "rev s2 ! i = p" by (auto simp only: in_set_conv_nth length_rev)
    have "rev r ! i = p" "rev r ! length s2 = b" using i rr by (simp_all add: nth_append)
    then have "ix p = i" "ix b = length s2" using nth [of i] nth [of "length s2"] i(1) p(1) by auto
    then show ?thesis using p i(1) by auto
  qed
  have ep: "set \<pi> \<subseteq> set r" if "epath (edges F) e \<pi> b" for \<pi> b using epath_edges [OF that e0(3)] cl by blast
  have ri: "rpoIndexOf r b = Some (ix b)" if b: "b \<in> set r" for b
  proof -
    obtain i where "i < length r" "b = rev r ! i" "ix b = i" using pos [OF b] by blast
    then show ?thesis using idx by simp
  qed
  have "numbered F e (set r) (rpoIndexOf r) ix"
    unfolding numbered_def
    by (intro conjI allI impI ballI) (fact pe, fact e0(3), fact finite_set, fact ep, fact ri, fact inj, fact min, fact fwd)
  moreover have "visitOrder (rev r) e (set r) ix" using nth e0 by (simp add: visitOrder_def)
  moreover have "b \<in> set r \<longleftrightarrow> (\<exists>\<pi>. epath (edges F) e \<pi> b)" for b
    using s(1,5) rtrancl_epath epath_edges [of "edges F" e _ b "set r"] e0(3) cl epath_ends by blast
  ultimately show ?thesis by blast
qed

subsection \<open>The tree and its numbering\<close>

definition desc :: "(nat \<rightharpoonup> nat) \<Rightarrow> nat \<Rightarrow> nat set" where
  "desc m b = {x. anc m b x}"

definition isTree :: "(nat \<rightharpoonup> nat) \<Rightarrow> (nat \<times> nat) list \<Rightarrow> bool" where
  "isTree m T \<longleftrightarrow> (\<forall>b. distinct (childrenOf T b) \<and> set (childrenOf T b) = {c. m c = Some b \<and> c \<noteq> b})"

lemma buildTree_isTree:
  assumes "set (iter m) = dom m" "distinct (iter m)"
  shows "isTree m (buildTree iter m)"
proof -
  have "map snd (concat (map (\<lambda>b. case m b of None \<Rightarrow> [] | Some d \<Rightarrow> if b \<noteq> d then [(d, b)] else []) bs)) =
        filter (\<lambda>b. m b \<noteq> None \<and> m b \<noteq> Some b) bs" for bs
    by (induction bs) (auto split: option.splits)
  then have "distinct (map snd (buildTree iter m))" using assms(2) by (simp add: buildTree_def)
  then have "distinct (childrenOf (buildTree iter m) b)" for b
    unfolding childrenOf_def by (rule distinct_map_filter)
  moreover have "set (childrenOf (buildTree iter m) b) = {c. m c = Some b \<and> c \<noteq> b}" for b
    using assms(1) by (fastforce simp: childrenOf_def buildTree_def image_iff split: option.splits if_splits)
  ultimately show ?thesis by (simp add: isTree_def)
qed

lemma desc_children: "isTree m T \<Longrightarrow> desc m b = insert b (\<Union>c \<in> set (childrenOf T b). desc m c)"
proof (intro equalityI subsetI)
  fix x
  assume T: "isTree m T" and "x \<in> desc m b"
  then have "anc m b x" by (simp add: desc_def)
  then show "x \<in> insert b (\<Union>c \<in> set (childrenOf T b). desc m c)"
  proof (induction rule: anc.induct)
    case (up y c b)
    then show ?case using T anc.up by (auto simp: isTree_def desc_def)
  qed simp
next
  fix x
  assume "isTree m T" and "x \<in> insert b (\<Union>c \<in> set (childrenOf T b). desc m c)"
  then show "x \<in> desc m b"
    by (auto simp: isTree_def desc_def) (metis anc.up anc.self anc_trans)
qed

lemma anc_linear: "anc m y b \<Longrightarrow> anc m x b \<Longrightarrow> anc m x y \<or> anc m y x"
proof (induction rule: anc.induct)
  case (up b c y)
  show ?case
  proof (cases "x = b")
    case True
    then show ?thesis using up(1,2) anc.up by blast
  next
    case False
    then show ?thesis using up by (auto elim: anc_cases)
  qed
qed simp

lemma child_index:
  assumes "treeOk e ix m" "m c = Some b" "c \<noteq> b"
  shows "c \<in> dom m \<and> b \<in> dom m \<and> ix b < ix c"
  using assms unfolding treeOk_def by (metis domI option.inject)

lemma desc_disjoint:
  assumes t: "treeOk e ix m" and c: "m c = Some b" "c \<noteq> b" and d: "m d = Some b" "d \<noteq> b" and ne: "c \<noteq> d"
  shows "desc m c \<inter> desc m d = {}"
proof -
  have no: False if "anc m x y" "m x = Some b" "x \<noteq> b" "m y = Some b" "x \<noteq> y" for x y
  proof -
    have "anc m x b" using that by (auto elim: anc_cases)
    then show False using anc_index [OF _ t] child_index [OF t that(2,3)] by fastforce
  qed
  show ?thesis using anc_linear no [of c d] no [of d c] c d ne unfolding desc_def by blast
qed

definition contains :: "(nat \<rightharpoonup> nat \<times> nat) \<Rightarrow> nat \<Rightarrow> nat \<Rightarrow> bool" where
  "contains nums x y \<longleftrightarrow> (\<exists>s t s' t'. nums x = Some (s, t) \<and> nums y = Some (s', t') \<and> s \<le> s' \<and> t' \<le> t)"

definition within :: "(nat \<rightharpoonup> nat \<times> nat) \<Rightarrow> nat \<Rightarrow> nat \<Rightarrow> nat set \<Rightarrow> bool" where
  "within nums lo hi D \<longleftrightarrow> (\<forall>x \<in> D. \<exists>s t. nums x = Some (s, t) \<and> lo < s \<and> s \<le> t \<and> t \<le> hi)"

lemma contains_cong:
  "nums x = nums' x \<Longrightarrow> nums y = nums' y \<Longrightarrow> contains nums x y = contains nums' x y"
  by (simp add: contains_def)

lemma contains_apart:
  assumes "within nums a b A" "within nums c d B" "b \<le> c" "x \<in> A" "y \<in> B"
  shows "\<not> contains nums x y \<and> \<not> contains nums y x"
  using assms unfolding within_def contains_def by fastforce

lemma within_cong: "within nums lo hi D \<Longrightarrow> (\<And>x. x \<in> D \<Longrightarrow> nums' x = nums x) \<Longrightarrow> within nums' lo hi D"
  by (simp add: within_def)

lemma within_mono: "within nums lo hi D \<Longrightarrow> lo' \<le> lo \<Longrightarrow> hi \<le> hi' \<Longrightarrow> within nums lo' hi' D"
  unfolding within_def by (meson le_less_trans le_trans)

text \<open>The intervals given to a forest: nested exactly along the tree.\<close>

definition numbers :: "(nat \<rightharpoonup> nat) \<Rightarrow> nat set \<Rightarrow> (nat \<rightharpoonup> nat \<times> nat) \<Rightarrow> nat \<Rightarrow> nat \<Rightarrow> bool" where
  "numbers m D nums lo hi \<longleftrightarrow> lo \<le> hi \<and> within nums lo hi D \<and> (\<forall>x \<in> D. \<forall>y \<in> D. contains nums x y \<longleftrightarrow> anc m x y)"

lemma numbers_root:
  assumes n: "numbers m (desc m b - {b}) nums (Suc c) c1" and acyc: "\<And>x. anc m x b \<Longrightarrow> x \<in> desc m b \<Longrightarrow> x = b"
  shows "numbers m (desc m b) (nums(b \<mapsto> (Suc c, c1))) c c1"
proof -
  let ?n = "nums(b \<mapsto> (Suc c, c1))"
  have w: "within ?n (Suc c) c1 (desc m b - {b})"
    using n by (auto simp: numbers_def elim!: within_cong split: if_splits)
  have inner: "contains ?n x y \<longleftrightarrow> anc m x y" if "x \<in> desc m b - {b}" "y \<in> desc m b - {b}" for x y
    using n that contains_cong [of ?n x nums y] unfolding numbers_def by simp
  have top: "contains ?n b y \<and> anc m b y" if "y \<in> desc m b" for y
  proof (cases "y = b")
    case True
    then show ?thesis by (auto simp: contains_def)
  next
    case False
    then have "y \<in> desc m b - {b}" using that by simp
    then obtain s t where "?n y = Some (s, t)" "Suc c < s" "t \<le> c1" using w unfolding within_def by blast
    moreover have "anc m b y" using that by (simp add: desc_def)
    ultimately show ?thesis unfolding contains_def by (metis fun_upd_same less_imp_le)
  qed
  have bot: "\<not> contains ?n x b \<and> \<not> anc m x b" if x: "x \<in> desc m b - {b}" for x
  proof -
    obtain s t where "?n x = Some (s, t)" "Suc c < s" using x w unfolding within_def by blast
    then have "\<not> contains ?n x b" using x by (simp add: contains_def)
    moreover have "\<not> anc m x b" using x acyc [of x] by blast
    ultimately show ?thesis ..
  qed
  have "c \<le> c1" "Suc c \<le> c1" using n by (auto simp: numbers_def)
  moreover have "within ?n c c1 {b}" "within ?n c c1 (desc m b - {b})"
    using calculation within_mono [OF w] by (auto simp: within_def)
  moreover have "within ?n c c1 (desc m b)" using calculation(3,4) unfolding within_def by blast
  ultimately show ?thesis unfolding numbers_def using inner top bot by blast
qed

lemma numbers_append:
  assumes "numbers m A nums a b" "numbers m B nums' b c" "\<And>x. x \<in> A \<Longrightarrow> nums' x = nums x"
    and "\<And>x y. x \<in> A \<Longrightarrow> y \<in> B \<Longrightarrow> \<not> anc m x y \<and> \<not> anc m y x"
  shows "numbers m (A \<union> B) nums' a c"
proof -
  have w: "within nums' a b A" "within nums' b c B" "a \<le> b" "b \<le> c"
    using assms(1-3) by (auto simp: numbers_def elim!: within_cong)
  have "contains nums' x y \<longleftrightarrow> anc m x y" if "x \<in> A" "y \<in> A" for x y
    using that assms(1,3) contains_cong [of nums' x nums y] by (simp add: numbers_def)
  moreover have "contains nums' x y \<longleftrightarrow> anc m x y" if "x \<in> B" "y \<in> B" for x y
    using that assms(2) by (simp add: numbers_def)
  moreover have "within nums' a c (A \<union> B)"
    using within_mono [OF w(1) order_refl w(4)] within_mono [OF w(2) w(3) order_refl]
    unfolding within_def by blast
  ultimately show ?thesis
    using contains_apart [OF w(1,2) order_refl] assms(4) w(3,4) unfolding numbers_def by fastforce
qed

lemma acyclic_desc:
  assumes "treeOk e ix m" "b \<in> dom m" "anc m x b" "x \<in> desc m b"
  shows "x = b"
proof -
  have x: "x \<in> dom m" "ix x \<le> ix b" using anc_index [OF assms(3,1,2)] by auto
  then have "ix b \<le> ix x" using anc_index [of m b x e ix] assms(1,4) by (auto simp: desc_def)
  then show ?thesis using x assms(1,2) by (auto simp: treeOk_def dest: inj_onD)
qed

definition apart :: "(nat \<rightharpoonup> nat) \<Rightarrow> nat list \<Rightarrow> bool" where
  "apart m bs \<longleftrightarrow> distinct bs \<and> set bs \<subseteq> dom m \<and>
     (\<forall>b \<in> set bs. \<forall>c \<in> set bs. b \<noteq> c \<longrightarrow> desc m b \<inter> desc m c = {})"

lemma apart_children: "treeOk e ix m \<Longrightarrow> isTree m T \<Longrightarrow> apart m (childrenOf T b)"
proof -
  assume t: "treeOk e ix m" and T: "isTree m T"
  then have c: "distinct (childrenOf T b)" "\<And>c. c \<in> set (childrenOf T b) \<Longrightarrow> m c = Some b \<and> c \<noteq> b"
    by (auto simp: isTree_def)
  then have "set (childrenOf T b) \<subseteq> dom m" by blast
  moreover have "desc m c \<inter> desc m d = {}"
    if "c \<in> set (childrenOf T b)" "d \<in> set (childrenOf T b)" "c \<noteq> d" for c d
    using desc_disjoint [OF t] c(2) that by simp
  ultimately show ?thesis using c(1) by (simp add: apart_def)
qed

lemma computeDFS_spec:
  assumes t: "treeOk e ix m" and T: "isTree m T"
  shows "computeDFS T bs c v nums = (c1, v1, nums1) \<Longrightarrow> apart m bs \<Longrightarrow> (\<Union>b \<in> set bs. desc m b) \<inter> set v = {} \<Longrightarrow>
    numbers m (\<Union>b \<in> set bs. desc m b) nums1 c c1 \<and> set v1 = set v \<union> (\<Union>b \<in> set bs. desc m b) \<and>
    (\<forall>x. x \<notin> (\<Union>b \<in> set bs. desc m b) \<longrightarrow> nums1 x = nums x)"
  using T
proof (induction T bs c v nums arbitrary: c1 v1 nums1 rule: computeDFS.induct)
  case (1 T c v nums)
  then show ?case by (simp add: computeDFS.simps numbers_def within_def)
next
  case (2 T b bs c v nums)
  have ch: "(\<Union>d \<in> set (childrenOf T b). desc m d) = desc m b - {b}"
  proof -
    have "b \<notin> desc m d" if "d \<in> set (childrenOf T b)" for d
    proof
      assume "b \<in> desc m d"
      moreover have "m d = Some b" "d \<noteq> b" using that 2(7) by (auto simp: isTree_def)
      ultimately show False
        using child_index [OF t] anc_index [OF _ t, of d b] by (fastforce simp: desc_def)
    qed
    then show ?thesis using desc_children [OF 2(7), of b] by auto
  qed
  let ?D = "\<Union>b \<in> set bs. desc m b"
  have b: "b \<in> dom m" "b \<in> desc m b" "apart m bs" "desc m b \<inter> ?D = {}"
    using 2(5) by (auto simp: apart_def desc_def)
  then have nv: "b \<notin> set v" using 2(6) by auto
  obtain c2 v2 n2 where c: "computeDFS T (childrenOf T b) (c + 1) (b # v) nums = (c2, v2, n2)"
    by (metis prod_cases3)
  have rest: "computeDFS T bs c2 v2 (n2(b \<mapsto> (c + 1, c2))) = (c1, v1, nums1)"
    using 2(4) nv c by (simp add: computeDFS.simps)
  have "numbers m (desc m b - {b}) n2 (Suc c) c2 \<and> set v2 = set (b # v) \<union> (desc m b - {b}) \<and>
        (\<forall>x. x \<notin> desc m b - {b} \<longrightarrow> n2 x = nums x)"
    using 2(2) [OF nv c apart_children [OF t 2(7)] _ 2(7)] 2(6) unfolding ch by auto
  then have n2: "numbers m (desc m b) (n2(b \<mapsto> (Suc c, c2))) c c2" "set v2 = set v \<union> desc m b"
      "\<And>x. x \<notin> desc m b \<Longrightarrow> n2 x = nums x"
    using numbers_root acyclic_desc [OF t b(1)] b(2) by auto
  have "?D \<inter> set v2 = {}" using n2(2) 2(6) b(4) by auto
  then have r: "numbers m ?D nums1 c2 c1" "set v1 = set v2 \<union> ?D"
      "\<And>x. x \<notin> ?D \<Longrightarrow> nums1 x = (n2(b \<mapsto> (Suc c, c2))) x"
    using 2(3) [OF nv c [symmetric] refl rest b(3) _ 2(7)] by auto
  have "numbers m (desc m b \<union> ?D) nums1 c c1"
  proof (rule numbers_append [OF n2(1) r(1)])
    show "nums1 x = (n2(b \<mapsto> (Suc c, c2))) x" if "x \<in> desc m b" for x using r(3) that b(4) by blast
    show "\<not> anc m x y \<and> \<not> anc m y x" if "x \<in> desc m b" "y \<in> ?D" for x y
      using that b(4) unfolding desc_def by (blast intro: anc_trans)
  qed
  then show ?case using n2 r b(2) by auto
qed

lemma desc_entry:
  assumes "treeOk e ix m"
  shows "desc m e = dom m"
proof -
  have "anc m e b" if "b \<in> dom m" for b
    using that
  proof (induction "ix b" arbitrary: b rule: less_induct)
    case less
    show ?case
    proof (cases "b = e")
      case False
      then obtain c where "m b = Some c" "c \<in> dom m" "ix c < ix b" using treeOk_up [OF assms less(2)] by blast
      then show ?thesis using less(1) anc.up [of m b c e] by blast
    qed simp
  qed
  moreover have "b \<in> dom m" if "anc m x b" "x \<in> dom m" for x b
    using that by (induction rule: anc.induct) auto
  moreover have "e \<in> dom m" using assms by (auto simp: treeOk_def)
  ultimately show ?thesis unfolding desc_def by blast
qed

text \<open>The test by intervals decides ancestry.\<close>

lemma computeDFS_dominates:
  assumes t: "treeOk e ix m" and T: "isTree m T"
    and n: "nums = snd (snd (computeDFS T [e] 0 [] Map.empty))"
  shows "(a = b \<or> contains nums a b) \<longleftrightarrow> (a = b \<or> (a \<in> dom m \<and> b \<in> dom m \<and> anc m a b))"
proof -
  obtain c1 v1 where c: "computeDFS T [e] 0 [] Map.empty = (c1, v1, nums)" using n by (metis prod_cases3 snd_conv)
  have "numbers m (dom m) nums 0 c1 \<and> (\<forall>x. x \<notin> dom m \<longrightarrow> nums x = None)"
    using computeDFS_spec [OF t T c] t by (simp add: desc_entry [OF t] apart_def treeOk_def domI)
  then have n: "\<And>x y. x \<in> dom m \<Longrightarrow> y \<in> dom m \<Longrightarrow> contains nums x y \<longleftrightarrow> anc m x y"
      "\<And>x. x \<notin> dom m \<Longrightarrow> nums x = None" by (auto simp: numbers_def)
  then have "a \<in> dom m \<and> b \<in> dom m" if "contains nums a b" using that by (fastforce simp: contains_def)
  then show ?thesis using n(1) by blast
qed

subsection \<open>The whole analysis\<close>

lemma depthOf_total:
  assumes t: "treeOk e ix m"
  shows "\<exists>n. depthOf e m b d = Some n"
proof (cases "b \<in> dom m")
  case True
  then show ?thesis
  proof (induction "ix b" arbitrary: b d rule: less_induct)
    case less
    show ?case
    proof (cases "b = e")
      case False
      then obtain c where "m b = Some c" "c \<in> dom m" "ix c < ix b" using treeOk_up [OF t less(2)] by blast
      then show ?thesis using less(1) by (auto simp: depthOf.simps [of e m b])
    qed (simp add: depthOf.simps)
  qed
next
  case False
  then have "m b = None" by auto
  then show ?thesis by (simp add: depthOf.simps [of e m b d])
qed

lemma depthsOf_total: "treeOk e ix m \<Longrightarrow> \<exists>n. depthsOf e m bs d = Some n"
proof (induction bs arbitrary: d)
  case (Cons b bs)
  then show ?case using depthOf_total [OF Cons(2), of b 0] by auto
qed simp

text \<open>The order in which \<open>unordered_map\<close> is traversed: every key once.\<close>

definition enumerates :: "((nat \<rightharpoonup> nat) \<Rightarrow> nat list) \<Rightarrow> nat set \<Rightarrow> bool" where
  "enumerates iter V \<longleftrightarrow> (\<forall>m. dom m \<subseteq> V \<longrightarrow> set (iter m) = dom m \<and> distinct (iter m))"

lemma synced_edges:
  assumes "synced F"
  shows "p \<in> set (predsOf F q) \<longleftrightarrow> (p, q) \<in> edges F"
proof -
  have "succsOf F x = [] \<and> predsOf F x = []" if "x \<notin> ids F" for x
  proof -
    have "theBlock F x = None" using that by (auto simp: theBlock_def ids_def blockIds_def find_None_iff)
    then show ?thesis by (simp add: succsOf_def predsOf_def)
  qed
  then have "p \<in> ids F" if "q \<in> sset F p" using that unfolding sset_def by (metis empty_iff empty_set)
  moreover have "q \<in> ids F" if "p \<in> pset F q"
    using that \<open>\<And>x. x \<notin> ids F \<Longrightarrow> succsOf F x = [] \<and> predsOf F x = []\<close> unfolding pset_def by (metis empty_iff empty_set)
  ultimately show ?thesis using synced_pred [OF assms, of q p] synced_succ [OF assms, of p q]
    unfolding edges_def pset_def by blast
qed

lemma epath_ids:
  assumes s: "synced F" and e: "getEntryBlock F = Some e" and p: "epath (edges F) e \<pi> b"
  shows "b \<in> ids F"
proof -
  have "e \<in> ids F" using e by (auto simp: getEntryBlock_ids ids_def split: list.splits)
  moreover have "q \<in> ids F" if "x \<in> ids F" "(x, q) \<in> edges F" for x q
    using that synced_succ [OF s] by (auto simp: edges_def)
  ultimately show ?thesis using epath_edges [OF p] epath_ends [OF p] by blast
qed

lemma analyze_spec:
  assumes s: "synced F" and e: "getEntryBlock F = Some e" and it: "enumerates iter (ids F)"
  shows "\<exists>D ix. analyze iter (mkDominance F) = Some D \<and> func D = F \<and> treeOk e ix (idoms D) \<and>
    dom (idoms D) = {b. \<exists>\<pi>. epath (edges F) e \<pi> b} \<and>
    (\<forall>a b. dominates D a b \<longleftrightarrow> a = b \<or> (a \<in> dom (idoms D) \<and> b \<in> dom (idoms D) \<and> anc (idoms D) a b)) \<and>
    (\<forall>b r. idoms D b = Some r \<longrightarrow> b \<noteq> e \<longrightarrow> doms (edges F) e r b \<and>
       (\<forall>x. x \<noteq> b \<longrightarrow> doms (edges F) e x b \<longrightarrow> doms (edges F) e x r)) \<and> isTree (idoms D) (domTree D)"
proof -
  obtain r v where r: "computeRPO F [e] [] [] = (r, v)" by force
  obtain ix where g: "numbered F e (set r) (rpoIndexOf r) ix" and o: "visitOrder (rev r) e (set r) ix"
    and R: "\<And>b. b \<in> set r \<longleftrightarrow> (\<exists>\<pi>. epath (edges F) e \<pi> b)"
    using computeRPO_numbered [OF synced_edges [OF s] r] by blast
  have "passInv F e (set r) ix 0 0 [e \<mapsto> e]" using g by (auto simp: passInv_def treeOk_def numbered_def)
  then obtain m where m: "domLoop F e (rpoIndexOf r) (rev r) [e \<mapsto> e] = Some m"
      "passInv F e (set r) ix (Suc (card (set r))) 0 m"
    using domLoop_spec [OF g o, of 0] by blast
  then have t: "treeOk e ix m" "dom m = set r"
    and ap: "\<And>b d. m b = Some d \<Longrightarrow> b \<noteq> e \<Longrightarrow> approx F e ix (card (set r)) b d"
    unfolding passInv_def by auto
  obtain ds where ds: "depthsOf e m (blockIds F) Map.empty = Some ds" using depthsOf_total [OF t(1)] by blast
  have "set (iter m) = dom m \<and> distinct (iter m)"
    using it epath_ids [OF s e] R t(2) unfolding enumerates_def by blast
  then have T: "isTree m (buildTree iter m)" using buildTree_isTree by blast
  define nums where "nums = snd (snd (computeDFS (buildTree iter m) [e] 0 [] Map.empty))"
  define D where "D = \<lparr>func = F, depths = ds, idoms = m, domTree = buildTree iter m, dfsNumbers = nums\<rparr>"
  have "analyze iter (mkDominance F) = Some D"
    using e r m(1) ds by (simp add: analyze_def mkDominance_def D_def nums_def Let_def)
  moreover have "dominates D a b \<longleftrightarrow> a = b \<or> contains nums a b" for a b
    by (auto simp: dominates_def contains_def D_def split: option.splits)
  moreover have "doms (edges F) e d b \<and> (\<forall>x. x \<noteq> b \<longrightarrow> doms (edges F) e x b \<longrightarrow> doms (edges F) e x d)"
    if "m b = Some d" "b \<noteq> e" for b d
    using ap [OF that] g kdoms_doms [of "edges F" e ix _ d b "set r"] unfolding approx_def numbered_def by blast
  ultimately show ?thesis
    using computeDFS_dominates [OF t(1) T nums_def] t R T
    by (intro exI [of _ D] exI [of _ ix]) (auto simp: D_def)
qed

lemma anc_doms:
  assumes t: "treeOk e ix m" and d: "\<And>b r. m b = Some r \<Longrightarrow> b \<noteq> e \<Longrightarrow> doms E e r b"
  shows "anc m x b \<Longrightarrow> b \<in> dom m \<Longrightarrow> doms E e x b"
proof (induction rule: anc.induct)
  case (up b c x)
  show ?case
  proof (cases "b = e")
    case True
    then show ?thesis using up t by (auto simp: treeOk_def)
  next
    case False
    then have "doms E e c b" "doms E e x c" using up d t by (auto simp: treeOk_def)
    then show ?thesis unfolding doms_def by (meson epath_prefix subsetD)
  qed
qed (simp add: doms_refl)

lemma doms_anc_exact:
  assumes t: "treeOk e ix m"
    and d: "\<And>b r x. m b = Some r \<Longrightarrow> b \<noteq> e \<Longrightarrow> x \<noteq> b \<Longrightarrow> doms E e x b \<Longrightarrow> doms E e x r"
  shows "b \<in> dom m \<Longrightarrow> doms E e x b \<Longrightarrow> anc m x b"
proof (induction "ix b" arbitrary: b rule: less_induct)
  case less
  show ?case
  proof (cases "b = e \<or> x = b")
    case True
    then show ?thesis using less(3) doms_entry by auto
  next
    case False
    then obtain c where c: "m b = Some c" "c \<in> dom m" "ix c < ix b" using treeOk_up [OF t less(2)] by blast
    then show ?thesis using less(1) [OF c(3,2)] d [OF c(1)] False less(3) anc.up by blast
  qed
qed

text \<open>The answers of the analysis, in terms of paths.\<close>

lemma analyze_correct:
  assumes s: "synced F" and e: "getEntryBlock F = Some e" and it: "enumerates iter (ids F)"
  shows "\<exists>D. analyze iter (mkDominance F) = Some D \<and> func D = F \<and>
    (\<forall>a b. dominates D a b \<longleftrightarrow> a = b \<or> (\<exists>\<pi>. epath (edges F) e \<pi> b) \<and> doms (edges F) e a b) \<and>
    (\<forall>b. b \<noteq> e \<longrightarrow> (\<exists>\<pi>. epath (edges F) e \<pi> b) \<longrightarrow>
       (\<exists>d. getIDom D b = Some d \<and> d \<noteq> b \<and> doms (edges F) e d b \<and>
            (\<forall>x. x \<noteq> b \<longrightarrow> doms (edges F) e x b \<longrightarrow> doms (edges F) e x d))) \<and>
    (\<forall>d. set (getChildren D d) = {b. getIDom D b = Some d \<and> b \<noteq> d})"
proof -
  obtain D ix where D: "analyze iter (mkDominance F) = Some D" "func D = F" "treeOk e ix (idoms D)"
      "dom (idoms D) = {b. \<exists>\<pi>. epath (edges F) e \<pi> b}"
      "\<And>a b. dominates D a b \<longleftrightarrow> a = b \<or> (a \<in> dom (idoms D) \<and> b \<in> dom (idoms D) \<and> anc (idoms D) a b)"
      "\<And>b r. idoms D b = Some r \<Longrightarrow> b \<noteq> e \<Longrightarrow> doms (edges F) e r b"
      "\<And>b r x. idoms D b = Some r \<Longrightarrow> b \<noteq> e \<Longrightarrow> x \<noteq> b \<Longrightarrow> doms (edges F) e x b \<Longrightarrow> doms (edges F) e x r"
      "isTree (idoms D) (domTree D)"
    using analyze_spec [OF assms] by (elim exE conjE) (rule that; blast)
  have reach: "b \<in> dom (idoms D) \<longleftrightarrow> (\<exists>\<pi>. epath (edges F) e \<pi> b)" for b using D(4) by blast
  have "anc (idoms D) a b \<longleftrightarrow> doms (edges F) e a b" if "b \<in> dom (idoms D)" for a b
  proof
    show "doms (edges F) e a b" if "anc (idoms D) a b"
      by (rule anc_doms [OF D(3) _ that \<open>b \<in> dom (idoms D)\<close>]) (rule D(6))
    show "anc (idoms D) a b" if "doms (edges F) e a b"
      by (rule doms_anc_exact [OF D(3) _ \<open>b \<in> dom (idoms D)\<close> that]) (rule D(7))
  qed
  then have "dominates D a b \<longleftrightarrow> a = b \<or> b \<in> dom (idoms D) \<and> doms (edges F) e a b" for a b
    unfolding D(5) using anc_index [OF _ D(3)] by blast
  moreover have "\<exists>d. getIDom D b = Some d \<and> d \<noteq> b \<and> doms (edges F) e d b \<and>
            (\<forall>x. x \<noteq> b \<longrightarrow> doms (edges F) e x b \<longrightarrow> doms (edges F) e x d)"
    if b: "b \<noteq> e" "b \<in> dom (idoms D)" for b
  proof -
    obtain d where d: "idoms D b = Some d" "ix d < ix b" using treeOk_up [OF D(3) b(2,1)] by blast
    then show ?thesis using D(6,7) b(1) by (intro exI [of _ d]) (auto simp: getIDom_def)
  qed
  moreover have "set (getChildren D d) = {b. getIDom D b = Some d \<and> b \<noteq> d}" for d
    using D(8) by (simp add: getChildren_def getIDom_def isTree_def)
  ultimately show ?thesis using D(1,2) reach by (intro exI [of _ D]) simp
qed

subsection \<open>Example functions\<close>

text \<open>A loop with a branch in its body: blocks 1 to 4, exit 5, and a block 9 that is never reached.\<close>

definition loopFunc :: mfunc where
  "loopFunc = exFunc [exBlock 0 [BranchInst 1], exBlock 1 [CondBranchInst (VArg 0) 2 5],
     exBlock 2 [CondBranchInst (VArg 1) 3 4], exBlock 3 [BranchInst 4], exBlock 4 [BranchInst 1],
     exBlock 5 [ReturnInst None], exBlock 9 [BranchInst 5]]"

definition keysOf :: "mfunc \<Rightarrow> (nat \<rightharpoonup> nat) \<Rightarrow> nat list" where
  "keysOf F m = filter (\<lambda>b. m b \<noteq> None) (blockIds F)"

lemma keysOf_enumerates: "distinct (blockIds F) \<Longrightarrow> enumerates (keysOf F) (ids F)"
  by (auto simp: enumerates_def keysOf_def ids_def)

lemma loop_synced: "synced (heal loopFunc)"
proof -
  have "closed loopFunc" by code_simp
  then show ?thesis by (rule heal_synced_aux)
qed

lemma loop_entry: "getEntryBlock (heal loopFunc) = Some 0"
  by code_simp

text \<open>An instruction used in the next block.\<close>

definition straightSSA :: mfunc where
  "straightSSA = exFunc [exBlock 0 [LoadInst (VArg 0) 8 False, BranchInst 1],
                         exBlock 1 [ReturnInst (Some (VInst 0))]]"

lemma straightSSA_synced: "synced (heal straightSSA)"
proof -
  have "closed straightSSA" by code_simp
  then show ?thesis by (rule heal_synced_aux)
qed

lemma straightSSA_entry: "getEntryBlock (heal straightSSA) = Some 0"
  by code_simp

lemma straightSSA_accepted:
  "\<exists>D. analyze (keysOf (heal straightSSA)) (mkDominance (heal straightSSA)) = Some D \<and> verifySSA D"
proof -
  have "(case analyze (keysOf (heal straightSSA)) (mkDominance (heal straightSSA)) of
           None \<Rightarrow> False | Some D \<Rightarrow> verifySSA D)" by code_simp
  then show ?thesis by (auto split: option.splits)
qed

lemma straightSSA_use:
  "\<exists>B \<in> set (blocks (heal straightSSA)). \<exists>i \<in> set (instructions B).
     b_id B = 1 \<and> i_body i = ReturnInst (Some (VInst 0))"
proof -
  have "list_ex (\<lambda>B. list_ex (\<lambda>i. b_id B = 1 \<and> i_body i = ReturnInst (Some (VInst 0))) (instructions B))
          (blocks (heal straightSSA))" by code_simp
  then show ?thesis by (auto simp: list_ex_iff)
qed

text \<open>A comparison in the entry of an instruction the next block defines.\<close>

definition lateDef :: mfunc where
  "lateDef = exFunc [exBlock 0 [CompareInst EQ (VInst 100) (VArg 0), BranchInst 1],
                     exBlock 1 [LoadInst (VArg 0) 8 False, ReturnInst None]]"

lemma lateDef_accepted:
  "\<exists>D. analyze (keysOf (heal lateDef)) (mkDominance (heal lateDef)) = Some D \<and> verifySSA D \<and>
     (\<exists>i \<in> set (instsOf (heal lateDef) 0). uses (i_body i) = [VInst 100, VArg 0]) \<and>
     parentOf (heal lateDef) 100 = Some 1 \<and> \<not> dominates D 1 0"
proof -
  have "(case analyze (keysOf (heal lateDef)) (mkDominance (heal lateDef)) of
           None \<Rightarrow> False | Some D \<Rightarrow> verifySSA D \<and> \<not> dominates D 1 0)" by code_simp
  moreover have "list_ex (\<lambda>i. uses (i_body i) = [VInst 100, VArg 0]) (instsOf (heal lateDef) 0)" by code_simp
  moreover have "parentOf (heal lateDef) 100 = Some 1" by code_simp
  ultimately show ?thesis by (auto simp: list_ex_iff split: option.splits)
qed

text \<open>
  C3: On a function whose edge lists are its edges, \<open>analyze\<close> ends for every traversal order of the
  hash maps, and \<open>dominates\<close> then decides dominance: a block dominates another one iff they are the
  same or the other one can be reached and lies behind it on every path from the entry.
\<close>

theorem dominance_exact:
  assumes "synced F" and "getEntryBlock F = Some e" and "enumerates iter (ids F)"
  shows "\<exists>D. analyze iter (mkDominance F) = Some D \<and>
    (\<forall>a b. dominates D a b \<longleftrightarrow>
       a = b \<or> (\<exists>\<pi>. epath (edges F) e \<pi> b) \<and> (\<forall>\<pi>. epath (edges F) e \<pi> b \<longrightarrow> a \<in> set \<pi>))"
  using analyze_correct [OF assms] unfolding doms_def by (elim exE conjE) (intro exI conjI; assumption)

theorem dominance_exact_witness:
  "\<exists>D. analyze (keysOf (heal loopFunc)) (mkDominance (heal loopFunc)) = Some D \<and>
    (\<forall>a b. dominates D a b \<longleftrightarrow> a = b \<or> (\<exists>\<pi>. epath (edges (heal loopFunc)) 0 \<pi> b) \<and>
       (\<forall>\<pi>. epath (edges (heal loopFunc)) 0 \<pi> b \<longrightarrow> a \<in> set \<pi>))"
  by (rule dominance_exact [OF loop_synced loop_entry keysOf_enumerates])
     (use loop_synced in \<open>simp add: synced_def\<close>)

text \<open>
  The dominator recorded for a reachable block other than the entry is its immediate dominator:
  it is another block on every path to the block, and every other such block is on every path to it.
  \<open>getChildren\<close> lists exactly the blocks that have the given block as immediate dominator.
\<close>

theorem immediate_dominators:
  assumes "synced F" and "getEntryBlock F = Some e" and "enumerates iter (ids F)"
  shows "\<exists>D. analyze iter (mkDominance F) = Some D \<and>
    (\<forall>b. b \<noteq> e \<longrightarrow> (\<exists>\<pi>. epath (edges F) e \<pi> b) \<longrightarrow>
       (\<exists>d. getIDom D b = Some d \<and> d \<noteq> b \<and> doms (edges F) e d b \<and>
            (\<forall>x. x \<noteq> b \<longrightarrow> doms (edges F) e x b \<longrightarrow> doms (edges F) e x d))) \<and>
    (\<forall>d. set (getChildren D d) = {b. getIDom D b = Some d \<and> b \<noteq> d})"
  using analyze_correct [OF assms] by blast

theorem immediate_dominators_witness:
  "\<exists>D. analyze (keysOf (heal loopFunc)) (mkDominance (heal loopFunc)) = Some D \<and>
    (\<forall>d. set (getChildren D d) = {b. getIDom D b = Some d \<and> b \<noteq> d})"
  using immediate_dominators [OF loop_synced loop_entry keysOf_enumerates] loop_synced
  by (auto simp: synced_def)



text \<open>
  \<open>verifySSA\<close> does not look at the operands of comparisons: it accepts a function whose entry
  block compares an instruction that is defined in another block, behind it.
\<close>

theorem verifySSA_misses_compare:
  "\<exists>D. analyze (keysOf (heal lateDef)) (mkDominance (heal lateDef)) = Some D \<and> verifySSA D \<and>
     (\<exists>i \<in> set (instsOf (heal lateDef) 0). uses (i_body i) = [VInst 100, VArg 0]) \<and>
     parentOf (heal lateDef) 100 = Some 1 \<and> \<not> dominates D 1 0"
  by (rule lateDef_accepted)

end
