(* ===== verification/HIRType.thy ===== *)
theory HIRType
  imports Moksha_Prelude "HOL-Library.Word"
begin

text \<open>
  Types of the high-level IR (\<open>include/moksha/HIR/HIRType.h\<close>, \<open>lib/middle/hir/HIRType.cpp\<close>) and
  their interning in a module (\<open>lib/middle/hir/HIRModule.cpp\<close>).

  A type object is numbered in the order of allocation and a pointer to it is its number, an option
  where the pointer may be null.  A type holds pointers to types that existed when it was made, so
  they have smaller numbers; the recursive printers follow a pointer only if it does.  Fields of
  structs and unions can be set later, but no printer follows them.

  \<open>llvm::FoldingSet\<close> is not part of the program: its lookup is the parameter \<open>fs\<close> of every
  operation that interns a type (see \<open>folding_set\<close>).  A \<open>FoldingSetNodeID\<close> is the sequence of what
  was added to it.
\<close>

subsection \<open>Type objects\<close>

datatype TypeKind =
    TK_Void | TK_Int | TK_Float | TK_Bool | TK_String | TK_Struct | TK_Union | TK_Array | TK_Slice
  | TK_Function | TK_Pointer | TK_Reference | TK_Nullable | TK_Decimal | TK_Promise | TK_Closure
  | TK_Weak | TK_View | TK_Mut | TK_Lock | TK_Const | TK_Volatile | TK_Null | TK_Any | TK_Map

datatype Ownership = Own_None | Own_Owned | Own_Borrowed | Own_Shared

datatype BorrowState = BS_None | BS_View | BS_Mut | BS_Lock

record FieldInfo =
  fi_name :: string
  fi_index :: "32 word"
  isBitfield :: bool
  bitWidth :: "32 word"
  bitOffset :: "32 word"

definition mkFieldInfo :: "string \<Rightarrow> 32 word \<Rightarrow> bool \<Rightarrow> 32 word \<Rightarrow> 32 word \<Rightarrow> FieldInfo" where
  "mkFieldInfo n i bf w off = \<lparr>fi_name = n, fi_index = i, isBitfield = bf, bitWidth = w, bitOffset = off\<rparr>"

type_synonym tptr = "nat option"

record StructData =
  s_name :: string
  s_fields :: "tptr list"
  fieldNames :: "string list"
  parentTypes :: "tptr list"
  fieldInfos :: "FieldInfo list"
  isPackedFlag :: bool
  hasVTableFlag :: bool
  isRefClassFlag :: bool

record UnionData =
  u_name :: string
  u_fields :: "tptr list"
  u_fieldNames :: "string list"

datatype (plugins only: code size) HIRType =
    HIRIntType "16 word" bool bool
  | HIRFloatType "16 word"
  | HIRStringType
  | PrimitiveType TypeKind
  | PointerType tptr Ownership BorrowState
  | ArrayType tptr "64 word"
  | SliceType tptr
  | StructType StructData
  | UnionType UnionData
  | FunctionType tptr "tptr list" bool bool
  | HIRNullableType tptr
  | ReferenceType tptr Ownership BorrowState
  | HIRDecimalType "32 word" "32 word"
  | HIRPromiseType tptr
  | HIRClosureType tptr "tptr list"
  | HIRWeakType tptr
  | HIRViewType tptr
  | HIRMutType tptr
  | HIRLockType tptr
  | HIRConstType tptr
  | HIRVolatileType tptr
  | HIRNullType
  | HIRAnyType
  | HIRMapType tptr tptr

fun getKind :: "HIRType \<Rightarrow> TypeKind" where
  "getKind (HIRIntType w s p) = TK_Int"
| "getKind (HIRFloatType w) = TK_Float"
| "getKind HIRStringType = TK_String"
| "getKind (PrimitiveType k) = k"
| "getKind (PointerType p ow st) = TK_Pointer"
| "getKind (ArrayType el n) = TK_Array"
| "getKind (SliceType el) = TK_Slice"
| "getKind (StructType s) = TK_Struct"
| "getKind (UnionType u) = TK_Union"
| "getKind (FunctionType r ps va irq) = TK_Function"
| "getKind (HIRNullableType t) = TK_Nullable"
| "getKind (ReferenceType t ow st) = TK_Reference"
| "getKind (HIRDecimalType p s) = TK_Decimal"
| "getKind (HIRPromiseType t) = TK_Promise"
| "getKind (HIRClosureType r ps) = TK_Closure"
| "getKind (HIRWeakType t) = TK_Weak"
| "getKind (HIRViewType t) = TK_View"
| "getKind (HIRMutType t) = TK_Mut"
| "getKind (HIRLockType t) = TK_Lock"
| "getKind (HIRConstType t) = TK_Const"
| "getKind (HIRVolatileType t) = TK_Volatile"
| "getKind HIRNullType = TK_Null"
| "getKind HIRAnyType = TK_Any"
| "getKind (HIRMapType k v) = TK_Map"

fun getOwnership :: "HIRType \<Rightarrow> Ownership" where
  "getOwnership (PointerType p ow st) = ow"
| "getOwnership (ReferenceType t ow st) = ow"
| "getOwnership (HIRWeakType t) = Own_Borrowed"
| "getOwnership (HIRViewType t) = Own_Borrowed"
| "getOwnership (HIRMutType t) = Own_Borrowed"
| "getOwnership (HIRLockType t) = Own_Borrowed"
| "getOwnership _ = Own_None"

definition mkStruct :: "string \<Rightarrow> tptr list \<Rightarrow> string list \<Rightarrow> bool \<Rightarrow> bool \<Rightarrow> StructData" where
  "mkStruct n fs ns packed ref = \<lparr>s_name = n, s_fields = fs, fieldNames = ns, parentTypes = [], fieldInfos = [],
     isPackedFlag = packed, hasVTableFlag = False, isRefClassFlag = ref\<rparr>"

definition mkUnion :: "string \<Rightarrow> tptr list \<Rightarrow> string list \<Rightarrow> UnionData" where
  "mkUnion n fs ns = \<lparr>u_name = n, u_fields = fs, u_fieldNames = ns\<rparr>"

definition setFields :: "tptr list \<Rightarrow> string list \<Rightarrow> StructData \<Rightarrow> StructData" where
  "setFields fs ns s = s\<lparr>s_fields := fs, fieldNames := ns\<rparr>"

definition setUnionFields :: "tptr list \<Rightarrow> string list \<Rightarrow> UnionData \<Rightarrow> UnionData" where
  "setUnionFields fs ns u = u\<lparr>u_fields := fs, u_fieldNames := ns\<rparr>"

text \<open>The loop of \<open>getFieldIndex\<close>; \<open>-1\<close> if there is no field of that name.\<close>

fun fieldIndexFrom :: "nat \<Rightarrow> string list \<Rightarrow> string \<Rightarrow> int" where
  "fieldIndexFrom i [] n = -1"
| "fieldIndexFrom i (x # xs) n = (if x = n then int i else fieldIndexFrom (Suc i) xs n)"

definition getFieldIndex :: "StructData \<Rightarrow> string \<Rightarrow> int" where
  "getFieldIndex s n = fieldIndexFrom 0 (fieldNames s) n"

definition getUnionFieldIndex :: "UnionData \<Rightarrow> string \<Rightarrow> int" where
  "getUnionFieldIndex u n = fieldIndexFrom 0 (u_fieldNames u) n"

subsection \<open>Printing and modifiers\<close>

fun primitiveName :: "TypeKind \<Rightarrow> string" where
  "primitiveName TK_Void = ''void''"
| "primitiveName TK_Bool = ''bool''"
| "primitiveName TK_String = ''string''"
| "primitiveName TK_Int = ''int_generic''"
| "primitiveName TK_Float = ''float_generic''"
| "primitiveName _ = ''unknown_primitive''"

fun pointerPrefix :: "BorrowState \<Rightarrow> string" where
  "pointerPrefix BS_Mut = ''*mut ''"
| "pointerPrefix BS_View = ''*view ''"
| "pointerPrefix BS_Lock = ''*lock ''"
| "pointerPrefix BS_None = ''*''"

fun referencePrefix :: "BorrowState \<Rightarrow> string" where
  "referencePrefix BS_Mut = ''&mut ''"
| "referencePrefix BS_View = ''&view ''"
| "referencePrefix BS_Lock = ''&lock ''"
| "referencePrefix BS_None = ''&''"

fun joinParams :: "string list \<Rightarrow> string" where
  "joinParams [] = []"
| "joinParams [s] = s"
| "joinParams (s # t # ss) = s @ '', '' @ joinParams (t # ss)"

text \<open>The loop over the parameters prints \<open>", "\<close> behind all but the last, then the ellipsis.\<close>

definition functionText :: "string list \<Rightarrow> string \<Rightarrow> bool \<Rightarrow> bool \<Rightarrow> string" where
  "functionText ps r va irq =
     ''fn('' @ joinParams ps @ (if va then (if ps \<noteq> [] then '', '' else []) @ ''...'' else []) @
     '') -> '' @ r @ (if irq then '' [interrupt]'' else [])"

text \<open>
  \<open>toString\<close> of type number \<open>n\<close> of the heap \<open>H\<close>; following a null pointer (other than the two
  places where the code tests for it) or a pointer that is no older type is \<open>None\<close>.
\<close>

fun toString :: "HIRType list \<Rightarrow> nat \<Rightarrow> string option" where
  "toString H n =
     (let sub = (\<lambda>p. case p of None \<Rightarrow> None | Some c \<Rightarrow> if c < n then toString H c else None);
          subOr = (\<lambda>d p. case p of None \<Rightarrow> Some d | Some c \<Rightarrow> if c < n then toString H c else None)
      in if n < length H then
        (case H ! n of
           HIRIntType w s p \<Rightarrow> Some ((if s then ''i'' else ''u'') @ to_string (unat w))
         | HIRFloatType w \<Rightarrow> Some (''f'' @ to_string (unat w))
         | HIRStringType \<Rightarrow> Some ''string''
         | PrimitiveType k \<Rightarrow> Some (primitiveName k)
         | PointerType p ow st \<Rightarrow> map_option (\<lambda>s. pointerPrefix st @ s) (sub p)
         | ArrayType el k \<Rightarrow> map_option (\<lambda>s. s @ ''['' @ to_string (unat k) @ '']'') (sub el)
         | SliceType el \<Rightarrow> map_option (\<lambda>s. s @ ''[]'') (sub el)
         | StructType s \<Rightarrow> Some (s_name s)
         | UnionType u \<Rightarrow> Some (u_name u)
         | FunctionType r ps va irq \<Rightarrow>
             (case those (map (subOr ''<?> '') ps) of None \<Rightarrow> None
              | Some ss \<Rightarrow> map_option (\<lambda>s. functionText ss s va irq) (subOr ''void'' r))
         | HIRNullableType t \<Rightarrow> map_option (\<lambda>s. s @ ''?'') (sub t)
         | ReferenceType t ow st \<Rightarrow> map_option (\<lambda>s. referencePrefix st @ s) (sub t)
         | HIRDecimalType p s \<Rightarrow> Some (''decimal<'' @ to_string (unat p) @ '', '' @ to_string (unat s) @ ''>'')
         | HIRPromiseType t \<Rightarrow> map_option (\<lambda>s. ''promise<'' @ s @ ''>'') (sub t)
         | HIRClosureType r ps \<Rightarrow> Some ''closure''
         | HIRWeakType t \<Rightarrow> map_option (\<lambda>s. ''weak '' @ s) (sub t)
         | HIRViewType t \<Rightarrow> map_option (\<lambda>s. ''view '' @ s) (sub t)
         | HIRMutType t \<Rightarrow> map_option (\<lambda>s. ''mut '' @ s) (sub t)
         | HIRLockType t \<Rightarrow> map_option (\<lambda>s. ''lock '' @ s) (sub t)
         | HIRConstType t \<Rightarrow> map_option (\<lambda>s. ''const '' @ s) (sub t)
         | HIRVolatileType t \<Rightarrow> map_option (\<lambda>s. ''volatile '' @ s) (sub t)
         | HIRNullType \<Rightarrow> Some ''null''
         | HIRAnyType \<Rightarrow> Some ''any''
         | HIRMapType k v \<Rightarrow>
             (case sub k of None \<Rightarrow> None
              | Some a \<Rightarrow> map_option (\<lambda>b. ''table<'' @ a @ '', '' @ b @ ''>'') (sub v)))
      else None)"

declare toString.simps [simp del]

fun isImmutable :: "HIRType \<Rightarrow> bool" where
  "isImmutable (HIRViewType t) = True"
| "isImmutable (HIRConstType t) = True"
| "isImmutable _ = False"

fun modifierInner :: "HIRType \<Rightarrow> tptr option" where
  "modifierInner (HIRViewType t) = Some t"
| "modifierInner (HIRMutType t) = Some t"
| "modifierInner (HIRLockType t) = Some t"
| "modifierInner (HIRConstType t) = Some t"
| "modifierInner (HIRVolatileType t) = Some t"
| "modifierInner _ = None"

fun stripModifiers :: "HIRType list \<Rightarrow> nat \<Rightarrow> nat option" where
  "stripModifiers H n =
     (if n < length H then
        (case modifierInner (H ! n) of
           None \<Rightarrow> Some n
         | Some p \<Rightarrow> (case p of None \<Rightarrow> None | Some c \<Rightarrow> if c < n then stripModifiers H c else None))
      else None)"

declare stripModifiers.simps [simp del]

subsection \<open>Profiles\<close>

datatype idItem = AddInteger nat | AddBoolean bool | AddPointer tptr | AddString string

type_synonym node_id = "idItem list"

text \<open>\<open>static_cast<int>\<close> of the enumerations.\<close>

fun kindInt :: "TypeKind \<Rightarrow> nat" where
  "kindInt TK_Void = 0" | "kindInt TK_Int = 1" | "kindInt TK_Float = 2" | "kindInt TK_Bool = 3"
| "kindInt TK_String = 4" | "kindInt TK_Struct = 5" | "kindInt TK_Union = 6" | "kindInt TK_Array = 7"
| "kindInt TK_Slice = 8" | "kindInt TK_Function = 9" | "kindInt TK_Pointer = 10"
| "kindInt TK_Reference = 11" | "kindInt TK_Nullable = 12" | "kindInt TK_Decimal = 13"
| "kindInt TK_Promise = 14" | "kindInt TK_Closure = 15" | "kindInt TK_Weak = 16" | "kindInt TK_View = 17"
| "kindInt TK_Mut = 18" | "kindInt TK_Lock = 19" | "kindInt TK_Const = 20" | "kindInt TK_Volatile = 21"
| "kindInt TK_Null = 22" | "kindInt TK_Any = 23" | "kindInt TK_Map = 24"

fun ownInt :: "Ownership \<Rightarrow> nat" where
  "ownInt Own_None = 0" | "ownInt Own_Owned = 1" | "ownInt Own_Borrowed = 2" | "ownInt Own_Shared = 3"

fun stateInt :: "BorrowState \<Rightarrow> nat" where
  "stateInt BS_None = 0" | "stateInt BS_View = 1" | "stateInt BS_Mut = 2" | "stateInt BS_Lock = 3"

fun Profile :: "HIRType \<Rightarrow> node_id" where
  "Profile (HIRIntType w s p) = [AddInteger (kindInt TK_Int), AddInteger (unat w), AddBoolean s, AddBoolean p]"
| "Profile (HIRFloatType w) = [AddInteger (kindInt TK_Float), AddInteger (unat w)]"
| "Profile HIRStringType = [AddInteger (kindInt TK_String)]"
| "Profile (PrimitiveType k) = [AddInteger (kindInt k)]"
| "Profile (PointerType p ow st) =
     [AddInteger (kindInt TK_Pointer), AddPointer p, AddInteger (stateInt st), AddInteger (ownInt ow)]"
| "Profile (ArrayType el n) = [AddInteger (kindInt TK_Array), AddPointer el, AddInteger (unat n)]"
| "Profile (SliceType el) = [AddInteger (kindInt TK_Slice), AddPointer el]"
| "Profile (StructType s) =
     [AddInteger (kindInt TK_Struct), AddString (s_name s), AddBoolean (isRefClassFlag s)]"
| "Profile (UnionType u) = [AddInteger (kindInt TK_Union), AddString (u_name u)]"
| "Profile (FunctionType r ps va irq) =
     AddInteger (kindInt TK_Function) # AddPointer r # map AddPointer ps @ [AddBoolean va, AddBoolean irq]"
| "Profile (HIRNullableType t) = [AddInteger (kindInt TK_Nullable), AddPointer t]"
| "Profile (ReferenceType t ow st) =
     [AddInteger (kindInt TK_Reference), AddPointer t, AddInteger (stateInt st), AddInteger (ownInt ow)]"
| "Profile (HIRDecimalType p s) = [AddInteger (kindInt TK_Decimal), AddInteger (unat p), AddInteger (unat s)]"
| "Profile (HIRPromiseType t) = [AddInteger (kindInt TK_Promise), AddPointer t]"
| "Profile (HIRClosureType r ps) = AddInteger (kindInt TK_Closure) # AddPointer r # map AddPointer ps"
| "Profile (HIRWeakType t) = [AddInteger (kindInt TK_Weak), AddPointer t]"
| "Profile (HIRViewType t) = [AddInteger (kindInt TK_View), AddPointer t]"
| "Profile (HIRMutType t) = [AddInteger (kindInt TK_Mut), AddPointer t]"
| "Profile (HIRLockType t) = [AddInteger (kindInt TK_Lock), AddPointer t]"
| "Profile (HIRConstType t) = [AddInteger (kindInt TK_Const), AddPointer t]"
| "Profile (HIRVolatileType t) = [AddInteger (kindInt TK_Volatile), AddPointer t]"
| "Profile HIRNullType = [AddInteger (kindInt TK_Null)]"
| "Profile HIRAnyType = [AddInteger (kindInt TK_Any)]"
| "Profile (HIRMapType k v) = [AddInteger (kindInt TK_Map), AddPointer k, AddPointer v]"

end
