(* ===== verification/HIRModule.thy ===== *)
theory HIRModule
  imports HIRType
begin

text \<open>
  Interning of types (\<open>lib/middle/hir/HIRModule.cpp\<close>): every getter computes an identifier, asks the
  folding set for a type with that identifier, and otherwise allocates a type and inserts it where
  the lookup pointed.  Proved: types are unique up to the identity of nominal types, except pointer
  types whose ownership and borrow state differ as numbers; those are looked up under an identifier
  in which the two are swapped and are never found again.
\<close>

subsection \<open>The folding set\<close>

text \<open>
  What LLVM documents of \<open>FindNodeOrInsertPos\<close>, for a set of nodes given with the identifier they
  were inserted under and their profile: a node that is found has the profile that was asked for,
  and a node inserted under its own profile is found.
\<close>

type_synonym fs_lookup = "(node_id \<times> node_id \<times> nat) list \<Rightarrow> node_id \<Rightarrow> nat option"

definition folding_set :: "fs_lookup \<Rightarrow> bool" where
  "folding_set fs \<longleftrightarrow>
     (\<forall>S i n. fs S i = Some n \<longrightarrow> (\<exists>j. (j, i, n) \<in> set S)) \<and>
     (\<forall>S i n. (i, i, n) \<in> set S \<longrightarrow> fs S i \<noteq> None)"

record hmodule =
  hm_name :: string
  allocated :: "HIRType list"
  uniqueTypes :: "(node_id \<times> nat) list"

definition mkHIRModule :: "string \<Rightarrow> hmodule" where
  "mkHIRModule n = \<lparr>hm_name = n, allocated = [], uniqueTypes = []\<rparr>"

definition nodesOf :: "hmodule \<Rightarrow> (node_id \<times> node_id \<times> nat) list" where
  "nodesOf M = map (\<lambda>(i, n). (i, Profile (allocated M ! n), n)) (uniqueTypes M)"

text \<open>
  \<open>FindNodeOrInsertPos\<close>, the allocation and \<open>InsertNode\<close>.  \<open>castOk\<close> is the class a found type is
  cast to with \<open>llvm::cast\<close>, which asserts it; the getters with a \<open>static_cast\<close> accept any.
\<close>

definition intern ::
  "fs_lookup \<Rightarrow> (HIRType \<Rightarrow> bool) \<Rightarrow> node_id \<Rightarrow> HIRType \<Rightarrow> hmodule \<Rightarrow> (nat \<times> hmodule) option" where
  "intern fs castOk ID newType M =
     (case fs (nodesOf M) ID of
        Some existing \<Rightarrow> if castOk (allocated M ! existing) then Some (existing, M) else None
      | None \<Rightarrow>
          (let n = length (allocated M)
           in Some (n, M\<lparr>allocated := allocated M @ [newType], uniqueTypes := uniqueTypes M @ [(ID, n)]\<rparr>)))"

abbreviation anyType :: "HIRType \<Rightarrow> bool" where
  "anyType t \<equiv> True"

subsection \<open>The getters\<close>

definition getVoidType :: "fs_lookup \<Rightarrow> hmodule \<Rightarrow> (nat \<times> hmodule) option" where
  "getVoidType fs = intern fs anyType [AddInteger (kindInt TK_Void)] (PrimitiveType TK_Void)"

definition getBoolType :: "fs_lookup \<Rightarrow> hmodule \<Rightarrow> (nat \<times> hmodule) option" where
  "getBoolType fs = intern fs anyType [AddInteger (kindInt TK_Bool)] (PrimitiveType TK_Bool)"

definition getNullType :: "fs_lookup \<Rightarrow> hmodule \<Rightarrow> (nat \<times> hmodule) option" where
  "getNullType fs = intern fs anyType [AddInteger (kindInt TK_Null)] HIRNullType"

definition getAnyType :: "fs_lookup \<Rightarrow> hmodule \<Rightarrow> (nat \<times> hmodule) option" where
  "getAnyType fs = intern fs anyType [AddInteger (kindInt TK_Any)] HIRAnyType"

definition getMapType :: "fs_lookup \<Rightarrow> tptr \<Rightarrow> tptr \<Rightarrow> hmodule \<Rightarrow> (nat \<times> hmodule) option" where
  "getMapType fs key val =
     intern fs anyType [AddInteger (kindInt TK_Map), AddPointer key, AddPointer val] (HIRMapType key val)"

definition getStringType :: "fs_lookup \<Rightarrow> hmodule \<Rightarrow> (nat \<times> hmodule) option" where
  "getStringType fs = intern fs (\<lambda>t. getKind t = TK_String) [AddInteger (kindInt TK_String)] HIRStringType"

definition getIntType :: "fs_lookup \<Rightarrow> 16 word \<Rightarrow> bool \<Rightarrow> bool \<Rightarrow> hmodule \<Rightarrow> (nat \<times> hmodule) option" where
  "getIntType fs w s p =
     intern fs (\<lambda>t. getKind t = TK_Int)
       [AddInteger (kindInt TK_Int), AddInteger (unat w), AddBoolean s, AddBoolean p] (HIRIntType w s p)"

definition getFloatType :: "fs_lookup \<Rightarrow> 16 word \<Rightarrow> hmodule \<Rightarrow> (nat \<times> hmodule) option" where
  "getFloatType fs w =
     intern fs anyType [AddInteger (kindInt TK_Float), AddInteger (unat w)] (HIRFloatType w)"

definition getDecimalType :: "fs_lookup \<Rightarrow> 32 word \<Rightarrow> 32 word \<Rightarrow> hmodule \<Rightarrow> (nat \<times> hmodule) option" where
  "getDecimalType fs p s =
     intern fs anyType [AddInteger (kindInt TK_Decimal), AddInteger (unat p), AddInteger (unat s)]
       (HIRDecimalType p s)"

definition getArrayType :: "fs_lookup \<Rightarrow> tptr \<Rightarrow> 64 word \<Rightarrow> hmodule \<Rightarrow> (nat \<times> hmodule) option" where
  "getArrayType fs el n =
     intern fs (\<lambda>t. getKind t = TK_Array)
       [AddInteger (kindInt TK_Array), AddPointer el, AddInteger (unat n)] (ArrayType el n)"

definition getSliceType :: "fs_lookup \<Rightarrow> tptr \<Rightarrow> hmodule \<Rightarrow> (nat \<times> hmodule) option" where
  "getSliceType fs el = intern fs anyType [AddInteger (kindInt TK_Slice), AddPointer el] (SliceType el)"

definition getPromiseType :: "fs_lookup \<Rightarrow> tptr \<Rightarrow> hmodule \<Rightarrow> (nat \<times> hmodule) option" where
  "getPromiseType fs t = intern fs anyType [AddInteger (kindInt TK_Promise), AddPointer t] (HIRPromiseType t)"

definition getViewType :: "fs_lookup \<Rightarrow> tptr \<Rightarrow> hmodule \<Rightarrow> (nat \<times> hmodule) option" where
  "getViewType fs t = intern fs anyType [AddInteger (kindInt TK_View), AddPointer t] (HIRViewType t)"

definition getMutType :: "fs_lookup \<Rightarrow> tptr \<Rightarrow> hmodule \<Rightarrow> (nat \<times> hmodule) option" where
  "getMutType fs t = intern fs anyType [AddInteger (kindInt TK_Mut), AddPointer t] (HIRMutType t)"

definition getLockType :: "fs_lookup \<Rightarrow> tptr \<Rightarrow> hmodule \<Rightarrow> (nat \<times> hmodule) option" where
  "getLockType fs t = intern fs anyType [AddInteger (kindInt TK_Lock), AddPointer t] (HIRLockType t)"

definition getConstType :: "fs_lookup \<Rightarrow> tptr \<Rightarrow> hmodule \<Rightarrow> (nat \<times> hmodule) option" where
  "getConstType fs t = intern fs anyType [AddInteger (kindInt TK_Const), AddPointer t] (HIRConstType t)"

definition getVolatileType :: "fs_lookup \<Rightarrow> tptr \<Rightarrow> hmodule \<Rightarrow> (nat \<times> hmodule) option" where
  "getVolatileType fs t =
     intern fs anyType [AddInteger (kindInt TK_Volatile), AddPointer t] (HIRVolatileType t)"

definition getUnionType ::
  "fs_lookup \<Rightarrow> string \<Rightarrow> tptr list \<Rightarrow> string list \<Rightarrow> hmodule \<Rightarrow> (nat \<times> hmodule) option" where
  "getUnionType fs name flds names =
     intern fs (\<lambda>t. getKind t = TK_Union) [AddInteger (kindInt TK_Union), AddString name]
       (UnionType (mkUnion name flds names))"

definition getPrimitiveType :: "fs_lookup \<Rightarrow> TypeKind \<Rightarrow> hmodule \<Rightarrow> (nat \<times> hmodule) option" where
  "getPrimitiveType fs k =
     intern fs (\<lambda>t. getKind t = TK_Void \<or> getKind t = TK_Bool) [AddInteger (kindInt k)] (PrimitiveType k)"

definition getStructType ::
  "fs_lookup \<Rightarrow> string \<Rightarrow> tptr list \<Rightarrow> string list \<Rightarrow> bool \<Rightarrow> bool \<Rightarrow> hmodule \<Rightarrow> (nat \<times> hmodule) option" where
  "getStructType fs name flds names packed ref =
     intern fs anyType [AddInteger (kindInt TK_Struct), AddString name, AddBoolean ref]
       (StructType (mkStruct name flds names packed ref))"

definition getPointerType ::
  "fs_lookup \<Rightarrow> tptr \<Rightarrow> Ownership \<Rightarrow> BorrowState \<Rightarrow> hmodule \<Rightarrow> (nat \<times> hmodule) option" where
  "getPointerType fs pointee ow st M =
     (if pointee = None then None
      else intern fs (\<lambda>t. getKind t = TK_Pointer)
             [AddInteger (kindInt TK_Pointer), AddPointer pointee, AddInteger (ownInt ow), AddInteger (stateInt st)]
             (PointerType pointee ow st) M)"

definition getFunctionType ::
  "fs_lookup \<Rightarrow> tptr \<Rightarrow> tptr list \<Rightarrow> bool \<Rightarrow> bool \<Rightarrow> hmodule \<Rightarrow> (nat \<times> hmodule) option" where
  "getFunctionType fs ret ps va irq M =
     (if ret = None \<or> None \<in> set ps then None
      else intern fs (\<lambda>t. getKind t = TK_Function)
             (AddInteger (kindInt TK_Function) # AddPointer ret # map AddPointer ps @ [AddBoolean va, AddBoolean irq])
             (FunctionType ret ps va irq) M)"

definition getClosureType :: "fs_lookup \<Rightarrow> tptr \<Rightarrow> tptr list \<Rightarrow> hmodule \<Rightarrow> (nat \<times> hmodule) option" where
  "getClosureType fs ret ps =
     intern fs anyType (AddInteger (kindInt TK_Closure) # AddPointer ret # map AddPointer ps)
       (HIRClosureType ret ps)"

definition getNullableType :: "fs_lookup \<Rightarrow> tptr \<Rightarrow> hmodule \<Rightarrow> (nat \<times> hmodule) option" where
  "getNullableType fs t M =
     (if t = None then None
      else intern fs anyType [AddInteger (kindInt TK_Nullable), AddPointer t] (HIRNullableType t) M)"

definition getWeakType :: "fs_lookup \<Rightarrow> tptr \<Rightarrow> hmodule \<Rightarrow> (nat \<times> hmodule) option" where
  "getWeakType fs t M =
     (if t = None then None
      else intern fs anyType [AddInteger (kindInt TK_Weak), AddPointer t] (HIRWeakType t) M)"

subsection \<open>Histories of a module\<close>

text \<open>A request for a type, one per getter, and a change of the fields of a nominal type.\<close>

datatype (plugins only: code size) tyreq =
    ReqVoid | ReqBool | ReqNull | ReqAny | ReqMap tptr tptr | ReqString | ReqInt "16 word" bool bool
  | ReqFloat "16 word" | ReqDecimal "32 word" "32 word" | ReqArray tptr "64 word" | ReqSlice tptr
  | ReqPromise tptr | ReqView tptr | ReqMut tptr | ReqLock tptr | ReqConst tptr | ReqVolatile tptr
  | ReqUnion string "tptr list" "string list" | ReqPrimitive TypeKind
  | ReqStruct string "tptr list" "string list" bool bool | ReqPointer tptr Ownership BorrowState
  | ReqFunction tptr "tptr list" bool bool | ReqClosure tptr "tptr list" | ReqNullable tptr
  | ReqWeak tptr

fun request :: "fs_lookup \<Rightarrow> tyreq \<Rightarrow> hmodule \<Rightarrow> (nat \<times> hmodule) option" where
  "request fs ReqVoid = getVoidType fs"
| "request fs ReqBool = getBoolType fs"
| "request fs ReqNull = getNullType fs"
| "request fs ReqAny = getAnyType fs"
| "request fs (ReqMap k v) = getMapType fs k v"
| "request fs ReqString = getStringType fs"
| "request fs (ReqInt w s p) = getIntType fs w s p"
| "request fs (ReqFloat w) = getFloatType fs w"
| "request fs (ReqDecimal p s) = getDecimalType fs p s"
| "request fs (ReqArray el n) = getArrayType fs el n"
| "request fs (ReqSlice el) = getSliceType fs el"
| "request fs (ReqPromise t) = getPromiseType fs t"
| "request fs (ReqView t) = getViewType fs t"
| "request fs (ReqMut t) = getMutType fs t"
| "request fs (ReqLock t) = getLockType fs t"
| "request fs (ReqConst t) = getConstType fs t"
| "request fs (ReqVolatile t) = getVolatileType fs t"
| "request fs (ReqUnion n f ns) = getUnionType fs n f ns"
| "request fs (ReqPrimitive k) = getPrimitiveType fs k"
| "request fs (ReqStruct n f ns pk rc) = getStructType fs n f ns pk rc"
| "request fs (ReqPointer t ow st) = getPointerType fs t ow st"
| "request fs (ReqFunction r ps va irq) = getFunctionType fs r ps va irq"
| "request fs (ReqClosure r ps) = getClosureType fs r ps"
| "request fs (ReqNullable t) = getNullableType fs t"
| "request fs (ReqWeak t) = getWeakType fs t"

definition updateFields :: "nat \<Rightarrow> tptr list \<Rightarrow> string list \<Rightarrow> hmodule \<Rightarrow> hmodule" where
  "updateFields n flds names M =
     (if n < length (allocated M) then
        (case allocated M ! n of
           StructType s \<Rightarrow> M\<lparr>allocated := (allocated M)[n := StructType (setFields flds names s)]\<rparr>
         | UnionType u \<Rightarrow> M\<lparr>allocated := (allocated M)[n := UnionType (setUnionFields flds names u)]\<rparr>
         | _ \<Rightarrow> M)
      else M)"

datatype event = Request tyreq | SetFields nat "tptr list" "string list"

fun runEvents :: "fs_lookup \<Rightarrow> event list \<Rightarrow> hmodule \<Rightarrow> hmodule option" where
  "runEvents fs [] M = Some M"
| "runEvents fs (Request r # es) M =
     (case request fs r M of None \<Rightarrow> None | Some (n, M1) \<Rightarrow> runEvents fs es M1)"
| "runEvents fs (SetFields n flds names # es) M = runEvents fs es (updateFields n flds names M)"

text \<open>The type a request asks for, and the identifier it is looked up under.\<close>

fun reqType :: "tyreq \<Rightarrow> HIRType" where
  "reqType ReqVoid = PrimitiveType TK_Void"
| "reqType ReqBool = PrimitiveType TK_Bool"
| "reqType ReqNull = HIRNullType"
| "reqType ReqAny = HIRAnyType"
| "reqType (ReqMap k v) = HIRMapType k v"
| "reqType ReqString = HIRStringType"
| "reqType (ReqInt w s p) = HIRIntType w s p"
| "reqType (ReqFloat w) = HIRFloatType w"
| "reqType (ReqDecimal p s) = HIRDecimalType p s"
| "reqType (ReqArray el n) = ArrayType el n"
| "reqType (ReqSlice el) = SliceType el"
| "reqType (ReqPromise t) = HIRPromiseType t"
| "reqType (ReqView t) = HIRViewType t"
| "reqType (ReqMut t) = HIRMutType t"
| "reqType (ReqLock t) = HIRLockType t"
| "reqType (ReqConst t) = HIRConstType t"
| "reqType (ReqVolatile t) = HIRVolatileType t"
| "reqType (ReqUnion n f ns) = UnionType (mkUnion n f ns)"
| "reqType (ReqPrimitive k) = PrimitiveType k"
| "reqType (ReqStruct n f ns pk rc) = StructType (mkStruct n f ns pk rc)"
| "reqType (ReqPointer t ow st) = PointerType t ow st"
| "reqType (ReqFunction r ps va irq) = FunctionType r ps va irq"
| "reqType (ReqClosure r ps) = HIRClosureType r ps"
| "reqType (ReqNullable t) = HIRNullableType t"
| "reqType (ReqWeak t) = HIRWeakType t"

fun swapped :: "HIRType \<Rightarrow> node_id" where
  "swapped (PointerType p ow st) =
     [AddInteger (kindInt TK_Pointer), AddPointer p, AddInteger (ownInt ow), AddInteger (stateInt st)]"
| "swapped t = Profile t"

definition reqID :: "tyreq \<Rightarrow> node_id" where
  "reqID r = swapped (reqType r)"

text \<open>Pointer types whose ownership and borrow state differ as numbers.\<close>

fun mixedPointer :: "HIRType \<Rightarrow> bool" where
  "mixedPointer (PointerType p ow st) = (ownInt ow \<noteq> stateInt st)"
| "mixedPointer _ = False"

lemma swapped_eq: "swapped t = Profile t \<longleftrightarrow> \<not> mixedPointer t"
  by (cases t) auto

lemma Profile_hd: "\<exists>xs. Profile t = AddInteger (kindInt (getKind t)) # xs"
  by (cases t) auto

lemma swapped_hd: "\<exists>xs. swapped t = AddInteger (kindInt (getKind t)) # xs"
  by (cases t) auto

lemma kindInt_inj: "kindInt k = kindInt l \<longleftrightarrow> k = l"
  by (cases k; cases l) auto

lemma ownInt_inj: "ownInt a = ownInt b \<longleftrightarrow> a = b"
  by (cases a; cases b) auto

lemma stateInt_inj: "stateInt a = stateInt b \<longleftrightarrow> a = b"
  by (cases a; cases b) auto

text \<open>Every getter is \<open>intern\<close> on the type asked for, behind its assertions.\<close>

lemma request_intern:
  assumes "request fs r M = Some (n, M1)"
  shows "\<exists>ok. intern fs ok (reqID r) (reqType r) M = Some (n, M1)"
  using assms
  by (cases r)
     (auto simp: reqID_def getVoidType_def getBoolType_def getNullType_def getAnyType_def getMapType_def
       getStringType_def getIntType_def getFloatType_def getDecimalType_def getArrayType_def
       getSliceType_def getPromiseType_def getViewType_def getMutType_def getLockType_def
       getConstType_def getVolatileType_def getUnionType_def getPrimitiveType_def getStructType_def
       getPointerType_def getFunctionType_def getClosureType_def getNullableType_def getWeakType_def
       mkUnion_def mkStruct_def split: if_splits)

subsection \<open>The invariant of the set\<close>

definition goodEntry :: "hmodule \<Rightarrow> node_id \<Rightarrow> nat \<Rightarrow> bool" where
  "goodEntry M i n \<longleftrightarrow> (i, n) \<in> set (uniqueTypes M) \<and> n < length (allocated M) \<and> Profile (allocated M ! n) = i"

text \<open>
  Every entry is a good one or a mixed pointer, and there is at most one good entry per identifier.
\<close>

definition internInv :: "hmodule \<Rightarrow> bool" where
  "internInv M \<longleftrightarrow>
     (\<forall>(i, n) \<in> set (uniqueTypes M). n < length (allocated M) \<and>
        (i = Profile (allocated M ! n) \<or> mixedPointer (allocated M ! n))) \<and>
     (\<forall>i n k. goodEntry M i n \<longrightarrow> goodEntry M i k \<longrightarrow> n = k)"

text \<open>What a later state of the module keeps of an earlier one.\<close>

definition extends :: "hmodule \<Rightarrow> hmodule \<Rightarrow> bool" where
  "extends M N \<longleftrightarrow> length (allocated M) \<le> length (allocated N) \<and>
     set (uniqueTypes M) \<subseteq> set (uniqueTypes N) \<and>
     (\<forall>n < length (allocated M). Profile (allocated N ! n) = Profile (allocated M ! n) \<and>
        (mixedPointer (allocated M ! n) \<longrightarrow> allocated N ! n = allocated M ! n))"

lemma extends_refl: "extends M M"
  by (simp add: extends_def)

lemma extends_trans: "extends M N \<Longrightarrow> extends N K \<Longrightarrow> extends M K"
  unfolding extends_def by (intro conjI allI impI) auto

lemma goodEntry_extends: "extends M N \<Longrightarrow> goodEntry M i n \<Longrightarrow> goodEntry N i n"
  unfolding extends_def goodEntry_def by auto

lemma found_profile:
  assumes "folding_set fs" "fs (nodesOf M) i = Some n"
  shows "\<exists>j. (j, n) \<in> set (uniqueTypes M) \<and> Profile (allocated M ! n) = i"
  using assms unfolding folding_set_def nodesOf_def by fastforce

lemma good_found:
  assumes "folding_set fs" "goodEntry M i n"
  shows "fs (nodesOf M) i \<noteq> None"
proof -
  have "(i, i, n) \<in> set (nodesOf M)" using assms(2) by (force simp: nodesOf_def goodEntry_def)
  then show ?thesis using assms(1) unfolding folding_set_def by blast
qed

lemma request_new:
  assumes "request fs r M = Some (n, N)" "fs (nodesOf M) (reqID r) = None"
  shows "n = length (allocated M) \<and> allocated N = allocated M @ [reqType r] \<and>
         uniqueTypes N = uniqueTypes M @ [(reqID r, n)]"
  using request_intern [OF assms(1)] assms(2) by (auto simp: intern_def Let_def)

lemma request_found:
  assumes "request fs r M = Some (n, N)" "fs (nodesOf M) (reqID r) = Some k"
  shows "n = k \<and> N = M"
  using request_intern [OF assms(1)] assms(2) by (auto simp: intern_def split: if_splits)

lemma request_extends: "request fs r M = Some (n, N) \<Longrightarrow> extends M N"
  using request_new [of fs r M n N] request_found [of fs r M n N] extends_refl
  by (cases "fs (nodesOf M) (reqID r)") (auto simp: extends_def nth_append)

lemma request_inv:
  assumes fs: "folding_set fs" and v: "internInv M" and r: "request fs r M = Some (n, N)"
  shows "internInv N"
proof (cases "fs (nodesOf M) (reqID r)")
  case None
  note N = request_new [OF r None]
  have old: "goodEntry N i k \<longleftrightarrow> goodEntry M i k" if "k < length (allocated M)" for i k
    using that N by (auto simp: goodEntry_def nth_append)
  have new: "i = reqID r" if "goodEntry N i (length (allocated M))" for i
    using that N v by (auto simp: goodEntry_def internInv_def)
  have no: "\<not> goodEntry M (reqID r) k" for k using good_found [OF fs] None by blast
  have "n1 = n2" if "goodEntry N i n1" "goodEntry N i n2" for i n1 n2
  proof -
    have "n1 \<le> length (allocated M)" "n2 \<le> length (allocated M)" using that N by (auto simp: goodEntry_def)
    then show ?thesis
      using that old new no v unfolding internInv_def by (metis le_neq_implies_less)
  qed
  moreover have "\<forall>(i, k) \<in> set (uniqueTypes N). k < length (allocated N) \<and>
        (i = Profile (allocated N ! k) \<or> mixedPointer (allocated N ! k))"
    using v N swapped_eq [of "reqType r"] by (auto simp: internInv_def nth_append reqID_def)
  ultimately show ?thesis by (auto simp: internInv_def)
next
  case (Some k)
  then show ?thesis using request_found [OF r] v by simp
qed

lemma updateFields_view:
  "length (allocated (updateFields n f ns M)) = length (allocated M)"
  "uniqueTypes (updateFields n f ns M) = uniqueTypes M"
  "k < length (allocated M) \<Longrightarrow> Profile (allocated (updateFields n f ns M) ! k) = Profile (allocated M ! k)"
  "k < length (allocated M) \<Longrightarrow> mixedPointer (allocated (updateFields n f ns M) ! k) = mixedPointer (allocated M ! k)"
  "mixedPointer (allocated M ! k) \<Longrightarrow> k < length (allocated M) \<Longrightarrow>
     allocated (updateFields n f ns M) ! k = allocated M ! k"
  by (cases "allocated M ! n"; auto simp: updateFields_def nth_list_update setFields_def setUnionFields_def)+

lemma updateFields_inv: "internInv M \<Longrightarrow> internInv (updateFields n f ns M)"
proof -
  have "goodEntry (updateFields n f ns M) i k \<longleftrightarrow> goodEntry M i k" for i k
    by (auto simp: goodEntry_def updateFields_view)
  then show "internInv M \<Longrightarrow> internInv (updateFields n f ns M)"
    by (fastforce simp: internInv_def updateFields_view)
qed

lemma updateFields_extends: "extends M (updateFields n f ns M)"
  by (simp add: extends_def updateFields_view)

lemma runEvents_keeps:
  "runEvents fs es M = Some N \<Longrightarrow> internInv M \<Longrightarrow> folding_set fs \<Longrightarrow> internInv N \<and> extends M N"
proof (induction fs es M rule: runEvents.induct)
  case (2 fs r es M)
  from 2(2) obtain n M1 where r: "request fs r M = Some (n, M1)" and N: "runEvents fs es M1 = Some N"
    by (auto split: option.splits)
  then have "internInv N \<and> extends M1 N" using 2 request_inv [OF _ _ r] by auto
  then show ?case using request_extends [OF r] extends_trans by blast
next
  case (3 fs n flds names es M)
  then show ?case using updateFields_inv updateFields_extends extends_trans by fastforce
qed (simp add: extends_refl)

lemma mkHIRModule_inv: "internInv (mkHIRModule nm)"
  by (simp add: internInv_def mkHIRModule_def goodEntry_def)

subsection \<open>Canonical types\<close>

text \<open>Requests other than for mixed pointers and for primitives the cast rejects.\<close>

definition regular :: "tyreq \<Rightarrow> bool" where
  "regular r \<longleftrightarrow> \<not> mixedPointer (reqType r)"

lemma mixed_profile: "mixedPointer t \<Longrightarrow> \<not> mixedPointer u \<Longrightarrow> Profile t \<noteq> Profile u"
  by (cases t; cases u) auto

lemma regular_entry:
  assumes fs: "folding_set fs" and v: "internInv M" and r: "request fs r M = Some (n, N)" "regular r"
  shows "goodEntry N (reqID r) n"
proof -
  have id: "reqID r = Profile (reqType r)" using r(2) swapped_eq by (simp add: regular_def reqID_def)
  show ?thesis
  proof (cases "fs (nodesOf M) (reqID r)")
    case None
    then show ?thesis using request_new [OF r(1)] id by (simp add: goodEntry_def)
  next
    case (Some k)
    then obtain j where j: "(j, k) \<in> set (uniqueTypes M)" "Profile (allocated M ! k) = reqID r"
      using found_profile [OF fs] by blast
    have "\<not> mixedPointer (allocated M ! k)" using mixed_profile j(2) id r(2) by (auto simp: regular_def)
    then have "goodEntry M (reqID r) k" using v j by (auto simp: internInv_def goodEntry_def)
    then show ?thesis using request_found [OF r(1) Some] by simp
  qed
qed

text \<open>The identity of a type: nominal types by name, \<open>void\<close> and \<open>bool\<close> by either getter.\<close>

fun canonReq :: "tyreq \<Rightarrow> tyreq" where
  "canonReq (ReqStruct n f ns pk rc) = ReqStruct n [] [] False rc"
| "canonReq (ReqUnion n f ns) = ReqUnion n [] []"
| "canonReq (ReqPrimitive TK_Void) = ReqVoid"
| "canonReq (ReqPrimitive TK_Bool) = ReqBool"
| "canonReq (ReqPrimitive TK_String) = ReqString"
| "canonReq (ReqPrimitive TK_Null) = ReqNull"
| "canonReq (ReqPrimitive TK_Any) = ReqAny"
| "canonReq r = r"

lemma map_AddPointer_inj: "map AddPointer ps = map AddPointer qs \<longleftrightarrow> ps = qs"
  by (simp add: inj_map_eq_map inj_def)

lemma params_inj:
  "map AddPointer ps @ [AddBoolean a, AddBoolean b] = map AddPointer qs @ [AddBoolean c, AddBoolean d] \<longleftrightarrow>
     ps = qs \<and> a = c \<and> b = d"
proof -
  have "xs @ [x, y] = zs @ [u, v] \<longleftrightarrow> xs = zs \<and> x = u \<and> y = v" for xs zs :: "idItem list" and x y u v
    by auto
  then show ?thesis by (auto simp: map_AddPointer_inj)
qed

lemma canonPrimitive:
  "canonReq (ReqPrimitive k) =
     (if k = TK_Void then ReqVoid else if k = TK_Bool then ReqBool else if k = TK_String then ReqString
      else if k = TK_Null then ReqNull else if k = TK_Any then ReqAny else ReqPrimitive k)"
  by (cases k) auto

text \<open>Two regular requests have one identifier iff they ask for the same type.\<close>

lemma reqID_canon:
  assumes "regular r" "regular q"
  shows "reqID r = reqID q \<longleftrightarrow> canonReq r = canonReq q"
proof (cases "\<exists>k. r = ReqPrimitive k \<or> q = ReqPrimitive k")
  case True
  have "reqID (ReqPrimitive k) = reqID (ReqPrimitive l) \<longleftrightarrow> canonReq (ReqPrimitive k) = canonReq (ReqPrimitive l)" for k l
    by (auto simp: reqID_def kindInt_inj canonPrimitive)
  moreover have "reqID (ReqPrimitive k) = reqID q \<longleftrightarrow> canonReq (ReqPrimitive k) = canonReq q"
    if "\<And>l. q \<noteq> ReqPrimitive l" for k q
    using that by (cases k; cases q) (auto simp: reqID_def mkStruct_def mkUnion_def)
  ultimately have *: "reqID (ReqPrimitive k) = reqID q \<longleftrightarrow> canonReq (ReqPrimitive k) = canonReq q" for k q
    by (cases "\<exists>l. q = ReqPrimitive l") auto
  show ?thesis using True * by (metis (no_types))
next
  case False
  then show ?thesis
    using assms
    by (cases r; cases q)
       (auto simp: reqID_def regular_def mkStruct_def mkUnion_def map_AddPointer_inj params_inj ownInt_inj stateInt_inj
         intro: unsigned_word_eqI ownInt_inj [THEN iffD1])
qed

text \<open>Mixed pointers are found under no identifier they are asked for.\<close>

lemma mixed_not_found:
  assumes fs: "folding_set fs" and m: "mixedPointer (reqType r)"
    and q: "request fs r M = Some (n, N)" and n: "n < length (allocated M)"
  shows "allocated M ! n \<noteq> reqType r"
proof (cases "fs (nodesOf M) (reqID r)")
  case None
  then show ?thesis using request_new [OF q] n by simp
next
  case (Some k)
  then have "Profile (allocated M ! n) = reqID r" using found_profile [OF fs Some] request_found [OF q Some] by blast
  then show ?thesis using m swapped_eq [of "reqType r"] by (auto simp: reqID_def)
qed

lemma request_bound:
  assumes "folding_set fs" "internInv M" "request fs r M = Some (n, N)"
  shows "n < length (allocated N)"
proof (cases "fs (nodesOf M) (reqID r)")
  case None
  then show ?thesis using request_new [OF assms(3)] by simp
next
  case (Some k)
  then show ?thesis using found_profile [OF assms(1) Some] request_found [OF assms(3) Some] assms(2)
    by (auto simp: internInv_def)
qed

text \<open>The folding set without rehashing: a node is found in the bucket it was put in.\<close>

definition fsScan :: fs_lookup where
  "fsScan S i = map_option (\<lambda>(j, p, n). n) (List.find (\<lambda>(j, p, n). j = i \<and> p = i) S)"

lemma fsScan_folding_set: "folding_set fsScan"
proof -
  have "\<exists>j. (j, i, n) \<in> set S" if "fsScan S i = Some n" for S i n
    using that by (auto simp: fsScan_def find_Some_iff) (metis nth_mem)
  moreover have "fsScan S i \<noteq> None" if "(i, i, n) \<in> set S" for S i n
  proof -
    have "List.find (\<lambda>(j, p, n). j = i \<and> p = i) S \<noteq> None" unfolding find_None_iff using that by auto
    then show ?thesis by (auto simp: fsScan_def)
  qed
  ultimately show ?thesis unfolding folding_set_def by blast
qed



text \<open>
  Pointer types whose ownership and borrow state differ as numbers are not interned:
  \<open>getPointerType\<close> looks for ownership and borrow state in the other order than \<open>Profile\<close> adds them,
  so a second request never returns the pointer type the first one made.
\<close>

theorem mixed_pointers_not_interned:
  assumes "folding_set fs"
    and "runEvents fs es (mkHIRModule nm) = Some M1" and "getPointerType fs p ow st M1 = Some (n, M2)"
    and "runEvents fs es' M2 = Some M3" and "getPointerType fs p ow st M3 = Some (k, M4)"
    and "ownInt ow \<noteq> stateInt st" and "allocated M2 ! n = PointerType p ow st"
  shows "k \<noteq> n"
proof -
  let ?r = "ReqPointer p ow st"
  have 1: "internInv M1" "internInv M2" "extends M2 M3"
    using runEvents_keeps [OF assms(2) mkHIRModule_inv assms(1)] request_inv [OF assms(1), of M1 ?r n M2] assms(3)
      runEvents_keeps [OF assms(4) _ assms(1)] by auto
  have "n < length (allocated M2)" using request_bound [OF assms(1) 1(1), of ?r n M2] assms(3) by simp
  then have "n < length (allocated M3)" "allocated M3 ! n = reqType ?r"
    using 1(3) assms(6,7) by (auto simp: extends_def)
  then show ?thesis using mixed_not_found [OF assms(1), of ?r M3 k M4] assms(5,6) by auto
qed

theorem mixed_pointers_not_interned_witness:
  "\<exists>n M2 k M4. getPointerType fsScan (Some 0) Own_Borrowed BS_None (mkHIRModule ''m'') = Some (n, M2) \<and>
     getPointerType fsScan (Some 0) Own_Borrowed BS_None M2 = Some (k, M4) \<and> k \<noteq> n"
proof -
  obtain n M2 where 1: "getPointerType fsScan (Some 0) Own_Borrowed BS_None (mkHIRModule ''m'') = Some (n, M2)"
      "allocated M2 ! n = PointerType (Some 0) Own_Borrowed BS_None"
    by (simp add: getPointerType_def intern_def fsScan_def nodesOf_def mkHIRModule_def Let_def)
  have "\<exists>k M4. getPointerType fsScan (Some 0) Own_Borrowed BS_None M2 = Some (k, M4)"
    using 1 by (auto simp: getPointerType_def intern_def fsScan_def nodesOf_def mkHIRModule_def Let_def)
  then obtain k M4 where 2: "getPointerType fsScan (Some 0) Own_Borrowed BS_None M2 = Some (k, M4)" by blast
  have "k \<noteq> n"
    using mixed_pointers_not_interned [OF fsScan_folding_set, of "[]" "''m''" _ "Some 0" Own_Borrowed BS_None n M2
        "[]" M2 k M4] 1 2 by simp
  then show ?thesis using 1 2 by blast
qed

end
