(* ===== verification/MIRModule.thy ===== *)
theory MIRModule
  imports SimplifyCFG HIRType "HOL-Library.AList"
begin

text \<open>
  Constants, globals and modules of the mid-level IR (\<open>include/moksha/MIR/{MIRInst,MIRGlobal,
  MIRModule}.h\<close>, \<open>lib/middle/mir/MIRModule.cpp\<close>), the naming of values
  (\<open>lib/middle/mir/MIRFunction.cpp\<close>) and the pass manager.

  Functions and constants of a module are never freed while it is in use, so the pointer to one is
  its position in the module's list; globals can be erased and carry their number.  A \<open>double\<close> is
  its 64 bits.
\<close>

subsection \<open>Constants and globals\<close>

datatype (plugins only: code size) const_body =
    ConstantInt "64 word"
  | ConstantFloat "64 word"
  | ConstantDecimal string
  | ConstantBool bool
  | ConstantString string
  | ConstantNull
  | ConstantUndef
  | ConstantArray "mvalue list"
  | ConstantSlice "mvalue list"
  | ConstantMap "(mvalue \<times> mvalue) list"
  | ConstantStruct "mvalue list"
  | ConstantUnion "nat option"
  | ConstantBitCast mvalue
  | ConstantUpcast mvalue
  | ConstantAnyCast mvalue
  | ConstantArrayToSlice mvalue
  | ConstantSliceToArray mvalue

record mconst =
  c_type :: "hirty option"
  c_body :: const_body

record mglobal =
  g_id :: nat
  g_name :: string
  g_type :: "hirty option"
  initializer :: "nat option"
  g_isConstant :: bool
  g_linkage :: Linkage
  g_isExtern :: bool
  g_alignment :: "32 word"
  g_isUsed :: bool
  g_isThreadLocal :: bool
  g_isVolatile :: bool
  g_section :: string

definition mkGlobal :: "nat \<Rightarrow> string \<Rightarrow> hirty option \<Rightarrow> nat option \<Rightarrow> bool \<Rightarrow> Linkage \<Rightarrow> mglobal" where
  "mkGlobal p n t init isConst l =
     \<lparr>g_id = p, g_name = n, g_type = t, initializer = init, g_isConstant = isConst, g_linkage = l,
      g_isExtern = False, g_alignment = 0, g_isUsed = False, g_isThreadLocal = False,
      g_isVolatile = False, g_section = []\<rparr>"

subsection \<open>Modules\<close>

record mmodule =
  m_name :: string
  functionsDirty :: bool
  globalsDirty :: bool
  functionCache :: "nat list"
  globalCache :: "nat list"
  m_functions :: "mfunc list"
  m_globals :: "mglobal list"
  functionMap :: "string \<rightharpoonup> nat"
  globalMap :: "string \<rightharpoonup> nat"
  m_constants :: "mconst list"

definition mkModule :: "string \<Rightarrow> mmodule" where
  "mkModule n = \<lparr>m_name = n, functionsDirty = True, globalsDirty = True, functionCache = [],
     globalCache = [], m_functions = [], m_globals = [], functionMap = Map.empty, globalMap = Map.empty,
     m_constants = []\<rparr>"

definition addFunction :: "mfunc \<Rightarrow> mmodule \<Rightarrow> mmodule" where
  "addFunction F M =
     M\<lparr>functionMap := (functionMap M)(f_name F \<mapsto> length (m_functions M)),
       m_functions := m_functions M @ [F], functionsDirty := True\<rparr>"

definition getFunctions :: "mmodule \<Rightarrow> nat list \<times> mmodule" where
  "getFunctions M =
     (let M1 = (if functionsDirty M
                then M\<lparr>functionCache := [0..<length (m_functions M)], functionsDirty := False\<rparr> else M)
      in (functionCache M1, M1))"

definition addGlobal :: "mglobal \<Rightarrow> mmodule \<Rightarrow> mmodule" where
  "addGlobal g M =
     M\<lparr>globalMap := (globalMap M)(g_name g \<mapsto> g_id g), m_globals := m_globals M @ [g], globalsDirty := True\<rparr>"

definition getGlobals :: "mmodule \<Rightarrow> nat list \<times> mmodule" where
  "getGlobals M =
     (let M1 = (if globalsDirty M
                then M\<lparr>globalCache := map g_id (m_globals M), globalsDirty := False\<rparr> else M)
      in (globalCache M1, M1))"

definition getFunction :: "mmodule \<Rightarrow> string \<Rightarrow> nat option" where
  "getFunction M n = functionMap M n"

definition getGlobal :: "mmodule \<Rightarrow> string \<Rightarrow> nat option" where
  "getGlobal M n = globalMap M n"

definition getOrInsertConstant :: "hirty option \<Rightarrow> const_body \<Rightarrow> mmodule \<Rightarrow> mvalue \<times> mmodule" where
  "getOrInsertConstant t c M =
     (VConst (length (m_constants M)), M\<lparr>m_constants := m_constants M @ [\<lparr>c_type = t, c_body = c\<rparr>]\<rparr>)"

datatype IntrinsicID =
    Intr_None | Intr_Bswap | Intr_Ctlz | Intr_Cttz | Intr_Ctpop | Intr_Trap | Intr_AtomicLoad
  | Intr_AtomicStore | Intr_AtomicAdd | Intr_AtomicCAS | Intr_AtomicFenceAcquire
  | Intr_AtomicFenceRelease | Intr_AtomicFenceSeqCst | Intr_AtomicThreadFence

definition IntrinsicTable :: "(string \<times> IntrinsicID) list" where
  "IntrinsicTable =
     [(''llvm.bswap.i16'', Intr_Bswap), (''llvm.bswap.i32'', Intr_Bswap), (''llvm.bswap.i64'', Intr_Bswap),
      (''llvm.ctlz.i32'', Intr_Ctlz), (''llvm.cttz.i32'', Intr_Cttz), (''llvm.ctpop.i32'', Intr_Ctpop),
      (''llvm.trap'', Intr_Trap), (''atomic_load'', Intr_AtomicLoad), (''atomic_store'', Intr_AtomicStore),
      (''atomic_add'', Intr_AtomicAdd), (''atomic_cas'', Intr_AtomicCAS),
      (''atomic_fence_acquire'', Intr_AtomicFenceAcquire), (''atomic_fence_release'', Intr_AtomicFenceRelease),
      (''atomic_fence_seqcst'', Intr_AtomicFenceSeqCst), (''atomic_thread_fence'', Intr_AtomicThreadFence)]"

definition lookupIntrinsic :: "string \<Rightarrow> IntrinsicID" where
  "lookupIntrinsic n = (case map_of IntrinsicTable n of Some i \<Rightarrow> i | None \<Rightarrow> Intr_None)"

text \<open>The constant a value points to.\<close>

definition constOf :: "mconst list \<Rightarrow> mvalue \<Rightarrow> mconst option" where
  "constOf cs v = (case v of VConst n \<Rightarrow> if n < length cs then Some (cs ! n) else None | _ \<Rightarrow> None)"

subsection \<open>Names of values\<close>

definition getUniqueName :: "string \<Rightarrow> mfunc \<Rightarrow> string \<times> mfunc" where
  "getUniqueName baseName F =
     (if baseName = [] then ([], F)
      else
        (let count = (case map_of (nameCounters F) baseName of Some c \<Rightarrow> c | None \<Rightarrow> 0);
             F1 = F\<lparr>nameCounters := AList.update baseName (count + 1) (nameCounters F)\<rparr>
         in (if count = 0 then baseName else baseName @ ''.'' @ to_string (unat count), F1)))"

fun numberArgs :: "32 word \<Rightarrow> marg list \<Rightarrow> 32 word \<times> marg list" where
  "numberArgs c [] = (c, [])"
| "numberArgs c (a # as) =
     (if a_name a = []
      then (case numberArgs (c + 1) as of (c1, as1) \<Rightarrow> (c1, a\<lparr>a_name := to_string (unat c)\<rparr> # as1))
      else (case numberArgs c as of (c1, as1) \<Rightarrow> (c1, a # as1)))"

definition producesValue :: "inst \<Rightarrow> bool" where
  "producesValue i = (i_type i \<noteq> None \<and> i_type i \<noteq> Some TyVoid)"

text \<open>The state of the loop: the counter and the function, whose name counters change.\<close>

fun numberInsts :: "32 word \<Rightarrow> mfunc \<Rightarrow> inst list \<Rightarrow> 32 word \<times> mfunc \<times> inst list" where
  "numberInsts c F [] = (c, F, [])"
| "numberInsts c F (i # ys) =
     (if producesValue i then
        (if i_name i = [] then
           (case numberInsts (c + 1) F ys of
              (c1, F1, js) \<Rightarrow> (c1, F1, i\<lparr>i_name := to_string (unat c)\<rparr> # js))
         else
           (case getUniqueName (i_name i) F of (n, F1) \<Rightarrow>
              (case numberInsts c F1 ys of (c1, F2, js) \<Rightarrow> (c1, F2, i\<lparr>i_name := n\<rparr> # js))))
      else (case numberInsts c F ys of (c1, F1, js) \<Rightarrow> (c1, F1, i # js)))"

fun numberBlocks :: "32 word \<Rightarrow> mfunc \<Rightarrow> mblock list \<Rightarrow> 32 word \<times> mfunc \<times> mblock list" where
  "numberBlocks c F [] = (c, F, [])"
| "numberBlocks c F (b # bs) =
     (let (c1, b1) = (if b_name b = [] then (c + 1, b\<lparr>b_name := to_string (unat c)\<rparr>) else (c, b))
      in case numberInsts c1 F (instructions b1) of (c2, F2, ys) \<Rightarrow>
           (case numberBlocks c2 F2 bs of (c3, F3, bs1) \<Rightarrow> (c3, F3, b1\<lparr>instructions := ys\<rparr> # bs1)))"

definition numberUnnamedValues :: "mfunc \<Rightarrow> mfunc" where
  "numberUnnamedValues F =
     (case numberArgs 0 (f_args F) of (c, as) \<Rightarrow>
        (case numberBlocks c F (blocks F) of (c1, F1, bs) \<Rightarrow> F1\<lparr>f_args := as, blocks := bs\<rparr>))"

subsection \<open>The pass manager\<close>

type_synonym pass = "mmodule \<Rightarrow> (bool \<times> mmodule) option"

fun runPasses :: "pass list \<Rightarrow> bool \<Rightarrow> mmodule \<Rightarrow> (bool \<times> mmodule) option" where
  "runPasses [] changed M = Some (changed, M)"
| "runPasses (p # ps) changed M =
     (case p M of None \<Rightarrow> None | Some (c, M1) \<Rightarrow> runPasses ps (changed \<or> c) M1)"

text \<open>\<open>n\<close> rounds are left of the \<open>MAX_ITERATIONS\<close>.\<close>

fun passRounds :: "nat \<Rightarrow> pass list \<Rightarrow> mmodule \<Rightarrow> mmodule option" where
  "passRounds 0 ps M = Some M"
| "passRounds (Suc n) ps M =
     (case runPasses ps False M of
        None \<Rightarrow> None
      | Some (changed, M1) \<Rightarrow> if changed then passRounds n ps M1 else Some M1)"

definition PassManager_run :: "pass list \<Rightarrow> mmodule \<Rightarrow> mmodule option" where
  "PassManager_run ps M = passRounds 15 ps M"

end
