(* ===== verification/DeadCode.thy ===== *)
theory DeadCode
  imports MIRModule
begin

text \<open>
  Dead code elimination (\<open>lib/middle/mir/passes/DeadCodeEliminationPass.cpp\<close>): unreachable blocks
  are removed, trivial phis replaced, then instructions and globals nothing with an effect depends
  on are removed by mark and sweep.

  The two worklist loops pop from the back of a vector.  A set the code only tests for membership
  is a list without repetitions.
\<close>

subsection \<open>Unreachable blocks\<close>

text \<open>\<open>if (reachable.insert(succ).second) worklist.push_back(succ)\<close> over the successors.\<close>

fun pushNew :: "'a list \<Rightarrow> 'a list \<Rightarrow> 'a list \<Rightarrow> 'a list \<times> 'a list" where
  "pushNew [] seen work = (seen, work)"
| "pushNew (x # xs) seen work =
     (if x \<in> set seen then pushNew xs seen work else pushNew xs (seen @ [x]) (work @ [x]))"

text \<open>
  A worklist loop over what \<open>next\<close> gives, as both loops of the pass are.  It ends because the values
  \<open>next\<close> can give are the finite set \<open>U\<close>.
\<close>

lemma pushNew_set:
  "pushNew xs seen work = (s, w) \<Longrightarrow>
     set s = set seen \<union> set xs \<and> (\<exists>ys. s = seen @ ys \<and> w = work @ ys \<and> set ys = set xs - set seen)"
proof (induction xs seen work arbitrary: s w rule: pushNew.induct)
  case (2 x xs seen work)
  show ?case
  proof (cases "x \<in> set seen")
    case True
    then show ?thesis using 2(1) [OF True] 2(3) by auto
  next
    case False
    then have "pushNew xs (seen @ [x]) (work @ [x]) = (s, w)" using 2(3) by simp
    from 2(2) [OF False this] obtain ys where "s = seen @ x # ys" "w = work @ x # ys"
        "set s = insert x (set seen \<union> set xs)" "set ys = set xs - insert x (set seen)" by auto
    then show ?thesis using False by (intro conjI exI [of _ "x # ys"]) auto
  qed
qed auto

function reachLoop :: "mfunc \<Rightarrow> nat list \<Rightarrow> nat list \<Rightarrow> nat list" where
  "reachLoop F reachable worklist =
     (if worklist = [] then reachable
      else case pushNew (succsOf F (last worklist)) reachable (butlast worklist) of
             (reachable1, worklist1) \<Rightarrow> reachLoop F reachable1 worklist1)"
  by pat_completeness auto

definition succIds :: "mfunc \<Rightarrow> nat set" where
  "succIds F = (\<Union>b \<in> set (blocks F). set (successors b))"

lemma succIds_finite [simp]: "finite (succIds F)"
  by (simp add: succIds_def)

lemma succsOf_succIds: "set (succsOf F b) \<subseteq> succIds F"
  by (fastforce simp: succsOf_def theBlock_def succIds_def find_Some_iff2 split: option.splits)

text \<open>A step of a worklist loop takes new values from the finite set, or shortens the list.\<close>

lemma worklist_decreases:
  assumes "finite U" "set xs \<subseteq> U" "work \<noteq> []" "pushNew xs seen (butlast work) = (s, w)"
  shows "((card (U - set s), length w), (card (U - set seen), length work)) \<in> less_than <*lex*> less_than"
proof (cases "set xs \<subseteq> set seen")
  case True
  then have "set xs - set seen = {}" by auto
  moreover obtain ys where "s = seen @ ys" "w = butlast work @ ys" "set ys = set xs - set seen"
    using pushNew_set [OF assms(4)] by blast
  ultimately have "s = seen" "w = butlast work" by (metis append_Nil2 set_empty)+
  then show ?thesis using assms(3) by simp
next
  case False
  then have "U - set s \<subset> U - set seen" using pushNew_set [OF assms(4)] assms(2) by blast
  then show ?thesis using assms(1) by (simp add: psubset_card_mono)
qed

termination reachLoop
proof (relation "inv_image (less_than <*lex*> less_than) (\<lambda>(F, r, w). (card (succIds F - set r), length w))",
       goal_cases)
  case (2 F reachable worklist r w)
  then have p: "pushNew (succsOf F (last worklist)) reachable (butlast worklist) = (r, w)" by simp
  have "((card (succIds F - set r), length w), (card (succIds F - set reachable), length worklist)) \<in> less_than <*lex*> less_than"
    by (rule worklist_decreases [OF _ succsOf_succIds 2(1) p]) simp
  then show ?case by (simp only: in_inv_image case_prod_conv)
qed auto

declare reachLoop.simps [simp del]

definition reachableBlocks :: "mfunc \<Rightarrow> nat \<Rightarrow> nat list" where
  "reachableBlocks F entry = reachLoop F [entry] [entry]"

text \<open>\<open>livePreds[b]\<close>: the reachable blocks with \<open>b\<close> among their successors.\<close>

definition livePreds :: "mfunc \<Rightarrow> nat list \<Rightarrow> nat \<Rightarrow> nat list" where
  "livePreds F reach b = filter (\<lambda>p. b \<in> set (succsOf F p)) reach"

definition pruneBlock :: "mfunc \<Rightarrow> nat list \<Rightarrow> mblock \<Rightarrow> mblock" where
  "pruneBlock F reach B =
     (if b_id B \<in> set reach
      then B\<lparr>instructions := map (updPhi (filter (\<lambda>(v, p). p \<in> set (livePreds F reach (b_id B))))) (instructions B)\<rparr>
      else B)"

definition prunePhis :: "nat list \<Rightarrow> mfunc \<Rightarrow> bool \<times> mfunc" where
  "prunePhis reach F =
     (let F1 = F\<lparr>blocks := map (pruneBlock F reach) (blocks F)\<rparr> in (blocks F1 \<noteq> blocks F, F1))"

text \<open>The loop that erases blocks, at the block ids \<open>bs\<close>.\<close>

definition detachBlock :: "nat list \<Rightarrow> nat \<Rightarrow> mfunc \<Rightarrow> mfunc" where
  "detachBlock reach b F =
     fold (\<lambda>s. if s \<in> set reach then updBlock s (removePredecessor b) else id) (succsOf F b) F"

fun eraseUnreachable :: "nat list \<Rightarrow> nat list \<Rightarrow> bool \<times> mfunc \<Rightarrow> bool \<times> mfunc" where
  "eraseUnreachable reach [] st = st"
| "eraseUnreachable reach (b # bs) (changed, F) =
     (if b \<in> set reach then eraseUnreachable reach bs (changed, F)
      else (let F1 = detachBlock reach b F
            in eraseUnreachable reach bs (True, F1\<lparr>blocks := filter (\<lambda>B. b_id B \<noteq> b) (blocks F1)\<rparr>)))"

definition removeUnreachable :: "mfunc \<Rightarrow> bool \<times> mfunc" where
  "removeUnreachable F =
     (case getEntryBlock F of
        None \<Rightarrow> (False, F)
      | Some entry \<Rightarrow>
          (let reach = reachableBlocks F entry
           in eraseUnreachable reach (blockIds F) (prunePhis reach F)))"

subsection \<open>Trivial phis\<close>

definition eraseInst :: "nat \<Rightarrow> nat \<Rightarrow> mfunc \<Rightarrow> mfunc" where
  "eraseInst b j F = updBlock b (setInsts (\<lambda>xs. take j xs @ drop (Suc j) xs)) F"

text \<open>
  The loop over the instructions of block \<open>b\<close> from position \<open>j\<close>; the state is the change flag, the
  constants of the module and the function.
\<close>

lemma instsOf_replaceAll:
  "instsOf (replaceAllUsesInFunction x y F) b =
     map (\<lambda>i. i\<lparr>i_body := replaceOperand x y (i_body i)\<rparr>) (instsOf F b)"
proof -
  have "List.find (\<lambda>B. b_id B = b) (map (\<lambda>B. B\<lparr>instructions := f (instructions B)\<rparr>) bs) =
        map_option (\<lambda>B. B\<lparr>instructions := f (instructions B)\<rparr>) (List.find (\<lambda>B. b_id B = b) bs)"
    for f and bs :: "mblock list" by (induction bs) auto
  then show ?thesis
    by (auto simp: instsOf_def theBlock_def replaceAllUsesInFunction_def split: option.splits)
qed

lemma instsOf_eraseInst: "instsOf (eraseInst b j F) b = take j (instsOf F b) @ drop (Suc j) (instsOf F b)"
proof -
  have "List.find (\<lambda>B. b_id B = b) (map (\<lambda>B. if b_id B = b then setInsts f B else B) bs) =
        map_option (setInsts f) (List.find (\<lambda>B. b_id B = b) bs)" for f and bs :: "mblock list"
    by (induction bs) (auto simp: setInsts_def)
  then show ?thesis
    by (auto simp: instsOf_def theBlock_def eraseInst_def updBlock_def setInsts_def split: option.splits)
qed

definition trivialPhi :: "mconst list \<Rightarrow> mfunc \<Rightarrow> nat \<Rightarrow> inst \<Rightarrow> (mvalue \<times> mconst list) option" where
  "trivialPhi cs F b i =
     (case i_body i of
        PhiInst incoming \<Rightarrow>
          (let undef = (VConst (length cs), cs @ [\<lparr>c_type = i_type i, c_body = ConstantUndef\<rparr>])
           in if length incoming = 1 \<and> length (predsOf F b) \<le> 1 then
                (if fst (hd incoming) = VInst (i_id i) then Some undef else Some (fst (hd incoming), cs))
              else if incoming = [] then Some undef
              else None)
      | _ \<Rightarrow> None)"

function phiLoop :: "nat \<Rightarrow> nat \<Rightarrow> bool \<Rightarrow> mconst list \<Rightarrow> mfunc \<Rightarrow> bool \<times> mconst list \<times> mfunc" where
  "phiLoop b j changed cs F =
     (if j < length (instsOf F b) then
        (case trivialPhi cs F b (instsOf F b ! j) of
           None \<Rightarrow> phiLoop b (Suc j) changed cs F
         | Some (v, cs1) \<Rightarrow>
             phiLoop b j True cs1
               (eraseInst b j (replaceAllUsesInFunction (VInst (i_id (instsOf F b ! j))) v F)))
      else (changed, cs, F))"
  by pat_completeness auto
termination
  by (relation "measure (\<lambda>(b, j, ch, cs, F). length (instsOf F b) - j)")
     (auto simp: instsOf_eraseInst instsOf_replaceAll)

declare phiLoop.simps [simp del]

fun phiBlocks :: "nat list \<Rightarrow> bool \<times> mconst list \<times> mfunc \<Rightarrow> bool \<times> mconst list \<times> mfunc" where
  "phiBlocks [] st = st"
| "phiBlocks (b # bs) (changed, cs, F) = phiBlocks bs (phiLoop b 0 changed cs F)"

subsection \<open>Mark and sweep\<close>

fun hasSideEffects :: "inst_body \<Rightarrow> bool" where
  "hasSideEffects (StoreInst v p al vol) = True"
| "hasSideEffects (StoreWeakInst v p) = True"
| "hasSideEffects (CallInst c as va) = True"
| "hasSideEffects (InvokeInst c as n u) = True"
| "hasSideEffects (ReturnInst v) = True"
| "hasSideEffects UnreachableInst = True"
| "hasSideEffects (BranchInst t) = True"
| "hasSideEffects (CondBranchInst c t f) = True"
| "hasSideEffects (SwitchInst c d cs) = True"
| "hasSideEffects (ThrowInst e u) = True"
| "hasSideEffects (ResumeInst e) = True"
| "hasSideEffects (InlineAsmInst s c as vol) = True"
| "hasSideEffects (SpawnInst c k) = True"
| "hasSideEffects (AwaitInst p) = True"
| "hasSideEffects (AtomicStoreInst v p m) = True"
| "hasSideEffects (AtomicRMWInst op p v m) = True"
| "hasSideEffects (AtomicCmpXchgInst p e d sm fm) = True"
| "hasSideEffects (FenceInst m) = True"
| "hasSideEffects (ARCInst op ob df) = True"
| "hasSideEffects (LandingPadInst ts) = True"
| "hasSideEffects (LoadInst p al vol) = vol"
| "hasSideEffects (AtomicLoadInst p m) = True"
| "hasSideEffects _ = False"

text \<open>\<open>extractOperands\<close>: what is marked alive for an instruction and for a constant.\<close>

fun instOperands :: "inst_body \<Rightarrow> mvalue list" where
  "instOperands (LoadInst p al vol) = [p]"
| "instOperands (StoreInst v p al vol) = [v, p]"
| "instOperands (StoreWeakInst v p) = [v, p]"
| "instOperands (LoadWeakInst p) = [p]"
| "instOperands (GetElementPtrInst p idxs) = p # idxs"
| "instOperands (CallInst c as va) = c # as"
| "instOperands (CastInst op v off) = [v]"
| "instOperands (PhiInst inc) = map fst inc"
| "instOperands (BinaryInst op l r) = [l, r]"
| "instOperands (CompareInst pr l r) = [l, r]"
| "instOperands (FCmpInst pr l r) = [l, r]"
| "instOperands (ReturnInst v) = (case v of Some w \<Rightarrow> [w] | None \<Rightarrow> [])"
| "instOperands (CondBranchInst c t f) = [c]"
| "instOperands (SwitchInst c d cs) = c # map fst cs"
| "instOperands (InvokeInst c as n u) = c # as"
| "instOperands (ResumeInst e) = (case e of Some w \<Rightarrow> [w] | None \<Rightarrow> [])"
| "instOperands (ThrowInst e u) = [e]"
| "instOperands (InlineAsmInst s c as vol) = as"
| "instOperands (SpawnInst c k) = [c]"
| "instOperands (AwaitInst p) = [p]"
| "instOperands (AtomicLoadInst p m) = [p]"
| "instOperands (AtomicStoreInst v p m) = [v, p]"
| "instOperands (AtomicRMWInst op p v m) = [v, p]"
| "instOperands (AtomicCmpXchgInst p e d sm fm) = [p, e, d]"
| "instOperands (ExtractValueInst a i) = [a]"
| "instOperands (InsertValueInst a v i) = [a, v]"
| "instOperands (ARCInst op ob df) = [ob]"
| "instOperands (MakeSharedInst v) = [v]"
| "instOperands (MakeClosureInst f cs) = f # cs"
| "instOperands _ = []"

fun constOperands :: "const_body \<Rightarrow> mvalue list" where
  "constOperands (ConstantArray es) = es"
| "constOperands (ConstantMap es) = concat (map (\<lambda>(k, v). [k, v]) es)"
| "constOperands (ConstantStruct es) = es"
| "constOperands (ConstantBitCast v) = [v]"
| "constOperands (ConstantAnyCast v) = [v]"
| "constOperands (ConstantArrayToSlice v) = [v]"
| "constOperands (ConstantSliceToArray v) = [v]"
| "constOperands _ = []"

definition allInsts :: "mmodule \<Rightarrow> inst list" where
  "allInsts M = concat (map (\<lambda>F. concat (map instructions (blocks F))) (m_functions M))"

definition extractOperands :: "mmodule \<Rightarrow> mvalue \<Rightarrow> mvalue list" where
  "extractOperands M v =
     (case v of
        VInst n \<Rightarrow> (case List.find (\<lambda>i. i_id i = n) (allInsts M) of
                      None \<Rightarrow> [] | Some i \<Rightarrow> instOperands (i_body i))
      | VGlobal n \<Rightarrow> (case List.find (\<lambda>g. g_id g = n) (m_globals M) of
                        None \<Rightarrow> [] | Some g \<Rightarrow> (case initializer g of None \<Rightarrow> [] | Some c \<Rightarrow> [VConst c]))
      | VConst n \<Rightarrow> if n < length (m_constants M) then constOperands (c_body (m_constants M ! n)) else []
      | _ \<Rightarrow> [])"

definition liveGlobal :: "mglobal \<Rightarrow> bool" where
  "liveGlobal g \<longleftrightarrow> g_linkage g \<noteq> Link_Internal \<or> g_isUsed g"

definition isSystemRoot :: "mfunc \<Rightarrow> bool" where
  "isSystemRoot F \<longleftrightarrow> f_name F = ''__moksha_module_init'' \<or> f_name F = ''__moksha_module_destroy''"

definition seeds :: "mmodule \<Rightarrow> mvalue list" where
  "seeds M =
     map (\<lambda>g. VGlobal (g_id g)) (filter liveGlobal (m_globals M)) @
     concat (map (\<lambda>F. map (\<lambda>i. VInst (i_id i))
       (filter (\<lambda>i. isSystemRoot F \<or> hasSideEffects (i_body i)) (concat (map instructions (blocks F)))))
       (m_functions M))"

function markLoop :: "mmodule \<Rightarrow> mvalue list \<Rightarrow> mvalue list \<Rightarrow> mvalue list" where
  "markLoop M alive worklist =
     (if worklist = [] then alive
      else case pushNew (extractOperands M (last worklist)) alive (butlast worklist) of
             (alive1, worklist1) \<Rightarrow> markLoop M alive1 worklist1)"
  by pat_completeness auto

definition operandValues :: "mmodule \<Rightarrow> mvalue set" where
  "operandValues M = (\<Union>i \<in> set (allInsts M). set (instOperands (i_body i))) \<union>
     (\<Union>c \<in> set (m_constants M). set (constOperands (c_body c))) \<union>
     {VConst c | c. \<exists>g \<in> set (m_globals M). initializer g = Some c}"

lemma operandValues_finite [simp]: "finite (operandValues M)"
proof -
  have "{VConst c | c. \<exists>g \<in> set (m_globals M). initializer g = Some c} \<subseteq>
        (\<lambda>g. VConst (the (initializer g))) ` set (m_globals M)" by force
  then have "finite {VConst c | c. \<exists>g \<in> set (m_globals M). initializer g = Some c}"
    by (rule finite_subset) simp
  then show ?thesis by (simp add: operandValues_def)
qed

lemma extractOperands_values: "set (extractOperands M v) \<subseteq> operandValues M"
  by (cases v) (fastforce simp: extractOperands_def operandValues_def find_Some_iff2 split: option.splits if_splits)+

termination markLoop
proof (relation "inv_image (less_than <*lex*> less_than) (\<lambda>(M, r, w). (card (operandValues M - set r), length w))",
       goal_cases)
  case (2 M alive worklist r w)
  then have p: "pushNew (extractOperands M (last worklist)) alive (butlast worklist) = (r, w)" by simp
  have "((card (operandValues M - set r), length w), (card (operandValues M - set alive), length worklist)) \<in> less_than <*lex*> less_than"
    by (rule worklist_decreases [OF _ extractOperands_values 2(1) p]) simp
  then show ?case by (simp only: in_inv_image case_prod_conv)
qed auto

declare markLoop.simps [simp del]

definition aliveValues :: "mmodule \<Rightarrow> mvalue list" where
  "aliveValues M = (case pushNew (seeds M) [] [] of (alive, worklist) \<Rightarrow> markLoop M alive worklist)"

definition sweepInsts :: "mvalue list \<Rightarrow> mfunc \<Rightarrow> mfunc" where
  "sweepInsts alive F =
     F\<lparr>blocks := map (\<lambda>B. B\<lparr>instructions := filter (\<lambda>i. VInst (i_id i) \<in> set alive) (instructions B)\<rparr>) (blocks F)\<rparr>"

definition sweepGlobals :: "mvalue list \<Rightarrow> mmodule \<Rightarrow> mmodule" where
  "sweepGlobals alive M =
     (let dead = filter (\<lambda>g. VGlobal (g_id g) \<notin> set alive) (m_globals M)
      in M\<lparr>globalMap := fold (\<lambda>g m. m(g_name g := None)) dead (globalMap M),
           m_globals := filter (\<lambda>g. VGlobal (g_id g) \<in> set alive) (m_globals M)\<rparr>)"

definition markSweep :: "mmodule \<Rightarrow> bool \<times> mmodule" where
  "markSweep M =
     (let alive = aliveValues M;
          M1 = M\<lparr>m_functions := map (sweepInsts alive) (m_functions M)\<rparr>;
          M2 = sweepGlobals alive M1
      in (length (allInsts M1) \<noteq> length (allInsts M) \<or> length (m_globals M2) \<noteq> length (m_globals M1), M2))"

subsection \<open>The pass\<close>

fun phiFunctions :: "mfunc list \<Rightarrow> bool \<times> mconst list \<Rightarrow> bool \<times> mconst list \<times> mfunc list" where
  "phiFunctions [] (changed, cs) = (changed, cs, [])"
| "phiFunctions (F # Fs) (changed, cs) =
     (case (if isDeclaration F then (changed, cs, F) else phiBlocks (blockIds F) (changed, cs, F)) of
        (changed1, cs1, F1) \<Rightarrow>
          (case phiFunctions Fs (changed1, cs1) of (changed2, cs2, Fs1) \<Rightarrow> (changed2, cs2, F1 # Fs1)))"

definition eliminateDeadCode :: "mmodule \<Rightarrow> bool \<times> mmodule" where
  "eliminateDeadCode M =
     (let rs = map removeUnreachable (m_functions M)
      in case phiFunctions (map snd rs) (list_ex fst rs, m_constants M) of
           (changed1, cs, Fs) \<Rightarrow>
             (case markSweep (M\<lparr>m_functions := Fs, m_constants := cs\<rparr>) of
                (changed2, M2) \<Rightarrow> (changed1 \<or> changed2, M2)))"

end
