(* ===== verification/DeadCodeProps.thy ===== *)
theory DeadCodeProps
  imports DeadCode SimplifyProps
begin

text \<open>
  Dead code elimination is exact: the worklist loops compute what is reachable (the interface
  \<open>exploration\<close>, interpreted on both loops), the sweep keeps an instruction or a global iff something
  with an effect depends on it, and removing unreachable blocks keeps the edge lists in step.
\<close>

subsection \<open>Worklist loops\<close>

definition stepRel :: "('a \<Rightarrow> 'a list) \<Rightarrow> ('a \<times> 'a) set" where
  "stepRel nxt = {(v, u). u \<in> set (nxt v)}"

locale exploration =
  fixes nxt :: "'a \<Rightarrow> 'a list" and loop :: "'a list \<Rightarrow> 'a list \<Rightarrow> 'a list" and U :: "'a set"
  assumes finite_U: "finite U" and nxt_U: "set (nxt v) \<subseteq> U"
    and loop_eq: "loop seen work =
      (if work = [] then seen
       else case pushNew (nxt (last work)) seen (butlast work) of (seen1, work1) \<Rightarrow> loop seen1 work1)"
begin

definition explored :: "'a set \<Rightarrow> 'a list \<Rightarrow> 'a list \<Rightarrow> bool" where
  "explored S seen work \<longleftrightarrow> S \<subseteq> set seen \<and> set work \<subseteq> set seen \<and>
     (\<forall>v \<in> set seen - set work. set (nxt v) \<subseteq> set seen) \<and> set seen \<subseteq> (stepRel nxt)\<^sup>* `` S"

lemma explored_step:
  assumes e: "explored S seen work" and w: "work \<noteq> []"
    and p: "pushNew (nxt (last work)) seen (butlast work) = (seen1, work1)"
  shows "explored S seen1 work1"
proof -
  obtain ys where s: "seen1 = seen @ ys" "work1 = butlast work @ ys" "set ys = set (nxt (last work)) - set seen"
    and u: "set seen1 = set seen \<union> set (nxt (last work))" using pushNew_set [OF p] by blast
  have wk: "set work = insert (last work) (set (butlast work))"
    using w by (metis append_butlast_last_id list.set(1,2) set_append Un_insert_right sup_bot.right_neutral)
  have "last work \<in> (stepRel nxt)\<^sup>* `` S" using e wk unfolding explored_def by blast
  then have "set (nxt (last work)) \<subseteq> (stepRel nxt)\<^sup>* `` S"
    by (auto simp: stepRel_def intro: rtrancl_into_rtrancl)
  moreover have "set (nxt v) \<subseteq> set seen1" if "v \<in> set seen1 - set work1" for v
    using that e s u wk unfolding explored_def by auto
  moreover have "set (butlast work) \<subseteq> set seen" using e wk by (auto simp: explored_def)
  ultimately show ?thesis using e s u unfolding explored_def by auto
qed

lemma loop_explored: "explored S seen work \<Longrightarrow> explored S (loop seen work) []"
proof (induction "(card (U - set seen), length work)" arbitrary: seen work
    rule: wf_induct_rule [OF wf_lex_prod [OF wf_less_than wf_less_than]])
  case (1 seen work)
  show ?case
  proof (cases "work = []")
    case True
    then show ?thesis using 1(2) loop_eq [of seen work] by simp
  next
    case False
    obtain seen1 work1 where p: "pushNew (nxt (last work)) seen (butlast work) = (seen1, work1)" by force
    have "((card (U - set seen1), length work1), card (U - set seen), length work) \<in> less_than <*lex*> less_than"
      by (rule worklist_decreases [OF finite_U nxt_U False p])
    then have "explored S (loop seen1 work1) []" using 1(1) explored_step [OF 1(2) False p] by blast
    then show ?thesis using loop_eq [of seen work] False p by simp
  qed
qed

lemma loop_reaches: "set (loop s s) = (stepRel nxt)\<^sup>* `` set s"
proof -
  have "explored (set s) s s" by (auto simp: explored_def)
  then have e: "explored (set s) (loop s s) []" by (rule loop_explored)
  have "b \<in> set (loop s s)" if "(a, b) \<in> (stepRel nxt)\<^sup>*" "a \<in> set s" for a b
    using that
  proof (induction rule: rtrancl_induct)
    case base
    then show ?case using e by (auto simp: explored_def)
  next
    case (step x y)
    then show ?case using e by (auto simp: explored_def stepRel_def)
  qed
  then show ?thesis using e by (auto simp: explored_def)
qed

end

interpretation reach: exploration "succsOf F" "reachLoop F" "succIds F" for F
  by unfold_locales (simp, rule succsOf_succIds, rule reachLoop.simps)

interpretation mark: exploration "extractOperands M" "markLoop M" "operandValues M" for M
  by unfold_locales (simp, rule extractOperands_values, rule markLoop.simps)

lemma reachableBlocks_set: "set (reachableBlocks F e) = (stepRel (succsOf F))\<^sup>* `` {e}"
  using reach.loop_reaches [of F "[e]"] by (simp add: reachableBlocks_def)

lemma pushNew_fresh: "pushNew xs [] [] = (s, w) \<Longrightarrow> s = w \<and> set s = set xs"
  using pushNew_set [of xs "[]" "[]" s w] by auto

lemma aliveValues_set: "set (aliveValues M) = (stepRel (extractOperands M))\<^sup>* `` set (seeds M)"
proof -
  obtain s w where p: "pushNew (seeds M) [] [] = (s, w)" by force
  then have "s = w" "set s = set (seeds M)" using pushNew_fresh by blast+
  then show ?thesis using p mark.loop_reaches [of M s] by (simp add: aliveValues_def)
qed

subsection \<open>What depends on what\<close>

text \<open>All the values a constant holds.\<close>

fun constRefs :: "const_body \<Rightarrow> mvalue list" where
  "constRefs (ConstantArray es) = es"
| "constRefs (ConstantSlice es) = es"
| "constRefs (ConstantMap es) = map fst es @ map snd es"
| "constRefs (ConstantStruct es) = es"
| "constRefs (ConstantUnion c) = (case c of None \<Rightarrow> [] | Some n \<Rightarrow> [VConst n])"
| "constRefs (ConstantBitCast v) = [v]"
| "constRefs (ConstantUpcast v) = [v]"
| "constRefs (ConstantAnyCast v) = [v]"
| "constRefs (ConstantArrayToSlice v) = [v]"
| "constRefs (ConstantSliceToArray v) = [v]"
| "constRefs _ = []"

text \<open>An object refers to a value: by an operand, an initializer or an element.\<close>

inductive refers :: "mmodule \<Rightarrow> mvalue \<Rightarrow> mvalue \<Rightarrow> bool" for M where
  inst: "i \<in> set (allInsts M) \<Longrightarrow> u \<in> set (uses (i_body i)) \<Longrightarrow> refers M (VInst (i_id i)) u"
| global: "g \<in> set (m_globals M) \<Longrightarrow> initializer g = Some c \<Longrightarrow> refers M (VGlobal (g_id g)) (VConst c)"
| const: "n < length (m_constants M) \<Longrightarrow> u \<in> set (constRefs (c_body (m_constants M ! n))) \<Longrightarrow>
    refers M (VConst n) u"

inductive_cases refersE: "refers M v u"

text \<open>
  The kinds of constants the marking does not look into are absent, and object numbers are unique.
\<close>

definition scanned :: "const_body \<Rightarrow> bool" where
  "scanned c = (case c of ConstantSlice es \<Rightarrow> es = [] | ConstantUnion n \<Rightarrow> n = None | ConstantUpcast v \<Rightarrow> False | _ \<Rightarrow> True)"

definition wellNumbered :: "mmodule \<Rightarrow> bool" where
  "wellNumbered M \<longleftrightarrow> distinct (map i_id (allInsts M)) \<and> distinct (map g_id (m_globals M)) \<and>
     (\<forall>c \<in> set (m_constants M). scanned (c_body c))"

lemma instOperands_uses: "set (instOperands b) = set (uses b)"
  by (cases b) (auto split: option.splits)

lemma constOperands_refs: "scanned c \<Longrightarrow> set (constOperands c) = set (constRefs c)"
  by (cases c) (force simp: scanned_def)+

lemma extract_refers:
  assumes w: "wellNumbered M"
  shows "u \<in> set (extractOperands M v) \<longleftrightarrow> refers M v u"
proof
  assume "u \<in> set (extractOperands M v)"
  then show "refers M v u"
  proof (cases v)
    case (VInst n)
    then obtain i where "List.find (\<lambda>i. i_id i = n) (allInsts M) = Some i" "u \<in> set (instOperands (i_body i))"
      using \<open>u \<in> set (extractOperands M v)\<close>
      by (cases "List.find (\<lambda>i. i_id i = n) (allInsts M)") (auto simp: extractOperands_def)
    then have "i \<in> set (allInsts M)" "i_id i = n" "u \<in> set (uses (i_body i))"
      using find_member instOperands_uses by fastforce+
    then show ?thesis using VInst refers.inst [of i M u] by simp
  next
    case (VGlobal n)
    then obtain g c where "List.find (\<lambda>g. g_id g = n) (m_globals M) = Some g" "initializer g = Some c" "u = VConst c"
      using \<open>u \<in> set (extractOperands M v)\<close>
      by (cases "List.find (\<lambda>g. g_id g = n) (m_globals M)") (auto simp: extractOperands_def split: option.splits intro: that [OF _ sym])
    then have "g \<in> set (m_globals M)" "g_id g = n" using find_member by fastforce+
    then show ?thesis using VGlobal refers.global [of g M c] \<open>initializer g = Some c\<close> \<open>u = VConst c\<close> by simp
  next
    case (VConst n)
    then have "n < length (m_constants M)" "u \<in> set (constOperands (c_body (m_constants M ! n)))"
      using \<open>u \<in> set (extractOperands M v)\<close> by (auto simp: extractOperands_def split: if_splits)
    then show ?thesis
      using VConst w constOperands_refs refers.const by (metis nth_mem wellNumbered_def)
  qed (simp_all add: extractOperands_def)
next
  assume "refers M v u"
  then show "u \<in> set (extractOperands M v)"
  proof (cases rule: refers.cases)
    case (inst i)
    then have "List.find (\<lambda>j. i_id j = i_id i) (allInsts M) = Some i"
      using w by (intro find_unique) (simp_all add: wellNumbered_def)
    then show ?thesis using inst by (simp add: extractOperands_def instOperands_uses)
  next
    case (global g c)
    then have "List.find (\<lambda>h. g_id h = g_id g) (m_globals M) = Some g"
      using w by (intro find_unique) (simp_all add: wellNumbered_def)
    then show ?thesis using global by (simp add: extractOperands_def)
  next
    case (const n)
    then show ?thesis using w constOperands_refs by (simp add: extractOperands_def wellNumbered_def)
  qed
qed

text \<open>A value is needed if something with an effect depends on it.\<close>

inductive needed :: "mmodule \<Rightarrow> mvalue \<Rightarrow> bool" for M where
  effect: "F \<in> set (m_functions M) \<Longrightarrow> B \<in> set (blocks F) \<Longrightarrow> i \<in> set (instructions B) \<Longrightarrow>
    isSystemRoot F \<or> hasSideEffects (i_body i) \<Longrightarrow> needed M (VInst (i_id i))"
| exported: "g \<in> set (m_globals M) \<Longrightarrow> liveGlobal g \<Longrightarrow> needed M (VGlobal (g_id g))"
| dep: "needed M v \<Longrightarrow> refers M v u \<Longrightarrow> needed M u"

lemma seeds_set:
  "v \<in> set (seeds M) \<longleftrightarrow> (\<exists>g \<in> set (m_globals M). liveGlobal g \<and> v = VGlobal (g_id g)) \<or>
     (\<exists>F \<in> set (m_functions M). \<exists>B \<in> set (blocks F). \<exists>i \<in> set (instructions B).
        (isSystemRoot F \<or> hasSideEffects (i_body i)) \<and> v = VInst (i_id i))"
  by (auto simp: seeds_def)

lemma alive_needed:
  assumes "wellNumbered M"
  shows "v \<in> set (aliveValues M) \<longleftrightarrow> needed M v"
proof -
  have "needed M v" if "(s, v) \<in> (stepRel (extractOperands M))\<^sup>*" "s \<in> set (seeds M)" for s
    using that
  proof (induction rule: rtrancl_induct)
    case base
    then show ?case by (auto simp: seeds_set intro: needed.intros)
  next
    case (step x y)
    then show ?case using extract_refers [OF assms] by (auto simp: stepRel_def intro: needed.dep)
  qed
  moreover have "\<exists>s \<in> set (seeds M). (s, v) \<in> (stepRel (extractOperands M))\<^sup>*" if "needed M v"
    using that
  proof (induction rule: needed.induct)
    case (dep v u)
    then show ?case using extract_refers [OF assms] by (auto simp: stepRel_def intro: rtrancl_into_rtrancl)
  qed (use seeds_set in blast)+
  ultimately show ?thesis unfolding aliveValues_set by blast
qed

lemma markSweep_result:
  "snd (markSweep M) = sweepGlobals (aliveValues M) (M\<lparr>m_functions := map (sweepInsts (aliveValues M)) (m_functions M)\<rparr>)"
  by (simp add: markSweep_def Let_def)

lemma sweep_view:
  "m_functions (snd (markSweep M)) = map (sweepInsts (aliveValues M)) (m_functions M)"
  "m_globals (snd (markSweep M)) = filter (\<lambda>g. VGlobal (g_id g) \<in> set (aliveValues M)) (m_globals M)"
  "m_constants (snd (markSweep M)) = m_constants M"
  by (simp_all add: markSweep_result sweepGlobals_def Let_def)

lemma allInsts_sweep:
  "allInsts (snd (markSweep M)) = filter (\<lambda>i. VInst (i_id i) \<in> set (aliveValues M)) (allInsts M)"
proof -
  have "concat (map instructions (blocks (sweepInsts al F))) =
        filter (\<lambda>i. VInst (i_id i) \<in> set al) (concat (map instructions (blocks F)))" for al F
    by (simp add: sweepInsts_def filter_concat comp_def)
  then show ?thesis by (simp add: allInsts_def sweep_view filter_concat comp_def)
qed

subsection \<open>Unreachable blocks\<close>

definition eraseOne :: "nat list \<Rightarrow> nat \<Rightarrow> mfunc \<Rightarrow> mfunc" where
  "eraseOne reach b F =
     (let F1 = detachBlock reach b F in F1\<lparr>blocks := filter (\<lambda>B. b_id B \<noteq> b) (blocks F1)\<rparr>)"

lemma eraseUnreachable_fold:
  "snd (eraseUnreachable reach bs st) = fold (eraseOne reach) (filter (\<lambda>b. b \<notin> set reach) bs) (snd st)"
  by (induction reach bs st rule: eraseUnreachable.induct) (simp_all add: eraseOne_def Let_def)

lemma detach_view:
  "blockIds (fold (\<lambda>s. if s \<in> set reach then updBlock s (removePredecessor b) else id) ss F) = blockIds F \<and>
   sset (fold (\<lambda>s. if s \<in> set reach then updBlock s (removePredecessor b) else id) ss F) q = sset F q \<and>
   instsOf (fold (\<lambda>s. if s \<in> set reach then updBlock s (removePredecessor b) else id) ss F) q = instsOf F q \<and>
   pset (fold (\<lambda>s. if s \<in> set reach then updBlock s (removePredecessor b) else id) ss F) q =
     (if q \<in> set ss \<and> q \<in> set reach then pset F q - {b} else pset F q)"
  by (induction ss arbitrary: F) auto

lemma eraseOne_view:
  "blockIds (eraseOne reach b F) = filter (\<lambda>p. p \<noteq> b) (blockIds F)"
  "q \<noteq> b \<Longrightarrow> sset (eraseOne reach b F) q = sset F q"
  "q \<noteq> b \<Longrightarrow> instsOf (eraseOne reach b F) q = instsOf F q"
  "q \<noteq> b \<Longrightarrow> pset (eraseOne reach b F) q =
     (if q \<in> sset F b \<and> q \<in> set reach then pset F q - {b} else pset F q)"
proof -
  let ?G = "detachBlock reach b F"
  note v = detach_view [of reach b "succsOf F b" F, folded detachBlock_def]
  have e: "eraseOne reach b F = ?G\<lparr>blocks := filter (\<lambda>B. b_id B \<noteq> b) (blocks ?G)\<rparr>"
    by (simp add: eraseOne_def Let_def)
  have "blockIds (eraseOne reach b F) = filter (\<lambda>p. p \<noteq> b) (blockIds ?G)"
    by (simp add: e blockIds_def filter_map comp_def)
  then show "blockIds (eraseOne reach b F) = filter (\<lambda>p. p \<noteq> b) (blockIds F)" using v by simp
  assume q: "q \<noteq> b"
  then have "sset (eraseOne reach b F) q = sset ?G q" "instsOf (eraseOne reach b F) q = instsOf ?G q"
    "pset (eraseOne reach b F) q = pset ?G q"
    unfolding e by (simp_all add: view_defs theBlock_filter)
  then show "sset (eraseOne reach b F) q = sset F q" "instsOf (eraseOne reach b F) q = instsOf F q"
    "pset (eraseOne reach b F) q = (if q \<in> sset F b \<and> q \<in> set reach then pset F q - {b} else pset F q)"
    using v [of q] by (auto simp: sset_def)
qed

lemma eraseAll_view:
  "set ds \<inter> set reach = {} \<Longrightarrow>
   blockIds (fold (eraseOne reach) ds F) = filter (\<lambda>p. p \<notin> set ds) (blockIds F) \<and>
   (q \<in> set reach \<longrightarrow> sset (fold (eraseOne reach) ds F) q = sset F q \<and>
      instsOf (fold (eraseOne reach) ds F) q = instsOf F q \<and>
      pset (fold (eraseOne reach) ds F) q = pset F q - {d \<in> set ds. q \<in> sset F d})"
proof (induction ds arbitrary: F)
  case (Cons d ds)
  then have d: "d \<notin> set reach" "set ds \<inter> set reach = {}" by auto
  let ?G = "eraseOne reach d F"
  note IH = Cons.IH [OF d(2), of ?G]
  have "sset ?G x = (if x = d then {} else sset F x)" for x
    using outside_ids [of d ?G] eraseOne_view(1) [of reach d F] eraseOne_view(2) [of x d reach F]
    by (auto simp: ids_def)
  then have "{x \<in> set ds. q \<in> sset ?G x} = {x \<in> set ds. q \<in> sset F x} - {d}" by auto
  moreover have "q \<noteq> d" if "q \<in> set reach" using that d by auto
  moreover have "blockIds (fold (eraseOne reach) (d # ds) F) = filter (\<lambda>p. p \<notin> set (d # ds)) (blockIds F)"
    using IH by (simp add: eraseOne_view conj_commute)
  moreover have "{x \<in> set (d # ds). q \<in> sset F x} =
      (if q \<in> sset F d then insert d {x \<in> set ds. q \<in> sset F x} else {x \<in> set ds. q \<in> sset F x})" by auto
  ultimately show ?case using IH eraseOne_view(2-4) [of q d reach F] by auto
qed simp

lemma prune_view:
  assumes "distinct (blockIds F)"
  shows "blockIds (snd (prunePhis reach F)) = blockIds F"
    "sset (snd (prunePhis reach F)) q = sset F q" "pset (snd (prunePhis reach F)) q = pset F q"
    "instsOf (snd (prunePhis reach F)) q =
       (if q \<in> set reach then map (updPhi (filter (\<lambda>(v, p). p \<in> set (livePreds F reach q)))) (instsOf F q)
        else instsOf F q)"
proof -
  have f: "List.find (\<lambda>B. b_id B = q) (map (pruneBlock F reach) bs) =
           map_option (pruneBlock F reach) (List.find (\<lambda>B. b_id B = q) bs)" for bs
    by (induction bs) (auto simp: pruneBlock_def)
  have id: "b_id (pruneBlock F reach B) = b_id B" "successors (pruneBlock F reach B) = successors B"
    "predecessors (pruneBlock F reach B) = predecessors B" for B by (simp_all add: pruneBlock_def)
  show "blockIds (snd (prunePhis reach F)) = blockIds F"
    by (simp add: prunePhis_def Let_def blockIds_def id comp_def)
  show "sset (snd (prunePhis reach F)) q = sset F q" "pset (snd (prunePhis reach F)) q = pset F q"
    by (cases "List.find (\<lambda>B. b_id B = q) (blocks F)";
        simp add: view_defs theBlock_def prunePhis_def Let_def f id)+
  show "instsOf (snd (prunePhis reach F)) q =
       (if q \<in> set reach then map (updPhi (filter (\<lambda>(v, p). p \<in> set (livePreds F reach q)))) (instsOf F q)
        else instsOf F q)"
  proof (cases "List.find (\<lambda>B. b_id B = q) (blocks F)")
    case (Some B)
    then have "b_id B = q" using find_member by fastforce
    then show ?thesis using Some by (simp add: instsOf_def theBlock_def prunePhis_def Let_def f pruneBlock_def)
  qed (simp add: instsOf_def theBlock_def prunePhis_def Let_def f)
qed

lemma reachableBlocks_reachable:
  assumes s: "synced F" and e: "getEntryBlock F = Some e"
  shows "p \<in> set (reachableBlocks F e) \<longleftrightarrow> reachable F p"
proof -
  have "reachable F p" if "(e, p) \<in> (stepRel (succsOf F))\<^sup>*"
    using that
  proof (induction rule: rtrancl_induct)
    case base
    then show ?case using e by (rule reachable.entry)
  next
    case (step x y)
    then have "y \<in> sset F x" by (simp add: stepRel_def sset_def)
    then show ?case using reachable_attached [OF s step(3)] step(3) reachable.step by blast
  qed
  moreover have "(e, p) \<in> (stepRel (succsOf F))\<^sup>*" if "reachable F p"
    using that
  proof (induction rule: reachable.induct)
    case (step x y)
    then have "y \<in> sset F x" using reachable_attached [OF s step(1)] by simp
    then show ?case using step(3) by (auto simp: stepRel_def sset_def intro: rtrancl_into_rtrancl)
  qed (use e in simp)
  ultimately show ?thesis by (auto simp: reachableBlocks_set)
qed

lemma removeUnreachable_view:
  assumes s: "synced F" and e: "getEntryBlock F = Some e"
  defines "G \<equiv> snd (removeUnreachable F)"
  shows "blockIds G = filter (reachable F) (blockIds F)"
    and "reachable F q \<Longrightarrow> sset G q = sset F q"
    and "reachable F q \<Longrightarrow> pset G q = {p \<in> pset F q. reachable F p}"
    and "reachable F q \<Longrightarrow> instsOf G q =
           map (updPhi (filter (\<lambda>(v, p). reachable F p \<and> q \<in> sset F p))) (instsOf F q)"
proof -
  define reach where "reach = reachableBlocks F e"
  define ds where "ds = filter (\<lambda>b. b \<notin> set reach) (blockIds F)"
  have r: "p \<in> set reach \<longleftrightarrow> reachable F p" for p
    using reachableBlocks_reachable [OF s e] by (simp add: reach_def)
  have d: "distinct (blockIds F)" using s by (simp add: synced_def)
  note p = prune_view [OF d, of reach]
  have G: "G = fold (eraseOne reach) ds (snd (prunePhis reach F))"
    by (simp add: G_def removeUnreachable_def e eraseUnreachable_fold ds_def reach_def Let_def)
  have disj: "set ds \<inter> set reach = {}" by (auto simp: ds_def)
  note v = eraseAll_view [OF disj, of "snd (prunePhis reach F)"]
  show "blockIds G = filter (reachable F) (blockIds F)"
  proof -
    have "filter (\<lambda>p. p \<notin> set ds) (blockIds F) = filter (reachable F) (blockIds F)"
      by (rule filter_cong) (auto simp: ds_def r)
    then show ?thesis using v p(1) by (simp add: G)
  qed
  assume q: "reachable F q"
  then show "sset G q = sset F q" using v [of q] p r by (simp add: G)
  have pi: "x \<in> ids F" "q \<in> sset F x" if "x \<in> pset F q" for x
    using that synced_pred [OF s, of q] reachable_attached [OF s q] by blast+
  have "pset G q = pset F q - {x \<in> set ds. q \<in> sset F x}" using v [of q] p r q by (simp add: G)
  then show "pset G q = {p \<in> pset F q. reachable F p}" using pi by (auto simp: ds_def r ids_def)
  have "set (livePreds F reach q) = {p. reachable F p \<and> q \<in> sset F p}" by (auto simp: livePreds_def r sset_def)
  then show "instsOf G q = map (updPhi (filter (\<lambda>(v, p). reachable F p \<and> q \<in> sset F p))) (instsOf F q)"
    using v [of q] p(4) [of q] r q by (simp add: G)
qed

lemma removeUnreachable_entry:
  assumes "synced F" "getEntryBlock F = Some e"
  shows "getEntryBlock (snd (removeUnreachable F)) = Some e"
proof -
  obtain ps where "blockIds F = e # ps" using assms(2) by (auto simp: getEntryBlock_ids split: list.splits)
  then show ?thesis
    using removeUnreachable_view(1) [OF assms] reachable.entry [OF assms(2)] by (simp add: getEntryBlock_ids)
qed

lemma removeUnreachable_tset:
  assumes "synced F" "getEntryBlock F = Some e" "reachable F q"
  shows "tset (snd (removeUnreachable F)) q = tset F q"
  using removeUnreachable_view(4) [OF assms] by (simp add: tset_insts last_map)

lemma removeUnreachable_synced:
  assumes s: "synced F" and e: "getEntryBlock F = Some e"
  shows "synced (snd (removeUnreachable F))"
proof -
  let ?G = "snd (removeUnreachable F)"
  note v = removeUnreachable_view [OF s e]
  have i: "ids ?G = {p \<in> ids F. reachable F p}" using v(1) by (auto simp: ids_def)
  have succ: "reachable F y" if "reachable F x" "y \<in> sset F x" for x y
    using that reachable_attached [OF s that(1)] reachable.step by blast
  show ?thesis
    unfolding synced_def i
  proof (intro conjI ballI)
    show "distinct (blockIds ?G)" using v(1) s by (simp add: synced_def)
    fix p assume "p \<in> {p \<in> ids F. reachable F p}"
    then have p: "p \<in> ids F" "reachable F p" by auto
    show "sset ?G p = tset ?G p \<or> detached ?G p \<and> getEntryBlock ?G \<noteq> Some p"
      using v(2) [OF p(2)] removeUnreachable_tset [OF s e p(2)] reachable_attached [OF s p(2)] by simp
    show "sset ?G p \<subseteq> {p \<in> ids F. reachable F p}"
      using v(2) [OF p(2)] synced_succ [OF s p(1)] succ [OF p(2)] by auto
    show "pset ?G p \<subseteq> {p \<in> ids F. reachable F p}" using v(3) [OF p(2)] synced_pred [OF s p(1)] by auto
    fix q assume "q \<in> {p \<in> ids F. reachable F p}"
    then show "(q \<in> sset ?G p) = (p \<in> pset ?G q)"
      using v(2) [OF p(2)] v(3) [of q] p synced_succ [OF s p(1)] synced_pred [OF s, of q p] by auto
  qed
qed

text \<open>An object of the module that can be erased is present; other values always are.\<close>

definition present :: "mmodule \<Rightarrow> mvalue \<Rightarrow> bool" where
  "present M v = (case v of VInst n \<Rightarrow> n \<in> i_id ` set (allInsts M) | VGlobal n \<Rightarrow> n \<in> g_id ` set (m_globals M) | _ \<Rightarrow> True)"

lemma present_needed:
  assumes w: "wellNumbered M" and p: "present (snd (markSweep M)) v" and v: "\<exists>n. v = VInst n \<or> v = VGlobal n"
  shows "needed M v"
  using v p by (elim exE disjE) (auto simp: present_def allInsts_sweep sweep_view alive_needed [OF w])

lemma needed_present:
  assumes w: "wellNumbered M" and p: "present M v" and n: "needed M v"
  shows "present (snd (markSweep M)) v"
  using p n by (cases v) (auto simp: present_def allInsts_sweep sweep_view alive_needed [OF w])

text \<open>
  A module with a function that returns a load from a global, next to a dead addition and a dead
  internal global whose initializer refers to the first one.
\<close>

definition exModule :: mmodule where
  "exModule = (mkModule ''m'')\<lparr>
     m_constants := [\<lparr>c_type = None, c_body = ConstantInt 7\<rparr>, \<lparr>c_type = None, c_body = ConstantBitCast (VGlobal 1)\<rparr>],
     m_globals := [mkGlobal 1 ''g'' None (Some 0) False Link_Internal, mkGlobal 2 ''h'' None (Some 1) False Link_Internal],
     m_functions := [exFunc [exBlock 0 [LoadInst (VGlobal 1) 8 False, BinaryInst Op_Add (VInst 0) (VInst 0),
                                        ReturnInst (Some (VInst 0))]]]\<rparr>"

lemma exModule_numbered: "wellNumbered exModule"
proof -
  have "distinct (map i_id (allInsts exModule))" "distinct (map g_id (m_globals exModule))" by code_simp+
  moreover have "list_all (\<lambda>c. scanned (c_body c)) (m_constants exModule)" by code_simp
  ultimately show ?thesis by (simp add: wellNumbered_def list_all_iff)
qed

text \<open>Two reachable blocks and one that is not.\<close>

definition exUnreachable :: mfunc where
  "exUnreachable = exFunc [exBlock 0 [BranchInst 1], exBlock 1 [PhiInst [(VArg 0, 0), (VArg 1, 2)], ReturnInst None],
                           exBlock 2 [BranchInst 1]]"

lemma exUnreachable_synced: "synced (heal exUnreachable)"
proof -
  have "closed exUnreachable" by code_simp
  then show ?thesis by (rule heal_synced_aux)
qed

lemma exUnreachable_entry: "getEntryBlock (heal exUnreachable) = Some 0"
  by code_simp



text \<open>
  Nothing dangles after the sweep: whatever an instruction or global that is kept refers to,
  directly or through constants, initializers and other instructions, is kept.
\<close>

theorem sweep_leaves_nothing_dangling:
  assumes "wellNumbered M" and "present (snd (markSweep M)) v" and "\<exists>n. v = VInst n \<or> v = VGlobal n"
    and "(refers M)\<^sup>*\<^sup>* v u" and "present M u"
  shows "present (snd (markSweep M)) u"
proof -
  have "needed M v" by (rule present_needed [OF assms(1-3)])
  with assms(4) have "needed M u" by (induction rule: rtranclp_induct) (auto intro: needed.dep)
  then show ?thesis by (rule needed_present [OF assms(1,5)])
qed

theorem sweep_leaves_nothing_dangling_witness:
  "present (snd (markSweep exModule)) (VGlobal 1)"
proof (rule sweep_leaves_nothing_dangling [OF exModule_numbered])
  show "present (snd (markSweep exModule)) (VInst 0)" by (simp add: present_def) code_simp
  show "\<exists>n. VInst 0 = VInst n \<or> VInst 0 = VGlobal n" by blast
  have "hd (allInsts exModule) \<in> set (allInsts exModule)" "VGlobal 1 \<in> set (uses (i_body (hd (allInsts exModule))))"
    "i_id (hd (allInsts exModule)) = 0" by code_simp+
  then show "(refers exModule)\<^sup>*\<^sup>* (VInst 0) (VGlobal 1)" using refers.inst by (metis r_into_rtranclp)
  show "present exModule (VGlobal 1)" by (simp add: present_def) code_simp
qed

text \<open>
  The first step of dead code elimination keeps exactly the reachable blocks, their terminators
  and the entry, keeps the edge lists in step with the terminators, and leaves phis only entries for
  predecessors.
\<close>

theorem unreachable_blocks_removed:
  assumes "synced F" and "getEntryBlock F = Some e"
  shows "blockIds (snd (removeUnreachable F)) = filter (reachable F) (blockIds F) \<and>
    synced (snd (removeUnreachable F)) \<and> getEntryBlock (snd (removeUnreachable F)) = Some e \<and>
    (\<forall>q. reachable F q \<longrightarrow> tset (snd (removeUnreachable F)) q = tset F q \<and>
       (\<forall>i inc. i \<in> set (instsOf (snd (removeUnreachable F)) q) \<longrightarrow> i_body i = PhiInst inc \<longrightarrow>
          snd ` set inc \<subseteq> pset (snd (removeUnreachable F)) q))"
proof (intro conjI allI impI)
  note v = removeUnreachable_view [OF assms]
  show "blockIds (snd (removeUnreachable F)) = filter (reachable F) (blockIds F)" by (rule v(1))
  show "synced (snd (removeUnreachable F))" by (rule removeUnreachable_synced [OF assms])
  show "getEntryBlock (snd (removeUnreachable F)) = Some e" by (rule removeUnreachable_entry [OF assms])
  fix q assume q: "reachable F q"
  show "tset (snd (removeUnreachable F)) q = tset F q" by (rule removeUnreachable_tset [OF assms q])
  fix i inc assume i: "i \<in> set (instsOf (snd (removeUnreachable F)) q)" "i_body i = PhiInst inc"
  then obtain j where "i = updPhi (filter (\<lambda>(v, p). reachable F p \<and> q \<in> sset F p)) j"
    unfolding v(4) [OF q] by auto
  then have "reachable F p \<and> q \<in> sset F p" if "p \<in> snd ` set inc" for p
    using i(2) that by (cases "i_body j") (auto simp: updPhi_def)
  then show "snd ` set inc \<subseteq> pset (snd (removeUnreachable F)) q"
    using synced_succ [OF assms(1)] reachable_attached [OF assms(1)] unfolding v(3) [OF q] by blast
qed

theorem unreachable_blocks_removed_witness:
  "synced (snd (removeUnreachable (heal exUnreachable))) \<and>
   blockIds (snd (removeUnreachable (heal exUnreachable))) = [0, 1]"
proof -
  have "blockIds (snd (removeUnreachable (heal exUnreachable))) = [0, 1]" by code_simp
  then show ?thesis using unreachable_blocks_removed [OF exUnreachable_synced exUnreachable_entry] by blast
qed

end
