(* ===== verification/ConstantFolding.thy ===== *)
theory ConstantFolding
  imports MIRModule DeadCode "HOL-Library.Signed_Division"
begin

text \<open>
  Constant folding (\<open>lib/middle/mir/passes/ConstantFoldingPass.cpp\<close>): loads of globals that are
  never written, slice properties, comparisons, arithmetic and branches on constants.

  The pass changes the constants of the module, its derived types and one function at a time; an
  operand that is an instruction is one of the same function.  Arithmetic on \<open>double\<close> is that of the
  machine, the parameter \<open>fp\<close>.  \<open>None\<close> stands for undefined behaviour: signed overflow, a null type
  that is dereferenced, a chain of casts without an end.
\<close>

record double_ops =
  fp_add :: "64 word \<Rightarrow> 64 word \<Rightarrow> 64 word"
  fp_sub :: "64 word \<Rightarrow> 64 word \<Rightarrow> 64 word"
  fp_mul :: "64 word \<Rightarrow> 64 word \<Rightarrow> 64 word"
  fp_div :: "64 word \<Rightarrow> 64 word \<Rightarrow> 64 word"
  fp_eq :: "64 word \<Rightarrow> 64 word \<Rightarrow> bool"
  fp_lt :: "64 word \<Rightarrow> 64 word \<Rightarrow> bool"
  fp_le :: "64 word \<Rightarrow> 64 word \<Rightarrow> bool"

record cfstate =
  heap :: "HIRType list"
  cf_consts :: "mconst list"
  cf_func :: mfunc

definition insertConst :: "hirty option \<Rightarrow> const_body \<Rightarrow> cfstate \<Rightarrow> mvalue \<times> cfstate" where
  "insertConst t c s =
     (VConst (length (cf_consts s)), s\<lparr>cf_consts := cf_consts s @ [\<lparr>c_type = t, c_body = c\<rparr>]\<rparr>)"

definition funcInsts :: "mfunc \<Rightarrow> inst list" where
  "funcInsts F = concat (map instructions (blocks F))"

definition instOf :: "mfunc \<Rightarrow> nat \<Rightarrow> inst option" where
  "instOf F n = List.find (\<lambda>i. i_id i = n) (funcInsts F)"

subsection \<open>Chains of casts\<close>

fun castStep :: "const_body \<Rightarrow> mvalue option" where
  "castStep (ConstantBitCast v) = Some v"
| "castStep (ConstantAnyCast v) = Some v"
| "castStep (ConstantArrayToSlice v) = Some v"
| "castStep (ConstantSliceToArray v) = Some v"
| "castStep _ = None"

definition unwrapStep :: "mconst list \<Rightarrow> mfunc \<Rightarrow> mvalue \<Rightarrow> mvalue option" where
  "unwrapStep cs F v =
     (case v of
        VInst n \<Rightarrow> (case instOf F n of
                      Some i \<Rightarrow> (case i_body i of CastInst op w off \<Rightarrow> Some w | _ \<Rightarrow> None) | None \<Rightarrow> None)
      | VConst n \<Rightarrow> (case constOf cs v of Some c \<Rightarrow> castStep (c_body c) | None \<Rightarrow> None)
      | _ \<Rightarrow> None)"

partial_function (option) unwrapCasts :: "mconst list \<Rightarrow> mfunc \<Rightarrow> mvalue \<Rightarrow> mvalue option" where
  "unwrapCasts cs F v = (case unwrapStep cs F v of None \<Rightarrow> Some v | Some w \<Rightarrow> unwrapCasts cs F w)"

definition baseStep :: "mconst list \<Rightarrow> mfunc \<Rightarrow> mvalue \<Rightarrow> mvalue option" where
  "baseStep cs F v =
     (case v of
        VInst n \<Rightarrow> (case instOf F n of
                      Some i \<Rightarrow> (case i_body i of GetElementPtrInst p idxs \<Rightarrow> Some p
                                  | CastInst op w off \<Rightarrow> Some w | _ \<Rightarrow> None)
                    | None \<Rightarrow> None)
      | VConst n \<Rightarrow> (case constOf cs v of Some c \<Rightarrow> castStep (c_body c) | None \<Rightarrow> None)
      | _ \<Rightarrow> None)"

partial_function (option) getBasePointer :: "mconst list \<Rightarrow> mfunc \<Rightarrow> mvalue \<Rightarrow> mvalue option" where
  "getBasePointer cs F v = (case baseStep cs F v of None \<Rightarrow> Some v | Some w \<Rightarrow> getBasePointer cs F w)"

declare unwrapCasts.simps [code] getBasePointer.simps [code]

subsection \<open>Globals that are never written\<close>

fun escapingOperands :: "inst_body \<Rightarrow> mvalue list" where
  "escapingOperands (StoreInst v p al vol) = [p, v]"
| "escapingOperands (CallInst c as va) = as"
| "escapingOperands (InvokeInst c as n u) = as"
| "escapingOperands (MakeClosureInst f cs) = cs"
| "escapingOperands _ = []"

fun basesOf :: "mconst list \<Rightarrow> mfunc \<Rightarrow> mvalue list \<Rightarrow> nat list option" where
  "basesOf cs F [] = Some []"
| "basesOf cs F (v # vs) =
     (case getBasePointer cs F v of None \<Rightarrow> None
      | Some w \<Rightarrow> (case basesOf cs F vs of None \<Rightarrow> None
                    | Some gs \<Rightarrow> Some (case w of VGlobal g \<Rightarrow> g # gs | _ \<Rightarrow> gs)))"

fun mutatedGlobals :: "mconst list \<Rightarrow> mfunc list \<Rightarrow> nat list option" where
  "mutatedGlobals cs [] = Some []"
| "mutatedGlobals cs (F # Fs) =
     (case basesOf cs F (concat (map (\<lambda>i. escapingOperands (i_body i)) (funcInsts F))) of
        None \<Rightarrow> None
      | Some gs \<Rightarrow> map_option (\<lambda>hs. gs @ hs) (mutatedGlobals cs Fs))"

definition aggregateConst :: "const_body \<Rightarrow> bool" where
  "aggregateConst c = (case c of ConstantMap _ \<Rightarrow> True | ConstantSlice _ \<Rightarrow> True | ConstantArray _ \<Rightarrow> True
     | ConstantStruct _ \<Rightarrow> True | ConstantString _ \<Rightarrow> True | _ \<Rightarrow> False)"

definition foldableGlobal :: "mconst list \<Rightarrow> nat list \<Rightarrow> mglobal \<Rightarrow> nat option" where
  "foldableGlobal cs mutated g =
     (case initializer g of
        None \<Rightarrow> None
      | Some c \<Rightarrow> if g_isVolatile g \<or> g_id g \<in> set mutated \<or> aggregateConst (c_body (cs ! c)) then None else Some c)"

text \<open>The value a load of type \<open>t\<close> is replaced by.\<close>

definition loadReplacement :: "nat \<Rightarrow> hirty option \<Rightarrow> mconst list \<Rightarrow> mvalue \<times> mconst list" where
  "loadReplacement c t cs =
     (if c_type (cs ! c) = t then (VConst c, cs)
      else (VConst (length cs),
            cs @ [\<lparr>c_type = t, c_body = (case c_body (cs ! c) of ConstantNull \<Rightarrow> ConstantNull
                                         | _ \<Rightarrow> ConstantBitCast (VConst c))\<rparr>]))"

definition isLoadOf :: "nat \<Rightarrow> inst \<Rightarrow> bool" where
  "isLoadOf g i = (case i_body i of LoadInst p al vol \<Rightarrow> \<not> vol \<and> p = VGlobal g | _ \<Rightarrow> False)"

function loadLoop :: "nat \<Rightarrow> nat \<Rightarrow> nat \<Rightarrow> nat \<Rightarrow> bool \<Rightarrow> mconst list \<Rightarrow> mfunc \<Rightarrow> bool \<times> mconst list \<times> mfunc" where
  "loadLoop g c b j changed cs F =
     (if j < length (instsOf F b) then
        (let i = instsOf F b ! j
         in if isLoadOf g i
            then (case loadReplacement c (i_type i) cs of (v, cs1) \<Rightarrow>
                    loadLoop g c b j True cs1 (eraseInst b j (replaceAllUsesInFunction (VInst (i_id i)) v F)))
            else loadLoop g c b (Suc j) changed cs F)
      else (changed, cs, F))"
  by pat_completeness auto
termination
  by (relation "measure (\<lambda>(g, c, b, j, ch, cs, F). length (instsOf F b) - j)")
     (auto simp: instsOf_eraseInst instsOf_replaceAll)

declare loadLoop.simps [simp del]

fun loadBlocks :: "nat \<Rightarrow> nat \<Rightarrow> nat list \<Rightarrow> bool \<times> mconst list \<times> mfunc \<Rightarrow> bool \<times> mconst list \<times> mfunc" where
  "loadBlocks g c [] st = st"
| "loadBlocks g c (b # bs) (changed, cs, F) = loadBlocks g c bs (loadLoop g c b 0 changed cs F)"

fun loadFunctions :: "nat \<Rightarrow> nat \<Rightarrow> mfunc list \<Rightarrow> bool \<times> mconst list \<Rightarrow> bool \<times> mconst list \<times> mfunc list" where
  "loadFunctions g c [] (changed, cs) = (changed, cs, [])"
| "loadFunctions g c (F # Fs) (changed, cs) =
     (case loadBlocks g c (blockIds F) (changed, cs, F) of (changed1, cs1, F1) \<Rightarrow>
        (case loadFunctions g c Fs (changed1, cs1) of (changed2, cs2, Fs1) \<Rightarrow> (changed2, cs2, F1 # Fs1)))"

fun foldGlobals :: "nat list \<Rightarrow> mglobal list \<Rightarrow> bool \<times> mconst list \<times> mfunc list \<Rightarrow> bool \<times> mconst list \<times> mfunc list" where
  "foldGlobals mutated [] st = st"
| "foldGlobals mutated (g # gs) (changed, cs, Fs) =
     (case foldableGlobal cs mutated g of
        None \<Rightarrow> foldGlobals mutated gs (changed, cs, Fs)
      | Some c \<Rightarrow> foldGlobals mutated gs (loadFunctions (g_id g) c Fs (changed, cs)))"

subsection \<open>Folding an instruction\<close>

text \<open>
  Signedness of a type: an integer type knows it, any other is taken as signed iff its text holds
  an \<open>i\<close>.
\<close>

definition typeSigned :: "HIRType list \<Rightarrow> hirty \<Rightarrow> bool option" where
  "typeSigned H t =
     (case t of
        TyVoid \<Rightarrow> Some True
      | TyOther n \<Rightarrow>
          (if n < length H then
             (case H ! n of HIRIntType w s p \<Rightarrow> Some s
              | _ \<Rightarrow> map_option (\<lambda>s. CHR ''i'' \<in> set s) (toString H n))
           else None))"

fun compareSigned :: "CmpPred \<Rightarrow> 64 word \<Rightarrow> 64 word \<Rightarrow> bool" where
  "compareSigned EQ l r = (sint l = sint r)"
| "compareSigned NE l r = (sint l \<noteq> sint r)"
| "compareSigned LT l r = (sint l < sint r)"
| "compareSigned LE l r = (sint l \<le> sint r)"
| "compareSigned GT l r = (sint l > sint r)"
| "compareSigned GE l r = (sint l \<ge> sint r)"
| "compareSigned _ l r = False"

fun compareUnsigned :: "CmpPred \<Rightarrow> 64 word \<Rightarrow> 64 word \<Rightarrow> bool" where
  "compareUnsigned EQ l r = (l = r)"
| "compareUnsigned NE l r = (l \<noteq> r)"
| "compareUnsigned LT l r = (l < r)"
| "compareUnsigned LE l r = (l \<le> r)"
| "compareUnsigned GT l r = (l > r)"
| "compareUnsigned GE l r = (l \<ge> r)"
| "compareUnsigned _ l r = False"

definition foldCompare :: "CmpPred \<Rightarrow> mvalue \<Rightarrow> mvalue \<Rightarrow> hirty option \<Rightarrow> cfstate \<Rightarrow> (mvalue option \<times> cfstate) option" where
  "foldCompare pr l r t s =
     (case unwrapCasts (cf_consts s) (cf_func s) l of None \<Rightarrow> None | Some lhs \<Rightarrow>
      (case unwrapCasts (cf_consts s) (cf_func s) r of None \<Rightarrow> None | Some rhs \<Rightarrow>
       (let lc = map_option c_body (constOf (cf_consts s) lhs); rc = map_option c_body (constOf (cf_consts s) rhs);
            found = (\<lambda>b. Some (map_prod Some id (insertConst t (ConstantBool b) s)))
        in if lhs = rhs \<or> lc = Some ConstantNull \<and> rc = Some ConstantNull
           then (if pr = EQ then found True else if pr = NE then found False else Some (None, s))
           else (case (lc, rc) of
                   (Some (ConstantInt a), Some (ConstantInt b)) \<Rightarrow>
                     (let lt = (case constOf (cf_consts s) lhs of Some c \<Rightarrow> c_type c | None \<Rightarrow> None)
                      in case (case lt of None \<Rightarrow> Some False | Some ty \<Rightarrow> typeSigned (heap s) ty) of
                           None \<Rightarrow> None
                         | Some sg \<Rightarrow> found (if sg then compareSigned pr a b else compareUnsigned pr a b))
                 | _ \<Rightarrow> Some (None, s)))))"

fun compareFloat :: "double_ops \<Rightarrow> FCmpPred \<Rightarrow> 64 word \<Rightarrow> 64 word \<Rightarrow> bool" where
  "compareFloat fp F_OEQ l r = fp_eq fp l r"
| "compareFloat fp F_UEQ l r = fp_eq fp l r"
| "compareFloat fp F_ONE l r = (\<not> fp_eq fp l r)"
| "compareFloat fp F_UNE l r = (\<not> fp_eq fp l r)"
| "compareFloat fp F_OLT l r = fp_lt fp l r"
| "compareFloat fp F_ULT l r = fp_lt fp l r"
| "compareFloat fp F_OLE l r = fp_le fp l r"
| "compareFloat fp F_ULE l r = fp_le fp l r"
| "compareFloat fp F_OGT l r = fp_lt fp r l"
| "compareFloat fp F_UGT l r = fp_lt fp r l"
| "compareFloat fp F_OGE l r = fp_le fp r l"
| "compareFloat fp F_UGE l r = fp_le fp r l"

definition foldFCmp :: "double_ops \<Rightarrow> FCmpPred \<Rightarrow> mvalue \<Rightarrow> mvalue \<Rightarrow> hirty option \<Rightarrow> cfstate \<Rightarrow> (mvalue option \<times> cfstate) option" where
  "foldFCmp fp pr l r t s =
     (case unwrapCasts (cf_consts s) (cf_func s) l of None \<Rightarrow> None | Some lhs \<Rightarrow>
      (case unwrapCasts (cf_consts s) (cf_func s) r of None \<Rightarrow> None | Some rhs \<Rightarrow>
       (case (map_option c_body (constOf (cf_consts s) lhs), map_option c_body (constOf (cf_consts s) rhs)) of
          (Some (ConstantFloat a), Some (ConstantFloat b)) \<Rightarrow>
            Some (map_prod Some id (insertConst t (ConstantBool (compareFloat fp pr a b)) s))
        | _ \<Rightarrow> Some (None, s))))"

text \<open>
  \<open>int64_t\<close> arithmetic: the value of the expression, \<open>None\<close> where it overflows; the outer option is
  \<open>valid\<close>.
\<close>

definition inInt64 :: "int \<Rightarrow> bool" where
  "inInt64 n \<longleftrightarrow> - (2 ^ 63) \<le> n \<and> n < 2 ^ 63"

definition int64 :: "int \<Rightarrow> int option option" where
  "int64 n = Some (if inInt64 n then Some n else None)"

fun arithSigned :: "BinOp \<Rightarrow> int \<Rightarrow> int \<Rightarrow> int option option" where
  "arithSigned Op_Add l r = int64 (l + r)"
| "arithSigned Op_Sub l r = int64 (l - r)"
| "arithSigned Op_Mul l r = int64 (l * r)"
| "arithSigned Op_Div l r = (if r \<noteq> 0 then int64 (l sdiv r) else None)"
| "arithSigned Op_Mod l r = (if r \<noteq> 0 then (if inInt64 (l sdiv r) then int64 (l smod r) else Some None) else None)"
| "arithSigned _ l r = None"

fun arithUnsigned :: "BinOp \<Rightarrow> 64 word \<Rightarrow> 64 word \<Rightarrow> 64 word option" where
  "arithUnsigned Op_Add l r = Some (l + r)"
| "arithUnsigned Op_Sub l r = Some (l - r)"
| "arithUnsigned Op_Mul l r = Some (l * r)"
| "arithUnsigned Op_Div l r = (if r \<noteq> 0 then Some (l div r) else None)"
| "arithUnsigned Op_Mod l r = (if r \<noteq> 0 then Some (l mod r) else None)"
| "arithUnsigned _ l r = None"

fun arithFloat :: "double_ops \<Rightarrow> BinOp \<Rightarrow> 64 word \<Rightarrow> 64 word \<Rightarrow> 64 word option" where
  "arithFloat fp Op_Add l r = Some (fp_add fp l r)"
| "arithFloat fp Op_FAdd l r = Some (fp_add fp l r)"
| "arithFloat fp Op_Sub l r = Some (fp_sub fp l r)"
| "arithFloat fp Op_FSub l r = Some (fp_sub fp l r)"
| "arithFloat fp Op_Mul l r = Some (fp_mul fp l r)"
| "arithFloat fp Op_FMul l r = Some (fp_mul fp l r)"
| "arithFloat fp Op_Div l r = Some (fp_div fp l r)"
| "arithFloat fp Op_FDiv l r = Some (fp_div fp l r)"
| "arithFloat fp _ l r = None"

text \<open>The integer result: \<open>None\<close> is undefined, \<open>Some None\<close> not folded.\<close>

definition foldInt :: "bool \<Rightarrow> BinOp \<Rightarrow> 64 word \<Rightarrow> 64 word \<Rightarrow> 64 word option option" where
  "foldInt sg op l r =
     (if sg then (case arithSigned op (sint l) (sint r) of
                    None \<Rightarrow> Some None
                  | Some None \<Rightarrow> None
                  | Some (Some n) \<Rightarrow> Some (Some (word_of_int n)))
      else Some (arithUnsigned op l r))"

definition foldBinary :: "double_ops \<Rightarrow> BinOp \<Rightarrow> mvalue \<Rightarrow> mvalue \<Rightarrow> hirty option \<Rightarrow> cfstate \<Rightarrow> (mvalue option \<times> cfstate) option" where
  "foldBinary fp op l r t s =
     (case unwrapCasts (cf_consts s) (cf_func s) l of None \<Rightarrow> None | Some lhs \<Rightarrow>
      (case unwrapCasts (cf_consts s) (cf_func s) r of None \<Rightarrow> None | Some rhs \<Rightarrow>
       (case (map_option c_body (constOf (cf_consts s) lhs), map_option c_body (constOf (cf_consts s) rhs)) of
          (Some (ConstantInt a), Some (ConstantInt b)) \<Rightarrow>
            (case (case t of None \<Rightarrow> None | Some ty \<Rightarrow> typeSigned (heap s) ty) of
               None \<Rightarrow> None
             | Some sg \<Rightarrow>
                 (case foldInt sg op a b of
                    None \<Rightarrow> None
                  | Some None \<Rightarrow> Some (None, s)
                  | Some (Some n) \<Rightarrow> Some (map_prod Some id (insertConst t (ConstantInt n) s))))
        | (Some (ConstantFloat a), Some (ConstantFloat b)) \<Rightarrow>
            (case arithFloat fp op a b of
               None \<Rightarrow> Some (None, s)
             | Some n \<Rightarrow> Some (map_prod Some id (insertConst t (ConstantFloat n) s)))
        | _ \<Rightarrow> Some (None, s))))"

definition sliceElement :: "HIRType list \<Rightarrow> hirty option \<Rightarrow> tptr option" where
  "sliceElement H t = (case t of Some (TyOther n) \<Rightarrow>
     (if n < length H then (case H ! n of SliceType el \<Rightarrow> Some el | _ \<Rightarrow> None) else None) | _ \<Rightarrow> None)"

definition foldExtract :: "mvalue \<Rightarrow> 32 word \<Rightarrow> hirty option \<Rightarrow> cfstate \<Rightarrow> mvalue option \<times> cfstate" where
  "foldExtract agg idx t s =
     (case constOf (cf_consts s) agg of
        Some c \<Rightarrow>
          (case c_body c of
             ConstantSlice es \<Rightarrow>
               (if idx = 1 then map_prod Some id (insertConst t (ConstantInt (of_nat (length es))) s)
                else if idx = 0 then
                  (case sliceElement (heap s) (c_type c) of
                     None \<Rightarrow> (None, s)
                   | Some el \<Rightarrow>
                       (let arrayTy = TyOther (length (heap s));
                            s1 = s\<lparr>heap := heap s @ [ArrayType el (of_nat (length es))]\<rparr>;
                            (a, s2) = insertConst (Some arrayTy) (ConstantArray es) s1
                        in map_prod Some id (insertConst t (ConstantBitCast a) s2)))
                else (None, s))
           | _ \<Rightarrow> (None, s))
      | None \<Rightarrow> (None, s))"

definition foldInst :: "double_ops \<Rightarrow> inst \<Rightarrow> cfstate \<Rightarrow> (mvalue option \<times> cfstate) option" where
  "foldInst fp i s =
     (case i_body i of
        ExtractValueInst agg idx \<Rightarrow> Some (foldExtract agg idx (i_type i) s)
      | CompareInst pr l r \<Rightarrow> foldCompare pr l r (i_type i) s
      | FCmpInst pr l r \<Rightarrow> foldFCmp fp pr l r (i_type i) s
      | BinaryInst op l r \<Rightarrow> foldBinary fp op l r (i_type i) s
      | _ \<Rightarrow> Some (None, s))"

subsection \<open>The loops\<close>

lemma foldInst_func:
  assumes "foldInst fp i s = Some (v, s1)"
  shows "cf_func s1 = cf_func s"
  using assms
  by (auto simp: foldInst_def foldExtract_def foldCompare_def foldFCmp_def foldBinary_def insertConst_def Let_def
        split: inst_body.splits option.splits const_body.splits if_splits prod.splits)

function foldInsts :: "double_ops \<Rightarrow> nat \<Rightarrow> nat \<Rightarrow> bool \<Rightarrow> cfstate \<Rightarrow> (bool \<times> cfstate) option" where
  "foldInsts fp b j changed s =
     (if j < length (instsOf (cf_func s) b) then
        (let i = instsOf (cf_func s) b ! j
         in case foldInst fp i s of
              None \<Rightarrow> None
            | Some (None, s1) \<Rightarrow> foldInsts fp b (Suc j) changed s1
            | Some (Some v, s1) \<Rightarrow>
                foldInsts fp b j True
                  (s1\<lparr>cf_func := eraseInst b j (replaceAllUsesInFunction (VInst (i_id i)) v (cf_func s1))\<rparr>))
      else Some (changed, s))"
  by pat_completeness auto
termination
  by (relation "measure (\<lambda>(fp, b, j, ch, s). length (instsOf (cf_func s) b) - j)")
     (auto simp: instsOf_eraseInst instsOf_replaceAll dest!: foldInst_func)

declare foldInsts.simps [simp del]

text \<open>A branch on a constant; the new branch takes the place and number of the old one.\<close>

definition foldBranch :: "mconst list \<Rightarrow> nat \<Rightarrow> bool \<times> mfunc \<Rightarrow> bool \<times> mfunc" where
  "foldBranch cs b = (\<lambda>(changed, F).
     (case termOf F b of
        Some (CondBranchInst c t f) \<Rightarrow>
          (case map_option c_body (constOf cs c) of
             Some (ConstantBool v) \<Rightarrow>
               (let target = (if v then t else f); deadTarget = (if v then f else t);
                    old = last (instsOf F b);
                    newBr = old\<lparr>i_type := None, i_name := [], i_borrow := Borrow_None, i_body := BranchInst target\<rparr>;
                    F1 = updBlock b (setInsts butlast) F;
                    F2 = addInstruction b newBr F1
                in (True,
                    if deadTarget \<noteq> target
                    then updBlock deadTarget (removePredecessor b)
                          (updBlock b (removeSuccessor deadTarget)
                            (updBlock deadTarget (setInsts (mapPhis (removeIncoming b))) F2))
                    else F2))
           | _ \<Rightarrow> (changed, F))
      | _ \<Rightarrow> (changed, F)))"

fun foldBlocks :: "double_ops \<Rightarrow> nat list \<Rightarrow> bool \<Rightarrow> cfstate \<Rightarrow> (bool \<times> cfstate) option" where
  "foldBlocks fp [] changed s = Some (changed, s)"
| "foldBlocks fp (b # bs) changed s =
     (case foldInsts fp b 0 changed s of
        None \<Rightarrow> None
      | Some (changed1, s1) \<Rightarrow>
          (case foldBranch (cf_consts s1) b (changed1, cf_func s1) of
             (changed2, F2) \<Rightarrow> foldBlocks fp bs changed2 (s1\<lparr>cf_func := F2\<rparr>)))"

fun foldFunctions ::
  "double_ops \<Rightarrow> mfunc list \<Rightarrow> bool \<times> HIRType list \<times> mconst list \<Rightarrow>
     (bool \<times> HIRType list \<times> mconst list \<times> mfunc list) option" where
  "foldFunctions fp [] (changed, H, cs) = Some (changed, H, cs, [])"
| "foldFunctions fp (F # Fs) (changed, H, cs) =
     (case foldBlocks fp (blockIds F) changed \<lparr>heap = H, cf_consts = cs, cf_func = F\<rparr> of
        None \<Rightarrow> None
      | Some (changed1, s1) \<Rightarrow>
          (case foldFunctions fp Fs (changed1, heap s1, cf_consts s1) of
             None \<Rightarrow> None
           | Some (changed2, H2, cs2, Fs2) \<Rightarrow> Some (changed2, H2, cs2, cf_func s1 # Fs2)))"

definition foldModule :: "double_ops \<Rightarrow> HIRType list \<Rightarrow> mmodule \<Rightarrow> (bool \<times> HIRType list \<times> mmodule) option" where
  "foldModule fp H M =
     (case mutatedGlobals (m_constants M) (m_functions M) of
        None \<Rightarrow> None
      | Some mutated \<Rightarrow>
          (case foldGlobals mutated (m_globals M) (False, m_constants M, m_functions M) of
             (changed, cs, Fs) \<Rightarrow>
               (case foldFunctions fp Fs (changed, H, cs) of
                  None \<Rightarrow> None
                | Some (changed1, H1, cs1, Fs1) \<Rightarrow>
                    Some (changed1, H1, M\<lparr>m_constants := cs1, m_functions := Fs1\<rparr>))))"

end
