(* ===== verification/ConstantFoldProps.thy ===== *)
theory ConstantFoldProps
  imports ConstantFolding SimplifyProps
begin

text \<open>
  Constant folding keeps the control flow graph: the edge lists stay the edges of the terminators, no
  block and no edge is added.  On integers it computes the exact result of the operation and of the
  comparison, as far as 64 bits reach; the width of the type plays no part.
\<close>

subsection \<open>The control flow graph\<close>

definition cfgExact :: "mfunc \<Rightarrow> bool" where
  "cfgExact F \<longleftrightarrow> closed F \<and> tidy F \<and>
     (\<forall>p \<in> ids F. sset F p = tset F p \<and> pset F p = {q \<in> ids F. p \<in> tset F q})"

text \<open>\<open>subgraph G F\<close>: the same blocks, and no edge that \<open>F\<close> has not.\<close>

definition subgraph :: "mfunc \<Rightarrow> mfunc \<Rightarrow> bool" where
  "subgraph G F \<longleftrightarrow> blockIds G = blockIds F \<and> (\<forall>p. tset G p \<subseteq> tset F p)"

definition cfgStep :: "mfunc \<Rightarrow> mfunc \<Rightarrow> bool" where
  "cfgStep F G \<longleftrightarrow> (cfgExact F \<longrightarrow> cfgExact G \<and> subgraph G F)"

lemma cfgStep_refl [simp]: "cfgStep F F"
  by (simp add: cfgStep_def subgraph_def)

lemma cfgStep_trans: "cfgStep F G \<Longrightarrow> cfgStep G H \<Longrightarrow> cfgStep F H"
  by (auto simp: cfgStep_def subgraph_def)

lemma heal_cfgExact: "closed F \<Longrightarrow> tidy F \<Longrightarrow> cfgExact (heal F)"
  by (auto simp: cfgExact_def closed_def heal_view heal_tidy)

lemma cfgStep_replaceAllUses: "cfgStep F (replaceAllUsesInFunction (VInst n) v F)"
proof -
  have "tset (replaceAllUsesInFunction (VInst n) v F) p = tset F p" for p
    by (simp add: tset_shape shape_replaceAllUses)
  then show ?thesis
    by (simp add: cfgStep_def cfgExact_def closed_def tidy_def subgraph_def view_replaceAllUses shape_replaceAllUses)
qed

lemma erase_last: "j < length xs \<Longrightarrow> \<not> Suc j < length xs \<Longrightarrow> take j xs = butlast xs"
proof -
  assume "j < length xs" "\<not> Suc j < length xs"
  then have "j = length xs - 1" by simp
  then show "take j xs = butlast xs" by (simp only: butlast_conv_take)
qed

lemma butlast_erase:
  "set (butlast (take j xs @ drop (Suc j) xs)) \<subseteq> set (butlast xs)"
proof (cases "j < length xs")
  case True
  show ?thesis
  proof (cases "Suc j < length xs")
    case True
    have "butlast (take j xs @ drop (Suc j) xs) = take j xs @ butlast (drop (Suc j) xs)"
      using True by (simp add: butlast_append)
    moreover have "set (take j xs) \<subseteq> set (butlast xs)"
      using True by (simp add: butlast_conv_take set_take_subset_set_take)
    moreover have "set (butlast (drop (Suc j) xs)) \<subseteq> set (butlast xs)"
      by (simp add: butlast_drop set_drop_subset)
    ultimately show ?thesis by simp
  next
    case False
    then have "take j xs @ drop (Suc j) xs = butlast xs" using True by (simp add: erase_last)
    then show ?thesis by (metis in_set_butlastD subsetI)
  qed
qed simp

lemma last_erase:
  assumes "j < length xs" "take j xs @ drop (Suc j) xs \<noteq> []"
  shows "Suc j < length xs \<and> last (take j xs @ drop (Suc j) xs) = last xs \<or>
         Suc j = length xs \<and> last (take j xs @ drop (Suc j) xs) \<in> set (butlast xs)"
proof (cases "Suc j < length xs")
  case False
  then have "take j xs @ drop (Suc j) xs = butlast xs" "Suc j = length xs"
    using assms(1) by (simp_all add: erase_last)
  then show ?thesis using assms(2) by auto
qed (simp add: last_append)

lemma cfgStep_eraseInst:
  assumes j: "j < length (instsOf F b)" and t: "targets (i_body (instsOf F b ! j)) = []"
  shows "cfgStep F (eraseInst b j F)"
proof -
  let ?G = "eraseInst b j F"
  let ?e = "\<lambda>xs. take j xs @ drop (Suc j) xs"
  have b: "b \<in> ids F" using j outside_ids [of b F] by (cases "b \<in> ids F") auto
  have v: "blockIds ?G = blockIds F" "ids ?G = ids F" "sset ?G p = sset F p" "pset ?G p = pset F p"
    "shape ?G p = (if p = b then ?e (shape F b) else shape F p)" for p
    using b by (auto simp: eraseInst_def shape_setInsts, auto simp: shape_def take_map drop_map)
  have e: "tset ?G p = tset F p" if td: "tidy F" for p
  proof (cases "p = b")
    case True
    have l: "j < length (shape F b)" "snd (snd (shape F b ! j)) = []"
      using j t by (auto simp: shape_def sig_def)
    show ?thesis
    proof (cases "?e (shape F b) = []")
      case True
      then have "shape F b = [shape F b ! j]" using l(1) by (cases "shape F b"; cases j) auto
      then have "tset F b = {}" using l(2) by (metis tset_shape last.simps list.set(1))
      then show ?thesis using \<open>p = b\<close> True v(5) [of b] by (simp add: tset_shape [of ?G])
    next
      case False
      have td': "snd (snd x) = []" if "x \<in> set (butlast (shape F b))" for x
        using td that by (auto simp: tidy_def)
      have "Suc j < length (shape F b) \<and> last (?e (shape F b)) = last (shape F b) \<or>
            Suc j = length (shape F b) \<and> last (?e (shape F b)) \<in> set (butlast (shape F b))"
        by (rule last_erase [OF l(1) False])
      then show ?thesis
      proof (elim disjE conjE)
        assume "Suc j = length (shape F b)" "last (?e (shape F b)) \<in> set (butlast (shape F b))"
        moreover from this(1) have "last (shape F b) = shape F b ! j"
          by (metis diff_Suc_1 last_conv_nth length_0_conv nat.distinct(1))
        ultimately show ?thesis
          using \<open>p = b\<close> False v(5) [of b] td' l by (auto simp: tset_shape)
      next
        assume "last (?e (shape F b)) = last (shape F b)"
        then show ?thesis using \<open>p = b\<close> False v(5) [of b] l by (auto simp: tset_shape)
      qed
    qed
  qed (simp add: tset_shape v)
  have "tidy ?G" if "tidy F"
    using that butlast_erase [of j "shape F b"] unfolding tidy_def v(5) by (auto split: if_splits)
  then show ?thesis
    by (auto simp: cfgStep_def cfgExact_def closed_def subgraph_def v e)
qed

lemma cfgStep_fold:
  assumes j: "j < length (instsOf F b)" and t: "targets (i_body (instsOf F b ! j)) = []"
  shows "cfgStep F (eraseInst b j (replaceAllUsesInFunction (VInst n) v F))"
proof (rule cfgStep_trans [OF cfgStep_replaceAllUses cfgStep_eraseInst])
  show "j < length (instsOf (replaceAllUsesInFunction (VInst n) v F) b)" using j by (simp add: instsOf_replaceAll)
  show "targets (i_body (instsOf (replaceAllUsesInFunction (VInst n) v F) b ! j)) = []"
    using j t by (simp add: instsOf_replaceAll targets_replaceOperand)
qed

lemma loadLoop_cfg: "loadLoop g c b j changed cs F = (ch, cs1, G) \<Longrightarrow> cfgStep F G"
proof (induction g c b j changed cs F rule: loadLoop.induct)
  case (1 g c b j changed cs F)
  let ?i = "instsOf F b ! j"
  show ?case
  proof (cases "j < length (instsOf F b)")
    case True
    show ?thesis
    proof (cases "isLoadOf g ?i")
      case load: True
      obtain v cs2 where r: "loadReplacement c (i_type ?i) cs = (v, cs2)" by force
      have t: "targets (i_body ?i) = []" using load by (auto simp: isLoadOf_def split: inst_body.splits)
      have "loadLoop g c b j True cs2 (eraseInst b j (replaceAllUsesInFunction (VInst (i_id ?i)) v F)) = (ch, cs1, G)"
        using "1.prems" True load r by (subst (asm) loadLoop.simps) (simp add: Let_def)
      then show ?thesis
        using "1.IH"(1) [OF True refl load r [symmetric]] cfgStep_fold [OF True t] cfgStep_trans by blast
    next
      case False
      then show ?thesis
        using "1.IH"(2) [OF True refl False] "1.prems" True by (subst (asm) (2) loadLoop.simps) (simp add: Let_def)
    qed
  qed (use "1.prems" in \<open>subst (asm) loadLoop.simps, simp\<close>)
qed

lemma loadBlocks_cfg: "loadBlocks g c bs (changed, cs, F) = (ch, cs1, G) \<Longrightarrow> cfgStep F G"
proof (induction bs arbitrary: changed cs F)
  case (Cons b bs)
  obtain c1 cs2 F1 where l: "loadLoop g c b 0 changed cs F = (c1, cs2, F1)" by (metis prod_cases3)
  then show ?case using Cons loadLoop_cfg [OF l] cfgStep_trans by auto
qed simp

lemma loadFunctions_cfg: "loadFunctions g c Fs (changed, cs) = (ch, cs1, Gs) \<Longrightarrow> list_all2 cfgStep Fs Gs"
proof (induction Fs arbitrary: changed cs ch cs1 Gs)
  case (Cons F Fs)
  obtain c1 cs2 F1 where l: "loadBlocks g c (blockIds F) (changed, cs, F) = (c1, cs2, F1)" by (metis prod_cases3)
  obtain c3 cs3 Hs where r: "loadFunctions g c Fs (c1, cs2) = (c3, cs3, Hs)" by (metis prod_cases3)
  show ?case using Cons.prems l r loadBlocks_cfg [OF l] Cons.IH [OF r] by auto
qed simp

lemma list_all2_cfgStep_trans: "list_all2 cfgStep Fs Gs \<Longrightarrow> list_all2 cfgStep Gs Hs \<Longrightarrow> list_all2 cfgStep Fs Hs"
  by (rule list_all2_trans [of cfgStep cfgStep cfgStep]) (auto intro: cfgStep_trans)

lemma foldGlobals_cfg: "foldGlobals mutated gs (changed, cs, Fs) = (ch, cs1, Gs) \<Longrightarrow> list_all2 cfgStep Fs Gs"
proof (induction gs arbitrary: changed cs Fs)
  case Nil
  then show ?case by (simp add: list_all2_refl)
next
  case (Cons g gs)
  show ?case
  proof (cases "foldableGlobal cs mutated g")
    case (Some c)
    obtain c1 cs2 Hs where l: "loadFunctions (g_id g) c Fs (changed, cs) = (c1, cs2, Hs)" by (metis prod_cases3)
    then show ?thesis
      using Cons Some loadFunctions_cfg [OF l] list_all2_cfgStep_trans by auto
  qed (use Cons in auto)
qed

lemma foldInst_found:
  "foldInst fp i s = Some (Some v, s1) \<Longrightarrow> targets (i_body i) = []"
  by (cases "i_body i") (auto simp: foldInst_def)

lemma foldInsts_cfg: "foldInsts fp b j changed s = Some (ch, s1) \<Longrightarrow> cfgStep (cf_func s) (cf_func s1)"
proof (induction fp b j changed s rule: foldInsts.induct)
  case (1 fp b j changed s)
  let ?i = "instsOf (cf_func s) b ! j"
  show ?case
  proof (cases "j < length (instsOf (cf_func s) b)")
    case True
    obtain w s2 where f: "foldInst fp ?i s = Some (w, s2)"
      using "1.prems" True by (subst (asm) foldInsts.simps) (auto simp: Let_def split: option.splits)
    note F = foldInst_func [OF f]
    show ?thesis
    proof (cases w)
      case None
      then show ?thesis
        using "1.IH"(1) [OF True refl f [unfolded None] refl refl] "1.prems" True f F
        by (subst (asm) (2) foldInsts.simps) (simp add: Let_def)
    next
      case (Some v)
      have t: "targets (i_body ?i) = []" using f foldInst_found Some by blast
      then show ?thesis
        using "1.IH"(2) [OF True refl f refl Some] "1.prems" True f F Some cfgStep_fold [OF True t] cfgStep_trans
        by (subst (asm) (2) foldInsts.simps) (simp add: Let_def, blast)
    qed
  qed (use "1.prems" in \<open>subst (asm) foldInsts.simps, simp\<close>)
qed


lemma view_popBack:
  assumes "b \<in> ids F"
  shows "shape (addInstruction b i (updBlock b (setInsts butlast) F)) p =
           (if p = b then butlast (shape F b) @ [sig i] else shape F p)"
    "blockIds (addInstruction b i (updBlock b (setInsts butlast) F)) = blockIds F"
    "ids (addInstruction b i (updBlock b (setInsts butlast) F)) = ids F"
    "sset (addInstruction b i (updBlock b (setInsts butlast) F)) p =
       (if p = b then sset F p \<union> set (targets (i_body i)) else sset F p)"
    "pset (addInstruction b i (updBlock b (setInsts butlast) F)) p =
       (if p \<in> set (targets (i_body i)) \<and> p \<in> ids F then insert b (pset F p) else pset F p)"
proof -
  have a: "addInstruction b i G = updBlock b (setInsts (\<lambda>xs. xs @ [i\<lparr>i_parent := Some b\<rparr>]))
      (fold (addEdge b) (targets (i_body i)) G)" for G
    by (simp add: addInstruction_def Let_def setInsts_def [abs_def])
  show "shape (addInstruction b i (updBlock b (setInsts butlast) F)) p =
           (if p = b then butlast (shape F b) @ [sig i] else shape F p)"
    using assms by (simp add: a shape_setInsts) (simp add: shape_def instsOf_setInsts map_butlast)
  show "blockIds (addInstruction b i (updBlock b (setInsts butlast) F)) = blockIds F"
    "ids (addInstruction b i (updBlock b (setInsts butlast) F)) = ids F"
    "sset (addInstruction b i (updBlock b (setInsts butlast) F)) p =
       (if p = b then sset F p \<union> set (targets (i_body i)) else sset F p)"
    "pset (addInstruction b i (updBlock b (setInsts butlast) F)) p =
       (if p \<in> set (targets (i_body i)) \<and> p \<in> ids F then insert b (pset F p) else pset F p)"
    using assms by (simp_all add: a)
qed

lemma foldBranch_cfg: "cfgStep F (snd (foldBranch cs b (changed, F)))"
proof (cases "\<exists>c t f v. termOf F b = Some (CondBranchInst c t f) \<and>
    map_option c_body (constOf cs c) = Some (ConstantBool v)")
  case True
  then obtain c t f v where tm: "termOf F b = Some (CondBranchInst c t f)"
    and cv: "map_option c_body (constOf cs c) = Some (ConstantBool v)" by blast
  obtain k where k: "constOf cs c = Some k" "c_body k = ConstantBool v" using cv by auto
  define live where "live = (if v then t else f)"
  define dead where "dead = (if v then f else t)"
  have b: "b \<in> ids F" using tm outside_ids [of b F] by (cases "b \<in> ids F") (auto simp: termOf_def)
  have tF: "tset F b = {live, dead}" using tm by (auto simp: tset_def live_def dead_def)
  define i where "i = (last (instsOf F b))\<lparr>i_type := None, i_name := [], i_borrow := Borrow_None, i_body := BranchInst live\<rparr>"
  define F2 where "F2 = addInstruction b i (updBlock b (setInsts butlast) F)"
  define G where "G = snd (foldBranch cs b (changed, F))"
  have G: "G = (if dead \<noteq> live then updBlock dead (removePredecessor b) (updBlock b (removeSuccessor dead)
                  (updBlock dead (setInsts (mapPhis (removeIncoming b))) F2)) else F2)"
    using tm k by (simp add: G_def foldBranch_def Let_def live_def dead_def F2_def i_def)
  have s: "sig i = (False, False, [live])" "targets (i_body i) = [live]"
    by (simp_all add: i_def sig_def isPhi_def isCond_def)
  note v2 = view_popBack [OF b, of i, folded F2_def, unfolded s list.set]
  have vG: "blockIds G = blockIds F" "ids G = ids F" "shape G p = shape F2 p"
    "sset G p = (if p = b \<and> dead \<noteq> live then sset F2 p - {dead} else sset F2 p)"
    "pset G p = (if p = dead \<and> dead \<noteq> live then pset F2 p - {b} else pset F2 p)" for p
    using v2 b by (auto simp: G)
  have tG: "tset G p = (if p = b then {live} else tset F p)" for p
    by (simp add: tset_shape vG v2)
  have "tidy G" if "tidy F"
    using that unfolding tidy_def vG v2 by (simp add: butlast_append)
  then show ?thesis
    unfolding G_def [symmetric] cfgStep_def cfgExact_def closed_def subgraph_def vG v2 tG
    using tF b by (auto split: if_splits)
next
  case False
  then have "foldBranch cs b (changed, F) = (changed, F)"
    by (auto simp: foldBranch_def split: option.splits inst_body.splits const_body.splits)
  then show ?thesis by simp
qed

lemma foldBlocks_cfg: "foldBlocks fp bs changed s = Some (ch, s1) \<Longrightarrow> cfgStep (cf_func s) (cf_func s1)"
proof (induction bs arbitrary: changed s)
  case (Cons b bs)
  obtain c2 s2 where f: "foldInsts fp b 0 changed s = Some (c2, s2)"
    using Cons.prems by (auto split: option.splits)
  obtain c3 G where g: "foldBranch (cf_consts s2) b (c2, cf_func s2) = (c3, G)" by force
  have "cfgStep (cf_func s2) G" using foldBranch_cfg [of "cf_func s2" "cf_consts s2" b c2] g by simp
  moreover have "cfgStep G (cf_func s1)" using Cons.IH [of c3 "s2\<lparr>cf_func := G\<rparr>"] Cons.prems f g by simp
  ultimately show ?case using foldInsts_cfg [OF f] cfgStep_trans by blast
qed simp

lemma foldFunctions_cfg:
  "foldFunctions fp Fs (changed, H, cs) = Some (ch, H1, cs1, Gs) \<Longrightarrow> list_all2 cfgStep Fs Gs"
proof (induction Fs arbitrary: changed H cs Gs ch H1 cs1)
  case (Cons F Fs)
  obtain c2 s2 where f: "foldBlocks fp (blockIds F) changed \<lparr>heap = H, cf_consts = cs, cf_func = F\<rparr> = Some (c2, s2)"
    using Cons.prems by (auto split: option.splits)
  obtain c3 H3 cs3 Gs3 where g: "foldFunctions fp Fs (c2, heap s2, cf_consts s2) = Some (c3, H3, cs3, Gs3)"
    using Cons.prems f by (auto split: option.splits)
  have "cfgStep F (cf_func s2)" using foldBlocks_cfg [OF f] by simp
  then show ?case using Cons.prems f g Cons.IH [OF g] by auto
qed simp

lemma foldModule_cfg:
  assumes "foldModule fp H M = Some (ch, H1, M1)"
  shows "list_all2 cfgStep (m_functions M) (m_functions M1)"
proof -
  obtain mu where m: "mutatedGlobals (m_constants M) (m_functions M) = Some mu"
    using assms by (auto simp: foldModule_def split: option.splits)
  obtain c2 cs2 Fs2 where g: "foldGlobals mu (m_globals M) (False, m_constants M, m_functions M) = (c2, cs2, Fs2)"
    by (metis prod_cases3)
  obtain c3 H3 cs3 Fs3 where f: "foldFunctions fp Fs2 (c2, H, cs2) = Some (c3, H3, cs3, Fs3)"
    using assms m g by (auto simp: foldModule_def split: option.splits)
  then have "M1 = M\<lparr>m_constants := cs3, m_functions := Fs3\<rparr>" using assms m g by (simp add: foldModule_def)
  then show ?thesis using foldGlobals_cfg [OF g] foldFunctions_cfg [OF f] list_all2_cfgStep_trans by simp
qed


subsection \<open>Reference arithmetic\<close>

text \<open>
  The integer a 64-bit pattern stands for, the integers a pattern can stand for, and the operations
  on them: division truncates towards zero, and neither it nor the remainder is defined on zero.
\<close>

definition intVal :: "bool \<Rightarrow> 64 word \<Rightarrow> int" where
  "intVal sg x = (if sg then sint x else uint x)"

definition inRange :: "bool \<Rightarrow> int \<Rightarrow> bool" where
  "inRange sg n = (if sg then inInt64 n else 0 \<le> n \<and> n < 2 ^ 64)"

fun refArith :: "BinOp \<Rightarrow> int \<Rightarrow> int \<Rightarrow> int option" where
  "refArith Op_Add l r = Some (l + r)"
| "refArith Op_Sub l r = Some (l - r)"
| "refArith Op_Mul l r = Some (l * r)"
| "refArith Op_Div l r = (if r = 0 then None else Some (l sdiv r))"
| "refArith Op_Mod l r = (if r = 0 then None else Some (l smod r))"
| "refArith _ l r = None"

fun refCompare :: "CmpPred \<Rightarrow> int \<Rightarrow> int \<Rightarrow> bool" where
  "refCompare EQ l r = (l = r)"
| "refCompare NE l r = (l \<noteq> r)"
| "refCompare LT l r = (l < r)"
| "refCompare LE l r = (l \<le> r)"
| "refCompare GT l r = (l > r)"
| "refCompare GE l r = (l \<ge> r)"
| "refCompare ULT l r = (l < r)"
| "refCompare ULE l r = (l \<le> r)"
| "refCompare UGT l r = (l > r)"
| "refCompare UGE l r = (l \<ge> r)"

lemma inRange_intVal: "inRange sg (intVal sg x)"
  using sint_greater_eq [of x] sint_less [of x] uint_lt2p [of x]
  by (simp add: inRange_def intVal_def inInt64_def)

lemma intVal_of_int: "inRange sg n \<Longrightarrow> intVal sg (word_of_int n) = n"
proof (cases sg)
  case True
  assume "inRange sg n"
  with True show ?thesis
    by (simp add: intVal_def inRange_def inInt64_def signed_of_int signed_take_bit_int_eq_self)
next
  case False
  assume "inRange sg n"
  with False show ?thesis
    by (simp add: intVal_def inRange_def unsigned_of_int take_bit_int_eq_self)
qed

lemma sdiv_nonneg: "0 \<le> l \<Longrightarrow> 0 \<le> r \<Longrightarrow> l sdiv r = l div r" for l r :: int
  by (cases "l = 0"; cases "r = 0") (simp_all add: signed_divide_int_def)

lemma smod_nonneg: "0 \<le> l \<Longrightarrow> 0 \<le> r \<Longrightarrow> l smod r = l mod r" for l r :: int
  by (cases "l = 0") (simp_all add: signed_modulo_int_def sdiv_nonneg)

lemma arithUnsigned_ref:
  "arithUnsigned op l r =
     (case refArith op (uint l) (uint r) of None \<Rightarrow> None | Some n \<Rightarrow> Some (word_of_int n))"
  by (cases op)
     (auto simp: sdiv_nonneg smod_nonneg word_of_int_eq_iff uint_div uint_mod uint_0_iff
        of_int_add of_int_diff of_int_mult word_div_def word_mod_def)

lemma foldInt_exact:
  assumes ref: "refArith op (intVal sg l) (intVal sg r) = Some n" and n: "inRange sg n"
    and q: "sg \<Longrightarrow> op = Op_Mod \<Longrightarrow> inInt64 (sint l sdiv sint r)"
  shows "foldInt sg op l r = Some (Some (word_of_int n))"
proof (cases sg)
  case True
  then show ?thesis using assms
    by (cases op) (auto simp: foldInt_def intVal_def inRange_def int64_def split: if_splits)
next
  case False
  then show ?thesis using ref by (simp add: foldInt_def arithUnsigned_ref intVal_def)
qed

lemma foldInt_undefined:
  assumes "refArith op (intVal sg l) (intVal sg r) = None"
  shows "foldInt sg op l r = Some None"
proof (cases sg)
  case True
  then show ?thesis using assms
    by (cases op) (auto simp: foldInt_def intVal_def split: if_splits)
next
  case False
  then show ?thesis using assms by (simp add: foldInt_def arithUnsigned_ref intVal_def)
qed

text \<open>The unsigned predicates of the instruction set.\<close>

definition unsignedPred :: "CmpPred \<Rightarrow> bool" where
  "unsignedPred pr \<longleftrightarrow> pr \<in> {ULT, ULE, UGT, UGE}"

lemma compareSigned_ref:
  "compareSigned pr l r \<longleftrightarrow> \<not> unsignedPred pr \<and> refCompare pr (intVal True l) (intVal True r)"
  by (cases pr) (auto simp: unsignedPred_def intVal_def)

lemma compareUnsigned_ref:
  "compareUnsigned pr l r \<longleftrightarrow> \<not> unsignedPred pr \<and> refCompare pr (intVal False l) (intVal False r)"
  by (cases pr) (auto simp: unsignedPred_def intVal_def word_less_alt word_le_def word_uint_eq_iff)

text \<open>\<open>intConst s v n a\<close>: under its casts \<open>v\<close> is the integer constant \<open>a\<close> of the integer type \<open>n\<close>.\<close>

definition intConst :: "cfstate \<Rightarrow> mvalue \<Rightarrow> hirty option \<Rightarrow> 64 word \<Rightarrow> bool" where
  "intConst s v t a \<longleftrightarrow>
     (\<exists>w. unwrapCasts (cf_consts s) (cf_func s) v = Some w \<and>
          constOf (cf_consts s) w = Some \<lparr>c_type = t, c_body = ConstantInt a\<rparr>)"

definition intType :: "HIRType list \<Rightarrow> hirty option \<Rightarrow> bool \<Rightarrow> bool" where
  "intType H t sg \<longleftrightarrow> (\<exists>n w p. t = Some (TyOther n) \<and> n < length H \<and> H ! n = HIRIntType w sg p)"

lemma typeSigned_intType: "intType H (Some ty) sg \<Longrightarrow> typeSigned H ty = Some sg"
  by (auto simp: intType_def typeSigned_def)


subsection \<open>Examples\<close>

text \<open>
  A module with one function of one or more blocks; types \<open>0\<close> and \<open>1\<close> are \<open>u8\<close> and \<open>bool\<close>.
\<close>

definition exTypes :: "HIRType list" where
  "exTypes = [HIRIntType 8 False False, PrimitiveType TK_Bool, HIRIntType 64 True False]"

definition exFp :: double_ops where
  "exFp = \<lparr>fp_add = (+), fp_sub = (-), fp_mul = (*), fp_div = (div), fp_eq = (=), fp_lt = (<), fp_le = (\<le>)\<rparr>"


definition typedInst :: "nat \<Rightarrow> nat \<Rightarrow> inst_body \<Rightarrow> inst" where
  "typedInst n t b = \<lparr>i_id = n, i_type = Some (TyOther t), i_name = [], i_loc = 0, i_borrow = Borrow_None,
                      i_parent = Some 0, i_body = b\<rparr>"

text \<open>\<open>if ((u8) 200 + (u8) 100 == (u8) 44) ... else ...\<close>\<close>

definition exByte :: mfunc where
  "exByte = exFunc [(mkBlock 0 [])\<lparr>instructions :=
     [typedInst 0 0 (BinaryInst Op_Add (VConst 0) (VConst 1)),
      typedInst 1 1 (CompareInst EQ (VInst 0) (VConst 2)),
      typedInst 2 1 (CondBranchInst (VInst 1) 1 2)]\<rparr>,
     exBlock 1 [ReturnInst None], exBlock 2 [ReturnInst None]]"

definition exByteModule :: mmodule where
  "exByteModule = (mkModule ''m'')\<lparr>m_functions := [heal exByte],
     m_constants := map (\<lambda>n. \<lparr>c_type = Some (TyOther 0), c_body = ConstantInt n\<rparr>) [200, 100, 44]\<rparr>"

lemma tidy_blocks:
  "list_all (\<lambda>B. list_all (\<lambda>x. snd (snd x) = []) (butlast (map sig (instructions B)))) (blocks F) \<Longrightarrow> tidy F"
  unfolding tidy_def shape_def instsOf_def theBlock_def
  by (auto simp: list_all_iff find_Some_iff split: option.splits)

lemma exByte_cfg: "cfgExact (heal exByte)"
proof (rule heal_cfgExact)
  show "closed exByte" by code_simp
  show "tidy exByte" by (rule tidy_blocks) code_simp
qed

lemma exByte_run:
  "(case foldModule exFp exTypes exByteModule of None \<Rightarrow> False | Some (ch, H, M) \<Rightarrow>
      map (\<lambda>F. map (map i_body \<circ> instructions) (blocks F)) (m_functions M) =
        [[[BranchInst 2], [ReturnInst None], [ReturnInst None]]] \<and>
      map c_body (m_constants M) = [ConstantInt 200, ConstantInt 100, ConstantInt 44, ConstantInt 300, ConstantBool False])"
  by code_simp


definition exDiv :: cfstate where
  "exDiv = \<lparr>heap = exTypes, cf_consts = map (\<lambda>n. \<lparr>c_type = Some (TyOther 2), c_body = ConstantInt n\<rparr>) [- 7, 2],
            cf_func = exFunc []\<rparr>"

text \<open>
  C16: Whatever constant folding does to a module, in every function whose edge lists are the edges of
  its terminators they still are, every branch goes to a block of the function, the blocks are the
  same and no edge is new.
\<close>

theorem folding_keeps_cfg:
  assumes "foldModule fp H M = Some (ch, H1, M1)"
    and "\<forall>F \<in> set (m_functions M). cfgExact F"
  shows "(\<forall>F \<in> set (m_functions M1). cfgExact F) \<and> list_all2 subgraph (m_functions M1) (m_functions M)"
proof -
  note l = foldModule_cfg [OF assms(1)]
  have "cfgExact F \<and> cfgExact G \<and> subgraph G F" if "(F, G) \<in> set (zip (m_functions M) (m_functions M1))" for F G
    using l that assms(2) by (auto simp: list_all2_iff cfgStep_def dest: set_zip_leftD)
  then have "list_all2 (\<lambda>F G. cfgExact G \<and> subgraph G F) (m_functions M) (m_functions M1)"
    using l by (auto simp: list_all2_iff)
  then show ?thesis
    by (auto simp: list_all2_conv_all_nth in_set_conv_nth)
qed

theorem folding_keeps_cfg_witness:
  "\<exists>ch H1 M1. foldModule exFp exTypes exByteModule = Some (ch, H1, M1) \<and>
     (\<forall>F \<in> set (m_functions M1). cfgExact F) \<and> list_all2 subgraph (m_functions M1) [heal exByte]"
proof -
  obtain ch H1 M1 where r: "foldModule exFp exTypes exByteModule = Some (ch, H1, M1)"
    using exByte_run by (auto split: option.splits)
  moreover have "m_functions exByteModule = [heal exByte]" by (simp add: exByteModule_def)
  ultimately show ?thesis using folding_keeps_cfg [OF r] exByte_cfg by auto
qed

text \<open>
  C17: Arithmetic on two integer constants of an integer type is folded to a constant of the type of
  the instruction whose value is the exact result, signed or unsigned as the type says, if that fits
  64 bits; where the operation is not defined (division by zero, an operator that is not folded)
  nothing is changed.  Other constants, the types and the function are left as they are.
\<close>

theorem integer_folding_exact:
  assumes "intConst s l lty a" and "intConst s r rty b" and "intType (heap s) t sg"
  shows "(refArith op (intVal sg a) (intVal sg b) = None \<longrightarrow> foldBinary fp op l r t s = Some (None, s)) \<and>
    (\<forall>n. refArith op (intVal sg a) (intVal sg b) = Some n \<longrightarrow> inRange sg n \<longrightarrow>
       (sg \<and> op = Op_Mod \<longrightarrow> inInt64 (sint a sdiv sint b)) \<longrightarrow>
       (\<exists>x. intVal sg x = n \<and>
          foldBinary fp op l r t s =
            Some (Some (VConst (length (cf_consts s))),
                  s\<lparr>cf_consts := cf_consts s @ [\<lparr>c_type = t, c_body = ConstantInt x\<rparr>]\<rparr>)))"
proof -
  obtain lw rw ty where
    lr: "unwrapCasts (cf_consts s) (cf_func s) l = Some lw" "unwrapCasts (cf_consts s) (cf_func s) r = Some rw"
      "constOf (cf_consts s) lw = Some \<lparr>c_type = lty, c_body = ConstantInt a\<rparr>"
      "constOf (cf_consts s) rw = Some \<lparr>c_type = rty, c_body = ConstantInt b\<rparr>"
    and t: "t = Some ty" "typeSigned (heap s) ty = Some sg"
    using assms typeSigned_intType by (fastforce simp: intConst_def intType_def)
  have f: "foldBinary fp op l r t s =
    (case foldInt sg op a b of None \<Rightarrow> None | Some None \<Rightarrow> Some (None, s)
     | Some (Some n) \<Rightarrow> Some (map_prod Some id (insertConst t (ConstantInt n) s)))"
    unfolding t(1) using lr t(2) by (simp add: foldBinary_def)
  show ?thesis
  proof (intro conjI allI impI)
    assume "refArith op (intVal sg a) (intVal sg b) = None"
    then show "foldBinary fp op l r t s = Some (None, s)" using f foldInt_undefined by simp
  next
    fix n assume "refArith op (intVal sg a) (intVal sg b) = Some n" "inRange sg n"
      "sg \<and> op = Op_Mod \<longrightarrow> inInt64 (sint a sdiv sint b)"
    then show "\<exists>x. intVal sg x = n \<and> foldBinary fp op l r t s = Some (Some (VConst (length (cf_consts s))),
        s\<lparr>cf_consts := cf_consts s @ [\<lparr>c_type = t, c_body = ConstantInt x\<rparr>]\<rparr>)"
      using f foldInt_exact intVal_of_int by (intro exI [of _ "word_of_int n"]) (simp add: insertConst_def)
  qed
qed

theorem integer_folding_exact_witness:
  "\<exists>x. intVal True x = -3 \<and>
     foldBinary exFp Op_Div (VConst 0) (VConst 1) (Some (TyOther 2)) exDiv =
       Some (Some (VConst 2), exDiv\<lparr>cf_consts := cf_consts exDiv @ [\<lparr>c_type = Some (TyOther 2), c_body = ConstantInt x\<rparr>]\<rparr>)"
proof -
  have "intConst exDiv (VConst 0) (Some (TyOther 2)) (- 7)" "intConst exDiv (VConst 1) (Some (TyOther 2)) 2"
    "intType (heap exDiv) (Some (TyOther 2)) True"
    by (simp_all add: intConst_def intType_def exDiv_def exTypes_def unwrapCasts.simps unwrapStep_def constOf_def ex_bool_eq)
  note i = integer_folding_exact [OF this, of Op_Div exFp]
  have "refArith Op_Div (intVal True (- 7)) (intVal True 2) = Some (-3)" by code_simp
  moreover have "inRange True (-3)" by code_simp
  moreover have "length (cf_consts exDiv) = 2" by (simp add: exDiv_def)
  ultimately show ?thesis using i by simp
qed

text \<open>
  A comparison of two distinct integer constants is folded to what the exact comparison of their
  values says for the six ordinary predicates, signed or unsigned as the type of the left operand
  says; for the four unsigned predicates it is folded to false whatever the values are.
\<close>

theorem comparison_folding:
  assumes "unwrapCasts (cf_consts s) (cf_func s) l = Some lv" and "unwrapCasts (cf_consts s) (cf_func s) r = Some rv"
    and "lv \<noteq> rv" and "constOf (cf_consts s) lv = Some \<lparr>c_type = lty, c_body = ConstantInt a\<rparr>"
    and "constOf (cf_consts s) rv = Some \<lparr>c_type = rty, c_body = ConstantInt b\<rparr>" and "intType (heap s) lty sg"
  shows "foldCompare pr l r t s =
    Some (Some (VConst (length (cf_consts s))),
      s\<lparr>cf_consts := cf_consts s @ [\<lparr>c_type = t, c_body =
          ConstantBool (pr \<notin> {ULT, ULE, UGT, UGE} \<and> refCompare pr (intVal sg a) (intVal sg b))\<rparr>]\<rparr>)"
proof -
  obtain ty where t: "lty = Some ty" "typeSigned (heap s) ty = Some sg"
    using assms(6) typeSigned_intType by (fastforce simp: intType_def)
  show ?thesis
    using assms(1-5) t compareSigned_ref [of pr a b] compareUnsigned_ref [of pr a b]
    by (cases sg) (simp_all add: foldCompare_def insertConst_def unsignedPred_def)
qed

theorem comparison_folding_witness:
  "foldCompare UGT (VConst 1) (VConst 0) (Some (TyOther 1)) (exDiv\<lparr>heap := [HIRIntType 8 False False, PrimitiveType TK_Bool, HIRIntType 64 False False]\<rparr>) =
     Some (Some (VConst 2), exDiv\<lparr>heap := [HIRIntType 8 False False, PrimitiveType TK_Bool, HIRIntType 64 False False],
       cf_consts := cf_consts exDiv @ [\<lparr>c_type = Some (TyOther 1), c_body = ConstantBool False\<rparr>]\<rparr>)"
  by (subst comparison_folding [of _ "VConst 1" "VConst 1" "VConst 0" "VConst 0" "Some (TyOther 2)" 2 "Some (TyOther 2)" "- 7" False])
     (simp_all add: intType_def exDiv_def unwrapCasts.simps unwrapStep_def constOf_def ex_bool_eq)

text \<open>
  Folding works on 64 bits whatever the width of the type: in a function that adds the bytes 200
  and 100 and tests the sum against 44, the sum becomes the byte constant 300, the test becomes false,
  and the branch goes to the block for sums other than 44.
\<close>

theorem width_not_respected:
  "case foldModule exFp exTypes exByteModule of None \<Rightarrow> False | Some (ch, H, M) \<Rightarrow>
     map (\<lambda>F. map (map i_body \<circ> instructions) (blocks F)) (m_functions M) =
       [[[BranchInst 2], [ReturnInst None], [ReturnInst None]]] \<and>
     m_constants M ! 3 = \<lparr>c_type = Some (TyOther 0), c_body = ConstantInt 300\<rparr> \<and> (200 + 100 :: 8 word) = 44"
  by code_simp

end
