(* ===== verification/JumpThreading.thy ===== *)
theory JumpThreading
  imports ConstantFolding
begin

text \<open>
  Jump threading (\<open>lib/middle/mir/passes/JumpThreadingPass.cpp\<close>): a block that tests a phi against
  null is bypassed by a predecessor the phi takes null from.
\<close>

text \<open>The phi a block tests against null, as its last action, and where it goes if it is null.\<close>

definition nullTest :: "mconst list \<Rightarrow> mfunc \<Rightarrow> nat \<Rightarrow> ((mvalue \<times> nat) list \<times> nat) option" where
  "nullTest cs F b =
     (case termOf F b of
        Some (CondBranchInst (VInst n) t f) \<Rightarrow>
          (case map_option i_body (instOf F n) of
             Some (CompareInst NE (VInst m) r) \<Rightarrow>
               (case instOf F m of
                  Some i \<Rightarrow>
                    (case i_body i of
                       PhiInst inc \<Rightarrow>
                         (if map_option c_body (constOf cs r) = Some ConstantNull \<and> i_parent i = Some b
                          then Some (inc, f) else None)
                     | _ \<Rightarrow> None)
                | None \<Rightarrow> None)
           | _ \<Rightarrow> None)
      | _ \<Rightarrow> None)"

definition hasPhis :: "mfunc \<Rightarrow> nat \<Rightarrow> bool" where
  "hasPhis F b \<longleftrightarrow> instsOf F b \<noteq> [] \<and> isPhi (hd (instsOf F b))"

text \<open>The branch of the predecessor is replaced by one to the bailout block.\<close>

definition threadBranch :: "nat \<Rightarrow> nat \<Rightarrow> nat \<Rightarrow> mfunc \<Rightarrow> mfunc" where
  "threadBranch b bailout p F =
     (let old = last (instsOf F p);
          newBr = old\<lparr>i_type := None, i_name := [], i_borrow := Borrow_None, i_body := BranchInst bailout\<rparr>;
          F1 = updBlock p (setInsts butlast) F;
          F2 = addInstruction p newBr F1;
          F3 = updBlock p (removeSuccessor b) F2;
          F4 = updBlock b (removePredecessor p) F3;
          F5 = (if p \<in> set (predsOf F4 bailout) then F4 else addEdge p bailout F4)
      in updBlock b (setInsts (mapPhis (removeIncoming p))) F5)"

text \<open>One side of the conditional branch of the predecessor is redirected.\<close>

fun retarget :: "nat \<Rightarrow> nat \<Rightarrow> inst_body \<Rightarrow> inst_body" where
  "retarget b bailout (CondBranchInst c t f) =
     (if t = b then CondBranchInst c bailout f
      else if f = b then CondBranchInst c t bailout
      else CondBranchInst c t f)"
| "retarget b bailout i = i"

definition threadCond :: "nat \<Rightarrow> nat \<Rightarrow> nat \<Rightarrow> mfunc \<Rightarrow> mfunc" where
  "threadCond b bailout p F =
     (let F1 = updBlock p (updLast (\<lambda>i. i\<lparr>i_body := retarget b bailout (i_body i)\<rparr>)) F
      in case termOf F1 p of
           Some (CondBranchInst c t f) \<Rightarrow>
             (let F2 = updBlock p (\<lambda>B. B\<lparr>successors := []\<rparr>) F1;
                  F3 = updBlock p (addSuccessor t) F2;
                  F4 = (if t \<noteq> f then updBlock p (addSuccessor f) F3 else F3);
                  F5 = updBlock b (removePredecessor p) F4;
                  F6 = (if t = b \<or> f = b then updBlock b (addPredecessor p) F5
                        else updBlock b (setInsts (mapPhis (removeIncoming p))) F5)
              in if p \<in> set (predsOf F6 bailout) then F6 else updBlock bailout (addPredecessor p) F6)
         | _ \<Rightarrow> F1)"

text \<open>The loop over the incoming values, left after the first one that is threaded.\<close>

fun threadIncoming :: "mconst list \<Rightarrow> nat \<Rightarrow> nat \<Rightarrow> (mvalue \<times> nat) list \<Rightarrow> bool \<times> mfunc \<Rightarrow> bool \<times> mfunc" where
  "threadIncoming cs b bailout [] st = st"
| "threadIncoming cs b bailout ((v, p) # inc) (changed, F) =
     (if map_option c_body (constOf cs v) = Some ConstantNull \<and> \<not> hasPhis F bailout then
        (case termOf F p of
           Some (BranchInst t) \<Rightarrow> (True, threadBranch b bailout p F)
         | Some (CondBranchInst c t f) \<Rightarrow> (True, threadCond b bailout p F)
         | _ \<Rightarrow> threadIncoming cs b bailout inc (changed, F))
      else threadIncoming cs b bailout inc (changed, F))"

definition threadBlock :: "mconst list \<Rightarrow> nat \<Rightarrow> bool \<times> mfunc \<Rightarrow> bool \<times> mfunc" where
  "threadBlock cs b st =
     (case nullTest cs (snd st) b of
        Some (inc, bailout) \<Rightarrow> threadIncoming cs b bailout inc st
      | None \<Rightarrow> st)"

definition threadFunction :: "mconst list \<Rightarrow> mfunc \<Rightarrow> bool \<times> mfunc" where
  "threadFunction cs F = fold (threadBlock cs) (blockIds F) (False, F)"

definition threadModule :: "mmodule \<Rightarrow> bool \<times> mmodule" where
  "threadModule M =
     (let rs = map (threadFunction (m_constants M)) (m_functions M)
      in (\<exists>r \<in> set rs. fst r, M\<lparr>m_functions := map snd rs\<rparr>))"

end
