(* ===== verification/JumpThreadProps.thy ===== *)
theory JumpThreadProps
  imports JumpThreading ConstantFoldProps DominanceProps
begin

text \<open>
  Jump threading on functions whose edge lists, phis and parents are in order keeps them in order.
  It does not ask what else the bypassed block holds: values and effects of the block are lost on the
  new edge.
\<close>

fun phisFirst :: "inst list \<Rightarrow> bool" where
  "phisFirst [] = True"
| "phisFirst (i # xs) = (if isPhi i then phisFirst xs else (\<forall>j \<in> set xs. \<not> isPhi j))"

definition incoming :: "inst \<Rightarrow> (mvalue \<times> nat) list" where
  "incoming i = (case i_body i of PhiInst inc \<Rightarrow> inc | _ \<Rightarrow> [])"

definition incomingBlocks :: "inst list \<Rightarrow> nat set" where
  "incomingBlocks xs = (\<Union>i \<in> set xs. snd ` set (incoming i))"

definition blocksOk :: "mfunc \<Rightarrow> bool" where
  "blocksOk F \<longleftrightarrow> (\<forall>q \<in> ids F. phisFirst (instsOf F q) \<and> incomingBlocks (instsOf F q) \<subseteq> pset F q \<and>
     (\<forall>i \<in> set (instsOf F q). i_parent i = Some q))"

definition threadOk :: "mfunc \<Rightarrow> bool" where
  "threadOk F \<longleftrightarrow> cfgExact F \<and> blocksOk F"

lemma incoming_noPhi: "\<not> isPhi i \<Longrightarrow> incoming i = []"
  by (cases "i_body i") (simp_all add: incoming_def isPhi_def)

lemma incoming_remove: "incoming (updPhi (removeIncoming p) i) = removeIncoming p (incoming i)"
  by (cases "i_body i") (simp_all add: incoming_def updPhi_def removeIncoming_def)

lemma incomingBlocks_simps [simp]:
  "incomingBlocks [] = {}" "incomingBlocks (i # xs) = snd ` set (incoming i) \<union> incomingBlocks xs"
  "incomingBlocks (xs @ ys) = incomingBlocks xs \<union> incomingBlocks ys"
  by (simp_all add: incomingBlocks_def)

lemma incomingBlocks_none: "\<forall>j \<in> set xs. \<not> isPhi j \<Longrightarrow> incomingBlocks xs = {}"
  by (simp add: incomingBlocks_def incoming_noPhi)

lemma incomingBlocks_butlast: "incomingBlocks (butlast xs) \<subseteq> incomingBlocks xs"
  by (auto simp: incomingBlocks_def dest: in_set_butlastD)

lemma phisFirst_last: "phisFirst xs \<Longrightarrow> \<not> isPhi i \<Longrightarrow> phisFirst (butlast xs @ [i])"
  by (induction xs) (auto dest: in_set_butlastD)

lemma phisFirst_noPhi: "phisFirst xs \<Longrightarrow> xs = [] \<or> \<not> isPhi (hd xs) \<Longrightarrow> \<forall>j \<in> set xs. \<not> isPhi j"
  by (cases xs) auto

lemma updPhi_phi [simp]: "isPhi (updPhi f i) = isPhi i" "i_parent (updPhi f i) = i_parent i"
  by (cases "i_body i"; simp add: updPhi_def isPhi_def)+

lemma mapPhis_first:
  "phisFirst xs \<Longrightarrow> phisFirst (mapPhis f xs) \<and> incomingBlocks (mapPhis (removeIncoming p) xs) = incomingBlocks xs - {p}"
  by (induction xs) (auto simp: incoming_noPhi incomingBlocks_none incoming_remove removeIncoming_def)

lemma mapPhis_parent: "\<forall>i \<in> set xs. i_parent i = q \<Longrightarrow> \<forall>i \<in> set (mapPhis f xs). i_parent i = q"
  by (induction xs) auto

text \<open>A block that is changed like \<open>threadBranch\<close> and \<open>threadCond\<close> do.\<close>

lemma newInsts_ok:
  assumes "phisFirst xs" "\<forall>i \<in> set xs. i_parent i = q" "\<not> isPhi i" "i_parent i = q"
    and "ys = (if c then butlast xs @ [i] else xs)" "zs = (if d then mapPhis (removeIncoming p) ys else ys)"
  shows "phisFirst zs \<and> (\<forall>i \<in> set zs. i_parent i = q) \<and>
    incomingBlocks zs \<subseteq> (if d then incomingBlocks xs - {p} else incomingBlocks xs)"
proof -
  have y: "phisFirst ys" "\<forall>i \<in> set ys. i_parent i = q" "incomingBlocks ys \<subseteq> incomingBlocks xs"
    using assms(1-5) phisFirst_last incomingBlocks_butlast [of xs]
    by (auto simp: incoming_noPhi dest: in_set_butlastD)
  then show ?thesis using assms(6) mapPhis_first [OF y(1)] mapPhis_parent [OF y(2)] by auto
qed

lemma threadBranch_view:
  assumes "p \<in> ids F" "b \<in> ids F" "bailout \<in> ids F" "b \<noteq> bailout" "p \<noteq> b"
  shows "blockIds (threadBranch b bailout p F) = blockIds F" "ids (threadBranch b bailout p F) = ids F"
    "sset (threadBranch b bailout p F) q =
       (if q = p then insert bailout (sset F q) - {b} else sset F q)"
    "pset (threadBranch b bailout p F) q =
       (if q = bailout then insert p (pset F q) else if q = b then pset F q - {p} else pset F q)"
    "\<exists>i. i_body i = BranchInst bailout \<and> i_parent i = Some p \<and>
       (\<forall>q. instsOf (threadBranch b bailout p F) q =
         (if q = b then mapPhis (removeIncoming p) (instsOf F q)
          else if q = p then butlast (instsOf F q) @ [i] else instsOf F q))"
proof -
  define i where "i = (last (instsOf F p))\<lparr>i_type := None, i_name := [], i_borrow := Borrow_None, i_body := BranchInst bailout\<rparr>"
  define F2 where "F2 = addInstruction p i (updBlock p (setInsts butlast) F)"
  define F4 where "F4 = updBlock b (removePredecessor p) (updBlock p (removeSuccessor b) F2)"
  have t: "targets (i_body i) = [bailout]" by (simp add: i_def)
  note v2 = view_popBack [OF assms(1), of i, folded F2_def, unfolded t list.set]
  have i2: "instsOf F2 q = (if q = p then butlast (instsOf F q) @ [i\<lparr>i_parent := Some p\<rparr>] else instsOf F q)" for q
    using assms(1) by (simp add: F2_def addInstruction_def Let_def t setInsts_def [symmetric, of "\<lambda>xs. xs @ [_]"] instsOf_setInsts)
  have "p \<in> set (predsOf F4 bailout)"
    using v2(5) [of bailout] assms by (simp add: F4_def pset_def [symmetric])
  then have G: "threadBranch b bailout p F = updBlock b (setInsts (mapPhis (removeIncoming p))) F4"
    by (simp add: threadBranch_def Let_def i_def F2_def F4_def)
  show "blockIds (threadBranch b bailout p F) = blockIds F" "ids (threadBranch b bailout p F) = ids F"
    "sset (threadBranch b bailout p F) q = (if q = p then insert bailout (sset F q) - {b} else sset F q)"
    "pset (threadBranch b bailout p F) q =
       (if q = bailout then insert p (pset F q) else if q = b then pset F q - {p} else pset F q)"
    using assms by (auto simp: G F4_def v2)
  have "instsOf (threadBranch b bailout p F) q =
         (if q = b then mapPhis (removeIncoming p) (instsOf F q)
          else if q = p then butlast (instsOf F q) @ [i\<lparr>i_parent := Some p\<rparr>] else instsOf F q)" for q
    using assms by (simp add: G F4_def i2 instsOf_setInsts v2)
  then show "\<exists>i. i_body i = BranchInst bailout \<and> i_parent i = Some p \<and>
       (\<forall>q. instsOf (threadBranch b bailout p F) q =
         (if q = b then mapPhis (removeIncoming p) (instsOf F q)
          else if q = p then butlast (instsOf F q) @ [i] else instsOf F q))"
    by (intro exI [of _ "i\<lparr>i_parent := Some p\<rparr>"]) (simp add: i_def)
qed


lemma termOf_insts: "termOf F p = (if instsOf F p = [] then None else Some (i_body (last (instsOf F p))))"
  by (simp add: termOf_def)

lemma view_clearSuccs:
  "blockIds (updBlock p (\<lambda>B. B\<lparr>successors := []\<rparr>) F) = blockIds F"
  "ids (updBlock p (\<lambda>B. B\<lparr>successors := []\<rparr>) F) = ids F"
  "sset (updBlock p (\<lambda>B. B\<lparr>successors := []\<rparr>) F) q = (if q = p then {} else sset F q)"
  "pset (updBlock p (\<lambda>B. B\<lparr>successors := []\<rparr>) F) q = pset F q"
  "instsOf (updBlock p (\<lambda>B. B\<lparr>successors := []\<rparr>) F) q = instsOf F q"
  by (cases "theBlock F q"; auto simp: ids_def blockIds_upd view_defs theBlock_upd)+

lemma threadCond_view:
  assumes "p \<in> ids F" "b \<in> ids F" "bailout \<in> ids F" "b \<noteq> bailout"
    and tm: "termOf F p = Some (CondBranchInst c t f)"
    and r: "retarget b bailout (CondBranchInst c t f) = CondBranchInst c t' f'"
  shows "blockIds (threadCond b bailout p F) = blockIds F" "ids (threadCond b bailout p F) = ids F"
    "sset (threadCond b bailout p F) q = (if q = p then {t', f'} else sset F q)"
    "pset (threadCond b bailout p F) q =
       (if q = bailout then insert p (pset F q)
        else if q = b then (if t' = b \<or> f' = b then insert p (pset F q) else pset F q - {p}) else pset F q)"
    "\<exists>i. i_body i = CondBranchInst c t' f' \<and> i_parent i = i_parent (last (instsOf F p)) \<and>
       (\<forall>q. instsOf (threadCond b bailout p F) q =
         (let xs = (if q = p then butlast (instsOf F q) @ [i] else instsOf F q)
          in if q = b \<and> t' \<noteq> b \<and> f' \<noteq> b then mapPhis (removeIncoming p) xs else xs))"
proof -
  define i where "i = (last (instsOf F p))\<lparr>i_body := CondBranchInst c t' f'\<rparr>"
  have l: "instsOf F p \<noteq> []" "i_body (last (instsOf F p)) = CondBranchInst c t f"
    using tm by (auto simp: termOf_insts split: if_splits)
  define F1 where "F1 = updBlock p (updLast (\<lambda>i. i\<lparr>i_body := retarget b bailout (i_body i)\<rparr>)) F"
  have i1: "instsOf F1 q = (if q = p then butlast (instsOf F q) @ [i] else instsOf F q)" for q
    using l r by (simp add: F1_def view_updLast i_def)
  have v1: "blockIds F1 = blockIds F" "ids F1 = ids F" "sset F1 q = sset F q" "pset F1 q = pset F q" for q
    by (simp_all add: F1_def view_updLast)
  have t1: "termOf F1 p = Some (CondBranchInst c t' f')" by (simp add: termOf_insts i1 i_def)
  define F4 where "F4 = (let F3 = updBlock p (addSuccessor t') (updBlock p (\<lambda>B. B\<lparr>successors := []\<rparr>) F1)
    in if t' \<noteq> f' then updBlock p (addSuccessor f') F3 else F3)"
  have v4: "blockIds F4 = blockIds F" "ids F4 = ids F" "sset F4 q = (if q = p then {t', f'} else sset F q)"
    "pset F4 q = pset F q" "instsOf F4 q = instsOf F1 q" for q
    using assms(1) by (auto simp: F4_def Let_def view_clearSuccs v1)
  define F6 where "F6 = (let F5 = updBlock b (removePredecessor p) F4
    in if t' = b \<or> f' = b then updBlock b (addPredecessor p) F5
       else updBlock b (setInsts (mapPhis (removeIncoming p))) F5)"
  have v6: "blockIds F6 = blockIds F" "ids F6 = ids F" "sset F6 q = (if q = p then {t', f'} else sset F q)"
    "pset F6 q = (if q = b then (if t' = b \<or> f' = b then insert p (pset F q) else pset F q - {p}) else pset F q)"
    "instsOf F6 q = (if q = b \<and> t' \<noteq> b \<and> f' \<noteq> b then mapPhis (removeIncoming p) (instsOf F1 q) else instsOf F1 q)" for q
    using assms(2) by (auto simp: F6_def Let_def v4 instsOf_setInsts)
  have G: "threadCond b bailout p F =
      (if p \<in> pset F6 bailout then F6 else updBlock bailout (addPredecessor p) F6)"
    using t1 by (simp add: threadCond_def F1_def [symmetric] Let_def F4_def F6_def pset_def)
  show "blockIds (threadCond b bailout p F) = blockIds F" "ids (threadCond b bailout p F) = ids F"
    "sset (threadCond b bailout p F) q = (if q = p then {t', f'} else sset F q)"
    "pset (threadCond b bailout p F) q =
       (if q = bailout then insert p (pset F q)
        else if q = b then (if t' = b \<or> f' = b then insert p (pset F q) else pset F q - {p}) else pset F q)"
    using assms(3,4) by (auto simp: G v6)
  have "instsOf (threadCond b bailout p F) q = instsOf F6 q" for q by (simp add: G)
  then show "\<exists>i. i_body i = CondBranchInst c t' f' \<and> i_parent i = i_parent (last (instsOf F p)) \<and>
       (\<forall>q. instsOf (threadCond b bailout p F) q =
         (let xs = (if q = p then butlast (instsOf F q) @ [i] else instsOf F q)
          in if q = b \<and> t' \<noteq> b \<and> f' \<noteq> b then mapPhis (removeIncoming p) xs else xs))"
    by (intro exI [of _ i]) (simp add: v6 i1 Let_def, simp add: i_def)
qed

lemma tidy_insts: "tidy F \<longleftrightarrow> (\<forall>q. \<forall>i \<in> set (butlast (instsOf F q)). targets (i_body i) = [])"
  by (auto simp: tidy_def shape_def sig_def map_butlast [symmetric])

text \<open>
  What both give: \<open>p\<close> has the new terminator \<open>i\<close>, and the edges and phis follow it.
\<close>

lemma thread_keeps:
  assumes ok: "threadOk F" and p: "p \<in> ids F" "b \<in> tset F p" and b: "bailout \<in> ids F" "b \<noteq> bailout"
    and nophi: "\<not> hasPhis F bailout"
    and i: "\<not> isPhi i" "i_parent i = Some p" "set (targets (i_body i)) \<subseteq> insert bailout (tset F p)"
      "bailout \<in> set (targets (i_body i))" "tset F p - {b} \<subseteq> set (targets (i_body i))"
    and v: "blockIds G = blockIds F" "\<And>q. sset G q = (if q = p then set (targets (i_body i)) else sset F q)"
      "\<And>q. pset G q = (if q = bailout then insert p (pset F q)
         else if q = b \<and> b \<notin> set (targets (i_body i)) then pset F q - {p} else pset F q)"
      "\<And>q. instsOf G q =
         (let xs = (if q = p then butlast (instsOf F q) @ [i] else instsOf F q)
          in if q = b \<and> b \<notin> set (targets (i_body i)) then mapPhis (removeIncoming p) xs else xs)"
  shows "threadOk G \<and> blockIds G = blockIds F"
proof -
  have c: "cfgExact F" "blocksOk F" using ok by (simp_all add: threadOk_def)
  have id: "ids G = ids F" using v(1) by (simp add: ids_def)
  have lm: "targets (i_body (last (mapPhis f xs))) = targets (i_body (last xs))" if "xs \<noteq> []" for f xs
    using last_mapPhis that by blast
  have t: "tset G q = (if q = p then set (targets (i_body i)) else tset F q)" for q
    unfolding tset_insts [of G] v(4) Let_def by (auto simp: lm tset_insts)
  have bm: "set (map (\<lambda>i. targets (i_body i)) (butlast (mapPhis f xs))) = set (map (\<lambda>i. targets (i_body i)) (butlast xs))" for f xs
  proof -
    have "map (\<lambda>i. targets (i_body i)) (mapPhis f xs) = map (\<lambda>i. targets (i_body i)) xs"
      by (induction xs) auto
    then show ?thesis by (simp only: map_butlast)
  qed
  have td: "tidy G" unfolding tidy_insts
  proof (intro allI ballI)
    fix q j assume j: "j \<in> set (butlast (instsOf G q))"
    define xs where "xs = (if q = p then butlast (instsOf F q) @ [i] else instsOf F q)"
    have "targets (i_body j) \<in> set (map (\<lambda>i. targets (i_body i)) (butlast xs))"
      using imageI [OF j, of "\<lambda>i. targets (i_body i)"] bm [of "removeIncoming p" xs]
      unfolding v(4) Let_def xs_def [symmetric] by (auto split: if_splits)
    then show "targets (i_body j) = []"
      using c(1) by (auto simp: cfgExact_def tidy_insts xs_def split: if_splits)
  qed
  have old: "pset F q = {r \<in> ids F. q \<in> tset F r}" "sset F q = tset F q" if "q \<in> ids F" for q
    using c(1) that by (simp_all add: cfgExact_def)
  have ti: "set (targets (i_body i)) \<subseteq> ids F" using c(1) p b(1) i(3) by (auto simp: cfgExact_def closed_def)
  have "cfgExact G"
    unfolding cfgExact_def closed_def v(1) id
    using c(1) td p b i old ti by (auto simp: cfgExact_def closed_def t v(2,3))
  moreover have "blocksOk G"
    unfolding blocksOk_def id
  proof (intro ballI)
    fix q assume q: "q \<in> ids F"
    let ?d = "q = b \<and> b \<notin> set (targets (i_body i))"
    have o: "phisFirst (instsOf F q)" "incomingBlocks (instsOf F q) \<subseteq> pset F q"
      "\<forall>i \<in> set (instsOf F q). i_parent i = Some q" using c(2) q by (auto simp: blocksOk_def)
    have n: "phisFirst (instsOf G q) \<and> (\<forall>j \<in> set (instsOf G q). i_parent j = Some q) \<and>
        incomingBlocks (instsOf G q) \<subseteq> (if ?d then incomingBlocks (instsOf F q) - {p} else incomingBlocks (instsOf F q))"
      by (rule newInsts_ok [OF o(1,3), of "i\<lparr>i_parent := Some q\<rparr>" _ "q = p"])
         (use i in \<open>auto simp: v(4) Let_def isPhi_def\<close>)
    have "incomingBlocks (instsOf F bailout) = {}"
      using nophi c(2) b(1) incomingBlocks_none phisFirst_noPhi by (auto simp: hasPhis_def blocksOk_def)
    then have "incomingBlocks (instsOf G q) \<subseteq> pset G q"
      using n o(2) by (auto simp: v(3) split: if_splits)
    with n show "phisFirst (instsOf G q) \<and> incomingBlocks (instsOf G q) \<subseteq> pset G q \<and>
        (\<forall>i \<in> set (instsOf G q). i_parent i = Some q)" by blast
  qed
  ultimately show ?thesis using v(1) by (simp add: threadOk_def)
qed


lemma threadBranch_ok:
  assumes ok: "threadOk F" and p: "p \<in> pset F b" "b \<in> ids F" and b: "bailout \<in> ids F" "b \<noteq> bailout" "p \<noteq> b"
    and nophi: "\<not> hasPhis F bailout" and tm: "termOf F p = Some (BranchInst t)"
  shows "threadOk (threadBranch b bailout p F) \<and> blockIds (threadBranch b bailout p F) = blockIds F"
proof -
  have c: "p \<in> ids F" "tset F p = {b}" "sset F p = {b}"
    using ok p tm by (auto simp: threadOk_def cfgExact_def tset_def)
  note v = threadBranch_view [OF c(1) p(2) b]
  obtain i where i: "i_body i = BranchInst bailout" "i_parent i = Some p"
    and I: "\<And>q. instsOf (threadBranch b bailout p F) q =
         (if q = b then mapPhis (removeIncoming p) (instsOf F q)
          else if q = p then butlast (instsOf F q) @ [i] else instsOf F q)" using v(5) by blast
  show ?thesis
    by (rule thread_keeps [OF ok c(1) _ b(1,2) nophi _ i(2)])
       (use b c i v(1,3,4) I in \<open>auto simp: isPhi_def Let_def\<close>)
qed

lemma threadCond_ok:
  assumes ok: "threadOk F" and p: "p \<in> pset F b" "b \<in> ids F" and b: "bailout \<in> ids F" "b \<noteq> bailout"
    and nophi: "\<not> hasPhis F bailout" and tm: "termOf F p = Some (CondBranchInst c t f)"
  shows "threadOk (threadCond b bailout p F) \<and> blockIds (threadCond b bailout p F) = blockIds F"
proof -
  have c: "p \<in> ids F" "tset F p = {t, f}" "b = t \<or> b = f"
    using ok p tm by (auto simp: threadOk_def cfgExact_def tset_def)
  obtain t' f' where r: "retarget b bailout (CondBranchInst c t f) = CondBranchInst c t' f'"
    by (cases "t = b"; cases "f = b"; auto)
  note v = threadCond_view [OF c(1) p(2) b tm r]
  have l: "instsOf F p \<noteq> []" using tm by (auto simp: termOf_insts split: if_splits)
  obtain i where i: "i_body i = CondBranchInst c t' f'" "i_parent i = i_parent (last (instsOf F p))"
    and I: "\<And>q. instsOf (threadCond b bailout p F) q =
         (let xs = (if q = p then butlast (instsOf F q) @ [i] else instsOf F q)
          in if q = b \<and> t' \<noteq> b \<and> f' \<noteq> b then mapPhis (removeIncoming p) xs else xs)" using v(5) by blast
  have ip: "i_parent i = Some p" using i(2) l ok c(1) by (auto simp: threadOk_def blocksOk_def)
  have tf: "{t', f'} \<subseteq> {bailout, t, f}" "bailout \<in> {t', f'}" "{t, f} - {b} \<subseteq> {t', f'}"
    using r c(3) by (auto split: if_splits)
  have pb: "insert p (pset F b) = pset F b" using p(1) by blast
  show ?thesis
    by (rule thread_keeps [OF ok c(1) _ b(1,2) nophi _ ip])
       (use b c i(1) v(1,3,4) I tf pb in \<open>auto simp: isPhi_def Let_def\<close>)
qed

lemma instOf_parent:
  assumes "threadOk F" "instOf F n = Some i"
  shows "\<exists>q \<in> ids F. i \<in> set (instsOf F q) \<and> i_parent i = Some q"
proof -
  obtain B where B: "B \<in> set (blocks F)" "i \<in> set (instructions B)"
    using assms(2) by (auto simp: instOf_def funcInsts_def find_Some_iff in_set_conv_nth [symmetric] dest!: nth_mem)
  have "distinct (map b_id (blocks F))" using assms(1) by (simp add: threadOk_def cfgExact_def closed_def blockIds_def)
  then have "theBlock F (b_id B) = Some B"
    using B(1) unfolding theBlock_def by (rule find_unique)
  then have "instsOf F (b_id B) = instructions B" by (simp add: instsOf_def)
  moreover have "b_id B \<in> ids F" using B(1) by (simp add: ids_def blockIds_def)
  ultimately show ?thesis using B(2) assms(1) by (auto simp: threadOk_def blocksOk_def)
qed

lemma nullTest_Some:
  assumes ok: "threadOk F" and nt: "nullTest cs F b = Some (inc, bailout)"
  shows "b \<in> ids F \<and> bailout \<in> ids F \<and> snd ` set inc \<subseteq> pset F b \<and> hasPhis F b \<and>
    (\<exists>c t. termOf F b = Some (CondBranchInst c t bailout))"
proof -
  obtain n t m i where tm: "termOf F b = Some (CondBranchInst (VInst n) t bailout)"
    and i: "instOf F m = Some i" "i_body i = PhiInst inc" "i_parent i = Some b"
    using nt unfolding nullTest_def
    by (auto split: option.splits inst_body.splits mvalue.splits CmpPred.splits if_splits)
  obtain q where q: "q \<in> ids F" "i \<in> set (instsOf F q)" "i_parent i = Some q" using instOf_parent [OF ok i(1)] by blast
  then have b: "b \<in> ids F" "i \<in> set (instsOf F b)" using i(3) by auto
  have "isPhi i" using i(2) by (simp add: isPhi_def)
  then have "hasPhis F b"
    using phisFirst_noPhi [of "instsOf F b"] ok b by (auto simp: hasPhis_def threadOk_def blocksOk_def)
  moreover have "snd ` set inc \<subseteq> incomingBlocks (instsOf F b)"
    using b(2) i(2) by (force simp: incomingBlocks_def incoming_def)
  moreover have "bailout \<in> tset F b" using tm by (simp add: tset_def)
  moreover have "tset F b \<subseteq> ids F" using ok b(1) by (simp add: threadOk_def cfgExact_def closed_def)
  moreover have "incomingBlocks (instsOf F b) \<subseteq> pset F b" using ok b(1) by (simp add: threadOk_def blocksOk_def)
  ultimately show ?thesis using b(1) tm by (simp only: simp_thms) blast
qed

lemma threadIncoming_ok:
  assumes "threadOk F" "b \<in> ids F" "bailout \<in> ids F" "hasPhis F b" "termOf F b = Some (CondBranchInst c t bailout)"
  shows "snd ` set inc \<subseteq> pset F b \<Longrightarrow>
    threadOk (snd (threadIncoming cs b bailout inc (changed, F))) \<and>
    blockIds (snd (threadIncoming cs b bailout inc (changed, F))) = blockIds F"
proof (induction inc)
  case (Cons x inc)
  obtain v p where x: "x = (v, p)" by force
  have p: "p \<in> pset F b" using Cons.prems x by auto
  have "b \<noteq> bailout" if "\<not> hasPhis F bailout" using that assms(4) by blast
  moreover have "p \<noteq> b" if "termOf F p = Some (BranchInst y)" for y using assms(5) that by auto
  ultimately show ?case
    using Cons assms x threadBranch_ok [OF assms(1) p assms(2,3)] threadCond_ok [OF assms(1) p assms(2,3)]
    by (auto split: option.splits inst_body.splits)
qed (use assms in simp)

lemma threadBlock_ok:
  assumes "threadOk (snd st)"
  shows "threadOk (snd (threadBlock cs b st)) \<and> blockIds (snd (threadBlock cs b st)) = blockIds (snd st)"
proof (cases "nullTest cs (snd st) b")
  case (Some r)
  obtain inc bailout where r: "r = (inc, bailout)" by force
  obtain changed F where st: "st = (changed, F)" by force
  note n = nullTest_Some [OF assms Some [unfolded r]]
  then show ?thesis using Some r st assms threadIncoming_ok [of F b bailout] by (auto simp: threadBlock_def)
qed (use assms in \<open>simp add: threadBlock_def\<close>)

lemma threadFunction_ok:
  assumes "threadOk F"
  shows "threadOk (snd (threadFunction cs F)) \<and> blockIds (snd (threadFunction cs F)) = blockIds F"
proof -
  have "threadOk (snd st) \<Longrightarrow> threadOk (snd (fold (threadBlock cs) bs st)) \<and>
    blockIds (snd (fold (threadBlock cs) bs st)) = blockIds (snd st)" for bs st
    by (induction bs arbitrary: st) (auto simp: threadBlock_ok)
  from this [of "(False, F)"] show ?thesis using assms by (simp add: threadFunction_def)
qed


subsection \<open>An example\<close>

text \<open>
  Block 2 joins null from block 1 and an argument from block 0, computes a sum and tests the phi;
  block 4, where it goes on null, returns the sum.
\<close>

definition guarded :: mfunc where
  "guarded = heal (exFunc
     [exBlock 0 [CondBranchInst (VArg 0) 1 2], exBlock 1 [BranchInst 2],
      exBlock 2 [PhiInst [(VConst 0, 1), (VArg 1, 0)], BinaryInst Op_Add (VArg 1) (VArg 1),
                 CompareInst NE (VInst 200) (VConst 0), CondBranchInst (VInst 202) 3 4],
      exBlock 3 [ReturnInst None], exBlock 4 [ReturnInst (Some (VInst 201))]])"

definition nullConsts :: "mconst list" where
  "nullConsts = [\<lparr>c_type = None, c_body = ConstantNull\<rparr>]"

definition blocksOkCode :: "mfunc \<Rightarrow> bool" where
  "blocksOkCode F \<longleftrightarrow> list_all (\<lambda>q. phisFirst (instsOf F q) \<and>
     list_all (\<lambda>i. list_all (\<lambda>(v, p). p \<in> set (predsOf F q)) (incoming i) \<and> i_parent i = Some q) (instsOf F q)) (blockIds F)"

lemma blocksOk_code: "blocksOkCode F \<Longrightarrow> blocksOk F"
  by (fastforce simp: blocksOkCode_def blocksOk_def ids_def list_all_iff incomingBlocks_def pset_def)

lemma guarded_ok: "threadOk guarded"
proof -
  have "blocksOkCode guarded" by code_simp
  moreover have "cfgExact guarded"
    unfolding guarded_def by (rule heal_cfgExact) (code_simp, rule tidy_blocks, code_simp)
  ultimately show ?thesis using blocksOk_code by (simp add: threadOk_def)
qed

lemma guarded_run:
  "(case analyze (keysOf guarded) (mkDominance guarded) of None \<Rightarrow> False | Some D \<Rightarrow> verifySSA D)"
  "(case analyze (keysOf guarded) (mkDominance (snd (threadFunction nullConsts guarded))) of
      None \<Rightarrow> False | Some D \<Rightarrow> \<not> verifySSA D \<and> \<not> dominates D 2 4)"
  "tset guarded 1 = {2}" "tset (snd (threadFunction nullConsts guarded)) 1 = {4}"
  by code_simp+




end
