(* ===== verification/EscapeAnalysis.thy ===== *)
theory EscapeAnalysis
  imports ConstantFolding
begin

text \<open>
  Escape analysis (\<open>lib/middle/mir/passes/EscapeAnalysisPass.cpp\<close>): heap allocations that do not
  leave the function become stack slots.

  The def-use map is computed once, as the list of its pairs of a value and a user in the order they are
  pushed; users are looked up in the function as it is when the code looks at them, and \<open>None\<close> stands
  for a user that has been erased, a null parent or a null type.  \<open>next\<close> is the number the next new
  instruction gets.
\<close>

subsection \<open>Names and types of values\<close>

definition valueName :: "mmodule \<Rightarrow> mfunc \<Rightarrow> mvalue \<Rightarrow> string" where
  "valueName M F v =
     (case v of
        VFunc n \<Rightarrow> if n < length (m_functions M) then f_name (m_functions M ! n) else []
      | VInst n \<Rightarrow> (case instOf F n of Some i \<Rightarrow> i_name i | None \<Rightarrow> [])
      | VGlobal n \<Rightarrow> (case List.find (\<lambda>g. g_id g = n) (m_globals M) of Some g \<Rightarrow> g_name g | None \<Rightarrow> [])
      | VArg n \<Rightarrow> (case List.find (\<lambda>a. a_id a = n) (f_args F) of Some a \<Rightarrow> a_name a | None \<Rightarrow> [])
      | VBlock n \<Rightarrow> (case theBlock F n of Some b \<Rightarrow> b_name b | None \<Rightarrow> [])
      | VConst n \<Rightarrow> [])"

definition typeAt :: "HIRType list \<Rightarrow> hirty option \<Rightarrow> HIRType option" where
  "typeAt H t = (case t of Some (TyOther n) \<Rightarrow> if n < length H then Some (H ! n) else None | _ \<Rightarrow> None)"

definition typeText :: "HIRType list \<Rightarrow> hirty option \<Rightarrow> string option" where
  "typeText H t =
     (case t of
        None \<Rightarrow> None
      | Some TyVoid \<Rightarrow> Some ''void''
      | Some (TyOther n) \<Rightarrow> if n < length H then toString H n else None)"

text \<open>\<open>std::string::find(p) != npos\<close>.\<close>

fun contains :: "string \<Rightarrow> string \<Rightarrow> bool" where
  "contains p [] \<longleftrightarrow> p = []"
| "contains p (c # s) \<longleftrightarrow> take (length p) (c # s) = p \<or> contains p s"

subsection \<open>The def-use map\<close>

fun defUseKeys :: "inst_body \<Rightarrow> mvalue list" where
  "defUseKeys (StoreInst v p al vol) = [v, p]"
| "defUseKeys (LoadInst p al vol) = [p]"
| "defUseKeys (GetElementPtrInst p idxs) = [p]"
| "defUseKeys (CastInst op v off) = [v]"
| "defUseKeys (InsertValueInst a v i) = [a, v]"
| "defUseKeys (ExtractValueInst a i) = [a]"
| "defUseKeys (CallInst c as va) = as"
| "defUseKeys (InvokeInst c as n u) = as"
| "defUseKeys (ThrowInst e u) = [e]"
| "defUseKeys (ResumeInst e) = (case e of None \<Rightarrow> [] | Some v \<Rightarrow> [v])"
| "defUseKeys (InlineAsmInst s c as vol) = as"
| "defUseKeys (StoreWeakInst v p) = [v, p]"
| "defUseKeys (ARCInst op ob df) = [ob]"
| "defUseKeys (ReturnInst v) = (case v of None \<Rightarrow> [] | Some w \<Rightarrow> [w])"
| "defUseKeys (MakeClosureInst f cs) = f # cs"
| "defUseKeys (SpawnInst c k) = [c]"
| "defUseKeys _ = []"

type_synonym defUse = "(mvalue \<times> nat) list"

definition buildDefUse :: "mfunc \<Rightarrow> defUse" where
  "buildDefUse F = concat (map (\<lambda>i. map (\<lambda>v. (v, i_id i)) (defUseKeys (i_body i))) (funcInsts F))"

definition usersOf :: "defUse \<Rightarrow> mvalue \<Rightarrow> nat list" where
  "usersOf D v = map snd (filter (\<lambda>(w, n). w = v) D)"

text \<open>Calls of the allocator, arrays aside.\<close>

definition isArrayAlloc :: "mconst list \<Rightarrow> mvalue list \<Rightarrow> bool" where
  "isArrayAlloc cs as = (1 < length as \<and> map_option c_body (constOf cs (as ! 1)) = Some (ConstantInt 3))"

definition isAllocation :: "mmodule \<Rightarrow> mfunc \<Rightarrow> inst \<Rightarrow> bool" where
  "isAllocation M F i =
     (case i_body i of
        CallInst c as va \<Rightarrow> valueName M F c = ''__moksha_alloc'' \<and> \<not> isArrayAlloc (m_constants M) as
      | _ \<Rightarrow> False)"

definition allocations :: "mmodule \<Rightarrow> mfunc \<Rightarrow> nat list" where
  "allocations M F = map i_id (filter (isAllocation M F) (funcInsts F))"

subsection \<open>Escaping\<close>

datatype use_effect = Escapes | Aliases | Harmless

definition safeCallee :: "string \<Rightarrow> bool" where
  "safeCallee n \<longleftrightarrow> n = ''__moksha_alloc'' \<or> n = ''__moksha_free''"

definition useEffect :: "mmodule \<Rightarrow> mfunc \<Rightarrow> mvalue \<Rightarrow> inst \<Rightarrow> use_effect" where
  "useEffect M F cur i =
     (case i_body i of
        StoreInst v p al vol \<Rightarrow> if v = cur then Escapes else Harmless
      | CallInst c as va \<Rightarrow> if safeCallee (valueName M F c) then Harmless else Escapes
      | InvokeInst c as n u \<Rightarrow> if safeCallee (valueName M F c) then Harmless else Escapes
      | GetElementPtrInst p idxs \<Rightarrow> Aliases
      | CastInst op v off \<Rightarrow> Aliases
      | ExtractValueInst a idx \<Rightarrow> if idx = 0 then Aliases else Harmless
      | InsertValueInst a v idx \<Rightarrow> Aliases
      | MakeClosureInst f cs \<Rightarrow> Aliases
      | _ \<Rightarrow> Escapes)"

text \<open>The loop over the users of a value: \<open>None\<close> for \<open>return true\<close>, otherwise what is pushed.\<close>

fun scanUsers :: "mmodule \<Rightarrow> mfunc \<Rightarrow> mvalue \<Rightarrow> inst list \<Rightarrow> mvalue list option" where
  "scanUsers M F cur [] = Some []"
| "scanUsers M F cur (i # us) =
     (case useEffect M F cur i of
        Escapes \<Rightarrow> None
      | Aliases \<Rightarrow> map_option (Cons (VInst (i_id i))) (scanUsers M F cur us)
      | Harmless \<Rightarrow> scanUsers M F cur us)"

definition lookUsers :: "mfunc \<Rightarrow> nat list \<Rightarrow> inst list option" where
  "lookUsers F us = those (map (instOf F) us)"

lemma scanUsers_pushed:
  "scanUsers M F v us = Some ps \<Longrightarrow> set ps = (\<lambda>i. VInst (i_id i)) ` {i \<in> set us. useEffect M F v i = Aliases}"
  by (induction us arbitrary: ps) (auto split: use_effect.splits)

lemma instOf_id: "instOf F n = Some i \<Longrightarrow> i_id i = n"
  by (auto simp: instOf_def find_Some_iff)

lemma those_map: "those (map f xs) = Some ys \<Longrightarrow> \<forall>y\<in>set ys. \<exists>x\<in>set xs. f x = Some y"
  by (induction xs arbitrary: ys) (fastforce split: option.splits)+

lemma lookUsers_ids: "lookUsers F us = Some js \<Longrightarrow> i \<in> set js \<Longrightarrow> i_id i \<in> set us"
  by (fastforce simp: lookUsers_def dest!: those_map dest: instOf_id)

function escapeLoop :: "mmodule \<Rightarrow> mfunc \<Rightarrow> defUse \<Rightarrow> mvalue list \<Rightarrow> mvalue list \<Rightarrow> bool option" where
  "escapeLoop M F D work visited =
     (if work = [] then Some False
      else let cur = last work in
        if cur \<in> set visited then escapeLoop M F D (butlast work) visited
        else case lookUsers F (usersOf D cur) of
          None \<Rightarrow> None
        | Some us \<Rightarrow>
            (case scanUsers M F cur us of
               None \<Rightarrow> Some True
             | Some ps \<Rightarrow> escapeLoop M F D (butlast work @ ps) (cur # visited)))"
  by pat_completeness auto

definition pushable :: "defUse \<Rightarrow> mvalue set" where
  "pushable D = (\<lambda>(v, n). VInst n) ` set D"

lemma pushed_pushable:
  "lookUsers F (usersOf D v) = Some us \<Longrightarrow> scanUsers M F v us = Some ps \<Longrightarrow> set ps \<subseteq> pushable D"
  by (fastforce simp: scanUsers_pushed pushable_def usersOf_def dest: lookUsers_ids)

lemma last_butlast_set: "xs \<noteq> [] \<Longrightarrow> set xs = insert (last xs) (set (butlast xs))"
  by (cases xs rule: rev_cases) auto

termination escapeLoop
proof (relation "measures [\<lambda>(M, F, D, work, visited). card ((pushable D \<union> set work) - set visited), \<lambda>(M, F, D, work, visited). length work]",
       goal_cases)
  case (2 M F D work visited cur)
  have "(pushable D \<union> set (butlast work)) - set visited \<subseteq> (pushable D \<union> set work) - set visited"
    using last_butlast_set [OF 2(1)] by auto
  then have "card ((pushable D \<union> set (butlast work)) - set visited) \<le> card ((pushable D \<union> set work) - set visited)"
    by (intro card_mono) (auto simp: pushable_def)
  then show ?case using 2(1) by (auto simp: le_less)
next
  case (3 M F D work visited cur us ps)
  have "(pushable D \<union> set (butlast work @ ps)) - set (cur # visited) \<subset> (pushable D \<union> set work) - set visited"
    using pushed_pushable [OF 3(4,5)] last_butlast_set [OF 3(1)] 3(2,3) by auto
  then have "card ((pushable D \<union> set (butlast work @ ps)) - set (cur # visited)) < card ((pushable D \<union> set work) - set visited)"
    by (intro psubset_card_mono) (auto simp: pushable_def)
  then show ?case by simp
qed simp

declare escapeLoop.simps [simp del]

definition doesEscape :: "mmodule \<Rightarrow> mfunc \<Rightarrow> defUse \<Rightarrow> mvalue \<Rightarrow> bool option" where
  "doesEscape M F D v = escapeLoop M F D [v] []"

subsection \<open>Uses by reference counting\<close>

fun tracesAlias :: "inst_body \<Rightarrow> bool" where
  "tracesAlias (CastInst op v off) = True"
| "tracesAlias (GetElementPtrInst p idxs) = True"
| "tracesAlias (StoreInst v p al vol) = True"
| "tracesAlias (InsertValueInst a v i) = True"
| "tracesAlias (ExtractValueInst a i) = True"
| "tracesAlias _ = False"

function arcLoop :: "mfunc \<Rightarrow> defUse \<Rightarrow> nat list \<Rightarrow> nat list \<Rightarrow> bool option" where
  "arcLoop F D work visited =
     (if work = [] then Some False
      else let cur = last work in
        if cur \<in> set visited then arcLoop F D (butlast work) visited
        else case instOf F cur of
          None \<Rightarrow> None
        | Some i \<Rightarrow>
            (case i_body i of
               ARCInst op ob df \<Rightarrow> Some True
             | b \<Rightarrow> arcLoop F D (butlast work @ (if tracesAlias b then usersOf D (VInst cur) else [])) (cur # visited)))"
  by pat_completeness auto

lemma usersOf_sub: "set (usersOf D v) \<subseteq> snd ` set D"
  by (auto simp: usersOf_def)

termination arcLoop
proof (relation "measures [\<lambda>(F, D, work, visited). card ((snd ` set D \<union> set work) - set visited), \<lambda>(F, D, work, visited). length work]")
  show "wf (measures [\<lambda>(F, D, work, visited). card ((snd ` set (D :: defUse) \<union> set work) - set visited), \<lambda>(F :: mfunc, D, work, visited). length work])"
    by simp
next
  fix F :: mfunc and D :: defUse and work visited :: "nat list" and cur
  assume w: "work \<noteq> []" and c: "cur = last work" "cur \<in> set visited"
  have "(snd ` set D \<union> set (butlast work)) - set visited \<subseteq> (snd ` set D \<union> set work) - set visited"
    using last_butlast_set [OF w] by auto
  then have "card ((snd ` set D \<union> set (butlast work)) - set visited) \<le> card ((snd ` set D \<union> set work) - set visited)"
    by (intro card_mono) auto
  then show "((F, D, butlast work, visited), F, D, work, visited) \<in> measures [\<lambda>(F, D, work, visited). card ((snd ` set D \<union> set work) - set visited), \<lambda>(F, D, work, visited). length work]"
    using w by (auto simp: le_less)
qed (use usersOf_sub in \<open>auto intro!: psubset_card_mono simp: last_butlast_set split: if_splits\<close>)

declare arcLoop.simps [simp del]

definition hasARCUses :: "mfunc \<Rightarrow> defUse \<Rightarrow> nat \<Rightarrow> bool option" where
  "hasARCUses F D a = arcLoop F D (usersOf D (VInst a)) []"

subsection \<open>Promotion to the stack\<close>

definition isCast :: "inst \<Rightarrow> bool" where
  "isCast i = (case i_body i of CastInst op v off \<Rightarrow> True | _ \<Rightarrow> False)"

text \<open>The allocated type behind the type of the first cast, and whether it is shared.\<close>

definition slotType :: "HIRType list \<Rightarrow> hirty option \<Rightarrow> (hirty \<times> bool) option" where
  "slotType H t =
     (case typeAt H t of
        Some (PointerType pointee own bs) \<Rightarrow> map_option (\<lambda>n. (TyOther n, own = Own_Shared)) pointee
      | _ \<Rightarrow>
          (case t of None \<Rightarrow> None
           | Some ty \<Rightarrow> map_option (\<lambda>s. (ty, contains ''shared '' s)) (typeText H t)))"

definition eraseById :: "nat \<Rightarrow> mfunc \<Rightarrow> mfunc option" where
  "eraseById n F =
     (case instOf F n of
        None \<Rightarrow> None
      | Some i \<Rightarrow> map_option (\<lambda>p. updBlock p (setInsts (filter (\<lambda>j. i_id j \<noteq> n))) F) (i_parent i))"

fun eraseAllById :: "nat list \<Rightarrow> mfunc \<Rightarrow> mfunc option" where
  "eraseAllById [] F = Some F"
| "eraseAllById (n # ns) F = (case eraseById n F of None \<Rightarrow> None | Some F1 \<Rightarrow> eraseAllById ns F1)"

fun eraseCasts :: "mvalue \<Rightarrow> nat list \<Rightarrow> mfunc \<Rightarrow> mfunc option" where
  "eraseCasts v [] F = Some F"
| "eraseCasts v (n # ns) F =
     (case eraseById n (replaceAllUsesInFunction (VInst n) v F) of None \<Rightarrow> None | Some F1 \<Rightarrow> eraseCasts v ns F1)"

definition isFree :: "mmodule \<Rightarrow> mfunc \<Rightarrow> inst \<Rightarrow> bool" where
  "isFree M F i =
     (case i_body i of
        CallInst c as va \<Rightarrow> valueName M F c = ''__moksha_free''
      | InvokeInst c as n u \<Rightarrow> valueName M F c = ''__moksha_free''
      | _ \<Rightarrow> False)"

definition freeCalls :: "mmodule \<Rightarrow> mfunc \<Rightarrow> defUse \<Rightarrow> nat list \<Rightarrow> nat list option" where
  "freeCalls M F D vs =
     map_option (\<lambda>us. map i_id (filter (isFree M F) us)) (lookUsers F (concat (map (\<lambda>n. usersOf D (VInst n)) vs)))"

definition stackSlot :: "nat \<Rightarrow> inst \<Rightarrow> hirty option \<Rightarrow> hirty \<Rightarrow> nat \<Rightarrow> inst" where
  "stackSlot next alloc actualType pointee entry =
     \<lparr>i_id = next, i_type = actualType, i_name = i_name alloc @ ''.stack'', i_loc = i_loc alloc,
      i_borrow = Borrow_Mut, i_parent = Some entry, i_body = AllocaInst pointee 8\<rparr>"

definition toStack :: "mmodule \<Rightarrow> defUse \<Rightarrow> nat \<Rightarrow> nat list \<Rightarrow> inst \<Rightarrow> nat \<Rightarrow> mfunc \<Rightarrow> mfunc option" where
  "toStack M D a casts slot entry F =
     (let v = VInst (i_id slot);
          F1 = updBlock entry (setInsts (Cons slot)) F;
          F2 = fold (\<lambda>n. replaceAllUsesInFunction (VInst n) v) casts F1;
          F3 = replaceAllUsesInFunction (VInst a) v F2
      in case eraseCasts v casts F3 of
           None \<Rightarrow> None
         | Some F4 \<Rightarrow>
             (case freeCalls M F4 D (casts @ [a]) of
                None \<Rightarrow> None
              | Some fs \<Rightarrow>
                  (case eraseAllById fs F4 of None \<Rightarrow> None | Some F5 \<Rightarrow> eraseById a F5)))"

definition promoteAlloc ::
  "mmodule \<Rightarrow> HIRType list \<Rightarrow> defUse \<Rightarrow> nat \<Rightarrow> bool \<times> nat \<times> mfunc \<Rightarrow> (bool \<times> nat \<times> mfunc) option" where
  "promoteAlloc M H D a = (\<lambda>(changed, next, F).
     (case doesEscape M F D (VInst a) of
        None \<Rightarrow> None
      | Some True \<Rightarrow> Some (changed, next, F)
      | Some False \<Rightarrow>
          (case hasARCUses F D a of
             None \<Rightarrow> None
           | Some True \<Rightarrow> Some (changed, next, F)
           | Some False \<Rightarrow>
               (case (instOf F a, lookUsers F (usersOf D (VInst a)), getEntryBlock F) of
                  (Some alloc, Some us, Some entry) \<Rightarrow>
                    (case filter isCast us of
                       [] \<Rightarrow> Some (changed, next, F)
                     | c # cs \<Rightarrow>
                         (case slotType H (i_type c) of
                            None \<Rightarrow> None
                          | Some (pointee, shared) \<Rightarrow>
                              if shared then Some (changed, next, F)
                              else map_option (\<lambda>F1. (True, Suc next, F1))
                                (toStack M D a (map i_id (c # cs)) (stackSlot next alloc (i_type c) pointee entry) entry F)))
                | _ \<Rightarrow> None))))"

fun promoteAll :: "mmodule \<Rightarrow> HIRType list \<Rightarrow> defUse \<Rightarrow> nat list \<Rightarrow> bool \<times> nat \<times> mfunc \<Rightarrow> (bool \<times> nat \<times> mfunc) option" where
  "promoteAll M H D [] s = Some s"
| "promoteAll M H D (a # as) s = (case promoteAlloc M H D a s of None \<Rightarrow> None | Some s1 \<Rightarrow> promoteAll M H D as s1)"

definition escapeFunction :: "mmodule \<Rightarrow> HIRType list \<Rightarrow> nat \<Rightarrow> mfunc \<Rightarrow> (bool \<times> nat \<times> mfunc) option" where
  "escapeFunction M H next F =
     (if isDeclaration F then Some (False, next, F)
      else promoteAll M H (buildDefUse F) (allocations M F) (False, next, F))"

fun escapeFunctions ::
  "mmodule \<Rightarrow> HIRType list \<Rightarrow> mfunc list \<Rightarrow> bool \<times> nat \<Rightarrow> (bool \<times> nat \<times> mfunc list) option" where
  "escapeFunctions M H [] (changed, next) = Some (changed, next, [])"
| "escapeFunctions M H (F # Fs) (changed, next) =
     (case escapeFunction M H next F of
        None \<Rightarrow> None
      | Some (c, next1, F1) \<Rightarrow>
          map_option (\<lambda>(c2, n2, Fs2). (c2, n2, F1 # Fs2)) (escapeFunctions M H Fs (changed \<or> c, next1)))"

definition escapeModule :: "HIRType list \<Rightarrow> mmodule \<Rightarrow> (bool \<times> mmodule) option" where
  "escapeModule H M =
     map_option (\<lambda>(c, n, Fs). (c, M\<lparr>m_functions := Fs\<rparr>))
       (escapeFunctions M H (m_functions M) (False, Suc (foldl max 0 (map i_id (allInsts M)))))"

end
