(* ===== verification/EscapeProps.thy ===== *)
theory EscapeProps
  imports EscapeAnalysis DeadCodeProps
begin

text \<open>
  What the escape analysis decides: whether a value that the allocation flows into, along the def-use
  map, has an escaping use.
\<close>

definition aliasStep :: "mmodule \<Rightarrow> mfunc \<Rightarrow> defUse \<Rightarrow> mvalue \<Rightarrow> mvalue list" where
  "aliasStep M F D v =
     map (\<lambda>i. VInst (i_id i)) (filter (\<lambda>i. useEffect M F v i = Aliases) (the (lookUsers F (usersOf D v))))"

definition escapesAt :: "mmodule \<Rightarrow> mfunc \<Rightarrow> defUse \<Rightarrow> mvalue \<Rightarrow> bool" where
  "escapesAt M F D v \<longleftrightarrow> (\<exists>i\<in>set (the (lookUsers F (usersOf D v))). useEffect M F v i = Escapes)"

text \<open>All users that the map mentions are in the function.\<close>

definition usersThere :: "mfunc \<Rightarrow> defUse \<Rightarrow> bool" where
  "usersThere F D \<longleftrightarrow> (\<forall>v. lookUsers F (usersOf D v) \<noteq> None)"

lemma those_None: "those xs = None \<longleftrightarrow> None \<in> set xs"
  by (induction xs) (auto split: option.splits)

lemma instOf_there: "i \<in> set (funcInsts F) \<Longrightarrow> instOf F (i_id i) \<noteq> None"
  by (auto simp: instOf_def find_None_iff)

lemma usersThere_build: "usersThere F (buildDefUse F)"
proof -
  have "instOf F n \<noteq> None" if "n \<in> set (usersOf (buildDefUse F) v)" for n v
    using that instOf_there by (fastforce simp: usersOf_def buildDefUse_def)
  then show ?thesis by (fastforce simp: usersThere_def lookUsers_def those_None)
qed

lemma scanUsers_None: "scanUsers M F v us = None \<longleftrightarrow> (\<exists>i\<in>set us. useEffect M F v i = Escapes)"
  by (induction us) (auto split: use_effect.splits)

text \<open>
  The invariant of the loop: what is visited does not escape and its aliases are visited or to be
  visited; everything comes from the start.
\<close>

definition searched :: "mmodule \<Rightarrow> mfunc \<Rightarrow> defUse \<Rightarrow> mvalue \<Rightarrow> mvalue list \<Rightarrow> mvalue list \<Rightarrow> bool" where
  "searched M F D s work visited \<longleftrightarrow> s \<in> set visited \<union> set work \<and>
     set visited \<union> set work \<subseteq> (stepRel (aliasStep M F D))\<^sup>* `` {s} \<and>
     (\<forall>v\<in>set visited. \<not> escapesAt M F D v \<and> set (aliasStep M F D v) \<subseteq> set visited \<union> set work)"

lemma escapeLoop_exact:
  "usersThere F D \<Longrightarrow> searched M F D s work visited \<Longrightarrow>
     escapeLoop M F D work visited = Some (\<exists>v\<in>(stepRel (aliasStep M F D))\<^sup>* `` {s}. escapesAt M F D v)"
proof (induction M F D work visited rule: escapeLoop.induct)
  case (1 M F D work visited)
  show ?case
  proof (cases "work = []")
    case True
    have "v \<in> set visited" if "(s, v) \<in> (stepRel (aliasStep M F D))\<^sup>*" for v
      using that by (induction rule: rtrancl_induct) (use 1(4) True in \<open>auto simp: searched_def stepRel_def\<close>)
    then show ?thesis using True 1(4) by (subst escapeLoop.simps) (auto simp: searched_def)
  next
    case False
    note w = last_butlast_set [OF False]
    show ?thesis
    proof (cases "last work \<in> set visited")
      case True
      then have "searched M F D s (butlast work) visited" using 1(4) w by (auto simp: searched_def)
      with 1(1) [OF False refl True 1(3)] True False show ?thesis by (subst escapeLoop.simps) simp
    next
      case new: False
      obtain us where us: "lookUsers F (usersOf D (last work)) = Some us" using 1(3) by (auto simp: usersThere_def)
      have r: "last work \<in> (stepRel (aliasStep M F D))\<^sup>* `` {s}" using 1(4) w by (auto simp: searched_def)
      show ?thesis
      proof (cases "scanUsers M F (last work) us")
        case None
        then have "escapesAt M F D (last work)" using us by (simp add: escapesAt_def scanUsers_None)
        then show ?thesis using r None us new False by (subst escapeLoop.simps) auto
      next
        case (Some ps)
        then have e: "\<not> escapesAt M F D (last work)" using us scanUsers_None [of M F "last work" us] by (simp add: escapesAt_def)
        have ps: "set ps = set (aliasStep M F D (last work))" using scanUsers_pushed [OF Some] us by (auto simp: aliasStep_def)
        have "set ps \<subseteq> (stepRel (aliasStep M F D))\<^sup>* `` {s}"
          using r unfolding ps by (auto simp: stepRel_def intro: rtrancl_into_rtrancl)
        then have "searched M F D s (butlast work @ ps) (last work # visited)" using 1(4) w e ps
          by (auto simp: searched_def)
        with 1(2) [OF False refl new us Some 1(3)] us Some new False show ?thesis by (subst escapeLoop.simps) simp
      qed
    qed
  qed
qed

subsection \<open>Erased instructions\<close>

text \<open>Parent pointers are right, and an instruction number belongs to one block.\<close>

definition located :: "mfunc \<Rightarrow> bool" where
  "located F \<longleftrightarrow> (\<forall>b\<in>set (blocks F). \<forall>i\<in>set (instructions b). i_parent i = Some (b_id b)) \<and>
     (\<exists>h. \<forall>i\<in>set (funcInsts F). i_parent i = h (i_id i))"

definition instIds :: "mfunc \<Rightarrow> nat set" where
  "instIds F = i_id ` set (funcInsts F)"

lemma instOf_None: "instOf F n = None \<longleftrightarrow> n \<notin> instIds F"
  by (auto simp: instOf_def find_None_iff instIds_def)

lemma instOf_in: "instOf F n = Some i \<Longrightarrow> i \<in> set (funcInsts F) \<and> i_id i = n"
  by (auto simp: instOf_def find_Some_iff)

lemma funcInsts_replace:
  "funcInsts (replaceAllUsesInFunction x y F) = map (\<lambda>i. i\<lparr>i_body := replaceOperand x y (i_body i)\<rparr>) (funcInsts F)"
  by (simp add: funcInsts_def replaceAllUsesInFunction_def map_concat comp_def)

lemma ids_replace [simp]: "instIds (replaceAllUsesInFunction x y F) = instIds F"
  by (auto simp: instIds_def funcInsts_replace image_image)

lemma located_replace: "located F \<Longrightarrow> located (replaceAllUsesInFunction x y F)"
  unfolding located_def funcInsts_replace by (auto simp: replaceAllUsesInFunction_def)

lemma funcInsts_filter:
  "set (funcInsts (updBlock p (setInsts (filter P)) F)) =
     {i. \<exists>b\<in>set (blocks F). i \<in> set (instructions b) \<and> (b_id b = p \<longrightarrow> P i)}"
  by (auto simp: funcInsts_def updBlock_def setInsts_def split: if_splits)

lemma erase_gone:
  assumes "located F" "eraseById n F = Some G"
  shows "located G" "instIds G \<subseteq> instIds F - {n}"
proof -
  from assms(2) obtain i p where i: "instOf F n = Some i" "i_parent i = Some p"
    "G = updBlock p (setInsts (filter (\<lambda>j. i_id j \<noteq> n))) F"
    by (auto simp: eraseById_def split: option.splits)
  have sub: "set (funcInsts G) \<subseteq> set (funcInsts F)" unfolding i(3) funcInsts_filter by (auto simp: funcInsts_def)
  have "i_id j \<noteq> n" if "b \<in> set (blocks F)" "j \<in> set (instructions b)" "b_id b \<noteq> p" for j b
  proof
    assume "i_id j = n"
    moreover have "j \<in> set (funcInsts F)" using that by (auto simp: funcInsts_def)
    ultimately have "i_parent j = i_parent i" using assms(1) instOf_in [OF i(1)] by (metis located_def)
    then show False using assms(1) that i(2) by (auto simp: located_def)
  qed
  then have "\<forall>j\<in>set (funcInsts G). i_id j \<noteq> n" unfolding i(3) funcInsts_filter by blast
  then show "instIds G \<subseteq> instIds F - {n}" using sub by (auto simp: instIds_def)
  have "\<forall>b\<in>set (blocks G). \<forall>j\<in>set (instructions b). i_parent j = Some (b_id b)"
    using assms(1) unfolding i(3) by (auto simp: located_def updBlock_def setInsts_def)
  then show "located G" using assms(1) sub unfolding located_def by blast
qed

lemma eraseCasts_gone:
  "located F \<Longrightarrow> eraseCasts v ns F = Some G \<Longrightarrow> instIds G \<subseteq> instIds F - set ns"
proof (induction ns arbitrary: F)
  case (Cons n ns)
  then obtain F1 where F1: "eraseById n (replaceAllUsesInFunction (VInst n) v F) = Some F1" "eraseCasts v ns F1 = Some G"
    by (auto split: option.splits)
  note g = erase_gone [OF located_replace [OF Cons.prems(1)] F1(1)]
  from Cons.IH [OF g(1) F1(2)] g(2) show ?case by auto
qed simp

lemma located_fold: "located F \<Longrightarrow> located (fold (\<lambda>n. replaceAllUsesInFunction (VInst n) v) ns F)"
  by (induction ns arbitrary: F) (auto intro: located_replace)

lemma located_slot:
  assumes "located F" "i_parent s = Some p" "i_id s \<notin> instIds F"
  shows "located (updBlock p (setInsts (Cons s)) F)"
proof -
  let ?G = "updBlock p (setInsts (Cons s)) F"
  have sub: "set (funcInsts ?G) \<subseteq> insert s (set (funcInsts F))"
    by (auto simp: funcInsts_def updBlock_def setInsts_def split: if_splits)
  have "\<forall>b\<in>set (blocks ?G). \<forall>i\<in>set (instructions b). i_parent i = Some (b_id b)"
    using assms(1,2) by (auto simp: located_def updBlock_def setInsts_def split: if_splits)
  moreover have "i_id i \<noteq> i_id s" if "i \<in> set (funcInsts F)" for i using assms(3) that by (metis imageI instIds_def)
  moreover obtain h where "\<forall>i\<in>set (funcInsts F). i_parent i = h (i_id i)" using assms(1) by (auto simp: located_def)
  ultimately have "\<forall>i\<in>set (funcInsts ?G). i_parent i = (h(i_id s := Some p)) (i_id i)" using sub assms(2) by auto
  then show ?thesis using \<open>\<forall>b\<in>set (blocks ?G). _\<close> unfolding located_def by blast
qed

text \<open>Looking for calls of free among the users of the allocation meets the casts that are gone.\<close>

lemma toStack_faults:
  assumes "located F" "i_parent s = Some p" "i_id s \<notin> instIds F" "c \<in> set casts" "c \<in> set (usersOf D (VInst a))"
  shows "toStack M D a casts s p F = None"
proof -
  define F3 where "F3 = replaceAllUsesInFunction (VInst a) (VInst (i_id s))
    (fold (\<lambda>n. replaceAllUsesInFunction (VInst n) (VInst (i_id s))) casts (updBlock p (setInsts (Cons s)) F))"
  have "located F3" unfolding F3_def by (intro located_replace located_fold located_slot assms)
  then have "freeCalls M F4 D (casts @ [a]) = None" if "eraseCasts (VInst (i_id s)) casts F3 = Some F4" for F4
    using eraseCasts_gone [OF _ that] assms(4,5)
    by (force simp: freeCalls_def lookUsers_def those_None instOf_None [symmetric] image_iff)
  then show ?thesis unfolding toStack_def Let_def F3_def [symmetric] by (auto split: option.splits)
qed

subsection \<open>Examples\<close>

definition mkInst :: "nat \<Rightarrow> hirty option \<Rightarrow> nat \<Rightarrow> inst_body \<Rightarrow> inst" where
  "mkInst n t b x = \<lparr>i_id = n, i_type = t, i_name = [], i_loc = 0, i_borrow = Borrow_None, i_parent = Some b, i_body = x\<rparr>"

definition allocator :: mfunc where
  "allocator = mkFunction (Some (TyOther 1)) ''__moksha_alloc'' Link_External"

text \<open>
  \<open>p = alloc(); c = cast p; goto next; next: r = phi [c]; return r\<close>.
\<close>

definition returnsAlloc :: mfunc where
  "returnsAlloc = (mkFunction (Some (TyOther 1)) ''f'' Link_External)\<lparr>blocks :=
     [(mkBlock 0 ''entry'')\<lparr>instructions :=
        [mkInst 1 (Some (TyOther 1)) 0 (CallInst (VFunc 0) [] False), mkInst 2 (Some (TyOther 1)) 0 (CastInst Op_BitCast (VInst 1) 0),
         mkInst 3 None 0 (BranchInst 1)], successors := [1]\<rparr>,
      (mkBlock 1 ''next'')\<lparr>instructions :=
        [mkInst 4 (Some (TyOther 1)) 1 (PhiInst [(VInst 2, 0)]), mkInst 5 None 1 (ReturnInst (Some (VInst 4)))], predecessors := [0]\<rparr>]\<rparr>"

definition exampleTypes :: "HIRType list" where
  "exampleTypes = [HIRIntType 32 True False, PointerType (Some 0) Own_Owned BS_None]"

definition exampleModule :: mmodule where
  "exampleModule = (mkModule ''m'')\<lparr>m_functions := [allocator, returnsAlloc]\<rparr>"

subsection \<open>Properties\<close>



text \<open>
  The def-use map has no entry for phis (nor for comparisons, atomics and others), so an allocation that
  the function returns through a phi is taken not to escape.
\<close>

theorem returned_allocation_stays:
  "doesEscape exampleModule returnsAlloc (buildDefUse returnsAlloc) (VInst 1) = Some False \<and>
   map i_body (instsOf returnsAlloc 1) = [PhiInst [(VInst 2, 0)], ReturnInst (Some (VInst 4))] \<and>
   map i_body (instsOf returnsAlloc 0) = [CallInst (VFunc 0) [] False, CastInst Op_BitCast (VInst 1) 0, BranchInst 1]"
  by code_simp

text \<open>
  Moving an allocation to the stack always touches an instruction that has been erased: the casts of
  the allocation are erased before the users of the allocation, the casts among them, are searched for
  calls of free.  So the analysis either leaves the function as it is or runs into freed memory.
\<close>

theorem promotion_reads_erased_cast:
  assumes "located F" "next \<notin> instIds F" "promoteAlloc M H D a (changed, next, F) = Some s"
  shows "s = (changed, next, F)"
proof -
  have "toStack M D a (i_id c # map i_id cs) (stackSlot next alloc t pointee entry) entry F = None"
    if "lookUsers F (usersOf D (VInst a)) = Some us" "filter isCast us = c # cs" for us c cs alloc t pointee entry
  proof -
    have "c \<in> set (filter isCast us)" by (simp add: that(2))
    then have "i_id c \<in> set (usersOf D (VInst a))" by (intro lookUsers_ids [OF that(1)]) simp
    then show ?thesis using assms(1,2) by (intro toStack_faults [where c = "i_id c"]) (auto simp: stackSlot_def)
  qed
  then show ?thesis using assms(3)
    by (auto simp: promoteAlloc_def split: option.splits bool.splits list.splits if_splits)
qed

theorem promotion_reads_erased_cast_witness:
  "the (promoteAlloc exampleModule exampleTypes (buildDefUse returnsAlloc) 4 (False, 6, returnsAlloc)) = (False, 6, returnsAlloc) \<and>
   promoteAlloc exampleModule exampleTypes (buildDefUse returnsAlloc) 1 (False, 6, returnsAlloc) = None"
proof -
  have "\<forall>i\<in>set (funcInsts returnsAlloc). i_parent i = (if i_id i < 4 then Some 0 else Some 1)"
    by (simp add: funcInsts_def returnsAlloc_def mkFunction_def mkBlock_def mkInst_def)
  then have "\<exists>h. \<forall>i\<in>set (funcInsts returnsAlloc). i_parent i = h (i_id i)" by (rule exI [of _ "\<lambda>n. if n < 4 then Some 0 else Some 1"])
  then have "located returnsAlloc"
    by (simp add: located_def) (simp add: returnsAlloc_def mkFunction_def mkBlock_def mkInst_def)
  moreover have "6 \<notin> instIds returnsAlloc"
    by (simp add: instIds_def funcInsts_def returnsAlloc_def mkFunction_def mkBlock_def mkInst_def)
  moreover have "promoteAlloc exampleModule exampleTypes (buildDefUse returnsAlloc) 4 (False, 6, returnsAlloc) = Some (False, 6, returnsAlloc)"
    by code_simp
  moreover have "promoteAlloc exampleModule exampleTypes (buildDefUse returnsAlloc) 1 (False, 6, returnsAlloc) = None"
    by code_simp
  ultimately show ?thesis using promotion_reads_erased_cast by (metis option.sel)
qed

end
