(* ===== verification/DropElision.thy ===== *)
theory DropElision
  imports EscapeAnalysis
begin

text \<open>
  Drop elision (\<open>lib/middle/mir/passes/DropElisionPass.cpp\<close>): a forward analysis of the stack slots whose
  value has been moved out on every path, and the removal of the drops of such slots.

  Sets of slots are sets; a map entry that was never written is the empty set.  \<open>getBaseAlloca\<close> follows
  operands; on a chain without an end it is \<open>None\<close>, and so is the pass on a function that has one.  The
  types of the operands are well formed (\<open>typeText\<close>).
\<close>

subsection \<open>The slot behind a value\<close>

definition baseOperand :: "inst_body \<Rightarrow> mvalue option" where
  "baseOperand b =
     (case b of
        LoadInst p al vol \<Rightarrow> Some p
      | GetElementPtrInst p idxs \<Rightarrow> Some p
      | CastInst op v off \<Rightarrow> Some v
      | ExtractValueInst a i \<Rightarrow> Some a
      | _ \<Rightarrow> None)"

definition isAlloca :: "inst_body \<Rightarrow> bool" where
  "isAlloca b = (case b of AllocaInst t al \<Rightarrow> True | _ \<Rightarrow> False)"

definition bodyOf :: "mfunc \<Rightarrow> mvalue \<Rightarrow> inst_body option" where
  "bodyOf F v = (case v of VInst n \<Rightarrow> map_option i_body (instOf F n) | _ \<Rightarrow> None)"

partial_function (option) getBaseAlloca :: "mfunc \<Rightarrow> mvalue \<Rightarrow> mvalue option option" where
  "getBaseAlloca F v =
     (case bodyOf F v of
        None \<Rightarrow> Some None
      | Some b \<Rightarrow>
          if isAlloca b then Some (Some v)
          else case baseOperand b of None \<Rightarrow> Some None | Some w \<Rightarrow> getBaseAlloca F w)"

declare getBaseAlloca.simps [code]

definition chainsEnd :: "mfunc \<Rightarrow> bool" where
  "chainsEnd F = list_all (\<lambda>i. getBaseAlloca F (VInst (i_id i)) \<noteq> None) (funcInsts F)"

definition base :: "mfunc \<Rightarrow> mvalue \<Rightarrow> mvalue set" where
  "base F v = (case getBaseAlloca F v of Some (Some w) \<Rightarrow> {w} | _ \<Rightarrow> {})"

subsection \<open>Moves\<close>

definition isSharedType :: "HIRType list \<Rightarrow> hirty option \<Rightarrow> bool" where
  "isSharedType H t =
     (case typeAt H t of
        Some (PointerType pointee own bs) \<Rightarrow> own = Own_Shared
      | k \<Rightarrow>
          (case k of Some ty \<Rightarrow> getKind ty \<in> {TK_Slice, TK_Array, TK_String, TK_Map, TK_Any, TK_Promise} | None \<Rightarrow> False) \<or>
          (case typeText H t of Some s \<Rightarrow> contains ''shared '' s | None \<Rightarrow> False))"

definition loadOf :: "mfunc \<Rightarrow> mvalue \<Rightarrow> (inst \<times> mvalue) option" where
  "loadOf F v =
     (case v of
        VInst n \<Rightarrow>
          (case instOf F n of
             Some i \<Rightarrow> (case i_body i of LoadInst p al vol \<Rightarrow> Some (i, p) | _ \<Rightarrow> None)
           | None \<Rightarrow> None)
      | _ \<Rightarrow> None)"

text \<open>The slots a use of a value moves out of, by a condition on the load.\<close>

definition movedBy :: "mfunc \<Rightarrow> (inst \<Rightarrow> bool) \<Rightarrow> mvalue \<Rightarrow> mvalue set" where
  "movedBy F ok v = (case loadOf F v of Some (i, p) \<Rightarrow> if ok i then base F p else {} | None \<Rightarrow> {})"

definition storeMoves :: "HIRType list \<Rightarrow> inst \<Rightarrow> bool" where
  "storeMoves H i \<longleftrightarrow> \<not> contains ''cleanup'' (i_name i) \<and> \<not> contains ''old'' (i_name i) \<and> i_borrow i \<noteq> Borrow_View \<and>
     \<not> isSharedType H (i_type i)"

definition invokeMoves :: "HIRType list \<Rightarrow> inst \<Rightarrow> bool" where
  "invokeMoves H i \<longleftrightarrow> i_name i \<noteq> ''cleanup_val'' \<and> i_borrow i \<noteq> Borrow_View \<and> \<not> isSharedType H (i_type i)"

text \<open>
  One instruction of the analysis.  The section for calls stands inside the branch for stores, where the
  instruction is never a call.
\<close>

definition movedInst :: "HIRType list \<Rightarrow> mfunc \<Rightarrow> inst \<Rightarrow> mvalue set \<Rightarrow> mvalue set" where
  "movedInst H F i out =
     (case i_body i of
        StoreInst v p al vol \<Rightarrow> (out - base F p) \<union> movedBy F (storeMoves H) v
      | InvokeInst c as n u \<Rightarrow> out \<union> (\<Union>a\<in>set as. movedBy F (invokeMoves H) a)
      | _ \<Rightarrow> out)"

definition movedBlock :: "HIRType list \<Rightarrow> mfunc \<Rightarrow> inst list \<Rightarrow> mvalue set \<Rightarrow> mvalue set" where
  "movedBlock H F is out = fold (movedInst H F) is out"

subsection \<open>The analysis\<close>

definition predMap :: "mfunc \<Rightarrow> nat \<Rightarrow> nat list" where
  "predMap F b = concat (map (\<lambda>B. map (\<lambda>s. b_id B) (filter (\<lambda>s. s = b) (successors B))) (blocks F))"

definition meet :: "(nat \<Rightarrow> mvalue set) \<Rightarrow> nat list \<Rightarrow> mvalue set" where
  "meet out ps = (case ps of [] \<Rightarrow> {} | p # qs \<Rightarrow> foldl (\<lambda>s q. s \<inter> out q) (out p) qs)"

text \<open>The state of the loop: \<open>blockMovedIn\<close> and \<open>blockMovedOut\<close>.\<close>

type_synonym moved_state = "(nat \<Rightarrow> mvalue set) \<times> (nat \<Rightarrow> mvalue set)"

definition moveStep :: "HIRType list \<Rightarrow> mfunc \<Rightarrow> mblock \<Rightarrow> bool \<times> moved_state \<Rightarrow> bool \<times> moved_state" where
  "moveStep H F B = (\<lambda>(changed, ins, out).
     (let inSet = meet out (predMap F (b_id B));
          cur = movedBlock H F (instructions B) inSet;
          ins1 = ins(b_id B := inSet)
      in if cur \<noteq> out (b_id B) then (True, ins1, out(b_id B := cur)) else (changed, ins1, out)))"

partial_function (option) moveLoop :: "HIRType list \<Rightarrow> mfunc \<Rightarrow> moved_state \<Rightarrow> moved_state option" where
  "moveLoop H F s =
     (case fold (moveStep H F) (blocks F) (False, s) of
        (changed, s1) \<Rightarrow> if changed then moveLoop H F s1 else Some s1)"

declare moveLoop.simps [code]

definition analyzeMoves :: "HIRType list \<Rightarrow> mfunc \<Rightarrow> moved_state option" where
  "analyzeMoves H F = moveLoop H F (\<lambda>_. {}, \<lambda>_. {})"

subsection \<open>The sweep\<close>

definition isDropName :: "string \<Rightarrow> bool" where
  "isDropName n \<longleftrightarrow> n = ''__moksha_free'' \<or> contains ''.destructor_ret_void'' n \<or> contains ''.drop_ret_void'' n"

definition sweepMoves :: "mfunc \<Rightarrow> inst \<Rightarrow> mvalue set \<Rightarrow> mvalue set" where
  "sweepMoves F i moved =
     (case i_body i of
        StoreInst v p al vol \<Rightarrow>
          (moved - base F p) \<union>
          movedBy F (\<lambda>l. i_name l \<noteq> ''cleanup_val'' \<and> i_name l \<noteq> ''old_val'' \<and> i_borrow l \<noteq> Borrow_View) v
      | CallInst c as va \<Rightarrow>
          moved \<union> (\<Union>a\<in>set as. movedBy F (\<lambda>l. i_name l \<noteq> ''cleanup_val'' \<and> i_borrow l \<noteq> Borrow_View) a)
      | _ \<Rightarrow> moved)"

text \<open>The type of a slot is the type of its instruction.\<close>

definition slotShared :: "HIRType list \<Rightarrow> mfunc \<Rightarrow> mvalue \<Rightarrow> bool" where
  "slotShared H F v =
     (case v of
        VInst n \<Rightarrow>
          (case instOf F n of
             Some i \<Rightarrow>
               (case typeText H (i_type i) of
                  Some s \<Rightarrow> contains ''shared'' s \<or> contains ''Arc<'' s | None \<Rightarrow> False)
           | None \<Rightarrow> False)
      | _ \<Rightarrow> False)"

definition elides :: "mmodule \<Rightarrow> HIRType list \<Rightarrow> mfunc \<Rightarrow> inst \<Rightarrow> mvalue set \<Rightarrow> bool" where
  "elides M H F i moved =
     (case i_body i of
        InvokeInst c as n u \<Rightarrow> isDropName (valueName M F c) \<and> as \<noteq> [] \<and> base F (hd as) \<inter> moved \<noteq> {}
      | ARCInst op ob df \<Rightarrow> op = Op_Release \<and> base F ob \<inter> moved \<noteq> {}
      | CallInst c as va \<Rightarrow> isDropName (valueName M F c) \<and> as \<noteq> [] \<and>
          (\<exists>v\<in>base F (hd as). \<not> slotShared H F v \<and> v \<in> moved)
      | _ \<Rightarrow> False)"

fun sweepDrops :: "mmodule \<Rightarrow> HIRType list \<Rightarrow> mfunc \<Rightarrow> mvalue set \<Rightarrow> inst list \<Rightarrow> inst list" where
  "sweepDrops M H F moved [] = []"
| "sweepDrops M H F moved (i # is) =
     (let moved1 = sweepMoves F i moved in
      if elides M H F i moved1 then sweepDrops M H F moved1 is else i # sweepDrops M H F moved1 is)"

definition sweepBlock :: "mmodule \<Rightarrow> HIRType list \<Rightarrow> (nat \<Rightarrow> mvalue set) \<Rightarrow> nat \<Rightarrow> bool \<times> mfunc \<Rightarrow> bool \<times> mfunc" where
  "sweepBlock M H ins b = (\<lambda>(changed, F).
     (let old = instsOf F b; new = sweepDrops M H F (ins b) old
      in (changed \<or> length new < length old, updBlock b (setInsts (\<lambda>_. new)) F)))"

definition elideFunction :: "mmodule \<Rightarrow> HIRType list \<Rightarrow> mfunc \<Rightarrow> (bool \<times> mfunc) option" where
  "elideFunction M H F =
     (if isDeclaration F then Some (False, F)
      else if \<not> chainsEnd F then None
      else map_option (\<lambda>(ins, out). fold (sweepBlock M H ins) (blockIds F) (False, F)) (analyzeMoves H F))"

fun elideFunctions :: "mmodule \<Rightarrow> HIRType list \<Rightarrow> mfunc list \<Rightarrow> bool \<Rightarrow> (bool \<times> mfunc list) option" where
  "elideFunctions M H [] changed = Some (changed, [])"
| "elideFunctions M H (F # Fs) changed =
     (case elideFunction M H F of
        None \<Rightarrow> None
      | Some (c, F1) \<Rightarrow> map_option (\<lambda>(c2, Fs2). (c2, F1 # Fs2)) (elideFunctions M H Fs (changed \<or> c)))"

definition elideModule :: "HIRType list \<Rightarrow> mmodule \<Rightarrow> (bool \<times> mmodule) option" where
  "elideModule H M = map_option (\<lambda>(c, Fs). (c, M\<lparr>m_functions := Fs\<rparr>)) (elideFunctions M H (m_functions M) False)"

end
