(* ===== verification/DropProps.thy ===== *)
theory DropProps
  imports DropElision "HOL-Library.Sublist"
begin

text \<open>
  The move analysis ends and is sound: what it finds moved at the start of a block has been moved on every
  path to it.  The sweep removes nothing but drops.
\<close>

subsection \<open>Transfer functions\<close>

lemma movedInst_mono: "S \<subseteq> T \<Longrightarrow> movedInst H F i S \<subseteq> movedInst H F i T"
  by (auto simp: movedInst_def split: inst_body.splits)

lemma movedBlock_mono: "S \<subseteq> T \<Longrightarrow> movedBlock H F xs S \<subseteq> movedBlock H F xs T"
  unfolding movedBlock_def by (induction xs arbitrary: S T) (auto dest: movedInst_mono)

lemma meet_eq: "meet out ps = (if ps = [] then {} else (\<Inter>p\<in>set ps. out p))"
proof (cases ps)
  case (Cons p qs)
  have "foldl (\<lambda>s q. s \<inter> out q) A qs = A \<inter> (\<Inter>q\<in>set qs. out q)" for A by (induction qs arbitrary: A) auto
  then show ?thesis using Cons by (simp add: meet_def)
qed (simp add: meet_def)

lemma meet_mono: "(\<And>p. A p \<subseteq> B p) \<Longrightarrow> meet A ps \<subseteq> meet B ps"
  by (auto simp: meet_eq)

definition blockOut :: "HIRType list \<Rightarrow> mfunc \<Rightarrow> (nat \<Rightarrow> mvalue set) \<Rightarrow> mblock \<Rightarrow> mvalue set" where
  "blockOut H F out B = movedBlock H F (instructions B) (meet out (predMap F (b_id B)))"

lemma blockOut_mono: "(\<And>p. A p \<subseteq> B p) \<Longrightarrow> blockOut H F A b \<subseteq> blockOut H F B b"
  by (simp add: blockOut_def movedBlock_mono meet_mono)

text \<open>All slots that can be moved at all.\<close>

definition slots :: "mfunc \<Rightarrow> mvalue set" where
  "slots F = (\<Union>i\<in>set (funcInsts F). base F (case i_body i of LoadInst p al vol \<Rightarrow> p | _ \<Rightarrow> VConst 0))"

lemma finite_base [simp]: "finite (base F v)"
  by (auto simp: base_def split: option.splits)

lemma finite_slots [simp]: "finite (slots F)"
  by (simp add: slots_def)

lemma movedBy_slots: "movedBy F ok v \<subseteq> slots F"
proof (cases "loadOf F v")
  case (Some z)
  then obtain i n p al vol where i: "instOf F n = Some i" "i_body i = LoadInst p al vol" "z = (i, p)"
    by (auto simp: loadOf_def split: mvalue.splits option.splits inst_body.splits)
  then have "i \<in> set (funcInsts F)" by (auto simp: instOf_def find_Some_iff)
  then have "base F p \<subseteq> slots F" using i(2) by (force simp: slots_def)
  then show ?thesis using Some i(3) by (simp add: movedBy_def)
qed (simp add: movedBy_def)

lemma movedBlock_slots: "S \<subseteq> slots F \<Longrightarrow> movedBlock H F xs S \<subseteq> slots F"
proof (induction xs arbitrary: S)
  case (Cons i xs)
  have "movedInst H F i S \<subseteq> slots F" using Cons.prems movedBy_slots [of F]
    by (fastforce simp: movedInst_def split: inst_body.splits)
  then show ?case using Cons.IH by (simp add: movedBlock_def)
qed (simp add: movedBlock_def)

subsection \<open>One round\<close>

text \<open>Every set is below what recomputing it gives, so the sets only grow.\<close>

definition rising :: "HIRType list \<Rightarrow> mfunc \<Rightarrow> (nat \<Rightarrow> mvalue set) \<Rightarrow> bool" where
  "rising H F out \<longleftrightarrow> (\<forall>B\<in>set (blocks F). out (b_id B) \<subseteq> blockOut H F out B) \<and> (\<forall>b. out b \<subseteq> slots F)"

lemma meet_slots: "(\<And>b. out b \<subseteq> slots F) \<Longrightarrow> meet out ps \<subseteq> slots F"
  by (cases ps) (auto simp: meet_eq)

lemma moveStep_out:
  "moveStep H F B (c, ins, out) =
     (c \<or> blockOut H F out B \<noteq> out (b_id B), ins(b_id B := meet out (predMap F (b_id B))), out(b_id B := blockOut H F out B))"
  by (auto simp: moveStep_def Let_def blockOut_def fun_eq_iff)

lemma rising_step:
  assumes "rising H F out" "B \<in> set (blocks F)" "distinct (blockIds F)"
  shows "rising H F (out(b_id B := blockOut H F out B))" "out b \<subseteq> (out(b_id B := blockOut H F out B)) b"
proof -
  let ?o = "out(b_id B := blockOut H F out B)"
  show le: "out b \<subseteq> ?o b" for b using assms(1,2) by (auto simp: rising_def)
  have "blockOut H F out B \<subseteq> slots F" unfolding blockOut_def
    using assms(1) by (intro movedBlock_slots meet_slots) (auto simp: rising_def)
  moreover have "?o (b_id C) \<subseteq> blockOut H F ?o C" if "C \<in> set (blocks F)" for C
  proof (cases "b_id C = b_id B")
    case True
    then have "C = B" using that assms(2,3) by (auto simp: blockIds_def distinct_map inj_on_def)
    then show ?thesis using blockOut_mono [of out ?o H F B] le by simp
  next
    case False
    then show ?thesis using assms(1) that blockOut_mono [of out ?o H F C] le
      by (fastforce simp: rising_def)
  qed
  ultimately show "rising H F ?o" using assms(1) by (auto simp: rising_def)
qed

text \<open>What is still missing to all slots, over all blocks.\<close>

definition missing :: "mfunc \<Rightarrow> (nat \<Rightarrow> mvalue set) \<Rightarrow> nat" where
  "missing F out = (\<Sum>b\<in>set (blockIds F). card (slots F - out b))"

lemma missing_le: "(\<And>b. out b \<subseteq> out' b) \<Longrightarrow> missing F out' \<le> missing F out"
  unfolding missing_def by (intro sum_mono card_mono) auto

lemma missing_less:
  assumes "\<And>b. out b \<subseteq> out' b" "b \<in> set (blockIds F)" "out b \<noteq> out' b" "out' b \<subseteq> slots F"
  shows "missing F out' < missing F out"
  unfolding missing_def
proof (rule sum_strict_mono_ex1)
  show "\<forall>c\<in>set (blockIds F). card (slots F - out' c) \<le> card (slots F - out c)"
    using assms(1) by (auto intro!: card_mono)
  have "slots F - out' b \<subset> slots F - out b" using assms by blast
  then show "\<exists>c\<in>set (blockIds F). card (slots F - out' c) < card (slots F - out c)"
    using assms(2) by (intro bexI [of _ b] psubset_card_mono) auto
qed simp

lemma round_rising:
  assumes "distinct (blockIds F)"
  shows "set Bs \<subseteq> set (blocks F) \<Longrightarrow> rising H F out \<Longrightarrow> fold (moveStep H F) Bs (c, ins, out) = (c', ins', out') \<Longrightarrow>
     rising H F out' \<and> (\<forall>b. out b \<subseteq> out' b) \<and> missing F out' \<le> missing F out \<and>
     (c' \<longrightarrow> c \<or> missing F out' < missing F out) \<and> (\<not> c' \<longrightarrow> \<not> c \<and> out' = out)"
proof (induction Bs arbitrary: c ins out)
  case (Cons B Bs)
  define o' where "o' = out(b_id B := blockOut H F out B)"
  have B: "B \<in> set (blocks F)" using Cons.prems by simp
  note r = rising_step [OF Cons.prems(2) B assms, folded o'_def]
  have f: "fold (moveStep H F) Bs (c \<or> blockOut H F out B \<noteq> out (b_id B), ins(b_id B := meet out (predMap F (b_id B))), o') =
     (c', ins', out')" using Cons.prems(3) unfolding o'_def by (simp add: moveStep_out)
  have ih: "rising H F out' \<and> (\<forall>b. o' b \<subseteq> out' b) \<and> missing F out' \<le> missing F o' \<and>
     (c' \<longrightarrow> (c \<or> blockOut H F out B \<noteq> out (b_id B)) \<or> missing F out' < missing F o') \<and>
     (\<not> c' \<longrightarrow> \<not> (c \<or> blockOut H F out B \<noteq> out (b_id B)) \<and> out' = o')"
    using Cons.prems by (intro Cons.IH [OF _ r(1) f]) simp
  have m: "missing F o' \<le> missing F out" by (rule missing_le) (rule r(2))
  have "missing F o' < missing F out" if "blockOut H F out B \<noteq> out (b_id B)"
  proof (rule missing_less [where b = "b_id B"])
    show "out (b_id B) \<noteq> o' (b_id B)" using that by (auto simp: o'_def)
  qed (use r B in \<open>auto simp: blockIds_def rising_def\<close>)
  moreover have "out b \<subseteq> out' b" for b using r(2) [of b] ih by blast
  moreover have "o' = out" if "blockOut H F out B = out (b_id B)" using that by (simp add: o'_def)
  ultimately show ?case using ih m by (metis le_trans order.strict_trans1 order.strict_trans2)
qed simp

subsection \<open>The result\<close>

text \<open>The last round changes nothing: the sets solve the equations of the analysis.\<close>

lemma round_ins:
  assumes "distinct (blockIds F)"
  shows "set Bs \<subseteq> set (blocks F) \<Longrightarrow> rising H F out \<Longrightarrow> fold (moveStep H F) Bs (c, ins, out) = (False, ins', out') \<Longrightarrow>
     B \<in> set Bs \<Longrightarrow> ins' (b_id B) = meet out (predMap F (b_id B)) \<and> out (b_id B) = blockOut H F out B"
proof (induction Bs arbitrary: c ins out)
  case (Cons C Bs)
  have C: "C \<in> set (blocks F)" using Cons.prems by simp
  note r = rising_step [OF Cons.prems(2) C assms]
  obtain c1 ins1 out1 where s: "moveStep H F C (c, ins, out) = (c1, ins1, out1)" by (metis prod_cases3)
  have o1: "out1 = out(b_id C := blockOut H F out C)" "c1 \<longleftrightarrow> c \<or> blockOut H F out C \<noteq> out (b_id C)"
    "ins1 = ins(b_id C := meet out (predMap F (b_id C)))" using s by (auto simp: moveStep_out)
  have f: "fold (moveStep H F) Bs (c1, ins1, out1) = (False, ins', out')" using Cons.prems(3) s by simp
  have sub: "set Bs \<subseteq> set (blocks F)" and r1: "rising H F out1" using Cons.prems(1) r(1) o1 by simp_all
  have "\<not> c1" using round_rising [OF assms sub r1 f] by simp
  then have eq: "out1 = out" "blockOut H F out C = out (b_id C)" using o1 by auto
  show ?case
  proof (cases "B \<in> set Bs")
    case True
    then show ?thesis using Cons.IH [OF sub r1 f] eq by simp
  next
    case False
    have keep: "D \<notin> set Bs \<Longrightarrow> b_id D \<notin> b_id ` set Bs" if "D \<in> set (blocks F)" for D
      using that sub assms by (auto simp: blockIds_def distinct_map inj_on_def)
    have "fold (moveStep H F) Cs (d, x, y) = (d', x', y') \<Longrightarrow> b \<notin> b_id ` set Cs \<Longrightarrow> x' b = x b" for Cs d x y d' x' y' b
      by (induction Cs arbitrary: d x y) (auto simp: moveStep_out)
    then have "ins' (b_id B) = ins1 (b_id B)" using f keep [of B] False Cons.prems(1,4) by (metis (no_types) subsetD)
    then show ?thesis using False Cons.prems(4) o1(3) eq by simp
  qed
qed simp

definition solves :: "HIRType list \<Rightarrow> mfunc \<Rightarrow> moved_state \<Rightarrow> bool" where
  "solves H F = (\<lambda>(ins, out). \<forall>B\<in>set (blocks F).
     ins (b_id B) = meet out (predMap F (b_id B)) \<and> out (b_id B) = movedBlock H F (instructions B) (ins (b_id B)))"

lemma moveLoop_solves:
  assumes "distinct (blockIds F)"
  shows "rising H F out \<Longrightarrow> \<exists>s. moveLoop H F (ins, out) = Some s \<and> solves H F s"
proof (induction "missing F out" arbitrary: ins out rule: less_induct)
  case less
  obtain c ins1 out1 where f: "fold (moveStep H F) (blocks F) (False, ins, out) = (c, ins1, out1)" by (metis prod_cases3)
  note r = round_rising [OF assms subset_refl less.prems f]
  show ?case
  proof (cases c)
    case True
    then obtain s where "moveLoop H F (ins1, out1) = Some s" "solves H F s" using less.hyps [of out1 ins1] r by auto
    then show ?thesis using f True by (subst moveLoop.simps) simp
  next
    case False
    then have "solves H F (ins1, out1)"
      using round_ins [OF assms subset_refl less.prems] f r by (auto simp: solves_def blockOut_def)
    then show ?thesis using f False by (subst moveLoop.simps) simp
  qed
qed

lemma analyzeMoves_solves: "distinct (blockIds F) \<Longrightarrow> \<exists>s. analyzeMoves H F = Some s \<and> solves H F s"
  unfolding analyzeMoves_def by (rule moveLoop_solves) (auto simp: rising_def)

subsection \<open>Paths\<close>

text \<open>What has been moved when control has run through the blocks of a path.\<close>

fun movedAlong :: "HIRType list \<Rightarrow> mfunc \<Rightarrow> nat list \<Rightarrow> mvalue set \<Rightarrow> mvalue set" where
  "movedAlong H F [] S = S"
| "movedAlong H F (b # bs) S = movedAlong H F bs (movedBlock H F (instsOf F b) S)"

fun route :: "mfunc \<Rightarrow> nat list \<Rightarrow> bool" where
  "route F [] \<longleftrightarrow> False"
| "route F [b] \<longleftrightarrow> b \<in> set (blockIds F)"
| "route F (b # c # bs) \<longleftrightarrow> b \<in> set (blockIds F) \<and> b \<in> set (predMap F c) \<and> route F (c # bs)"

lemma theBlock_of: "distinct (blockIds F) \<Longrightarrow> B \<in> set (blocks F) \<Longrightarrow> theBlock F (b_id B) = Some B"
  unfolding theBlock_def blockIds_def
proof -
  have "distinct (map b_id Bs) \<Longrightarrow> B \<in> set Bs \<Longrightarrow> List.find (\<lambda>b. b_id b = b_id B) Bs = Some B" for Bs
    by (induction Bs) force+
  then show "distinct (map b_id (blocks F)) \<Longrightarrow> B \<in> set (blocks F) \<Longrightarrow> List.find (\<lambda>b. b_id b = b_id B) (blocks F) = Some B" .
qed

lemma solves_path:
  assumes "solves H F (ins, out)" "distinct (blockIds F)"
  shows "route F (bs @ [b]) \<Longrightarrow> ins (hd (bs @ [b])) \<subseteq> S \<Longrightarrow> ins b \<subseteq> movedAlong H F bs S"
proof (induction bs arbitrary: S)
  case (Cons a bs)
  obtain B where B: "B \<in> set (blocks F)" "b_id B = a" using Cons.prems(1) by (cases bs) (auto simp: blockIds_def)
  then have "instsOf F a = instructions B" using theBlock_of [OF assms(2) B(1)] by (simp add: instsOf_def)
  then have "out a \<subseteq> movedBlock H F (instsOf F a) S"
    using assms(1) B Cons.prems(2) movedBlock_mono [of "ins a" S H F "instructions B"] by (fastforce simp: solves_def)
  moreover have "ins (hd (bs @ [b])) \<subseteq> out a" "route F (bs @ [b])"
  proof -
    have e: "a \<in> set (predMap F (hd (bs @ [b])))" "hd (bs @ [b]) \<in> set (blockIds F)" and r: "route F (bs @ [b])"
      using Cons.prems(1) by (cases bs; cases "tl bs"; auto)+
    show "route F (bs @ [b])" by (rule r)
    obtain C where "C \<in> set (blocks F)" "b_id C = hd (bs @ [b])" using e(2) by (auto simp: blockIds_def)
    then have "ins (hd (bs @ [b])) = meet out (predMap F (hd (bs @ [b])))" using assms(1) by (auto simp: solves_def)
    then show "ins (hd (bs @ [b])) \<subseteq> out a" using e(1) by (auto simp: meet_eq)
  qed
  ultimately show ?case using Cons.IH [of "movedBlock H F (instsOf F a) S"] by (metis movedAlong.simps(2) subset_trans)
qed simp

subsection \<open>The sweep\<close>

text \<open>Instructions the sweep may remove.\<close>

definition isDrop :: "mmodule \<Rightarrow> mfunc \<Rightarrow> inst \<Rightarrow> bool" where
  "isDrop M F i =
     (case i_body i of
        InvokeInst c as n u \<Rightarrow> isDropName (valueName M F c)
      | CallInst c as va \<Rightarrow> isDropName (valueName M F c)
      | ARCInst op ob df \<Rightarrow> op = Op_Release
      | _ \<Rightarrow> False)"

lemma elides_drop: "elides M H F i S \<Longrightarrow> isDrop M F i"
  by (auto simp: elides_def isDrop_def split: inst_body.splits)

lemma base_load: "loadOf F a = Some (l, p) \<Longrightarrow> base F a = base F p"
  by (subst base_def, subst getBaseAlloca.simps)
    (auto simp: loadOf_def bodyOf_def isAlloca_def baseOperand_def base_def split: mvalue.splits option.splits inst_body.splits)

lemma own_argument_moves:
  assumes "i_body i = CallInst c (a # as) va" "isDropName (valueName M F c)" "loadOf F a = Some (l, p)"
    "i_name l \<noteq> ''cleanup_val''" "i_borrow l \<noteq> Borrow_View" "v \<in> base F p" "\<not> slotShared H F v"
  shows "elides M H F i (sweepMoves F i S)"
proof -
  have "v \<in> sweepMoves F i S" using assms by (simp add: sweepMoves_def movedBy_def)
  then show ?thesis using assms base_load [OF assms(3)] by (auto simp: elides_def)
qed

subsection \<open>Examples\<close>

text \<open>\<open>slot = alloca; x = load slot; call C.drop(x); return\<close>, in a function with one branch before it.\<close>

definition dropInst :: "nat \<Rightarrow> string \<Rightarrow> inst_body \<Rightarrow> inst" where
  "dropInst n s x = \<lparr>i_id = n, i_type = Some (TyOther 1), i_name = s, i_loc = 0, i_borrow = Borrow_None, i_parent = Some 0, i_body = x\<rparr>"

definition callsDrop :: mfunc where
  "callsDrop = (mkFunction (Some (TyOther 1)) ''f'' Link_External)\<lparr>blocks :=
     [(mkBlock 0 ''entry'')\<lparr>instructions :=
        [dropInst 1 ''x'' (AllocaInst (TyOther 1) 0), dropInst 2 ''y'' (AllocaInst (TyOther 1) 0),
         dropInst 3 ''x.val'' (LoadInst (VInst 1) 0 False), dropInst 4 [] (StoreInst (VInst 3) (VInst 2) 0 False),
         dropInst 5 [] (BranchInst 1)], successors := [1]\<rparr>,
      (mkBlock 1 ''next'')\<lparr>instructions :=
        [dropInst 6 ''y.val'' (LoadInst (VInst 2) 0 False), dropInst 7 [] (CallInst (VFunc 0) [VInst 6] False),
         dropInst 8 [] (ReturnInst None)], predecessors := [0]\<rparr>]\<rparr>"

definition dropModule :: mmodule where
  "dropModule = (mkModule ''m'')\<lparr>m_functions := [mkFunction None ''C.drop_ret_void'' Link_External, callsDrop]\<rparr>"

definition dropTypes :: "HIRType list" where
  "dropTypes = [HIRIntType 32 True False, PointerType (Some 0) Own_Owned BS_None]"

subsection \<open>Properties\<close>



text \<open>
  C40: A call of a destructor or of a \<open>drop\<close> method is removed whatever has been moved, when its first argument
  is a plain load from a slot: the sweep takes the argument of the call itself for a move.
\<close>

theorem called_drop_removed:
  assumes "i_body i = CallInst c (a # as) va" "isDropName (valueName M F c)" "loadOf F a = Some (l, p)"
    "i_name l \<noteq> ''cleanup_val''" "i_borrow l \<noteq> Borrow_View" "v \<in> base F p" "\<not> slotShared H F v"
  shows "sweepDrops M H F moved (i # is) = sweepDrops M H F (sweepMoves F i moved) is"
  using own_argument_moves [OF assms] by (simp add: Let_def)

theorem called_drop_removed_witness:
  "sweepDrops dropModule dropTypes callsDrop {} (tl (instsOf callsDrop 1)) = [dropInst 8 [] (ReturnInst None)]"
proof -
  have "sweepDrops dropModule dropTypes callsDrop {} (dropInst 7 [] (CallInst (VFunc 0) [VInst 6] False) # [dropInst 8 [] (ReturnInst None)]) =
    sweepDrops dropModule dropTypes callsDrop (sweepMoves callsDrop (dropInst 7 [] (CallInst (VFunc 0) [VInst 6] False)) {}) [dropInst 8 [] (ReturnInst None)]"
  proof (rule called_drop_removed)
    show "i_body (dropInst 7 [] (CallInst (VFunc 0) [VInst 6] False)) = CallInst (VFunc 0) (VInst 6 # []) False"
      by (simp add: dropInst_def)
    show "isDropName (valueName dropModule callsDrop (VFunc 0))" by code_simp
    show "loadOf callsDrop (VInst 6) = Some (dropInst 6 ''y.val'' (LoadInst (VInst 2) 0 False), VInst 2)" by code_simp
    show "VInst 2 \<in> base callsDrop (VInst 2)" by code_simp
    show "\<not> slotShared dropTypes callsDrop (VInst 2)" by code_simp
  qed (simp_all add: dropInst_def)
  moreover have "tl (instsOf callsDrop 1) = [dropInst 7 [] (CallInst (VFunc 0) [VInst 6] False), dropInst 8 [] (ReturnInst None)]"
    by code_simp
  ultimately show ?thesis by (simp add: elides_def dropInst_def)
qed

end
