(* ===== verification/NLLBorrow.thy ===== *)
theory NLLBorrow
  imports EscapeAnalysis Diagnostics
begin

text \<open>
  The borrow checker (\<open>lib/middle/analysis/NLLBorrowChecker.cpp\<close>): which values are used last where,
  a forward analysis of loans, and the checks of every instruction against the loans active at it.

  The record \<open>bctx\<close> is what the checker reads: the module, its types, the function and the borrow kinds of
  all values, which the analysis of closures sets.  The pointer that holds a loan is null for a moved
  place, the marker for a lock, or a value.  Chains of operands are followed by \<open>follow\<close>; a function in
  which one has no end is not checked (\<open>operandsEnd\<close>).  Types are well formed: pointers, references and
  nullables have an inner type.

  The nesting of the sections is the one of the code: in the analysis the sections for stores, closures
  and calls stand behind \<open>else\<close> inside the branch for loads, and in the checks the sections for calls,
  closures, threads, returns and suspensions inside the branch for stores.
\<close>

subsection \<open>Values\<close>

record bctx =
  bc_mod :: mmodule
  bc_types :: "HIRType list"
  bc_fun :: mfunc
  bc_kinds :: "mvalue \<Rightarrow> BorrowKind"

definition bodyAt :: "bctx \<Rightarrow> mvalue \<Rightarrow> inst_body option" where
  "bodyAt C v = (case v of VInst n \<Rightarrow> map_option i_body (instOf (bc_fun C) n) | _ \<Rightarrow> None)"

definition valueType :: "bctx \<Rightarrow> mvalue \<Rightarrow> hirty option" where
  "valueType C v =
     (case v of
        VInst n \<Rightarrow> Option.bind (instOf (bc_fun C) n) i_type
      | VArg n \<Rightarrow> Option.bind (List.find (\<lambda>a. a_id a = n) (f_args (bc_fun C))) a_type
      | VGlobal n \<Rightarrow> Option.bind (List.find (\<lambda>g. g_id g = n) (m_globals (bc_mod C))) g_type
      | VConst n \<Rightarrow> Option.bind (constOf (m_constants (bc_mod C)) v) c_type
      | VFunc n \<Rightarrow> if n < length (m_functions (bc_mod C)) then f_ret (m_functions (bc_mod C) ! n) else None
      | VBlock n \<Rightarrow> None)"

definition kindAt :: "HIRType list \<Rightarrow> hirty option \<Rightarrow> TypeKind option" where
  "kindAt H t =
     (case t of
        None \<Rightarrow> None
      | Some TyVoid \<Rightarrow> Some TK_Void
      | Some (TyOther n) \<Rightarrow> if n < length H then Some (getKind (H ! n)) else None)"

definition innerKind :: "HIRType list \<Rightarrow> tptr \<Rightarrow> TypeKind option" where
  "innerKind H p = kindAt H (map_option TyOther p)"

abbreviation valueKind :: "bctx \<Rightarrow> mvalue \<Rightarrow> TypeKind option" where
  "valueKind C v \<equiv> kindAt (bc_types C) (valueType C v)"

abbreviation valueHIR :: "bctx \<Rightarrow> mvalue \<Rightarrow> HIRType option" where
  "valueHIR C v \<equiv> typeAt (bc_types C) (valueType C v)"

abbreviation valueText :: "bctx \<Rightarrow> mvalue \<Rightarrow> string" where
  "valueText C v \<equiv> (case typeText (bc_types C) (valueType C v) of Some s \<Rightarrow> s | None \<Rightarrow> [])"

definition isPointerType :: "bctx \<Rightarrow> mvalue \<Rightarrow> bool" where
  "isPointerType C v =
     (case valueHIR C v of
        None \<Rightarrow> False
      | Some ty \<Rightarrow>
          (let kind = getKind ty in
           if kind \<in> {TK_Any, TK_Int, TK_Float, TK_Decimal, TK_Bool} then False
           else if kind \<in> {TK_String, TK_Slice, TK_Closure, TK_Map, TK_Promise, TK_Struct} then False
           else if (case ty of
                      HIRNullableType t \<Rightarrow>
                        innerKind (bc_types C) t \<in>
                          Some ` {TK_String, TK_Slice, TK_Closure, TK_Map, TK_Promise, TK_Struct, TK_Any}
                    | _ \<Rightarrow> False) then False
           else if (case ty of PointerType p own st \<Rightarrow> own = Own_Shared \<or> own = Own_Owned | _ \<Rightarrow> False) then False
           else kind = TK_Pointer \<or> kind = TK_Reference))"

text \<open>The loops that follow one operand after the other.\<close>

partial_function (option) follow :: "('v \<Rightarrow> 'v option) \<Rightarrow> 'v \<Rightarrow> 'v option" where
  "follow next v = (case next v of None \<Rightarrow> Some v | Some w \<Rightarrow> follow next w)"

declare follow.simps [code]

definition operandStep :: "bctx \<Rightarrow> mvalue \<Rightarrow> mvalue option" where
  "operandStep C v =
     (case bodyAt C v of
        Some (CastInst op w off) \<Rightarrow> Some w
      | Some (LoadInst p al vol) \<Rightarrow> Some p
      | Some (GetElementPtrInst p idxs) \<Rightarrow> Some p
      | Some (ExtractValueInst a i) \<Rightarrow> Some a
      | _ \<Rightarrow> None)"

definition operandsEnd :: "bctx \<Rightarrow> bool" where
  "operandsEnd C = list_all (\<lambda>i. follow (operandStep C) (VInst (i_id i)) \<noteq> None) (funcInsts (bc_fun C))"

definition isExclusiveBorrow :: "bctx \<Rightarrow> mvalue \<Rightarrow> bool" where
  "isExclusiveBorrow C v =
     (case follow (\<lambda>w. if bc_kinds C w \<noteq> Borrow_None then None
                       else case bodyAt C w of Some (CastInst op x off) \<Rightarrow> Some x | _ \<Rightarrow> None) v of
        None \<Rightarrow> False
      | Some traced \<Rightarrow>
          (case bc_kinds C traced of
             Borrow_Mut \<Rightarrow> True
           | Borrow_View \<Rightarrow> False
           | Borrow_Lock \<Rightarrow> False
           | Borrow_None \<Rightarrow>
               (case valueHIR C v of
                  Some (PointerType p own st) \<Rightarrow> st = BS_Mut
                | Some (ReferenceType t own st) \<Rightarrow> st = BS_Mut
                | _ \<Rightarrow> False)))"

definition isMoveOnlyType :: "HIRType option \<Rightarrow> bool" where
  "isMoveOnlyType t =
     (case t of
        None \<Rightarrow> False
      | Some (PointerType p own st) \<Rightarrow> own = Own_Owned
      | Some ty \<Rightarrow> getKind ty = TK_Promise)"

definition isMoveType :: "bctx \<Rightarrow> mvalue \<Rightarrow> bool" where
  "isMoveType C v \<longleftrightarrow> valueType C v \<noteq> None \<and> bc_kinds C v = Borrow_None \<and> isMoveOnlyType (valueHIR C v)"

definition isAllocaAt :: "bctx \<Rightarrow> mvalue \<Rightarrow> bool" where
  "isAllocaAt C v = (case bodyAt C v of Some (AllocaInst t al) \<Rightarrow> True | _ \<Rightarrow> False)"

subsection \<open>Places and loans\<close>

record Place =
  p_base :: mvalue
  p_proj :: "64 word list"

definition conflictsWith :: "Place \<Rightarrow> Place \<Rightarrow> bool" where
  "conflictsWith a b \<longleftrightarrow> p_base a = p_base b \<and>
     (let minLen = min (length (p_proj a)) (length (p_proj b)) in take minLen (p_proj a) = take minLen (p_proj b))"

datatype loan_ptr = P_null | P_lock | P_val mvalue

record Loan =
  borrowedPlace :: Place
  l_pointer :: loan_ptr
  l_isMut :: bool

definition sameLoan :: "Loan \<Rightarrow> Loan \<Rightarrow> bool" where
  "sameLoan a b \<longleftrightarrow> p_base (borrowedPlace a) = p_base (borrowedPlace b) \<and> l_pointer a = l_pointer b"

text \<open>\<open>if (std::find(ls, l) == ls.end()) ls.push_back(l)\<close>.\<close>

definition addLoan :: "Loan \<Rightarrow> Loan list \<Rightarrow> Loan list" where
  "addLoan l ls = (if \<exists>x\<in>set ls. sameLoan x l then ls else ls @ [l])"

abbreviation mkLoan :: "Place \<Rightarrow> loan_ptr \<Rightarrow> bool \<Rightarrow> Loan" where
  "mkLoan p q m \<equiv> \<lparr>borrowedPlace = p, l_pointer = q, l_isMut = m\<rparr>"

definition loansEqual :: "Loan list \<Rightarrow> Loan list \<Rightarrow> bool" where
  "loansEqual a b \<longleftrightarrow> length a = length b \<and> (\<forall>la\<in>set a. \<exists>x\<in>set b. sameLoan x la)"

definition mergeLoans :: "Loan list \<Rightarrow> Loan list \<Rightarrow> Loan list" where
  "mergeLoans a b = fold addLoan b a"

subsection \<open>The places a value may point to\<close>

definition indexValue :: "bctx \<Rightarrow> mvalue \<Rightarrow> 64 word option" where
  "indexValue C v = (case constOf (m_constants (bc_mod C)) v of
     Some c \<Rightarrow> (case c_body c of ConstantInt k \<Rightarrow> Some k | _ \<Rightarrow> None) | None \<Rightarrow> None)"

definition getStructuralBase :: "bctx \<Rightarrow> mvalue \<Rightarrow> mvalue \<times> 64 word list" where
  "getStructuralBase C v =
     (case follow (\<lambda>(w, out).
         case bodyAt C w of
           Some (CastInst op x off) \<Rightarrow> Some (x, out)
         | Some (ExtractValueInst a i) \<Rightarrow> Some (a, out)
         | Some (GetElementPtrInst p idxs) \<Rightarrow>
             Some (p, out @ rev (map (\<lambda>x. case indexValue C x of Some k \<Rightarrow> k | None \<Rightarrow> 999999) idxs))
         | _ \<Rightarrow> None) (v, []) of
        Some (w, out) \<Rightarrow> (w, rev out)
      | None \<Rightarrow> (v, []))"

definition storedValues :: "bctx \<Rightarrow> mvalue \<Rightarrow> mvalue list" where
  "storedValues C p =
     concat (map (\<lambda>i. case i_body i of
         StoreInst v q al vol \<Rightarrow> if q = p \<or> getStructuralBase C q = getStructuralBase C p then [v] else []
       | _ \<Rightarrow> []) (funcInsts (bc_fun C)))"

text \<open>One round of the loop: what is pushed, or \<open>None\<close> if the value is a place.\<close>

definition placeStep :: "bctx \<Rightarrow> mvalue \<Rightarrow> 64 word list \<Rightarrow> (mvalue \<times> 64 word list) list option" where
  "placeStep C v proj =
     (case bodyAt C v of
        Some (CastInst op w off) \<Rightarrow>
          if isPointerType C v \<and> \<not> isPointerType C w then None else Some [(w, proj)]
      | Some (LoadInst p al vol) \<Rightarrow>
          if \<not> isPointerType C v then Some [(p, proj)]
          else if storedValues C p \<noteq> [] then Some (map (\<lambda>w. (w, proj)) (storedValues C p)) else None
      | Some (ExtractValueInst a i) \<Rightarrow> if i = 0 then Some [(a, proj)] else None
      | Some (GetElementPtrInst p idxs) \<Rightarrow> Some [(p, List.map_filter (indexValue C) idxs @ proj)]
      | Some (MakeClosureInst f caps) \<Rightarrow>
          Some (map (\<lambda>c. (c, proj)) (filter (\<lambda>c. isPointerType C c \<or> isMoveType C c) caps))
      | Some (SpawnInst c k) \<Rightarrow> Some [(c, proj)]
      | Some (PhiInst inc) \<Rightarrow> Some (map (\<lambda>x. (fst x, proj)) inc)
      | _ \<Rightarrow> None)"

definition operands :: "mfunc \<Rightarrow> mvalue list" where
  "operands F = concat (map (\<lambda>i. uses (i_body i)) (funcInsts F))"

lemma bodyAt_uses: "bodyAt C v = Some b \<Longrightarrow> set (uses b) \<subseteq> set (operands (bc_fun C))"
  by (force simp: bodyAt_def operands_def instOf_def find_Some_iff split: mvalue.splits)

lemma storedValues_operands: "set (storedValues C p) \<subseteq> set (operands (bc_fun C))"
proof
  fix w assume "w \<in> set (storedValues C p)"
  then obtain i q al vol where "i \<in> set (funcInsts (bc_fun C))" "i_body i = StoreInst w q al vol"
    by (auto simp: storedValues_def split: inst_body.splits if_splits) metis+
  then show "w \<in> set (operands (bc_fun C))" by (force simp: operands_def)
qed

lemma placeStep_operands:
  assumes "placeStep C v proj = Some ws"
  shows "fst ` set ws \<subseteq> set (operands (bc_fun C))"
proof -
  obtain b where b: "bodyAt C v = Some b" using assms by (cases "bodyAt C v") (auto simp: placeStep_def)
  define x where "x = (case b of LoadInst p al vol \<Rightarrow> p | _ \<Rightarrow> v)"
  have "fst ` set ws \<subseteq> set (uses b) \<union> set (storedValues C x)"
    using assms b by (cases b) (auto simp: placeStep_def x_def split: if_splits)
  then show ?thesis using bodyAt_uses [OF b] storedValues_operands [of C x] by blast
qed

function resolveLoop :: "bctx \<Rightarrow> (mvalue \<times> 64 word list) list \<Rightarrow> mvalue list \<Rightarrow> Place list \<Rightarrow> Place list" where
  "resolveLoop C [] visited places = places"
| "resolveLoop C ((v, proj) # work) visited places =
     (if v \<in> set visited then resolveLoop C work visited places
      else case placeStep C v proj of
        Some ws \<Rightarrow> resolveLoop C (work @ ws) (v # visited) places
      | None \<Rightarrow> resolveLoop C work (v # visited) (places @ [\<lparr>p_base = v, p_proj = proj\<rparr>]))"
  by pat_completeness auto

definition unresolved :: "bctx \<Rightarrow> (mvalue \<times> 64 word list) list \<Rightarrow> mvalue list \<Rightarrow> mvalue set" where
  "unresolved C work visited = (set (operands (bc_fun C)) \<union> fst ` set work) - set visited"

lemma finite_unresolved [simp]: "finite (unresolved C work visited)"
  by (simp add: unresolved_def)

termination resolveLoop
proof (relation "measures [\<lambda>(C, work, visited, places). card (unresolved C work visited), \<lambda>(C, work, visited, places). length work]",
       goal_cases)
  case (2 C v proj work visited places)
  have "unresolved C work visited \<subseteq> unresolved C ((v, proj) # work) visited" by (auto simp: unresolved_def)
  then have "card (unresolved C work visited) \<le> card (unresolved C ((v, proj) # work) visited)" by (intro card_mono) auto
  then show ?case by (auto simp: le_less)
next
  case (3 C v proj work visited places)
  have "unresolved C work (v # visited) \<subset> unresolved C ((v, proj) # work) visited" using 3 by (auto simp: unresolved_def)
  then show ?case by (simp add: psubset_card_mono)
next
  case (4 C v proj work visited places ws)
  have "unresolved C (work @ ws) (v # visited) \<subset> unresolved C ((v, proj) # work) visited"
    using 4(1) placeStep_operands [OF 4(2)] by (auto simp: unresolved_def)
  then show ?case by (simp add: psubset_card_mono)
qed simp

declare resolveLoop.simps [simp del]

definition resolvePlace :: "bctx \<Rightarrow> mvalue \<Rightarrow> Place list" where
  "resolvePlace C v = resolveLoop C [(v, [])] [] []"

text \<open>The places of the pointer that holds a loan; none for null and for the lock marker.\<close>

definition pointerPlaces :: "bctx \<Rightarrow> loan_ptr \<Rightarrow> Place list" where
  "pointerPlaces C q = (case q of P_val w \<Rightarrow> resolvePlace C w | _ \<Rightarrow> [])"

subsection \<open>Last uses\<close>

definition ignoredName :: "string \<Rightarrow> bool" where
  "ignoredName n \<longleftrightarrow> contains ''cleanup_val'' n \<or> contains ''heap.free.ptr'' n \<or> contains ''.drop.'' n"

definition usedBy :: "bctx \<Rightarrow> inst \<Rightarrow> mvalue list" where
  "usedBy C i =
     (if ignoredName (i_name i) then []
      else case i_body i of
        LoadInst p al vol \<Rightarrow> [p]
      | StoreInst v p al vol \<Rightarrow> [v, p]
      | GetElementPtrInst p idxs \<Rightarrow> p # idxs
      | ExtractValueInst a n \<Rightarrow> [a]
      | InsertValueInst a v n \<Rightarrow> [a, v]
      | CallInst c as va \<Rightarrow>
          (let name = valueName (bc_mod C) (bc_fun C) c in
           if name = ''__moksha_free'' \<or> contains ''.destructor_ret_void'' name then []
           else (case c of VFunc n \<Rightarrow> [] | _ \<Rightarrow> [c]) @ as)
      | ReturnInst v \<Rightarrow> (case v of None \<Rightarrow> [] | Some w \<Rightarrow> [w])
      | CondBranchInst c t f \<Rightarrow> [c]
      | PhiInst inc \<Rightarrow> map fst inc
      | BinaryInst op l r \<Rightarrow> [l, r]
      | CompareInst pr l r \<Rightarrow> [l, r]
      | CastInst op v off \<Rightarrow> [v]
      | ARCInst op ob df \<Rightarrow> if op = Op_Release then [] else [ob]
      | AwaitInst p \<Rightarrow> [p]
      | SpawnInst c k \<Rightarrow> [c]
      | MakeClosureInst f caps \<Rightarrow> caps
      | AtomicLoadInst p m \<Rightarrow> [p]
      | AtomicStoreInst v p m \<Rightarrow> [v, p]
      | AtomicRMWInst op p v m \<Rightarrow> [v, p]
      | AtomicCmpXchgInst p e d sm fm \<Rightarrow> [p, e, d]
      | _ \<Rightarrow> [])"

type_synonym last_uses = "mvalue \<Rightarrow> nat option"

definition computeLiveness :: "bctx \<Rightarrow> last_uses" where
  "computeLiveness C =
     fold (\<lambda>i m. fold (\<lambda>v m. m(v \<mapsto> i_id i)) (usedBy C i) m) (funcInsts (bc_fun C)) Map.empty"

text \<open>\<open>while (traceVal && depth++ < 10)\<close>: the use of the last use and so on, up to a kind of instruction.\<close>

fun traceConsumer :: "bctx \<Rightarrow> last_uses \<Rightarrow> (inst_body \<Rightarrow> bool) \<Rightarrow> nat \<Rightarrow> mvalue \<Rightarrow> inst option \<Rightarrow> inst option" where
  "traceConsumer C LU stops 0 v found = found"
| "traceConsumer C LU stops (Suc n) v found =
     (case Option.bind (LU v) (instOf (bc_fun C)) of
        None \<Rightarrow> found
      | Some i \<Rightarrow> if stops (i_body i) then Some i else traceConsumer C LU stops n (VInst (i_id i)) (Some i))"

fun stopsUse :: "inst_body \<Rightarrow> bool" where
  "stopsUse (StoreInst v p al vol) = True"
| "stopsUse (CallInst c as va) = True"
| "stopsUse (ReturnInst v) = True"
| "stopsUse (CompareInst pr l r) = True"
| "stopsUse (ARCInst op ob df) = (op = Op_Release)"
| "stopsUse _ = False"

fun stopsMove :: "inst_body \<Rightarrow> bool" where
  "stopsMove (ExtractValueInst a n) = True"
| "stopsMove (GetElementPtrInst p idxs) = True"
| "stopsMove b = stopsUse b"

subsection \<open>Loans of an instruction\<close>

definition castLoans :: "inst \<Rightarrow> mvalue \<Rightarrow> Loan list \<Rightarrow> Loan list" where
  "castLoans i v ls =
     fold (\<lambda>a. if l_pointer a = P_val v
               then addLoan (mkLoan (borrowedPlace a) (P_val (VInst (i_id i))) (l_isMut a)) else id) ls ls"

definition consumerMoves :: "bctx \<Rightarrow> inst_body \<Rightarrow> bool" where
  "consumerMoves C b =
     (case b of
        CompareInst pr l r \<Rightarrow> False
      | ExtractValueInst a n \<Rightarrow> False
      | GetElementPtrInst p idxs \<Rightarrow> False
      | BinaryInst op l r \<Rightarrow> False
      | CallInst c as va \<Rightarrow>
          (let name = valueName (bc_mod C) (bc_fun C) c in
           \<not> (name = ''print'' \<or> name = ''println'' \<or> take 9 name = ''__moksha_''))
      | _ \<Rightarrow> True)"

definition actualMove :: "bctx \<Rightarrow> last_uses \<Rightarrow> inst \<Rightarrow> bool" where
  "actualMove C LU i \<longleftrightarrow> isMoveType C (VInst (i_id i)) \<and>
     (case traceConsumer C LU stopsMove 10 (VInst (i_id i)) None of None \<Rightarrow> True | Some c \<Rightarrow> consumerMoves C (i_body c))"

definition isAggregateLoad :: "bctx \<Rightarrow> mvalue \<Rightarrow> bool" where
  "isAggregateLoad C v \<longleftrightarrow> bc_kinds C v = Borrow_None \<and>
     (case valueKind C v of
        None \<Rightarrow> False
      | Some k \<Rightarrow> k \<notin> {TK_Int, TK_Float, TK_Decimal, TK_Bool, TK_Pointer, TK_Reference, TK_Function})"

text \<open>Whether a loan is passed on to what is read from (or stored from) \<open>v\<close>, which may be at \<open>ps\<close>.\<close>

definition inheritsLoan :: "bctx \<Rightarrow> mvalue \<Rightarrow> Place list \<Rightarrow> Loan \<Rightarrow> bool" where
  "inheritsLoan C v ps a \<longleftrightarrow> l_pointer a = P_val v \<or>
     (\<exists>q\<in>set ps. \<exists>ap\<in>set (pointerPlaces C (l_pointer a)).
        p_base q = p_base ap \<and> take (length (p_proj q)) (p_proj ap) = p_proj q)"

definition moveLoans :: "bctx \<Rightarrow> mvalue \<Rightarrow> Loan list \<Rightarrow> Loan list" where
  "moveLoans C p ls =
     fold (\<lambda>src. if isAllocaAt C (p_base src) then addLoan (mkLoan src P_null True) else id) (resolvePlace C p) ls"

definition loadLoans :: "bctx \<Rightarrow> last_uses \<Rightarrow> inst \<Rightarrow> mvalue \<Rightarrow> Loan list \<Rightarrow> Loan list" where
  "loadLoans C LU i p ls =
     (let ld = VInst (i_id i);
          ls1 = (if actualMove C LU i then moveLoans C p ls else ls)
      in if isPointerType C ld \<or> isAggregateLoad C ld then
           (let ps = resolvePlace C p;
                ls2 = fold (\<lambda>a. if inheritsLoan C p ps a
                               then addLoan (mkLoan (borrowedPlace a) (P_val ld) (l_isMut a)) else id) ls1 ls1
            in if isPointerType C ld
               then fold (\<lambda>src. addLoan (mkLoan src (P_val ld) (isExclusiveBorrow C ld))) ps ls2 else ls2)
         else ls1)"

definition isClosureText :: "string \<Rightarrow> bool" where
  "isClosureText s \<longleftrightarrow> contains ''Env'' s \<or> contains ''Closure'' s \<or> contains ''closure'' s"

definition isClosureEnv :: "bctx \<Rightarrow> mvalue \<Rightarrow> bool" where
  "isClosureEnv C p = (case bodyAt C p of Some (GetElementPtrInst g idxs) \<Rightarrow> isClosureText (valueText C g) | _ \<Rightarrow> False)"

text \<open>Whether the base of a loan is found behind the loads and casts of the stored value.\<close>

definition rehomes :: "bctx \<Rightarrow> mvalue \<Rightarrow> mvalue \<Rightarrow> bool" where
  "rehomes C v b =
     (let hits = (\<lambda>q. \<exists>src\<in>set (resolvePlace C q). b = p_base src) in
      case follow (\<lambda>w. case bodyAt C w of
             Some (LoadInst q al vol) \<Rightarrow> if hits q then None else Some q
           | Some (CastInst op x off) \<Rightarrow> Some x
           | _ \<Rightarrow> None) v of
        Some w \<Rightarrow> (case bodyAt C w of Some (LoadInst q al vol) \<Rightarrow> hits q | _ \<Rightarrow> False)
      | None \<Rightarrow> False)"

definition storeLoans :: "bctx \<Rightarrow> mvalue \<Rightarrow> mvalue \<Rightarrow> Loan list \<Rightarrow> Loan list \<Rightarrow> Loan list" where
  "storeLoans C v p active ls =
     (let dests = resolvePlace C p;
          srcs = resolvePlace C v;
          killed = (\<lambda>l. case l_pointer l of
              P_null \<Rightarrow> (\<exists>d\<in>set dests. conflictsWith (borrowedPlace l) d)
            | P_lock \<Rightarrow> False
            | P_val w \<Rightarrow> (\<exists>d\<in>set dests. w = p_base d));
          ls1 = filter (\<lambda>l. \<not> killed l) ls
      in if isClosureEnv C p then ls1
         else
           (let ex = isExclusiveBorrow C v;
                addDest = (\<lambda>src d. if p_base d \<noteq> p then addLoan (mkLoan src (P_val (p_base d)) ex) else id);
                ls2 = (if isPointerType C v
                       then fold (\<lambda>src ls. fold (addDest src) dests (addLoan (mkLoan src (P_val p) ex) ls)) srcs ls1
                       else ls1);
                isClosure = valueKind C v \<in> Some ` {TK_Closure, TK_Function, TK_Any};
                newPlace = (\<lambda>a. let b = p_base (borrowedPlace a) in
                   if (\<exists>src\<in>set srcs. b = p_base src) \<or> rehomes C v b then (borrowedPlace a)\<lparr>p_base := p\<rparr>
                   else borrowedPlace a)
            in fold (\<lambda>a. if inheritsLoan C v srcs a
                         then addLoan (mkLoan (newPlace a) (P_val p) (l_isMut a \<and> (ex \<or> isClosure))) else id)
                 active ls2))"

definition closureKind :: "bctx \<Rightarrow> mvalue list \<Rightarrow> BorrowKind" where
  "closureKind C caps =
     (let hasRef = (\<lambda>c. bc_kinds C c = Borrow_Mut \<or> bc_kinds C c = Borrow_View \<or> isPointerType C c);
          requiresMut = (\<lambda>c. bc_kinds C c = Borrow_Mut \<or>
                             (bc_kinds C c \<noteq> Borrow_View \<and> isPointerType C c \<and> isExclusiveBorrow C c))
      in if \<exists>c\<in>set caps. requiresMut c then Borrow_Mut
         else if \<exists>c\<in>set caps. hasRef c then Borrow_View else Borrow_None)"

definition tracedCapture :: "bctx \<Rightarrow> mvalue \<Rightarrow> mvalue" where
  "tracedCapture C c =
     (case follow (\<lambda>w. case bodyAt C w of
             Some (CastInst op x off) \<Rightarrow> Some x | Some (LoadInst q al vol) \<Rightarrow> Some q | _ \<Rightarrow> None) c of
        Some w \<Rightarrow> w | None \<Rightarrow> c)"

definition closureLoans :: "bctx \<Rightarrow> inst \<Rightarrow> mvalue list \<Rightarrow> Loan list \<Rightarrow> bctx \<times> Loan list" where
  "closureLoans C i caps ls =
     (let me = VInst (i_id i);
          C1 = C\<lparr>bc_kinds := (bc_kinds C)(me := closureKind C caps)\<rparr>;
          capture = (\<lambda>c. fold (\<lambda>src.
            if isAllocaAt C1 (p_base src)
            then addLoan (mkLoan src (if isMoveType C1 c then P_null else P_val me)
                                     (if isMoveType C1 c then True else bc_kinds C1 c = Borrow_Mut))
            else id) (resolvePlace C1 (tracedCapture C1 c)))
      in (C1, fold (\<lambda>c. if bc_kinds C1 c = Borrow_None then id else capture c) caps ls))"

definition callLoans :: "bctx \<Rightarrow> inst \<Rightarrow> mvalue \<Rightarrow> mvalue list \<Rightarrow> Loan list \<Rightarrow> Loan list" where
  "callLoans C i callee as ls =
     (let name = valueName (bc_mod C) (bc_fun C) callee; me = VInst (i_id i);
          firstPlaces = (case as of [] \<Rightarrow> [] | a # _ \<Rightarrow> resolvePlace C a)
      in if name = ''__moksha_lock'' then fold (\<lambda>src. addLoan (mkLoan src P_lock True)) firstPlaces ls
         else if name = ''__moksha_unlock''
         then filter (\<lambda>l. \<not> (l_pointer l = P_lock \<and> (\<exists>d\<in>set firstPlaces. conflictsWith (borrowedPlace l) d))) ls
         else if isPointerType C me
         then fold (\<lambda>a. if isPointerType C a
                        then fold (\<lambda>src. if isAllocaAt C (p_base src)
                                         then addLoan (mkLoan src (P_val me) (isExclusiveBorrow C me)) else id)
                               (resolvePlace C a)
                        else id) as ls
         else ls)"

definition otherLoans :: "bctx \<Rightarrow> inst \<Rightarrow> Loan list \<Rightarrow> bctx \<times> Loan list" where
  "otherLoans C i ls =
     (case i_body i of
        StoreInst v p al vol \<Rightarrow> (C, storeLoans C v p ls ls)
      | MakeClosureInst f caps \<Rightarrow> closureLoans C i caps ls
      | CallInst c as va \<Rightarrow> (C, callLoans C i c as ls)
      | _ \<Rightarrow> (C, ls))"

definition isAggregateBase :: "bctx \<Rightarrow> mvalue \<Rightarrow> bool" where
  "isAggregateBase C b =
     ((case valueHIR C b of
         Some (PointerType p own st) \<Rightarrow> innerKind (bc_types C) p
       | Some (ReferenceType t own st) \<Rightarrow> innerKind (bc_types C) t
       | _ \<Rightarrow> valueKind C b)
      \<in> Some ` {TK_Closure, TK_Struct, TK_Array, TK_Slice, TK_String, TK_Any})"

definition expiredLoan :: "bctx \<Rightarrow> last_uses \<Rightarrow> inst \<Rightarrow> Loan \<Rightarrow> bool" where
  "expiredLoan C LU i l =
     (case l_pointer l of
        P_null \<Rightarrow> False
      | P_lock \<Rightarrow> False
      | P_val w \<Rightarrow>
          (let b = p_base (borrowedPlace l) in
           if isAggregateBase C b \<and> (\<exists>d\<in>set (resolvePlace C w). p_base d = b) then False
           else if (case bodyAt C w of Some (CastInst op x off) \<Rightarrow> True | Some (CallInst c as va) \<Rightarrow> True | _ \<Rightarrow> False) \<and>
                   LU w = None then True
           else LU w = Some (i_id i)))"

definition loanStep :: "bctx \<Rightarrow> last_uses \<Rightarrow> inst \<Rightarrow> Loan list \<Rightarrow> bctx \<times> Loan list" where
  "loanStep C LU i ls =
     (case i_body i of
        CastInst op v off \<Rightarrow> (C, castLoans i v ls)
      | LoadInst p al vol \<Rightarrow>
          (let (C1, ls1) = (if isMoveType C (VInst (i_id i)) then (C, loadLoans C LU i p ls) else otherLoans C i ls)
           in (C1, filter (\<lambda>l. \<not> expiredLoan C1 LU i l) ls1))
      | _ \<Rightarrow> (C, ls))"

subsection \<open>The analysis\<close>

record flow =
  fl_ctx :: bctx
  fl_queue :: "nat list"
  loansIn :: "nat \<Rightarrow> Loan list"
  loansOut :: "nat \<Rightarrow> Loan list"
  activeLoansAtInst :: "nat \<Rightarrow> Loan list"

text \<open>A block without predecessors, other than the entry, takes the loans of the block written before it.\<close>

fun loanPreds :: "nat option \<Rightarrow> mblock list \<Rightarrow> (nat \<times> nat list) list" where
  "loanPreds prev [] = []"
| "loanPreds prev (B # Bs) =
     (b_id B, if predecessors B = [] then (case prev of Some q \<Rightarrow> [q] | None \<Rightarrow> []) else predecessors B)
     # loanPreds (Some (b_id B)) Bs"

definition loanPredsOf :: "mfunc \<Rightarrow> nat \<Rightarrow> nat list" where
  "loanPredsOf F b = (case map_of (loanPreds None (blocks F)) b of Some ps \<Rightarrow> ps | None \<Rightarrow> [])"

text \<open>\<open>inWorklist\<close> is the set of what is in the queue.\<close>

definition pushBlock :: "nat \<Rightarrow> nat list \<Rightarrow> nat list" where
  "pushBlock b q = (if b \<in> set q then q else q @ [b])"

definition flowInst :: "last_uses \<Rightarrow> nat \<Rightarrow> nat list \<Rightarrow> inst \<Rightarrow> flow \<times> Loan list \<Rightarrow> flow \<times> Loan list" where
  "flowInst LU b succs i = (\<lambda>(S, ls).
     (let (C1, ls1) = loanStep (fl_ctx S) LU i ls;
          S1 = S\<lparr>activeLoansAtInst := (activeLoansAtInst S)(i_id i := ls), fl_ctx := C1\<rparr>
      in (if loansEqual (loansOut S1 b) ls1 then S1
          else S1\<lparr>loansOut := (loansOut S1)(b := ls1), fl_queue := fold pushBlock succs (fl_queue S1)\<rparr>, ls1)))"

definition flowBlock :: "last_uses \<Rightarrow> nat \<Rightarrow> flow \<Rightarrow> flow" where
  "flowBlock LU b S =
     (let F = bc_fun (fl_ctx S);
          cur = fold (\<lambda>p ls. mergeLoans ls (loansOut S p)) (loanPredsOf F b) []
      in fst (fold (flowInst LU b (succsOf F b)) (instsOf F b) (S\<lparr>loansIn := (loansIn S)(b := cur)\<rparr>, cur)))"

partial_function (option) flowLoop :: "last_uses \<Rightarrow> flow \<Rightarrow> flow option" where
  "flowLoop LU S =
     (case fl_queue S of
        [] \<Rightarrow> Some S
      | b # q \<Rightarrow> flowLoop LU (flowBlock LU b (S\<lparr>fl_queue := q\<rparr>)))"

declare flowLoop.simps [code]

definition computeDataflow :: "bctx \<Rightarrow> last_uses \<Rightarrow> flow option" where
  "computeDataflow C LU =
     flowLoop LU \<lparr>fl_ctx = C, fl_queue = blockIds (bc_fun C), loansIn = \<lambda>_. [], loansOut = \<lambda>_. [],
       activeLoansAtInst = \<lambda>_. []\<rparr>"

subsection \<open>Pointers that belong together\<close>

text \<open>A breadth-first search that marks a value when it is pushed.\<close>

fun pushUnseen :: "mvalue list \<Rightarrow> mvalue list \<Rightarrow> mvalue list \<Rightarrow> mvalue list \<times> mvalue list" where
  "pushUnseen q visited [] = (q, visited)"
| "pushUnseen q visited (v # vs) =
     (if v \<in> set visited then pushUnseen q visited vs else pushUnseen (q @ [v]) (v # visited) vs)"

partial_function (option) search ::
  "(mvalue \<Rightarrow> bool) \<Rightarrow> (mvalue \<Rightarrow> mvalue list) \<Rightarrow> mvalue list \<Rightarrow> mvalue list \<Rightarrow> bool option" where
  "search goal step q visited =
     (case q of
        [] \<Rightarrow> Some False
      | v # r \<Rightarrow>
          if goal v then Some True
          else case pushUnseen r visited (step v) of (q1, visited1) \<Rightarrow> search goal step q1 visited1)"

declare search.simps [code]

definition isVariable :: "bctx \<Rightarrow> mvalue \<Rightarrow> bool" where
  "isVariable C v \<longleftrightarrow> isAllocaAt C v \<or> (case v of VGlobal n \<Rightarrow> True | VArg n \<Rightarrow> True | _ \<Rightarrow> False)"

definition derivedStep :: "bctx \<Rightarrow> mvalue \<Rightarrow> mvalue list" where
  "derivedStep C v =
     (case bodyAt C v of
        Some (CastInst op w off) \<Rightarrow> [w]
      | Some (GetElementPtrInst p idxs) \<Rightarrow> [p]
      | Some (LoadInst p al vol) \<Rightarrow> [p]
      | _ \<Rightarrow> []) @
     (if isVariable C v
      then concat (map (\<lambda>i. case i_body i of StoreInst w p al vol \<Rightarrow> if p = v then [w] else [] | _ \<Rightarrow> [])
                     (funcInsts (bc_fun C)))
      else [])"

definition isDerivedFrom :: "bctx \<Rightarrow> mvalue \<Rightarrow> loan_ptr \<Rightarrow> bool" where
  "isDerivedFrom C child parent =
     (case parent of
        P_null \<Rightarrow> False
      | P_lock \<Rightarrow> False
      | P_val w \<Rightarrow> child = w \<or> search (\<lambda>v. v = w) (derivedStep C) [child] [child] = Some True)"

definition getBase :: "bctx \<Rightarrow> mvalue \<Rightarrow> mvalue" where
  "getBase C v =
     (case follow (\<lambda>w. case bodyAt C w of
             Some (CastInst op x off) \<Rightarrow> Some x
           | Some (GetElementPtrInst p idxs) \<Rightarrow> Some p
           | Some (LoadInst p al vol) \<Rightarrow> Some p
           | _ \<Rightarrow> None) v of
        Some w \<Rightarrow> w | None \<Rightarrow> v)"

definition isElement :: "bctx \<Rightarrow> mvalue \<Rightarrow> bool" where
  "isElement C v = (case bodyAt C v of Some (GetElementPtrInst p idxs) \<Rightarrow> True | _ \<Rightarrow> False)"

definition isSamePointer :: "bctx \<Rightarrow> mvalue \<Rightarrow> loan_ptr \<Rightarrow> bool" where
  "isSamePointer C a q =
     (case q of
        P_val b \<Rightarrow> getBase C a = getBase C b \<and> isVariable C (getBase C a) \<and>
          \<not> (isElement C a \<and> isElement C b \<and> a \<noteq> b)
      | _ \<Rightarrow> False)"

definition belongs :: "bctx \<Rightarrow> mvalue \<Rightarrow> loan_ptr \<Rightarrow> bool" where
  "belongs C v q \<longleftrightarrow> isDerivedFrom C v q \<or> isSamePointer C v q"

definition localStep :: "bctx \<Rightarrow> Loan list \<Rightarrow> mvalue \<Rightarrow> mvalue list" where
  "localStep C active v =
     (if \<not> isPointerType C v \<and> \<not> isMoveType C v then []
      else case bodyAt C v of
        Some (LoadInst srcPtr al vol) \<Rightarrow>
          concat (map (\<lambda>i. case i_body i of
              StoreInst w p al vol \<Rightarrow> if p = srcPtr \<or> (\<exists>q\<in>set (resolvePlace C p). p_base q = srcPtr) then [w] else []
            | _ \<Rightarrow> []) (funcInsts (bc_fun C)))
      | b \<Rightarrow>
          filter (\<lambda>w. w \<noteq> v) (map p_base (resolvePlace C v)) @
          (case b of Some (MakeClosureInst f caps) \<Rightarrow> caps | _ \<Rightarrow> []) @
          map (\<lambda>a. p_base (borrowedPlace a))
            (filter (\<lambda>a. l_pointer a = P_val v \<or> (\<exists>q\<in>set (pointerPlaces C (l_pointer a)). p_base q = v)) active))"

definition borrowsLocalMemory :: "bctx \<Rightarrow> Loan list \<Rightarrow> mvalue \<Rightarrow> bool" where
  "borrowsLocalMemory C active v \<longleftrightarrow> search (isAllocaAt C) (localStep C active) [v] [v] = Some True"

subsection \<open>Checks of loads\<close>

abbreviation violation :: "nat \<Rightarrow> string \<Rightarrow> diag_engine \<Rightarrow> diag_engine" where
  "violation loc s E \<equiv> report E loc err_borrow_violation s"

definition dropConsumer :: "bctx \<Rightarrow> inst_body \<Rightarrow> bool" where
  "dropConsumer C b =
     (case b of
        ARCInst op ob df \<Rightarrow> op = Op_Release
      | CallInst c as va \<Rightarrow>
          (let name = valueName (bc_mod C) (bc_fun C) c in contains ''destructor'' name \<or> contains ''__moksha_free'' name)
      | _ \<Rightarrow> False)"

definition loadConsumer :: "bctx \<Rightarrow> last_uses \<Rightarrow> inst \<Rightarrow> inst option" where
  "loadConsumer C LU i =
     (if contains ''cleanup_val'' (i_name i) then None else traceConsumer C LU stopsUse 10 (VInst (i_id i)) None)"

definition isImplicitDrop :: "bctx \<Rightarrow> last_uses \<Rightarrow> inst \<Rightarrow> bool" where
  "isImplicitDrop C LU i \<longleftrightarrow> contains ''cleanup_val'' (i_name i) \<or>
     (case loadConsumer C LU i of None \<Rightarrow> False | Some c \<Rightarrow> dropConsumer C (i_body c))"

definition movedBefore :: "Loan list \<Rightarrow> Place \<Rightarrow> bool" where
  "movedBefore active p \<longleftrightarrow> (\<exists>a\<in>set active. l_pointer a = P_null \<and> conflictsWith (borrowedPlace a) p)"

text \<open>The loop over the loans for relocations: the message of the first that reports, and whether at the consumer.\<close>

fun relocation :: "bctx \<Rightarrow> mvalue \<Rightarrow> Place list \<Rightarrow> Loan list \<Rightarrow> (string \<times> bool) option" where
  "relocation C ld ps [] = None"
| "relocation C ld ps (a # as) =
     (if l_pointer a = P_null \<or> l_pointer a = P_lock \<or>
         valueKind C ld \<in> Some ` {TK_Int, TK_Float, TK_Decimal, TK_Bool, TK_Pointer, TK_Reference}
      then relocation C ld ps as
      else if \<exists>p\<in>set ps. p_proj p = [] \<and> p_base (borrowedPlace a) = p_base p \<and>
              (\<exists>ap\<in>set (pointerPlaces C (l_pointer a)). p_base ap = p_base p)
      then Some (''Unsafe relocation: Moving a value type that contains active internal borrows invalidates those pointers.'', False)
      else if (isAggregateLoad C ld \<or> isMoveType C ld) \<and> (\<exists>p\<in>set ps. conflictsWith (borrowedPlace a) p)
      then Some (''Cannot move value out of memory because it is currently borrowed.'', True)
      else relocation C ld ps as)"

definition checkLoad :: "bctx \<Rightarrow> last_uses \<Rightarrow> Loan list \<Rightarrow> inst \<Rightarrow> mvalue \<Rightarrow> diag_engine \<Rightarrow> diag_engine" where
  "checkLoad C LU active i p E =
     (let ps = resolvePlace C p; ld = VInst (i_id i); isDrop = isImplicitDrop C LU i in
      if \<exists>q\<in>set ps. movedBefore active q then
        (if isDrop then E
         else violation (i_loc i) ''Use of moved value. The memory was previously moved or dropped.'' E)
      else case (if isDrop then None else relocation C ld ps active) of
        Some (msg, atConsumer) \<Rightarrow>
          violation (case loadConsumer C LU i of Some c \<Rightarrow> if atConsumer then i_loc c else i_loc i | None \<Rightarrow> i_loc i) msg E
      | None \<Rightarrow>
          if \<exists>q\<in>set ps. \<exists>a\<in>set active. l_isMut a \<and> l_pointer a \<noteq> P_null \<and> conflictsWith (borrowedPlace a) q \<and>
               \<not> (belongs C p (l_pointer a) \<or> l_pointer a = P_lock)
          then violation (i_loc i) ''Cannot borrow memory immutably because it is currently borrowed mutably.'' E
          else E)"

subsection \<open>Checks of stores\<close>

definition isDestClosureEnv :: "bctx \<Rightarrow> mvalue \<Rightarrow> bool" where
  "isDestClosureEnv C p =
     (case follow (\<lambda>w. case bodyAt C w of Some (CastInst op x off) \<Rightarrow> Some x | _ \<Rightarrow> None) p of
        Some w \<Rightarrow> isClosureEnv C w | None \<Rightarrow> False)"

text \<open>The loop over the places written: the engine and \<open>isDestLongLived\<close>; a report ends it.\<close>

fun checkDests :: "bctx \<Rightarrow> Loan list \<Rightarrow> inst \<Rightarrow> mvalue \<Rightarrow> Place list \<Rightarrow> bool \<Rightarrow> diag_engine \<Rightarrow> bool \<times> diag_engine" where
  "checkDests C active i p [] longLived E = (longLived, E)"
| "checkDests C active i p (d # ds) longLived E =
     (let longLived1 = (longLived \<or> (\<not> isAllocaAt C (p_base d) \<and> \<not> isDestClosureEnv C p)) in
      if \<exists>a\<in>set active. l_pointer a \<noteq> P_null \<and> \<not> (belongs C p (l_pointer a) \<or> l_pointer a = P_lock) \<and>
           conflictsWith (borrowedPlace a) d
      then (longLived1, violation (i_loc i) ''Cannot mutate memory because it is currently borrowed.'' E)
      else checkDests C active i p ds longLived1 E)"

definition isAggregateCopy :: "bctx \<Rightarrow> mvalue \<Rightarrow> mvalue \<Rightarrow> bool" where
  "isAggregateCopy C v p =
     (case (valueHIR C v, valueHIR C p) of
        (Some (PointerType (Some a) o1 s1), Some (PointerType (Some b) o2 s2)) \<Rightarrow>
          (a = b \<or> (toString (bc_types C) a \<noteq> None \<and> toString (bc_types C) a = toString (bc_types C) b)) \<and>
          innerKind (bc_types C) (Some a) \<in> Some ` {TK_Array, TK_Struct, TK_Slice, TK_Map, TK_Closure, TK_Any, TK_String}
      | _ \<Rightarrow> False)"

definition isConstantGlobal :: "bctx \<Rightarrow> mvalue \<Rightarrow> bool" where
  "isConstantGlobal C v =
     (case v of
        VGlobal n \<Rightarrow> (case List.find (\<lambda>g. g_id g = n) (m_globals (bc_mod C)) of Some g \<Rightarrow> g_isConstant g | None \<Rightarrow> False)
      | _ \<Rightarrow> False)"

fun checkEscapes :: "bctx \<Rightarrow> inst \<Rightarrow> mvalue \<Rightarrow> Place list \<Rightarrow> diag_engine \<Rightarrow> diag_engine" where
  "checkEscapes C i v [] E = E"
| "checkEscapes C i v (src # srcs) E =
     (if isAllocaAt C (p_base src)
      then violation (i_loc i) ''Local reference escapes its scope. Cannot store a local reference into a global variable, heap object, or caller argument.'' E
      else if isConstantGlobal C (p_base src) \<and> isExclusiveBorrow C v
      then violation (i_loc i) ''Unsafe capability leak: Cannot store a mutable pointer aliasing immutable global memory into a long-lived location.'' E
      else checkEscapes C i v srcs E)"

text \<open>The loop over the loans for one source of a stored pointer; a report ends it.\<close>

fun checkAlias :: "bctx \<Rightarrow> inst \<Rightarrow> mvalue \<Rightarrow> Place \<Rightarrow> Loan list \<Rightarrow> diag_engine \<Rightarrow> diag_engine" where
  "checkAlias C i v src [] E = E"
| "checkAlias C i v src (a # as) E =
     (if \<not> conflictsWith (borrowedPlace a) src then checkAlias C i v src as E
      else if l_pointer a = P_null then violation (i_loc i) ''Cannot borrow a moved value.'' E
      else if \<not> belongs C v (l_pointer a) \<and> (isExclusiveBorrow C v \<or> l_isMut a)
      then violation (i_loc i)
             (if isExclusiveBorrow C v then ''Cannot borrow memory mutably because it is already borrowed.''
              else ''Cannot borrow memory immutably because it is currently borrowed mutably.'') E
      else checkAlias C i v src as E)"

definition checkLongLived :: "bctx \<Rightarrow> Loan list \<Rightarrow> inst \<Rightarrow> mvalue \<Rightarrow> mvalue \<Rightarrow> diag_engine \<Rightarrow> diag_engine" where
  "checkLongLived C active i v p E =
     (let srcs = resolvePlace C v;
          E1 = (if isAggregateCopy C v p then E else checkEscapes C i v srcs E)
      in if contains ''Closure'' (valueText C v) \<or> contains ''closure'' (valueText C v) then E1
         else fold (\<lambda>src. checkAlias C i v src active) srcs E1)"

subsection \<open>Checks of calls, closures, threads, returns and suspensions\<close>

definition checkLock :: "bctx \<Rightarrow> Loan list \<Rightarrow> inst \<Rightarrow> mvalue \<Rightarrow> diag_engine \<Rightarrow> diag_engine" where
  "checkLock C active i arg E =
     fold (\<lambda>p E.
       if \<exists>a\<in>set active. conflictsWith (borrowedPlace a) p \<and> l_pointer a = P_lock
       then violation (i_loc i) ''Deadlock prevention: Cannot lock a mutex that is already locked in the current scope.'' E
       else if \<exists>a\<in>set active. l_pointer a \<noteq> P_lock \<and> conflictsWith (borrowedPlace a) p \<and> \<not> belongs C arg (l_pointer a) \<and> l_isMut a
       then violation (i_loc i) ''Cannot lock memory because it is already borrowed mutably.'' E
       else E) (resolvePlace C arg) E"

text \<open>The loop over the places of one argument; the loans within the call grow, a report ends it.\<close>

fun checkArgument :: "bctx \<Rightarrow> Loan list \<Rightarrow> inst \<Rightarrow> mvalue \<Rightarrow> Place list \<Rightarrow> Loan list \<times> diag_engine \<Rightarrow> Loan list \<times> diag_engine" where
  "checkArgument C active i arg [] s = s"
| "checkArgument C active i arg (src # srcs) (intra, E) =
     (let ex = isExclusiveBorrow C arg in
      if \<exists>a\<in>set active. l_pointer a \<noteq> P_null \<and> l_pointer a \<noteq> P_lock \<and> conflictsWith (borrowedPlace a) src \<and>
           \<not> belongs C arg (l_pointer a) \<and> (ex \<or> l_isMut a)
      then (intra, violation (i_loc i)
             (if ex then ''Cannot pass memory to a function mutably because it is already borrowed.''
              else ''Cannot pass memory to a function immutably because it is currently borrowed mutably.'') E)
      else if \<exists>a\<in>set intra. conflictsWith (borrowedPlace a) src \<and> (ex \<or> l_isMut a)
      then (intra, violation (i_loc i) ''Cannot alias memory in function arguments. Exclusive mutability violated.'' E)
      else checkArgument C active i arg srcs (intra @ [mkLoan src (P_val arg) ex], E))"

definition checkCall :: "bctx \<Rightarrow> Loan list \<Rightarrow> inst \<Rightarrow> mvalue \<Rightarrow> mvalue list \<Rightarrow> diag_engine \<Rightarrow> diag_engine" where
  "checkCall C active i callee as E =
     (let name = valueName (bc_mod C) (bc_fun C) callee in
      if contains ''unlock'' name then E
      else if contains ''lock'' name then (case as of [] \<Rightarrow> E | a # _ \<Rightarrow> checkLock C active i a E)
      else snd (fold (\<lambda>a s. if isPointerType C a then checkArgument C active i a (resolvePlace C a) s else s) as ([], E)))"

text \<open>The loop over the loans for one place of a capture: the message of the first that reports.\<close>

fun captureConflict :: "bctx \<Rightarrow> bool \<Rightarrow> mvalue \<Rightarrow> Place \<Rightarrow> Loan list \<Rightarrow> string option" where
  "captureConflict C ex c src [] = None"
| "captureConflict C ex c src (a # as) =
     (if \<not> conflictsWith (borrowedPlace a) src then captureConflict C ex c src as
      else if l_pointer a = P_null then
        (if isPointerType C c then Some ''Use of moved value. The memory was previously moved or dropped.''
         else captureConflict C ex c src as)
      else if l_pointer a \<noteq> P_lock \<and> \<not> belongs C c (l_pointer a) then
        (if \<not> isPointerType C c \<and> isMoveType C c
         then Some ''Cannot capture value by move/copy because it is currently borrowed.''
         else if ex then Some ''Cannot capture memory mutably because it is already borrowed.''
         else if l_isMut a then Some ''Cannot capture memory immutably because it is currently borrowed mutably.''
         else captureConflict C ex c src as)
      else captureConflict C ex c src as)"

definition checkClosure :: "bctx \<Rightarrow> Loan list \<Rightarrow> inst \<Rightarrow> mvalue list \<Rightarrow> diag_engine \<Rightarrow> diag_engine" where
  "checkClosure C active i caps E =
     (let ex = isExclusiveBorrow C (VInst (i_id i)) in
      fold (\<lambda>c E.
        if isPointerType C c \<or> isMoveType C c
        then (case List.map_filter (\<lambda>src. captureConflict C ex c src active) (resolvePlace C c) of
                [] \<Rightarrow> E | msg # _ \<Rightarrow> violation (i_loc i) msg E)
        else E) caps E)"

definition checkAwait :: "bctx \<Rightarrow> Loan list \<Rightarrow> inst \<Rightarrow> diag_engine \<Rightarrow> diag_engine" where
  "checkAwait C active i E =
     (if \<exists>a\<in>set active. l_pointer a = P_lock
      then violation (i_loc i) ''Deadlock prevention: Cannot hold a lock across an `await` suspension point.'' E
      else if \<exists>a\<in>set active. l_pointer a \<noteq> P_null \<and> isAllocaAt C (p_base (borrowedPlace a))
      then violation (i_loc i) ''Cannot hold a borrow to local stack memory across an `await` suspension point.'' E
      else E)"

definition checkOther :: "bctx \<Rightarrow> Loan list \<Rightarrow> inst \<Rightarrow> diag_engine \<Rightarrow> diag_engine" where
  "checkOther C active i E =
     (case i_body i of
        CallInst c as va \<Rightarrow> checkCall C active i c as E
      | MakeClosureInst f caps \<Rightarrow> checkClosure C active i caps E
      | SpawnInst c k \<Rightarrow>
          if borrowsLocalMemory C active c
          then violation (i_loc i) ''Cannot borrow local variable inside a thread block. The thread might outlive the current stack frame, causing a dangling pointer.'' E
          else E
      | ReturnInst (Some v) \<Rightarrow>
          if borrowsLocalMemory C active v
          then violation (i_loc i) ''Cannot return a closure or reference that captures local stack memory.'' E
          else E
      | AwaitInst p \<Rightarrow> checkAwait C active i E
      | _ \<Rightarrow> E)"

definition checkInst :: "bctx \<Rightarrow> last_uses \<Rightarrow> (nat \<Rightarrow> Loan list) \<Rightarrow> inst \<Rightarrow> diag_engine \<Rightarrow> diag_engine" where
  "checkInst C LU activeAt i E =
     (case i_body i of
        BranchInst t \<Rightarrow> E
      | CondBranchInst c t f \<Rightarrow> E
      | LoadInst p al vol \<Rightarrow> checkLoad C LU (activeAt (i_id i)) i p E
      | StoreInst v p al vol \<Rightarrow>
          (case checkDests C (activeAt (i_id i)) i p (resolvePlace C p) False E of
             (isDestLongLived, E1) \<Rightarrow>
               if isDestLongLived \<and> isPointerType C v then checkLongLived C (activeAt (i_id i)) i v p E1
               else checkOther C (activeAt (i_id i)) i E1)
      | _ \<Rightarrow> E)"

definition checkConflicts :: "bctx \<Rightarrow> last_uses \<Rightarrow> (nat \<Rightarrow> Loan list) \<Rightarrow> diag_engine \<Rightarrow> diag_engine" where
  "checkConflicts C LU activeAt E = fold (checkInst C LU activeAt) (funcInsts (bc_fun C)) E"

subsection \<open>The checker\<close>

text \<open>\<open>bk\<close> gives the borrow kinds of the values that are no instructions.\<close>

definition mkContext :: "mmodule \<Rightarrow> HIRType list \<Rightarrow> (mvalue \<Rightarrow> BorrowKind) \<Rightarrow> mfunc \<Rightarrow> bctx" where
  "mkContext M H bk F =
     \<lparr>bc_mod = M, bc_types = H, bc_fun = F,
      bc_kinds = (\<lambda>v. case v of VInst n \<Rightarrow> (case instOf F n of Some i \<Rightarrow> i_borrow i | None \<Rightarrow> Borrow_None) | _ \<Rightarrow> bk v)\<rparr>"

definition checkFunction ::
  "mmodule \<Rightarrow> HIRType list \<Rightarrow> (mvalue \<Rightarrow> BorrowKind) \<Rightarrow> mfunc \<Rightarrow> diag_engine \<Rightarrow> diag_engine option" where
  "checkFunction M H bk F E =
     (let C = mkContext M H bk F; LU = computeLiveness C in
      if isDeclaration F then Some E
      else if \<not> operandsEnd C then None
      else map_option (\<lambda>S. checkConflicts (fl_ctx S) LU (activeLoansAtInst S) E) (computeDataflow C LU))"

fun checkFunctions ::
  "mmodule \<Rightarrow> HIRType list \<Rightarrow> (mvalue \<Rightarrow> BorrowKind) \<Rightarrow> mfunc list \<Rightarrow> diag_engine \<Rightarrow> diag_engine option" where
  "checkFunctions M H bk [] E = Some E"
| "checkFunctions M H bk (F # Fs) E =
     (case checkFunction M H bk F E of None \<Rightarrow> None | Some E1 \<Rightarrow> checkFunctions M H bk Fs E1)"

definition checkModule :: "mmodule \<Rightarrow> HIRType list \<Rightarrow> (mvalue \<Rightarrow> BorrowKind) \<Rightarrow> diag_engine \<Rightarrow> diag_engine option" where
  "checkModule M H bk E = checkFunctions M H bk (m_functions M) E"

end
