(* ===== verification/NLLProps.thy ===== *)
theory NLLProps
  imports NLLBorrow "HOL-Library.Multiset"
begin

text \<open>
  What the borrow checker tracks and reports.  Since the sections for stores, closures and calls are
  never reached, the only loans there are stand for moved places; so the analysis computes, for every
  instruction, the variables moved on some path to it.  It ends, and no conflict of borrows is ever found.
\<close>

subsection \<open>Only moves are tracked\<close>

definition movesOnly :: "Loan list \<Rightarrow> bool" where
  "movesOnly ls \<longleftrightarrow> (\<forall>l\<in>set ls. l_pointer l = P_null)"

definition loanBases :: "Loan list \<Rightarrow> mvalue set" where
  "loanBases ls = (\<lambda>l. p_base (borrowedPlace l)) ` set ls"

definition tidyLoans :: "Loan list \<Rightarrow> bool" where
  "tidyLoans ls \<longleftrightarrow> movesOnly ls \<and> distinct (map (\<lambda>l. p_base (borrowedPlace l)) ls)"

definition addMove :: "Place \<Rightarrow> Loan list \<Rightarrow> Loan list" where
  "addMove src = addLoan (mkLoan src P_null True)"

lemma tidy_Nil [simp]: "tidyLoans []" "loanBases [] = {}"
  by (simp_all add: tidyLoans_def movesOnly_def loanBases_def)

lemma tidy_moves: "tidyLoans ls \<Longrightarrow> movesOnly ls"
  by (simp add: tidyLoans_def)

lemma sameLoan_bases:
  assumes "movesOnly ls" "l_pointer l = P_null"
  shows "(\<exists>x\<in>set ls. sameLoan x l) \<longleftrightarrow> p_base (borrowedPlace l) \<in> loanBases ls"
proof -
  have "sameLoan x l \<longleftrightarrow> p_base (borrowedPlace l) = p_base (borrowedPlace x)" if "x \<in> set ls" for x
    using that assms by (auto simp: sameLoan_def movesOnly_def)
  then show ?thesis by (simp add: loanBases_def image_iff cong: bex_cong)
qed

lemma addLoan_moves:
  assumes "tidyLoans ls" "l_pointer l = P_null"
  shows "tidyLoans (addLoan l ls)" "loanBases (addLoan l ls) = insert (p_base (borrowedPlace l)) (loanBases ls)"
proof -
  have "(\<exists>x\<in>set ls. sameLoan x l) \<longleftrightarrow> p_base (borrowedPlace l) \<in> loanBases ls"
    using sameLoan_bases assms tidy_moves by blast
  then show "tidyLoans (addLoan l ls)" "loanBases (addLoan l ls) = insert (p_base (borrowedPlace l)) (loanBases ls)"
    using assms by (auto simp: addLoan_def tidyLoans_def movesOnly_def loanBases_def)
qed

lemma fold_addLoan_moves:
  "tidyLoans ls \<Longrightarrow> movesOnly as \<Longrightarrow> tidyLoans (fold addLoan as ls) \<and> loanBases (fold addLoan as ls) = loanBases ls \<union> loanBases as"
proof (induction as arbitrary: ls)
  case (Cons a as)
  have "tidyLoans (addLoan a ls)" "loanBases (addLoan a ls) = insert (p_base (borrowedPlace a)) (loanBases ls)"
    using Cons.prems by (auto simp: addLoan_moves movesOnly_def)
  then show ?case using Cons.IH [of "addLoan a ls"] Cons.prems by (simp add: movesOnly_def) (auto simp: loanBases_def)
qed simp

lemma fold_addMove: "fold addMove srcs = fold addLoan (map (\<lambda>src. mkLoan src P_null True) srcs)"
  by (simp add: fold_map addMove_def [abs_def] comp_def)

lemma fold_addMove_moves:
  "tidyLoans ls \<Longrightarrow> tidyLoans (fold addMove srcs ls) \<and> loanBases (fold addMove srcs ls) = loanBases ls \<union> p_base ` set srcs"
  using fold_addLoan_moves [of ls "map (\<lambda>src. mkLoan src P_null True) srcs"]
  by (simp add: fold_addMove movesOnly_def loanBases_def image_image)

lemma mergeLoans_moves:
  "tidyLoans a \<Longrightarrow> tidyLoans b \<Longrightarrow> tidyLoans (mergeLoans a b) \<and> loanBases (mergeLoans a b) = loanBases a \<union> loanBases b"
  by (simp add: mergeLoans_def fold_addLoan_moves tidy_moves)

lemma loansEqual_moves: "tidyLoans a \<Longrightarrow> tidyLoans b \<Longrightarrow> loansEqual a b \<longleftrightarrow> loanBases a = loanBases b"
proof -
  assume t: "tidyLoans a" "tidyLoans b"
  have len: "length a = card (loanBases a)" "length b = card (loanBases b)"
    using t distinct_card [of "map (\<lambda>l. p_base (borrowedPlace l)) a"] distinct_card [of "map (\<lambda>l. p_base (borrowedPlace l)) b"]
    by (simp_all add: tidyLoans_def loanBases_def)
  have "(\<exists>x\<in>set b. sameLoan x la) \<longleftrightarrow> p_base (borrowedPlace la) \<in> loanBases b" if "la \<in> set a" for la
    using t that by (intro sameLoan_bases) (auto simp: tidyLoans_def movesOnly_def)
  then have "(\<forall>la\<in>set a. \<exists>x\<in>set b. sameLoan x la) \<longleftrightarrow> loanBases a \<subseteq> loanBases b"
    by (simp add: loanBases_def image_subset_iff)
  moreover have "loanBases a \<subseteq> loanBases b \<Longrightarrow> card (loanBases a) = card (loanBases b) \<Longrightarrow> loanBases a = loanBases b"
    by (intro card_subset_eq) (simp add: loanBases_def)
  ultimately show "loansEqual a b \<longleftrightarrow> loanBases a = loanBases b" unfolding loansEqual_def len by (simp only:) (metis order_refl)
qed

lemma fold_idle: "(\<And>x. x \<in> set xs \<Longrightarrow> \<not> P x) \<Longrightarrow> fold (\<lambda>x. if P x then f x else id) xs = id"
  by (induction xs) auto

lemma move_no_pointer: "isMoveType C v \<Longrightarrow> \<not> isPointerType C v"
  by (auto simp: isMoveType_def isMoveOnlyType_def isPointerType_def Let_def split: option.splits HIRType.splits)

text \<open>The variables an instruction moves out of.\<close>

definition movedPlaces :: "bctx \<Rightarrow> last_uses \<Rightarrow> inst \<Rightarrow> Place list" where
  "movedPlaces C LU i =
     (case i_body i of
        LoadInst p al vol \<Rightarrow>
          if actualMove C LU i then filter (\<lambda>q. isAllocaAt C (p_base q)) (resolvePlace C p) else []
      | _ \<Rightarrow> [])"

lemma moveLoans_addMove: "moveLoans C p = fold addMove (filter (\<lambda>q. isAllocaAt C (p_base q)) (resolvePlace C p))"
  by (rule ext) (simp add: moveLoans_def addMove_def [abs_def] fold_filter)

lemma inheritsLoan_move: "l_pointer a = P_null \<Longrightarrow> \<not> inheritsLoan C v ps a"
  by (simp add: inheritsLoan_def pointerPlaces_def)

lemma loadLoans_moves:
  assumes "movesOnly ls" "isMoveType C (VInst (i_id i))" "i_body i = LoadInst p al vol"
  shows "loadLoans C LU i p ls = fold addMove (movedPlaces C LU i) ls"
proof -
  define ls1 where "ls1 = fold addMove (movedPlaces C LU i) ls"
  have "l_pointer l = P_null" if "l \<in> set (fold addMove srcs ls)" for srcs l
    using that assms(1) by (induction srcs arbitrary: ls) (auto simp: addMove_def addLoan_def movesOnly_def split: if_splits)
  then have idle: "fold (\<lambda>a. if inheritsLoan C p ps a then f a else id) ls1 = id" for ps and f :: "Loan \<Rightarrow> Loan list \<Rightarrow> Loan list"
    by (intro fold_idle inheritsLoan_move) (simp add: ls1_def)
  have eq: "(if actualMove C LU i then moveLoans C p ls else ls) = ls1"
    using assms(3) by (simp add: ls1_def movedPlaces_def moveLoans_addMove)
  show ?thesis using move_no_pointer [OF assms(2)] unfolding loadLoans_def Let_def eq ls1_def [symmetric] by (simp add: idle)
qed

text \<open>What the analysis of an instruction amounts to.\<close>

lemma loanStep_moves:
  assumes "tidyLoans ls"
  shows "loanStep C LU i ls = (C, fold addMove (movedPlaces C LU i) ls)"
proof -
  have exp: "filter (\<lambda>l. \<not> expiredLoan C LU i l) xs = xs" if "movesOnly xs" for xs
    using that by (intro filter_True) (auto simp: expiredLoan_def movesOnly_def)
  have "castLoans i v ls = ls" for v
    unfolding castLoans_def using assms by (subst fold_idle) (auto simp: tidyLoans_def movesOnly_def)
  moreover have "movesOnly (fold addMove (movedPlaces C LU i) ls)"
    using fold_addMove_moves [OF assms] tidy_moves by blast
  ultimately show ?thesis
    using exp loadLoans_moves [OF tidy_moves [OF assms]] assms
    by (cases "i_body i") (auto simp: loanStep_def otherLoans_def movedPlaces_def actualMove_def tidy_moves)
qed

definition genBases :: "bctx \<Rightarrow> last_uses \<Rightarrow> inst list \<Rightarrow> mvalue set" where
  "genBases C LU is = (\<Union>i\<in>set is. p_base ` set (movedPlaces C LU i))"

lemma genBases_simps [simp]:
  "genBases C LU [] = {}" "genBases C LU (i # is) = p_base ` set (movedPlaces C LU i) \<union> genBases C LU is"
  "genBases C LU (is @ js) = genBases C LU is \<union> genBases C LU js"
  by (auto simp: genBases_def)

lemma finite_genBases [simp]: "finite (genBases C LU is)"
  by (simp add: genBases_def)

end
