(* ===== verification/NLLFlow.thy ===== *)
theory NLLFlow
  imports NLLProps
begin

text \<open>
  The analysis of loans ends, although a block changes its result with every instruction, and its
  result covers every path.
\<close>

subsection \<open>One block\<close>

abbreviation outB :: "flow \<Rightarrow> nat \<Rightarrow> mvalue set" where
  "outB S b \<equiv> loanBases (loansOut S b)"

abbreviation inB :: "flow \<Rightarrow> nat \<Rightarrow> mvalue set" where
  "inB S b \<equiv> loanBases (loansIn S b)"

lemma set_pushBlock [simp]: "set (fold pushBlock xs q) = set q \<union> set xs"
  by (induction xs arbitrary: q) (auto simp: pushBlock_def)

lemma pushBlock_there: "set xs \<subseteq> set q \<Longrightarrow> fold pushBlock xs q = q"
  by (induction xs) (auto simp: pushBlock_def)

lemma pushBlock_again: "fold pushBlock xs (fold pushBlock xs q) = fold pushBlock xs q"
  by (rule pushBlock_there) simp

lemma pushBlock_new: "\<exists>ys. fold pushBlock xs q = q @ ys \<and> set ys \<subseteq> set xs \<and> set ys \<inter> set q = {}"
proof (induction xs arbitrary: q)
  case (Cons x xs)
  obtain ys where "fold pushBlock xs (pushBlock x q) = pushBlock x q @ ys" "set ys \<subseteq> set xs" "set ys \<inter> set (pushBlock x q) = {}"
    using Cons by blast
  moreover have "\<exists>zs. pushBlock x q = q @ zs \<and> set zs \<subseteq> {x} \<and> set zs \<inter> set q = {}" by (auto simp: pushBlock_def)
  ultimately show ?case by fastforce
qed simp

text \<open>One instruction: the result of the block is its loans now, and the successors are queued if that is new.\<close>

lemma flowInst_moves:
  assumes "tidyLoans ls" "tidyLoans (loansOut S b)" "flowInst LU b succs i (S, ls) = (S1, ls1)"
  shows "ls1 = fold addMove (movedPlaces (fl_ctx S) LU i) ls" "fl_ctx S1 = fl_ctx S" "loansIn S1 = loansIn S"
    "c \<noteq> b \<Longrightarrow> loansOut S1 c = loansOut S c" "tidyLoans (loansOut S1 b)" "outB S1 b = loanBases ls1"
    "activeLoansAtInst S1 = (activeLoansAtInst S)(i_id i := ls)"
    "fl_queue S1 = (if outB S b = loanBases ls1 then fl_queue S else fold pushBlock succs (fl_queue S))"
proof -
  let ?l = "fold addMove (movedPlaces (fl_ctx S) LU i) ls"
  have t: "tidyLoans ?l" using fold_addMove_moves [OF assms(1)] by blast
  note e = loansEqual_moves [OF assms(2) t]
  have f: "flowInst LU b succs i (S, ls) = (let S1 = S\<lparr>activeLoansAtInst := (activeLoansAtInst S)(i_id i := ls)\<rparr> in
     (if outB S b = loanBases ?l then S1 else S1\<lparr>loansOut := (loansOut S1)(b := ?l), fl_queue := fold pushBlock succs (fl_queue S1)\<rparr>, ?l))"
    by (simp add: flowInst_def loanStep_moves [OF assms(1)] e Let_def)
  show "ls1 = ?l" "fl_ctx S1 = fl_ctx S" "loansIn S1 = loansIn S" "c \<noteq> b \<Longrightarrow> loansOut S1 c = loansOut S c"
    "activeLoansAtInst S1 = (activeLoansAtInst S)(i_id i := ls)"
    using assms(3) f by (auto simp: Let_def split: if_splits)
  then show "tidyLoans (loansOut S1 b)" "outB S1 b = loanBases ls1"
    "fl_queue S1 = (if outB S b = loanBases ls1 then fl_queue S else fold pushBlock succs (fl_queue S))"
    using assms(2,3) f t by (auto simp: Let_def split: if_splits)
qed

lemma flow_fold:
  "tidyLoans ls \<Longrightarrow> tidyLoans (loansOut S b) \<Longrightarrow> fold (flowInst LU b succs) is (S, ls) = (S1, ls1) \<Longrightarrow>
     fl_ctx S1 = fl_ctx S \<and> loansIn S1 = loansIn S \<and> (\<forall>c. c \<noteq> b \<longrightarrow> loansOut S1 c = loansOut S c) \<and>
     tidyLoans (loansOut S1 b) \<and> loanBases ls1 = loanBases ls \<union> genBases (fl_ctx S) LU is \<and>
     outB S1 b = (if is = [] then outB S b else loanBases ls1) \<and>
     (fl_queue S1 = fl_queue S \<and> outB S1 b = outB S b \<or>
      fl_queue S1 = fold pushBlock succs (fl_queue S) \<and> \<not> (genBases (fl_ctx S) LU is \<subseteq> loanBases ls \<and> outB S b = loanBases ls))"
proof (induction "is" arbitrary: S ls)
  case (Cons i "is")
  obtain T k where s: "flowInst LU b succs i (S, ls) = (T, k)" by (metis surj_pair)
  note a = flowInst_moves [OF Cons.prems(1,2) s]
  have k: "tidyLoans k" "loanBases k = loanBases ls \<union> p_base ` set (movedPlaces (fl_ctx S) LU i)"
    using fold_addMove_moves [OF Cons.prems(1)] a(1) by simp_all
  have r: "fold (flowInst LU b succs) is (T, k) = (S1, ls1)" using Cons.prems(3) s by simp
  note ih = Cons.IH [OF k(1) a(5) r]
  show ?case
  proof (intro conjI)
    show "outB S1 b = (if i # is = [] then outB S b else loanBases ls1)" using ih a(6) k by (cases "is") auto
    show "fl_queue S1 = fl_queue S \<and> outB S1 b = outB S b \<or>
      fl_queue S1 = fold pushBlock succs (fl_queue S) \<and>
        \<not> (genBases (fl_ctx S) LU (i # is) \<subseteq> loanBases ls \<and> outB S b = loanBases ls)"
    proof (cases "genBases (fl_ctx S) LU (i # is) \<subseteq> loanBases ls \<and> outB S b = loanBases ls")
      case True
      then have "loanBases k = loanBases ls" "genBases (fl_ctx T) LU is \<subseteq> loanBases k" using k(2) a(2) by auto
      then show ?thesis using True ih a(6,8) by auto
    next
      case False
      then show ?thesis using ih a(6,8) by (cases "outB S b = loanBases k") (auto simp: pushBlock_again)
    qed
  qed (use ih a k in \<open>auto\<close>)
qed auto

text \<open>The loans recorded for the instructions of the block.\<close>

lemma flow_active:
  "tidyLoans ls \<Longrightarrow> tidyLoans (loansOut S b) \<Longrightarrow> fold (flowInst LU b succs) is (S, ls) = (S1, ls1) \<Longrightarrow> distinct (map i_id is) \<Longrightarrow>
     (\<forall>n. n \<notin> i_id ` set is \<longrightarrow> activeLoansAtInst S1 n = activeLoansAtInst S n) \<and>
     (\<forall>xs u zs. is = xs @ u # zs \<longrightarrow> tidyLoans (activeLoansAtInst S1 (i_id u)) \<and>
        loanBases (activeLoansAtInst S1 (i_id u)) = loanBases ls \<union> genBases (fl_ctx S) LU xs)"
proof (induction "is" arbitrary: S ls)
  case (Cons i "is")
  obtain T k where s: "flowInst LU b succs i (S, ls) = (T, k)" by (metis surj_pair)
  note a = flowInst_moves [OF Cons.prems(1,2) s]
  have k: "tidyLoans k" "loanBases k = loanBases ls \<union> p_base ` set (movedPlaces (fl_ctx S) LU i)"
    using fold_addMove_moves [OF Cons.prems(1)] a(1) by simp_all
  have r: "fold (flowInst LU b succs) is (T, k) = (S1, ls1)" using Cons.prems(3) s by simp
  have d: "distinct (map i_id is)" using Cons.prems(4) by simp
  note ih = Cons.IH [OF k(1) a(5) r d]
  have "tidyLoans (activeLoansAtInst S1 (i_id u)) \<and>
        loanBases (activeLoansAtInst S1 (i_id u)) = loanBases ls \<union> genBases (fl_ctx S) LU xs" if "i # is = xs @ u # zs" for xs u zs
  proof (cases xs)
    case Nil
    then have "u = i" "i_id u \<notin> i_id ` set is" using that Cons.prems(4) by auto
    then show ?thesis using ih Cons.prems(1) a(7) Nil by simp
  next
    case (Cons x ys)
    then have x: "is = ys @ u # zs" "x = i" using that by auto
    have "tidyLoans (activeLoansAtInst S1 (i_id u)) \<and>
        loanBases (activeLoansAtInst S1 (i_id u)) = loanBases k \<union> genBases (fl_ctx T) LU ys" using ih x(1) by blast
    then show ?thesis using a(2) k(2) x(2) Cons by (simp add: Un_assoc)
  qed
  then show ?case using ih a(7) by simp
qed auto

subsection \<open>Functions the analysis is run on\<close>

text \<open>The numbers of blocks and instructions are unique, no block is empty, and the edge lists agree.\<close>

definition flowInput :: "mfunc \<Rightarrow> bool" where
  "flowInput F \<longleftrightarrow> distinct (blockIds F) \<and> distinct (map i_id (funcInsts F)) \<and>
     list_all (\<lambda>b. instsOf F b \<noteq> [] \<and>
       list_all (\<lambda>s. s \<in> set (blockIds F) \<and> b \<in> set (predsOf F s)) (succsOf F b) \<and>
       list_all (\<lambda>p. p \<in> set (blockIds F) \<and> b \<in> set (succsOf F p)) (predsOf F b)) (blockIds F)"

lemma theBlock_at: "distinct (blockIds F) \<Longrightarrow> B \<in> set (blocks F) \<Longrightarrow> theBlock F (b_id B) = Some B"
  unfolding theBlock_def blockIds_def
proof -
  have "distinct (map b_id Bs) \<Longrightarrow> B \<in> set Bs \<Longrightarrow> List.find (\<lambda>b. b_id b = b_id B) Bs = Some B" for Bs
    by (induction Bs) force+
  then show "distinct (map b_id (blocks F)) \<Longrightarrow> B \<in> set (blocks F) \<Longrightarrow> List.find (\<lambda>b. b_id b = b_id B) (blocks F) = Some B" .
qed

lemma flowInput_edge:
  assumes "flowInput F" "b \<in> set (blockIds F)"
  shows "instsOf F b \<noteq> []" "s \<in> set (succsOf F b) \<Longrightarrow> s \<in> set (blockIds F) \<and> b \<in> set (predsOf F s)"
    "p \<in> set (predsOf F b) \<Longrightarrow> p \<in> set (blockIds F) \<and> b \<in> set (succsOf F p)"
proof -
  have "\<forall>b\<in>set (blockIds F). instsOf F b \<noteq> [] \<and> (\<forall>s\<in>set (succsOf F b). s \<in> set (blockIds F) \<and> b \<in> set (predsOf F s)) \<and>
     (\<forall>p\<in>set (predsOf F b). p \<in> set (blockIds F) \<and> b \<in> set (succsOf F p))"
    using assms(1) unfolding flowInput_def list_all_iff by blast
  then show "instsOf F b \<noteq> []" "s \<in> set (succsOf F b) \<Longrightarrow> s \<in> set (blockIds F) \<and> b \<in> set (predsOf F s)"
    "p \<in> set (predsOf F b) \<Longrightarrow> p \<in> set (blockIds F) \<and> b \<in> set (succsOf F p)" using assms(2) by blast+
qed

lemma loanPreds_map_of:
  "distinct (map b_id Bs) \<Longrightarrow> B \<in> set Bs \<Longrightarrow> predecessors B \<noteq> [] \<Longrightarrow> map_of (loanPreds prev Bs) (b_id B) = Some (predecessors B)"
proof (induction Bs arbitrary: prev)
  case (Cons A Bs)
  have "b_id A \<noteq> b_id B" if "A \<noteq> B" using that Cons.prems by auto
  then show ?case using Cons by (cases "A = B") auto
qed simp

lemma loanPredsOf_edges:
  assumes "distinct (blockIds F)" "b \<in> set (blockIds F)" "predsOf F b \<noteq> []"
  shows "loanPredsOf F b = predsOf F b"
proof -
  obtain B where B: "B \<in> set (blocks F)" "b_id B = b" using assms(2) by (auto simp: blockIds_def)
  then have "predsOf F b = predecessors B" using theBlock_at [OF assms(1) B(1)] by (simp add: predsOf_def)
  then show ?thesis using loanPreds_map_of [of "blocks F" B None] assms B by (simp add: loanPredsOf_def blockIds_def)
qed

lemma distinct_concat_disjoint:
  "distinct (concat (map f xs)) \<Longrightarrow> x \<in> set xs \<Longrightarrow> y \<in> set xs \<Longrightarrow> x \<noteq> y \<Longrightarrow> set (f x) \<inter> set (f y) = {}"
  by (induction xs) auto

lemma blockInsts_distinct:
  assumes "flowInput F" "b \<in> set (blockIds F)"
  shows "distinct (map i_id (instsOf F b))"
    "c \<in> set (blockIds F) \<Longrightarrow> c \<noteq> b \<Longrightarrow> i_id ` set (instsOf F b) \<inter> i_id ` set (instsOf F c) = {}"
proof -
  have d: "distinct (blockIds F)" "distinct (concat (map (\<lambda>B. map i_id (instructions B)) (blocks F)))"
    using assms(1) by (simp_all add: flowInput_def funcInsts_def map_concat comp_def)
  have at: "\<exists>B\<in>set (blocks F). b_id B = c \<and> instsOf F c = instructions B" if "c \<in> set (blockIds F)" for c
    using that theBlock_at [OF d(1)] by (auto simp: blockIds_def instsOf_def)
  show "distinct (map i_id (instsOf F b))" using at [OF assms(2)] d(2) by (auto simp: distinct_concat_iff)
  assume c: "c \<in> set (blockIds F)" "c \<noteq> b"
  obtain B D where "B \<in> set (blocks F)" "b_id B = b" "instsOf F b = instructions B"
    "D \<in> set (blocks F)" "b_id D = c" "instsOf F c = instructions D" using at [OF assms(2)] at [OF c(1)] by blast
  then show "i_id ` set (instsOf F b) \<inter> i_id ` set (instsOf F c) = {}"
    using distinct_concat_disjoint [OF d(2), of B D] c(2) by auto
qed

subsection \<open>The loop\<close>

abbreviation gensOf :: "bctx \<Rightarrow> last_uses \<Rightarrow> nat \<Rightarrow> mvalue set" where
  "gensOf C LU b \<equiv> genBases C LU (instsOf (bc_fun C) b)"

definition arriving :: "bctx \<Rightarrow> flow \<Rightarrow> nat \<Rightarrow> mvalue set" where
  "arriving C S b = (\<Union>p\<in>set (loanPredsOf (bc_fun C) b). outB S p)"

text \<open>The loans recorded for a block are those at its start and what its instructions have added.\<close>

definition activeOk :: "bctx \<Rightarrow> last_uses \<Rightarrow> flow \<Rightarrow> nat \<Rightarrow> bool" where
  "activeOk C LU S b \<longleftrightarrow> (\<forall>xs u zs. instsOf (bc_fun C) b = xs @ u # zs \<longrightarrow>
     tidyLoans (activeLoansAtInst S (i_id u)) \<and> loanBases (activeLoansAtInst S (i_id u)) = inB S b \<union> genBases C LU xs)"

definition allTidy :: "flow \<Rightarrow> bool" where
  "allTidy S \<longleftrightarrow> (\<forall>c. tidyLoans (loansOut S c) \<and> tidyLoans (loansIn S c))"

lemma merge_preds:
  "(\<And>p. p \<in> set ps \<Longrightarrow> tidyLoans (f p)) \<Longrightarrow> tidyLoans ls \<Longrightarrow>
     tidyLoans (fold (\<lambda>p ls. mergeLoans ls (f p)) ps ls) \<and>
     loanBases (fold (\<lambda>p ls. mergeLoans ls (f p)) ps ls) = loanBases ls \<union> (\<Union>p\<in>set ps. loanBases (f p))"
proof (induction ps arbitrary: ls)
  case (Cons p ps)
  then have "tidyLoans (mergeLoans ls (f p))" "loanBases (mergeLoans ls (f p)) = loanBases ls \<union> loanBases (f p)"
    using mergeLoans_moves by auto
  then show ?case using Cons.IH [of "mergeLoans ls (f p)"] Cons.prems(1) by (simp add: Un_assoc)
qed simp

lemma flowBlock_moves:
  assumes "fl_ctx S = C" "allTidy S" "flowInput (bc_fun C)" "b \<in> set (blockIds (bc_fun C))" "T = flowBlock LU b S"
  shows "fl_ctx T = C" "allTidy T" "inB T b = arriving C S b" "c \<noteq> b \<Longrightarrow> inB T c = inB S c"
    "outB T b = arriving C S b \<union> gensOf C LU b" "c \<noteq> b \<Longrightarrow> outB T c = outB S c"
    "fl_queue T = fl_queue S \<and> outB T b = outB S b \<or>
     fl_queue T = fold pushBlock (succsOf (bc_fun C) b) (fl_queue S) \<and> \<not> (gensOf C LU b \<subseteq> arriving C S b \<and> outB S b = arriving C S b)"
    "activeOk C LU T b"
    "c \<in> set (blockIds (bc_fun C)) \<Longrightarrow> c \<noteq> b \<Longrightarrow> activeOk C LU S c \<Longrightarrow> activeOk C LU T c"
proof -
  define cur where "cur = fold (\<lambda>p ls. mergeLoans ls (loansOut S p)) (loanPredsOf (bc_fun C) b) []"
  have cur: "tidyLoans cur" "loanBases cur = arriving C S b"
    using merge_preds [of "loanPredsOf (bc_fun C) b" "loansOut S" "[]"] assms(2) by (simp_all add: cur_def arriving_def allTidy_def)
  obtain ls1 where f: "fold (flowInst LU b (succsOf (bc_fun C) b)) (instsOf (bc_fun C) b) (S\<lparr>loansIn := (loansIn S)(b := cur)\<rparr>, cur) = (T, ls1)"
    using assms(1,5) by (simp add: flowBlock_def Let_def cur_def prod_eq_iff)
  have out: "tidyLoans (loansOut (S\<lparr>loansIn := (loansIn S)(b := cur)\<rparr>) b)" using assms(2) by (simp add: allTidy_def)
  note r = flow_fold [OF cur(1) out f] and q = flow_active [OF cur(1) out f blockInsts_distinct(1) [OF assms(3,4)]]
  note ne = flowInput_edge(1) [OF assms(3,4)]
  show "fl_ctx T = C" "inB T b = arriving C S b" "c \<noteq> b \<Longrightarrow> inB T c = inB S c" "outB T b = arriving C S b \<union> gensOf C LU b"
    "c \<noteq> b \<Longrightarrow> outB T c = outB S c"
    using r ne assms(1) cur by simp_all
  show "allTidy T" unfolding allTidy_def
  proof
    fix c
    show "tidyLoans (loansOut T c) \<and> tidyLoans (loansIn T c)" using r assms(2) cur(1) by (cases "c = b") (simp_all add: allTidy_def)
  qed
  show "fl_queue T = fl_queue S \<and> outB T b = outB S b \<or>
     fl_queue T = fold pushBlock (succsOf (bc_fun C) b) (fl_queue S) \<and> \<not> (gensOf C LU b \<subseteq> arriving C S b \<and> outB S b = arriving C S b)"
    using r [THEN conjunct2, THEN conjunct2, THEN conjunct2, THEN conjunct2, THEN conjunct2, THEN conjunct2] assms(1) cur(2) by simp
  show "activeOk C LU T b" using q r assms(1) cur(2) by (simp add: activeOk_def)
  assume c: "c \<in> set (blockIds (bc_fun C))" "c \<noteq> b" "activeOk C LU S c"
  have "i_id u \<notin> i_id ` set (instsOf (bc_fun C) b)" if "instsOf (bc_fun C) c = xs @ u # zs" for xs u zs
    using blockInsts_distinct(2) [OF assms(3,4) c(1,2)] that by auto
  then show "activeOk C LU T c" using q r c(2,3) by (simp add: activeOk_def)
qed

text \<open>
  The invariant of the loop: what arrives is above what was seen, results are up to date, and a block that
  is not queued has seen the results of its predecessors.
\<close>

definition flowInv :: "bctx \<Rightarrow> last_uses \<Rightarrow> flow \<Rightarrow> bool" where
  "flowInv C LU S \<longleftrightarrow> fl_ctx S = C \<and> allTidy S \<and> set (fl_queue S) \<subseteq> set (blockIds (bc_fun C)) \<and>
     (\<forall>b. outB S b \<subseteq> genBases C LU (funcInsts (bc_fun C))) \<and> (\<forall>b. inB S b \<subseteq> arriving C S b) \<and>
     (\<forall>b\<in>set (blockIds (bc_fun C)). outB S b \<subseteq> inB S b \<union> gensOf C LU b) \<and>
     (\<forall>b\<in>set (blockIds (bc_fun C)) - set (fl_queue S). outB S b = inB S b \<union> gensOf C LU b \<and> activeOk C LU S b \<and>
        (\<forall>p\<in>set (predsOf (bc_fun C) b). outB S p \<subseteq> inB S b))"

lemma arriving_mono: "(\<And>p. outB S p \<subseteq> outB T p) \<Longrightarrow> arriving C S b \<subseteq> arriving C T b"
  unfolding arriving_def by blast

lemma instsOf_sub: "set (instsOf F b) \<subseteq> set (funcInsts F)"
proof (cases "theBlock F b")
  case (Some B)
  then have "B \<in> set (blocks F)" by (auto simp: theBlock_def find_Some_iff)
  then show ?thesis using Some by (auto simp: instsOf_def funcInsts_def)
qed (simp add: instsOf_def)

lemma gensOf_all: "gensOf C LU b \<subseteq> genBases C LU (funcInsts (bc_fun C))"
  using instsOf_sub [of "bc_fun C" b] by (auto simp: genBases_def)

lemma loanPreds_eq:
  assumes "flowInput F" "b \<in> set (blockIds F)" "p \<in> set (predsOf F b)"
  shows "loanPredsOf F b = predsOf F b"
  using assms by (intro loanPredsOf_edges) (auto simp: flowInput_def)

lemma loanPreds_edge: "flowInput F \<Longrightarrow> b \<in> set (blockIds F) \<Longrightarrow> p \<in> set (predsOf F b) \<Longrightarrow> p \<in> set (loanPredsOf F b)"
  by (simp add: loanPreds_eq)

lemma activeOkD:
  "activeOk C LU S b \<Longrightarrow> instsOf (bc_fun C) b = xs @ u # zs \<Longrightarrow>
     tidyLoans (activeLoansAtInst S (i_id u)) \<and> loanBases (activeLoansAtInst S (i_id u)) = inB S b \<union> genBases C LU xs"
  unfolding activeOk_def by blast

lemma popped [simp]:
  "arriving C (S\<lparr>fl_queue := q\<rparr>) b = arriving C S b" "activeOk C LU (S\<lparr>fl_queue := q\<rparr>) b = activeOk C LU S b"
  "allTidy (S\<lparr>fl_queue := q\<rparr>) = allTidy S"
  by (simp_all add: arriving_def activeOk_def allTidy_def)

lemma flowInv_step:
  assumes inv: "flowInv C LU S" and F: "flowInput (bc_fun C)" and q: "fl_queue S = b # q"
    and T: "T = flowBlock LU b (S\<lparr>fl_queue := q\<rparr>)"
  shows "flowInv C LU T" "\<And>c. outB S c \<subseteq> outB T c"
proof -
  let ?ids = "set (blockIds (bc_fun C))" and ?S = "S\<lparr>fl_queue := q\<rparr>"
  have b: "b \<in> ?ids" and S: "fl_ctx ?S = C" "allTidy ?S" using inv q by (simp_all add: flowInv_def)
  note m = flowBlock_moves [OF S F b T, simplified]
  have le: "outB S b \<subseteq> inB S b \<union> gensOf C LU b" "inB S b \<subseteq> arriving C S b" using inv b by (simp_all add: flowInv_def)
  show mono: "outB S c \<subseteq> outB T c" for c using le m(5,6) by (cases "c = b") auto
  have qT: "set q \<subseteq> set (fl_queue T)" "set (fl_queue T) \<subseteq> set q \<union> set (succsOf (bc_fun C) b)" using m(7) by auto
  have seen: "outB T b \<subseteq> inB T c" if c: "c \<in> ?ids" "c \<notin> set (fl_queue T)" and p: "b \<in> set (predsOf (bc_fun C) c)" for c
  proof -
    have "c \<in> set (succsOf (bc_fun C) b)" using flowInput_edge(3) [OF F c(1) p] by simp
    then have e: "outB T b = outB S b" using m(7) c(2) by auto
    show ?thesis
    proof (cases "c = b")
      case True
      then have "b \<in> set (loanPredsOf (bc_fun C) b)"
        using loanPreds_edge [OF F b] p by simp
      then show ?thesis using True e m(3) by (auto simp: arriving_def)
    next
      case False
      then have "c \<notin> set (fl_queue S)" using c(2) qT(1) q by auto
      then show ?thesis using inv c(1) p e m(4) [OF False] by (auto simp: flowInv_def)
    qed
  qed
  have done_: "outB T c = inB T c \<union> gensOf C LU c \<and> activeOk C LU T c \<and> (\<forall>p\<in>set (predsOf (bc_fun C) c). outB T p \<subseteq> inB T c)"
    if c: "c \<in> ?ids" "c \<notin> set (fl_queue T)" for c
  proof -
    have "outB T p \<subseteq> inB T c" if p: "p \<in> set (predsOf (bc_fun C) c)" "p \<noteq> b" for p
    proof (cases "c = b")
      case True
      then have "p \<in> set (loanPredsOf (bc_fun C) b)"
        using loanPreds_edge [OF F b] p by simp
      then show ?thesis using True m(3) m(6) [OF p(2)] by (auto simp: arriving_def)
    next
      case False
      then have "c \<notin> set (fl_queue S)" using c(2) qT(1) q by auto
      then show ?thesis using inv c(1) p m(4) [OF False] m(6) [OF p(2)] by (auto simp: flowInv_def)
    qed
    moreover have "outB T c = inB T c \<union> gensOf C LU c \<and> activeOk C LU T c"
    proof (cases "c = b")
      case False
      then have "c \<notin> set (fl_queue S)" using c(2) qT(1) q by auto
      then show ?thesis using inv c(1) m(4,6,9) False by (auto simp: flowInv_def)
    qed (use m(3,5,8) in simp)
    ultimately show ?thesis using seen [OF c] by metis
  qed
  show "flowInv C LU T" unfolding flowInv_def
  proof (intro conjI allI ballI)
    show "set (fl_queue T) \<subseteq> ?ids" using qT(2) inv q flowInput_edge(2) [OF F b] by (auto simp: flowInv_def)
    show "outB T c \<subseteq> genBases C LU (funcInsts (bc_fun C))" for c
      using m(5,6) inv gensOf_all [of C LU b] by (cases "c = b") (auto simp: flowInv_def arriving_def)
    have "inB S c \<subseteq> arriving C S c" "arriving C S c \<subseteq> arriving C T c" for c
      using inv mono by (auto simp: flowInv_def intro!: arriving_mono)
    then show "inB T c \<subseteq> arriving C T c" for c using m(3) m(4) [of c] by (cases "c = b") auto
    show "outB T c \<subseteq> inB T c \<union> gensOf C LU c" if "c \<in> ?ids" for c
      using m(3,4,5,6) inv that by (cases "c = b") (auto simp: flowInv_def)
  qed (use m(1,2) done_ in auto)
qed

subsection \<open>Termination\<close>

text \<open>
  A step makes what a block has seen grow, or it handles a block that has nothing new.  In the second
  case the next block with news comes nearer to the front of the queue; and when there is none, every
  block that is queued again has seen strictly more than the one that queued it.
\<close>

definition stale :: "bctx \<Rightarrow> last_uses \<Rightarrow> flow \<Rightarrow> nat \<Rightarrow> bool" where
  "stale C LU S b \<longleftrightarrow> arriving C S b \<noteq> inB S b \<or> outB S b \<noteq> inB S b \<union> gensOf C LU b"

definition toSee :: "bctx \<Rightarrow> last_uses \<Rightarrow> flow \<Rightarrow> nat \<Rightarrow> nat" where
  "toSee C LU S b = card (genBases C LU (funcInsts (bc_fun C))) - card (inB S b)"

definition todo :: "bctx \<Rightarrow> last_uses \<Rightarrow> flow \<Rightarrow> nat" where
  "todo C LU S = (\<Sum>b\<in>set (blockIds (bc_fun C)). toSee C LU S b + (if outB S b = inB S b \<union> gensOf C LU b then 0 else 1))"

definition untilStale :: "bctx \<Rightarrow> last_uses \<Rightarrow> flow \<Rightarrow> nat" where
  "untilStale C LU S =
     (if \<exists>b\<in>set (fl_queue S). stale C LU S b then Suc (length (takeWhile (\<lambda>b. \<not> stale C LU S b) (fl_queue S))) else 0)"

definition flowOrder :: "bctx \<Rightarrow> last_uses \<Rightarrow> (flow \<times> flow) set" where
  "flowOrder C LU = inv_image (less_than <*lex*> less_than <*lex*> mult less_than)
     (\<lambda>S. (todo C LU S, untilStale C LU S, image_mset (toSee C LU S) (mset (fl_queue S))))"

lemma wf_flowOrder: "wf (flowOrder C LU)"
  unfolding flowOrder_def by (intro wf_inv_image wf_lex_prod wf_mult wf_less_than)

lemma inB_bound:
  assumes "flowInv C LU S"
  shows "inB S b \<subseteq> genBases C LU (funcInsts (bc_fun C))" "finite (inB S b)"
    "card (inB S b) \<le> card (genBases C LU (funcInsts (bc_fun C)))"
proof -
  show s: "inB S b \<subseteq> genBases C LU (funcInsts (bc_fun C))" using assms unfolding flowInv_def arriving_def by blast
  then show "finite (inB S b)" by (rule finite_subset) simp
  show "card (inB S b) \<le> card (genBases C LU (funcInsts (bc_fun C)))" using s by (intro card_mono) simp_all
qed

lemma toSee_less:
  assumes "flowInv C LU S" "flowInv C LU T" "inB S b \<subset> inB T c"
  shows "toSee C LU T c < toSee C LU S b"
proof -
  have "card (inB S b) < card (inB T c)" using assms(3) inB_bound(2) [OF assms(2)] by (rule psubset_card_mono [rotated])
  then show ?thesis using inB_bound(3) [OF assms(2), of c] by (simp add: toSee_def)
qed

lemma stale_step:
  assumes inv: "flowInv C LU S" and F: "flowInput (bc_fun C)" and q: "fl_queue S = b # q"
    and T: "T = flowBlock LU b (S\<lparr>fl_queue := q\<rparr>)" and st: "stale C LU S b"
  shows "todo C LU T < todo C LU S"
proof -
  have b: "b \<in> set (blockIds (bc_fun C))" and S: "fl_ctx (S\<lparr>fl_queue := q\<rparr>) = C" "allTidy (S\<lparr>fl_queue := q\<rparr>)"
    using inv q by (simp_all add: flowInv_def)
  note m = flowBlock_moves [OF S F b T, simplified] and iT = flowInv_step(1) [OF inv F q T]
  have le: "inB S b \<subseteq> inB T b" using inv m(3) by (simp add: flowInv_def)
  have "toSee C LU T b \<le> toSee C LU S b"
    using le inB_bound(2) [OF iT] by (auto simp: toSee_def intro!: diff_le_mono2 card_mono)
  moreover have "toSee C LU T b < toSee C LU S b" if "inB S b \<noteq> inB T b" using toSee_less [OF inv iT, of b b] le that by blast
  moreover define w where "w R c = toSee C LU R c + (if outB R c = inB R c \<union> gensOf C LU c then 0 else 1)" for R c
  ultimately have less: "w T b < w S b" using st m(3,5) by (auto simp: stale_def)
  have "w T c = w S c" if "c \<noteq> b" for c using m(4) [OF that] m(6) [OF that] by (simp add: w_def toSee_def)
  then have "w T c \<le> w S c" for c using less by (cases "c = b") simp_all
  then have "sum (w T) (set (blockIds (bc_fun C))) < sum (w S) (set (blockIds (bc_fun C)))"
    using less b by (intro sum_strict_mono_ex1) auto
  then show ?thesis by (simp add: todo_def w_def)
qed

lemma calm_step:
  assumes inv: "flowInv C LU S" and F: "flowInput (bc_fun C)" and q: "fl_queue S = b # q"
    and T: "T = flowBlock LU b (S\<lparr>fl_queue := q\<rparr>)" and st: "\<not> stale C LU S b"
  obtains ys where "fl_queue T = q @ ys" "\<And>c. inB T c = inB S c" "\<And>c. outB T c = outB S c"
    "\<And>c. stale C LU T c = stale C LU S c"
    "\<And>c. c \<in> set ys \<Longrightarrow> c \<in> set (blockIds (bc_fun C)) \<and> b \<in> set (predsOf (bc_fun C) c) \<and> c \<notin> set q \<and> \<not> gensOf C LU b \<subseteq> inB S b"
proof -
  have b: "b \<in> set (blockIds (bc_fun C))" and S: "fl_ctx (S\<lparr>fl_queue := q\<rparr>) = C" "allTidy (S\<lparr>fl_queue := q\<rparr>)"
    using inv q by (simp_all add: flowInv_def)
  note m = flowBlock_moves [OF S F b T, simplified]
  have i: "inB T c = inB S c" and o: "outB T c = outB S c" for c using m(3,4,5,6) st by (cases "c = b"; auto simp: stale_def)+
  then have s: "stale C LU T c = stale C LU S c" for c by (simp add: stale_def arriving_def)
  show ?thesis
  proof (cases "gensOf C LU b \<subseteq> inB S b")
    case True
    then have "fl_queue T = q @ []" using m(7) st by (auto simp: stale_def)
    then show ?thesis using that i o s by (metis empty_iff empty_set)
  next
    case False
    obtain ys where "fl_queue T = q @ ys" "set ys \<subseteq> set (succsOf (bc_fun C) b)" "set ys \<inter> set q = {}"
      using m(7) pushBlock_new [of "succsOf (bc_fun C) b" q] by (metis append_Nil2 empty_iff empty_set disjoint_iff subsetI)
    then show ?thesis using that [of ys] i o s False flowInput_edge(2) [OF F b] by blast
  qed
qed

lemma flow_decreases:
  assumes inv: "flowInv C LU S" and F: "flowInput (bc_fun C)" and q: "fl_queue S = b # q"
    and T: "T = flowBlock LU b (S\<lparr>fl_queue := q\<rparr>)"
  shows "(T, S) \<in> flowOrder C LU"
proof (cases "stale C LU S b")
  case True
  then show ?thesis using stale_step [OF inv F q T] by (simp add: flowOrder_def)
next
  case False
  obtain ys where ys: "fl_queue T = q @ ys" "\<And>c. inB T c = inB S c" "\<And>c. outB T c = outB S c"
    "\<And>c. stale C LU T c = stale C LU S c"
    "\<And>c. c \<in> set ys \<Longrightarrow> c \<in> set (blockIds (bc_fun C)) \<and> b \<in> set (predsOf (bc_fun C) c) \<and> c \<notin> set q \<and> \<not> gensOf C LU b \<subseteq> inB S b"
    using calm_step [OF inv F q T False] by blast
  have todo: "todo C LU T = todo C LU S" and see: "toSee C LU T = toSee C LU S" using ys(2,3) by (auto simp: todo_def toSee_def)
  show ?thesis
  proof (cases "\<exists>c\<in>set q. stale C LU S c")
    case True
    then have "untilStale C LU T < untilStale C LU S" using False ys(1,4) q by (auto simp: untilStale_def)
    then show ?thesis using todo by (simp add: flowOrder_def)
  next
    case calm: False
    have out: "outB S b = inB S b \<union> gensOf C LU b" using False by (simp add: stale_def)
    have new: "\<not> stale C LU S c \<and> inB S b \<subset> inB S c" if c: "c \<in> set ys" for c
    proof -
      note y = ys(5) [OF c]
      have arr: "outB S b \<subseteq> arriving C S c" using loanPreds_edge [OF F] y by (auto simp: arriving_def)
      have st: "\<not> stale C LU S c"
      proof (cases "c = b")
        case False
        then have d: "c \<in> set (blockIds (bc_fun C)) - set (fl_queue S)" using y q by simp
        have "loanPredsOf (bc_fun C) c = predsOf (bc_fun C) c"
          using loanPreds_eq [OF F] y by blast
        moreover have "\<forall>p\<in>set (predsOf (bc_fun C) c). outB S p \<subseteq> inB S c" using inv d unfolding flowInv_def by blast
        ultimately have "arriving C S c \<subseteq> inB S c" by (auto simp: arriving_def)
        moreover have "inB S c \<subseteq> arriving C S c" "outB S c = inB S c \<union> gensOf C LU c" using inv d unfolding flowInv_def by blast+
        ultimately show ?thesis by (simp add: stale_def)
      qed (use False in simp)
      then show ?thesis using arr out y by (auto simp: stale_def)
    qed
    have "untilStale C LU T = 0" "untilStale C LU S = 0" using new calm False ys(1,4) q by (auto simp: untilStale_def)
    moreover have "(image_mset (toSee C LU S) (mset q) + image_mset (toSee C LU S) (mset ys),
        image_mset (toSee C LU S) (mset q) + {#toSee C LU S b#}) \<in> mult less_than"
      using new toSee_less [OF inv inv] by (intro one_step_implies_mult) auto
    ultimately show ?thesis using todo see ys(1) q by (simp add: flowOrder_def add.commute)
  qed
qed

lemma flowLoop_ends:
  assumes F: "flowInput (bc_fun C)"
  shows "flowInv C LU S \<Longrightarrow> \<exists>T. flowLoop LU S = Some T \<and> flowInv C LU T \<and> fl_queue T = []"
proof (induction S rule: wf_induct_rule [OF wf_flowOrder [of C LU]])
  case (1 S)
  show ?case
  proof (cases "fl_queue S")
    case Nil
    then show ?thesis using 1(2) by (subst flowLoop.simps) simp
  next
    case (Cons b q)
    define T where "T = flowBlock LU b (S\<lparr>fl_queue := q\<rparr>)"
    obtain R where "flowLoop LU T = Some R" "flowInv C LU R" "fl_queue R = []"
      using 1(1) [OF flow_decreases [OF 1(2) F Cons T_def]] flowInv_step(1) [OF 1(2) F Cons T_def] by blast
    then show ?thesis using Cons by (subst flowLoop.simps) (simp add: T_def)
  qed
qed

lemma computeDataflow_ends:
  assumes "flowInput (bc_fun C)"
  shows "\<exists>T. computeDataflow C LU = Some T \<and> flowInv C LU T \<and> fl_queue T = []"
  unfolding computeDataflow_def by (rule flowLoop_ends [OF assms]) (auto simp: flowInv_def allTidy_def arriving_def)

subsection \<open>Paths\<close>

text \<open>A path through the blocks.\<close>

fun walk :: "mfunc \<Rightarrow> nat list \<Rightarrow> bool" where
  "walk F [] \<longleftrightarrow> True"
| "walk F [b] \<longleftrightarrow> b \<in> set (blockIds F)"
| "walk F (b # c # bs) \<longleftrightarrow> b \<in> set (blockIds F) \<and> c \<in> set (succsOf F b) \<and> walk F (c # bs)"

lemma walk_active:
  assumes inv: "flowInv C LU T" "fl_queue T = []" and F: "flowInput (bc_fun C)"
  shows "walk (bc_fun C) (b # bs) \<Longrightarrow> concat (map (instsOf (bc_fun C)) (b # bs)) = xs @ u # zs \<Longrightarrow>
     tidyLoans (activeLoansAtInst T (i_id u)) \<and> inB T b \<union> genBases C LU xs \<subseteq> loanBases (activeLoansAtInst T (i_id u))"
proof (induction bs arbitrary: b xs)
  case Nil
  then have "activeOk C LU T b" using inv by (simp add: flowInv_def)
  then show ?case using activeOkD [of C LU T b xs u zs] Nil by simp
next
  case (Cons c bs)
  have b: "b \<in> set (blockIds (bc_fun C))" "c \<in> set (succsOf (bc_fun C) b)" and w: "walk (bc_fun C) (c # bs)" using Cons.prems(1) by simp_all
  have ok: "activeOk C LU T b" "outB T b = inB T b \<union> gensOf C LU b" using inv b(1) by (simp_all add: flowInv_def)
  have "c \<in> set (blockIds (bc_fun C))" "b \<in> set (predsOf (bc_fun C) c)" using flowInput_edge(2) [OF F b] by blast+
  then have arr: "outB T b \<subseteq> inB T c" using inv by (simp add: flowInv_def)
  have split: "instsOf (bc_fun C) b @ concat (map (instsOf (bc_fun C)) (c # bs)) = xs @ u # zs" using Cons.prems(2) by simp
  show ?case
  proof (cases "length xs < length (instsOf (bc_fun C) b)")
    case True
    then obtain us where us: "us \<noteq> []" "instsOf (bc_fun C) b = xs @ us" "us @ concat (map (instsOf (bc_fun C)) (c # bs)) = u # zs"
      using split by (auto simp: append_eq_append_conv2)
    then have "instsOf (bc_fun C) b = xs @ u # tl us" by (cases us) auto
    then show ?thesis using activeOkD [OF ok(1)] by simp
  next
    case False
    have "take (length (instsOf (bc_fun C) b)) xs = instsOf (bc_fun C) b"
      using arg_cong [OF split, of "take (length (instsOf (bc_fun C) b))"] False by simp
    then obtain ys where ys: "xs = instsOf (bc_fun C) b @ ys" by (metis append_take_drop_id)
    then have ys2: "concat (map (instsOf (bc_fun C)) (c # bs)) = ys @ u # zs" using split by simp
    show ?thesis using Cons.IH [OF w ys2] arr ok(2) ys by auto
  qed
qed

end
