(* ===== verification/NLLReports.thy ===== *)
theory NLLReports
  imports NLLFlow
begin

text \<open>What the checker reports, given that only moved places are tracked.\<close>

abbreviation useOfMoved :: string where
  "useOfMoved \<equiv> ''Use of moved value. The memory was previously moved or dropped.''"

definition reportable :: "string list" where
  "reportable =
     [useOfMoved,
      ''Local reference escapes its scope. Cannot store a local reference into a global variable, heap object, or caller argument.'',
      ''Unsafe capability leak: Cannot store a mutable pointer aliasing immutable global memory into a long-lived location.'',
      ''Cannot borrow a moved value.'']"

text \<open>The engine has got further messages, all of them among these.\<close>

definition reports :: "diag_engine \<Rightarrow> diag_engine \<Rightarrow> bool" where
  "reports E E1 \<longleftrightarrow> (\<exists>ms. printed E1 = printed E @ ms \<and>
     (\<forall>m\<in>set ms. msg_text m \<in> (\<lambda>s. ''Borrow checker violation: '' @ s) ` set reportable))"

lemma reports_refl [simp]: "reports E E"
  by (simp add: reports_def)

lemma reports_trans [trans]: "reports E E1 \<Longrightarrow> reports E1 E2 \<Longrightarrow> reports E E2"
  by (fastforce simp: reports_def)

lemma reports_if: "reports E E1 \<Longrightarrow> reports E E2 \<Longrightarrow> reports E (if c then E1 else E2)"
  by simp

lemma printed_violation:
  "s \<noteq> [] \<Longrightarrow> printed (violation loc s E) = printed E @
     [\<lparr>msg_loc = loc, msg_id = err_borrow_violation, msg_kind = DK_Error, msg_text = ''Borrow checker violation: '' @ s\<rparr>]"
  by (simp add: report_def emit_def getDiagnosticKind_def getDiagnosticText_def Let_def)

lemma reports_violation: "s \<in> set reportable \<Longrightarrow> reports E (violation loc s E)"
  by (subst reports_def, subst printed_violation) (auto simp: reportable_def)

lemma reports_fold: "(\<And>x E. x \<in> set xs \<Longrightarrow> reports E (f x E)) \<Longrightarrow> reports E (fold f xs E)"
  by (induction xs arbitrary: E) (auto intro: reports_trans)

subsection \<open>The checks\<close>

lemma relocation_moves: "movesOnly active \<Longrightarrow> relocation C ld ps active = None"
  by (induction active) (auto simp: movesOnly_def)

lemma checkLoad_moves:
  assumes "movesOnly active"
  shows "checkLoad C LU active i p E =
     (if (\<exists>q\<in>set (resolvePlace C p). movedBefore active q) \<and> \<not> isImplicitDrop C LU i then violation (i_loc i) useOfMoved E else E)"
proof -
  have "\<not> (l_isMut a \<and> l_pointer a \<noteq> P_null \<and> Q a)" if "a \<in> set active" for a Q using that assms by (simp add: movesOnly_def)
  then show ?thesis by (auto simp: checkLoad_def Let_def relocation_moves [OF assms])
qed

lemma checkDests_moves: "movesOnly active \<Longrightarrow> snd (checkDests C active i p ds longLived E) = E"
  by (induction ds arbitrary: longLived) (auto simp: movesOnly_def Let_def)

lemma checkEscapes_reports: "reports E (checkEscapes C i v srcs E)"
  by (induction srcs arbitrary: E) (auto intro!: reports_violation simp: reportable_def)

lemma checkAlias_reports: "movesOnly active \<Longrightarrow> reports E (checkAlias C i v src active E)"
  by (induction active arbitrary: E) (auto intro!: reports_violation simp: reportable_def movesOnly_def)

lemma checkLongLived_reports:
  assumes "movesOnly active"
  shows "reports E (checkLongLived C active i v p E)"
proof -
  have a: "reports E (if isAggregateCopy C v p then E else checkEscapes C i v srcs E)" for srcs by (simp add: checkEscapes_reports)
  have b: "reports E1 (fold (\<lambda>src. checkAlias C i v src active) srcs E1)" for srcs E1
    by (rule reports_fold) (rule checkAlias_reports [OF assms])
  show ?thesis unfolding checkLongLived_def Let_def by (rule reports_if [OF a reports_trans [OF a b]])
qed

lemma checkInst_reports:
  assumes "movesOnly (activeAt (i_id i))"
  shows "reports E (checkInst C LU activeAt i E)"
proof (cases "i_body i")
  case (LoadInst p al vol)
  then show ?thesis using checkLoad_moves [OF assms] by (auto simp: checkInst_def reportable_def intro!: reports_violation)
next
  case (StoreInst v p al vol)
  obtain l E1 where d: "checkDests C (activeAt (i_id i)) i p (resolvePlace C p) False E = (l, E1)" by fastforce
  then have "E1 = E" using checkDests_moves [OF assms, of C i p "resolvePlace C p" False E] by simp
  then show ?thesis using StoreInst d checkLongLived_reports [OF assms, of E C i v p] by (auto simp: checkInst_def checkOther_def)
qed (simp_all add: checkInst_def)

subsection \<open>All instructions\<close>

lemma allActive_moves:
  assumes "flowInv C LU T" "fl_queue T = []" "flowInput (bc_fun C)" "u \<in> set (funcInsts (bc_fun C))"
  shows "movesOnly (activeLoansAtInst T (i_id u))"
proof -
  obtain B where B: "B \<in> set (blocks (bc_fun C))" "u \<in> set (instructions B)" using assms(4) by (auto simp: funcInsts_def)
  have d: "distinct (blockIds (bc_fun C))" using assms(3) by (simp add: flowInput_def)
  have "b_id B \<in> set (blockIds (bc_fun C))" "instsOf (bc_fun C) (b_id B) = instructions B"
    using B(1) theBlock_at [OF d B(1)] by (auto simp: blockIds_def instsOf_def)
  moreover obtain xs zs where "instructions B = xs @ u # zs" using B(2) by (meson split_list)
  ultimately show ?thesis using activeOkD [of C LU T "b_id B" xs u zs] assms(1,2) by (simp add: flowInv_def tidy_moves)
qed

lemma checkFunction_flow:
  assumes "flowInput F" "C = mkContext M H bk F" "operandsEnd C" "blocks F \<noteq> []" "LU = computeLiveness C"
  obtains T where "checkFunction M H bk F E = Some (checkConflicts C LU (activeLoansAtInst T) E)" "flowInv C LU T" "fl_queue T = []"
proof -
  have F: "bc_fun C = F" using assms(2) by (simp add: mkContext_def)
  obtain T where T: "computeDataflow C LU = Some T" "flowInv C LU T" "fl_queue T = []"
    using computeDataflow_ends [of C LU] assms(1) F by auto
  moreover have "fl_ctx T = C" using T(2) by (simp add: flowInv_def)
  ultimately show ?thesis using that assms(2,3,4,5) by (simp add: checkFunction_def isDeclaration_def Let_def)
qed

lemma checkFunction_reports:
  assumes "flowInput F" "operandsEnd (mkContext M H bk F)"
  shows "\<exists>E1. checkFunction M H bk F E = Some E1 \<and> reports E E1"
proof (cases "blocks F = []")
  case False
  define C where "C = mkContext M H bk F"
  have F: "bc_fun C = F" by (simp add: C_def mkContext_def)
  obtain T where T: "checkFunction M H bk F E = Some (checkConflicts C (computeLiveness C) (activeLoansAtInst T) E)"
    "flowInv C (computeLiveness C) T" "fl_queue T = []"
    using checkFunction_flow [OF assms(1) C_def _ False refl] assms(2) C_def by metis
  have "reports E (checkConflicts C (computeLiveness C) (activeLoansAtInst T) E)" unfolding checkConflicts_def
    by (intro reports_fold checkInst_reports allActive_moves [OF T(2,3)]) (use F assms(1) in auto)
  then show ?thesis using T(1) by blast
qed (simp add: checkFunction_def isDeclaration_def)

lemma fold_reports:
  assumes "\<And>x E. x \<in> set xs \<Longrightarrow> reports E (f x E)" "u \<in> set xs" "\<And>E. \<exists>ms r. printed (f u E) = printed E @ ms \<and> r \<in> set ms \<and> P r"
  shows "\<exists>ms r. printed (fold f xs E) = printed E @ ms \<and> r \<in> set ms \<and> P r"
proof -
  obtain ys zs where xs: "xs = ys @ u # zs" using assms(2) by (meson split_list)
  obtain a where a: "printed (fold f ys E) = printed E @ a"
    using reports_fold [of ys f E] assms(1) xs by (auto simp: reports_def)
  obtain ms r where m: "printed (f u (fold f ys E)) = printed (fold f ys E) @ ms" "r \<in> set ms" "P r" using assms(3) by blast
  obtain b where "printed (fold f zs (f u (fold f ys E))) = printed (f u (fold f ys E)) @ b"
    using reports_fold [of zs f "f u (fold f ys E)"] assms(1) xs by (auto simp: reports_def)
  then have "printed (fold f xs E) = printed E @ (a @ ms @ b)" using a m(1) xs by simp
  then show ?thesis using m(2,3) by (metis Un_iff set_append)
qed

subsection \<open>Examples\<close>

definition exInst :: "nat \<Rightarrow> nat \<Rightarrow> inst_body \<Rightarrow> inst" where
  "exInst n t b = \<lparr>i_id = n, i_type = Some (TyOther t), i_name = ''v'', i_loc = n, i_borrow = Borrow_None, i_parent = Some 0, i_body = b\<rparr>"

definition exFunction :: "inst list \<Rightarrow> mfunc" where
  "exFunction is = (mkFunction None ''f'' Link_External)\<lparr>blocks := [(mkBlock 0 ''entry'')\<lparr>instructions := is\<rparr>]\<rparr>"

text \<open>Type 1 is an owning pointer, type 2 a struct, type 3 a plain pointer.\<close>

definition exTypes :: "HIRType list" where
  "exTypes = [HIRIntType 32 True False, PointerType (Some 0) Own_Owned BS_None,
     StructType (mkStruct ''S'' [Some 1, Some 1] [''a'', ''b''] False False), PointerType (Some 0) Own_None BS_Mut]"

definition exModule :: mmodule where
  "exModule = (mkModule ''m'')\<lparr>m_constants := [\<lparr>c_type = Some (TyOther 0), c_body = ConstantInt 0\<rparr>, \<lparr>c_type = Some (TyOther 0), c_body = ConstantInt 1\<rparr>]\<rparr>"

text \<open>\<open>y = x; y = x\<close> for an owning variable \<open>x\<close>.\<close>

definition movesTwice :: mfunc where
  "movesTwice = exFunction [exInst 1 1 (AllocaInst (TyOther 1) 8), exInst 2 1 (AllocaInst (TyOther 1) 8),
     exInst 3 1 (LoadInst (VInst 1) 8 False), exInst 4 1 (StoreInst (VInst 3) (VInst 2) 8 False),
     exInst 5 1 (LoadInst (VInst 1) 8 False), exInst 6 1 (StoreInst (VInst 5) (VInst 2) 8 False), exInst 7 1 (ReturnInst None)]"

text \<open>\<open>y = s.a; y = s.b; y = s.b\<close> for a struct \<open>s\<close> of two owning pointers.\<close>

definition movesFields :: mfunc where
  "movesFields = exFunction [exInst 1 2 (AllocaInst (TyOther 2) 8), exInst 2 1 (AllocaInst (TyOther 1) 8),
     exInst 3 3 (GetElementPtrInst (VInst 1) [VConst 0]), exInst 4 3 (GetElementPtrInst (VInst 1) [VConst 1]),
     exInst 5 1 (LoadInst (VInst 3) 8 False), exInst 6 1 (StoreInst (VInst 5) (VInst 2) 8 False),
     exInst 7 1 (LoadInst (VInst 4) 8 False), exInst 8 1 (StoreInst (VInst 7) (VInst 2) 8 False),
     exInst 9 1 (LoadInst (VInst 4) 8 False), exInst 10 1 (StoreInst (VInst 9) (VInst 2) 8 False), exInst 11 1 (ReturnInst None)]"

text \<open>\<open>x = alloca; return x\<close>.\<close>

definition returnsSlot :: mfunc where
  "returnsSlot = exFunction [exInst 1 3 (AllocaInst (TyOther 0) 8), exInst 2 3 (ReturnInst (Some (VInst 1)))]"

definition noKind :: "mvalue \<Rightarrow> BorrowKind" where
  "noKind v = Borrow_None"

subsection \<open>Properties\<close>

text \<open>
  C35: No conflict of borrows is ever reported.  On every function with consistent edges the checker ends, and
  all it can report is the use of a moved value, a local reference or a mutable pointer to a constant stored in
  long-lived memory, and the borrow of a moved value; none of its other seventeen messages, among them those for
  aliased mutable borrows, mutation of borrowed memory and returned references to locals, can appear.
\<close>

theorem borrow_conflicts_never_reported:
  assumes "flowInput F" "operandsEnd (mkContext M H bk F)"
  shows "\<exists>E1 ms. checkFunction M H bk F E = Some E1 \<and> printed E1 = printed E @ ms \<and>
     (\<forall>m\<in>set ms. msg_text m \<in> (\<lambda>s. ''Borrow checker violation: '' @ s) ` set
       [''Use of moved value. The memory was previously moved or dropped.'',
        ''Local reference escapes its scope. Cannot store a local reference into a global variable, heap object, or caller argument.'',
        ''Unsafe capability leak: Cannot store a mutable pointer aliasing immutable global memory into a long-lived location.'',
        ''Cannot borrow a moved value.''])"
  using checkFunction_reports [OF assms, of E] unfolding reports_def reportable_def by blast

theorem borrow_conflicts_never_reported_witness:
  "\<exists>ms. checkFunction exModule exTypes noKind returnsSlot DiagnosticEngine = Some DiagnosticEngine \<and> [] = [] @ ms \<and>
     (\<forall>m\<in>set ms. msg_text m \<noteq> ''Borrow checker violation: Cannot return a closure or reference that captures local stack memory.'')"
proof -
  have f: "flowInput returnsSlot" "operandsEnd (mkContext exModule exTypes noKind returnsSlot)"
    "checkFunction exModule exTypes noKind returnsSlot DiagnosticEngine = Some DiagnosticEngine" by code_simp+
  from borrow_conflicts_never_reported [OF f(1,2), of DiagnosticEngine] show ?thesis
    by (elim exE conjE) (use f(3) in \<open>auto simp: DiagnosticEngine_def\<close>)
qed

text \<open>
  C21: Use after move.  Whenever on some path through the function an instruction moves out of a local variable,
  or out of a part of it, and a later instruction of the path reads the whole variable, other than to drop it,
  the checker ends and reports the use of a moved value at that instruction.
\<close>

theorem use_after_move_reported:
  assumes "flowInput F" "C = mkContext M H bk F" "operandsEnd C" "LU = computeLiveness C"
    and "walk F bs" "concat (map (instsOf F) bs) = xs @ m # ys @ u # zs"
    and "x \<in> p_base ` set (movedPlaces C LU m)" "i_body u = LoadInst p al vol" "\<not> isImplicitDrop C LU u"
    and "\<lparr>p_base = x, p_proj = []\<rparr> \<in> set (resolvePlace C p)"
  shows "\<exists>E1 ms r. checkFunction M H bk F E = Some E1 \<and> printed E1 = printed E @ ms \<and> r \<in> set ms \<and> msg_loc r = i_loc u \<and>
     msg_text r = ''Borrow checker violation: Use of moved value. The memory was previously moved or dropped.''"
proof -
  have F: "bc_fun C = F" using assms(2) by (simp add: mkContext_def)
  obtain b cs where bs: "bs = b # cs" using assms(6) by (cases bs) auto
  have u: "u \<in> set (concat (map (instsOf F) bs))" using assms(6) by simp
  then have uF: "u \<in> set (funcInsts F)" using instsOf_sub [of F] by auto
  then have "blocks F \<noteq> []" by (auto simp: funcInsts_def)
  then obtain T where T: "checkFunction M H bk F E = Some (checkConflicts C LU (activeLoansAtInst T) E)" "flowInv C LU T" "fl_queue T = []"
    using checkFunction_flow [OF assms(1,2,3) _ assms(4)] by metis
  have moves: "movesOnly (activeLoansAtInst T (i_id v))" if "v \<in> set (funcInsts F)" for v
    using allActive_moves [OF T(2,3)] assms(1) F that by simp
  have "x \<in> loanBases (activeLoansAtInst T (i_id u))"
    using walk_active [OF T(2,3), of b cs "xs @ m # ys" u zs] assms(1,5,6,7) F bs by auto
  then have "movedBefore (activeLoansAtInst T (i_id u)) \<lparr>p_base = x, p_proj = []\<rparr>"
    using moves [OF uF] by (auto simp: movedBefore_def loanBases_def conflictsWith_def movesOnly_def)
  then have v: "checkInst C LU (activeLoansAtInst T) u E2 = violation (i_loc u) useOfMoved E2" for E2
    using assms(8,9,10) checkLoad_moves [OF moves [OF uF]] by (auto simp: checkInst_def)
  have "\<exists>ms r. printed (checkConflicts C LU (activeLoansAtInst T) E) = printed E @ ms \<and> r \<in> set ms \<and>
      (msg_loc r = i_loc u \<and> msg_text r = ''Borrow checker violation: '' @ useOfMoved)"
    unfolding checkConflicts_def F
  proof (rule fold_reports [where u = u])
    show "reports E2 (checkInst C LU (activeLoansAtInst T) i E2)" if "i \<in> set (funcInsts F)" for i E2
      using checkInst_reports moves that by simp
    show "\<exists>ms r. printed (checkInst C LU (activeLoansAtInst T) u E2) = printed E2 @ ms \<and> r \<in> set ms \<and>
      (msg_loc r = i_loc u \<and> msg_text r = ''Borrow checker violation: '' @ useOfMoved)" for E2
      unfolding v by (subst printed_violation) auto
  qed (rule uF)
  then show ?thesis using T(1) by auto
qed

theorem use_after_move_reported_witness:
  "\<exists>E1 ms r. checkFunction exModule exTypes noKind movesTwice DiagnosticEngine = Some E1 \<and>
     printed E1 = printed DiagnosticEngine @ ms \<and> r \<in> set ms \<and> msg_loc r = 5"
proof -
  let ?C = "mkContext exModule exTypes noKind movesTwice"
  have c: "flowInput movesTwice" "operandsEnd ?C" "walk movesTwice [0]"
    "concat (map (instsOf movesTwice) [0]) = take 2 (instsOf movesTwice 0) @ exInst 3 1 (LoadInst (VInst 1) 8 False) #
       [exInst 4 1 (StoreInst (VInst 3) (VInst 2) 8 False)] @ exInst 5 1 (LoadInst (VInst 1) 8 False) # drop 5 (instsOf movesTwice 0)"
    "VInst 1 \<in> p_base ` set (movedPlaces ?C (computeLiveness ?C) (exInst 3 1 (LoadInst (VInst 1) 8 False)))"
    "\<not> isImplicitDrop ?C (computeLiveness ?C) (exInst 5 1 (LoadInst (VInst 1) 8 False))"
    "\<lparr>p_base = VInst 1, p_proj = []\<rparr> \<in> set (resolvePlace ?C (VInst 1))" by code_simp+
  have i: "i_body (exInst 5 1 (LoadInst (VInst 1) 8 False)) = LoadInst (VInst 1) 8 False" "i_loc (exInst 5 1 (LoadInst (VInst 1) 8 False)) = 5"
    by (simp_all add: exInst_def)
  show ?thesis using use_after_move_reported [OF c(1) refl c(2) refl c(3,4,5) i(1) c(6,7), of DiagnosticEngine] i(2) by metis
qed


end
