(* ===== verification/Scheduler.thy ===== *)
theory Scheduler
  imports Moksha_Prelude
begin

text \<open>
  The cooperative scheduler of the runtime (\<open>runtime/src/async/scheduler.c\<close>): the registry of
  priorities and the queue of tasks that are ready to run.

  The two linked lists are lists of nodes from the head on; a node keeps its address, so that the
  pointer \<open>queue_tail\<close> can be compared with it.  Every function holds \<open>sched_lock\<close> while it works on
  the lists, so one call is one step.  The address of a new node comes from the allocator and is an
  argument.  Incrementing a priority that is the largest \<open>int32_t\<close> is undefined: the result is \<open>None\<close>.
\<close>

subsection \<open>State\<close>

record task_node =
  node_addr :: nat
  coro_handle :: nat
  task_priority :: int

record scheduler =
  priority_registry :: "(nat \<times> int) list"
  task_queue :: "task_node list"
  queue_tail :: "nat option"
  active_tasks :: "32 word"

abbreviation int32_max :: int where
  "int32_max \<equiv> 2147483647"

definition moksha_scheduler_init :: scheduler where
  "moksha_scheduler_init = \<lparr>priority_registry = [], task_queue = [], queue_tail = None, active_tasks = 0\<rparr>"

subsection \<open>The registry of priorities\<close>

fun set_priority_loop :: "nat \<Rightarrow> int \<Rightarrow> (nat \<times> int) list \<Rightarrow> (nat \<times> int) list option" where
  "set_priority_loop h p [] = None"
| "set_priority_loop h p ((k, q) # r) =
     (if k = h then Some ((k, p) # r) else map_option (Cons (k, q)) (set_priority_loop h p r))"

definition moksha_scheduler_set_priority :: "nat \<Rightarrow> int \<Rightarrow> scheduler \<Rightarrow> scheduler" where
  "moksha_scheduler_set_priority h p S =
     (case set_priority_loop h p (priority_registry S) of
       Some r \<Rightarrow> S\<lparr>priority_registry := r\<rparr>
     | None \<Rightarrow> S\<lparr>priority_registry := (h, p) # priority_registry S\<rparr>)"

fun get_priority_loop :: "nat \<Rightarrow> (nat \<times> int) list \<Rightarrow> int" where
  "get_priority_loop h [] = 1"
| "get_priority_loop h ((k, q) # r) = (if k = h then q else get_priority_loop h r)"

definition moksha_scheduler_get_priority :: "nat \<Rightarrow> scheduler \<Rightarrow> int" where
  "moksha_scheduler_get_priority h S = get_priority_loop h (priority_registry S)"

fun remove_priority_loop :: "nat \<Rightarrow> (nat \<times> int) list \<Rightarrow> (nat \<times> int) list" where
  "remove_priority_loop h [] = []"
| "remove_priority_loop h ((k, q) # r) = (if k = h then r else (k, q) # remove_priority_loop h r)"

definition moksha_scheduler_remove_priority :: "nat \<Rightarrow> scheduler \<Rightarrow> scheduler" where
  "moksha_scheduler_remove_priority h S =
     S\<lparr>priority_registry := remove_priority_loop h (priority_registry S)\<rparr>"

subsection \<open>The queue\<close>

fun insert_behind :: "task_node \<Rightarrow> task_node list \<Rightarrow> task_node list" where
  "insert_behind n [] = [n]"
| "insert_behind n [c] = [c, n]"
| "insert_behind n (c # d # r) =
     (if task_priority n \<le> task_priority d then c # insert_behind n (d # r) else c # n # d # r)"

definition moksha_scheduler_schedule :: "nat \<Rightarrow> nat \<Rightarrow> scheduler \<Rightarrow> scheduler" where
  "moksha_scheduler_schedule a h S =
     (if h = 0 then S
      else let p = moksha_scheduler_get_priority h S;
          n = \<lparr>node_addr = a, coro_handle = h, task_priority = p\<rparr> in
        case task_queue S of
          [] \<Rightarrow> S\<lparr>task_queue := [n], queue_tail := (if queue_tail S = None then Some a else queue_tail S)\<rparr>
        | q # r \<Rightarrow>
            if task_priority q < p
            then S\<lparr>task_queue := n # q # r, queue_tail := (if queue_tail S = None then Some a else queue_tail S)\<rparr>
            else let Q = insert_behind n (q # r) in
              S\<lparr>task_queue := Q, queue_tail := (if last Q = n then Some a else queue_tail S)\<rparr>)"

datatype run_result = Done | Resume nat | Poll

definition age :: "task_node \<Rightarrow> task_node" where
  "age n = n\<lparr>task_priority := task_priority n + 1\<rparr>"

definition moksha_scheduler_run :: "scheduler \<Rightarrow> (run_result \<times> scheduler) option" where
  "moksha_scheduler_run S =
     (case task_queue S of
       [] \<Rightarrow> Some (if active_tasks S = 0 then Done else Poll, S)
     | n # r \<Rightarrow>
         if list_all (\<lambda>m. task_priority m < int32_max) r
         then Some (Resume (coro_handle n),
           S\<lparr>task_queue := map age r, queue_tail := (if r = [] then None else queue_tail S)\<rparr>)
         else None)"

definition moksha_scheduler_inc_active :: "scheduler \<Rightarrow> scheduler" where
  "moksha_scheduler_inc_active S = S\<lparr>active_tasks := active_tasks S + 1\<rparr>"

definition moksha_scheduler_dec_active :: "scheduler \<Rightarrow> scheduler" where
  "moksha_scheduler_dec_active S =
     (if 0 < active_tasks S then S\<lparr>active_tasks := active_tasks S - 1\<rparr> else S)"

definition moksha_scheduler_is_active :: "scheduler \<Rightarrow> bool" where
  "moksha_scheduler_is_active S \<longleftrightarrow> 0 < active_tasks S \<or> task_queue S \<noteq> []"

subsection \<open>Histories\<close>

datatype sched_op =
    SetPriority nat int
  | RemovePriority nat
  | Schedule nat nat
  | Run
  | IncActive
  | DecActive

fun sched_step :: "sched_op \<Rightarrow> scheduler \<Rightarrow> scheduler option" where
  "sched_step (SetPriority h p) S = Some (moksha_scheduler_set_priority h p S)"
| "sched_step (RemovePriority h) S = Some (moksha_scheduler_remove_priority h S)"
| "sched_step (Schedule a h) S = Some (moksha_scheduler_schedule a h S)"
| "sched_step Run S = map_option snd (moksha_scheduler_run S)"
| "sched_step IncActive S = Some (moksha_scheduler_inc_active S)"
| "sched_step DecActive S = Some (moksha_scheduler_dec_active S)"

text \<open>The law of the allocator: a new node has an address that no queued node has.\<close>

fun fresh_op :: "sched_op \<Rightarrow> scheduler \<Rightarrow> bool" where
  "fresh_op (Schedule a h) S \<longleftrightarrow> a \<notin> node_addr ` set (task_queue S)"
| "fresh_op _ S \<longleftrightarrow> True"

inductive sched_reach :: "scheduler \<Rightarrow> bool" where
  init: "sched_reach moksha_scheduler_init"
| step: "sched_reach S \<Longrightarrow> fresh_op c S \<Longrightarrow> sched_step c S = Some T \<Longrightarrow> sched_reach T"

subsection \<open>The order of the queue\<close>

abbreviation ordered :: "task_node list \<Rightarrow> bool" where
  "ordered \<equiv> sorted_wrt (\<lambda>m n. task_priority n \<le> task_priority m)"

definition tail_of :: "task_node list \<Rightarrow> nat option" where
  "tail_of q = (if q = [] then None else Some (node_addr (last q)))"

definition sched_inv :: "scheduler \<Rightarrow> bool" where
  "sched_inv S \<longleftrightarrow> ordered (task_queue S) \<and> distinct (map node_addr (task_queue S)) \<and>
     queue_tail S = tail_of (task_queue S)"

lemma set_insert_behind [simp]: "set (insert_behind n q) = insert n (set q)"
  by (induction n q rule: insert_behind.induct) auto

lemma insert_behind_not_Nil [simp]: "insert_behind n q \<noteq> []"
  by (induction n q rule: insert_behind.induct) auto

lemma insert_behind_split:
  "ordered (c # q) \<Longrightarrow> task_priority n \<le> task_priority c \<Longrightarrow>
   insert_behind n (c # q) =
     takeWhile (\<lambda>m. task_priority n \<le> task_priority m) (c # q) @ n # dropWhile (\<lambda>m. task_priority n \<le> task_priority m) (c # q)"
  by (induction n "c # q" arbitrary: c q rule: insert_behind.induct) auto

text \<open>The reference: behind everything of at least its priority, in front of everything else.\<close>

definition place :: "task_node \<Rightarrow> task_node list \<Rightarrow> task_node list" where
  "place n q = takeWhile (\<lambda>m. task_priority n \<le> task_priority m) q @ n # dropWhile (\<lambda>m. task_priority n \<le> task_priority m) q"

lemma ordered_place: "ordered q \<Longrightarrow> ordered (place n q)"
  by (induction q) (auto simp: place_def dest: set_takeWhileD set_dropWhileD)

lemma set_place [simp]: "set (place n q) = insert n (set q)"
  unfolding place_def by (metis set_append list.simps(15) takeWhile_dropWhile_id Un_insert_right)

lemma place_not_Nil [simp]: "place n q \<noteq> []"
  by (simp add: place_def)

lemma distinct_place:
  assumes "distinct (map node_addr q)" "node_addr n \<notin> node_addr ` set q"
  shows "distinct (map node_addr (place n q))"
proof -
  let ?P = "\<lambda>m. task_priority n \<le> task_priority m"
  have "distinct (map node_addr (takeWhile ?P q @ dropWhile ?P q))"
    "node_addr n \<notin> node_addr ` set (takeWhile ?P q @ dropWhile ?P q)"
    unfolding takeWhile_dropWhile_id by (rule assms)+
  then show ?thesis by (auto simp: place_def image_Un simp del: takeWhile_dropWhile_id)
qed

lemma ordered_drop:
  "ordered q \<Longrightarrow> m \<in> set (dropWhile (\<lambda>m. task_priority n \<le> task_priority m) q) \<Longrightarrow> task_priority m < task_priority n"
  by (induction q) (auto split: if_splits)

lemma last_place:
  "ordered q \<Longrightarrow> last (place n q) = (if list_all (\<lambda>m. task_priority n \<le> task_priority m) q then n else last q)"
  by (induction q) (auto simp: place_def list_all_iff dropWhile_eq_Nil_conv split: if_splits)

lemma schedule_queue:
  assumes "sched_inv S" "h \<noteq> 0"
  shows "task_queue (moksha_scheduler_schedule a h S) =
     place \<lparr>node_addr = a, coro_handle = h, task_priority = moksha_scheduler_get_priority h S\<rparr> (task_queue S)"
  using assms
  by (auto simp: moksha_scheduler_schedule_def sched_inv_def Let_def place_def insert_behind_split split: list.splits)

lemma schedule_tail:
  assumes "sched_inv S" "h \<noteq> 0" "a \<notin> node_addr ` set (task_queue S)"
  shows "queue_tail (moksha_scheduler_schedule a h S) = tail_of (task_queue (moksha_scheduler_schedule a h S))"
proof (cases "task_queue S")
  case Nil
  with assms show ?thesis by (simp add: moksha_scheduler_schedule_def sched_inv_def tail_of_def)
next
  case (Cons q r)
  define n where "n = \<lparr>node_addr = a, coro_handle = h, task_priority = moksha_scheduler_get_priority h S\<rparr>"
  have q: "ordered (q # r)" "queue_tail S = Some (node_addr (last (q # r)))"
    using assms(1) Cons by (simp_all add: sched_inv_def tail_of_def)
  show ?thesis
  proof (cases "task_priority q < task_priority n")
    case True
    then show ?thesis using Cons q assms(2)
      by (simp add: moksha_scheduler_schedule_def Let_def tail_of_def n_def)
  next
    case False
    then have "insert_behind n (q # r) = place n (q # r)"
      using q by (simp add: insert_behind_split place_def)
    moreover have "last (place n (q # r)) = n \<or> last (place n (q # r)) = last (q # r)"
      using last_place [OF q(1), of n] by (auto split: if_splits)
    ultimately show ?thesis using False Cons q assms(2)
      by (auto simp: moksha_scheduler_schedule_def Let_def tail_of_def n_def)
  qed
qed

lemma age_simps [simp]:
  "node_addr (age n) = node_addr n" "coro_handle (age n) = coro_handle n" "task_priority (age n) = task_priority n + 1"
  by (simp_all add: age_def)

lemma age_comp [simp]: "node_addr \<circ> age = node_addr"
  by (rule ext) simp

lemma registry_queue [simp]:
  "task_queue (moksha_scheduler_set_priority h p S) = task_queue S"
  "queue_tail (moksha_scheduler_set_priority h p S) = queue_tail S"
  "task_queue (moksha_scheduler_remove_priority h S) = task_queue S"
  "queue_tail (moksha_scheduler_remove_priority h S) = queue_tail S"
  "task_queue (moksha_scheduler_inc_active S) = task_queue S"
  "queue_tail (moksha_scheduler_inc_active S) = queue_tail S"
  "task_queue (moksha_scheduler_dec_active S) = task_queue S"
  "queue_tail (moksha_scheduler_dec_active S) = queue_tail S"
  by (auto simp: moksha_scheduler_set_priority_def moksha_scheduler_remove_priority_def
    moksha_scheduler_inc_active_def moksha_scheduler_dec_active_def split: option.splits)

lemma run_queue:
  "moksha_scheduler_run S = Some (x, T) \<Longrightarrow> task_queue T = map age (tl (task_queue S)) \<and>
     queue_tail T = (if tl (task_queue S) = [] \<and> task_queue S \<noteq> [] then None else queue_tail S) \<and>
     priority_registry T = priority_registry S"
  by (auto simp: moksha_scheduler_run_def split: list.splits if_splits)

lemma ordered_age: "ordered q \<Longrightarrow> ordered (map age q)"
  by (simp add: sorted_wrt_map)

lemma sched_inv_step:
  assumes "sched_inv S" "fresh_op c S" "sched_step c S = Some T"
  shows "sched_inv T"
proof (cases c)
  case (Schedule a h)
  show ?thesis
  proof (cases "h = 0")
    case True
    then show ?thesis using assms Schedule by (simp add: moksha_scheduler_schedule_def)
  next
    case False
    then show ?thesis
      using assms Schedule schedule_queue [OF assms(1) False, of a] schedule_tail [OF assms(1) False, of a]
      by (simp add: sched_inv_def ordered_place distinct_place)
  qed
next
  case Run
  then obtain x where r: "moksha_scheduler_run S = Some (x, T)" using assms(3) by auto
  show ?thesis
    using run_queue [OF r] assms(1)
    by (cases "task_queue S") (auto simp: sched_inv_def tail_of_def ordered_age last_map sorted_wrt_map)
qed (use assms in \<open>auto simp: sched_inv_def\<close>)

lemma reach_inv: "sched_reach S \<Longrightarrow> sched_inv S"
proof (induction rule: sched_reach.induct)
  case init
  then show ?case by (simp add: moksha_scheduler_init_def sched_inv_def tail_of_def)
next
  case (step S c T)
  then show ?case by (blast intro: sched_inv_step)
qed

subsection \<open>Waiting\<close>

text \<open>The place of a node in the queue, and how much it lacks to the highest priority \<open>P\<close>.\<close>

definition queued :: "nat \<Rightarrow> scheduler \<Rightarrow> bool" where
  "queued a S \<longleftrightarrow> a \<in> node_addr ` set (task_queue S)"

definition ahead :: "nat \<Rightarrow> scheduler \<Rightarrow> nat" where
  "ahead a S = length (takeWhile (\<lambda>m. node_addr m \<noteq> a) (task_queue S))"

definition node_at :: "nat \<Rightarrow> scheduler \<Rightarrow> task_node" where
  "node_at a S = task_queue S ! ahead a S"

definition lack :: "int \<Rightarrow> nat \<Rightarrow> scheduler \<Rightarrow> nat" where
  "lack P a S = nat (P - task_priority (node_at a S))"

definition bounded :: "int \<Rightarrow> scheduler \<Rightarrow> bool" where
  "bounded P S \<longleftrightarrow> 1 \<le> P \<and> list_all (\<lambda>(h, p). p \<le> P) (priority_registry S)"

fun bounded_op :: "int \<Rightarrow> sched_op \<Rightarrow> bool" where
  "bounded_op P (SetPriority h p) \<longleftrightarrow> p \<le> P"
| "bounded_op P _ \<longleftrightarrow> True"

lemma get_bounded: "bounded P S \<Longrightarrow> moksha_scheduler_get_priority h S \<le> P"
proof -
  have "1 \<le> P \<Longrightarrow> list_all (\<lambda>(h, p). p \<le> P) r \<Longrightarrow> get_priority_loop h r \<le> P" for r
    by (induction r) auto
  then show "bounded P S \<Longrightarrow> moksha_scheduler_get_priority h S \<le> P"
    by (simp add: bounded_def moksha_scheduler_get_priority_def)
qed

lemma set_loop_bounded:
  "list_all (\<lambda>(h, p). p \<le> P) r \<Longrightarrow> p \<le> P \<Longrightarrow> set_priority_loop h p r = Some r' \<Longrightarrow> list_all (\<lambda>(h, p). p \<le> P) r'"
  by (induction r arbitrary: r') (auto split: if_splits)

lemma remove_loop_bounded:
  "list_all (\<lambda>(h, p). p \<le> P) r \<Longrightarrow> list_all (\<lambda>(h, p). p \<le> P) (remove_priority_loop h r)"
  by (induction r) auto

lemma schedule_registry [simp]: "priority_registry (moksha_scheduler_schedule a h S) = priority_registry S"
  by (auto simp: moksha_scheduler_schedule_def Let_def split: list.splits)

lemma bounded_step:
  assumes "bounded P S" "bounded_op P c" "sched_step c S = Some T"
  shows "bounded P T"
proof (cases c)
  case (SetPriority h p)
  then show ?thesis using assms
    by (auto simp: bounded_def moksha_scheduler_set_priority_def split: option.splits intro: set_loop_bounded)
next
  case (RemovePriority h)
  then show ?thesis using assms
    by (auto simp: bounded_def moksha_scheduler_remove_priority_def remove_loop_bounded)
next
  case Run
  then obtain x where "moksha_scheduler_run S = Some (x, T)" using assms(3) by auto
  from run_queue [OF this] assms(1) show ?thesis by (simp add: bounded_def)
qed (use assms in \<open>auto simp: bounded_def moksha_scheduler_inc_active_def moksha_scheduler_dec_active_def\<close>)

lemma queued_split:
  assumes "queued a S"
  obtains xs n ys where "task_queue S = xs @ n # ys" "node_addr n = a" "a \<notin> node_addr ` set xs"
    "ahead a S = length xs" "node_at a S = n"
proof -
  from assms have "\<exists>m\<in>set (task_queue S). node_addr m = a" by (auto simp: queued_def)
  then obtain xs n ys where q: "task_queue S = xs @ n # ys" "node_addr n = a" "\<forall>m\<in>set xs. node_addr m \<noteq> a"
    by (auto simp: split_list_first_prop_iff)
  then have "ahead a S = length xs" "node_at a S = n"
    by (simp_all add: ahead_def node_at_def)
  with q show thesis by (intro that [of xs n ys]) auto
qed

lemma place_simps:
  "place n [] = [n]"
  "place n (m # ys) = (if task_priority n \<le> task_priority m then m # place n ys else n # m # ys)"
  by (simp_all add: place_def)

lemma place_append:
  "place n (xs @ ys) =
     (if list_all (\<lambda>m. task_priority n \<le> task_priority m) xs then xs @ place n ys else place n xs @ ys)"
  by (induction xs) (auto simp: place_def)

lemma place_keeps:
  assumes "ordered (xs @ m # ys)"
  obtains xs' ys' where "place n (xs @ m # ys) = xs' @ m # ys'" "set xs' \<subseteq> insert n (set xs)"
    "task_priority n \<le> task_priority m \<Longrightarrow> xs' = xs"
proof (cases "list_all (\<lambda>m. task_priority n \<le> task_priority m) xs")
  case True
  show thesis
  proof (cases "task_priority n \<le> task_priority m")
    case le: True
    with True show thesis by (intro that [of xs "place n ys"]) (auto simp: place_append place_simps)
  next
    case False
    with True show thesis by (intro that [of "xs @ [n]" ys]) (auto simp: place_append place_simps)
  qed
next
  case False
  then have "\<not> task_priority n \<le> task_priority m"
    using assms by (force simp: list_all_iff sorted_wrt_append)
  with False show thesis by (intro that [of "place n xs" ys]) (auto simp: place_append)
qed

lemma waiting_at:
  assumes "task_queue S = xs @ n # ys" "node_addr n = a" "a \<notin> node_addr ` set xs"
  shows "queued a S" "ahead a S = length xs" "node_at a S = n"
proof -
  have "\<forall>m\<in>set xs. node_addr m \<noteq> a" using assms(3) by blast
  then show "queued a S" "ahead a S = length xs" "node_at a S = n"
    using assms(1,2) by (simp_all add: queued_def ahead_def node_at_def)
qed

lemma wait_run:
  assumes "queued a S" "ahead a S \<noteq> 0" "sched_step Run S = Some T"
  shows "queued a T \<and> ahead a T = ahead a S - 1 \<and> lack P a T = lack P a S - 1 \<and> coro_handle (node_at a T) = coro_handle (node_at a S)"
proof -
  from assms(1) obtain xs n ys where q: "task_queue S = xs @ n # ys" "node_addr n = a"
    "a \<notin> node_addr ` set xs" "ahead a S = length xs" "node_at a S = n" by (rule queued_split)
  then obtain x xs' where xs: "xs = x # xs'" using assms(2) by (cases xs) auto
  obtain y where "moksha_scheduler_run S = Some (y, T)" using assms(3) by auto
  from run_queue [OF this] have "task_queue T = map age xs' @ age n # map age ys" using q xs by simp
  moreover have "a \<notin> node_addr ` set (map age xs')" using q xs by (auto simp: image_image)
  ultimately show ?thesis using waiting_at [of T "map age xs'" "age n" "map age ys" a] q xs
    by (simp add: lack_def)
qed

lemma wait_other:
  assumes "queued a S" "sched_inv S" "bounded P S" "fresh_op c S" "sched_step c S = Some T" "c \<noteq> Run"
  shows "queued a T \<and> lack P a T = lack P a S \<and> (lack P a S = 0 \<longrightarrow> ahead a T = ahead a S) \<and> coro_handle (node_at a T) = coro_handle (node_at a S)"
proof (cases "task_queue T = task_queue S")
  case True
  then show ?thesis using assms(1) by (simp add: queued_def ahead_def node_at_def lack_def)
next
  case False
  then obtain b h where c: "c = Schedule b h" using assms(5,6) by (cases c) auto
  then have T: "T = moksha_scheduler_schedule b h S" using assms(5) by simp
  then have h: "h \<noteq> 0" using False by (cases "h = 0") (simp_all add: moksha_scheduler_schedule_def)
  define m where "m = \<lparr>node_addr = b, coro_handle = h, task_priority = moksha_scheduler_get_priority h S\<rparr>"
  from assms(1) obtain xs n ys where q: "task_queue S = xs @ n # ys" "node_addr n = a"
    "a \<notin> node_addr ` set xs" "ahead a S = length xs" "node_at a S = n" by (rule queued_split)
  have "ordered (xs @ n # ys)" using assms(2) q(1) by (simp add: sched_inv_def)
  then obtain xs' ys' where p: "place m (xs @ n # ys) = xs' @ n # ys'" "set xs' \<subseteq> insert m (set xs)"
    "task_priority m \<le> task_priority n \<Longrightarrow> xs' = xs" by (rule place_keeps [of _ _ _ m]) blast
  have "a \<noteq> b" using assms(1,4) c by (auto simp: queued_def)
  then have "a \<notin> node_addr ` set xs'" using p(2) q(3) by (auto simp: m_def)
  moreover have "task_queue T = xs' @ n # ys'" using schedule_queue [OF assms(2) h, of b] T q(1) p(1)
    by (simp add: m_def)
  ultimately have w: "queued a T" "ahead a T = length xs'" "node_at a T = n" using waiting_at q(2) by blast+
  have "task_priority m \<le> P" using get_bounded [OF assms(3)] by (simp add: m_def)
  then have "lack P a S = 0 \<longrightarrow> task_priority m \<le> task_priority n" using q(5) by (auto simp: lack_def)
  then show ?thesis using w p(3) q(4,5) by (auto simp: lack_def)
qed

text \<open>
  A run: the states, the operations between them, and what is known of both.
\<close>

definition sched_run :: "int \<Rightarrow> (nat \<Rightarrow> scheduler) \<Rightarrow> (nat \<Rightarrow> sched_op) \<Rightarrow> bool" where
  "sched_run P s c \<longleftrightarrow> sched_inv (s 0) \<and> bounded P (s 0) \<and>
     (\<forall>i. fresh_op (c i) (s i) \<and> bounded_op P (c i) \<and> sched_step (c i) (s i) = Some (s (Suc i))) \<and>
     (\<forall>i. \<exists>j\<ge>i. c j = Run)"

lemma sched_runD:
  assumes "sched_run P s c"
  shows "sched_inv (s i)" "bounded P (s i)" "fresh_op (c i) (s i)" "sched_step (c i) (s i) = Some (s (Suc i))"
    "\<exists>j\<ge>i. c j = Run"
proof -
  have "sched_inv (s i) \<and> bounded P (s i)"
    by (induction i) (use assms in \<open>auto simp: sched_run_def intro: sched_inv_step bounded_step\<close>)
  then show "sched_inv (s i)" "bounded P (s i)" by auto
  show "fresh_op (c i) (s i)" "sched_step (c i) (s i) = Some (s (Suc i))" "\<exists>j\<ge>i. c j = Run"
    using assms by (auto simp: sched_run_def)
qed

lemma wait_until_run:
  assumes "sched_run P s c" "queued a (s i)" "\<forall>k. i \<le> k \<and> k < i + d \<longrightarrow> c k \<noteq> Run"
  shows "queued a (s (i + d)) \<and> lack P a (s (i + d)) = lack P a (s i) \<and>
     (lack P a (s i) = 0 \<longrightarrow> ahead a (s (i + d)) = ahead a (s i)) \<and>
     coro_handle (node_at a (s (i + d))) = coro_handle (node_at a (s i))"
  using assms(3)
proof (induction d)
  case (Suc d)
  then show ?case using wait_other [of a "s (i + d)" P "c (i + d)" "s (Suc (i + d))"] sched_runD [OF assms(1), of "i + d"]
    by auto
qed (use assms(2) in simp)

lemma first_run:
  assumes "sched_run P s c"
  obtains d where "c (i + d) = Run" "\<forall>k. i \<le> k \<and> k < i + d \<longrightarrow> c k \<noteq> Run"
proof -
  from sched_runD(5) [OF assms, of i] obtain j where "i \<le> j" "c j = Run" by blast
  then have ex: "\<exists>d. c (i + d) = Run" by (intro exI [of _ "j - i"]) simp
  define d where "d = (LEAST d. c (i + d) = Run)"
  have "c (i + d) = Run" using LeastI_ex [OF ex] by (simp add: d_def)
  moreover have "c (i + e) \<noteq> Run" if "e < d" for e using not_less_Least [of e "\<lambda>d. c (i + d) = Run"] that by (simp add: d_def)
  then have "\<forall>k. i \<le> k \<and> k < i + d \<longrightarrow> c k \<noteq> Run" by (metis add_less_cancel_left le_iff_add)
  ultimately show thesis by (rule that)
qed

lemma eventually_first:
  assumes "sched_run P s c"
  shows "queued a (s i) \<Longrightarrow> \<exists>j\<ge>i. c j = Run \<and> queued a (s j) \<and> ahead a (s j) = 0 \<and>
     coro_handle (node_at a (s j)) = coro_handle (node_at a (s i))"
proof (induction "(lack P a (s i), ahead a (s i))" arbitrary: i rule: wf_induct_rule [OF wf_lex_prod [OF wf_less_than wf_less_than]])
  case 1
  obtain d where d: "c (i + d) = Run" "\<forall>k. i \<le> k \<and> k < i + d \<longrightarrow> c k \<noteq> Run" by (rule first_run [OF assms])
  note w = wait_until_run [OF assms 1(2) d(2)]
  show ?case
  proof (cases "ahead a (s (i + d)) = 0")
    case True
    then show ?thesis using w d(1) by (intro exI [of _ "i + d"]) simp
  next
    case False
    have "sched_step Run (s (i + d)) = Some (s (Suc (i + d)))" using sched_runD(4) [OF assms, of "i + d"] d(1) by simp
    from wait_run [OF _ False this, of P] w have n: "queued a (s (Suc (i + d)))"
      "ahead a (s (Suc (i + d))) = ahead a (s (i + d)) - 1" "lack P a (s (Suc (i + d))) = lack P a (s i) - 1"
      "coro_handle (node_at a (s (Suc (i + d)))) = coro_handle (node_at a (s i))" by auto
    have "((lack P a (s (Suc (i + d))), ahead a (s (Suc (i + d)))), (lack P a (s i), ahead a (s i))) \<in> less_than <*lex*> less_than"
      using n w False by (cases "lack P a (s i)") auto
    from 1(1) [OF this n(1)] obtain j where "Suc (i + d) \<le> j" "c j = Run" "queued a (s j)" "ahead a (s j) = 0"
      "coro_handle (node_at a (s j)) = coro_handle (node_at a (s (Suc (i + d))))" by blast
    with n(4) show ?thesis by (intro exI [of _ j]) auto
  qed
qed

subsection \<open>Properties\<close>

text \<open>
  The queue of the scheduler.  In every reachable state the tasks are queued by falling priority,
  the tail pointer is the last node, and a newly scheduled task is placed behind all tasks of at least
  its priority and in front of all others, so tasks of equal priority run in the order of their
  scheduling.
\<close>

theorem scheduler_order:
  assumes "sched_reach S" "h \<noteq> 0"
  shows "sorted_wrt (\<lambda>m n. task_priority n \<le> task_priority m) (task_queue S) \<and>
     queue_tail S = (if task_queue S = [] then None else Some (node_addr (last (task_queue S)))) \<and>
     (\<exists>xs ys n. task_queue S = xs @ ys \<and> task_queue (moksha_scheduler_schedule a h S) = xs @ n # ys \<and>
        node_addr n = a \<and> coro_handle n = h \<and> task_priority n = moksha_scheduler_get_priority h S \<and>
        (\<forall>m\<in>set xs. task_priority n \<le> task_priority m) \<and> (\<forall>m\<in>set ys. task_priority m < task_priority n))"
proof -
  have i: "sched_inv S" by (rule reach_inv [OF assms(1)])
  let ?n = "\<lparr>node_addr = a, coro_handle = h, task_priority = moksha_scheduler_get_priority h S\<rparr>"
  let ?P = "\<lambda>m. task_priority ?n \<le> task_priority m"
  have "\<forall>m\<in>set (dropWhile ?P (task_queue S)). task_priority m < task_priority ?n"
    using i ordered_drop [where q = "task_queue S" and n = ?n] unfolding sched_inv_def by blast
  moreover have "\<forall>m\<in>set (takeWhile ?P (task_queue S)). task_priority ?n \<le> task_priority m"
    using set_takeWhileD by fastforce
  ultimately have "\<exists>xs ys n. task_queue S = xs @ ys \<and> task_queue (moksha_scheduler_schedule a h S) = xs @ n # ys \<and>
        node_addr n = a \<and> coro_handle n = h \<and> task_priority n = moksha_scheduler_get_priority h S \<and>
        (\<forall>m\<in>set xs. task_priority n \<le> task_priority m) \<and> (\<forall>m\<in>set ys. task_priority m < task_priority n)"
    using schedule_queue [OF i assms(2), of a]
    by (intro exI [of _ "takeWhile ?P (task_queue S)"] exI [of _ "dropWhile ?P (task_queue S)"] exI [of _ ?n])
      (simp add: place_def)
  with i show ?thesis by (simp add: sched_inv_def tail_of_def)
qed

theorem scheduler_order_witness:
  "\<exists>xs ys n. [] = xs @ ys \<and> task_queue (moksha_scheduler_schedule 4 7 moksha_scheduler_init) = xs @ n # ys \<and>
     node_addr n = 4 \<and> coro_handle n = 7 \<and> task_priority n = 1"
proof -
  have g: "moksha_scheduler_get_priority 7 moksha_scheduler_init = 1"
    by (simp add: moksha_scheduler_get_priority_def moksha_scheduler_init_def)
  have q: "task_queue moksha_scheduler_init = []" by (simp add: moksha_scheduler_init_def)
  obtain xs ys n where "[] = xs @ ys" "task_queue (moksha_scheduler_schedule 4 7 moksha_scheduler_init) = xs @ n # ys"
    "node_addr n = 4" "coro_handle n = 7" "task_priority n = 1"
    using scheduler_order [OF sched_reach.init, of 7 4] unfolding g q by force
  then show ?thesis by blast
qed

text \<open>
  C11: No starvation.  In every infinite run of the scheduler in which it is called again and again,
  priorities are at most \<open>P\<close> and no priority overflows, every queued task is resumed: some later call of
  \<open>moksha_scheduler_run\<close> resumes its coroutine.  The ageing of the waiting tasks is what guarantees it,
  however many tasks of higher priority are scheduled in the meantime.
\<close>

theorem no_starvation:
  assumes "sched_run P s c" "queued a (s i)"
  shows "\<exists>j\<ge>i. c j = Run \<and> moksha_scheduler_run (s j) = Some (Resume (coro_handle (node_at a (s i))), s (Suc j))"
proof -
  from eventually_first [OF assms] obtain j where j: "i \<le> j" "c j = Run" "queued a (s j)" "ahead a (s j) = 0"
    "coro_handle (node_at a (s j)) = coro_handle (node_at a (s i))" by blast
  from j(3) obtain xs n ys where q: "task_queue (s j) = xs @ n # ys" "ahead a (s j) = length xs" "node_at a (s j) = n"
    by (rule queued_split)
  then have "task_queue (s j) = n # ys" using j(4) by simp
  moreover have "sched_step Run (s j) = Some (s (Suc j))" using sched_runD(4) [OF assms(1), of j] j(2) by simp
  ultimately have "moksha_scheduler_run (s j) = Some (Resume (coro_handle n), s (Suc j))"
    by (auto simp: moksha_scheduler_run_def split: if_splits)
  then show ?thesis using j q(3) by (intro exI [of _ j]) simp
qed

theorem no_starvation_witness:
  "\<exists>j\<ge>1. (if even j then Schedule 4 7 else Run) = Run \<and>
     moksha_scheduler_run (if even j then moksha_scheduler_init else moksha_scheduler_schedule 4 7 moksha_scheduler_init) =
       Some (Resume 7, if even (Suc j) then moksha_scheduler_init else moksha_scheduler_schedule 4 7 moksha_scheduler_init)"
proof -
  let ?S = "moksha_scheduler_schedule 4 7 moksha_scheduler_init"
  let ?s = "\<lambda>i::nat. if even i then moksha_scheduler_init else ?S"
  let ?c = "\<lambda>i::nat. if even i then Schedule 4 7 else Run"
  have S: "?S = \<lparr>priority_registry = [], task_queue = [\<lparr>node_addr = 4, coro_handle = 7, task_priority = 1\<rparr>],
      queue_tail = Some 4, active_tasks = 0\<rparr>"
    by (simp add: moksha_scheduler_schedule_def moksha_scheduler_get_priority_def moksha_scheduler_init_def)
  have "\<exists>j\<ge>i. ?c j = Run" for i by (intro exI [of _ "2 * i + 1"]) simp
  then have r: "sched_run 1 ?s ?c" unfolding sched_run_def
    by (auto simp: S sched_inv_def bounded_def tail_of_def moksha_scheduler_init_def moksha_scheduler_run_def
      moksha_scheduler_schedule_def moksha_scheduler_get_priority_def)
  have "queued 4 (?s 1)" "coro_handle (node_at 4 (?s 1)) = 7"
    by (simp_all add: S queued_def node_at_def ahead_def)
  then show ?thesis using no_starvation [OF r, of 4 1] by simp
qed

end
