(* ===== verification/Async.thy ===== *)
theory Async
  imports Scheduler
begin

text \<open>
  Promises (\<open>runtime/src/async/task.c\<close>) and channels (\<open>runtime/src/core/channel.c\<close>) on top of the
  scheduler.

  A promise object is a number from 1 on, 0 is the null pointer; a call on a number that is no promise
  is \<open>None\<close>.  Promises are not reclaimed here.  A call is one step: the functions of a channel hold its
  spin lock.  The exception object a rejection carries comes from the allocator: it is the parameter
  \<open>X\<close>, a function of the state.
\<close>

subsection \<open>Promises\<close>

record promise =
  prom_coro_handle :: nat
  is_completed :: bool
  result_data :: nat
  waiting_coro :: nat
  is_rejected :: bool
  was_awaited :: bool

record async =
  promises :: "promise list"
  sched :: scheduler
  node_count :: nat

definition async_init :: async where
  "async_init = \<lparr>promises = [], sched = moksha_scheduler_init, node_count = 0\<rparr>"

definition promise_at :: "async \<Rightarrow> nat \<Rightarrow> promise option" where
  "promise_at A h = (if 0 < h \<and> h \<le> length (promises A) then Some (promises A ! (h - 1)) else None)"

definition set_promise :: "nat \<Rightarrow> promise \<Rightarrow> async \<Rightarrow> async" where
  "set_promise h p A = A\<lparr>promises := (promises A)[h - 1 := p]\<rparr>"

definition new_promise :: "promise \<Rightarrow> async \<Rightarrow> nat \<times> async" where
  "new_promise p A = (Suc (length (promises A)), A\<lparr>promises := promises A @ [p]\<rparr>)"

definition moksha_rt_make_unresolved_promise :: "async \<Rightarrow> nat \<times> async" where
  "moksha_rt_make_unresolved_promise =
     new_promise \<lparr>prom_coro_handle = 0, is_completed = False, result_data = 0, waiting_coro = 0,
       is_rejected = False, was_awaited = False\<rparr>"

definition moksha_rt_make_resolved_promise :: "nat \<Rightarrow> async \<Rightarrow> nat \<times> async" where
  "moksha_rt_make_resolved_promise v =
     new_promise \<lparr>prom_coro_handle = 0, is_completed = True, result_data = v, waiting_coro = 0,
       is_rejected = False, was_awaited = False\<rparr>"

definition moksha_rt_make_rejected_promise :: "nat \<Rightarrow> async \<Rightarrow> nat \<times> async" where
  "moksha_rt_make_rejected_promise ex =
     new_promise \<lparr>prom_coro_handle = 0, is_completed = True, result_data = ex, waiting_coro = 0,
       is_rejected = True, was_awaited = False\<rparr>"

definition schedule_coro :: "nat \<Rightarrow> async \<Rightarrow> async" where
  "schedule_coro h A =
     A\<lparr>sched := moksha_scheduler_schedule (Suc (node_count A)) h (sched A), node_count := Suc (node_count A)\<rparr>"

text \<open>The exchange of \<open>waiting_coro\<close> with null, and the scheduling of what was there.\<close>

definition wake :: "nat \<Rightarrow> async \<Rightarrow> async option" where
  "wake h A =
     (case promise_at A h of
       None \<Rightarrow> None
     | Some p \<Rightarrow>
         let A1 = set_promise h (p\<lparr>waiting_coro := 0\<rparr>) A in
         Some (if waiting_coro p = 0 then A1 else schedule_coro (waiting_coro p) A1))"

definition moksha_rt_resolve_promise :: "nat \<Rightarrow> nat \<Rightarrow> async \<Rightarrow> async option" where
  "moksha_rt_resolve_promise h v A =
     (if h = 0 then Some A
      else case promise_at A h of
        None \<Rightarrow> None
      | Some p \<Rightarrow>
          if is_completed p then Some A
          else wake h (set_promise h (p\<lparr>is_completed := True, result_data := v\<rparr>) A))"

definition moksha_rt_reject_promise :: "nat \<Rightarrow> nat \<Rightarrow> async \<Rightarrow> async option" where
  "moksha_rt_reject_promise h ex A =
     (if h = 0 then Some A
      else case promise_at A h of
        None \<Rightarrow> None
      | Some p \<Rightarrow>
          if is_completed p then Some A
          else wake h (set_promise h (p\<lparr>is_completed := True, is_rejected := True, result_data := ex\<rparr>) A))"

definition moksha_rt_register_await :: "nat \<Rightarrow> nat \<Rightarrow> async \<Rightarrow> async option" where
  "moksha_rt_register_await h coro A =
     (if h = 0 then Some A
      else case promise_at A h of
        None \<Rightarrow> None
      | Some p \<Rightarrow>
          let A1 = set_promise h (p\<lparr>waiting_coro := coro\<rparr>) A in
          if is_completed p then wake h A1 else Some A1)"

text \<open>\<open>Throw\<close> is a call of \<open>moksha_rt_throw\<close>, which does not return.\<close>

datatype await_result = Payload nat | Throw nat

definition moksha_rt_await_payload :: "nat \<Rightarrow> nat \<Rightarrow> async \<Rightarrow> (await_result \<times> nat \<times> async) option" where
  "moksha_rt_await_payload ex_payload h A =
     (if ex_payload \<noteq> 0 then Some (Throw ex_payload, 0, A)
      else case promise_at A h of
        None \<Rightarrow> None
      | Some p \<Rightarrow>
          let A1 = set_promise h (p\<lparr>was_awaited := True\<rparr>) A in
          Some (if is_rejected p then Throw (result_data p) else Payload (result_data p), 0, A1))"

definition moksha_rt_coro_setup :: "int \<Rightarrow> nat \<Rightarrow> async \<Rightarrow> nat \<times> async" where
  "moksha_rt_coro_setup current_spawn_priority coro A =
     (let (h, A1) = new_promise \<lparr>prom_coro_handle = coro, is_completed = False, result_data = 0, waiting_coro = 0,
          is_rejected = False, was_awaited = False\<rparr> A
      in (h, A1\<lparr>sched := moksha_scheduler_inc_active (moksha_scheduler_set_priority coro current_spawn_priority (sched A1))\<rparr>))"

text \<open>
  \<open>moksha_rt_coro_finish\<close>: a payload that is a promise (its header says so: \<open>is_promise\<close>) hands its
  outcome on.
\<close>

definition finish_payload :: "(nat \<Rightarrow> bool) \<Rightarrow> nat \<Rightarrow> nat \<Rightarrow> async \<Rightarrow> async option" where
  "finish_payload is_promise h payload A =
     (case promise_at A h of
       None \<Rightarrow> None
     | Some p \<Rightarrow>
         if payload = 0 then Some A
         else if is_promise payload then
           (case promise_at A payload of
             None \<Rightarrow> None
           | Some inner \<Rightarrow>
               let A1 = set_promise h (p\<lparr>is_rejected := is_rejected p \<or> is_rejected inner, result_data := result_data inner\<rparr>) A
               in map_option (\<lambda>q. set_promise payload (q\<lparr>was_awaited := True\<rparr>) A1) (promise_at A1 payload))
         else Some (set_promise h (p\<lparr>result_data := payload\<rparr>) A))"

definition moksha_rt_coro_finish :: "(nat \<Rightarrow> bool) \<Rightarrow> nat \<Rightarrow> nat \<Rightarrow> async \<Rightarrow> async option" where
  "moksha_rt_coro_finish is_promise h payload A =
     (if h = 0 then Some A
      else case promise_at A h of
        None \<Rightarrow> None
      | Some p \<Rightarrow>
          (case finish_payload is_promise h payload
              (A\<lparr>sched := moksha_scheduler_remove_priority (prom_coro_handle p) (sched A)\<rparr>) of
            None \<Rightarrow> None
          | Some A1 \<Rightarrow>
              (case promise_at A1 h of
                None \<Rightarrow> None
              | Some q \<Rightarrow>
                  map_option (\<lambda>A2. A2\<lparr>sched := moksha_scheduler_dec_active (sched A2)\<rparr>)
                    (wake h (set_promise h (q\<lparr>is_completed := True\<rparr>) A1)))))"

text \<open>\<open>moksha_builtin_cancel\<close> of \<open>async_builtins.c\<close>.\<close>

definition moksha_builtin_cancel :: "(async \<Rightarrow> nat) \<Rightarrow> nat \<Rightarrow> async \<Rightarrow> async option" where
  "moksha_builtin_cancel X h A =
     (if h = 0 then Some A
      else case promise_at A h of
        None \<Rightarrow> None
      | Some p \<Rightarrow>
          if is_completed p then Some A
          else wake h (set_promise h (p\<lparr>is_completed := True, is_rejected := True, was_awaited := True,
            result_data := X A\<rparr>) A))"

subsection \<open>Channels\<close>

record wait_node =
  wn_promise :: nat
  wn_data :: nat

record channel =
  is_closed :: bool
  buffer :: "nat list"
  ch_capacity :: int
  ch_head :: nat
  ch_tail :: nat
  ch_count :: nat
  waiting_receivers :: "nat list"
  waiting_senders :: "wait_node list"

definition Channel_new :: "int \<Rightarrow> channel" where
  "Channel_new capacity =
     \<lparr>is_closed = False, buffer = replicate (nat capacity) 0, ch_capacity = capacity, ch_head = 0, ch_tail = 0,
      ch_count = 0, waiting_receivers = [], waiting_senders = []\<rparr>"

text \<open>Reading at the head and writing at the tail of the ring buffer.\<close>

definition ring_pop :: "channel \<Rightarrow> (nat \<times> channel) option" where
  "ring_pop c =
     (if ch_head c < length (buffer c) \<and> 0 < ch_capacity c \<and> 0 < ch_count c
      then Some (buffer c ! ch_head c,
        c\<lparr>ch_head := (ch_head c + 1) mod nat (ch_capacity c), ch_count := ch_count c - 1\<rparr>)
      else None)"

definition ring_push :: "nat \<Rightarrow> channel \<Rightarrow> channel option" where
  "ring_push v c =
     (if ch_tail c < length (buffer c) \<and> 0 < ch_capacity c
      then Some (c\<lparr>buffer := (buffer c)[ch_tail c := v], ch_tail := (ch_tail c + 1) mod nat (ch_capacity c),
        ch_count := ch_count c + 1\<rparr>)
      else None)"

definition recv_refill :: "channel \<Rightarrow> async \<Rightarrow> (channel \<times> async) option" where
  "recv_refill c A =
     (case waiting_senders c of
       [] \<Rightarrow> Some (c, A)
     | w # ws \<Rightarrow>
         (case ring_push (wn_data w) (c\<lparr>waiting_senders := ws\<rparr>) of
           None \<Rightarrow> None
         | Some c1 \<Rightarrow> map_option (Pair c1) (moksha_rt_resolve_promise (wn_promise w) 0 A)))"

definition Channel_recv :: "(async \<Rightarrow> nat) \<Rightarrow> channel \<Rightarrow> async \<Rightarrow> (nat \<times> channel \<times> async) option" where
  "Channel_recv X c A =
     (let (p, A1) = moksha_rt_make_unresolved_promise A in
      if 0 < ch_count c then
        (case ring_pop c of
          None \<Rightarrow> None
        | Some (v, c1) \<Rightarrow>
            (case recv_refill c1 A1 of
              None \<Rightarrow> None
            | Some (c2, A2) \<Rightarrow> map_option (\<lambda>A3. (p, c2, A3)) (moksha_rt_resolve_promise p v A2)))
      else if is_closed c then map_option (\<lambda>A2. (p, c, A2)) (moksha_rt_reject_promise p (X A1) A1)
      else Some (p, c\<lparr>waiting_receivers := p # waiting_receivers c\<rparr>, A1))"

definition Channel_send :: "(async \<Rightarrow> nat) \<Rightarrow> nat \<Rightarrow> channel \<Rightarrow> async \<Rightarrow> (nat \<times> channel \<times> async) option" where
  "Channel_send X v c A =
     (let (p, A1) = moksha_rt_make_unresolved_promise A in
      if is_closed c then map_option (\<lambda>A2. (p, c, A2)) (moksha_rt_reject_promise p (X A1) A1)
      else case waiting_receivers c of
        r # rs \<Rightarrow>
          (case moksha_rt_resolve_promise r v A1 of
            None \<Rightarrow> None
          | Some A2 \<Rightarrow> map_option (\<lambda>A3. (p, c\<lparr>waiting_receivers := rs\<rparr>, A3)) (moksha_rt_resolve_promise p 0 A2))
      | [] \<Rightarrow>
          if int (ch_count c) < ch_capacity c then
            (case ring_push v c of
              None \<Rightarrow> None
            | Some c1 \<Rightarrow> map_option (\<lambda>A2. (p, c1, A2)) (moksha_rt_resolve_promise p 0 A1))
          else Some (p, c\<lparr>waiting_senders := \<lparr>wn_promise = p, wn_data = v\<rparr> # waiting_senders c\<rparr>, A1))"

fun reject_all :: "(async \<Rightarrow> nat) \<Rightarrow> nat list \<Rightarrow> async \<Rightarrow> async option" where
  "reject_all X [] A = Some A"
| "reject_all X (p # ps) A =
     (case moksha_rt_reject_promise p (X A) A of None \<Rightarrow> None | Some A1 \<Rightarrow> reject_all X ps A1)"

definition Channel_close :: "(async \<Rightarrow> nat) \<Rightarrow> channel \<Rightarrow> async \<Rightarrow> (channel \<times> async) option" where
  "Channel_close X c A =
     map_option (Pair (c\<lparr>is_closed := True, waiting_receivers := [], waiting_senders := []\<rparr>))
       (reject_all X (waiting_receivers c @ map wn_promise (waiting_senders c)) A)"

end
