(* ===== verification/AsyncProps.thy ===== *)
theory AsyncProps
  imports Async
begin

text \<open>
  What the channels of the runtime guarantee.  The interface \<open>bounded_fifo\<close> is a bounded queue as its
  client sees it; it is interpreted on a channel together with the promises it hands out.
\<close>

subsection \<open>Promises\<close>

definition valid :: "async \<Rightarrow> nat \<Rightarrow> bool" where
  "valid A h \<longleftrightarrow> 0 < h \<and> h \<le> length (promises A)"

lemma promise_at_valid: "valid A h \<Longrightarrow> promise_at A h = Some (promises A ! (h - 1))"
  by (simp add: valid_def promise_at_def)

lemma promise_at_conv: "(promise_at A h = None) \<longleftrightarrow> \<not> valid A h"
  by (simp add: valid_def promise_at_def)

lemma schedule_coro_promises [simp]: "promises (schedule_coro h A) = promises A"
  by (simp add: schedule_coro_def)

lemma set_promise_length [simp]: "length (promises (set_promise h p A)) = length (promises A)"
  by (simp add: set_promise_def)

lemma valid_set [simp]: "valid (set_promise h p A) k = valid A k" "valid (schedule_coro j A) k = valid A k"
  by (simp_all add: valid_def)

lemma promise_at_set:
  "valid A h \<Longrightarrow> promise_at (set_promise h p A) k = (if k = h then Some p else promise_at A k)"
  by (auto simp: promise_at_def set_promise_def valid_def nth_list_update)

lemma promise_at_schedule [simp]: "promise_at (schedule_coro j A) k = promise_at A k"
  by (simp add: promise_at_def)

lemma wake_valid:
  assumes "promise_at A h = Some p"
  shows "\<exists>B. wake h A = Some B \<and> length (promises B) = length (promises A) \<and>
     promise_at B = (promise_at A)(h \<mapsto> p\<lparr>waiting_coro := 0\<rparr>)"
proof -
  have "valid A h" using assms promise_at_conv [of A h] by simp
  then show ?thesis using assms by (auto simp: wake_def Let_def promise_at_set fun_eq_iff)
qed

text \<open>What resolving and rejecting do to the promises: completed at most once.\<close>

definition completed_with :: "bool \<Rightarrow> nat \<Rightarrow> promise \<Rightarrow> promise" where
  "completed_with rej v p = (if is_completed p then p
     else p\<lparr>is_completed := True, is_rejected := (rej \<or> is_rejected p), result_data := v, waiting_coro := 0\<rparr>)"

lemma resolve_valid:
  assumes "promise_at A h = Some p"
  shows "\<exists>B. moksha_rt_resolve_promise h v A = Some B \<and> length (promises B) = length (promises A) \<and>
     promise_at B = (promise_at A)(h \<mapsto> completed_with False v p)"
proof (cases "is_completed p")
  case True
  then show ?thesis using assms
    by (auto simp: moksha_rt_resolve_promise_def completed_with_def fun_upd_idem)
next
  case False
  let ?p = "p\<lparr>is_completed := True, result_data := v\<rparr>"
  have v: "valid A h" using assms promise_at_conv [of A h] by simp
  then have "promise_at (set_promise h ?p A) = (promise_at A)(h \<mapsto> ?p)" by (simp add: promise_at_set fun_eq_iff)
  then have "\<exists>B. wake h (set_promise h ?p A) = Some B \<and> length (promises B) = length (promises A) \<and>
     promise_at B = (promise_at A)(h \<mapsto> ?p\<lparr>waiting_coro := 0\<rparr>)"
    using wake_valid [of "set_promise h ?p A" h ?p] by simp
  then show ?thesis using False assms v
    by (auto simp: moksha_rt_resolve_promise_def completed_with_def valid_def)
qed

lemma reject_valid:
  assumes "promise_at A h = Some p"
  shows "\<exists>B. moksha_rt_reject_promise h ex A = Some B \<and> length (promises B) = length (promises A) \<and>
     promise_at B = (promise_at A)(h \<mapsto> completed_with True ex p)"
proof (cases "is_completed p")
  case True
  then show ?thesis using assms
    by (auto simp: moksha_rt_reject_promise_def completed_with_def fun_upd_idem)
next
  case False
  let ?p = "p\<lparr>is_completed := True, is_rejected := True, result_data := ex\<rparr>"
  have v: "valid A h" using assms promise_at_conv [of A h] by simp
  then have "promise_at (set_promise h ?p A) = (promise_at A)(h \<mapsto> ?p)" by (simp add: promise_at_set fun_eq_iff)
  then have "\<exists>B. wake h (set_promise h ?p A) = Some B \<and> length (promises B) = length (promises A) \<and>
     promise_at B = (promise_at A)(h \<mapsto> ?p\<lparr>waiting_coro := 0\<rparr>)"
    using wake_valid [of "set_promise h ?p A" h ?p] by simp
  then show ?thesis using False assms v
    by (auto simp: moksha_rt_reject_promise_def completed_with_def valid_def)
qed

abbreviation fresh_promise :: promise where
  "fresh_promise \<equiv> \<lparr>prom_coro_handle = 0, is_completed = False, result_data = 0, waiting_coro = 0,
       is_rejected = False, was_awaited = False\<rparr>"

lemma make_unresolved:
  assumes "moksha_rt_make_unresolved_promise A = (p, B)"
  shows "valid B p" "promise_at B p = Some fresh_promise" "length (promises B) = Suc (length (promises A))"
    "valid A k \<Longrightarrow> valid B k" "valid A k \<Longrightarrow> promise_at B k = promise_at A k" "\<not> valid A p"
  using assms by (auto simp: moksha_rt_make_unresolved_promise_def new_promise_def valid_def promise_at_def nth_append)

lemma valid_length: "length (promises B) = length (promises A) \<Longrightarrow> valid B k = valid A k"
  by (simp add: valid_def)

lemma reject_all_valid:
  "\<forall>p\<in>set ps. valid A p \<Longrightarrow> \<exists>B. reject_all X ps A = Some B \<and> length (promises B) = length (promises A)"
proof (induction ps arbitrary: A)
  case (Cons p ps)
  then obtain B where "moksha_rt_reject_promise p (X A) A = Some B" "length (promises B) = length (promises A)"
    using reject_valid [OF promise_at_valid, of A p "X A"] by auto
  moreover from this have "\<forall>q\<in>set ps. valid B q" using Cons.prems by (simp add: valid_def)
  ultimately show ?case using Cons.IH [of B] by auto
qed simp

subsection \<open>The ring buffer\<close>

definition ring_ok :: "channel \<Rightarrow> bool" where
  "ring_ok c \<longleftrightarrow> length (buffer c) = nat (ch_capacity c) \<and> ch_count c \<le> nat (ch_capacity c) \<and>
     (0 < ch_capacity c \<longrightarrow> ch_head c < nat (ch_capacity c) \<and> ch_tail c = (ch_head c + ch_count c) mod nat (ch_capacity c))"

definition contents :: "channel \<Rightarrow> nat list" where
  "contents c = map (\<lambda>i. buffer c ! ((ch_head c + i) mod nat (ch_capacity c))) [0..<ch_count c]"

lemma length_contents [simp]: "length (contents c) = ch_count c"
  by (simp add: contents_def)

text \<open>What the ring buffer does not touch.\<close>

definition frame :: "channel \<Rightarrow> bool \<times> int \<times> nat list \<times> wait_node list" where
  "frame c = (is_closed c, ch_capacity c, waiting_receivers c, waiting_senders c)"

lemma ring_pop_contents:
  assumes "ring_ok c" "contents c = v # q"
  shows "\<exists>c'. ring_pop c = Some (v, c') \<and> ring_ok c' \<and> contents c' = q \<and>
    frame c' = frame c"
proof -
  define n where "n = nat (ch_capacity c)"
  have k: "ch_count c = Suc (length q)" using assms(2) length_contents [of c] by simp
  then have n: "0 < n" "0 < ch_capacity c" "ch_head c < n" "ch_count c \<le> n" using assms(1) by (auto simp: ring_ok_def n_def)
  define c' where "c' = c\<lparr>ch_head := (ch_head c + 1) mod n, ch_count := ch_count c - 1\<rparr>"
  have e: "(Suc (ch_head c) mod n + i) mod n = Suc (ch_head c + i) mod n" for i
    using mod_add_left_eq [of "Suc (ch_head c)" n i] by simp
  have "contents c = buffer c ! ch_head c # map (\<lambda>i. buffer c ! ((ch_head c + Suc i) mod n)) [0..<length q]"
    unfolding contents_def k using n
    by (simp add: upt_conv_Cons map_Suc_upt [symmetric] comp_def n_def [symmetric] del: upt_Suc)
  also have "map (\<lambda>i. buffer c ! ((ch_head c + Suc i) mod n)) [0..<length q] = contents c'"
    using k by (simp add: contents_def c'_def n_def [symmetric] e)
  finally have "contents c = buffer c ! ch_head c # contents c'" .
  then have v: "buffer c ! ch_head c = v" "contents c' = q" using assms(2) by simp_all
  have "ring_ok c'" using assms(1) n k e [of "length q"] by (auto simp: ring_ok_def c'_def n_def [symmetric])
  with v n show ?thesis using assms(1)
    by (intro exI [of _ c']) (auto simp: ring_pop_def c'_def n_def ring_ok_def k frame_def)
qed

lemma ring_push_contents:
  assumes "ring_ok c" "int (ch_count c) < ch_capacity c"
  shows "\<exists>c'. ring_push v c = Some c' \<and> ring_ok c' \<and> contents c' = contents c @ [v] \<and>
    frame c' = frame c"
proof -
  define n where "n = nat (ch_capacity c)"
  have n: "0 < n" "0 < ch_capacity c" "ch_head c < n" "ch_count c < n" "length (buffer c) = n"
    "ch_tail c = (ch_head c + ch_count c) mod n"
    using assms by (auto simp: ring_ok_def n_def)
  define c' where "c' = c\<lparr>buffer := (buffer c)[ch_tail c := v], ch_tail := (ch_tail c + 1) mod n, ch_count := ch_count c + 1\<rparr>"
  have ne: "(ch_head c + i) mod n \<noteq> (ch_head c + ch_count c) mod n" if "i < ch_count c" for i
  proof
    assume "(ch_head c + i) mod n = (ch_head c + ch_count c) mod n"
    then have "(ch_count c - i) mod n = 0" using that
      by (metis add_le_cancel_left less_imp_le_nat mod_eq_dvd_iff_nat dvd_imp_mod_0 diff_add_inverse2 add_diff_cancel_left)
    then show False using n that by simp
  qed
  have "(buffer c)[ch_tail c := v] ! ((ch_head c + i) mod n) = buffer c ! ((ch_head c + i) mod n)" if "i < ch_count c" for i
    using ne [OF that] n by simp
  moreover have "(buffer c)[ch_tail c := v] ! ((ch_head c + ch_count c) mod n) = v" using n by simp
  ultimately have "contents c' = contents c @ [v]" unfolding contents_def by (simp add: c'_def n_def [symmetric])
  moreover have "ring_ok c'" using n assms(1)
    by (auto simp: ring_ok_def c'_def n_def [symmetric] mod_add_left_eq mod_Suc_eq)
  ultimately show ?thesis using n by (intro exI [of _ c']) (auto simp: ring_push_def c'_def n_def frame_def)
qed

subsection \<open>The invariant of a channel\<close>

definition chan_inv :: "channel \<Rightarrow> async \<Rightarrow> bool" where
  "chan_inv c A \<longleftrightarrow> ring_ok c \<and> (\<forall>p\<in>set (waiting_receivers c). valid A p) \<and>
     (\<forall>w\<in>set (waiting_senders c). valid A (wn_promise w)) \<and>
     (waiting_receivers c \<noteq> [] \<longrightarrow> ch_count c = 0) \<and>
     (waiting_senders c \<noteq> [] \<longrightarrow> ch_capacity c \<le> int (ch_count c)) \<and>
     (is_closed c \<longrightarrow> waiting_receivers c = [] \<and> waiting_senders c = [])"

datatype chan_op = Send nat | Recv | Close

fun chan_step :: "(async \<Rightarrow> nat) \<Rightarrow> chan_op \<Rightarrow> channel \<times> async \<Rightarrow> (nat \<times> channel \<times> async) option" where
  "chan_step X (Send v) (c, A) = Channel_send X v c A"
| "chan_step X Recv (c, A) = Channel_recv X c A"
| "chan_step X Close (c, A) = map_option (Pair 0) (Channel_close X c A)"

lemma valid_promise: "valid A h \<Longrightarrow> \<exists>p. promise_at A h = Some p"
  by (simp add: promise_at_valid)

lemma resolve_ok:
  assumes "valid A h"
  shows "\<exists>B. moksha_rt_resolve_promise h v A = Some B \<and> (\<forall>k. valid B k = valid A k)"
  using resolve_valid [OF promise_at_valid [OF assms], of v] by (auto simp: valid_def)

lemma reject_ok:
  assumes "valid A h"
  shows "\<exists>B. moksha_rt_reject_promise h v A = Some B \<and> (\<forall>k. valid B k = valid A k)"
  using reject_valid [OF promise_at_valid [OF assms], of v] by (auto simp: valid_def)

lemma ring_ok_waiting [simp]:
  "ring_ok (c\<lparr>waiting_senders := ws\<rparr>) = ring_ok c" "ring_ok (c\<lparr>waiting_receivers := rs\<rparr>) = ring_ok c"
  "ring_ok (c\<lparr>is_closed := b\<rparr>) = ring_ok c"
  "contents (c\<lparr>waiting_senders := ws\<rparr>) = contents c" "contents (c\<lparr>waiting_receivers := rs\<rparr>) = contents c"
  by (simp_all add: ring_ok_def contents_def)

lemma recv_safe:
  assumes "chan_inv c A"
  shows "\<exists>p c' A'. Channel_recv X c A = Some (p, c', A') \<and> chan_inv c' A'"
proof -
  obtain p A1 where p: "moksha_rt_make_unresolved_promise A = (p, A1)" by fastforce
  note m = make_unresolved [OF p]
  show ?thesis
  proof (cases "0 < ch_count c")
    case True
    then obtain v q where q: "contents c = v # q" using length_contents [of c] by (cases "contents c") auto
    then obtain c1 where c1: "ring_pop c = Some (v, c1)" "ring_ok c1" "contents c1 = q" "frame c1 = frame c"
      using ring_pop_contents assms by (metis chan_inv_def)
    then have k: "ch_count c1 = length q" "ch_count c = Suc (length q)"
      using length_contents [of c1] length_contents [of c] q by simp_all
    have w: "waiting_receivers c1 = []" "waiting_senders c1 = waiting_senders c" "ch_capacity c1 = ch_capacity c"
      "is_closed c1 = is_closed c"
      using assms True c1(4) by (auto simp: chan_inv_def frame_def)
    show ?thesis
    proof (cases "waiting_senders c")
      case Nil
      then show ?thesis using p c1 w True assms resolve_ok [OF m(1), of v]
        by (auto simp: Channel_recv_def recv_refill_def chan_inv_def)
    next
      case (Cons u us)
      have "int (ch_count (c1\<lparr>waiting_senders := us\<rparr>)) < ch_capacity (c1\<lparr>waiting_senders := us\<rparr>)"
        using assms k w by (auto simp: chan_inv_def ring_ok_def)
      then obtain c2 where c2: "ring_push (wn_data u) (c1\<lparr>waiting_senders := us\<rparr>) = Some c2" "ring_ok c2"
        "contents c2 = q @ [wn_data u]" "frame c2 = frame (c1\<lparr>waiting_senders := us\<rparr>)"
        using ring_push_contents [of "c1\<lparr>waiting_senders := us\<rparr>" "wn_data u"] c1 by auto
      have k2: "ch_count c2 = Suc (length q)" using length_contents [of c2] c2(3) by simp
      have "valid A1 (wn_promise u)" using assms Cons m(4) by (simp add: chan_inv_def)
      from resolve_ok [OF this, of 0] obtain A2 where A2: "moksha_rt_resolve_promise (wn_promise u) 0 A1 = Some A2"
        "\<forall>k. valid A2 k = valid A1 k" by blast
      from resolve_ok [of A2 p v] A2 m(1) obtain A3 where "moksha_rt_resolve_promise p v A2 = Some A3"
        "\<forall>k. valid A3 k = valid A1 k" by auto
      then show ?thesis using p c1 w c2 k k2 Cons True assms A2 m(4)
        by (auto simp: Channel_recv_def recv_refill_def chan_inv_def frame_def)
    qed
  next
    case False
    show ?thesis
    proof (cases "is_closed c")
      case True
      then show ?thesis using False p m assms reject_ok [OF m(1), of "X A1"]
        by (auto simp: Channel_recv_def chan_inv_def)
    next
      case op: False
      then show ?thesis using False p m assms by (auto simp: Channel_recv_def chan_inv_def)
    qed
  qed
qed

lemma send_safe:
  assumes "chan_inv c A"
  shows "\<exists>p c' A'. Channel_send X v c A = Some (p, c', A') \<and> chan_inv c' A'"
proof -
  obtain p A1 where p: "moksha_rt_make_unresolved_promise A = (p, A1)" by fastforce
  note m = make_unresolved [OF p]
  consider (closed) "is_closed c" | (handed) r rs where "\<not> is_closed c" "waiting_receivers c = r # rs"
    | (room) "\<not> is_closed c" "waiting_receivers c = []" "int (ch_count c) < ch_capacity c"
    | (full) "\<not> is_closed c" "waiting_receivers c = []" "\<not> int (ch_count c) < ch_capacity c"
    by (cases "waiting_receivers c") auto
  then show ?thesis
  proof cases
    case closed
    then show ?thesis using p m assms reject_ok [OF m(1), of "X A1"] by (auto simp: Channel_send_def chan_inv_def)
  next
    case handed
    then have "valid A1 r" using assms m(4) by (simp add: chan_inv_def)
    from resolve_ok [OF this, of v] obtain A2 where A2: "moksha_rt_resolve_promise r v A1 = Some A2"
      "\<forall>k. valid A2 k = valid A1 k" by blast
    from resolve_ok [of A2 p 0] A2 m(1) obtain A3 where "moksha_rt_resolve_promise p 0 A2 = Some A3"
      "\<forall>k. valid A3 k = valid A1 k" by auto
    then show ?thesis using handed p A2 m(4) assms by (auto simp: Channel_send_def chan_inv_def)
  next
    case room
    then obtain c1 where c1: "ring_push v c = Some c1" "ring_ok c1" "frame c1 = frame c"
      using ring_push_contents [of c v] assms by (auto simp: chan_inv_def)
    obtain A2 where "moksha_rt_resolve_promise p 0 A1 = Some A2" "\<forall>k. valid A2 k = valid A1 k"
      using resolve_ok [OF m(1), of 0] by blast
    moreover have "waiting_senders c = []" using room assms by (auto simp: chan_inv_def)
    ultimately show ?thesis using room p c1 assms by (auto simp: Channel_send_def chan_inv_def frame_def)
  next
    case full
    then show ?thesis using p m assms by (auto simp: Channel_send_def chan_inv_def)
  qed
qed

lemma close_safe:
  assumes "chan_inv c A"
  shows "\<exists>c' A'. Channel_close X c A = Some (c', A') \<and> chan_inv c' A'"
proof -
  have "\<forall>p\<in>set (waiting_receivers c @ map wn_promise (waiting_senders c)). valid A p"
    using assms by (auto simp: chan_inv_def)
  from reject_all_valid [OF this, of X] show ?thesis using assms
    by (auto simp: Channel_close_def chan_inv_def ring_ok_def)
qed

lemma chan_step_safe:
  "chan_inv c A \<Longrightarrow> \<exists>p c' A'. chan_step X op (c, A) = Some (p, c', A') \<and> chan_inv c' A'"
  using send_safe recv_safe close_safe by (cases op) force+

fun chan_run :: "(async \<Rightarrow> nat) \<Rightarrow> chan_op list \<Rightarrow> channel \<times> async \<Rightarrow> (nat list \<times> channel \<times> async) option" where
  "chan_run X [] s = Some ([], s)"
| "chan_run X (op # ops) s =
     (case chan_step X op s of
       None \<Rightarrow> None
     | Some (p, s1) \<Rightarrow> map_option (\<lambda>(ps, s2). (p # ps, s2)) (chan_run X ops s1))"

lemma chan_run_safe:
  "chan_inv c A \<Longrightarrow> \<exists>ps c' A'. chan_run X ops (c, A) = Some (ps, c', A') \<and> chan_inv c' A'"
proof (induction ops arbitrary: c A)
  case (Cons op ops)
  from chan_step_safe [OF Cons.prems, of X op] obtain p c1 A1 where
    "chan_step X op (c, A) = Some (p, c1, A1)" "chan_inv c1 A1" by blast
  with Cons.IH [of c1 A1] show ?case by auto
qed auto

lemma new_inv: "chan_inv (Channel_new n) A"
  by (simp add: chan_inv_def ring_ok_def Channel_new_def)

subsection \<open>A bounded queue as its client sees it\<close>

text \<open>Operations of a client: \<open>Some v\<close> puts \<open>v\<close> in, \<open>None\<close> takes one out.\<close>

fun queue_run :: "('v \<Rightarrow> 's \<Rightarrow> 's option) \<Rightarrow> ('s \<Rightarrow> ('v \<times> 's) option) \<Rightarrow> 'v option list \<Rightarrow> 's \<Rightarrow> ('v list \<times> 's) option" where
  "queue_run push pop [] s = Some ([], s)"
| "queue_run push pop (Some v # ops) s = (case push v s of None \<Rightarrow> None | Some s1 \<Rightarrow> queue_run push pop ops s1)"
| "queue_run push pop (None # ops) s =
     (case pop s of None \<Rightarrow> None | Some (v, s1) \<Rightarrow> map_option (\<lambda>(out, s2). (v # out, s2)) (queue_run push pop ops s1))"

fun fits :: "nat \<Rightarrow> nat \<Rightarrow> 'v option list \<Rightarrow> bool" where
  "fits n k [] \<longleftrightarrow> True"
| "fits n k (Some v # ops) \<longleftrightarrow> k < n \<and> fits n (Suc k) ops"
| "fits n k (None # ops) \<longleftrightarrow> 0 < k \<and> fits n (k - 1) ops"

fun put_in :: "'v option list \<Rightarrow> 'v list" where
  "put_in [] = []"
| "put_in (Some v # ops) = v # put_in ops"
| "put_in (None # ops) = put_in ops"

locale bounded_fifo =
  fixes good :: "'s \<Rightarrow> bool"
    and items :: "'s \<Rightarrow> 'v list"
    and room :: "'s \<Rightarrow> nat"
    and push :: "'v \<Rightarrow> 's \<Rightarrow> 's option"
    and pop :: "'s \<Rightarrow> ('v \<times> 's) option"
  assumes push_law: "good s \<Longrightarrow> length (items s) < room s \<Longrightarrow>
      \<exists>t. push v s = Some t \<and> good t \<and> items t = items s @ [v] \<and> room t = room s"
    and pop_law: "good s \<Longrightarrow> items s = v # q \<Longrightarrow>
      \<exists>t. pop s = Some (v, t) \<and> good t \<and> items t = q \<and> room t = room s"
begin

lemma run_in_order:
  "good s \<Longrightarrow> fits (room s) (length (items s)) ops \<Longrightarrow>
   \<exists>out t. queue_run push pop ops s = Some (out, t) \<and> good t \<and> items s @ put_in ops = out @ items t"
proof (induction ops arbitrary: s rule: put_in.induct)
  case (2 v ops)
  then obtain t where "push v s = Some t" "good t" "items t = items s @ [v]" "room t = room s"
    using push_law [of s v] by auto
  with 2 show ?case by fastforce
next
  case (3 ops)
  then obtain v q where q: "items s = v # q" by (cases "items s") auto
  then obtain t where "pop s = Some (v, t)" "good t" "items t = q" "room t = room s"
    using pop_law [of s v q] 3 by auto
  with 3 q show ?case by fastforce
qed simp

end

text \<open>Sending and receiving without waiting: the promise is fulfilled when the call returns.\<close>

definition send_now :: "(async \<Rightarrow> nat) \<Rightarrow> nat \<Rightarrow> channel \<times> async \<Rightarrow> (channel \<times> async) option" where
  "send_now X v s =
     (case chan_step X (Send v) s of
       None \<Rightarrow> None
     | Some (p, c, A) \<Rightarrow>
         (case promise_at A p of None \<Rightarrow> None
          | Some q \<Rightarrow> if is_completed q \<and> \<not> is_rejected q then Some (c, A) else None))"

definition recv_now :: "(async \<Rightarrow> nat) \<Rightarrow> channel \<times> async \<Rightarrow> (nat \<times> channel \<times> async) option" where
  "recv_now X s =
     (case chan_step X Recv s of
       None \<Rightarrow> None
     | Some (p, c, A) \<Rightarrow>
         (case promise_at A p of None \<Rightarrow> None
          | Some q \<Rightarrow> if is_completed q \<and> \<not> is_rejected q then Some (result_data q, c, A) else None))"

definition quiet :: "channel \<times> async \<Rightarrow> bool" where
  "quiet s \<longleftrightarrow> ring_ok (fst s) \<and> frame (fst s) = (False, ch_capacity (fst s), [], [])"

lemma send_quiet:
  assumes "quiet (c, A)" "int (ch_count c) < ch_capacity c"
  shows "\<exists>c' A'. send_now X v (c, A) = Some (c', A') \<and> quiet (c', A') \<and> contents c' = contents c @ [v] \<and>
     ch_capacity c' = ch_capacity c"
proof -
  obtain p A1 where p: "moksha_rt_make_unresolved_promise A = (p, A1)" by fastforce
  note m = make_unresolved [OF p]
  obtain c1 where c1: "ring_push v c = Some c1" "ring_ok c1" "contents c1 = contents c @ [v]" "frame c1 = frame c"
    using ring_push_contents [of c v] assms by (auto simp: quiet_def)
  obtain A2 where "moksha_rt_resolve_promise p 0 A1 = Some A2"
    "promise_at A2 = (promise_at A1)(p \<mapsto> completed_with False 0 fresh_promise)"
    using resolve_valid [OF m(2), of 0] by blast
  then show ?thesis using p c1 assms by (auto simp: send_now_def Channel_send_def quiet_def frame_def completed_with_def)
qed

lemma recv_quiet:
  assumes "quiet (c, A)" "contents c = v # q"
  shows "\<exists>c' A'. recv_now X (c, A) = Some (v, c', A') \<and> quiet (c', A') \<and> contents c' = q \<and> ch_capacity c' = ch_capacity c"
proof -
  obtain p A1 where p: "moksha_rt_make_unresolved_promise A = (p, A1)" by fastforce
  note m = make_unresolved [OF p]
  obtain c1 where c1: "ring_pop c = Some (v, c1)" "ring_ok c1" "contents c1 = q" "frame c1 = frame c"
    using ring_pop_contents [of c v q] assms by (auto simp: quiet_def)
  have k: "0 < ch_count c" using length_contents [of c] assms(2) by simp
  obtain A2 where "moksha_rt_resolve_promise p v A1 = Some A2"
    "promise_at A2 = (promise_at A1)(p \<mapsto> completed_with False v fresh_promise)"
    using resolve_valid [OF m(2), of v] by blast
  then show ?thesis using p c1 k assms
    by (auto simp: recv_now_def Channel_recv_def recv_refill_def quiet_def frame_def completed_with_def)
qed

interpretation chan: bounded_fifo quiet "contents \<circ> fst" "\<lambda>s. nat (ch_capacity (fst s))" "send_now X" "recv_now X" for X
proof (unfold_locales, goal_cases)
  case (1 s v)
  then have "int (ch_count (fst s)) < ch_capacity (fst s)" by (simp add: zless_nat_eq_int_zless)
  then show ?case using 1 send_quiet [of "fst s" "snd s" X v] by (cases s) auto
next
  case (2 s v q)
  then show ?case using recv_quiet [of "fst s" "snd s" v q X] by (cases s) auto
qed

subsection \<open>A sender that waits on a channel without buffer\<close>

definition stranded :: "nat \<Rightarrow> channel \<times> async \<Rightarrow> bool" where
  "stranded p s \<longleftrightarrow> chan_inv (fst s) (snd s) \<and> ch_capacity (fst s) = 0 \<and> ch_count (fst s) = 0 \<and> \<not> is_closed (fst s) \<and>
     p \<notin> set (waiting_receivers (fst s)) \<and> (\<exists>q. promise_at (snd s) p = Some q \<and> \<not> is_completed q)"

lemma stranded_step:
  assumes "stranded p (c, A)" "op \<noteq> Close" "chan_step X op (c, A) = Some (r, c', A')"
  shows "stranded p (c', A')"
proof -
  obtain n A1 where n: "moksha_rt_make_unresolved_promise A = (n, A1)" by fastforce
  note m = make_unresolved [OF n]
  have i: "chan_inv c A" and p: "p \<notin> set (waiting_receivers c)" "\<exists>q. promise_at A p = Some q \<and> \<not> is_completed q"
    and c: "ch_capacity c = 0" "ch_count c = 0" "\<not> is_closed c"
    using assms(1) by (auto simp: stranded_def)
  then have v: "valid A p" using promise_at_conv [of A p] by auto
  then have np: "n \<noteq> p" "promise_at A1 p = promise_at A p" using m by auto
  have i': "chan_inv c' A'" using chan_step_safe [OF i, of X op] assms(3) by auto
  show ?thesis
  proof (cases op)
    case Recv
    then show ?thesis using assms(3) c p n np i' by (auto simp: Channel_recv_def stranded_def)
  next
    case (Send w)
    show ?thesis
    proof (cases "waiting_receivers c")
      case Nil
      then show ?thesis using assms(3) Send c p n np i' by (auto simp: Channel_send_def stranded_def)
    next
      case (Cons k ks)
      then have k: "k \<noteq> p" "promise_at A1 k \<noteq> None" using p i m(4) promise_at_conv [of A1 k] by (auto simp: chan_inv_def)
      then obtain q where "promise_at A1 k = Some q" by auto
      from resolve_valid [OF this, of w] obtain A2 where A2: "moksha_rt_resolve_promise k w A1 = Some A2"
        "promise_at A2 = (promise_at A1)(k \<mapsto> completed_with False w q)" by blast
      then obtain q2 where "promise_at A2 n = Some q2" using m(2) by (cases "n = k") auto
      from resolve_valid [OF this, of 0] obtain A3 where "moksha_rt_resolve_promise n 0 A2 = Some A3"
        "promise_at A3 = (promise_at A2)(n \<mapsto> completed_with False 0 q2)" by blast
      with A2 show ?thesis using assms(3) Send Cons c p n np i' k(1) by (auto simp: Channel_send_def stranded_def)
    qed
  qed (use assms(2) in simp)
qed

lemma stranded_run:
  "stranded p s \<Longrightarrow> \<forall>op\<in>set ops. op \<noteq> Close \<Longrightarrow> chan_run X ops s = Some (ps, t) \<Longrightarrow> stranded p t"
proof (induction ops arbitrary: s ps)
  case (Cons op ops)
  obtain c A where s: "s = (c, A)" by fastforce
  from Cons.prems(3) obtain r c1 A1 rs where "chan_step X op (c, A) = Some (r, c1, A1)" "chan_run X ops (c1, A1) = Some (rs, t)"
    by (auto simp: s split: option.splits)
  with Cons show ?case using stranded_step [of p c A op X r c1 A1] s by auto
qed simp

subsection \<open>Properties\<close>

text \<open>
  C22: Channels are safe.  Whatever sequence of sends, receives and closes is performed on a new channel
  of whatever capacity, every call returns without touching memory outside the buffer, and afterwards the
  indices of the ring buffer agree with the count, receivers wait only while the buffer is empty, senders
  only while it is full, and nobody waits on a closed channel.
\<close>

theorem channel_safe:
  "\<exists>ps c B. chan_run X ops (Channel_new n, A) = Some (ps, c, B) \<and>
     length (buffer c) = nat (ch_capacity c) \<and> ch_count c \<le> nat (ch_capacity c) \<and>
     (0 < ch_capacity c \<longrightarrow> ch_head c < nat (ch_capacity c) \<and> ch_tail c = (ch_head c + ch_count c) mod nat (ch_capacity c)) \<and>
     (waiting_receivers c \<noteq> [] \<longrightarrow> ch_count c = 0) \<and> (waiting_senders c \<noteq> [] \<longrightarrow> ch_capacity c \<le> int (ch_count c)) \<and>
     (is_closed c \<longrightarrow> waiting_receivers c = [] \<and> waiting_senders c = [])"
proof -
  from chan_run_safe [OF new_inv] obtain ps c B where
    "chan_run X ops (Channel_new n, A) = Some (ps, c, B)" "chan_inv c B" by blast
  then show ?thesis unfolding chan_inv_def ring_ok_def by blast
qed

theorem channel_safe_witness:
  "\<exists>ps c B. chan_run (\<lambda>_. 9) [Send 5, Recv, Recv, Close] (Channel_new 1, async_init) = Some (ps, c, B) \<and>
     ch_count c \<le> nat (ch_capacity c)"
proof -
  obtain ps c B where "chan_run (\<lambda>_. 9) [Send 5, Recv, Recv, Close] (Channel_new 1, async_init) = Some (ps, c, B)"
    "ch_count c \<le> nat (ch_capacity c)"
    using channel_safe [of "\<lambda>_. 9" "[Send 5, Recv, Recv, Close]" 1 async_init] by (elim exE conjE)
  then show ?thesis by blast
qed

text \<open>
  C23: Channels are first-in first-out queues as long as nobody has to wait: every sequence of sends and
  receives that never sends to a full and never receives from an empty channel is served at once, and
  what is received, followed by what is still buffered, is what was sent, in order.
\<close>

theorem channel_fifo:
  assumes "fits (nat n) 0 ops"
  shows "\<exists>out c B. queue_run (send_now X) (recv_now X) ops (Channel_new n, A) = Some (out, c, B) \<and>
     put_in ops = out @ contents c"
proof -
  have "quiet (Channel_new n, A)" "contents (Channel_new n) = []" "ch_capacity (Channel_new n) = n"
    by (simp_all add: quiet_def Channel_new_def ring_ok_def frame_def contents_def)
  then show ?thesis using chan.run_in_order [of "(Channel_new n, A)" ops X] assms by fastforce
qed

theorem channel_fifo_witness:
  "\<exists>out c B. queue_run (send_now (\<lambda>_. 9)) (recv_now (\<lambda>_. 9)) [Some 5, Some 6, None, Some 7, None] (Channel_new 2, async_init) =
     Some (out, c, B) \<and> [5, 6, 7] = out @ contents c"
  using channel_fifo [of 2 "[Some 5, Some 6, None, Some 7, None]" "\<lambda>_. 9" async_init] by simp

text \<open>
  Senders that wait are served last-in first-out: on a channel of capacity one, of three values sent
  before anything is received the third overtakes the second.
\<close>

theorem waiting_senders_overtake:
  "\<exists>c B. chan_run X [Send u, Send v, Send w, Recv, Recv, Recv] (Channel_new 1, async_init) = Some ([1, 2, 3, 4, 5, 6], c, B) \<and>
     map (\<lambda>h. map_option result_data (promise_at B h)) [4, 5, 6] = [Some u, Some w, Some v]"
  by (simp add: Channel_send_def Channel_recv_def recv_refill_def ring_push_def ring_pop_def Channel_new_def async_init_def
    moksha_rt_make_unresolved_promise_def new_promise_def moksha_rt_resolve_promise_def wake_def promise_at_def set_promise_def
    nth_append Let_def)

text \<open>
  C39: On a channel of capacity zero a send that finds no waiting receiver is never completed by any later
  sends and receives, however many receivers come: its promise stays pending until the channel is closed.
\<close>

theorem rendezvous_never_happens:
  assumes "\<forall>op\<in>set ops. op \<noteq> Close"
    and "chan_run X (Send v # ops) (Channel_new 0, A) = Some (p # ps, c, B)"
  shows "\<exists>q. promise_at B p = Some q \<and> \<not> is_completed q"
proof -
  obtain n A1 where n: "moksha_rt_make_unresolved_promise A = (n, A1)" by fastforce
  note m = make_unresolved [OF n]
  obtain c1 B1 where s: "chan_step X (Send v) (Channel_new 0, A) = Some (p, c1, B1)" "chan_run X ops (c1, B1) = Some (ps, c, B)"
    using assms(2) by (auto split: option.splits)
  moreover have "chan_inv c1 B1" using chan_step_safe [OF new_inv, of X "Send v" 0 A] s(1) by auto
  ultimately have "stranded p (c1, B1)" using n m by (auto simp: Channel_send_def Channel_new_def stranded_def)
  from stranded_run [OF this assms(1) s(2)] show ?thesis by (simp add: stranded_def)
qed

theorem rendezvous_never_happens_witness:
  "\<exists>q. promise_at (snd (snd (the (chan_run (\<lambda>_. 9) [Send 5, Recv, Recv] (Channel_new 0, async_init))))) 1 = Some q \<and> \<not> is_completed q"
proof -
  have "chan_run (\<lambda>_. 9) [Send 5, Recv, Recv] (Channel_new 0, async_init) =
      Some (1 # [2, 3], snd (the (chan_run (\<lambda>_. 9) [Send 5, Recv, Recv] (Channel_new 0, async_init))))"
    by (simp add: Channel_send_def Channel_recv_def Channel_new_def async_init_def
      moksha_rt_make_unresolved_promise_def new_promise_def)
  then show ?thesis
    using rendezvous_never_happens [of "[Recv, Recv]" "\<lambda>_. 9" 5 async_init 1 "[2, 3]"
      "fst (snd (the (chan_run (\<lambda>_. 9) [Send 5, Recv, Recv] (Channel_new 0, async_init))))"
      "snd (snd (the (chan_run (\<lambda>_. 9) [Send 5, Recv, Recv] (Channel_new 0, async_init))))"] by simp
qed

end
