(* ===== verification/PromiseRace.thy ===== *)
theory PromiseRace
  imports Moksha_Prelude
begin

text \<open>
  Completing and awaiting one promise at the same time (\<open>moksha_rt_resolve_promise\<close> and
  \<open>moksha_rt_register_await\<close> of \<open>runtime/src/async/task.c\<close>), one atomic operation per step.

  Any number of threads resolve the promise, thread \<open>i\<close> with the value \<open>val i\<close>; one coroutine awaits it.
  The result starts as null.  With \<open>tso\<close> the plain store of the awaiting thread goes to the store buffer
  of its processor first, as on x86, and reaches memory at some later time, at the latest before the
  thread's next atomic exchange; the other operations of the resolving threads are exchanges, which act
  on memory, or are followed by one.
\<close>

datatype resolve_pc = R_exchange | R_write | R_wake | R_end | R_lost

datatype await_pc = A_store | A_load | A_take | A_end

record race =
  completed :: bool
  result :: nat
  waiter :: bool
  buffered :: bool
  woken :: nat
  resolver :: "nat \<Rightarrow> resolve_pc"
  awaiter :: await_pc
  payload :: "nat option"

definition race_init :: race where
  "race_init = \<lparr>completed = False, result = 0, waiter = False, buffered = False, woken = 0,
     resolver = (\<lambda>_. R_exchange), awaiter = A_store, payload = None\<rparr>"

text \<open>The exchange of \<open>waiting_coro\<close> with null, and the scheduling of the waiter.\<close>

definition take_waiter :: "race \<Rightarrow> race" where
  "take_waiter s = (if waiter s then s\<lparr>waiter := False, woken := Suc (woken s)\<rparr> else s)"

definition goto :: "nat \<Rightarrow> resolve_pc \<Rightarrow> race \<Rightarrow> race" where
  "goto i pc s = s\<lparr>resolver := (resolver s)(i := pc)\<rparr>"

inductive race_step :: "bool \<Rightarrow> (nat \<Rightarrow> nat) \<Rightarrow> race \<Rightarrow> race \<Rightarrow> bool" for tso val where
  win: "resolver s i = R_exchange \<Longrightarrow> \<not> completed s \<Longrightarrow> race_step tso val s (goto i R_write (s\<lparr>completed := True\<rparr>))"
| lose: "resolver s i = R_exchange \<Longrightarrow> completed s \<Longrightarrow> race_step tso val s (goto i R_lost s)"
| wrote: "resolver s i = R_write \<Longrightarrow> race_step tso val s (goto i R_wake (s\<lparr>result := val i\<rparr>))"
| wake: "resolver s i = R_wake \<Longrightarrow> race_step tso val s (goto i R_end (take_waiter s))"
| store: "awaiter s = A_store \<Longrightarrow> \<not> tso \<Longrightarrow> race_step tso val s (s\<lparr>waiter := True, awaiter := A_load\<rparr>)"
| delay: "awaiter s = A_store \<Longrightarrow> tso \<Longrightarrow> race_step tso val s (s\<lparr>buffered := True, awaiter := A_load\<rparr>)"
| flush: "buffered s \<Longrightarrow> race_step tso val s (s\<lparr>waiter := True, buffered := False\<rparr>)"
| seen: "awaiter s = A_load \<Longrightarrow> completed s \<Longrightarrow> race_step tso val s (s\<lparr>awaiter := A_take\<rparr>)"
| pending: "awaiter s = A_load \<Longrightarrow> \<not> completed s \<Longrightarrow> race_step tso val s (s\<lparr>awaiter := A_end\<rparr>)"
| take: "awaiter s = A_take \<Longrightarrow> \<not> buffered s \<Longrightarrow> race_step tso val s (take_waiter s\<lparr>awaiter := A_end\<rparr>)"
| resume: "0 < woken s \<Longrightarrow> payload s = None \<Longrightarrow> race_step tso val s (s\<lparr>payload := Some (result s)\<rparr>)"

inductive_cases race_stepE: "race_step tso val s t"

definition race_reach :: "bool \<Rightarrow> (nat \<Rightarrow> nat) \<Rightarrow> race \<Rightarrow> bool" where
  "race_reach tso val s \<longleftrightarrow> (race_step tso val)\<^sup>*\<^sup>* race_init s"

lemma take_waiter_simps [simp]:
  "completed (take_waiter s) = completed s" "result (take_waiter s) = result s" "waiter (take_waiter s) = False"
  "buffered (take_waiter s) = buffered s" "woken (take_waiter s) = woken s + of_bool (waiter s)"
  "resolver (take_waiter s) = resolver s" "awaiter (take_waiter s) = awaiter s" "payload (take_waiter s) = payload s"
  by (simp_all add: take_waiter_def)

lemma goto_simps [simp]:
  "completed (goto i pc s) = completed s" "result (goto i pc s) = result s" "waiter (goto i pc s) = waiter s"
  "buffered (goto i pc s) = buffered s" "woken (goto i pc s) = woken s" "awaiter (goto i pc s) = awaiter s"
  "payload (goto i pc s) = payload s" "resolver (goto i pc s) = (resolver s)(i := pc)"
  by (simp_all add: goto_def)

abbreviation won :: "resolve_pc \<Rightarrow> bool" where
  "won pc \<equiv> pc = R_write \<or> pc = R_wake \<or> pc = R_end"

text \<open>
  The invariant without store buffers: the waiter is not yet stored, or stored, or woken; at most one
  thread completes the promise; once that thread is through, a stored waiter is one whose thread is
  still about to look.
\<close>

definition race_inv :: "race \<Rightarrow> bool" where
  "race_inv s \<longleftrightarrow> \<not> buffered s \<and> of_bool (awaiter s = A_store) + of_bool (waiter s) + woken s = 1 \<and>
     (\<forall>i j. won (resolver s i) \<and> won (resolver s j) \<longrightarrow> i = j) \<and> (\<forall>i. resolver s i \<noteq> R_exchange \<longrightarrow> completed s) \<and>
     (awaiter s = A_take \<longrightarrow> completed s) \<and>
     (waiter s \<and> awaiter s = A_end \<longrightarrow> (\<forall>i. resolver s i \<noteq> R_end))"

lemma race_inv_init: "race_inv race_init"
  by (simp add: race_inv_def race_init_def)

lemma race_inv_step: "race_step False val s t \<Longrightarrow> race_inv s \<Longrightarrow> race_inv t"
proof (induction rule: race_step.induct)
  case (win s i)
  then show ?case by (auto simp: race_inv_def)
next
  case (lose s i)
  then show ?case by (auto simp: race_inv_def)
next
  case (wrote s i)
  then show ?case by (auto simp: race_inv_def)
next
  case (wake s i)
  then show ?case by (auto simp: race_inv_def)
next
  case (pending s)
  then show ?case by (fastforce simp: race_inv_def)
qed (auto simp: race_inv_def)

lemma race_reach_inv: "race_reach False val s \<Longrightarrow> race_inv s"
  unfolding race_reach_def by (induction rule: rtranclp_induct) (auto intro: race_inv_init race_inv_step)

text \<open>Runs are built step by step.\<close>

lemma reach_init: "race_reach tso val race_init"
  by (simp add: race_reach_def)

lemma reach_step: "race_reach tso val s \<Longrightarrow> race_step tso val s t \<Longrightarrow> race_reach tso val t"
  unfolding race_reach_def by (rule rtranclp.rtrancl_into_rtrancl)

text \<open>The awaiting thread has not stored its coroutine yet when the resolver has completed the promise.\<close>

lemma reach_completed: "race_reach tso val (goto 0 R_write (race_init\<lparr>completed := True\<rparr>))"
  by (rule reach_step [OF reach_init]) (rule race_step.win, simp_all add: race_init_def)

subsection \<open>Properties\<close>

text \<open>
  C24: Without store buffers the waiting coroutine is woken at most once in every interleaving of any
  number of resolving threads with the awaiting one, and exactly once when the awaiting thread and a
  resolver that completed the promise are through.
\<close>

theorem woken_once:
  assumes "race_reach False val s"
  shows "woken s \<le> 1 \<and> (awaiter s = A_end \<and> resolver s i = R_end \<longrightarrow> woken s = 1)"
proof -
  have "race_inv s" by (rule race_reach_inv [OF assms])
  then show ?thesis by (cases "waiter s") (auto simp: race_inv_def split: if_splits)
qed

theorem woken_once_witness:
  "woken (take_waiter (goto 0 R_wake (goto 0 R_write (race_init\<lparr>completed := True\<rparr>)
     \<lparr>result := 7, waiter := True, awaiter := A_load\<rparr>))) \<le> 1"
proof -
  define s1 where "s1 = goto 0 R_write (race_init\<lparr>completed := True\<rparr>)"
  define s2 where "s2 = goto 0 R_wake (s1\<lparr>result := 7\<rparr>)"
  define s3 where "s3 = s2\<lparr>waiter := True, awaiter := A_load\<rparr>"
  define s4 where "s4 = goto 0 R_end (take_waiter s3)"
  note defs = s4_def s3_def s2_def s1_def race_init_def
  have "race_reach False (\<lambda>_. 7) s1" unfolding s1_def by (rule reach_completed)
  then have "race_reach False (\<lambda>_. 7) s2" unfolding s2_def by (rule reach_step) (use race_step.wrote [of s1 0 False "\<lambda>_. 7"] in \<open>simp add: defs\<close>)
  then have "race_reach False (\<lambda>_. 7) s3" unfolding s3_def by (rule reach_step) (rule race_step.store, simp_all add: defs)
  then have "race_reach False (\<lambda>_. 7) s4" unfolding s4_def by (rule reach_step) (rule race_step.wake, simp_all add: defs)
  from woken_once [OF this, where i = 0] show ?thesis by (simp add: defs)
qed

text \<open>
  C37: With the store buffer of x86 the wake-up can be lost: the awaiting thread delays its store, reads
  that the promise is pending and suspends; the resolver finds no waiter.  When the store reaches memory
  all are through, the waiter is registered, and nothing is left that would wake it.
\<close>

theorem wakeup_lost:
  "\<exists>s. race_reach True val s \<and> awaiter s = A_end \<and> resolver s 0 = R_end \<and> completed s \<and> waiter s \<and> woken s = 0 \<and>
     (\<forall>t. race_step True val s t \<longrightarrow> (\<exists>i. resolver s i = R_exchange \<and> t = goto i R_lost s))"
proof -
  define s1 where "s1 = race_init\<lparr>buffered := True, awaiter := A_load\<rparr>"
  define s2 where "s2 = s1\<lparr>awaiter := A_end\<rparr>"
  define s3 where "s3 = goto 0 R_write (s2\<lparr>completed := True\<rparr>)"
  define s4 where "s4 = goto 0 R_wake (s3\<lparr>result := val 0\<rparr>)"
  define s5 where "s5 = goto 0 R_end (take_waiter s4)"
  define s6 where "s6 = s5\<lparr>waiter := True, buffered := False\<rparr>"
  note defs = s6_def s5_def s4_def s3_def s2_def s1_def race_init_def
  have "race_reach True val s1" unfolding s1_def by (rule reach_step [OF reach_init]) (rule race_step.delay, simp_all add: race_init_def)
  then have "race_reach True val s2" unfolding s2_def by (rule reach_step) (rule race_step.pending, simp_all add: defs)
  then have "race_reach True val s3" unfolding s3_def by (rule reach_step) (rule race_step.win, simp_all add: defs)
  then have "race_reach True val s4" unfolding s4_def by (rule reach_step) (rule race_step.wrote, simp_all add: defs)
  then have "race_reach True val s5" unfolding s5_def by (rule reach_step) (rule race_step.wake, simp_all add: defs)
  then have r: "race_reach True val s6" unfolding s6_def by (rule reach_step) (rule race_step.flush, simp_all add: defs)
  have f: "awaiter s6 = A_end" "resolver s6 = (\<lambda>_. R_exchange)(0 := R_end)" "completed s6" "waiter s6" "woken s6 = 0" "\<not> buffered s6"
    by (simp_all add: defs fun_eq_iff)
  have "\<exists>i. resolver s6 i = R_exchange \<and> t = goto i R_lost s6" if "race_step True val s6 t" for t
    using that by (rule race_stepE) (use f in \<open>auto split: if_splits\<close>)
  with r f show ?thesis by (intro exI [of _ s6]) auto
qed

theorem wakeup_lost_witness:
  "\<exists>s. race_reach True (\<lambda>_. 7) s \<and> woken s = 0 \<and> resolver s 0 = R_end"
proof -
  from wakeup_lost [of "\<lambda>_. 7"] show ?thesis by (elim exE conjE) blast
qed

text \<open>
  The result is written after the promise is marked as completed, so a coroutine that registers in
  between is resumed with null instead of the value, even without store buffers.
\<close>

theorem payload_too_early:
  "\<exists>s. race_reach False val s \<and> resolver s 0 = R_write \<and> payload s = Some 0"
proof -
  define s1 where "s1 = goto 0 R_write (race_init\<lparr>completed := True\<rparr>)"
  define s2 where "s2 = s1\<lparr>waiter := True, awaiter := A_load\<rparr>"
  define s3 where "s3 = s2\<lparr>awaiter := A_take\<rparr>"
  define s4 where "s4 = take_waiter s3\<lparr>awaiter := A_end\<rparr>"
  define s5 where "s5 = s4\<lparr>payload := Some (result s4)\<rparr>"
  note defs = s5_def s4_def s3_def s2_def s1_def race_init_def
  have "race_reach False val s1" unfolding s1_def by (rule reach_completed)
  then have "race_reach False val s2" unfolding s2_def by (rule reach_step) (rule race_step.store, simp_all add: defs)
  then have "race_reach False val s3" unfolding s3_def by (rule reach_step) (rule race_step.seen, simp_all add: defs)
  then have "race_reach False val s4" unfolding s4_def by (rule reach_step) (rule race_step.take, simp_all add: defs)
  then have "race_reach False val s5" unfolding s5_def by (rule reach_step) (rule race_step.resume, simp_all add: defs)
  moreover have "resolver s5 0 = R_write" "payload s5 = Some 0" by (simp_all add: defs)
  ultimately show ?thesis by blast
qed

end
