(* ===== verification/RtHeap.thy ===== *)
theory RtHeap
  imports Moksha_Prelude
begin

unbundle bit_operations_syntax

text \<open>
  The reference-counted heap of the runtime (\<open>runtime/src/core/arc.c\<close>, \<open>moksha_rt.h\<close>).

  An object is addressed by its payload pointer, 0 is null; its header (strong and weak count, type,
  capacity) is part of it.  A payload is a block of bytes, a map or what the runtime looks at in a
  promise.  Entries of maps are blocks of their own.  A call ends with a new state or with an error:
  \<open>Panic\<close> with the message, or \<open>Fault\<close>, an access to memory that is not there.  \<open>Depth\<close> marks the bound
  on nested calls of \<open>moksha_rt_release\<close>.

  The platform is the parameter \<open>E\<close>: where the allocator puts a block (0: nowhere), the stack pointer
  and whether there are threads.  With threads the counters are changed by atomic operations; one call
  is one step here.
\<close>

subsection \<open>State\<close>

record any_value =
  any_data :: nat
  any_vtable :: "32 word option"

record moksha_map =
  buckets :: "nat list list"
  map_capacity :: "32 word"
  map_size :: "32 word"
  map_order :: "nat list"
  map_tail :: nat

datatype payload = Blob "8 word list" | Table moksha_map | PromiseState (rejected: bool) (awaited: bool)

record object =
  ref_count :: "32 word"
  weak_count :: "32 word"
  obj_type :: "32 word"
  capacity_bytes :: "32 word"
  body :: payload

record rt =
  objects :: "nat \<Rightarrow> object option"
  entries :: "nat \<Rightarrow> (any_value \<times> any_value) option"

datatype rt_error = Panic string | Fault | Depth

record rt_env =
  mem_alloc :: "rt \<Rightarrow> nat \<Rightarrow> nat"
  stack_pointer :: nat
  has_threads :: bool

abbreviation MOKSHA_TYPE_I32 :: "32 word" where "MOKSHA_TYPE_I32 \<equiv> 5"
abbreviation MOKSHA_TYPE_U32 :: "32 word" where "MOKSHA_TYPE_U32 \<equiv> 6"
abbreviation MOKSHA_TYPE_I64 :: "32 word" where "MOKSHA_TYPE_I64 \<equiv> 7"
abbreviation MOKSHA_TYPE_U64 :: "32 word" where "MOKSHA_TYPE_U64 \<equiv> 8"
abbreviation MOKSHA_TYPE_ISIZE :: "32 word" where "MOKSHA_TYPE_ISIZE \<equiv> 9"
abbreviation MOKSHA_TYPE_USIZE :: "32 word" where "MOKSHA_TYPE_USIZE \<equiv> 10"
abbreviation MOKSHA_TYPE_F32 :: "32 word" where "MOKSHA_TYPE_F32 \<equiv> 13"
abbreviation MOKSHA_TYPE_F64 :: "32 word" where "MOKSHA_TYPE_F64 \<equiv> 14"
abbreviation MOKSHA_TYPE_STRING :: "32 word" where "MOKSHA_TYPE_STRING \<equiv> 16"
abbreviation MOKSHA_TYPE_TABLE :: "32 word" where "MOKSHA_TYPE_TABLE \<equiv> 17"
abbreviation MOKSHA_TYPE_PROMISE :: "32 word" where "MOKSHA_TYPE_PROMISE \<equiv> 20"

definition andThen :: "rt_error + 'a \<Rightarrow> ('a \<Rightarrow> rt_error + 'b) \<Rightarrow> rt_error + 'b" where
  "andThen m f = (case m of Inl e \<Rightarrow> Inl e | Inr x \<Rightarrow> f x)"

lemma andThen_simps [simp]: "andThen (Inl e) f = Inl e" "andThen (Inr x) f = f x"
  by (simp_all add: andThen_def)

lemma andThen_Inr: "andThen m f = Inr y \<longleftrightarrow> (\<exists>x. m = Inr x \<and> f x = Inr y)"
  by (cases m) auto

definition object_at :: "rt \<Rightarrow> nat \<Rightarrow> rt_error + object" where
  "object_at S p = (case objects S p of None \<Rightarrow> Inl Fault | Some x \<Rightarrow> Inr x)"

definition set_object :: "nat \<Rightarrow> object \<Rightarrow> rt \<Rightarrow> rt" where
  "set_object p x S = S\<lparr>objects := (objects S)(p \<mapsto> x)\<rparr>"

definition free_object :: "nat \<Rightarrow> rt \<Rightarrow> rt" where
  "free_object p S = S\<lparr>objects := (objects S)(p := None)\<rparr>"

subsection \<open>Counting\<close>

definition is_stack_ptr :: "rt_env \<Rightarrow> nat \<Rightarrow> bool" where
  "is_stack_ptr E p \<longleftrightarrow> p \<noteq> 0 \<and>
     (if p < stack_pointer E then stack_pointer E - p else p - stack_pointer E) < 1024 * 1024"

definition moksha_rt_alloc :: "rt_env \<Rightarrow> payload \<Rightarrow> nat \<Rightarrow> 32 word \<Rightarrow> rt \<Rightarrow> rt_error + nat \<times> rt" where
  "moksha_rt_alloc E b n t S =
     (let header = mem_alloc E S (16 + n) in
      if header = 0 then Inl (Panic ''OOM during ARC allocation'')
      else Inr (header + 16, set_object (header + 16)
        \<lparr>ref_count = 1, weak_count = 1, obj_type = t, capacity_bytes = of_nat n, body = b\<rparr> S))"

definition moksha_rt_retain :: "rt_env \<Rightarrow> nat \<Rightarrow> rt \<Rightarrow> rt_error + rt" where
  "moksha_rt_retain E p S =
     (if p = 0 \<or> is_stack_ptr E p then Inr S
      else andThen (object_at S p) (\<lambda>x. Inr (set_object p (x\<lparr>ref_count := ref_count x + 1\<rparr>) S)))"

text \<open>The destructors of the types the runtime knows: \<open>mapFree\<close> is \<open>moksha_rt_map_free_internal\<close>.\<close>

definition destroy_builtin :: "(nat \<Rightarrow> rt \<Rightarrow> rt_error + rt) \<Rightarrow> nat \<Rightarrow> object \<Rightarrow> rt \<Rightarrow> rt_error + rt" where
  "destroy_builtin mapFree p x S =
     (if obj_type x = MOKSHA_TYPE_PROMISE then
        (case body x of
          PromiseState r a \<Rightarrow>
            if r \<and> \<not> a
            then Inl (Panic ''Unhandled Promise Rejection: An async function threw an exception that was never awaited!'')
            else Inr S
        | _ \<Rightarrow> Inl Fault)
      else if obj_type x = MOKSHA_TYPE_TABLE then mapFree p S
      else Inr S)"

definition drop_weak :: "nat \<Rightarrow> rt \<Rightarrow> rt_error + rt" where
  "drop_weak p S = andThen (object_at S p) (\<lambda>x.
     let x1 = x\<lparr>weak_count := weak_count x - 1\<rparr> in
     Inr (if weak_count x1 = 0 then free_object p S else set_object p x1 S))"

definition drop_last :: "(nat \<Rightarrow> rt \<Rightarrow> rt_error + rt) \<Rightarrow> nat \<Rightarrow> (nat \<Rightarrow> rt \<Rightarrow> rt_error + rt) option \<Rightarrow> rt \<Rightarrow> rt_error + rt" where
  "drop_last mapFree p dtor S =
     andThen (case dtor of None \<Rightarrow> Inr S | Some d \<Rightarrow> d p S) (\<lambda>S1.
     andThen (object_at S1 p) (\<lambda>x.
     andThen (destroy_builtin mapFree p x S1) (\<lambda>S2. drop_weak p S2)))"

definition moksha_rt_release_with_dtor ::
  "rt_env \<Rightarrow> (nat \<Rightarrow> rt \<Rightarrow> rt_error + rt) \<Rightarrow> nat \<Rightarrow> (nat \<Rightarrow> rt \<Rightarrow> rt_error + rt) option \<Rightarrow> rt \<Rightarrow> rt_error + rt" where
  "moksha_rt_release_with_dtor E mapFree p dtor S =
     (if p = 0 then Inr S
      else if is_stack_ptr E p then (case dtor of None \<Rightarrow> Inr S | Some d \<Rightarrow> d p S)
      else andThen (object_at S p) (\<lambda>x.
        if \<not> has_threads E \<and> ref_count x = 0 then Inl (Panic ''ARC double free!'')
        else let new_strong = ref_count x - 1;
                 S1 = set_object p (x\<lparr>ref_count := new_strong\<rparr>) S in
          if new_strong = - 1 then Inl (Panic ''ARC underflow!'')
          else if new_strong = 0 then drop_last mapFree p dtor S1
          else Inr S1))"

subsection \<open>Weak references\<close>

text \<open>
  A weak slot is a variable that holds an object or null; storing returns its new content.
\<close>

definition moksha_rt_store_weak :: "nat \<Rightarrow> nat \<Rightarrow> rt \<Rightarrow> rt_error + nat \<times> rt" where
  "moksha_rt_store_weak old new S =
     andThen (if new = 0 then Inr S
       else andThen (object_at S new) (\<lambda>x. Inr (set_object new (x\<lparr>weak_count := weak_count x + 1\<rparr>) S))) (\<lambda>S1.
     andThen (if old = 0 then Inr S1 else drop_weak old S1) (\<lambda>S2. Inr (new, S2)))"

definition moksha_rt_load_weak :: "nat \<Rightarrow> rt \<Rightarrow> rt_error + nat \<times> rt" where
  "moksha_rt_load_weak slot S =
     (if slot = 0 then Inr (0, S)
      else andThen (object_at S slot) (\<lambda>x.
        if ref_count x = 0 then Inr (0, S)
        else Inr (slot, set_object slot (x\<lparr>ref_count := ref_count x + 1\<rparr>) S)))"

definition moksha_get_type :: "nat \<Rightarrow> rt \<Rightarrow> rt_error + 32 word" where
  "moksha_get_type p S =
     (if p = 0 then Inr 19 else andThen (object_at S p) (\<lambda>x. Inr (obj_type x)))"

end
