(* ===== verification/RtHeapProps.thy ===== *)
theory RtHeapProps
  imports RtHeap
begin

text \<open>
  Reference counting as its clients see it: an object with strong owners and weak slots, and the counts
  in its header.
\<close>

datatype arc_op = Retain | Release | NewWeak | DropWeak | LoadWeak

text \<open>One operation of a client on the object \<open>p\<close>, by the functions of the runtime.\<close>

fun arc_exec :: "rt_env \<Rightarrow> (nat \<Rightarrow> rt \<Rightarrow> rt_error + rt) \<Rightarrow> nat \<Rightarrow> arc_op \<Rightarrow> rt \<Rightarrow> rt_error + rt" where
  "arc_exec E mapFree p Retain S = moksha_rt_retain E p S"
| "arc_exec E mapFree p Release S = moksha_rt_release_with_dtor E mapFree p None S"
| "arc_exec E mapFree p NewWeak S = andThen (moksha_rt_store_weak 0 p S) (\<lambda>(slot, T). Inr T)"
| "arc_exec E mapFree p DropWeak S = andThen (moksha_rt_store_weak p 0 S) (\<lambda>(slot, T). Inr T)"
| "arc_exec E mapFree p LoadWeak S = andThen (moksha_rt_load_weak p S) (\<lambda>(q, T). Inr T)"

text \<open>
  The contract: how many owners and weak slots there are.  Who has no reference may not act on the
  object; a weak slot yields an owner as long as there is another one.  Counters do not overflow.
\<close>

fun arc_spec :: "arc_op \<Rightarrow> nat \<times> nat \<Rightarrow> (nat \<times> nat) option" where
  "arc_spec Retain (s, w) = (if 0 < s \<and> s + 1 < 2 ^ 32 then Some (s + 1, w) else None)"
| "arc_spec Release (s, w) = (if 0 < s then Some (s - 1, w) else None)"
| "arc_spec NewWeak (s, w) = (if 0 < s \<and> w + 2 < 2 ^ 32 then Some (s, w + 1) else None)"
| "arc_spec DropWeak (s, w) = (if 0 < w then Some (s, w - 1) else None)"
| "arc_spec LoadWeak (s, w) =
     (if 0 < w \<and> s + 1 < 2 ^ 32 then Some (if 0 < s then s + 1 else 0, w) else None)"

fun arc_run :: "rt_env \<Rightarrow> (nat \<Rightarrow> rt \<Rightarrow> rt_error + rt) \<Rightarrow> nat \<Rightarrow> arc_op list \<Rightarrow> rt \<Rightarrow> rt_error + rt" where
  "arc_run E mapFree p [] S = Inr S"
| "arc_run E mapFree p (op # ops) S = andThen (arc_exec E mapFree p op S) (arc_run E mapFree p ops)"

fun spec_run :: "arc_op list \<Rightarrow> nat \<times> nat \<Rightarrow> (nat \<times> nat) option" where
  "spec_run [] x = Some x"
| "spec_run (op # ops) x = (case arc_spec op x of None \<Rightarrow> None | Some y \<Rightarrow> spec_run ops y)"

text \<open>The header of an object with \<open>s\<close> owners and \<open>w\<close> weak slots; all owners hold one weak count.\<close>

definition counted :: "nat \<Rightarrow> rt \<Rightarrow> nat \<times> nat \<Rightarrow> bool" where
  "counted p S x \<longleftrightarrow> (case x of (s, w) \<Rightarrow> s < 2 ^ 32 \<and> w + 1 < 2 ^ 32 \<and>
     (if s = 0 \<and> w = 0 then objects S p = None
      else \<exists>x. objects S p = Some x \<and> ref_count x = of_nat s \<and> weak_count x = of_nat (w + of_bool (0 < s)) \<and>
        obj_type x \<noteq> MOKSHA_TYPE_PROMISE \<and> obj_type x \<noteq> MOKSHA_TYPE_TABLE))"

lemma of_nat_word_zero: "n < 2 ^ 32 \<Longrightarrow> (of_nat n = (0 :: 32 word)) \<longleftrightarrow> n = 0"
  by (auto simp: word_of_nat_eq_0_iff dest: nat_dvd_not_less)

lemma of_nat_word_dec: "0 < n \<Longrightarrow> (of_nat n - 1 :: 32 word) = of_nat (n - 1)"
  by (simp add: of_nat_diff)

lemma of_nat_word_max: "n + 1 < 2 ^ 32 \<Longrightarrow> (of_nat n :: 32 word) \<noteq> - 1"
proof
  assume n: "n + 1 < 2 ^ 32" and "(of_nat n :: 32 word) = - 1"
  then have "(of_nat (n + 1) :: 32 word) = 0" by simp
  with n show False using of_nat_word_zero [of "n + 1"] by simp
qed

lemma counted_step:
  assumes "counted p S x" "arc_spec op x = Some y" "p \<noteq> 0" "\<not> is_stack_ptr E p"
  shows "\<exists>T. arc_exec E mapFree p op S = Inr T \<and> counted p T y"
proof -
  obtain s w where x: "x = (s, w)" by fastforce
  have b: "s < 2 ^ 32" "w + 1 < 2 ^ 32" using assms(1) by (auto simp: counted_def x)
  have alive: "\<exists>h. objects S p = Some h \<and> ref_count h = of_nat s \<and> weak_count h = of_nat (w + of_bool (0 < s)) \<and>
      obj_type h \<noteq> MOKSHA_TYPE_PROMISE \<and> obj_type h \<noteq> MOKSHA_TYPE_TABLE" if "0 < s \<or> 0 < w"
    using assms(1) that by (auto simp: counted_def x split: if_splits)
  show ?thesis
  proof (cases op)
    case Retain
    then have s: "0 < s" "s + 1 < 2 ^ 32" and y: "y = (s + 1, w)" using assms(2) x by (auto split: if_splits)
    then obtain h where h: "objects S p = Some h" "ref_count h = of_nat s" "weak_count h = of_nat (Suc w)"
      "obj_type h \<noteq> MOKSHA_TYPE_PROMISE" "obj_type h \<noteq> MOKSHA_TYPE_TABLE" using alive by auto
    then show ?thesis using Retain assms(3,4) y b s
      by (simp add: counted_def moksha_rt_retain_def object_at_def set_object_def)
  next
    case Release
    then have s: "0 < s" and y: "y = (s - 1, w)" using assms(2) x by (auto split: if_splits)
    then obtain h where h: "objects S p = Some h" "ref_count h = of_nat s" "weak_count h = of_nat (Suc w)"
      "obj_type h \<noteq> MOKSHA_TYPE_PROMISE" "obj_type h \<noteq> MOKSHA_TYPE_TABLE" using alive by auto
    have d: "ref_count h - 1 = of_nat (s - 1)" unfolding h(2) by (rule of_nat_word_dec [OF s])
    have z: "ref_count h \<noteq> 0" "(ref_count h - 1 = 0) = (s = 1)" "ref_count h - 1 \<noteq> - 1"
      unfolding d using s b of_nat_word_zero [of s] of_nat_word_zero [of "s - 1"] of_nat_word_max [of "s - 1"] h(2) by auto
    have wd: "weak_count h - 1 = of_nat w" unfolding h(3) by simp
    then have wz: "(weak_count h - 1 = 0) = (w = 0)" unfolding wd using b of_nat_word_zero [of w] by simp
    show ?thesis
    proof (cases "s = 1")
      case True
      then show ?thesis using Release assms(3,4) h z wz wd y b
        by (auto simp: counted_def moksha_rt_release_with_dtor_def object_at_def set_object_def Let_def drop_last_def
          destroy_builtin_def drop_weak_def free_object_def)
    next
      case False
      then show ?thesis using Release assms(3,4) h z d y b s
        by (auto simp: counted_def moksha_rt_release_with_dtor_def object_at_def set_object_def Let_def)
    qed
  next
    case NewWeak
    then have s: "0 < s" "w + 2 < 2 ^ 32" and y: "y = (s, w + 1)" using assms(2) x by (auto split: if_splits)
    then obtain h where h: "objects S p = Some h" "ref_count h = of_nat s" "weak_count h = of_nat (Suc w)"
      "obj_type h \<noteq> MOKSHA_TYPE_PROMISE" "obj_type h \<noteq> MOKSHA_TYPE_TABLE" using alive by auto
    then show ?thesis using NewWeak assms(3) y b s
      by (simp add: counted_def moksha_rt_store_weak_def object_at_def set_object_def)
  next
    case DropWeak
    then have w: "0 < w" and y: "y = (s, w - 1)" using assms(2) x by (auto split: if_splits)
    then obtain h where h: "objects S p = Some h" "ref_count h = of_nat s" "weak_count h = of_nat (w + of_bool (0 < s))"
      "obj_type h \<noteq> MOKSHA_TYPE_PROMISE" "obj_type h \<noteq> MOKSHA_TYPE_TABLE" using alive by auto
    have d: "weak_count h - 1 = of_nat (w - 1 + of_bool (0 < s))" unfolding h(3) using of_nat_word_dec [of "w + of_bool (0 < s)"] w by simp
    have "w - 1 + of_bool (0 < s) < 2 ^ 32" using b by (cases "0 < s") auto
    then have z: "(weak_count h - 1 = 0) = (w - 1 + of_bool (0 < s) = 0)" unfolding d by (rule of_nat_word_zero)
    then show ?thesis using DropWeak assms(3) h d y b w
      by (auto simp: counted_def moksha_rt_store_weak_def drop_weak_def object_at_def set_object_def free_object_def Let_def)
  next
    case LoadWeak
    then have w: "0 < w" and y: "y = (if 0 < s then s + 1 else 0, w)" and s: "s + 1 < 2 ^ 32"
      using assms(2) x by (auto split: if_splits)
    then obtain h where h: "objects S p = Some h" "ref_count h = of_nat s" "weak_count h = of_nat (w + of_bool (0 < s))"
      "obj_type h \<noteq> MOKSHA_TYPE_PROMISE" "obj_type h \<noteq> MOKSHA_TYPE_TABLE" using alive by auto
    then show ?thesis using LoadWeak assms(3) y b w s of_nat_word_zero [of s]
      by (auto simp: counted_def moksha_rt_load_weak_def object_at_def set_object_def)
  qed
qed

lemma counted_run:
  assumes "p \<noteq> 0" "\<not> is_stack_ptr E p"
  shows "counted p S x \<Longrightarrow> spec_run ops x = Some y \<Longrightarrow> \<exists>T. arc_run E mapFree p ops S = Inr T \<and> counted p T y"
proof (induction ops arbitrary: S x)
  case (Cons op ops)
  then obtain z where z: "arc_spec op x = Some z" "spec_run ops z = Some y" by (auto split: option.splits)
  from counted_step [OF Cons.prems(1) z(1) assms] obtain T where "arc_exec E mapFree p op S = Inr T" "counted p T z" by blast
  with Cons.IH [OF _ z(2)] show ?case by auto
qed auto

definition bumpAlloc :: rt_env where
  "bumpAlloc = \<lparr>mem_alloc = (\<lambda>S n. 4194304), stack_pointer = 268435456, has_threads = False\<rparr>"

definition emptyHeap :: rt where
  "emptyHeap = \<lparr>objects = (\<lambda>_. None), entries = (\<lambda>_. None)\<rparr>"

subsection \<open>Properties\<close>

text \<open>
  C10: Reference counting is exact.  An object of a plain type is allocated with one owner.  Whatever its
  clients do with the references they hold - retain, release, keep it in weak slots, clear them, load a
  slot - no call fails, and the object is there exactly as long as it has an owner or a weak slot; a
  weak slot yields the object again exactly as long as there is an owner.
\<close>

theorem reference_counts_exact:
  assumes "moksha_rt_alloc E b n t S = Inr (p, S1)" "\<not> is_stack_ptr E p"
    and "t \<noteq> MOKSHA_TYPE_PROMISE" "t \<noteq> MOKSHA_TYPE_TABLE" "spec_run ops (1, 0) = Some (s, w)"
  shows "\<exists>T. arc_run E mapFree p ops S1 = Inr T \<and> (objects T p = None \<longleftrightarrow> s = 0 \<and> w = 0) \<and>
     (0 < w \<longrightarrow> (\<exists>q R. moksha_rt_load_weak p T = Inr (q, R) \<and> (q = p \<longleftrightarrow> 0 < s)))"
proof -
  have p: "p \<noteq> 0" and "counted p S1 (1, 0)" using assms(1,3,4)
    by (auto simp: moksha_rt_alloc_def Let_def counted_def set_object_def split: if_splits)
  from counted_run [OF p assms(2) this(2) assms(5), of mapFree] obtain T where
    T: "arc_run E mapFree p ops S1 = Inr T" "counted p T (s, w)" by blast
  then have "objects T p = None \<longleftrightarrow> s = 0 \<and> w = 0" by (auto simp: counted_def split: if_splits)
  moreover have "\<exists>q R. moksha_rt_load_weak p T = Inr (q, R) \<and> (q = p \<longleftrightarrow> 0 < s)" if "0 < w"
  proof -
    from T(2) that obtain h where h: "objects T p = Some h" "ref_count h = of_nat s" "s < 2 ^ 32"
      by (auto simp: counted_def)
    then have "ref_count h = 0 \<longleftrightarrow> s = 0" using of_nat_word_zero [of s] by simp
    with h p show ?thesis by (cases "s = 0") (auto simp: moksha_rt_load_weak_def object_at_def)
  qed
  ultimately show ?thesis using T(1) by (intro exI [of _ T]) simp
qed

theorem reference_counts_exact_witness:
  "\<exists>T. arc_run bumpAlloc (\<lambda>p. Inr) 4194320 [Retain, NewWeak, Release, Release, DropWeak]
       (snd (projr (moksha_rt_alloc bumpAlloc (Blob [7]) 1 MOKSHA_TYPE_I32 emptyHeap))) = Inr T \<and> objects T 4194320 = None"
proof -
  have "moksha_rt_alloc bumpAlloc (Blob [7]) 1 MOKSHA_TYPE_I32 emptyHeap =
      Inr (4194320, snd (projr (moksha_rt_alloc bumpAlloc (Blob [7]) 1 MOKSHA_TYPE_I32 emptyHeap)))"
    by (simp add: moksha_rt_alloc_def bumpAlloc_def)
  moreover have "\<not> is_stack_ptr bumpAlloc 4194320" by (simp add: is_stack_ptr_def bumpAlloc_def)
  ultimately show ?thesis
    using reference_counts_exact [of bumpAlloc "Blob [7]" 1 MOKSHA_TYPE_I32 emptyHeap 4194320 _
      "[Retain, NewWeak, Release, Release, DropWeak]" 0 0 "\<lambda>p. Inr"] by simp
qed

end
