(* ===== verification/RtMap.thy ===== *)
theory RtMap
  imports RtHeap
begin

text \<open>
  The insertion-ordered hash map of the runtime (\<open>runtime/src/core/map.c\<close>).

  A chain of entries, in a bucket or in insertion order, is the list of the entries' addresses from the
  head on.  The two pointers of an entry into the chains are this representation; key and value are in
  the block.  Reads of keys are typed reads of the payload's bytes, lowest byte first.
\<close>

subsection \<open>Keys\<close>

definition get_any_type :: "rt \<Rightarrow> any_value \<Rightarrow> rt_error + 32 word" where
  "get_any_type S a =
     (if any_data a = 0 then Inr 0
      else case any_vtable a of
        Some t \<Rightarrow> Inr t
      | None \<Rightarrow> andThen (object_at S (any_data a)) (\<lambda>x. Inr (obj_type x)))"

definition blob_at :: "rt \<Rightarrow> nat \<Rightarrow> rt_error + 8 word list" where
  "blob_at S p = andThen (object_at S p) (\<lambda>x. case body x of Blob bs \<Rightarrow> Inr bs | _ \<Rightarrow> Inl Fault)"

text \<open>\<open>c_string\<close>: the bytes in front of the terminating zero; \<open>little_endian\<close>: a read of \<open>n\<close> bytes.\<close>

definition c_string :: "rt \<Rightarrow> nat \<Rightarrow> rt_error + 8 word list" where
  "c_string S p = andThen (blob_at S p) (\<lambda>bs.
     if 0 \<in> set bs then Inr (takeWhile (\<lambda>b. b \<noteq> 0) bs) else Inl Fault)"

fun little_endian :: "8 word list \<Rightarrow> nat" where
  "little_endian [] = 0"
| "little_endian (b # bs) = unat b + 256 * little_endian bs"

definition read_bytes :: "rt \<Rightarrow> nat \<Rightarrow> nat \<Rightarrow> rt_error + nat" where
  "read_bytes S p n = andThen (blob_at S p) (\<lambda>bs.
     if n \<le> length bs then Inr (little_endian (take n bs)) else Inl Fault)"

definition is_word32 :: "32 word \<Rightarrow> bool" where
  "is_word32 t \<longleftrightarrow> t = MOKSHA_TYPE_I32 \<or> t = MOKSHA_TYPE_U32 \<or> t = MOKSHA_TYPE_F32"

definition is_word64 :: "32 word \<Rightarrow> bool" where
  "is_word64 t \<longleftrightarrow> t = MOKSHA_TYPE_I64 \<or> t = MOKSHA_TYPE_U64 \<or> t = MOKSHA_TYPE_ISIZE \<or> t = MOKSHA_TYPE_USIZE \<or>
     t = MOKSHA_TYPE_F64"

definition hash_mix :: "32 word \<Rightarrow> 32 word \<Rightarrow> 32 word" where
  "hash_mix h v = (h XOR v) * 16777619"

definition hash_pair :: "nat \<Rightarrow> 32 word" where
  "hash_pair v = hash_mix (hash_mix 2166136261 (of_nat (v mod 2 ^ 32))) (of_nat (v div 2 ^ 32))"

definition hash_any :: "rt \<Rightarrow> any_value \<Rightarrow> rt_error + 32 word" where
  "hash_any S a =
     (if any_data a = 0 then Inr 0
      else andThen (get_any_type S a) (\<lambda>t.
        if t = MOKSHA_TYPE_STRING then
          andThen (c_string S (any_data a)) (\<lambda>s. Inr (foldl (\<lambda>h b. hash_mix h (ucast b)) 2166136261 s))
        else if is_word32 t then
          andThen (read_bytes S (any_data a) 4) (\<lambda>v. Inr (hash_mix 2166136261 (of_nat v)))
        else if is_word64 t then
          andThen (read_bytes S (any_data a) 8) (\<lambda>v. Inr (hash_pair v))
        else Inr (hash_pair (any_data a))))"

definition cmp_any :: "rt \<Rightarrow> any_value \<Rightarrow> any_value \<Rightarrow> rt_error + bool" where
  "cmp_any S a b =
     (if any_data a = any_data b then Inr True
      else if any_data a = 0 \<or> any_data b = 0 then Inr False
      else andThen (get_any_type S a) (\<lambda>ta. andThen (get_any_type S b) (\<lambda>tb.
        if ta \<noteq> tb then Inr False
        else if ta = MOKSHA_TYPE_STRING then
          andThen (c_string S (any_data a)) (\<lambda>x. andThen (c_string S (any_data b)) (\<lambda>y. Inr (x = y)))
        else if is_word32 ta then
          andThen (read_bytes S (any_data a) 4) (\<lambda>x. andThen (read_bytes S (any_data b) 4) (\<lambda>y. Inr (x = y)))
        else if is_word64 ta then
          andThen (read_bytes S (any_data a) 8) (\<lambda>x. andThen (read_bytes S (any_data b) 8) (\<lambda>y. Inr (x = y)))
        else Inr False)))"

subsection \<open>The map\<close>

definition moksha_rt_map_new :: "rt_env \<Rightarrow> rt \<Rightarrow> rt_error + nat \<times> rt" where
  "moksha_rt_map_new E =
     moksha_rt_alloc E (Table \<lparr>buckets = replicate 16 [], map_capacity = 16, map_size = 0, map_order = [], map_tail = 0\<rparr>)
       32 MOKSHA_TYPE_TABLE"

definition map_at :: "rt \<Rightarrow> nat \<Rightarrow> rt_error + moksha_map" where
  "map_at S p = andThen (object_at S p) (\<lambda>x. case body x of Table m \<Rightarrow> Inr m | _ \<Rightarrow> Inl Fault)"

definition set_map :: "nat \<Rightarrow> moksha_map \<Rightarrow> rt \<Rightarrow> rt_error + rt" where
  "set_map p m S = andThen (object_at S p) (\<lambda>x. Inr (set_object p (x\<lparr>body := Table m\<rparr>) S))"

definition entry_at :: "rt \<Rightarrow> nat \<Rightarrow> rt_error + any_value \<times> any_value" where
  "entry_at S e = (case entries S e of None \<Rightarrow> Inl Fault | Some kv \<Rightarrow> Inr kv)"

definition set_entry :: "nat \<Rightarrow> any_value \<times> any_value \<Rightarrow> rt \<Rightarrow> rt" where
  "set_entry e kv S = S\<lparr>entries := (entries S)(e \<mapsto> kv)\<rparr>"

definition free_entry :: "nat \<Rightarrow> rt \<Rightarrow> rt" where
  "free_entry e S = S\<lparr>entries := (entries S)(e := None)\<rparr>"

definition bucket_of :: "moksha_map \<Rightarrow> 32 word \<Rightarrow> rt_error + nat" where
  "bucket_of m h =
     (if map_capacity m = 0 then Inl Fault
      else let i = unat (h mod map_capacity m) in if i < length (buckets m) then Inr i else Inl Fault)"

fun find_entry :: "rt \<Rightarrow> any_value \<Rightarrow> nat list \<Rightarrow> rt_error + nat option" where
  "find_entry S k [] = Inr None"
| "find_entry S k (e # es) =
     andThen (entry_at S e) (\<lambda>(k1, v1). andThen (cmp_any S k1 k) (\<lambda>eq. if eq then Inr (Some e) else find_entry S k es))"

text \<open>\<open>tail->order_next = new\<close>: what followed the tail is no longer in the chain.\<close>

fun link_after :: "nat \<Rightarrow> nat \<Rightarrow> nat list \<Rightarrow> nat list" where
  "link_after t n [] = []"
| "link_after t n (e # es) = (if e = t then [e, n] else e # link_after t n es)"

definition replace_value :: "rt_env \<Rightarrow> (nat \<Rightarrow> rt \<Rightarrow> rt_error + rt) \<Rightarrow> nat \<Rightarrow> any_value \<Rightarrow> rt \<Rightarrow> rt_error + rt" where
  "replace_value E release e v S =
     andThen (entry_at S e) (\<lambda>(k1, v1).
     andThen (release (any_data v1) S) (\<lambda>S1.
     andThen (moksha_rt_retain E (any_data v) S1) (\<lambda>S2.
     andThen (entry_at S2 e) (\<lambda>(k2, v2). Inr (set_entry e (k2, v) S2)))))"

definition add_entry :: "rt_env \<Rightarrow> nat \<Rightarrow> nat \<Rightarrow> any_value \<Rightarrow> any_value \<Rightarrow> rt \<Rightarrow> rt_error + rt" where
  "add_entry E p i k v S =
     andThen (moksha_rt_retain E (any_data k) S) (\<lambda>S1.
     andThen (moksha_rt_retain E (any_data v) S1) (\<lambda>S2.
     let e = mem_alloc E S2 48 in
     if e = 0 then Inl Fault
     else let S3 = set_entry e (k, v) S2 in
       andThen (map_at S3 p) (\<lambda>m.
       set_map p (m\<lparr>buckets := (buckets m)[i := e # buckets m ! i], map_size := map_size m + 1,
         map_order := (if map_tail m = 0 then [e] else link_after (map_tail m) e (map_order m)), map_tail := e\<rparr>) S3)))"

definition moksha_rt_map_insert ::
  "rt_env \<Rightarrow> (nat \<Rightarrow> rt \<Rightarrow> rt_error + rt) \<Rightarrow> nat \<Rightarrow> any_value option \<Rightarrow> any_value \<Rightarrow> rt \<Rightarrow> rt_error + rt" where
  "moksha_rt_map_insert E release p key v S =
     (case key of
       None \<Rightarrow> Inr S
     | Some k \<Rightarrow>
         if p = 0 \<or> any_data k = 0 then Inr S
         else andThen (map_at S p) (\<lambda>m. andThen (hash_any S k) (\<lambda>h. andThen (bucket_of m h) (\<lambda>i.
           andThen (find_entry S k (buckets m ! i)) (\<lambda>found.
             case found of
               Some e \<Rightarrow> replace_value E release e v S
             | None \<Rightarrow> add_entry E p i k v S)))))"

text \<open>A pointer to the value of an entry is the entry.\<close>

definition moksha_rt_map_get :: "nat \<Rightarrow> any_value option \<Rightarrow> rt \<Rightarrow> rt_error + nat option" where
  "moksha_rt_map_get p key S =
     (case key of
       None \<Rightarrow> Inr None
     | Some k \<Rightarrow>
         if p = 0 \<or> any_data k = 0 then Inr None
         else andThen (map_at S p) (\<lambda>m. andThen (hash_any S k) (\<lambda>h. andThen (bucket_of m h) (\<lambda>i.
           find_entry S k (buckets m ! i)))))"

definition moksha_rt_map_has :: "nat \<Rightarrow> any_value option \<Rightarrow> rt \<Rightarrow> rt_error + bool" where
  "moksha_rt_map_has p key S =
     (if p = 0 \<or> key = None then Inr False else andThen (moksha_rt_map_get p key S) (\<lambda>e. Inr (e \<noteq> None)))"

fun get_entry_at :: "int \<Rightarrow> int \<Rightarrow> nat list \<Rightarrow> nat option" where
  "get_entry_at count index [] = None"
| "get_entry_at count index (e # es) = (if count = index then Some e else get_entry_at (count + 1) index es)"

definition moksha_rt_map_get_key_at :: "nat \<Rightarrow> int \<Rightarrow> rt \<Rightarrow> rt_error + nat option" where
  "moksha_rt_map_get_key_at p index S =
     (if p = 0 then Inr None else andThen (map_at S p) (\<lambda>m. Inr (get_entry_at 0 index (map_order m))))"

definition moksha_rt_map_len :: "nat \<Rightarrow> rt \<Rightarrow> rt_error + int" where
  "moksha_rt_map_len p S = (if p = 0 then Inr 0 else andThen (map_at S p) (\<lambda>m. Inr (sint (map_size m))))"

definition free_entries :: "nat list \<Rightarrow> rt \<Rightarrow> rt" where
  "free_entries es S = foldl (\<lambda>S e. free_entry e S) S es"

definition moksha_rt_map_clear :: "nat \<Rightarrow> rt \<Rightarrow> rt_error + rt" where
  "moksha_rt_map_clear p S =
     (if p = 0 then Inr S
      else andThen (map_at S p) (\<lambda>m.
        set_map p (m\<lparr>buckets := map (\<lambda>_. []) (buckets m), map_order := [], map_tail := 0, map_size := 0\<rparr>)
          (free_entries (map_order m) S)))"

text \<open>\<open>unlink\<close>: the entry in front of \<open>e\<close> in the chain, null for none.\<close>

fun prev_of :: "nat \<Rightarrow> nat list \<Rightarrow> nat" where
  "prev_of e (a # b # r) = (if b = e then a else prev_of e (b # r))"
| "prev_of e _ = 0"

definition moksha_rt_map_remove :: "nat \<Rightarrow> any_value option \<Rightarrow> rt \<Rightarrow> rt_error + rt" where
  "moksha_rt_map_remove p key S =
     (case key of
       None \<Rightarrow> Inr S
     | Some k \<Rightarrow>
         if p = 0 then Inr S
         else andThen (map_at S p) (\<lambda>m. andThen (find_entry S k (map_order m)) (\<lambda>found.
           case found of
             None \<Rightarrow> Inr S
           | Some e \<Rightarrow>
               andThen (set_map p (m\<lparr>map_order := remove1 e (map_order m),
                   map_tail := (if map_tail m = e then prev_of e (map_order m) else map_tail m),
                   buckets := map (remove1 e) (buckets m), map_size := map_size m - 1\<rparr>) S) (\<lambda>S1.
               Inr (free_entry e S1)))))"

fun free_chain :: "(nat \<Rightarrow> rt \<Rightarrow> rt_error + rt) \<Rightarrow> nat list \<Rightarrow> rt \<Rightarrow> rt_error + rt" where
  "free_chain release [] S = Inr S"
| "free_chain release (e # es) S =
     andThen (entry_at S e) (\<lambda>(k, v).
     andThen (release (any_data k) S) (\<lambda>S1.
     andThen (release (any_data v) S1) (\<lambda>S2. free_chain release es (free_entry e S2))))"

fun free_buckets :: "(nat \<Rightarrow> rt \<Rightarrow> rt_error + rt) \<Rightarrow> nat list list \<Rightarrow> rt \<Rightarrow> rt_error + rt" where
  "free_buckets release [] S = Inr S"
| "free_buckets release (b # bs) S = andThen (free_chain release b S) (free_buckets release bs)"

definition moksha_rt_map_free_internal :: "(nat \<Rightarrow> rt \<Rightarrow> rt_error + rt) \<Rightarrow> nat \<Rightarrow> rt \<Rightarrow> rt_error + rt" where
  "moksha_rt_map_free_internal release p S =
     (if p = 0 then Inr S else andThen (map_at S p) (\<lambda>m. free_buckets release (buckets m) S))"

text \<open>Releasing a map releases its keys and values, to a depth of at most \<open>n\<close>.\<close>

fun moksha_rt_release :: "nat \<Rightarrow> rt_env \<Rightarrow> nat \<Rightarrow> rt \<Rightarrow> rt_error + rt" where
  "moksha_rt_release 0 E p S = Inl Depth"
| "moksha_rt_release (Suc n) E p S =
     moksha_rt_release_with_dtor E (moksha_rt_map_free_internal (moksha_rt_release n E)) p None S"

end
