(* ===== verification/RtMapProps.thy ===== *)
theory RtMapProps
  imports RtMap "HOL-Library.AList"
begin

text \<open>
  The hash map as an ordered association list.  A key is what the runtime compares (\<open>key_of\<close>): the bytes
  of a string, the value of a number together with its type, or the address of another object.
\<close>

subsection \<open>Keys\<close>

datatype key = StringKey "8 word list" | NumKey "32 word" nat | ObjectKey nat

definition obj_view :: "object \<Rightarrow> 32 word \<times> 8 word list option" where
  "obj_view x = (obj_type x, case body x of Blob bs \<Rightarrow> Some bs | _ \<Rightarrow> None)"

definition view :: "rt \<Rightarrow> nat \<Rightarrow> (32 word \<times> 8 word list option) option" where
  "view S p = map_option obj_view (objects S p)"

fun readable :: "32 word \<times> 8 word list option \<Rightarrow> bool" where
  "readable (t, None) \<longleftrightarrow> t \<noteq> MOKSHA_TYPE_STRING \<and> \<not> is_word32 t \<and> \<not> is_word64 t"
| "readable (t, Some bs) \<longleftrightarrow> (t = MOKSHA_TYPE_STRING \<longrightarrow> 0 \<in> set bs) \<and> (is_word32 t \<longrightarrow> 4 \<le> length bs) \<and>
     (is_word64 t \<longrightarrow> 8 \<le> length bs)"

text \<open>A well-typed value: its type table, if it has one, agrees with the header.\<close>

definition any_ok :: "rt \<Rightarrow> any_value \<Rightarrow> bool" where
  "any_ok S a \<longleftrightarrow> any_data a \<noteq> 0 \<and>
     (case view S (any_data a) of None \<Rightarrow> False
      | Some v \<Rightarrow> (any_vtable a = None \<or> any_vtable a = Some (fst v)) \<and> readable v)"

fun key_in :: "nat \<Rightarrow> 32 word \<times> 8 word list option \<Rightarrow> key" where
  "key_in p (t, bs) =
     (if t = MOKSHA_TYPE_STRING then StringKey (takeWhile (\<lambda>b. b \<noteq> 0) (the bs))
      else if is_word32 t then NumKey t (little_endian (take 4 (the bs)))
      else if is_word64 t then NumKey t (little_endian (take 8 (the bs)))
      else ObjectKey p)"

definition key_of :: "rt \<Rightarrow> any_value \<Rightarrow> key" where
  "key_of S a = key_in (any_data a) (the (view S (any_data a)))"

fun key_hash :: "key \<Rightarrow> 32 word" where
  "key_hash (StringKey s) = foldl (\<lambda>h b. hash_mix h (ucast b)) 2166136261 s"
| "key_hash (NumKey t v) = (if is_word32 t then hash_mix 2166136261 (of_nat v) else hash_pair v)"
| "key_hash (ObjectKey p) = hash_pair p"

lemma word_kinds: "is_word32 t \<Longrightarrow> \<not> is_word64 t" "is_word32 t \<Longrightarrow> t \<noteq> MOKSHA_TYPE_STRING" "is_word64 t \<Longrightarrow> t \<noteq> MOKSHA_TYPE_STRING"
  by (auto simp: is_word32_def is_word64_def)

lemma any_ok_split:
  assumes "any_ok S a"
  obtains x where "any_data a \<noteq> 0" "objects S (any_data a) = Some x" "view S (any_data a) = Some (obj_view x)"
    "readable (obj_view x)" "get_any_type S a = Inr (obj_type x)"
  using assms by (auto simp: any_ok_def view_def obj_view_def get_any_type_def object_at_def split: option.splits)

text \<open>What the typed reads yield.\<close>

lemma blob_view: "objects S p = Some x \<Longrightarrow> obj_view x = (t, Some bs) \<Longrightarrow> blob_at S p = Inr bs"
  by (auto simp: blob_at_def object_at_def obj_view_def split: payload.splits)

lemma reads_view:
  assumes "objects S p = Some x" "readable (obj_view x)"
  shows "obj_type x = MOKSHA_TYPE_STRING \<Longrightarrow> c_string S p = Inr (takeWhile (\<lambda>b. b \<noteq> 0) (the (snd (obj_view x))))"
    and "is_word32 (obj_type x) \<Longrightarrow> read_bytes S p 4 = Inr (little_endian (take 4 (the (snd (obj_view x)))))"
    and "is_word64 (obj_type x) \<Longrightarrow> read_bytes S p 8 = Inr (little_endian (take 8 (the (snd (obj_view x)))))"
proof -
  obtain t bs where v: "obj_view x = (t, bs)" by fastforce
  then have t: "t = obj_type x" by (simp add: obj_view_def)
  have b: "blob_at S p = Inr b" if "bs = Some b" for b using blob_view [OF assms(1)] v that by simp
  show "obj_type x = MOKSHA_TYPE_STRING \<Longrightarrow> c_string S p = Inr (takeWhile (\<lambda>b. b \<noteq> 0) (the (snd (obj_view x))))"
    using assms(2) v t b by (cases bs) (auto simp: c_string_def)
  show "is_word32 (obj_type x) \<Longrightarrow> read_bytes S p 4 = Inr (little_endian (take 4 (the (snd (obj_view x)))))"
    using assms(2) v t b by (cases bs) (auto simp: read_bytes_def)
  show "is_word64 (obj_type x) \<Longrightarrow> read_bytes S p 8 = Inr (little_endian (take 8 (the (snd (obj_view x)))))"
    using assms(2) v t b by (cases bs) (auto simp: read_bytes_def)
qed

lemma hash_key:
  assumes "any_ok S a"
  shows "hash_any S a = Inr (key_hash (key_of S a))"
proof -
  from assms obtain x where x: "any_data a \<noteq> 0" "objects S (any_data a) = Some x" "view S (any_data a) = Some (obj_view x)"
    "readable (obj_view x)" "get_any_type S a = Inr (obj_type x)" by (rule any_ok_split)
  have v: "obj_view x = (obj_type x, snd (obj_view x))" by (simp add: obj_view_def)
  have "key_of S a = key_in (any_data a) (obj_type x, snd (obj_view x))" unfolding key_of_def x(3) using v by simp
  then show ?thesis using x reads_view [OF x(2,4)] word_kinds by (auto simp: hash_any_def)
qed

lemma cmp_key:
  assumes "any_ok S a" "any_ok S b"
  shows "cmp_any S a b = Inr (key_of S a = key_of S b)"
proof -
  from assms(1) obtain x where x: "any_data a \<noteq> 0" "objects S (any_data a) = Some x" "view S (any_data a) = Some (obj_view x)"
    "readable (obj_view x)" "get_any_type S a = Inr (obj_type x)" by (rule any_ok_split)
  from assms(2) obtain y where y: "any_data b \<noteq> 0" "objects S (any_data b) = Some y" "view S (any_data b) = Some (obj_view y)"
    "readable (obj_view y)" "get_any_type S b = Inr (obj_type y)" by (rule any_ok_split)
  have "obj_view x = (obj_type x, snd (obj_view x))" "obj_view y = (obj_type y, snd (obj_view y))"
    by (simp_all add: obj_view_def)
  then have k: "key_of S a = key_in (any_data a) (obj_type x, snd (obj_view x))" "key_of S b = key_in (any_data b) (obj_type y, snd (obj_view y))"
    unfolding key_of_def x(3) y(3) by simp_all
  show ?thesis
  proof (cases "any_data a = any_data b")
    case True
    then show ?thesis using x(2) y(2) by (simp add: cmp_any_def key_of_def)
  next
    case False
    show ?thesis
    proof (cases "obj_type x = obj_type y")
      case True
      then show ?thesis using False k x y reads_view [OF x(2,4)] reads_view [OF y(2,4)] word_kinds
        by (auto simp: cmp_any_def)
    next
      case ne: False
      then have "key_of S a \<noteq> key_of S b" unfolding k using False by auto
      then show ?thesis using False ne x y by (simp add: cmp_any_def)
    qed
  qed
qed

lemma view_cong:
  assumes "view S = view T"
  shows "any_ok S a = any_ok T a" "key_of S a = key_of T a"
  using assms by (simp_all add: any_ok_def key_of_def)

subsection \<open>Well-formed maps\<close>

definition ekey :: "rt \<Rightarrow> nat \<Rightarrow> key" where
  "ekey S e = key_of S (fst (the (entries S e)))"

definition evalue :: "rt \<Rightarrow> nat \<Rightarrow> any_value" where
  "evalue S e = snd (the (entries S e))"

definition entry_ok :: "rt \<Rightarrow> nat \<Rightarrow> bool" where
  "entry_ok S e \<longleftrightarrow> e \<noteq> 0 \<and> (case entries S e of None \<Rightarrow> False | Some (k, v) \<Rightarrow> any_ok S k)"

definition slot :: "key \<Rightarrow> nat" where
  "slot k = unat (key_hash k mod 16)"

definition map_ok :: "rt \<Rightarrow> moksha_map \<Rightarrow> bool" where
  "map_ok S m \<longleftrightarrow> map_capacity m = 16 \<and> length (buckets m) = 16 \<and> map_size m = of_nat (length (map_order m)) \<and>
     distinct (map_order m) \<and> map_tail m = (if map_order m = [] then 0 else last (map_order m)) \<and>
     (\<forall>e\<in>set (map_order m). entry_ok S e) \<and> distinct (map (ekey S) (map_order m)) \<and>
     (\<forall>i<16. distinct (buckets m ! i) \<and> set (buckets m ! i) = {e \<in> set (map_order m). slot (ekey S e) = i})"

definition alist :: "rt \<Rightarrow> moksha_map \<Rightarrow> (key \<times> any_value) list" where
  "alist S m = map (\<lambda>e. (ekey S e, evalue S e)) (map_order m)"

lemma slot_less [simp]: "slot k < 16"
proof -
  have "key_hash k mod 16 < 16" by (rule word_mod_less_divisor) simp
  then have "unat (key_hash k mod 16) < unat (16 :: 32 word)" by (simp only: word_less_nat_alt)
  then show ?thesis by (simp add: slot_def)
qed

lemma find_entry_find:
  assumes "any_ok S k"
  shows "\<forall>e\<in>set es. entry_ok S e \<Longrightarrow> find_entry S k es = Inr (find (\<lambda>e. ekey S e = key_of S k) es)"
proof (induction es)
  case (Cons e es)
  then obtain k1 v1 where "entries S e = Some (k1, v1)" "any_ok S k1"
    by (auto simp: entry_ok_def split: option.splits)
  with Cons assms show ?case by (simp add: entry_at_def cmp_key ekey_def)
qed simp

lemma bucket_of_ok: "map_ok S m \<Longrightarrow> bucket_of m h = Inr (unat (h mod 16))"
proof -
  have "h mod 16 < (16 :: 32 word)" by (rule word_mod_less_divisor) simp
  then have "unat (h mod 16) < unat (16 :: 32 word)" by (simp only: word_less_nat_alt)
  then show "map_ok S m \<Longrightarrow> bucket_of m h = Inr (unat (h mod 16))" by (simp add: bucket_of_def map_ok_def Let_def)
qed

text \<open>Searching the bucket of a key finds the entry with that key, wherever it is in the order.\<close>

lemma bucket_find:
  assumes "map_ok S m"
  shows "case find (\<lambda>e. ekey S e = k) (buckets m ! slot k) of
      None \<Rightarrow> k \<notin> ekey S ` set (map_order m)
    | Some e \<Rightarrow> e \<in> set (map_order m) \<and> ekey S e = k"
proof -
  have b: "set (buckets m ! slot k) = {e \<in> set (map_order m). slot (ekey S e) = slot k}"
    using assms slot_less [of k] by (simp add: map_ok_def)
  then show ?thesis by (auto split: option.splits simp: find_None_iff find_Some_iff in_set_conv_nth [symmetric] dest: nth_mem)
qed

lemma get_found:
  assumes "map_at S p = Inr m" "map_ok S m" "any_ok S k" "p \<noteq> 0"
  obtains r where "moksha_rt_map_get p (Some k) S = Inr r"
    "find_entry S k (buckets m ! slot (key_of S k)) = Inr r"
    "case r of None \<Rightarrow> key_of S k \<notin> ekey S ` set (map_order m)
       | Some e \<Rightarrow> e \<in> set (map_order m) \<and> ekey S e = key_of S k"
proof -
  let ?r = "find (\<lambda>e. ekey S e = key_of S k) (buckets m ! slot (key_of S k))"
  have "\<forall>e\<in>set (buckets m ! slot (key_of S k)). entry_ok S e" using assms(2) slot_less [of "key_of S k"]
    by (simp add: map_ok_def)
  from find_entry_find [OF assms(3) this] have f: "find_entry S k (buckets m ! slot (key_of S k)) = Inr ?r" .
  moreover have "moksha_rt_map_get p (Some k) S = Inr ?r"
    using assms f bucket_of_ok [OF assms(2)] hash_key [OF assms(3)]
    by (simp add: moksha_rt_map_get_def any_ok_def slot_def)
  ultimately show thesis using bucket_find [OF assms(2), of "key_of S k"] by (intro that [of ?r])
qed

lemma map_of_alist:
  "distinct (map (ekey S) (map_order m)) \<Longrightarrow> e \<in> set (map_order m) \<Longrightarrow> map_of (alist S m) (ekey S e) = Some (evalue S e)"
  by (intro map_of_is_SomeI) (auto simp: alist_def comp_def)

lemma map_of_alist_None: "k \<notin> ekey S ` set (map_order m) \<Longrightarrow> map_of (alist S m) k = None"
  by (force simp: alist_def map_of_eq_None_iff)

subsection \<open>What leaves keys alone\<close>

lemma view_set_object: "objects S p = Some x \<Longrightarrow> obj_view y = obj_view x \<Longrightarrow> view (set_object p y S) = view S"
  by (auto simp: view_def set_object_def)

lemma view_entry [simp]: "view (set_entry e kv S) = view S" "view (free_entry e S) = view S"
  by (auto simp: view_def set_entry_def free_entry_def)

lemma entries_entry [simp]:
  "entries (set_entry e kv S) = (entries S)(e \<mapsto> kv)" "entries (free_entry e S) = (entries S)(e := None)"
  by (simp_all add: set_entry_def free_entry_def)

definition holdable :: "rt_env \<Rightarrow> rt \<Rightarrow> nat \<Rightarrow> bool" where
  "holdable E S q \<longleftrightarrow> q = 0 \<or> is_stack_ptr E q \<or> objects S q \<noteq> None"

definition tables :: "rt \<Rightarrow> nat \<Rightarrow> payload option" where
  "tables S p = map_option body (objects S p)"

lemma map_at_tables: "map_at S p = (case tables S p of Some (Table m) \<Rightarrow> Inr m | _ \<Rightarrow> Inl Fault)"
  by (auto simp: map_at_def object_at_def tables_def split: option.splits payload.splits)

text \<open>Same payloads, types and entries: only counters may differ.\<close>

definition alike :: "rt \<Rightarrow> rt \<Rightarrow> bool" where
  "alike S T \<longleftrightarrow> view T = view S \<and> tables T = tables S \<and> entries T = entries S"

lemma alike_counters:
  assumes "objects S p = Some x" "obj_type y = obj_type x" "body y = body x"
  shows "alike S (set_object p y S)"
  using assms by (auto simp: alike_def view_def tables_def set_object_def obj_view_def)

lemma alike_trans: "alike S T \<Longrightarrow> alike T U \<Longrightarrow> alike S U"
  by (simp add: alike_def)

lemma retain_alike:
  assumes "holdable E S q"
  shows "\<exists>T. moksha_rt_retain E q S = Inr T \<and> alike S T"
proof (cases "q = 0 \<or> is_stack_ptr E q")
  case True
  then show ?thesis by (auto simp: moksha_rt_retain_def alike_def)
next
  case False
  then obtain x where "objects S q = Some x" using assms by (auto simp: holdable_def)
  then show ?thesis using False alike_counters [of S q x] by (auto simp: moksha_rt_retain_def object_at_def)
qed

lemma holdable_alike: "alike S T \<Longrightarrow> holdable E T q = holdable E S q"
proof -
  have "objects T q = None \<longleftrightarrow> objects S q = None" if "view T = view S"
    using fun_cong [OF that, of q] by (auto simp: view_def)
  then show "alike S T \<Longrightarrow> holdable E T q = holdable E S q" by (simp add: alike_def holdable_def)
qed

definition still_held :: "rt_env \<Rightarrow> rt \<Rightarrow> nat \<Rightarrow> bool" where
  "still_held E S q \<longleftrightarrow> q = 0 \<or> is_stack_ptr E q \<or> (\<exists>x. objects S q = Some x \<and> 1 < ref_count x)"

lemma release_alike:
  assumes "still_held E S q"
  shows "\<exists>T. moksha_rt_release (Suc n) E q S = Inr T \<and> alike S T"
proof (cases "q = 0 \<or> is_stack_ptr E q")
  case True
  then show ?thesis by (auto simp: moksha_rt_release_with_dtor_def alike_def)
next
  case False
  then obtain x where x: "objects S q = Some x" "1 < ref_count x" using assms by (auto simp: still_held_def)
  have "ref_count x \<noteq> 0" "ref_count x - 1 \<noteq> 0" "ref_count x - 1 \<noteq> - 1" using x(2) by auto
  then show ?thesis using False x(1) alike_counters [OF x(1)]
    by (auto simp: moksha_rt_release_with_dtor_def object_at_def Let_def)
qed

subsection \<open>Insertion\<close>

lemma alike_map:
  assumes "alike S T"
  shows "ekey T = ekey S" "evalue T = evalue S" "entry_ok T e = entry_ok S e" "map_ok T m = map_ok S m"
    "alist T m = alist S m" "map_at T p = map_at S p" "any_ok T k = any_ok S k" "key_of T = key_of S"
proof -
  have v: "any_ok T k = any_ok S k" "key_of T k = key_of S k" for k
    using view_cong [of T S k] assms by (simp_all add: alike_def)
  then show k: "any_ok T k = any_ok S k" "key_of T = key_of S" by auto
  show e: "ekey T = ekey S" "evalue T = evalue S" using assms v
    by (auto simp: ekey_def evalue_def alike_def)
  show "entry_ok T e = entry_ok S e" for e using assms v by (auto simp: entry_ok_def alike_def split: option.splits)
  then show "map_ok T m = map_ok S m" using e by (simp add: map_ok_def)
  show "alist T m = alist S m" using e by (simp add: alist_def)
  show "map_at T p = map_at S p" using assms by (simp add: map_at_tables alike_def)
qed

lemma update_new: "k \<notin> fst ` set al \<Longrightarrow> AList.update k v al = al @ [(k, v)]"
  by (induction al) auto

lemma link_after_last: "distinct es \<Longrightarrow> es \<noteq> [] \<Longrightarrow> link_after (last es) n es = es @ [n]"
  by (induction es) auto

lemma set_map_map:
  assumes "map_at S p = Inr m"
  shows "\<exists>T. set_map p m' S = Inr T \<and> view T = view S \<and> entries T = entries S \<and> map_at T p = Inr m'"
proof -
  from assms obtain x where x: "objects S p = Some x" "body x = Table m"
    by (auto simp: map_at_def object_at_def split: option.splits payload.splits)
  then have "view (set_object p (x\<lparr>body := Table m'\<rparr>) S) = view S"
    by (intro view_set_object) (auto simp: obj_view_def)
  then show ?thesis using x by (auto simp: set_map_def object_at_def set_object_def map_at_def)
qed

lemma new_entry_keys:
  assumes "view T = view S" "entries T = (entries S)(e \<mapsto> (k, v))"
  shows "ekey T = (ekey S)(e := key_of S k)" "evalue T = (evalue S)(e := v)"
    "entry_ok T f = (if f = e then e \<noteq> 0 \<and> any_ok S k else entry_ok S f)"
  using assms view_cong [of T S] by (auto simp: ekey_def evalue_def entry_ok_def fun_eq_iff split: option.splits)

lemma add_entry_ok:
  assumes "map_at S p = Inr m" "map_ok S m" "any_ok S k" "holdable E S (any_data v)"
    and "\<And>T. entries T = entries S \<Longrightarrow> mem_alloc E T 48 \<noteq> 0 \<and> entries S (mem_alloc E T 48) = None"
    and "key_of S k \<notin> ekey S ` set (map_order m)"
  shows "\<exists>T m'. add_entry E p (slot (key_of S k)) k v S = Inr T \<and> map_at T p = Inr m' \<and> map_ok T m' \<and>
     alist T m' = alist S m @ [(key_of S k, v)]"
proof -
  have "holdable E S (any_data k)" using assms(3) by (auto simp: holdable_def elim: any_ok_split)
  from retain_alike [OF this] obtain S1 where S1: "moksha_rt_retain E (any_data k) S = Inr S1" "alike S S1" by blast
  then obtain S2 where S2: "moksha_rt_retain E (any_data v) S1 = Inr S2" "alike S1 S2"
    using retain_alike [of E S1 "any_data v"] holdable_alike [OF S1(2)] assms(4) by auto
  have a: "alike S S2" using S1(2) S2(2) by (rule alike_trans)
  define e where "e = mem_alloc E S2 48"
  have e: "e \<noteq> 0" "entries S e = None" using assms(5) [of S2] a by (auto simp: e_def alike_def)
  then have ne: "e \<notin> set (map_order m)" using assms(2) by (auto simp: map_ok_def entry_ok_def)
  define m' where "m' = m\<lparr>buckets := (buckets m)[slot (key_of S k) := e # buckets m ! slot (key_of S k)], map_size := map_size m + 1,
         map_order := (if map_tail m = 0 then [e] else link_after (map_tail m) e (map_order m)), map_tail := e\<rparr>"
  have o': "map_order m' = map_order m @ [e]"
  proof (cases "map_order m = []")
    case True
    then show ?thesis using assms(2) by (simp add: m'_def map_ok_def)
  next
    case False
    then have "map_tail m = last (map_order m)" "last (map_order m) \<noteq> 0" "distinct (map_order m)"
      using assms(2) by (auto simp: map_ok_def entry_ok_def)
    with False show ?thesis by (simp add: m'_def link_after_last)
  qed
  have "map_at (set_entry e (k, v) S2) p = Inr m" using alike_map(6) [OF a, of p] assms(1)
    by (simp add: map_at_def object_at_def set_entry_def)
  from set_map_map [OF this, of m'] obtain T where T: "set_map p m' (set_entry e (k, v) S2) = Inr T"
    "view T = view S" "entries T = (entries S)(e \<mapsto> (k, v))" "map_at T p = Inr m'"
    using a by (auto simp: alike_def)
  note n = new_entry_keys [OF T(2,3)]
  have "add_entry E p (slot (key_of S k)) k v S = Inr T"
    using S1(1) S2(1) e(1) T(1) \<open>map_at (set_entry e (k, v) S2) p = Inr m\<close> by (simp add: add_entry_def Let_def e_def [symmetric] m'_def [symmetric] split del: if_split cong del: if_weak_cong)
  moreover have "map_ok T m'" unfolding map_ok_def o' n
    using assms(2,3,6) e ne by (auto simp: map_ok_def m'_def nth_list_update entry_ok_def)
  moreover have "alist T m' = alist S m @ [(key_of S k, v)]" unfolding alist_def o' n using ne by auto
  ultimately show ?thesis using T(4) by blast
qed

lemma replace_value_ok:
  assumes "map_at S p = Inr m" "map_ok S m" "e \<in> set (map_order m)" "holdable E S (any_data v)"
    and "still_held E S (any_data (evalue S e))"
  shows "\<exists>T. replace_value E (moksha_rt_release (Suc n) E) e v S = Inr T \<and> map_at T p = Inr m \<and> map_ok T m \<and>
     alist T m = AList.update (ekey S e) v (alist S m)"
proof -
  obtain k0 v0 where e: "entries S e = Some (k0, v0)" "any_ok S k0" "e \<noteq> 0"
    using assms(2,3) by (auto simp: map_ok_def entry_ok_def split: option.splits)
  from release_alike [of E S "any_data v0" n] assms(5) e obtain S1 where
    S1: "moksha_rt_release (Suc n) E (any_data v0) S = Inr S1" "alike S S1" by (auto simp: evalue_def)
  then obtain S2 where S2: "moksha_rt_retain E (any_data v) S1 = Inr S2" "alike S1 S2"
    using retain_alike [of E S1 "any_data v"] holdable_alike [OF S1(2)] assms(4) by auto
  have a: "alike S S2" using S1(2) S2(2) by (rule alike_trans)
  define T where "T = set_entry e (k0, v) S2"
  have T: "view T = view S" "entries T = (entries S)(e \<mapsto> (k0, v))" using a
    by (auto simp: T_def alike_def)
  note n = new_entry_keys [OF T]
  have k: "ekey S e = key_of S k0" using e by (simp add: ekey_def)
  then have same: "ekey T = ekey S" unfolding n by auto
  have "entry_ok T f = entry_ok S f" for f unfolding n using e by (auto simp: entry_ok_def)
  then have "map_ok T m" using assms(2) same by (simp add: map_ok_def)
  moreover have "map_at T p = Inr m" using alike_map(6) [OF a, of p] assms(1)
    by (simp add: T_def map_at_def object_at_def set_entry_def)
  moreover have "replace_value E (moksha_rt_release (Suc n) E) e v S = Inr T"
    using e(1) S1(1) S2 S1(2) by (simp add: replace_value_def entry_at_def alike_def T_def del: moksha_rt_release.simps)
  moreover have "map (\<lambda>f. (ekey S f, ((evalue S)(e := v)) f)) es = AList.update (ekey S e) v (map (\<lambda>f. (ekey S f, evalue S f)) es)"
    if "e \<in> set es" "distinct es" "distinct (map (ekey S) es)" for es
    using that by (induction es) (auto simp: image_iff)
  then have "alist T m = AList.update (ekey S e) v (alist S m)"
    using assms(2,3) unfolding alist_def n(2) same by (auto simp: map_ok_def)
  ultimately show ?thesis by blast
qed

lemma insert_ok:
  assumes "map_at S p = Inr m" "map_ok S m" "p \<noteq> 0" "any_ok S k" "holdable E S (any_data v)"
    and "\<And>T. entries T = entries S \<Longrightarrow> mem_alloc E T 48 \<noteq> 0 \<and> entries S (mem_alloc E T 48) = None"
    and "\<And>w. map_of (alist S m) (key_of S k) = Some w \<Longrightarrow> still_held E S (any_data w)"
  shows "\<exists>T m'. moksha_rt_map_insert E (moksha_rt_release (Suc n) E) p (Some k) v S = Inr T \<and> map_at T p = Inr m' \<and>
     map_ok T m' \<and> alist T m' = AList.update (key_of S k) v (alist S m)"
proof -
  from get_found [OF assms(1,2,4,3)] obtain r where
    r: "find_entry S k (buckets m ! slot (key_of S k)) = Inr r"
      "case r of None \<Rightarrow> key_of S k \<notin> ekey S ` set (map_order m) | Some e \<Rightarrow> e \<in> set (map_order m) \<and> ekey S e = key_of S k" .
  have k: "any_data k \<noteq> 0" using assms(4) by (simp add: any_ok_def)
  have i: "moksha_rt_map_insert E R p (Some k) v S =
      (case r of Some e \<Rightarrow> replace_value E R e v S | None \<Rightarrow> add_entry E p (slot (key_of S k)) k v S)" for R
    using assms(1,3) k r(1) hash_key [OF assms(4)] bucket_of_ok [OF assms(2)]
    by (cases r) (simp_all add: moksha_rt_map_insert_def slot_def)
  show ?thesis
  proof (cases r)
    case None
    then have "key_of S k \<notin> ekey S ` set (map_order m)" using r(2) by simp
    then have "AList.update (key_of S k) v (alist S m) = alist S m @ [(key_of S k, v)]"
      by (intro update_new) (auto simp: alist_def)
    with add_entry_ok [OF assms(1,2,4,5,6) \<open>key_of S k \<notin> _\<close>] None show ?thesis by (simp add: i)
  next
    case (Some e)
    then have e: "e \<in> set (map_order m)" "ekey S e = key_of S k" using r(2) by simp_all
    have "map_of (alist S m) (key_of S k) = Some (evalue S e)"
      using map_of_alist [of S m e] e assms(2) by (simp add: map_ok_def)
    from replace_value_ok [OF assms(1,2) e(1) assms(5) assms(7) [OF this], of n] Some e(2)
    show ?thesis by (auto simp: i simp del: moksha_rt_release.simps)
  qed
qed

subsection \<open>Removal\<close>

lemma prev_of_snoc: "e \<notin> set xs \<Longrightarrow> prev_of e (xs @ [e]) = (if xs = [] then 0 else last xs)"
proof (induction xs)
  case (Cons a xs)
  then show ?case by (cases xs) auto
qed simp

lemma remove_tail:
  assumes "distinct es" "e \<in> set es"
  shows "(if last es = e then prev_of e es else last es) = (if remove1 e es = [] then 0 else last (remove1 e es))"
proof -
  obtain xs l where es: "es = xs @ [l]" using assms(2) by (cases es rule: rev_cases) auto
  then show ?thesis using assms by (auto simp: prev_of_snoc remove1_append)
qed

lemma remove_ok:
  assumes "map_at S p = Inr m" "map_ok S m" "p \<noteq> 0" "any_ok S k"
  shows "\<exists>T m'. moksha_rt_map_remove p (Some k) S = Inr T \<and> map_at T p = Inr m' \<and> map_ok T m' \<and>
     alist T m' = AList.delete (key_of S k) (alist S m)"
proof -
  have "\<forall>e\<in>set (map_order m). entry_ok S e" using assms(2) by (simp add: map_ok_def)
  note f = find_entry_find [OF assms(4) this]
  show ?thesis
  proof (cases "find (\<lambda>e. ekey S e = key_of S k) (map_order m)")
    case None
    then have "key_of S k \<notin> fst ` set (alist S m)" by (auto simp: find_None_iff alist_def)
    then have "AList.delete (key_of S k) (alist S m) = alist S m" by (simp add: delete_idem)
    then show ?thesis using None f assms by (simp add: moksha_rt_map_remove_def)
  next
    case (Some e)
    then have e: "e \<in> set (map_order m)" "ekey S e = key_of S k" by (auto simp: find_Some_iff in_set_conv_nth)
    define m' where "m' = m\<lparr>map_order := remove1 e (map_order m),
                   map_tail := (if map_tail m = e then prev_of e (map_order m) else map_tail m),
                   buckets := map (remove1 e) (buckets m), map_size := map_size m - 1\<rparr>"
    from set_map_map [OF assms(1), of m'] obtain T0 where T0: "set_map p m' S = Inr T0" "view T0 = view S" "entries T0 = entries S"
      "map_at T0 p = Inr m'" by blast
    define T where "T = free_entry e T0"
    have T: "view T = view S" "entries T = (entries S)(e := None)" "map_at T p = Inr m'" using T0
      by (auto simp: T_def) (simp add: map_at_def object_at_def free_entry_def)
    have o': "map_order m' = remove1 e (map_order m)" "set (map_order m') = set (map_order m) - {e}" "distinct (map_order m)"
      using assms(2) by (auto simp: m'_def map_ok_def)
    have k: "ekey T f = ekey S f" "evalue T f = evalue S f" "entry_ok T f = entry_ok S f" if "f \<noteq> e" for f
      using that T view_cong [of T S] by (auto simp: ekey_def evalue_def entry_ok_def split: option.splits)
    then have keys: "map (ekey T) (map_order m') = map (ekey S) (map_order m')" "alist T m' = alist S m'"
      using o'(2) by (auto simp: alist_def)
    have inj: "inj_on (ekey S) (set (map_order m))" using assms(2) by (simp add: map_ok_def distinct_map)
    have "map_ok T m'" unfolding map_ok_def keys(1)
    proof (intro conjI allI impI ballI)
      have "length (map_order m) = Suc (length (map_order m'))"
        using length_pos_if_in_set [OF e(1)] e(1) by (simp add: o'(1) length_remove1)
      moreover have "map_size m' = map_size m - 1" "map_size m = of_nat (length (map_order m))"
        using assms(2) by (simp_all add: m'_def map_ok_def)
      ultimately show "map_size m' = of_nat (length (map_order m'))" by simp
      show "map_tail m' = (if map_order m' = [] then 0 else last (map_order m'))"
        using remove_tail [OF o'(3) e(1)] assms(2) e(1) by (auto simp: m'_def map_ok_def)
      show "distinct (map (ekey S) (map_order m'))" using inj o' by (simp add: distinct_map inj_on_diff)
      show "entry_ok T f" if "f \<in> set (map_order m')" for f using that k o'(2) assms(2) by (simp add: map_ok_def)
      fix i :: nat
      assume i: "i < 16"
      then have b: "buckets m' ! i = remove1 e (buckets m ! i)" "distinct (buckets m ! i)"
        "set (buckets m ! i) = {f \<in> set (map_order m). slot (ekey S f) = i}"
        using assms(2) by (auto simp: m'_def map_ok_def)
      then show "distinct (buckets m' ! i)" by simp
      show "set (buckets m' ! i) = {f \<in> set (map_order m'). slot (ekey T f) = i}" using b o'(2) k by auto
    qed (use assms(2) o' in \<open>auto simp: m'_def map_ok_def\<close>)
    moreover have "moksha_rt_map_remove p (Some k) S = Inr T" using assms(1,3) f Some T0(1)
      by (simp add: moksha_rt_map_remove_def m'_def [symmetric] T_def split del: if_split cong del: if_weak_cong)
    moreover have "alist S m' = AList.delete (key_of S k) (alist S m)"
    proof -
      have "filter (\<lambda>f. ekey S f \<noteq> key_of S k) (map_order m) = filter (\<lambda>f. f \<noteq> e) (map_order m)"
        using inj e by (intro filter_cong) (auto simp: inj_on_def)
      also have "\<dots> = map_order m'" using o' by (simp add: distinct_remove1_removeAll removeAll_filter_not_eq eq_commute)
      finally show ?thesis by (simp add: alist_def AList.delete_eq filter_map comp_def eq_commute)
    qed
    ultimately show ?thesis using T(3) keys(2) by metis
  qed
qed

lemma new_map:
  assumes "moksha_rt_map_new E S = Inr (p, T)"
  shows "p \<noteq> 0 \<and> (\<exists>m. map_at T p = Inr m \<and> map_ok T m \<and> alist T m = [])"
  using assms by (auto simp: moksha_rt_map_new_def moksha_rt_alloc_def Let_def map_at_def object_at_def set_object_def map_ok_def
    alist_def split: if_splits)

subsection \<open>Examples\<close>

definition fixedAlloc :: rt_env where
  "fixedAlloc = \<lparr>mem_alloc = (\<lambda>S n. 4194304), stack_pointer = 268435456, has_threads = False\<rparr>"

definition boxed :: "8 word \<Rightarrow> object" where
  "boxed b = \<lparr>ref_count = 1, weak_count = 1, obj_type = MOKSHA_TYPE_I32, capacity_bytes = 4, body = Blob [b, 0, 0, 0]\<rparr>"

definition emptyTable :: moksha_map where
  "emptyTable = \<lparr>buckets = replicate 16 [], map_capacity = 16, map_size = 0, map_order = [], map_tail = 0\<rparr>"

text \<open>A map at 8 and two numbers at 1000 and 2000.\<close>

definition exampleHeap :: rt where
  "exampleHeap = \<lparr>objects = [8 \<mapsto> \<lparr>ref_count = 1, weak_count = 1, obj_type = MOKSHA_TYPE_TABLE, capacity_bytes = 32, body = Table emptyTable\<rparr>,
     1000 \<mapsto> boxed 5, 2000 \<mapsto> boxed 6], entries = (\<lambda>_. None)\<rparr>"

definition anyAt :: "nat \<Rightarrow> any_value" where
  "anyAt p = \<lparr>any_data = p, any_vtable = None\<rparr>"

lemma example_ok:
  "map_at exampleHeap 8 = Inr emptyTable" "map_ok exampleHeap emptyTable" "alist exampleHeap emptyTable = []"
  "any_ok exampleHeap (anyAt 1000)" "key_of exampleHeap (anyAt 1000) = NumKey MOKSHA_TYPE_I32 5"
  "holdable fixedAlloc exampleHeap (any_data (anyAt 2000))"
  by (simp_all add: map_at_def object_at_def exampleHeap_def emptyTable_def map_ok_def alist_def any_ok_def anyAt_def view_def
    obj_view_def boxed_def key_of_def is_word32_def is_word64_def holdable_def)

subsection \<open>Properties\<close>



text \<open>
  C38: Inserting for a key the value it already has, when the map is the only owner of the value, is a use
  after free: the value is released, and thereby freed, before it is retained.
\<close>

theorem reinsert_uses_freed_value:
  assumes "map_at S p = Inr m" "map_ok S m" "p \<noteq> 0" "any_ok S k" "map_of (alist S m) (key_of S k) = Some v"
    and "any_data v \<noteq> 0" "\<not> is_stack_ptr E (any_data v)" "objects S (any_data v) = Some x" "ref_count x = 1" "weak_count x = 1"
    and "obj_type x \<noteq> MOKSHA_TYPE_PROMISE" "obj_type x \<noteq> MOKSHA_TYPE_TABLE"
  shows "moksha_rt_map_insert E (moksha_rt_release (Suc n) E) p (Some k) v S = Inl Fault"
proof -
  from get_found [OF assms(1,2,4,3)] obtain r where
    r: "find_entry S k (buckets m ! slot (key_of S k)) = Inr r"
      "case r of None \<Rightarrow> key_of S k \<notin> ekey S ` set (map_order m) | Some e \<Rightarrow> e \<in> set (map_order m) \<and> ekey S e = key_of S k" .
  have "r \<noteq> None" using r(2) assms(5) map_of_alist_None [of "key_of S k" S m] by (cases r) auto
  then obtain e where e: "r = Some e" "e \<in> set (map_order m)" "ekey S e = key_of S k" using r(2) by auto
  then have "evalue S e = v" using map_of_alist [of S m e] assms(2,5) by (simp add: map_ok_def)
  then obtain k0 where "entries S e = Some (k0, v)" using assms(2) e(2)
    by (auto simp: map_ok_def entry_ok_def evalue_def split: option.splits)
  then have "replace_value E (moksha_rt_release (Suc n) E) e v S = Inl Fault" using assms(6-12)
    by (simp add: replace_value_def entry_at_def moksha_rt_release_with_dtor_def object_at_def Let_def drop_last_def set_object_def
      destroy_builtin_def drop_weak_def free_object_def moksha_rt_retain_def)
  then show ?thesis using assms(1,3,4) r(1) e(1) hash_key [OF assms(4)] bucket_of_ok [OF assms(2)]
    by (simp add: moksha_rt_map_insert_def slot_def any_ok_def del: moksha_rt_release.simps)
qed

definition oneEntry :: moksha_map where
  "oneEntry = emptyTable\<lparr>buckets := (buckets emptyTable)[slot (NumKey MOKSHA_TYPE_I32 5) := [4]], map_size := 1, map_order := [4], map_tail := 4\<rparr>"

definition oneEntryHeap :: rt where
  "oneEntryHeap = exampleHeap\<lparr>objects := (objects exampleHeap)(8 \<mapsto> \<lparr>ref_count = 1, weak_count = 1, obj_type = MOKSHA_TYPE_TABLE,
     capacity_bytes = 32, body = Table oneEntry\<rparr>), entries := [4 \<mapsto> (anyAt 1000, anyAt 2000)]\<rparr>"

lemma one_entry_ok:
  "map_at oneEntryHeap 8 = Inr oneEntry" "any_ok oneEntryHeap (anyAt 1000)"
  "key_of oneEntryHeap (anyAt 1000) = NumKey MOKSHA_TYPE_I32 5" "alist oneEntryHeap oneEntry = [(NumKey MOKSHA_TYPE_I32 5, anyAt 2000)]"
  by (simp_all add: map_at_def object_at_def oneEntryHeap_def exampleHeap_def any_ok_def anyAt_def view_def
    obj_view_def boxed_def key_of_def is_word32_def is_word64_def alist_def oneEntry_def ekey_def evalue_def)

lemma one_entry_map: "map_ok oneEntryHeap oneEntry"
proof -
  have "ekey oneEntryHeap 4 = NumKey MOKSHA_TYPE_I32 5" using one_entry_ok(3) by (simp add: ekey_def oneEntryHeap_def)
  moreover have "entry_ok oneEntryHeap 4" using one_entry_ok(2) by (simp add: entry_ok_def oneEntryHeap_def)
  ultimately show ?thesis by (auto simp: map_ok_def oneEntry_def emptyTable_def nth_list_update)
qed

theorem reinsert_uses_freed_value_witness:
  "moksha_rt_map_insert fixedAlloc (moksha_rt_release 1 fixedAlloc) 8 (Some (anyAt 1000)) (anyAt 2000) oneEntryHeap = Inl Fault"
proof -
  have "objects oneEntryHeap (any_data (anyAt 2000)) = Some (boxed 6)" by (simp add: oneEntryHeap_def exampleHeap_def anyAt_def)
  moreover have "\<not> is_stack_ptr fixedAlloc (any_data (anyAt 2000))" by (simp add: is_stack_ptr_def fixedAlloc_def anyAt_def)
  ultimately show ?thesis
    using reinsert_uses_freed_value [OF one_entry_ok(1) one_entry_map _ one_entry_ok(2), of "anyAt 2000" fixedAlloc "boxed 6" 0] one_entry_ok(3,4)
    by (simp add: boxed_def anyAt_def)
qed

end
