(* ===== verification/Spec2Isabelle.thy ===== *)
theory Spec2Isabelle
  imports ParserLoops GenericProps MacroRecursion SymbolTable SimplifyProps DominanceProps HIRModule DeadCodeProps ConstantFoldProps JumpThreadProps
    EscapeProps DropProps NLLReports AsyncProps PromiseRace RtHeapProps RtMapProps
begin

text \<open>
  A verification library of the Moksha compiler (C++, under \<open>src/\<close>).

  The compiler runs a pipeline: the lexer and the parser turn a source buffer into an AST, the
  semantic phases (symbol table, type checker, generics, macros) annotate it, HIR and MIR are
  generated from it, the MIR passes optimise it, and MLIR and LLVM lower it.  All phases report
  to one diagnostic engine.  The library models the parts below as pure functions on explicit
  states, one definition per C++ function (or per loop or section of a long one), with the names
  of the source.

  \<^bold>\<open>Theories, in the order of the pipeline\<close>

  \<^item> \<open>Moksha_Prelude\<close>: byte classes, the scanning loop \<open>advance_while\<close>, vectors used as sets.
  \<^item> \<open>Diagnostics\<close> (\<open>Diagnostics.h/.cpp\<close>): identifiers, severities, texts, \<open>report\<close> and \<open>emit\<close>
    on the record \<open>diag_engine\<close>; the error counter is a 32-bit word.  Shown: the counter is the
    number of printed errors modulo its width.
  \<^item> \<open>Token\<close> (\<open>Lexer.h\<close>): token kinds, numeric suffixes, flags, the token record, the keyword
    and suffix tables.
  \<^item> \<open>Lexer\<close> (\<open>Lexer.cpp\<close>): the record \<open>lexer\<close> is the class's state; \<open>lex_next\<close> is
    \<open>Lexer::next\<close> with all its scanners.  LLVM's two UTF-8 routines are the parameter
    \<open>U :: utf8_lib\<close>.  Every loop is a total function, by the distance to the end of the buffer.
  \<^item> \<open>LexerInv\<close>, \<open>LexerProps\<close>, \<open>LexerSpell\<close>: the invariant of the lexer over a run; the
    interface \<open>token_source\<close> (state predicate, bytes left, end of file) the parser relies on, and
    its interpretation on \<open>lex_next\<close> for plain ASCII sources; the dichotomy end of file or stuck
    for every source; recognition of keywords, identifiers, nested comments, decimal integers and
    string literals.
  \<^item> \<open>ParserCore\<close> (\<open>Parser.cpp\<close>): the two-token window, \<open>advance\<close>, \<open>expect\<close>,
    \<open>expectGreater\<close>, \<open>synchronize\<close>, the import list, \<open>unescapeString\<close> and the string literals.
    The two loops that end only if the lexer does are \<open>partial_function\<close>s: \<open>None\<close> is a loop that
    never returns.  \<open>llvm::ConvertCodePointToUTF8\<close> is the parameter \<open>conv\<close>.
  \<^item> \<open>ParserProps\<close>: recovery and the import list end and consume input wherever the interface
    \<open>token_source\<close> holds, and never return when the lexer is stuck; the import grammar is parsed
    exactly; lexing and parsing a string literal yields the bytes it denotes.
  \<^item> \<open>AST\<close> (\<open>AST/Type.h\<close>, \<open>Expr.h\<close>, \<open>Stmt.h\<close>): one constructor per node class; a child the
    parser may leave null is an option.
  \<^item> \<open>ParserLook\<close>, \<open>ParserExpr\<close>, \<open>ParserDecl\<close>, \<open>ParserModule\<close> (\<open>Parser.cpp\<close>): the grammar, one
    definition per method: the byte lookahead of \<open>isStartOfDeclaration\<close>, types and expressions,
    declarations, statements and modules.  A method takes the record \<open>R\<close> of the methods it calls
    recursively; \<open>parsers C n\<close> ties the knot with at most \<open>n\<close> calls nested, and the loops are
    instances of the partial function \<open>loop\<close>.  The record \<open>C\<close> is what the parser takes from outside:
    \<open>std::stod\<close>, the UTF-8 routines and the order of argument evaluation.
  \<^item> \<open>ParserGrammar\<close>: the methods of the twelve operator levels parse exactly an inductive grammar
    with precedences and left associativity.  \<open>ParserFuel\<close>: one syntax-directed pass over all methods
    (\<open>ok\<close>) shows that the result does not depend on the depth of recursion allowed and that every method
    keeps the source, the loop depth and the lexer's invariant.  \<open>ParserLoops\<close>: an enum with a wrong
    token and an unclosed switch are never finished, a product at the end of a line is cut, and what an
    integer literal means.
  \<^item> \<open>ASTType\<close> (\<open>Type.h/.cpp\<close>): predicates, modifiers, equivalence and texts of types; the \<open>clone\<close>
    methods of all nodes are in \<open>AST\<close>.  A child that is dereferenced although it may be null makes
    the result \<open>None\<close>.  Shown: equivalence is equality up to locations wherever sizes are literals.
  \<^item> \<open>GenericResolver\<close>, \<open>GenericProps\<close> (\<open>GenericResolver.h/.cpp\<close>): validation of generic arguments,
    substitution, mangled names and the cached instances, the maps of the class being its state.
    Shown: which type parameters a substitution leaves, that an instance is made once, and that two
    different types can share one.
  \<^item> \<open>Macros\<close>, \<open>MacroExpander\<close> (\<open>MacroExpander.cpp\<close>, \<open>Macro.h\<close>): the substituter is a state monad over
    its map of renamed locals, with one more substituter per parameter nested in it; the visitor
    rewrites the module and threads the diagnostic engine.  The record \<open>L\<close> is what comes from outside:
    addresses of declarations and the order of argument evaluation.  \<open>tie L T n\<close> ties the
    knot of the visitor with at most \<open>n\<close> calls nested.
  \<^item> \<open>ASTParts\<close>, \<open>MacroProps\<close>, \<open>MacroSubst\<close>: the nodes of a tree; what every node of an expansion
    looks like (hygiene, losses) and what a parameter is replaced by.  \<open>MacroFuel\<close>, \<open>MacroRecursion\<close>:
    the result does not depend on the bound, trees without macro calls are unchanged, a macro that
    calls itself is cut off after 257 expansions, or never when the call is in an argument.
  \<^item> \<open>SymbolTable\<close> (\<open>SymbolTable.h/.cpp\<close>): scopes, \<open>addSymbol\<close>, overloads, \<open>lookup\<close>,
    primitive types; the interface \<open>scoped_env\<close> of a scoped environment, interpreted on the
    table, with the block discipline proved once inside it.
  \<^item> \<open>MIR\<close> (\<open>MIRInst.h/.cpp\<close>, \<open>MIRBlock\<close>, \<open>MIRFunction\<close>): values as tagged object numbers,
    one constructor per instruction class, operand replacement, blocks with their edge lists.
  \<^item> \<open>SimplifyCFG\<close>, \<open>SimplifyProps\<close> (\<open>SimplifyCFGPass.cpp\<close>): the whole pass (healer, branch
    folding, bypassing, merging, dead block sweep, the loop around them).  Shown: the healer
    makes the edge lists the edges of the terminators (\<open>synced\<close>), bypassing and merging keep
    that, the sweep on such functions keeps all that is reachable, and without conditional
    branches the pass ends with a well-formed function.  Branch folding removes an edge that is
    in use: one function loses its return block, on another the pass never ends.
  \<^item> \<open>MIRDominance\<close>, \<open>DominanceProps\<close> (\<open>MIRDominance.cpp\<close>): the dominator analysis of Cooper,
    Harvey and Kennedy with its reverse post-order, tree and DFS numbers; the traversal order of
    the hash map is the parameter \<open>iter\<close>.  Shown: it ends, \<open>dominates\<close> is dominance by paths,
    the recorded dominators are the immediate ones, and what \<open>verifySSA\<close> accepts is defined before
    use, as far as it looks.
  \<^item> \<open>HIRType\<close>, \<open>HIRModule\<close> (\<open>HIRType.h/.cpp\<close>, \<open>HIRModule.cpp\<close>): the type objects on a heap,
    their texts and profiles, and the interning getters; LLVM's folding set is the parameter \<open>fs\<close>
    with the law \<open>folding_set\<close>.  Shown: types are canonical over any history, except pointer types
    with different ownership and borrow numbers, which are never found again.
  \<^item> \<open>MIRModule\<close> (\<open>MIRModule.cpp\<close>, \<open>MIRGlobal.h\<close>, \<open>PassManager.cpp\<close>): constants, globals,
    the module with its caches, value names, the fifteen rounds of the pass manager.
  \<^item> \<open>DeadCode\<close>, \<open>DeadCodeProps\<close> (\<open>DeadCodeEliminationPass.cpp\<close>): the whole pass.  The
    interface \<open>exploration\<close> of a worklist search is interpreted on its two loops.  Shown: exactly the
    reachable blocks and exactly the needed instructions and globals stay, and nothing dangles.
  \<^item> \<open>ConstantFolding\<close>, \<open>ConstantFoldProps\<close> (\<open>ConstantFoldingPass.cpp\<close>): the whole pass; \<open>double\<close>
    arithmetic is the parameter \<open>fp\<close>.  Shown: the control flow graph stays consistent, integer
    arithmetic and comparisons are exact in 64 bits; unsigned predicates and the width of the type are
    not respected.
  \<^item> \<open>JumpThreading\<close>, \<open>JumpThreadProps\<close> (\<open>JumpThreadingPass.cpp\<close>): the whole pass.  Shown: edges,
    phis and parents stay in order; SSA form is not kept.
  \<^item> \<open>EscapeAnalysis\<close>, \<open>EscapeProps\<close> (\<open>EscapeAnalysisPass.cpp\<close>): the whole pass; an access to an erased
    instruction is \<open>None\<close>.  Shown: the search is exact with respect to the def-use map, and that
    promotion to the stack reads an instruction it has erased.
  \<^item> \<open>DropElision\<close>, \<open>DropProps\<close> (\<open>DropElisionPass.cpp\<close>): the whole pass.  Shown: the analysis of moves
    ends and is right on every path; the sweep removes explicit drops too.
  \<^item> \<open>NLLBorrow\<close> (\<open>NLLBorrowChecker.h/.cpp\<close>): the whole borrow checker, its sections nested as in the code;
    borrow kinds of arguments and globals are the parameter \<open>bk\<close>.  \<open>NLLProps\<close>: only moves are tracked.
    \<open>NLLFlow\<close>: the analysis ends (what blocks have seen grows, or news come nearer to the front of the
    queue) and covers every path.  \<open>NLLReports\<close>: use after move is reported, conflicts of borrows never are.

  \<^bold>\<open>The runtime\<close> (C, under \<open>src/runtime/\<close>), which compiled programs call

  \<^item> \<open>Scheduler\<close> (\<open>async/scheduler.c\<close>): the queue with its tail pointer, the registry of priorities and
    ageing.  Shown: the order of the queue in every reachable state, and that no task starves.
  \<^item> \<open>Async\<close>, \<open>AsyncProps\<close> (\<open>async/task.c\<close>, \<open>async_builtins.c\<close>, \<open>core/channel.c\<close>): promises and channels
    on the scheduler.  The interface \<open>bounded_fifo\<close> is interpreted on channels nobody waits on.  Shown:
    no access outside the ring buffer whatever is called, order of messages, and where waiting breaks it.
  \<^item> \<open>PromiseRace\<close>: resolving and awaiting a promise as interleaved machine steps, with and without a
    store buffer.  Shown: a waiter is woken exactly once without the buffer, and may never be with it.
  \<^item> \<open>RtHeap\<close>, \<open>RtHeapProps\<close> (\<open>core/arc.c\<close>): objects with strong and weak counts; the allocator, the stack
    pointer and threads are the parameter \<open>E\<close>.  Shown: the counts are exact for every history.
  \<^item> \<open>RtMap\<close>, \<open>RtMapProps\<close> (\<open>core/map.c\<close>): the hash map on that heap, with errors as a sum.  Shown: it
    implements an association list in insertion order; replacing a value by itself is a use after free.

  \<^bold>\<open>Conventions\<close>

  A pointer into the source buffer is its offset; a pointer to an object is a number.  Null
  pointers are \<open>None\<close> where the code tests for them.  Failed assertions, reads outside the buffer
  and loops that never return are \<open>None\<close>.  Machine integers are words of their width where they
  can wrap (token lengths, the error counter, code points, flags).  Loops are
  total functions with a measure, or partial functions whose termination is a theorem.  The only bounds
  are the recursion depths of the parser, of the macro expander and of nested releases of maps
  (\<open>moksha_rt_release\<close>, one level per map in a map): with too little of it a call does not return, and a result reached with some bound is the result with every larger one
  (\<open>parse_result_unique\<close>, \<open>expansion_unique\<close>).

  \<^bold>\<open>Not modelled\<close>

  The context and the printer of the AST, type checking, HIR expressions, statements and their lowering, the remaining MIR passes (inlining,
  promotion of memory to registers, scalar replacement), the MIR
  verifier and builder, ownership, MLIR and LLVM lowering, the driver, the rest of
  the runtime (threads, timers, arrays, strings, files, the network) and all printing.
\<close>

end
